(* ===== verification/Sable_Prelude.thy ===== *)
theory Sable_Prelude
  imports Main "HOL-Library.Word"
begin

text \<open>
  Shared vocabulary of the development: the machine integers of the i386 build of SABLE
  (\<^verbatim>\<open>include/platform.h\<close>), byte lists as the contents of C buffers, little- and big-endian
  views of integers, and the buffer update \<open>splice\<close> that every copy into a fixed buffer uses.
  The generic lemmas on them are collected here, so that the component theories only reason
  about their own code.
\<close>

unbundle bit_operations_syntax

type_synonym u8 = "8 word"
type_synonym u16 = "16 word"
type_synonym u32 = "32 word"
type_synonym u64 = "64 word"
type_synonym bytes = "u8 list"

named_theorems endian \<open>conversions between integers and their bytes\<close>
named_theorems buffer \<open>reading and writing a region of a byte buffer\<close>

section \<open>Integers as bytes\<close>

text \<open>The bytes of an integer in memory order on a little-endian machine, and back.\<close>

definition le16 :: "u16 \<Rightarrow> bytes" where
  "le16 v = [ucast v, ucast (drop_bit 8 v)]"

definition le32 :: "u32 \<Rightarrow> bytes" where
  "le32 v = [ucast v, ucast (drop_bit 8 v), ucast (drop_bit 16 v), ucast (drop_bit 24 v)]"

definition be16 :: "u16 \<Rightarrow> bytes" where
  "be16 v = [ucast (drop_bit 8 v), ucast v]"

definition be32 :: "u32 \<Rightarrow> bytes" where
  "be32 v = [ucast (drop_bit 24 v), ucast (drop_bit 16 v), ucast (drop_bit 8 v), ucast v]"

definition of_be16 :: "bytes \<Rightarrow> u16" where
  "of_be16 b = push_bit 8 (ucast (b ! 0)) OR ucast (b ! 1)"

definition of_be32 :: "bytes \<Rightarrow> u32" where
  "of_be32 b = push_bit 24 (ucast (b ! 0)) OR push_bit 16 (ucast (b ! 1))
     OR push_bit 8 (ucast (b ! 2)) OR ucast (b ! 3)"

definition of_le16 :: "bytes \<Rightarrow> u16" where
  "of_le16 b = ucast (b ! 0) OR push_bit 8 (ucast (b ! 1))"

definition of_le32 :: "bytes \<Rightarrow> u32" where
  "of_le32 b = ucast (b ! 0) OR push_bit 8 (ucast (b ! 1))
     OR push_bit 16 (ucast (b ! 2)) OR push_bit 24 (ucast (b ! 3))"

lemma length_endian [simp]:
  "length (le16 v) = 2" "length (be16 v) = 2" "length (le32 w) = 4" "length (be32 w) = 4"
  by (simp_all add: le16_def be16_def le32_def be32_def)

text \<open>Case distinction on the byte a bit lies in, used to compare words bit by bit.\<close>

lemma less_32_E:
  assumes "(n::nat) < 32"
  obtains "n < 8" | m where "n = 8 + m" "m < 8" | m where "n = 16 + m" "m < 8"
    | m where "n = 24 + m" "m < 8"
proof -
  consider "n < 8" | "8 \<le> n" "n < 16" | "16 \<le> n" "n < 24" | "24 \<le> n" using assms by linarith
  then show thesis
  proof cases
    case 1 then show ?thesis by (rule that(1))
  next
    case 2 then show ?thesis by (intro that(2) [of "n - 8"]) auto
  next
    case 3 then show ?thesis by (intro that(3) [of "n - 16"]) auto
  next
    case 4 with assms show ?thesis by (intro that(4) [of "n - 24"]) auto
  qed
qed

lemma word32_eqI:
  assumes "\<And>m. m < 8 \<Longrightarrow> bit (v::u32) m = bit w m"
    and "\<And>m. m < 8 \<Longrightarrow> bit v (8 + m) = bit w (8 + m)"
    and "\<And>m. m < 8 \<Longrightarrow> bit v (16 + m) = bit w (16 + m)"
    and "\<And>m. m < 8 \<Longrightarrow> bit v (24 + m) = bit w (24 + m)"
  shows "v = w"
  by (rule bit_word_eqI) (auto elim!: less_32_E simp: assms)

lemma byte_bit: "bit (b :: u8) m \<Longrightarrow> m < 8"
  using bit_imp_le_length by fastforce

lemma byte_bit_high [simp]:
  "\<not> bit (b :: u8) (8 + m)" "\<not> bit b (16 + m)" "\<not> bit b (24 + m)"
  by (auto dest: byte_bit)

lemma of_be32_be32 [endian, simp]: "of_be32 (be32 v) = v"
  by (rule word32_eqI) (auto simp: of_be32_def be32_def bit_simps)

lemma of_le32_le32 [endian, simp]: "of_le32 (le32 v) = v"
  by (rule word32_eqI) (auto simp: of_le32_def le32_def bit_simps)

lemma of_be16_be16 [endian, simp]: "of_be16 (be16 v) = v"
  by (rule bit_word_eqI) (auto simp: of_be16_def be16_def bit_simps)

lemma of_le16_le16 [endian, simp]: "of_le16 (le16 v) = v"
  by (rule bit_word_eqI) (auto simp: of_le16_def le16_def bit_simps)

lemma length_4_E:
  assumes "length b = 4"
  obtains w x y z where "b = [w, x, y, z]"
  using assms by (auto simp: numeral_eq_Suc length_Suc_conv)

lemma length_2_E:
  assumes "length b = 2"
  obtains w x where "b = [w, x]"
  using assms by (auto simp: numeral_eq_Suc length_Suc_conv)

lemma be32_of_be32 [endian]: "length b = 4 \<Longrightarrow> be32 (of_be32 b) = b"
  by (elim length_4_E)
    (auto simp: be32_def of_be32_def bit_simps intro!: bit_word_eqI dest: byte_bit)

lemma le32_of_le32 [endian]: "length b = 4 \<Longrightarrow> le32 (of_le32 b) = b"
  by (elim length_4_E)
    (auto simp: le32_def of_le32_def bit_simps intro!: bit_word_eqI dest: byte_bit)

lemma be16_of_be16 [endian]: "length b = 2 \<Longrightarrow> be16 (of_be16 b) = b"
  by (elim length_2_E)
    (auto simp: be16_def of_be16_def bit_simps intro!: bit_word_eqI dest: byte_bit)

text \<open>
  \<open>ntohl\<close> and \<open>htonl\<close> (\<^verbatim>\<open>include/arch-amd/asm.h\<close>) are one \<open>bswap\<close> instruction;
  \<open>ntohs\<close> and \<open>htons\<close> (\<^verbatim>\<open>include/util.h\<close>) are two shifts.
\<close>

definition ntohl :: "u32 \<Rightarrow> u32" where
  "ntohl v = of_be32 (le32 v)"

definition htonl :: "u32 \<Rightarrow> u32" where
  "htonl v = of_be32 (le32 v)"

definition ntohs :: "u16 \<Rightarrow> u16" where
  "ntohs v = drop_bit 8 v OR push_bit 8 v"

definition htons :: "u16 \<Rightarrow> u16" where
  "htons v = drop_bit 8 v OR push_bit 8 v"

lemma le32_htonl [endian, simp]: "le32 (htonl v) = be32 v"
  by (auto simp: htonl_def le32_def be32_def of_be32_def intro!: bit_word_eqI simp: bit_simps)

lemma le32_ntohl [endian, simp]: "le32 (ntohl v) = be32 v"
  using le32_htonl by (simp add: ntohl_def htonl_def)

lemma le16_htons [endian, simp]: "le16 (htons v) = be16 v"
  by (auto simp: htons_def le16_def be16_def intro!: bit_word_eqI simp: bit_simps)

lemma ntohl_of_le32 [endian, simp]: "ntohl (of_le32 b) = of_be32 b"
  by (rule word32_eqI) (auto simp: ntohl_def of_le32_def of_be32_def le32_def bit_simps)

lemma ntohs_of_le16 [endian, simp]: "ntohs (of_le16 b) = of_be16 b"
  by (rule bit_word_eqI)
    (auto simp: ntohs_def of_le16_def of_be16_def bit_simps dest: byte_bit)

lemma ntohl_ntohl [simp]: "ntohl (ntohl v) = v"
  using ntohl_of_le32 [of "le32 (ntohl v)"] le32_htonl [of v]
  by (simp add: ntohl_def htonl_def)

section \<open>Arithmetic\<close>

lemma unat_u32_less: "unat (v :: u32) < 2 ^ 32"
  using unsigned_less [of v] by simp

lemma and_all_ones [simp]: "v AND 0xffffffff = (v :: u32)"
proof -
  have "(0xffffffff :: u32) = - 1" by simp
  then show ?thesis by (simp only: and.right_neutral)
qed

lemma unat_eq_of_nat_iff: "k < 2 ^ 32 \<Longrightarrow> unat (v :: u32) = k \<longleftrightarrow> v = of_nat k"
  by (auto simp: unat_of_nat take_bit_nat_eq_self)

lemma ex_ge_Suc: "\<not> P i \<Longrightarrow> (\<exists>j \<ge> i. j < n \<and> P j) \<longleftrightarrow> (\<exists>j \<ge> Suc i. j < n \<and> P j)"
  by (metis Suc_leD le_antisym not_less_eq_eq)

lemma div_mod_add_small:
  assumes "n mod k + c < (k::nat)"
  shows "(n + c) div k = n div k" "(n + c) mod k = n mod k + c"
proof -
  define q r where "q = n div k" and "r = n mod k"
  have r: "r + c < k" and e: "n + c = (r + c) + k * q" using assms by (simp_all add: q_def r_def)
  have "(n + c) div k = q" "(n + c) mod k = r + c" unfolding e using r by simp_all
  then show "(n + c) div k = n div k" "(n + c) mod k = n mod k + c"
    by (simp_all add: q_def r_def)
qed

lemma fill_block:
  assumes "n mod k + c = (k::nat)"
  shows "n + c = k * (n div k + 1)"
proof -
  have "n + c = k * (n div k) + (n mod k + c)" by simp
  then show ?thesis unfolding assms by (simp add: distrib_left)
qed

section \<open>Regions of a buffer\<close>

text \<open>
  \<open>splice buf off src\<close> is the buffer after \<open>memcpy(buf + off, src, length src)\<close>. It is only
  used where the copy stays inside the buffer; every caller checks that, and an access
  outside is an outcome of its own.
\<close>

definition splice :: "'a list \<Rightarrow> nat \<Rightarrow> 'a list \<Rightarrow> 'a list" where
  "splice buf off src = take off buf @ src @ drop (off + length src) buf"

abbreviation slice :: "'a list \<Rightarrow> nat \<Rightarrow> nat \<Rightarrow> 'a list" where
  "slice buf off n \<equiv> take n (drop off buf)"

lemma length_splice [buffer, simp]:
  "off + length src \<le> length buf \<Longrightarrow> length (splice buf off src) = length buf"
  by (simp add: splice_def)

lemma splice_Nil [buffer, simp]: "splice buf off [] = buf"
  by (simp add: splice_def)

lemma slice_splice_same [buffer]:
  "off + length src \<le> length buf \<Longrightarrow> n = length src \<Longrightarrow> slice (splice buf off src) off n = src"
  by (simp add: splice_def)

lemma nth_splice [buffer]:
  "off + length src \<le> length buf \<Longrightarrow> i < length buf \<Longrightarrow>
   splice buf off src ! i = (if off \<le> i \<and> i < off + length src then src ! (i - off) else buf ! i)"
  by (auto simp: splice_def nth_append min_def)

lemma slice_splice_other [buffer]:
  "off + length src \<le> length buf \<Longrightarrow> k + n \<le> off \<or> off + length src \<le> k \<Longrightarrow>
   slice (splice buf off src) k n = slice buf k n"
  by (rule nth_equalityI) (auto simp: nth_splice)

lemma take_splice [buffer]:
  "off + length src \<le> length buf \<Longrightarrow>
   take (off + length src) (splice buf off src) = take off buf @ src"
  by (simp add: splice_def)

lemma splice_append [buffer]:
  "off + length a + length b \<le> length buf \<Longrightarrow>
   splice (splice buf off a) (off + length a) b = splice buf off (a @ b)"
  by (simp add: splice_def ac_simps)

text \<open>
  \<open>copy_in dst off src n\<close> is the effect of \<open>memcpy(dst + off, src, n)\<close> between two different
  objects, with \<open>None\<close> when the copy leaves one of them.
\<close>

definition copy_in :: "'a list \<Rightarrow> nat \<Rightarrow> 'a list \<Rightarrow> nat \<Rightarrow> 'a list option" where
  "copy_in dst off src n =
     (if off + n \<le> length dst \<and> n \<le> length src then Some (splice dst off (take n src)) else None)"

lemma copy_in_length [buffer]: "copy_in dst off src n = Some dst' \<Longrightarrow> length dst' = length dst"
  by (auto simp: copy_in_def split: if_splits)

section \<open>A byte buffer seen as an array of 32-bit integers\<close>

text \<open>\<open>((unsigned int *)b)[i]\<close>, read and written.\<close>

definition rd32 :: "bytes \<Rightarrow> nat \<Rightarrow> u32" where
  "rd32 b i = of_le32 (slice b (4 * i) 4)"

definition wr32 :: "bytes \<Rightarrow> nat \<Rightarrow> u32 \<Rightarrow> bytes" where
  "wr32 b i v = splice b (4 * i) (le32 v)"

lemma length_wr32 [simp]: "4 * i + 4 \<le> length b \<Longrightarrow> length (wr32 b i v) = length b"
  by (simp add: wr32_def)

lemma rd32_wr32 [simp]:
  assumes "4 * i + 4 \<le> length b"
  shows "rd32 (wr32 b i v) j = (if i = j then v else rd32 b j)"
proof (cases "i = j")
  case False
  then have "4 * j + 4 \<le> 4 * i \<or> 4 * i + length (le32 v) \<le> 4 * j" by auto
  with assms False show ?thesis
    by (simp add: rd32_def wr32_def slice_splice_other)
qed (use assms in \<open>simp add: rd32_def wr32_def slice_splice_same\<close>)

lemma drop_wr32:
  "4 * i + 4 \<le> n \<Longrightarrow> n \<le> length b \<Longrightarrow> drop n (wr32 b i v) = drop n b"
  by (simp add: wr32_def splice_def)

lemma ntohl_rd32: "ntohl (rd32 b i) = of_be32 (slice b (4 * i) 4)"
  by (simp add: rd32_def)

end
