(* ===== verification/Exceptions.thy ===== *)
theory Exceptions
  imports Sable_Prelude
begin

text \<open>
  The exception discipline of SABLE (\<^verbatim>\<open>include/exception.h\<close>) and the \<open>ASSERT\<close> macro
  (\<^verbatim>\<open>include/util.h\<close>), in the release build (\<open>NDEBUG\<close>). A C function that returns a
  \<open>RESULT\<close> is a state transformer with three kinds of outcome: a value, a thrown \<open>ERROR\<close>
  that the caller sees, and a stop that no caller survives (\<open>exit\<close>, a reboot, an access
  outside an object, a loop that never ends, a jump to the next program).
\<close>

named_theorems exec_simps \<open>evaluation of the operations of the execution monad\<close>

section \<open>Errors\<close>

text \<open>
  The enumeration \<open>ERROR\<close>. \<open>NONE\<close> is the absence of an exception and is not an element; a TPM
  error carries the number \<open>ERROR_TPM | code\<close> that \<open>TPM_ERROR\<close> stores.
\<close>

datatype ERROR =
    ERROR_BAD_ELF_HEADER
  | ERROR_SHA1_DATA_SIZE
  | ERROR_NO_MODULE
  | ERROR_BAD_MODULE
  | ERROR_BAD_MBI
  | ERROR_NO_MBI
  | ERROR_BAD_TPM_VENDOR
  | ERROR_TIS_TRANSMIT
  | ERROR_TIS_LOCALITY_REGISTER_INVALID
  | ERROR_TIS_LOCALITY_ACCESS_TIMEOUT
  | ERROR_TIS_LOCALITY_ALREADY_ACCESSED
  | ERROR_TIS_LOCALITY_DEACTIVATE
  | ERROR_PCI
  | ERROR_APIC
  | ERROR_DEV
  | ERROR_SVM_ENABLE
  | ERROR_NO_EXT
  | ERROR_NO_APIC
  | ERROR_NO_SVM
  | ERROR_BUFFER_OVERFLOW
  | ERROR_TPM_BAD_OUTPUT_PARAM
  | ERROR_TPM_BAD_OUTPUT_AUTH
  | ERROR_TPM u32

text \<open>
  The program ends: \<open>exit(status)\<close> (which reboots after a delay), \<open>reboot\<close>, an access outside an
  object (undefined behaviour of C), a loop that does not end, a jump out of the loader (the
  address, \<open>eax\<close> and \<open>ebx\<close>, or, into a Linux kernel, the address and \<open>esi\<close>), the late launch by
  \<open>skinit\<close> or by \<open>getsec[senter]\<close> (the SINIT module and its size), the entry into the virtual machine of a
  waiting processor, or its jump to an address in real mode.
\<close>

datatype stop = Exit u32 | Reboot | Fault | Hang | Jump u32 u32 u32 | Skinit | Jump_linux u32 u32 | Senter u32 u32 | Guest | Real_mode u32

datatype 'a res = Ok 'a | Throw ERROR | Stop stop

type_synonym ('s, 'a) exec = "'s \<Rightarrow> 'a res \<times> 's"

section \<open>The execution monad\<close>

definition returnE :: "'a \<Rightarrow> ('s, 'a) exec" where
  "returnE a = (\<lambda>s. (Ok a, s))"

text \<open>Sequencing with \<open>THROW\<close>: an exception of the callee is returned at once.\<close>

definition bindE :: "('s, 'a) exec \<Rightarrow> ('a \<Rightarrow> ('s, 'b) exec) \<Rightarrow> ('s, 'b) exec" where
  "bindE m k = (\<lambda>s. case m s of
      (Ok a, s') \<Rightarrow> k a s' | (Throw e, s') \<Rightarrow> (Throw e, s') | (Stop x, s') \<Rightarrow> (Stop x, s'))"

abbreviation thenE :: "('s, 'a) exec \<Rightarrow> ('s, 'b) exec \<Rightarrow> ('s, 'b) exec" where
  "thenE m k \<equiv> bindE m (\<lambda>_. k)"

definition throwE :: "ERROR \<Rightarrow> ('s, 'a) exec" where
  "throwE e = (\<lambda>s. (Throw e, s))"

definition stopE :: "stop \<Rightarrow> ('s, 'a) exec" where
  "stopE x = (\<lambda>s. (Stop x, s))"

definition getE :: "('s \<Rightarrow> 'a) \<Rightarrow> ('s, 'a) exec" where
  "getE f = (\<lambda>s. (Ok (f s), s))"

definition modifyE :: "('s \<Rightarrow> 's) \<Rightarrow> ('s, unit) exec" where
  "modifyE f = (\<lambda>s. (Ok (), f s))"

text \<open>\<open>ERROR(value, error, msg)\<close>\<close>

definition ERROR_if :: "bool \<Rightarrow> ERROR \<Rightarrow> ('s, unit) exec" where
  "ERROR_if value error = (if value then throwE error else returnE ())"

text \<open>\<open>TPM_ERROR(error)\<close>: the exception is \<open>ERROR_TPM | error\<close>, with \<open>ERROR_TPM = 1 << 7\<close>.\<close>

definition TPM_ERROR_if :: "u32 \<Rightarrow> ('s, unit) exec" where
  "TPM_ERROR_if error = ERROR_if (error \<noteq> 0) (ERROR_TPM (0x80 OR error))"

text \<open>\<open>ASSERT(X)\<close> calls \<open>fail\<close>, which is \<open>exit(-1)\<close>.\<close>

definition ASSERT :: "bool \<Rightarrow> ('s, unit) exec" where
  "ASSERT X = (if X then returnE () else stopE (Exit (- 1)))"

text \<open>A call whose \<open>RESULT\<close> the caller keeps instead of throwing it on.\<close>

definition resultE :: "('s, 'a) exec \<Rightarrow> ('s, ERROR + 'a) exec" where
  "resultE m = (\<lambda>s. case m s of
      (Ok a, s') \<Rightarrow> (Ok (Inr a), s') | (Throw e, s') \<Rightarrow> (Ok (Inl e), s')
    | (Stop x, s') \<Rightarrow> (Stop x, s'))"

text \<open>\<open>CATCH_ANY(e, handler)\<close> and \<open>CATCH(e, ex, handler)\<close> around a call.\<close>

definition CATCH_ANY :: "('s, 'a) exec \<Rightarrow> (ERROR \<Rightarrow> ('s, 'a) exec) \<Rightarrow> ('s, 'a) exec" where
  "CATCH_ANY m handler = (\<lambda>s. case m s of (Throw e, s') \<Rightarrow> handler e s' | r \<Rightarrow> r)"

definition CATCH :: "('s, 'a) exec \<Rightarrow> ERROR \<Rightarrow> ('s, 'a) exec \<Rightarrow> ('s, 'a) exec" where
  "CATCH m ex handler = CATCH_ANY m (\<lambda>e. if e = ex then handler else throwE e)"

text \<open>A block with a local variable that starts as \<open>c\<close> and is dropped at the end.\<close>

definition with_local :: "'c \<Rightarrow> ('c, 'a) exec \<Rightarrow> ('s, 'a) exec" where
  "with_local c m = (\<lambda>s. (fst (m c), s))"

lemmas exec_defs = returnE_def throwE_def stopE_def getE_def modifyE_def ERROR_if_def
  TPM_ERROR_if_def ASSERT_def resultE_def CATCH_ANY_def CATCH_def

lemma bindE_cases [exec_simps]:
  "m s = (Ok a, s') \<Longrightarrow> bindE m k s = k a s'"
  "m s = (Throw e, s') \<Longrightarrow> bindE m k s = (Throw e, s')"
  "m s = (Stop x, s') \<Longrightarrow> bindE m k s = (Stop x, s')"
  by (simp_all add: bindE_def)

lemma bindE_returnE [simp]: "bindE (returnE a) k = k a"
  by (simp add: bindE_def returnE_def)

lemma bindE_throwE [simp]: "bindE (throwE e) k = throwE e"
  by (simp add: bindE_def throwE_def)

lemma bindE_stopE [simp]: "bindE (stopE x) k = stopE x"
  by (simp add: bindE_def stopE_def)

lemma bindE_returnE_right [simp]: "bindE m returnE = m"
  by (rule ext) (simp add: bindE_def returnE_def split: prod.split res.split)

lemma bindE_assoc: "bindE (bindE m k) l = bindE m (\<lambda>a. bindE (k a) l)"
  by (rule ext) (simp add: bindE_def split: prod.split res.split)

lemma ASSERT_simps [simp]:
  "ASSERT True = returnE ()" "ASSERT False = stopE (Exit (- 1))"
  by (simp_all add: ASSERT_def)

lemma ERROR_if_simps [simp]:
  "ERROR_if True e = throwE e" "ERROR_if False e = returnE ()"
  by (simp_all add: ERROR_if_def)

lemma with_local_run: "m c = (r, c') \<Longrightarrow> with_local c m s = (r, s)"
  by (simp add: with_local_def)

lemma bindE_Ok_iff:
  "bindE m k s = (Ok b, s') \<longleftrightarrow> (\<exists>a t. m s = (Ok a, t) \<and> k a t = (Ok b, s'))"
  by (auto simp: bindE_def split: prod.splits res.splits)

section \<open>Weakest preconditions\<close>

text \<open>\<open>wpE m Q s\<close>: the outcome of \<open>m\<close> from \<open>s\<close> satisfies \<open>Q\<close>; the equations compute it backwards.\<close>

named_theorems wp_simps \<open>weakest preconditions of the operations\<close>

definition wpE :: "('s, 'a) exec \<Rightarrow> ('a res \<Rightarrow> 's \<Rightarrow> bool) \<Rightarrow> 's \<Rightarrow> bool" where
  "wpE m Q s = (case m s of (r, s') \<Rightarrow> Q r s')"

text \<open>What follows a step, for each of its outcomes.\<close>

fun after :: "('a \<Rightarrow> ('s, 'b) exec) \<Rightarrow> ('b res \<Rightarrow> 's \<Rightarrow> bool) \<Rightarrow> 'a res \<Rightarrow> 's \<Rightarrow> bool" where
  "after k Q (Ok a) s = wpE (k a) Q s"
| "after k Q (Throw e) s = Q (Throw e) s"
| "after k Q (Stop x) s = Q (Stop x) s"

lemma wpE_bindE [wp_simps]: "wpE (bindE m k) Q s = wpE m (after k Q) s"
  by (simp add: wpE_def bindE_def split: prod.split res.split)

lemma wpE_basic [wp_simps]:
  "wpE (returnE a) Q s = Q (Ok a) s"
  "wpE (throwE e) Q s = Q (Throw e) s"
  "wpE (stopE x) Q s = Q (Stop x) s"
  "wpE (getE f) Q' s = Q' (Ok (f s)) s"
  "wpE (modifyE g) Q'' s = Q'' (Ok ()) (g s)"
  by (simp_all add: wpE_def returnE_def throwE_def stopE_def getE_def modifyE_def)

lemma wpE_checks [wp_simps]:
  "wpE (ERROR_if c e) Q s = (if c then Q (Throw e) s else Q (Ok ()) s)"
  "wpE (ASSERT c) Q s = (if c then Q (Ok ()) s else Q (Stop (Exit (- 1))) s)"
  by (simp_all add: ERROR_if_def ASSERT_def wp_simps)

lemma wpE_if [wp_simps]: "wpE (if c then m else m') Q s = (if c then wpE m Q s else wpE m' Q s)"
  by simp

lemma wpE_run: "m s = (r, s') \<Longrightarrow> wpE m Q s \<longleftrightarrow> Q r s'"
  by (simp add: wpE_def)

lemma wpE_mono: "wpE m P s \<Longrightarrow> (\<And>r s'. P r s' \<Longrightarrow> Q r s') \<Longrightarrow> wpE m Q s"
  by (auto simp: wpE_def split: prod.splits)

text \<open>\<open>yields P m r Q\<close>: from a state with \<open>P\<close> the step has the outcome \<open>r\<close> and ends in a state with \<open>Q\<close>.\<close>

definition yields :: "('s \<Rightarrow> bool) \<Rightarrow> ('s, 'a) exec \<Rightarrow> 'a res \<Rightarrow> ('s \<Rightarrow> bool) \<Rightarrow> bool" where
  "yields P m r Q \<longleftrightarrow> (\<forall>s. P s \<longrightarrow> (\<exists>s'. m s = (r, s') \<and> Q s'))"

lemma yieldsI: "(\<And>s. P s \<Longrightarrow> \<exists>s'. m s = (r, s') \<and> Q s') \<Longrightarrow> yields P m r Q"
  by (simp add: yields_def)

lemma yieldsD: "yields P m r Q \<Longrightarrow> P s \<Longrightarrow> \<exists>s'. m s = (r, s') \<and> Q s'"
  by (simp add: yields_def)

lemma yields_bind: "yields P m (Ok a) Q \<Longrightarrow> yields Q (k a) r R \<Longrightarrow> yields P (bindE m k) r R"
  unfolding yields_def by (metis bindE_cases(1))

lemma yields_throw: "yields P m (Throw e) Q \<Longrightarrow> yields P (bindE m k) (Throw e) Q"
  unfolding yields_def by (metis bindE_cases(2))

lemma yields_returnE: "yields P (returnE a) (Ok a) P"
  by (simp add: yields_def returnE_def)

lemma yields_throwE: "yields P (throwE e) (Throw e) P"
  by (simp add: yields_def throwE_def)

lemma yields_getE:
  assumes "\<And>s. P s \<Longrightarrow> f s = a" "yields P (k a) r R"
  shows "yields P (bindE (getE f) k) r R"
  by (rule yields_bind [where k = k and a = a, OF _ assms(2)]) (simp add: yields_def getE_def assms(1))

lemma yields_ex: "(\<And>x. yields (P x) m r Q) \<Longrightarrow> yields (\<lambda>s. \<exists>x. P x s) m r Q"
  unfolding yields_def by blast

lemma yields_weaken: "yields P m r Q \<Longrightarrow> (\<And>s. Q s \<Longrightarrow> R s) \<Longrightarrow> yields P m r R"
  unfolding yields_def by blast

lemma yields_ASSERT: "yields P k r R \<Longrightarrow> c \<Longrightarrow> yields P (bindE (ASSERT c) (\<lambda>_. k)) r R"
  by simp

lemma yields_ERROR_if:
  "yields P (ERROR_if c e) (if c then Throw e else Ok ()) P"
  by (simp add: yields_def throwE_def returnE_def)

section \<open>Numbers of the errors\<close>

text \<open>The value of the enumerator in C.\<close>

fun error_number :: "ERROR \<Rightarrow> u32" where
  "error_number ERROR_BAD_ELF_HEADER = 1"
| "error_number ERROR_SHA1_DATA_SIZE = 2"
| "error_number ERROR_NO_MODULE = 3"
| "error_number ERROR_BAD_MODULE = 4"
| "error_number ERROR_BAD_MBI = 5"
| "error_number ERROR_NO_MBI = 6"
| "error_number ERROR_BAD_TPM_VENDOR = 7"
| "error_number ERROR_TIS_TRANSMIT = 8"
| "error_number ERROR_TIS_LOCALITY_REGISTER_INVALID = 9"
| "error_number ERROR_TIS_LOCALITY_ACCESS_TIMEOUT = 10"
| "error_number ERROR_TIS_LOCALITY_ALREADY_ACCESSED = 11"
| "error_number ERROR_TIS_LOCALITY_DEACTIVATE = 12"
| "error_number ERROR_PCI = 13"
| "error_number ERROR_APIC = 14"
| "error_number ERROR_DEV = 15"
| "error_number ERROR_SVM_ENABLE = 16"
| "error_number ERROR_NO_EXT = 17"
| "error_number ERROR_NO_APIC = 18"
| "error_number ERROR_NO_SVM = 19"
| "error_number ERROR_BUFFER_OVERFLOW = 20"
| "error_number ERROR_TPM_BAD_OUTPUT_PARAM = 21"
| "error_number ERROR_TPM_BAD_OUTPUT_AUTH = 22"
| "error_number (ERROR_TPM n) = n"

end
