(* ===== verification/SHA1.thy ===== *)
theory SHA1
  imports Exceptions
begin

text \<open>
  The size-optimised SHA-1 of \<^verbatim>\<open>src/sha.c\<close>: the context of \<^verbatim>\<open>include/sha.h\<close>, the message
  schedule computed in place in a window of 17 words, the block function, and the streaming
  interface \<open>sha1_init\<close>, \<open>sha1\<close>, \<open>sha1_finish\<close>. Buffers are byte lists; the casts to
  \<open>unsigned int *\<close> are \<open>rd32\<close> and \<open>wr32\<close> on a little-endian machine.
\<close>

type_synonym TPM_DIGEST = bytes

record SHA1_Context =
  sha_index :: u32
  sha_blocks :: u32
  sha_buffer :: bytes
  sha_hash :: TPM_DIGEST

section \<open>The message schedule\<close>

definition ROL :: "u32 \<Rightarrow> nat \<Rightarrow> u32" where
  "ROL VALUE COUNT = push_bit COUNT VALUE OR drop_bit (32 - COUNT) VALUE"

definition get_w :: "bytes \<Rightarrow> nat \<Rightarrow> u32 \<times> bytes" where
  "get_w w round =
     (if round \<ge> 16
      then let w = wr32 w 16 (ROL (rd32 w 13 XOR rd32 w 8 XOR rd32 w 2 XOR rd32 w 0) 1);
               res = rd32 w 16;
               w = fold (\<lambda>i w. wr32 w i (rd32 w (i + 1))) [0..<16] w
           in (res, w)
      else let w = wr32 w round (ntohl (rd32 w round)) in (rd32 w round, w))"

section \<open>The block function\<close>

text \<open>The value \<open>tmp\<close> of round \<open>i\<close>: the logical function of the round plus its constant.\<close>

definition round_tmp :: "nat \<Rightarrow> u32 list \<Rightarrow> u32" where
  "round_tmp i X =
     (let tmp = X ! 3 XOR X ! 4 in
      if i < 40
      then if i < 20 then (X ! 4 XOR (X ! 2 AND tmp)) + 0x5A827999
           else (tmp XOR X ! 2) + 0x6ED9EBA1
      else if i < 60
      then ((X ! 2 AND X ! 3) OR (X ! 2 AND X ! 4) OR (X ! 3 AND X ! 4)) + 0x8F1BBCDC
      else (X ! 2 XOR tmp) + 0xCA62C1D6)"

text \<open>One iteration of the loop over the 80 rounds, on the array \<open>X\<close> and the buffer.\<close>

definition sha_round :: "nat \<Rightarrow> u32 list \<times> bytes \<Rightarrow> u32 list \<times> bytes" where
  "sha_round i = (\<lambda>(X, w).
     let tmp = round_tmp i X;
         (gw, w) = get_w w i;
         X = X[0 := tmp + ROL (X ! 1) 5 + X ! 5 + gw];
         X = X[2 := ROL (X ! 2) 30];
         X = fold (\<lambda>j X. X[j := X ! (j - 1)]) (rev [1..<6]) X
     in (X, w))"

text \<open>\<open>X[0]\<close> is not initialised by the code and is written before it is read.\<close>

definition process_block :: "SHA1_Context \<Rightarrow> SHA1_Context" where
  "process_block ctx =
     (let X = fold (\<lambda>i X. X[i + 1 := ntohl (rd32 (sha_hash ctx) i)]) [0..<5] (replicate 6 0);
          (X, w) = fold sha_round [0..<80] (X, sha_buffer ctx);
          h = fold (\<lambda>i h. wr32 h i (ntohl (ntohl (rd32 h i) + X ! (i + 1)))) [0..<5]
                (sha_hash ctx)
      in ctx\<lparr>sha_buffer := w, sha_hash := h\<rparr>)"

section \<open>The streaming interface\<close>

definition sha1_init :: "SHA1_Context \<Rightarrow> SHA1_Context" where
  "sha1_init ctx =
     (let h = sha_hash ctx;
          h = wr32 h 0 0x01234567;
          h = wr32 h 1 0x89ABCDEF;
          h = wr32 h 2 0xFEDCBA98;
          h = wr32 h 3 0x76543210;
          h = wr32 h 4 0xf0e1d2c3
      in ctx\<lparr>sha_index := 0, sha_blocks := 0, sha_hash := h\<rparr>)"

text \<open>
  \<open>sha1\<close> hashes \<open>count\<close> bytes from the memory \<open>val\<close>. Both sums \<open>count + ctx->index\<close> are
  32-bit sums. A copy that leaves \<open>val\<close> or the 68 bytes of the buffer is a fault.
\<close>

function sha1 :: "bytes \<Rightarrow> u32 \<Rightarrow> (SHA1_Context, unit) exec" where
  "sha1 val count ctx =
     (if count + sha_index ctx \<ge> 64
      then let n = 64 - sha_index ctx in
           case copy_in (sha_buffer ctx) (unat (sha_index ctx)) val (unat n) of
             None \<Rightarrow> (Stop Fault, ctx)
           | Some buf \<Rightarrow>
               let ctx1 = process_block (ctx\<lparr>sha_buffer := buf\<rparr>);
                   ctx2 = ctx1\<lparr>sha_blocks := sha_blocks ctx1 + 1\<rparr>
               in if sha_blocks ctx2 \<ge> push_bit 23 1 then (Throw ERROR_SHA1_DATA_SIZE, ctx2)
                  else sha1 (drop (unat n) val) (count - n) (ctx2\<lparr>sha_index := 0\<rparr>)
      else case copy_in (sha_buffer ctx) (unat (sha_index ctx)) val (unat count) of
             None \<Rightarrow> (Stop Fault, ctx)
           | Some buf \<Rightarrow>
               (Ok (), ctx\<lparr>sha_buffer := buf, sha_index := sha_index ctx + count\<rparr>))"
  by pat_completeness auto

text \<open>
  The first iteration leaves \<open>index\<close> zero; every later one takes 64 bytes off \<open>count\<close>.
\<close>

termination sha1
proof (relation "measure (\<lambda>(val, count, ctx). if sha_index ctx = 0 then unat count else 2 ^ 32)",
    goal_cases)
  case (2 val count ctx n buf ctx1 ctx2)
  have "unat c < 2 ^ 32" for c :: u32
    using unsigned_less [of c] by simp
  moreover have "unat (count - 64) < unat count" if "64 \<le> count"
    using that by (simp add: unat_sub word_le_nat_alt)
  ultimately show ?case using 2 by auto
qed simp

declare sha1.simps [simp del]

text \<open>
  \<open>sha1_finish\<close> pads and processes the last block or two. Its stores into the buffer are inside
  it because \<open>index\<close> is below 64, which is part of the invariant of the context.
\<close>

definition sha1_finish :: "SHA1_Context \<Rightarrow> SHA1_Context" where
  "sha1_finish ctx =
     (let idx = unat (sha_index ctx);
          buf = (sha_buffer ctx)[idx := 0x80];
          buf = fold (\<lambda>i b. b[i := 0]) [idx + 1..<64] buf;
          ctx = ctx\<lparr>sha_buffer := buf\<rparr>;
          ctx = (if sha_index ctx > 55
                 then let c = process_block ctx
                      in c\<lparr>sha_buffer := fold (\<lambda>i b. b[i := 0]) [0..<64] (sha_buffer c)\<rparr>
                 else ctx);
          tmp = push_bit 9 (sha_blocks ctx) + push_bit 3 (sha_index ctx)
      in process_block (ctx\<lparr>sha_buffer := wr32 (sha_buffer ctx) 15 (ntohl (tmp AND 0xffffffff))\<rparr>))"

end
