(* ===== verification/SHA1_Spec.thy ===== *)
theory SHA1_Spec
  imports Sable_Prelude
begin

text \<open>
  The Secure Hash Standard (FIPS 180-4, section 6.1) for SHA-1 on messages of whole bytes, as
  the specification the implementation is compared with. It follows the standard: padding,
  parsing into 512-bit blocks, an 80-word message schedule as a list, five working variables.
\<close>

type_synonym H = "u32 \<times> u32 \<times> u32 \<times> u32 \<times> u32"

definition Ch :: "u32 \<Rightarrow> u32 \<Rightarrow> u32 \<Rightarrow> u32" where
  "Ch x y z = (x AND y) XOR (NOT x AND z)"

definition Parity :: "u32 \<Rightarrow> u32 \<Rightarrow> u32 \<Rightarrow> u32" where
  "Parity x y z = x XOR y XOR z"

definition Maj :: "u32 \<Rightarrow> u32 \<Rightarrow> u32 \<Rightarrow> u32" where
  "Maj x y z = (x AND y) XOR (x AND z) XOR (y AND z)"

definition f_t :: "nat \<Rightarrow> u32 \<Rightarrow> u32 \<Rightarrow> u32 \<Rightarrow> u32" where
  "f_t t = (if t < 20 then Ch else if t < 40 then Parity else if t < 60 then Maj else Parity)"

definition K_t :: "nat \<Rightarrow> u32" where
  "K_t t = (if t < 20 then 0x5a827999 else if t < 40 then 0x6ed9eba1
            else if t < 60 then 0x8f1bbcdc else 0xca62c1d6)"

text \<open>The message schedule: 16 words of the block, then 64 words by the recurrence.\<close>

primrec extend_schedule :: "nat \<Rightarrow> u32 list \<Rightarrow> u32 list" where
  "extend_schedule 0 W = W"
| "extend_schedule (Suc n) W =
     (let W' = extend_schedule n W; t = length W'
      in W' @ [word_rotl 1 (W' ! (t - 3) XOR W' ! (t - 8) XOR W' ! (t - 14) XOR W' ! (t - 16))])"

definition block_words :: "bytes \<Rightarrow> u32 list" where
  "block_words b = map (\<lambda>i. of_be32 (slice b (4 * i) 4)) [0..<16]"

definition schedule :: "bytes \<Rightarrow> u32 list" where
  "schedule b = extend_schedule 64 (block_words b)"

definition spec_round :: "u32 list \<Rightarrow> nat \<Rightarrow> H \<Rightarrow> H" where
  "spec_round W t = (\<lambda>(a, b, c, d, e).
     (word_rotl 5 a + f_t t b c d + e + K_t t + W ! t, a, word_rotl 30 b, c, d))"

definition spec_block :: "H \<Rightarrow> bytes \<Rightarrow> H" where
  "spec_block = (\<lambda>(h0, h1, h2, h3, h4) m.
     let (a, b, c, d, e) = fold (spec_round (schedule m)) [0..<80] (h0, h1, h2, h3, h4)
     in (h0 + a, h1 + b, h2 + c, h3 + d, h4 + e))"

function spec_blocks :: "H \<Rightarrow> bytes \<Rightarrow> H" where
  "spec_blocks h m =
     (if length m < 64 then h else spec_blocks (spec_block h (take 64 m)) (drop 64 m))"
  by pat_completeness auto
termination by (relation "measure (\<lambda>(h, m). length m)") auto

declare spec_blocks.simps [simp del]

definition H0 :: H where
  "H0 = (0x67452301, 0xefcdab89, 0x98badcfe, 0x10325476, 0xc3d2e1f0)"

definition H_bytes :: "H \<Rightarrow> bytes" where
  "H_bytes = (\<lambda>(h0, h1, h2, h3, h4). be32 h0 @ be32 h1 @ be32 h2 @ be32 h3 @ be32 h4)"

definition be64 :: "u64 \<Rightarrow> bytes" where
  "be64 v = be32 (ucast (drop_bit 32 v)) @ be32 (ucast v)"

text \<open>A one bit, zeros up to 448 modulo 512 bits, and the length of the message in bits.\<close>

definition sha1_pad :: "bytes \<Rightarrow> bytes" where
  "sha1_pad m = m @ 0x80 # replicate ((119 - length m mod 64) mod 64) 0
                  @ be64 (of_nat (8 * length m))"

definition SHA1_hash :: "bytes \<Rightarrow> bytes" where
  "SHA1_hash m = H_bytes (spec_blocks H0 (sha1_pad m))"

lemma spec_blocks_less [simp]: "length m < 64 \<Longrightarrow> spec_blocks h m = h"
  by (simp add: spec_blocks.simps)

lemma spec_blocks_append_block:
  "length b = 64 \<Longrightarrow> spec_blocks h (b @ m) = spec_blocks (spec_block h b) m"
  by (subst spec_blocks.simps) simp

lemma spec_blocks_append:
  "length a mod 64 = 0 \<Longrightarrow> spec_blocks h (a @ b) = spec_blocks (spec_blocks h a) b"
proof (induction h a rule: spec_blocks.induct)
  case (1 h a)
  show ?case
  proof (cases "length a < 64")
    case True
    with 1(2) show ?thesis by simp
  next
    case False
    with 1(2) have "(length a - 64) mod 64 = 0" by (simp add: le_mod_geq)
    with 1 False have "spec_blocks h (a @ b) = spec_blocks (spec_blocks (spec_block h (take 64 a)) (drop 64 a)) b"
      by (subst spec_blocks.simps) simp
    also have "spec_blocks (spec_block h (take 64 a)) (drop 64 a) = spec_blocks h a"
      using False by (subst (2) spec_blocks.simps) simp
    finally show ?thesis .
  qed
qed

lemma length_H_bytes [simp]: "length (H_bytes h) = 20"
  by (cases h) (simp add: H_bytes_def)

lemma length_SHA1_hash [simp]: "length (SHA1_hash m) = 20"
  by (simp add: SHA1_hash_def)

lemma length_block_words [simp]: "length (block_words b) = 16"
  by (simp add: block_words_def)

lemma length_extend_schedule [simp]: "length (extend_schedule n W) = length W + n"
  by (induction n) (simp_all add: Let_def)

lemma length_schedule [simp]: "length (schedule b) = 80"
  by (simp add: schedule_def)

lemma extend_schedule_nth:
  "t < length W + n \<Longrightarrow> extend_schedule (n + k) W ! t = extend_schedule n W ! t"
  by (induction k) (simp_all add: Let_def nth_append)

lemma schedule_nth_low: "t < 16 \<Longrightarrow> schedule b ! t = of_be32 (slice b (4 * t) 4)"
  using extend_schedule_nth [of t "block_words b" 0 64]
  by (simp add: schedule_def block_words_def)

lemma schedule_nth_high:
  assumes "16 \<le> t" "t < 80"
  shows "schedule b ! t = word_rotl 1
     (schedule b ! (t - 3) XOR schedule b ! (t - 8) XOR schedule b ! (t - 14) XOR schedule b ! (t - 16))"
proof -
  define n where "n = t - 16"
  let ?W = "block_words b"
  have same: "schedule b ! i = extend_schedule n ?W ! i" if "i < t" for i
    using extend_schedule_nth [of i ?W n "64 - n"] that assms by (simp add: schedule_def n_def)
  have "schedule b ! t = extend_schedule (Suc n) ?W ! t"
    using extend_schedule_nth [of t ?W "Suc n" "63 - n"] assms by (simp add: schedule_def n_def)
  also have "\<dots> = word_rotl 1 (extend_schedule n ?W ! (t - 3) XOR extend_schedule n ?W ! (t - 8) XOR
      extend_schedule n ?W ! (t - 14) XOR extend_schedule n ?W ! (t - 16))"
    using assms by (simp add: Let_def nth_append n_def)
  finally show ?thesis using assms by (simp add: same)
qed

lemma pad_length_mod: "((n::nat) + 1 + (119 - n mod 64) mod 64 + 8) mod 64 = 0"
proof -
  define q r where "q = n div 64" and "r = n mod 64"
  have r: "r < 64" and n: "n = 64 * q + r" by (simp_all add: q_def r_def)
  have "(119 - r) mod 64 = (if r \<le> 55 then 55 - r else 119 - r)"
    using r by (auto simp: le_mod_geq)
  then have "n + 1 + (119 - r) mod 64 + 8 = 64 * (q + (if r \<le> 55 then 1 else 2))"
    using n r by simp
  then show ?thesis by (simp add: r_def)
qed

lemma length_sha1_pad: "length (sha1_pad m) mod 64 = 0"
  using pad_length_mod [of "length m"] by (simp add: sha1_pad_def be64_def ac_simps)

end
