(* ===== verification/Hash_Interface.thy ===== *)
theory Hash_Interface
  imports Exceptions
begin

text \<open>
  What the clients of the hash code rely on: an update operation that absorbs bytes
  (\<open>byte_sink\<close>: SHA-1 and HMAC both are one), and a hash with \<open>init\<close> and \<open>finish\<close> around it
  (\<open>streaming_hash\<close>). The clients feed many small chunks; that only the concatenation of the
  chunks matters is proved here once.
\<close>

primrec feed :: "(bytes \<Rightarrow> u32 \<Rightarrow> ('c, unit) exec) \<Rightarrow> bytes list \<Rightarrow> ('c, unit) exec" where
  "feed upd [] = returnE ()"
| "feed upd (v # vs) = bindE (upd v (of_nat (length v))) (\<lambda>_. feed upd vs)"

locale byte_sink =
  fixes upd :: "bytes \<Rightarrow> u32 \<Rightarrow> ('c, unit) exec"
    and inv :: "bytes \<Rightarrow> 'c \<Rightarrow> bool"
    and limit :: nat
  assumes limit_32: "limit \<le> 2 ^ 32"
    and upd_inv: "inv m c \<Longrightarrow> unat n \<le> length v \<Longrightarrow> length m + unat n < limit \<Longrightarrow>
      \<exists>c'. upd v n c = (Ok (), c') \<and> inv (m @ take (unat n) v) c'"
begin

lemma upd_all:
  assumes "inv m c" "length m + length v < limit"
  obtains c' where "upd v (of_nat (length v)) c = (Ok (), c')" "inv (m @ v) c'"
proof -
  have "unat (of_nat (length v) :: u32) = length v"
    using assms(2) limit_32 by (simp add: unat_of_nat take_bit_nat_eq_self)
  with upd_inv [OF assms(1), of "of_nat (length v)" v] assms(2) that show ?thesis by auto
qed

lemma feed_inv:
  assumes "inv m c" "length m + length (concat vs) < limit"
  shows "\<exists>c'. feed upd vs c = (Ok (), c') \<and> inv (m @ concat vs) c'"
  using assms
proof (induction vs arbitrary: m c)
  case Nil
  then show ?case by (simp add: returnE_def)
next
  case (Cons v vs)
  from Cons.prems have "length m + length v < limit" by simp
  with Cons.prems(1) obtain c' where
    c': "upd v (of_nat (length v)) c = (Ok (), c')" "inv (m @ v) c'" by (rule upd_all)
  from Cons.IH [OF c'(2)] Cons.prems(2) c'(1) show ?case by (simp add: bindE_cases)
qed

end

locale streaming_hash = byte_sink upd inv limit
  for upd :: "bytes \<Rightarrow> u32 \<Rightarrow> ('c, unit) exec" and inv :: "bytes \<Rightarrow> 'c \<Rightarrow> bool" and limit :: nat +
  fixes init :: "'c \<Rightarrow> 'c"
    and finish :: "'c \<Rightarrow> 'c"
    and digest :: "'c \<Rightarrow> bytes"
    and wf :: "'c \<Rightarrow> bool"
    and hash :: "bytes \<Rightarrow> bytes"
  assumes init_inv: "wf c \<Longrightarrow> inv [] (init c)"
    and finish_hash: "inv m c \<Longrightarrow> digest (finish c) = hash m \<and> wf (finish c)"
    and inv_wf: "inv m c \<Longrightarrow> wf c"
begin

text \<open>A complete computation: initialise, feed, finish.\<close>

lemma hash_chunks:
  assumes "wf c" "length (concat vs) < limit"
  shows "\<exists>c'. feed upd vs (init c) = (Ok (), c') \<and> inv (concat vs) c' \<and>
    digest (finish c') = hash (concat vs) \<and> wf (finish c')"
  using feed_inv [OF init_inv [OF assms(1)], of vs] assms(2) finish_hash by auto

lemma hash_prefix:
  assumes "wf c" "unat n \<le> length v" "unat n < limit"
  shows "\<exists>c'. upd v n (init c) = (Ok (), c') \<and> inv (take (unat n) v) c' \<and>
    digest (finish c') = hash (take (unat n) v) \<and> wf (finish c')"
  using upd_inv [OF init_inv [OF assms(1)] assms(2)] assms(3) finish_hash by auto

lemma hash_chunk_independent:
  assumes "wf c" "wf d" "concat vs = concat ws" "length (concat vs) < limit"
  obtains c' d' where "feed upd vs (init c) = (Ok (), c')" "feed upd ws (init d) = (Ok (), d')"
    "digest (finish c') = digest (finish d')"
  using hash_chunks [OF assms(1), of vs] hash_chunks [OF assms(2), of ws] assms(3,4) that by auto

end

end
