(* ===== verification/SHA1_Correct.thy ===== *)
theory SHA1_Correct
  imports SHA1 SHA1_Spec Hash_Interface
begin

text \<open>
  The SHA-1 of \<^verbatim>\<open>src/sha.c\<close> computes the Secure Hash Standard. The in-place window of
  \<open>get_w\<close> is related to the 80-word schedule, the six-word array \<open>X\<close> to the working variables,
  and the streaming context to the message hashed so far (\<open>sha_inv\<close>).
\<close>

section \<open>Rotation and the round functions\<close>

lemma ROL_word_rotl:
  assumes "0 < n" "n < 32"
  shows "ROL v n = word_rotl n v"
proof (rule bit_word_eqI)
  fix i assume "i < LENGTH(32)"
  then have i: "i < 32" by simp
  show "bit (ROL v n) i = bit (word_rotl n v) i"
  proof (cases "n \<le> i")
    case True
    have "\<not> bit v (32 + i - n)" using bit_imp_le_length [of v "32 + i - n"] True by auto
    moreover have "(i + (32 - n)) mod 32 = i - n" using True i assms by (simp add: le_mod_geq)
    ultimately show ?thesis using True i assms by (simp add: ROL_def bit_simps bit_word_rotl_iff)
  next
    case False
    then have "(i + (32 - n)) mod 32 = 32 - n + i" using i assms by simp
    moreover have "bit (word_rotl n v) i = bit v ((i + (32 - n)) mod 32)"
      using i assms by (simp add: bit_word_rotl_iff)
    moreover have "bit (ROL v n) i = bit v (32 - n + i)"
      using False by (simp add: ROL_def bit_or_iff bit_push_bit_iff bit_drop_bit_eq)
    ultimately show ?thesis by simp
  qed
qed

lemma round_tmp_eq:
  "round_tmp i [x0, a, b, c, d, e] = f_t i b c d + K_t i"
proof -
  have "d XOR (b AND (c XOR d)) = Ch b c d" 
    by (rule bit_word_eqI) (auto simp: Ch_def bit_simps)
  moreover have "(b AND c) OR (b AND d) OR (c AND d) = Maj b c d"
    by (rule bit_word_eqI) (auto simp: Maj_def bit_simps)
  moreover have "(c XOR d) XOR b = Parity b c d" "b XOR (c XOR d) = Parity b c d"
    by (simp_all add: Parity_def ac_simps)
  ultimately show ?thesis
    by (simp add: round_tmp_def f_t_def K_t_def)
qed

section \<open>The schedule in place\<close>

text \<open>The shift of the 17-word window.\<close>

lemma shift_window:
  assumes "4 * n + 4 \<le> length w"
  shows "length (fold (\<lambda>i w. wr32 w i (rd32 w (i + 1))) [0..<n] w) = length w \<and>
    (\<forall>j. rd32 (fold (\<lambda>i w. wr32 w i (rd32 w (i + 1))) [0..<n] w) j =
      (if j < n then rd32 w (j + 1) else rd32 w j))"
  using assms by (induction n) (auto simp: less_Suc_eq)

definition window :: "u32 list \<Rightarrow> nat \<Rightarrow> bytes \<Rightarrow> bool" where
  "window W t w \<longleftrightarrow> length w = 68 \<and>
     (\<forall>i < 16. if t \<ge> 16 then rd32 w i = W ! (t - 16 + i)
               else if i < t then rd32 w i = W ! i else ntohl (rd32 w i) = W ! i)"

lemma window_0: "length w = 68 \<Longrightarrow> window (schedule (take 64 w)) 0 w"
  by (auto simp: window_def schedule_nth_low ntohl_rd32 drop_take min_def)

lemma get_w_window:
  assumes "window (schedule b) t w" "t < 80"
  obtains w' where "get_w w t = (schedule b ! t, w')" "window (schedule b) (Suc t) w'"
proof (cases "t < 16")
  case True
  with assms show ?thesis
    by (intro that [of "wr32 w t (ntohl (rd32 w t))"])
      (auto simp: get_w_def window_def Let_def less_Suc_eq)
next
  case False
  let ?W = "schedule b"
  let ?w = "wr32 w 16 (ROL (rd32 w 13 XOR rd32 w 8 XOR rd32 w 2 XOR rd32 w 0) 1)"
  have len: "length w = 68" and rd: "\<And>i. i < 16 \<Longrightarrow> rd32 w i = ?W ! (t - 16 + i)"
    using assms False by (auto simp: window_def)
  have idx: "t - 16 + 13 = t - 3" "t - 16 + 8 = t - 8" "Suc (Suc (t - 16)) = t - 14" using False by auto
  have res: "rd32 ?w 16 = ?W ! t"
    using schedule_nth_high [of t b] assms(2) False len
    by (simp add: rd idx ROL_word_rotl)
  let ?w' = "fold (\<lambda>i w. wr32 w i (rd32 w (i + 1))) [0..<16] ?w"
  have sh: "length ?w' = 68" "\<And>j. rd32 ?w' j = (if j < 16 then rd32 ?w (j + 1) else rd32 ?w j)"
    using shift_window [of 16 ?w] len by simp_all
  have "window ?W (Suc t) ?w'"
    unfolding window_def
  proof (intro conjI allI impI)
    fix i :: nat assume i: "i < 16"
    have "rd32 ?w' i = ?W ! (Suc t - 16 + i)"
    proof (cases "i = 15")
      case True
      with sh res False show ?thesis by simp
    next
      case False
      with i have "i + 1 < 16" by simp
      moreover have "t - 16 + (i + 1) = Suc t - 16 + i" using \<open>\<not> t < 16\<close> by simp
      ultimately have "rd32 w (i + 1) = ?W ! (Suc t - 16 + i)" using rd [of "i + 1"] by metis
      moreover have "rd32 ?w' i = rd32 w (i + 1)" using sh(2) [of i] len i False by simp
      ultimately show ?thesis by (rule trans [rotated])
    qed
    then show "if 16 \<le> Suc t then rd32 ?w' i = ?W ! (Suc t - 16 + i)
        else if i < Suc t then rd32 ?w' i = ?W ! i else ntohl (rd32 ?w' i) = ?W ! i"
      using False by simp
  qed (rule sh(1))
  moreover have "get_w w t = (?W ! t, ?w')"
    using False res by (simp add: get_w_def Let_def)
  ultimately show ?thesis using that by blast
qed

section \<open>The rounds\<close>

lemma upt_rev_1_6: "rev [1..<6] = [5, 4, 3, 2, 1 :: nat]"
  by (simp add: upt_rec numeral_eq_Suc)

lemma sha_round_eq:
  assumes "get_w w t = (W ! t, w')"
  shows "sha_round t ([x0, a, b, c, d, e], w) =
    (let (a', b', c', d', e') = spec_round W t (a, b, c, d, e) in ([a', a', b', c', d', e'], w'))"
  by (simp add: sha_round_def spec_round_def assms upt_rev_1_6 Let_def round_tmp_eq ROL_word_rotl
      ac_simps numeral_eq_Suc)

definition X_of :: "u32 \<Rightarrow> H \<Rightarrow> u32 list" where
  "X_of x0 = (\<lambda>(a, b, c, d, e). [x0, a, b, c, d, e])"

lemma sha_rounds_eq:
  assumes "length w = 68" "n \<le> 80"
  defines "W \<equiv> schedule (take 64 w)"
  shows "\<exists>x w'. fold sha_round [0..<n] (X_of x0 h, w) = (X_of x (fold (spec_round W) [0..<n] h), w')
     \<and> window W n w'"
  using assms(2)
proof (induction n)
  case 0
  show ?case using window_0 [OF assms(1)] by (auto simp: W_def)
next
  case (Suc n)
  then obtain x w' where IH:
    "fold sha_round [0..<n] (X_of x0 h, w) = (X_of x (fold (spec_round W) [0..<n] h), w')"
    "window W n w'" by auto
  obtain w'' where gw: "get_w w' n = (W ! n, w'')" "window W (Suc n) w''"
    using get_w_window IH(2) Suc.prems by (metis W_def Suc_le_eq)
  have "sha_round n (X_of x g, w') = (X_of (fst (spec_round W n g)) (spec_round W n g), w'')" for g
    using sha_round_eq [OF gw(1), of x] by (cases g) (auto simp: X_of_def Let_def split: prod.splits)
  with IH(1) gw(2) show ?case by auto
qed

text \<open>The digest field, read as five big-endian words.\<close>

definition H_of :: "bytes \<Rightarrow> H" where
  "H_of h = (ntohl (rd32 h 0), ntohl (rd32 h 1), ntohl (rd32 h 2), ntohl (rd32 h 3), ntohl (rd32 h 4))"

lemma H_bytes_H_of:
  assumes "length h = 20"
  shows "H_bytes (H_of h) = h"
proof -
  have "slice h 0 4 @ slice h 4 4 @ slice h 8 4 @ slice h 12 4 @ slice h 16 4 = h"
    using assms by (intro nth_equalityI) (auto simp: nth_append)
  with assms show ?thesis by (simp add: H_bytes_def H_of_def ntohl_rd32 be32_of_be32)
qed

lemma H_of_H_bytes [simp]: "H_of (H_bytes h) = h"
  by (cases h) (simp add: H_bytes_def H_of_def ntohl_rd32)

lemma eq_H_bytesI: "length b = 20 \<Longrightarrow> H_of b = h \<Longrightarrow> b = H_bytes h"
  using H_bytes_H_of by auto

lemma upt_0_5: "[0..<5] = [0, 1, 2, 3, 4 :: nat]"
  by (simp add: upt_rec numeral_eq_Suc)

lemma load_hash:
  "fold (\<lambda>i X. X[i + 1 := ntohl (rd32 h i)]) [0..<5] (replicate 6 0) = X_of 0 (H_of h)"
  by (simp add: upt_0_5 X_of_def H_of_def numeral_eq_Suc)

lemma add_hash:
  assumes "length h = 20"
  shows "fold (\<lambda>i h. wr32 h i (ntohl (ntohl (rd32 h i) + X_of x g ! (i + 1)))) [0..<5] h =
    H_bytes (case (H_of h, g) of ((h0, h1, h2, h3, h4), (a, b, c, d, e)) \<Rightarrow>
      (h0 + a, h1 + b, h2 + c, h3 + d, h4 + e))"
  using assms
  by (intro eq_H_bytesI; cases g) (simp_all add: upt_0_5 H_of_def X_of_def)

lemma process_block_correct:
  assumes "length (sha_buffer ctx) = 68" "length (sha_hash ctx) = 20"
  obtains w where "length w = 68"
    "process_block ctx = ctx\<lparr>sha_buffer := w,
       sha_hash := H_bytes (spec_block (H_of (sha_hash ctx)) (take 64 (sha_buffer ctx)))\<rparr>"
proof -
  let ?W = "schedule (take 64 (sha_buffer ctx))"
  obtain x w where r: "fold sha_round [0..<80] (X_of 0 (H_of (sha_hash ctx)), sha_buffer ctx) =
      (X_of x (fold (spec_round ?W) [0..<80] (H_of (sha_hash ctx))), w)" and "window ?W 80 w"
    using sha_rounds_eq [OF assms(1) order_refl] by blast
  then have "length w = 68" by (simp add: window_def)
  moreover have "process_block ctx = ctx\<lparr>sha_buffer := w,
       sha_hash := H_bytes (spec_block (H_of (sha_hash ctx)) (take 64 (sha_buffer ctx)))\<rparr>"
    unfolding process_block_def Let_def load_hash r prod.case add_hash [OF assms(2)] spec_block_def
    by (simp split: prod.splits)
  ultimately show ?thesis by (rule that)
qed

section \<open>The streaming context\<close>

text \<open>
  \<open>sha_inv m ctx\<close>: the context holds the state of a hash of the message \<open>m\<close>: the number of
  whole blocks, the unprocessed rest in the buffer, and the intermediate hash value.
\<close>

definition sha_inv :: "bytes \<Rightarrow> SHA1_Context \<Rightarrow> bool" where
  "sha_inv m ctx \<longleftrightarrow>
     length m < 2 ^ 29 \<and>
     length (sha_buffer ctx) = 68 \<and>
     unat (sha_index ctx) = length m mod 64 \<and>
     unat (sha_blocks ctx) = length m div 64 \<and>
     take (length m mod 64) (sha_buffer ctx) = drop (64 * (length m div 64)) m \<and>
     sha_hash ctx = H_bytes (spec_blocks H0 (take (64 * (length m div 64)) m))"

text \<open>The sizes of the two arrays of the context, which every operation keeps.\<close>

definition sha_wf :: "SHA1_Context \<Rightarrow> bool" where
  "sha_wf ctx \<longleftrightarrow> length (sha_buffer ctx) = 68 \<and> length (sha_hash ctx) = 20"

lemma sha_inv_wf: "sha_inv m ctx \<Longrightarrow> sha_wf ctx"
  by (simp add: sha_inv_def sha_wf_def)

lemma sha1_init_inv: "sha_wf ctx \<Longrightarrow> sha_inv [] (sha1_init ctx)"
  by (auto simp: sha_inv_def sha_wf_def sha1_init_def Let_def H0_def H_of_def ntohl_def le32_def
      of_be32_def intro!: eq_H_bytesI)

text \<open>Filling the buffer up to 64 bytes and processing it hashes one more block.\<close>

lemma process_full_block:
  assumes inv: "sha_inv m ctx" and "length val \<ge> 64 - length m mod 64"
  defines "n \<equiv> 64 - length m mod 64"
  obtains w where "length w = 68"
    "process_block (ctx\<lparr>sha_buffer := splice (sha_buffer ctx) (length m mod 64) (take n val)\<rparr>) =
     ctx\<lparr>sha_buffer := w, sha_hash := H_bytes (spec_blocks H0 (m @ take n val))\<rparr>"
proof -
  let ?i = "length m mod 64" and ?k = "64 * (length m div 64)"
  let ?buf = "splice (sha_buffer ctx) ?i (take n val)"
  have i: "?i < 64" by simp
  have len: "length (sha_buffer ctx) = 68" and n: "?i + n = 64" "length (take n val) = n"
    using inv assms(2) i by (simp_all add: sha_inv_def n_def)
  then have buf: "length ?buf = 68" "take 64 ?buf = drop ?k m @ take n val"
    using inv take_splice [of ?i "take n val" "sha_buffer ctx"] by (simp_all add: sha_inv_def)
  have "m @ take n val = take ?k m @ drop ?k m @ take n val" by simp
  also have "spec_blocks H0 \<dots> = spec_block (spec_blocks H0 (take ?k m)) (drop ?k m @ take n val)"
  proof -
    have "length (take ?k m) = ?k" by (simp add: min.absorb2)
    then have "length (take ?k m) mod 64 = 0" by simp
    moreover have "length (drop ?k m @ take n val) = 64"
      using n by (simp add: minus_mult_div_eq_mod)
    ultimately show ?thesis
      using spec_blocks_append_block [of "drop ?k m @ take n val" _ "[]"]
      by (simp add: spec_blocks_append)
  qed
  finally have "spec_blocks H0 (m @ take n val) =
      spec_block (H_of (sha_hash ctx)) (take 64 ?buf)"
    using inv buf by (simp add: sha_inv_def)
  then show ?thesis
    using process_block_correct [of "ctx\<lparr>sha_buffer := ?buf\<rparr>"] buf(1) inv that
    by (simp add: sha_inv_def) blast
qed

text \<open>Less than a block: the bytes are only copied.\<close>

lemma sha1_partial:
  assumes inv: "sha_inv m ctx" and cnt: "unat count \<le> length val"
    and small: "length m mod 64 + unat count < 64" and tot: "length m + unat count < 2 ^ 29"
  shows "\<exists>ctx'. sha1 val count ctx = (Ok (), ctx') \<and> sha_inv (m @ take (unat count) val) ctx'"
proof -
  let ?i = "length m mod 64" and ?c = "unat count"
  have idx: "unat (sha_index ctx) = ?i" and len: "length (sha_buffer ctx) = 68"
    using inv by (simp_all add: sha_inv_def)
  have sum: "unat (count + sha_index ctx) = ?i + ?c"
    using small idx by (subst unat_add_lem [THEN iffD1]) (simp_all)
  then have lt: "\<not> 64 \<le> count + sha_index ctx"
    using small by (simp add: word_le_nat_alt)
  have cp: "copy_in (sha_buffer ctx) ?i val ?c = Some (splice (sha_buffer ctx) ?i (take ?c val))"
    using small len cnt by (simp add: copy_in_def)
  have dm: "(length m + ?c) div 64 = length m div 64" "(length m + ?c) mod 64 = ?i + ?c"
    using small by (simp_all add: div_mod_add_small)
  have tk: "take (?i + ?c) (splice (sha_buffer ctx) ?i (take ?c val)) =
      take ?i (sha_buffer ctx) @ take ?c val"
    using take_splice [of ?i "take ?c val" "sha_buffer ctx"] small len cnt by simp
  show ?thesis
    using inv tot lt cp cnt len sum idx small
    by (subst sha1.simps)
      (simp add: sha_inv_def dm tk [unfolded add.commute [of ?i]] add.commute min.absorb2)
qed

text \<open>A full block: one iteration of the loop, or the size error after block number \<open>2^23\<close>.\<close>

lemma sha1_block_step:
  assumes inv: "sha_inv m ctx" and cnt: "unat count \<le> length val"
    and big: "64 \<le> length m mod 64 + unat count" and wrap: "length m mod 64 + unat count < 2 ^ 32"
  defines "n \<equiv> 64 - length m mod 64"
  obtains (error) ctx' where "2 ^ 29 \<le> length m + n"
      "sha1 val count ctx = (Throw ERROR_SHA1_DATA_SIZE, ctx')"
  | (continue) ctx' where "length m + n < 2 ^ 29" "sha_inv (m @ take n val) ctx'"
      "sha1 val count ctx = sha1 (drop n val) (count - of_nat n) ctx'"
proof -
  let ?i = "length m mod 64" and ?k = "length m div 64"
  have idx: "unat (sha_index ctx) = ?i" and len: "length (sha_buffer ctx) = 68"
    and blk: "unat (sha_blocks ctx) = ?k" and mlen: "length m < 2 ^ 29"
    using inv by (simp_all add: sha_inv_def)
  have i: "?i < 64" by simp
  have n: "?i + n = 64" "n \<le> unat count" "n \<le> length val" "0 < n" using big cnt i by (auto simp: n_def)
  have "unat (count + sha_index ctx) = ?i + unat count"
    using wrap idx by (subst unat_add_lem [THEN iffD1]) (simp_all)
  then have ge: "64 \<le> count + sha_index ctx" using big by (simp add: word_le_nat_alt)
  have un: "unat (of_nat n :: u32) = n" using n(1) by (simp add: unat_of_nat take_bit_nat_eq_self)
  have "sha_index ctx \<le> 64" using idx i by (simp add: word_le_nat_alt)
  then have "unat (64 - sha_index ctx) = n" by (subst unat_sub) (simp_all add: idx n_def)
  then have nw: "64 - sha_index ctx = of_nat n" by auto
  have m: "length m + n = 64 * (?k + 1)"
    using fill_block [OF n(1)] .
  obtain w where w: "length w = 68"
    "process_block (ctx\<lparr>sha_buffer := splice (sha_buffer ctx) ?i (take n val)\<rparr>) =
     ctx\<lparr>sha_buffer := w, sha_hash := H_bytes (spec_blocks H0 (m @ take n val))\<rparr>"
    using process_full_block [OF inv, of val] n by (auto simp: n_def)
  define ctx2 where "ctx2 = ctx\<lparr>sha_buffer := w,
    sha_hash := H_bytes (spec_blocks H0 (m @ take n val)), sha_blocks := sha_blocks ctx + 1\<rparr>"
  have "?k < 2 ^ 23" using mlen by (simp add: less_mult_imp_div_less)
  then have b1: "unat (sha_blocks ctx + 1) = ?k + 1"
    using blk by (subst unat_add_lem [THEN iffD1]) simp_all
  then have lim: "push_bit 23 1 \<le> sha_blocks ctx + 1 \<longleftrightarrow> 2 ^ 23 \<le> ?k + 1"
    by (simp add: word_le_nat_alt)
  have run: "sha1 val count ctx = (if 2 ^ 23 \<le> ?k + 1 then (Throw ERROR_SHA1_DATA_SIZE, ctx2)
      else sha1 (drop n val) (count - of_nat n) (ctx2\<lparr>sha_index := 0\<rparr>))"
    using ge n len w lim
    by (subst sha1.simps) (simp add: nw un idx copy_in_def ctx2_def)
  show ?thesis
  proof (cases "2 ^ 23 \<le> ?k + 1")
    case True
    then show ?thesis using run m by (intro error [of ctx2]) auto
  next
    case False
    moreover have "64 + 64 * ?k - length m = n" using m by simp
    ultimately have "sha_inv (m @ take n val) (ctx2\<lparr>sha_index := 0\<rparr>)"
      using w(1) b1 m n by (simp add: sha_inv_def ctx2_def)
    moreover note False
    ultimately show ?thesis using run m by (intro continue) auto
  qed
qed

text \<open>
  The whole loop: the context follows the message as long as it stays below 512 MB, and the
  size error is thrown as soon as it does not.
\<close>

lemma sha1_stream:
  assumes "sha_inv m ctx" "unat count \<le> length val" "length m mod 64 + unat count < 2 ^ 32"
  shows "\<exists>ctx'. if length m + unat count < 2 ^ 29
     then sha1 val count ctx = (Ok (), ctx') \<and> sha_inv (m @ take (unat count) val) ctx'
     else sha1 val count ctx = (Throw ERROR_SHA1_DATA_SIZE, ctx')"
  using assms
proof (induction "unat count" arbitrary: m ctx val count rule: less_induct)
  case less
  let ?i = "length m mod 64"
  show ?case
  proof (cases "?i + unat count < 64")
    case True
    moreover have "length m < 2 ^ 29" using less.prems by (simp add: sha_inv_def)
    moreover from this have "length m div 64 < 8388608" by (simp add: less_mult_imp_div_less)
    ultimately have "length m + unat count < 536870912"
      using mult_div_mod_eq [of 64 "length m"] by linarith
    with sha1_partial [OF less.prems(1,2) True] show ?thesis by auto
  next
    case False
    define n where "n = 64 - ?i"
    have "?i < 64" by simp
    then have n: "0 < n" "n \<le> unat count" "n \<le> 64" using False by (auto simp: n_def)
    have un: "unat (of_nat n :: u32) = n" using n(3) by (simp add: unat_of_nat take_bit_nat_eq_self)
    then have cn: "unat (count - of_nat n) = unat count - n"
      using n by (simp add: unat_sub word_le_nat_alt)
    from False have "64 \<le> ?i + unat count" by simp
    with less.prems(1,2) show ?thesis using less.prems(3)
    proof (cases rule: sha1_block_step)
      case (error ctx')
      with n show ?thesis by (auto simp: n_def)
    next
      case (continue ctx')
      have len: "length (m @ take n val) = length m + n" using n less.prems(2) by simp
      have "length m + n = 64 * (length m div 64 + 1)"
        by (rule fill_block) (use \<open>?i < 64\<close> in \<open>simp add: n_def\<close>)
      then have "length (m @ take n val) mod 64 = 0" using len by simp
      then have "unat (count - of_nat n) < unat count" "unat (count - of_nat n) \<le> length (drop n val)"
        "length (m @ take n val) mod 64 + unat (count - of_nat n) < 2 ^ 32"
        using cn n less.prems(2,3) by simp_all
      from less.hyps [OF this(1) continue(2) [folded n_def] this(2,3)] show ?thesis 
        using continue(3) cn n(2) len
        by (auto simp: n_def [symmetric] take_add [symmetric] add.assoc)
    qed
  qed
qed

section \<open>Finishing\<close>

lemma fold_zero:
  "b \<le> length xs \<Longrightarrow> fold (\<lambda>i xs. xs[i := 0]) [a..<b] xs =
     take a xs @ replicate (b - a) 0 @ drop (max a b) xs"
proof (induction b)
  case (Suc b)
  show ?case
  proof (cases "a \<le> b")
    case True
    then have "(take a xs @ replicate (b - a) 0 @ drop b xs)[b := 0] =
        take a xs @ replicate (Suc b - a) 0 @ drop (Suc b) xs"
      using Suc.prems by (intro nth_equalityI) (auto simp: nth_append nth_list_update)
    with Suc True show ?thesis by (simp add: max_def)
  qed simp
qed simp

text \<open>The buffer with the padding of the last block, and the length in its last word.\<close>

lemma pad_buffer:
  assumes "length buf = 68" "i < 64"
  shows "fold (\<lambda>i b. b[i := 0]) [i + 1..<64] (buf[i := 0x80]) =
    take i buf @ 0x80 # replicate (63 - i) 0 @ drop 64 buf"
  using assms by (subst fold_zero) (simp_all add: take_Suc_conv_app_nth)

lemma be64_small: "n < 2 ^ 32 \<Longrightarrow> be64 (of_nat n) = [0, 0, 0, 0] @ be32 (of_nat n)"
proof -
  assume "n < 2 ^ 32"
  then have "drop_bit 32 (of_nat n :: u64) = 0"
    by (simp only: word_unat_eq_iff unat_drop_bit_eq unat_of_nat)
      (simp add: take_bit_nat_eq_self drop_bit_eq_div)
  moreover have "ucast (of_nat n :: u64) = (of_nat n :: u32)"
    using of_nat_unat [of "of_nat n :: u64", where ?'a = "u32"] \<open>n < 2 ^ 32\<close>
    by (simp add: unat_of_nat take_bit_nat_eq_self del: of_nat_unat)
  ultimately show ?thesis by (simp add: be64_def be32_def)
qed

lemma store_length:
  assumes "length b = 60" "length c = 4"
  shows "take 64 (wr32 (b @ c @ d) 15 (ntohl v)) = b @ be32 v"
  using assms by (simp add: wr32_def splice_def)

lemma sha_length_word:
  assumes "sha_inv m ctx"
  shows "push_bit 9 (sha_blocks ctx) + push_bit 3 (sha_index ctx) = of_nat (8 * length m)"
proof -
  define q r where "q = length m div 64" and "r = length m mod 64"
  have "sha_blocks ctx = of_nat q" "sha_index ctx = of_nat r"
    using assms by (auto simp: sha_inv_def q_def r_def dest!: sym [of "unat _"])
  moreover have "length m = 64 * q + r" by (simp add: q_def r_def)
  ultimately show ?thesis by (simp add: push_bit_eq_mult)
qed

lemma process_block_last:
  assumes "length b = 60" "length c = 4" "length d = 4" "sha_hash ctx = H_bytes h"
    "sha_buffer ctx = wr32 (b @ c @ d) 15 (ntohl v)"
  shows "sha_hash (process_block ctx) = H_bytes (spec_block h (b @ be32 v)) \<and>
    sha_wf (process_block ctx)"
proof -
  have "length (sha_buffer ctx) = 68" "take 64 (sha_buffer ctx) = b @ be32 v"
    using assms by (simp_all add: store_length)
  with process_block_correct [of ctx] assms(4) show ?thesis
    by (metis H_of_H_bytes length_H_bytes sha_wf_def SHA1_Context.select_convs(3,4)
        SHA1_Context.surjective SHA1_Context.update_convs(3,4))
qed

lemma process_block_full:
  assumes "length b = 64" "length d = 4" "sha_hash ctx = H_bytes h" "sha_buffer ctx = b @ d"
  obtains w where "length w = 68"
    "process_block ctx = ctx\<lparr>sha_buffer := w, sha_hash := H_bytes (spec_block h b)\<rparr>"
  using process_block_correct [of ctx] assms by auto

text \<open>The padding after the last whole block: one block, or two when the length does not fit.\<close>

lemma finish_one_block:
  assumes "length r \<le> 55" "length d = 4" "sha_hash ctx = H_bytes h"
    "sha_buffer ctx = wr32 (r @ 0x80 # replicate (63 - length r) 0 @ d) 15 (ntohl v)"
  shows "sha_hash (process_block ctx) =
      H_bytes (spec_block h (r @ 0x80 # replicate (59 - length r) 0 @ be32 v)) \<and>
    sha_wf (process_block ctx)"
proof -
  have "replicate (63 - length r) (0::u8) = replicate (59 - length r) 0 @ replicate 4 0"
    using assms(1) by (simp flip: replicate_add)
  then show ?thesis
    using process_block_last [of "r @ 0x80 # replicate (59 - length r) 0" "replicate 4 0" d ctx h v] assms
    by simp
qed

lemma sha1_finish_correct:
  assumes inv: "sha_inv m ctx"
  shows "sha_hash (sha1_finish ctx) = SHA1_hash m \<and> sha_wf (sha1_finish ctx)"
proof -
  let ?i = "length m mod 64" and ?k = "64 * (length m div 64)"
  let ?r = "drop ?k m" and ?h = "spec_blocks H0 (take ?k m)" and ?d = "drop 64 (sha_buffer ctx)"
  let ?len = "of_nat (8 * length m) :: u32"
  have i: "?i < 64" by simp
  have idx: "unat (sha_index ctx) = ?i" and len: "length (sha_buffer ctx) = 68"
    and tk: "take ?i (sha_buffer ctx) = ?r" and hash: "sha_hash ctx = H_bytes ?h"
    using inv by (simp_all add: sha_inv_def)
  have lr: "length ?r = ?i" by (simp add: minus_mult_div_eq_mod)
  have hi: "55 < sha_index ctx \<longleftrightarrow> 55 < ?i" by (simp add: word_less_nat_alt idx)
  have "length (take ?k m) = ?k" by (simp add: min.absorb2)
  then have "length (take ?k m) mod 64 = 0" by simp
  from spec_blocks_append [OF this, of H0 "?r @ x" for x]
  have split: "spec_blocks H0 (m @ x) = spec_blocks ?h (?r @ x)" for x by (simp flip: append_assoc)
  have bits: "be64 (of_nat (8 * length m)) = [0, 0, 0, 0] @ be32 ?len"
    using inv by (intro be64_small) (simp add: sha_inv_def)
  note fin = sha1_finish_def Let_def idx pad_buffer [OF len i, unfolded tk]
  have len_word: "push_bit 9 (sha_blocks ctx) + push_bit 3 (sha_index ctx) = ?len"
    using sha_length_word [OF inv] .
  have r4: "replicate 4 (0::u8) = [0, 0, 0, 0]" by (simp add: numeral_eq_Suc)
  have "SHA1_hash m = H_bytes (spec_blocks ?h
      (?r @ 0x80 # (replicate ((119 - ?i) mod 64) 0 @ replicate 4 0) @ be32 ?len))"
    unfolding SHA1_hash_def sha1_pad_def split bits r4 by simp
  then have spec: "SHA1_hash m = H_bytes (spec_blocks ?h
      (?r @ 0x80 # replicate ((119 - ?i) mod 64 + 4) 0 @ be32 ?len))"
    by (simp only: replicate_add)
  have one: "spec_blocks h x = spec_block h x" if "length x = 64" for h x
    using spec_blocks_append_block [OF that, of h "[]"] by simp
  show ?thesis
  proof (cases "55 < ?i")
    case True
    let ?b = "?r @ 0x80 # replicate (63 - ?i) 0"
    obtain w where w: "length w = 68" "process_block (ctx\<lparr>sha_buffer := ?b @ ?d\<rparr>) =
        ctx\<lparr>sha_buffer := w, sha_hash := H_bytes (spec_block ?h ?b)\<rparr>"
      using process_block_full [of ?b ?d "ctx\<lparr>sha_buffer := ?b @ ?d\<rparr>" ?h] i len hash lr by auto
    have rep: "replicate 64 (0::u8) @ x = replicate 60 0 @ replicate 4 0 @ x" for x
      using replicate_add [of 60 4 "0::u8"] by simp
    have "sha1_finish ctx = process_block (ctx\<lparr>sha_hash := H_bytes (spec_block ?h ?b),
        sha_buffer := wr32 (replicate 60 0 @ replicate 4 0 @ drop 64 w) 15 (ntohl ?len)\<rparr>)"
      unfolding fin using True w
      by (simp add: hi len_word [simplified] fold_zero rep)
    moreover have "(119 - ?i) mod 64 + 4 = (63 - ?i) + 60" using True i by simp
    then have "SHA1_hash m = H_bytes (spec_blocks ?h (?b @ replicate 60 0 @ be32 ?len))"
      using spec by (simp only: replicate_add append_assoc append_Cons)
    then have "SHA1_hash m = H_bytes (spec_block (spec_block ?h ?b) (replicate 60 0 @ be32 ?len))"
      using lr i by (subst (asm) spec_blocks_append_block) (simp_all add: one)
    ultimately show ?thesis
      using process_block_last [of "replicate 60 0" "replicate 4 0" "drop 64 w" _ "spec_block ?h ?b" ?len] w(1) by auto
  next
    case False
    have "sha1_finish ctx = process_block (ctx\<lparr>sha_buffer :=
        wr32 (?r @ 0x80 # replicate (63 - ?i) 0 @ ?d) 15 (ntohl ?len)\<rparr>)"
      unfolding fin using False by (simp add: hi len_word [simplified])
    moreover have "(119 - ?i) mod 64 + 4 = 59 - ?i" using False by (simp add: le_mod_geq)
    then have "SHA1_hash m = H_bytes (spec_block ?h (?r @ 0x80 # replicate (59 - ?i) 0 @ be32 ?len))"
      using spec one False lr by simp
    moreover note finish_one_block [of ?r ?d "ctx\<lparr>sha_buffer :=
        wr32 (?r @ 0x80 # replicate (63 - ?i) 0 @ ?d) 15 (ntohl ?len)\<rparr>" ?h ?len, unfolded lr]
    ultimately show ?thesis using False len hash by simp
  qed
qed

section \<open>SHA-1 as a streaming hash\<close>

lemma sha1_upd:
  assumes "sha_inv m ctx" "unat count \<le> length val" "length m + unat count < 2 ^ 29"
  shows "\<exists>ctx'. sha1 val count ctx = (Ok (), ctx') \<and> sha_inv (m @ take (unat count) val) ctx'"
proof -
  have "length m mod 64 \<le> length m" by simp
  with assms(3) have "length m mod 64 + unat count < 2 ^ 32" by simp
  from sha1_stream [OF assms(1,2) this] assms(3) show ?thesis by simp
qed

interpretation sha: streaming_hash sha1 sha_inv "2 ^ 29" sha1_init sha1_finish sha_hash sha_wf SHA1_hash
  by unfold_locales (simp_all add: sha1_upd sha1_init_inv sha1_finish_correct sha_inv_wf)

section \<open>Properties\<close>

text \<open>
  C1: hashing a message in any sequence of calls to \<open>sha1\<close> between \<open>sha1_init\<close> and
  \<open>sha1_finish\<close> succeeds and leaves the digest of the Secure Hash Standard in \<open>ctx->hash\<close>, for
  every message below 512 MB and whatever the context held before.
\<close>

theorem sha1_computes_standard:
  assumes "length (sha_buffer ctx) = 68" "length (sha_hash ctx) = 20"
    and "length (concat chunks) < 2 ^ 29"
  shows "\<exists>ctx'. feed sha1 chunks (sha1_init ctx) = (Ok (), ctx') \<and>
    sha_hash (sha1_finish ctx') = SHA1_hash (concat chunks)"
  using sha.hash_chunks [of ctx chunks] assms by (auto simp: sha_wf_def)

definition sha1_ctx0 :: SHA1_Context where
  "sha1_ctx0 = \<lparr>sha_index = 0, sha_blocks = 0, sha_buffer = replicate 68 0, sha_hash = replicate 20 0\<rparr>"

lemma sha_wf_ctx0 [simp]: "sha_wf sha1_ctx0"
  by (simp add: sha_wf_def sha1_ctx0_def)

theorem sha1_computes_standard_witness:
  "length (sha_buffer sha1_ctx0) = 68 \<and> length (sha_hash sha1_ctx0) = 20 \<and>
   length (concat [[0x61], [0x62, 0x63 :: u8]]) < 2 ^ 29 \<and>
   (\<exists>ctx'. feed sha1 [[0x61], [0x62, 0x63]] (sha1_init sha1_ctx0) = (Ok (), ctx') \<and>
     sha_hash (sha1_finish ctx') = SHA1_hash [0x61, 0x62, 0x63])"
  using sha1_computes_standard [of sha1_ctx0 "[[0x61], [0x62, 0x63]]"]
  by (simp add: sha1_ctx0_def)

text \<open>
  The 32-bit sum \<open>count + ctx->index\<close> can wrap around. Then the loop is skipped and the rest
  of the call copies \<open>count\<close> bytes into the 68-byte buffer: the access leaves the buffer instead
  of raising \<open>ERROR_SHA1_DATA_SIZE\<close>.
\<close>

lemma sha1_wraps:
  assumes "sha_inv m ctx" "2 ^ 32 \<le> length m mod 64 + unat count"
  shows "fst (sha1 val count ctx) = Stop Fault"
proof -
  have idx: "unat (sha_index ctx) = length m mod 64" and len: "length (sha_buffer ctx) = 68"
    using assms(1) by (simp_all add: sha_inv_def)
  have i: "length m mod 64 < 64" by simp
  have c: "unat count < 2 ^ 32" using unsigned_less [of count] by simp
  have "unat (count + sha_index ctx) = unat count + length m mod 64 - 2 ^ 32"
    using assms(2) c i by (simp add: unat_word_ariths idx le_mod_geq)
  then have "\<not> 64 \<le> count + sha_index ctx" using c i by (simp add: word_le_nat_alt)
  moreover have "copy_in (sha_buffer ctx) (length m mod 64) val (unat count) = None"
    using assms(2) i len by (simp add: copy_in_def)
  ultimately show ?thesis by (subst sha1.simps) (simp add: idx)
qed

text \<open>
  C17: the size limit, for every count. With a context that has absorbed \<open>m\<close>: when \<open>ctx->index + count\<close> does not wrap
  around 32 bits, a call that would bring the message to 512 MB or more throws \<open>ERROR_SHA1_DATA_SIZE\<close>
  and one that stays below returns normally; when it wraps around, the check is passed over and the call
  leaves its buffer.
\<close>

theorem sha1_size_limit:
  assumes "sha_inv m ctx" "unat count \<le> length val"
  shows "fst (sha1 val count ctx) =
    (if 2 ^ 32 \<le> length m mod 64 + unat count then Stop Fault
     else if length m + unat count < 2 ^ 29 then Ok () else Throw ERROR_SHA1_DATA_SIZE)"
  using sha1_stream [OF assms] sha1_wraps [OF assms(1), of count val] by auto

theorem sha1_size_limit_witness:
  "fst (sha1 [1, 2, 3] 3 (sha1_init sha1_ctx0)) = Ok () \<and>
   fst (sha1 (replicate (2 ^ 29) 0) 0x20000000 (sha1_init sha1_ctx0)) = Throw ERROR_SHA1_DATA_SIZE \<and>
   (\<exists>ctx. sha_inv [7] ctx \<and> fst (sha1 (replicate (2 ^ 32) 0) 0xffffffff ctx) = Stop Fault)"
proof (intro conjI)
  have inv: "sha_inv [] (sha1_init sha1_ctx0)" by (rule sha1_init_inv [OF sha_wf_ctx0])
  show "fst (sha1 [1, 2, 3] 3 (sha1_init sha1_ctx0)) = Ok ()"
    using sha1_size_limit [OF inv, of 3 "[1, 2, 3]"] by simp
  show "fst (sha1 (replicate (2 ^ 29) 0) 0x20000000 (sha1_init sha1_ctx0)) = Throw ERROR_SHA1_DATA_SIZE"
    using sha1_size_limit [OF inv, of "0x20000000" "replicate (2 ^ 29) 0"] by simp
  obtain c where c: "sha_inv [7] c" using sha.upd_all [OF inv, of "[7]"] by auto
  with sha1_size_limit [OF c, of "0xffffffff" "replicate (2 ^ 32) 0"]
  show "\<exists>ctx. sha_inv [7] ctx \<and> fst (sha1 (replicate (2 ^ 32) 0) 0xffffffff ctx) = Stop Fault"
    by (intro exI [of _ c]) simp
qed

end
