(* ===== verification/HMAC.thy ===== *)
theory HMAC
  imports SHA1_Correct
begin

text \<open>
  HMAC-SHA1 of \<^verbatim>\<open>src/hmac.c\<close> on the context of \<^verbatim>\<open>include/hmac.h\<close>, the keyed-hash standard
  (FIPS 198-1) as its specification, and the proof that the three calls compute it.
\<close>

record HMAC_Context =
  hmac_key :: bytes
  hmac_sctx :: SHA1_Context

abbreviation HMAC_BLOCK_SIZE :: nat where
  "HMAC_BLOCK_SIZE \<equiv> 64"

text \<open>\<open>do_xor\<close> on three buffers of the same length (\<^verbatim>\<open>src/util.c\<close>).\<close>

definition xor_bytes :: "bytes \<Rightarrow> bytes \<Rightarrow> bytes" where
  "xor_bytes a b = map2 (XOR) a b"

lemma length_xor_bytes [simp]: "length (xor_bytes a b) = min (length a) (length b)"
  by (simp add: xor_bytes_def)

text \<open>A call on \<open>&ctx->sctx\<close>.\<close>

definition on_sctx :: "(SHA1_Context, 'a) exec \<Rightarrow> (HMAC_Context, 'a) exec" where
  "on_sctx m ctx = (case m (hmac_sctx ctx) of (r, c) \<Rightarrow> (r, ctx\<lparr>hmac_sctx := c\<rparr>))"

definition sha1_call :: "(SHA1_Context \<Rightarrow> SHA1_Context) \<Rightarrow> (HMAC_Context, unit) exec" where
  "sha1_call f = on_sctx (modifyE f)"

definition set_key :: "bytes \<Rightarrow> nat \<Rightarrow> (HMAC_Context, unit) exec" where
  "set_key src n ctx = (case copy_in (hmac_key ctx) 0 src n of
     None \<Rightarrow> (Stop Fault, ctx) | Some k \<Rightarrow> (Ok (), ctx\<lparr>hmac_key := k\<rparr>))"

definition hmac_init :: "bytes \<Rightarrow> u32 \<Rightarrow> (HMAC_Context, unit) exec" where
  "hmac_init key keySize =
     bindE (modifyE (\<lambda>ctx. ctx\<lparr>hmac_key := replicate HMAC_BLOCK_SIZE 0\<rparr>)) (\<lambda>_.
     let ipad = replicate HMAC_BLOCK_SIZE 0x36 in
     bindE (if keySize \<le> 64 then set_key key (unat keySize)
            else bindE (sha1_call sha1_init) (\<lambda>_.
                 bindE (on_sctx (sha1 key keySize)) (\<lambda>_.
                 bindE (sha1_call sha1_finish) (\<lambda>_.
                 bindE (getE (\<lambda>ctx. sha_hash (hmac_sctx ctx))) (\<lambda>digest.
                 set_key digest 20))))) (\<lambda>_.
     bindE (getE (\<lambda>ctx. xor_bytes ipad (hmac_key ctx))) (\<lambda>ipad.
     bindE (sha1_call sha1_init) (\<lambda>_.
     on_sctx (sha1 ipad 64)))))"

definition hmac :: "bytes \<Rightarrow> u32 \<Rightarrow> (HMAC_Context, unit) exec" where
  "hmac data dataSize = on_sctx (sha1 data dataSize)"

definition hmac_finish :: "(HMAC_Context, unit) exec" where
  "hmac_finish =
     bindE (sha1_call sha1_finish) (\<lambda>_.
     bindE (getE (\<lambda>ctx. sha_hash (hmac_sctx ctx))) (\<lambda>hash.
     let opad = replicate HMAC_BLOCK_SIZE 0x5c in
     bindE (getE (\<lambda>ctx. xor_bytes opad (hmac_key ctx))) (\<lambda>opad.
     bindE (sha1_call sha1_init) (\<lambda>_.
     bindE (on_sctx (sha1 opad 64)) (\<lambda>_.
     bindE (on_sctx (sha1 hash 20)) (\<lambda>_.
     sha1_call sha1_finish))))))"

section \<open>The standard\<close>

text \<open>Step 1 to 3 of the standard: the key, hashed when it is longer than a block, zero padded.\<close>

definition HMAC_K0 :: "bytes \<Rightarrow> bytes" where
  "HMAC_K0 K = (let k = (if length K \<le> 64 then K else SHA1_hash K) in k @ replicate (64 - length k) 0)"

definition HMAC_SHA1 :: "bytes \<Rightarrow> bytes \<Rightarrow> bytes" where
  "HMAC_SHA1 K text =
     SHA1_hash (xor_bytes (HMAC_K0 K) (replicate 64 0x5c) @
       SHA1_hash (xor_bytes (HMAC_K0 K) (replicate 64 0x36) @ text))"

lemma length_HMAC_K0 [simp]: "length (HMAC_K0 K) = 64"
  by (simp add: HMAC_K0_def Let_def)

lemma length_HMAC_SHA1 [simp]: "length (HMAC_SHA1 K m) = 20"
  by (simp add: HMAC_SHA1_def)

lemma xor_bytes_commute: "length a = length b \<Longrightarrow> xor_bytes a b = xor_bytes b a"
  by (simp add: xor_bytes_def list_eq_iff_nth_eq xor.commute)

section \<open>Correctness\<close>

definition hmac_wf :: "HMAC_Context \<Rightarrow> bool" where
  "hmac_wf ctx \<longleftrightarrow> length (hmac_key ctx) = 64 \<and> sha_wf (hmac_sctx ctx)"

text \<open>The context has absorbed the text \<open>m\<close> under the key \<open>K\<close>.\<close>

definition hmac_inv :: "bytes \<Rightarrow> bytes \<Rightarrow> HMAC_Context \<Rightarrow> bool" where
  "hmac_inv K m ctx \<longleftrightarrow> hmac_key ctx = HMAC_K0 K \<and>
     sha_inv (xor_bytes (replicate 64 0x36) (HMAC_K0 K) @ m) (hmac_sctx ctx)"

lemma on_sctx_Ok [exec_simps]:
  "m (hmac_sctx ctx) = (Ok a, c) \<Longrightarrow> on_sctx m ctx = (Ok a, ctx\<lparr>hmac_sctx := c\<rparr>)"
  by (simp add: on_sctx_def)

lemma sha1_call_run [simp]: "sha1_call f ctx = (Ok (), ctx\<lparr>hmac_sctx := f (hmac_sctx ctx)\<rparr>)"
  by (simp add: sha1_call_def on_sctx_def modifyE_def)

lemma bindE_run [simp]:
  "bindE (sha1_call f) k ctx = k () (ctx\<lparr>hmac_sctx := f (hmac_sctx ctx)\<rparr>)"
  "bindE (getE g) k' s = k' (g s) s"
  "bindE (modifyE h) k'' s = k'' () (h s)"
  by (simp_all add: bindE_def getE_def modifyE_def)

lemma set_key_run:
  "length (hmac_key ctx) = 64 \<Longrightarrow> n \<le> 64 \<Longrightarrow> n \<le> length src \<Longrightarrow>
   set_key src n ctx = (Ok (), ctx\<lparr>hmac_key := take n src @ drop n (hmac_key ctx)\<rparr>)"
  by (simp add: set_key_def copy_in_def splice_def)

text \<open>The last part of \<open>hmac_init\<close>, with the padded key in place.\<close>

lemma start_inner:
  assumes "hmac_key ctx = HMAC_K0 K" "sha_wf (hmac_sctx ctx)"
  shows "\<exists>ctx'. bindE (getE (\<lambda>ctx. xor_bytes (replicate 64 0x36) (hmac_key ctx))) (\<lambda>ipad.
     bindE (sha1_call sha1_init) (\<lambda>_. on_sctx (sha1 ipad 64))) ctx = (Ok (), ctx') \<and> hmac_inv K [] ctx'"
proof -
  let ?i = "xor_bytes (replicate 64 0x36) (HMAC_K0 K)"
  obtain c where "sha1 ?i 64 (sha1_init (hmac_sctx ctx)) = (Ok (), c)" "sha_inv ?i c"
    using sha.hash_prefix [OF assms(2), of 64 ?i] by auto
  with assms(1) show ?thesis by (simp add: on_sctx_Ok hmac_inv_def)
qed

lemma hmac_init_correct:
  assumes wf: "hmac_wf ctx" and n: "unat keySize \<le> length key" and lim: "unat keySize < 2 ^ 29"
  shows "\<exists>ctx'. hmac_init key keySize ctx = (Ok (), ctx') \<and> hmac_inv (take (unat keySize) key) [] ctx'"
proof (cases "keySize \<le> 64")
  case True
  let ?n = "unat keySize" and ?c = "ctx\<lparr>hmac_key := replicate 64 0\<rparr>"
  from True have n64: "?n \<le> 64" by (simp add: word_le_nat_alt)
  with n have "set_key key ?n ?c = (Ok (), ctx\<lparr>hmac_key := HMAC_K0 (take ?n key)\<rparr>)"
    by (simp add: set_key_run HMAC_K0_def Let_def)
  with start_inner [of "ctx\<lparr>hmac_key := HMAC_K0 (take ?n key)\<rparr>"] wf True show ?thesis
    by (simp add: hmac_init_def hmac_wf_def bindE_cases)
next
  case False
  let ?K = "take (unat keySize) key"
  from False have n64: "\<not> unat keySize \<le> 64" by (simp add: word_le_nat_alt)
  obtain c where c: "sha1 key keySize (sha1_init (hmac_sctx ctx)) = (Ok (), c)"
    "sha_hash (sha1_finish c) = SHA1_hash ?K" "sha_wf (sha1_finish c)"
    using sha.hash_prefix [OF _ n lim] wf by (auto simp: hmac_wf_def)
  have "HMAC_K0 ?K = SHA1_hash ?K @ replicate 44 0"
    using n n64 by (simp add: HMAC_K0_def)
  with start_inner [of "ctx\<lparr>hmac_key := HMAC_K0 ?K, hmac_sctx := sha1_finish c\<rparr>" ?K] c False
  show ?thesis
    by (simp add: hmac_init_def bindE_assoc bindE_cases on_sctx_Ok set_key_run)
qed

lemma hmac_correct:
  assumes "hmac_inv K m ctx" "unat n \<le> length v" "length m + unat n < 2 ^ 29 - 64"
  shows "\<exists>ctx'. hmac v n ctx = (Ok (), ctx') \<and> hmac_inv K (m @ take (unat n) v) ctx'"
  using sha.upd_inv [of "xor_bytes (replicate 64 0x36) (HMAC_K0 K) @ m" "hmac_sctx ctx" n v] assms
  by (auto simp: hmac_def hmac_inv_def on_sctx_Ok)

lemma hmac_finish_correct:
  assumes inv: "hmac_inv K m ctx"
  shows "\<exists>ctx'. hmac_finish ctx = (Ok (), ctx') \<and> sha_hash (hmac_sctx ctx') = HMAC_SHA1 K m \<and> hmac_wf ctx'"
proof -
  let ?i = "xor_bytes (replicate 64 0x36) (HMAC_K0 K)" and ?o = "xor_bytes (replicate 64 0x5c) (HMAC_K0 K)"
  let ?f = "sha1_finish (hmac_sctx ctx)"
  have f: "sha_hash ?f = SHA1_hash (?i @ m)" "sha_wf ?f" and key: "hmac_key ctx = HMAC_K0 K"
    using sha.finish_hash inv by (auto simp: hmac_inv_def)
  obtain c1 where c1: "sha1 ?o 64 (sha1_init ?f) = (Ok (), c1)" "sha_inv ?o c1"
    using sha.hash_prefix [OF f(2), of 64 ?o] by auto
  obtain c2 where c2: "sha1 (SHA1_hash (?i @ m)) 20 c1 = (Ok (), c2)" "sha_inv (?o @ SHA1_hash (?i @ m)) c2"
    using sha.upd_inv [OF c1(2), of 20 "SHA1_hash (?i @ m)"] by auto
  have "HMAC_SHA1 K m = sha_hash (sha1_finish c2)"
    using sha.finish_hash [OF c2(2)] by (simp add: HMAC_SHA1_def xor_bytes_commute [of "HMAC_K0 K"])
  with key f c1 c2 sha.finish_hash [OF c2(2)] show ?thesis
    by (simp add: hmac_finish_def bindE_cases on_sctx_Ok hmac_wf_def)
qed

interpretation hm: byte_sink hmac "hmac_inv K" "2 ^ 29 - 64" for K
  by unfold_locales (simp_all add: hmac_correct)

section \<open>Properties\<close>

text \<open>
  C2: \<open>hmac_init\<close>, any sequence of \<open>hmac\<close> calls and \<open>hmac_finish\<close> succeed and leave the
  HMAC-SHA1 of the concatenated data under the key in the context, for keys shorter and longer
  than a block.
\<close>

theorem hmac_computes_standard:
  assumes "length (hmac_key ctx) = 64" "sha_wf (hmac_sctx ctx)"
    and "unat keySize \<le> length key" "unat keySize < 2 ^ 29"
    and "length (concat chunks) < 2 ^ 29 - 64"
  shows "\<exists>ctx'. bindE (hmac_init key keySize) (\<lambda>_. bindE (feed hmac chunks) (\<lambda>_. hmac_finish)) ctx =
      (Ok (), ctx') \<and>
    sha_hash (hmac_sctx ctx') = HMAC_SHA1 (take (unat keySize) key) (concat chunks)"
proof -
  let ?K = "take (unat keySize) key"
  obtain c1 where c1: "hmac_init key keySize ctx = (Ok (), c1)" "hmac_inv ?K [] c1"
    using hmac_init_correct [of ctx keySize key] assms by (auto simp: hmac_wf_def)
  obtain c2 where c2: "feed hmac chunks c1 = (Ok (), c2)" "hmac_inv ?K (concat chunks) c2"
    using hm.feed_inv [OF c1(2), of chunks] assms(5) by auto
  show ?thesis
    using hmac_finish_correct [OF c2(2)] c1(1) c2(1) by (auto simp: bindE_cases)
qed

definition hmac_ctx0 :: HMAC_Context where
  "hmac_ctx0 = \<lparr>hmac_key = replicate 64 0, hmac_sctx = sha1_ctx0\<rparr>"

theorem hmac_computes_standard_witness:
  "\<exists>ctx'. bindE (hmac_init (replicate 20 0xaa) 20) (\<lambda>_. bindE (feed hmac [[1, 2], [3]]) (\<lambda>_. hmac_finish))
      hmac_ctx0 = (Ok (), ctx') \<and>
    sha_hash (hmac_sctx ctx') = HMAC_SHA1 (replicate 20 0xaa) [1, 2, 3]"
  using hmac_computes_standard [of hmac_ctx0 20 "replicate 20 0xaa" "[[1, 2], [3]]"]
  by (simp add: hmac_ctx0_def)

end
