(* ===== verification/Alloc.thy ===== *)
theory Alloc
  imports Exceptions
begin

text \<open>
  The heap of \<^verbatim>\<open>src/alloc.c\<close>: a first-fit allocator without \<open>free\<close>, whose nodes form a list
  through the heap. The state maps a block address to the \<open>struct mem_node\<close> read there. The
  abstract view is the list of segments of the heap, each a number of blocks and a flag;
  \<open>alloc\<close> is shown to be first fit on that list.
\<close>

record mem_node =
  mn_size :: u32
  mn_next :: u32

type_synonym heap = "u32 \<Rightarrow> mem_node"

definition MEM_NODE_OCCUPIED_FLAG :: u32 where
  "MEM_NODE_OCCUPIED_FLAG = 0x80000000"

definition init_heap :: "u32 \<Rightarrow> u32 \<Rightarrow> (heap, unit) exec" where
  "init_heap hp heap_size =
     bindE (ASSERT (hp AND 7 = 0)) (\<lambda>_.
     bindE (ASSERT (heap_size AND MEM_NODE_OCCUPIED_FLAG = 0)) (\<lambda>_.
     modifyE (\<lambda>h. h(hp := \<lparr>mn_size = drop_bit 3 heap_size - 1, mn_next = 0\<rparr>))))"

text \<open>
  The search loop: the first node, from \<open>n\<close> on, that is free and large enough, or \<open>NULL\<close>.
  On a cyclic list it does not return, which is the value \<open>None\<close>.
\<close>

partial_function (option) find_node :: "heap \<Rightarrow> u32 \<Rightarrow> u32 \<Rightarrow> u32 option" where
  "find_node h blocks n =
     (if n \<noteq> 0 \<and> (blocks > mn_size (h n) AND NOT MEM_NODE_OCCUPIED_FLAG \<or>
                  mn_size (h n) AND MEM_NODE_OCCUPIED_FLAG \<noteq> 0)
      then find_node h blocks (mn_next (h n))
      else Some n)"

text \<open>\<open>n + (blocks + 1)\<close> is pointer arithmetic on 8-byte nodes.\<close>

definition place :: "u32 \<Rightarrow> u32 \<Rightarrow> heap \<Rightarrow> heap" where
  "place n blocks h =
     (let n_size = mn_size (h n) AND NOT MEM_NODE_OCCUPIED_FLAG;
          (next_node, h) =
            (if blocks < n_size
             then let nn = n + 8 * (blocks + 1)
                  in (nn, h(nn := \<lparr>mn_size = (n_size - (blocks + 1)) AND NOT MEM_NODE_OCCUPIED_FLAG,
                                  mn_next = mn_next (h n)\<rparr>))
             else (mn_next (h n), h))
      in h(n := \<lparr>mn_size = blocks OR MEM_NODE_OCCUPIED_FLAG, mn_next = next_node\<rparr>))"

definition alloc :: "u32 \<Rightarrow> u32 \<Rightarrow> (heap, u32) exec" where
  "alloc hp sz =
     bindE (ASSERT (sz > 0)) (\<lambda>_.
     let blocks = drop_bit 3 sz + 1 in
     bindE (getE (\<lambda>h. find_node h blocks hp)) (\<lambda>r.
     case r of None \<Rightarrow> stopE Hang
     | Some n \<Rightarrow>
         if n = 0 then returnE 0
         else bindE (modifyE (place n blocks)) (\<lambda>_. returnE (n + 8))))"

section \<open>The abstract heap\<close>

text \<open>A heap is a list of segments: payload blocks behind a one-block header, and the flag.\<close>

type_synonym seg = "nat \<times> bool"

definition seg_size :: "seg \<Rightarrow> nat" where
  "seg_size s = fst s + 1"

definition total_size :: "seg list \<Rightarrow> nat" where
  "total_size ss = sum_list (map seg_size ss)"

text \<open>First fit: the block offset of the header chosen, and the heap afterwards.\<close>

fun first_fit :: "nat \<Rightarrow> seg list \<Rightarrow> (nat \<times> seg list) option" where
  "first_fit b [] = None"
| "first_fit b ((k, occ) # ss) =
     (if \<not> occ \<and> b \<le> k
      then Some (0, (b, True) # (if b < k then [(k - (b + 1), False)] else []) @ ss)
      else map_option (\<lambda>(off, ss'). (k + 1 + off, (k, occ) # ss')) (first_fit b ss))"

lemma total_size_simps [simp]:
  "total_size [] = 0" "total_size ((k, occ) # ss) = k + 1 + total_size ss"
  by (simp_all add: total_size_def seg_size_def)

lemma first_fit_None: "first_fit b ss = None \<longleftrightarrow> (\<forall>(k, occ) \<in> set ss. occ \<or> k < b)"
  by (induction b ss rule: first_fit.induct) auto

lemma first_fit_decomp:
  "first_fit b ss = Some (off, ss') \<Longrightarrow>
   \<exists>pre k post. ss = pre @ (k, False) # post \<and> b \<le> k \<and> off = total_size pre \<and>
     ss' = pre @ (b, True) # (if b < k then [(k - (b + 1), False)] else []) @ post \<and>
     (\<forall>(k', occ) \<in> set pre. occ \<or> k' < b)"
proof (induction b ss arbitrary: off ss' rule: first_fit.induct)
  case (2 b k occ ss)
  show ?case
  proof (cases "\<not> occ \<and> b \<le> k")
    case True
    with 2(2) show ?thesis by (intro exI [of _ "[]"] exI [of _ k] exI [of _ ss]) auto
  next
    case False
    with 2(2) obtain off0 ss0 where r: "first_fit b ss = Some (off0, ss0)" "off = k + 1 + off0"
      "ss' = (k, occ) # ss0" by auto
    from 2(1) [OF False r(1)] obtain pre k' post where p: "ss = pre @ (k', False) # post" "b \<le> k'"
      "off0 = total_size pre" "ss0 = pre @ (b, True) # (if b < k' then [(k' - (b + 1), False)] else []) @ post"
      "\<forall>(k', occ) \<in> set pre. occ \<or> k' < b" by blast
    have "ss' = ((k, occ) # pre) @ (b, True) # (if b < k' then [(k' - (b + 1), False)] else []) @ post"
      "off = total_size ((k, occ) # pre)" "\<forall>(k', occ) \<in> set ((k, occ) # pre). occ \<or> k' < b"
      using False r p by (simp_all add: not_le)
    with p(1,2) show ?thesis by (metis append_Cons)
  qed
qed simp

lemma total_size_append [simp]: "total_size (a @ b) = total_size a + total_size b"
  by (simp add: total_size_def)

lemma first_fit_total: "first_fit b ss = Some (off, ss') \<Longrightarrow> total_size ss' = total_size ss"
  by (auto dest!: first_fit_decomp)

section \<open>The node list represents the segments\<close>

definition is_node :: "mem_node \<Rightarrow> nat \<Rightarrow> bool \<Rightarrow> u32 \<Rightarrow> bool" where
  "is_node nd k occ nxt \<longleftrightarrow> unat (mn_size nd AND NOT MEM_NODE_OCCUPIED_FLAG) = k \<and>
     (mn_size nd AND MEM_NODE_OCCUPIED_FLAG \<noteq> 0 \<longleftrightarrow> occ) \<and> mn_next nd = nxt"

fun rep :: "heap \<Rightarrow> nat \<Rightarrow> seg list \<Rightarrow> bool" where
  "rep h a [] \<longleftrightarrow> True"
| "rep h a ((k, occ) # ss) \<longleftrightarrow>
     is_node (h (of_nat a)) k occ (if ss = [] then 0 else of_nat (a + 8 * (k + 1))) \<and>
     rep h (a + 8 * (k + 1)) ss"

text \<open>The invariant of the heap at \<open>hp\<close>: it is not at address zero, it has a node, and its
  segments tile memory from \<open>hp\<close> without passing the end of the address space.\<close>

definition heap_rep :: "heap \<Rightarrow> u32 \<Rightarrow> seg list \<Rightarrow> bool" where
  "heap_rep h hp ss \<longleftrightarrow> hp \<noteq> 0 \<and> ss \<noteq> [] \<and> rep h (unat hp) ss \<and>
     unat hp + 8 * total_size ss \<le> 2 ^ 32"

lemma bit_flag: "bit MEM_NODE_OCCUPIED_FLAG n \<longleftrightarrow> n = 31"
proof -
  have flag: "MEM_NODE_OCCUPIED_FLAG = push_bit 31 1" by (simp add: MEM_NODE_OCCUPIED_FLAG_def)
  show ?thesis unfolding flag bit_push_bit_iff by (auto simp: bit_1_iff)
qed

lemma flag_split:
  fixes x :: u32
  assumes "unat x < 2 ^ 31"
  shows "x AND NOT MEM_NODE_OCCUPIED_FLAG = x" "x AND MEM_NODE_OCCUPIED_FLAG = 0"
    "(x OR MEM_NODE_OCCUPIED_FLAG) AND NOT MEM_NODE_OCCUPIED_FLAG = x"
    "(x OR MEM_NODE_OCCUPIED_FLAG) AND MEM_NODE_OCCUPIED_FLAG \<noteq> 0"
proof -
  have "x div 2 ^ 31 = 0" using assms by (simp add: div_word_less word_less_nat_alt)
  then have x: "\<not> bit x 31" by (simp add: bit_iff_odd)
  show "x AND NOT MEM_NODE_OCCUPIED_FLAG = x"
    by (rule bit_word_eqI) (use x in \<open>auto simp: bit_and_iff bit_not_iff bit_flag\<close>)
  show "x AND MEM_NODE_OCCUPIED_FLAG = 0"
    by (rule bit_word_eqI) (use x in \<open>auto simp: bit_and_iff bit_flag\<close>)
  show "(x OR MEM_NODE_OCCUPIED_FLAG) AND NOT MEM_NODE_OCCUPIED_FLAG = x"
    by (rule bit_word_eqI) (use x in \<open>auto simp: bit_and_iff bit_not_iff bit_or_iff bit_flag\<close>)
  have "bit ((x OR MEM_NODE_OCCUPIED_FLAG) AND MEM_NODE_OCCUPIED_FLAG) 31"
    by (simp add: bit_and_iff bit_or_iff bit_flag)
  then show "(x OR MEM_NODE_OCCUPIED_FLAG) AND MEM_NODE_OCCUPIED_FLAG \<noteq> 0" by force
qed

lemma and_flag_less: "unat ((x :: u32) AND NOT MEM_NODE_OCCUPIED_FLAG) < 2 ^ 31"
proof -
  have "x AND NOT MEM_NODE_OCCUPIED_FLAG = take_bit 31 x"
    by (rule bit_word_eqI) (auto simp: bit_and_iff bit_not_iff bit_flag bit_take_bit_iff)
  then have "unat (x AND NOT MEM_NODE_OCCUPIED_FLAG) = take_bit 31 (unat x)"
    by (simp only: unsigned_take_bit_eq)
  then show ?thesis by (simp only: take_bit_nat_less_exp)
qed

lemma is_node_less: "is_node nd k occ nxt \<Longrightarrow> k < 2 ^ 31"
  using and_flag_less by (auto simp: is_node_def)

lemma rep_cong: "(\<forall>x. a \<le> x \<and> x < a + 8 * total_size ss \<longrightarrow> h' (of_nat x) = h (of_nat x)) \<Longrightarrow>
  rep h' a ss = rep h a ss"
  by (induction h a ss rule: rep.induct) auto

lemma unat_of_nat_u32: "x < 2 ^ 32 \<Longrightarrow> unat (of_nat x :: u32) = x"
  by (simp add: unat_of_nat take_bit_nat_eq_self)

lemma of_nat_u32_inj:
  "x < 2 ^ 32 \<Longrightarrow> y < 2 ^ 32 \<Longrightarrow> (of_nat x :: u32) = of_nat y \<longleftrightarrow> x = y"
  by (metis unat_of_nat_u32)

text \<open>The search loop ends on a represented heap, at the node that first fit chooses.\<close>

lemma find_node_first_fit:
  assumes "rep h a ss" "0 < a" "ss \<noteq> []" "a + 8 * total_size ss \<le> 2 ^ 32" "unat b < 2 ^ 31"
  shows "find_node h b (of_nat a) = Some (case first_fit (unat b) ss of
     None \<Rightarrow> 0 | Some (off, _) \<Rightarrow> of_nat (a + 8 * off))"
  using assms
proof (induction h a ss rule: rep.induct)
  case (2 h a k occ ss)
  have nd: "is_node (h (of_nat a)) k occ (if ss = [] then 0 else of_nat (a + 8 * (k + 1)))"
    using 2 by simp
  have "a < 2 ^ 32" using 2(5) by simp
  then have a: "(of_nat a :: u32) \<noteq> 0" using 2(3) of_nat_u32_inj [of a 0] by simp
  have cond: "(b > mn_size (h (of_nat a)) AND NOT MEM_NODE_OCCUPIED_FLAG \<or>
      mn_size (h (of_nat a)) AND MEM_NODE_OCCUPIED_FLAG \<noteq> 0) \<longleftrightarrow> \<not> (\<not> occ \<and> unat b \<le> k)"
    using nd by (auto simp: is_node_def word_less_nat_alt)
  show ?case
  proof (cases "\<not> occ \<and> unat b \<le> k")
    case True
    then show ?thesis by (subst find_node.simps) (simp add: cond)
  next
    case False
    then have step: "find_node h b (of_nat a) = find_node h b (mn_next (h (of_nat a)))"
      using a by (subst find_node.simps) (simp only: cond, simp)
    show ?thesis
    proof (cases "ss = []")
      case True
      moreover have "find_node h b 0 = Some 0" by (subst find_node.simps) simp
      ultimately show ?thesis using nd step False by (auto simp: is_node_def)
    next
      case ss: False
      with nd have "mn_next (h (of_nat a)) = of_nat (a + 8 * (k + 1))" by (simp add: is_node_def)
      with step 2 ss False show ?thesis
        by (auto simp: ac_simps split: option.splits prod.splits)
    qed
  qed
qed simp

text \<open>Writing the chosen node, and the header of the remaining free part, is first fit's update.\<close>

lemma place_here:
  assumes "is_node (h (of_nat a)) k False nxt" "unat b \<le> k" "a + 8 * (k + 1) \<le> 2 ^ 32"
  shows "place (of_nat a) b h = (let nn = of_nat (a + 8 * (unat b + 1)) in
      (if unat b < k then h(nn := \<lparr>mn_size = of_nat (k - (unat b + 1)), mn_next = nxt\<rparr>) else h)
        (of_nat a := \<lparr>mn_size = b OR MEM_NODE_OCCUPIED_FLAG,
                     mn_next = (if unat b < k then nn else nxt)\<rparr>))"
proof -
  let ?s = "mn_size (h (of_nat a)) AND NOT MEM_NODE_OCCUPIED_FLAG"
  have k: "unat ?s = k" "k < 2 ^ 31" using assms(1) is_node_less by (auto simp: is_node_def)
  have lt: "b < ?s \<longleftrightarrow> unat b < k" by (simp add: word_less_nat_alt k)
  have nn: "of_nat a + 8 * (b + 1) = (of_nat (a + 8 * (unat b + 1)) :: u32)" by simp
  have rest: "(?s - (b + 1)) AND NOT MEM_NODE_OCCUPIED_FLAG = of_nat (k - (unat b + 1))" if "unat b < k"
  proof -
    have "unat (b + 1) = unat b + 1" using that k(2) by (subst unat_add_lem [THEN iffD1]) simp_all
    then have "unat (?s - (b + 1)) = k - (unat b + 1)"
      using that k(1) by (subst unat_sub) (simp_all add: word_le_nat_alt)
    moreover from this have "?s - (b + 1) = of_nat (k - (unat b + 1))" by (metis of_nat_unat ucast_id)
    ultimately show ?thesis using k(2) by (simp add: flag_split(1) del: of_nat_diff)
  qed
  show ?thesis
    unfolding place_def Let_def lt nn using rest assms(1) by (auto simp: is_node_def simp del: of_nat_diff)
qed

lemma is_node_free: "k < 2 ^ 31 \<Longrightarrow> is_node \<lparr>mn_size = of_nat k, mn_next = nxt\<rparr> k False nxt"
  by (simp add: is_node_def flag_split unat_of_nat_u32 del: of_nat_diff)

lemma is_node_occupied:
  "unat b < 2 ^ 31 \<Longrightarrow> is_node \<lparr>mn_size = b OR MEM_NODE_OCCUPIED_FLAG, mn_next = nxt\<rparr> (unat b) True nxt"
  by (simp add: is_node_def flag_split) (simp add: MEM_NODE_OCCUPIED_FLAG_def)

lemma place_rep_here:
  assumes nd: "is_node (h (of_nat a)) k False (if ss = [] then 0 else of_nat (a + 8 * (k + 1)))"
    and rep: "rep h (a + 8 * (k + 1)) ss" and b: "unat b \<le> k"
    and top: "a + 8 * (k + 1 + total_size ss) \<le> 2 ^ 32"
  shows "rep (place (of_nat a) b h) a
    ((unat b, True) # (if unat b < k then [(k - (unat b + 1), False)] else []) @ ss)"
proof -
  let ?nxt = "if ss = [] then 0 else of_nat (a + 8 * (k + 1))" and ?n = "a + 8 * (unat b + 1)"
  have k: "k < 2 ^ 31" using nd is_node_less by blast
  have pl: "place (of_nat a) b h = (let nn = of_nat ?n in
      (if unat b < k then h(nn := \<lparr>mn_size = of_nat (k - (unat b + 1)), mn_next = ?nxt\<rparr>) else h)
        (of_nat a := \<lparr>mn_size = b OR MEM_NODE_OCCUPIED_FLAG,
                     mn_next = (if unat b < k then nn else ?nxt)\<rparr>))"
    using place_here [where h = h and a = a, OF nd b] top by simp
  have diff: "of_nat x \<noteq> (of_nat a :: u32)" "unat b < k \<Longrightarrow> of_nat x \<noteq> (of_nat ?n :: u32)"
    if "a + 8 * (k + 1) \<le> x" "x < a + 8 * (k + 1) + 8 * total_size ss" for x
    using that top b of_nat_u32_inj [of x a] of_nat_u32_inj [of x ?n] by auto
  have "place (of_nat a) b h (of_nat x) = h (of_nat x)"
    if "a + 8 * (k + 1) \<le> x" "x < a + 8 * (k + 1) + 8 * total_size ss" for x
    using diff [OF that] unfolding pl Let_def by (auto simp del: of_nat_add of_nat_mult)
  then have tail: "rep (place (of_nat a) b h) (a + 8 * (k + 1)) ss"
    using rep rep_cong [of "a + 8 * (k + 1)" ss "place (of_nat a) b h" h] by blast
  have occ: "is_node (place (of_nat a) b h (of_nat a)) (unat b) True
      (if unat b < k then of_nat ?n else ?nxt)"
    unfolding pl Let_def fun_upd_same by (rule is_node_occupied) (use b k in simp)
  show ?thesis
  proof (cases "unat b < k")
    case True
    have "(of_nat ?n :: u32) \<noteq> of_nat a"
      using of_nat_u32_inj [of ?n a] True top by simp
    then have "is_node (place (of_nat a) b h (of_nat ?n)) (k - (unat b + 1)) False ?nxt"
      using True k by (simp add: pl Let_def is_node_free del: of_nat_add of_nat_mult of_nat_diff)
    moreover have "?n + 8 * (k - (unat b + 1) + 1) = a + 8 * (k + 1)" using True by simp
    ultimately show ?thesis using tail occ True
      by (simp only: rep.simps append_Cons append_Nil if_True if_False list.distinct simp_thms)
  next
    case False
    with b have "k = unat b" by simp
    with tail occ False show ?thesis
      by (simp only: rep.simps append_Nil if_False simp_thms)
  qed
qed

text \<open>The writes of \<open>place\<close> stay in the segment that was chosen.\<close>

lemma place_frame:
  "x \<noteq> n \<Longrightarrow> x \<noteq> n + 8 * (b + 1) \<or> \<not> b < mn_size (h n) AND NOT MEM_NODE_OCCUPIED_FLAG \<Longrightarrow>
   place n b h x = h x"
  by (auto simp: place_def Let_def)

lemma rep_at:
  "rep h a (pre @ (k, occ) # post) \<Longrightarrow> \<exists>nxt. is_node (h (of_nat (a + 8 * total_size pre))) k occ nxt"
  by (induction h a pre rule: rep.induct) (auto simp: ac_simps)

lemma place_frame_first_fit:
  assumes "rep h a ss" "a + 8 * total_size ss \<le> 2 ^ 32"
    and ss: "ss = pre @ (k, False) # post" "unat b \<le> k" "off = total_size pre"
    and "x < 2 ^ 32" "x < a + 8 * off \<or> a + 8 * (off + k + 1) \<le> x"
  shows "place (of_nat (a + 8 * off)) b h (of_nat x) = h (of_nat x)"
proof -
  obtain nxt where nd: "is_node (h (of_nat (a + 8 * off))) k False nxt"
    using rep_at assms(1) ss by blast
  have top: "a + 8 * (off + k + 1) \<le> 2 ^ 32" using ss assms(2) by simp
  then have "x \<noteq> a + 8 * off" "a + 8 * off < 2 ^ 32" using assms(7) by auto
  then have ne: "of_nat x \<noteq> (of_nat (a + 8 * off) :: u32)" using assms(6) of_nat_u32_inj by blast
  have sum: "of_nat (a + 8 * off) + 8 * (b + 1) = (of_nat (a + 8 * (off + unat b + 1)) :: u32)" by simp
  show ?thesis
  proof (rule place_frame [OF ne], cases "unat b < k")
    case True
    then have "of_nat x \<noteq> (of_nat (a + 8 * (off + unat b + 1)) :: u32)"
      using of_nat_u32_inj [of x "a + 8 * (off + unat b + 1)"] top assms(6,7) by auto
    then show "of_nat x \<noteq> of_nat (a + 8 * off) + 8 * (b + 1) \<or>
        \<not> b < mn_size (h (of_nat (a + 8 * off))) AND NOT MEM_NODE_OCCUPIED_FLAG"
      unfolding sum by simp
  next
    case False
    with nd show "of_nat x \<noteq> of_nat (a + 8 * off) + 8 * (b + 1) \<or>
        \<not> b < mn_size (h (of_nat (a + 8 * off))) AND NOT MEM_NODE_OCCUPIED_FLAG"
      by (simp add: is_node_def word_less_nat_alt)
  qed
qed

lemma place_rep:
  assumes "rep h a ss" "a + 8 * total_size ss \<le> 2 ^ 32" "first_fit (unat b) ss = Some (off, ss')"
  shows "rep (place (of_nat (a + 8 * off)) b h) a ss'"
  using assms
proof (induction h a ss arbitrary: off ss' rule: rep.induct)
  case (2 h a k occ ss)
  show ?case
  proof (cases "\<not> occ \<and> unat b \<le> k")
    case True
    with 2 place_rep_here [of h a k ss b] show ?thesis by simp
  next
    case False
    with 2(4) obtain off0 ss0 where r: "first_fit (unat b) ss = Some (off0, ss0)" "off = k + 1 + off0"
      "ss' = (k, occ) # ss0" by auto
    have eq: "a + 8 * off = a + 8 * (k + 1) + 8 * off0" using r by simp
    have "rep (place (of_nat (a + 8 * off)) b h) (a + 8 * (k + 1)) ss0"
      unfolding eq using 2 r by simp
    moreover have "place (of_nat (a + 8 * off)) b h (of_nat a) = h (of_nat a)"
    proof -
      obtain pre k' post where "(k, occ) # ss = pre @ (k', False) # post" "unat b \<le> k'"
        "off = total_size pre" using first_fit_decomp [OF 2(4)] by auto
      from place_frame_first_fit [OF 2(2,3) this, of a] r 2(3) show ?thesis by simp
    qed
    moreover have "ss \<noteq> []" "ss0 \<noteq> []" using r(1) by (auto dest: first_fit_decomp)
    ultimately show ?thesis using 2(2) r by simp
  qed
qed simp

text \<open>The bytes of the free payloads.\<close>

fun free_bytes :: "nat \<Rightarrow> seg list \<Rightarrow> nat set" where
  "free_bytes a [] = {}"
| "free_bytes a ((k, occ) # ss) =
     (if occ then {} else {a + 8..<a + 8 * (k + 1)}) \<union> free_bytes (a + 8 * (k + 1)) ss"

lemma free_bytes_append:
  "free_bytes a (xs @ ys) = free_bytes a xs \<union> free_bytes (a + 8 * total_size xs) ys"
  by (induction a xs rule: free_bytes.induct) (auto simp: ac_simps)

lemma free_bytes_bounds: "free_bytes a ss \<subseteq> {a..<a + 8 * total_size ss}"
proof (induction a ss rule: free_bytes.induct)
  case (2 a k occ ss)
  have "{a + 8 * (k + 1)..<a + 8 * (k + 1) + 8 * total_size ss} \<subseteq> {a..<a + 8 * total_size ((k, occ) # ss)}"
    by auto
  with 2 show ?case by (auto dest: subsetD)
qed simp

lemma first_fit_free:
  assumes "first_fit b ss = Some (off, ss')"
  shows "free_bytes a ss' \<subseteq> free_bytes a ss"
    "{a + 8 * off + 8..<a + 8 * off + 8 + 8 * b} \<subseteq> free_bytes a ss - free_bytes a ss'"
proof -
  obtain pre k post where d: "ss = pre @ (k, False) # post" "b \<le> k" "off = total_size pre"
     "ss' = pre @ (b, True) # (if b < k then [(k - (b + 1), False)] else []) @ post"
    using first_fit_decomp [OF assms] by auto
  let ?n = "a + 8 * off"
  have old: "free_bytes a ss = free_bytes a pre \<union> {?n + 8..<?n + 8 * (k + 1)} \<union> free_bytes (?n + 8 * (k + 1)) post"
    using d by (simp add: free_bytes_append Un_assoc)
  have new: "free_bytes a ss' = free_bytes a pre \<union> {?n + 8 * (b + 2)..<?n + 8 * (k + 1)} \<union>
      free_bytes (?n + 8 * (k + 1)) post"
  proof (cases "b < k")
    case True
    then obtain c where "k = b + 1 + c" using less_imp_Suc_add by fastforce
    then show ?thesis using d by (simp add: free_bytes_append Un_assoc ac_simps)
  next
    case False
    with d(2) have "k = b" by simp
    with d show ?thesis by (simp add: free_bytes_append)
  qed
  have pre: "free_bytes a pre \<subseteq> {a..<?n}" using free_bytes_bounds [of a pre] d(3) by simp
  have post: "free_bytes (?n + 8 * (k + 1)) post \<subseteq> {?n + 8 * (k + 1)..}"
    using free_bytes_bounds [of "?n + 8 * (k + 1)" post] by auto
  show "free_bytes a ss' \<subseteq> free_bytes a ss" unfolding old new by auto
  show "{?n + 8..<?n + 8 + 8 * b} \<subseteq> free_bytes a ss - free_bytes a ss'"
    unfolding old new using pre post d(2) by fastforce
qed

section \<open>The allocator refines first fit\<close>

lemma blocks_needed:
  fixes sz :: u32
  shows "unat (drop_bit 3 sz + 1) = unat sz div 8 + 1"
proof -
  have "unat (drop_bit 3 sz) = unat sz div 8" 
    by (simp only: unat_drop_bit_eq) (simp add: drop_bit_eq_div)
  moreover have "unat sz < 2 ^ 32" using unsigned_less [of sz] by simp
  ultimately show ?thesis by (subst unat_add_lem [THEN iffD1]) simp_all
qed

lemma alloc_first_fit:
  assumes "heap_rep h hp ss" "0 < sz"
  shows "case first_fit (unat sz div 8 + 1) ss of
      None \<Rightarrow> alloc hp sz h = (Ok 0, h)
    | Some (off, ss') \<Rightarrow>
        alloc hp sz h = (Ok (of_nat (unat hp + 8 * off + 8)), place (of_nat (unat hp + 8 * off)) (drop_bit 3 sz + 1) h) \<and>
        heap_rep (place (of_nat (unat hp + 8 * off)) (drop_bit 3 sz + 1) h) hp ss'"
proof -
  let ?b = "drop_bit 3 sz + 1" and ?a = "unat hp"
  have a: "0 < ?a" "ss \<noteq> []" "rep h ?a ss" "?a + 8 * total_size ss \<le> 2 ^ 32"
    using assms(1) by (auto simp: heap_rep_def unat_gt_0)
  have "unat sz < 2 ^ 32" using unsigned_less [of sz] by simp
  then have "unat ?b < 2 ^ 31" unfolding blocks_needed by simp
  note fn = find_node_first_fit [OF a(3,1,2,4) this, unfolded of_nat_unat ucast_id]
  show ?thesis
  proof (cases "first_fit (unat ?b) ss")
    case None
    with fn assms(2) show ?thesis
      unfolding blocks_needed by (simp add: alloc_def Let_def bindE_def getE_def returnE_def)
  next
    case (Some r)
    obtain off ss' where r: "r = (off, ss')" by (cases r)
    obtain pre k post where d: "ss = pre @ (k, False) # post" "unat ?b \<le> k" "off = total_size pre"
      using first_fit_decomp Some r by blast
    have "?a + 8 * off < 2 ^ 32" using d a(4) by simp
    then have n0: "(of_nat (?a + 8 * off) :: u32) \<noteq> 0"
      using of_nat_u32_inj [of "?a + 8 * off" 0] a(1) by simp
    have "alloc hp sz h = (Ok (of_nat (?a + 8 * off + 8)), place (of_nat (?a + 8 * off)) ?b h)"
      using fn Some r assms(2) n0
      by (simp add: alloc_def Let_def bindE_def getE_def modifyE_def returnE_def ac_simps)
    moreover have "heap_rep (place (of_nat (?a + 8 * off)) ?b h) hp ss'"
      using place_rep [OF a(3,4), of ?b] Some r assms(1) first_fit_total [of "unat ?b" ss off ss']
      by (auto simp: heap_rep_def dest: first_fit_decomp)
    ultimately show ?thesis using Some r by (simp add: blocks_needed)
  qed
qed

section \<open>The allocator as an interface\<close>

text \<open>
  What the users of the heap rely on: an allocation returns \<open>NULL\<close>, or a region of the size asked
  for out of the free bytes, which are free no more.
\<close>

primrec alloc_list :: "(u32 \<Rightarrow> ('h, u32) exec) \<Rightarrow> u32 list \<Rightarrow> ('h, u32 list) exec" where
  "alloc_list al [] = returnE []"
| "alloc_list al (n # ns) =
     bindE (al n) (\<lambda>p. bindE (alloc_list al ns) (\<lambda>ps. returnE (p # ps)))"

definition region :: "u32 \<Rightarrow> u32 \<Rightarrow> nat set" where
  "region p n = (if p = 0 then {} else {unat p..<unat p + unat n})"

locale allocator =
  fixes al :: "u32 \<Rightarrow> ('h, u32) exec"
    and inv :: "'h \<Rightarrow> nat set \<Rightarrow> bool"
  assumes al_ok: "inv h F \<Longrightarrow> 0 < n \<Longrightarrow>
    \<exists>p h' F'. al n h = (Ok p, h') \<and> inv h' F' \<and> F' \<subseteq> F \<and> region p n \<subseteq> F - F'"
begin

lemma alloc_list_ok:
  assumes "inv h F" "\<forall>n \<in> set ns. 0 < n"
  shows "\<exists>ps h' F'. alloc_list al ns h = (Ok ps, h') \<and> inv h' F' \<and> F' \<subseteq> F \<and> length ps = length ns \<and>
    (\<forall>i < length ns. region (ps ! i) (ns ! i) \<subseteq> F - F') \<and>
    (\<forall>i < length ns. \<forall>j < i. region (ps ! i) (ns ! i) \<inter> region (ps ! j) (ns ! j) = {})"
  using assms
proof (induction ns arbitrary: h F)
  case Nil
  then show ?case by (auto simp: returnE_def)
next
  case (Cons n ns)
  from al_ok [OF Cons.prems(1), of n] Cons.prems(2) obtain p h1 F1 where
    1: "al n h = (Ok p, h1)" "inv h1 F1" "F1 \<subseteq> F" "region p n \<subseteq> F - F1" by auto
  from Cons.IH [OF 1(2)] Cons.prems(2) obtain ps h2 F2 where
    2: "alloc_list al ns h1 = (Ok ps, h2)" "inv h2 F2" "F2 \<subseteq> F1" "length ps = length ns"
      "\<forall>i < length ns. region (ps ! i) (ns ! i) \<subseteq> F1 - F2"
      "\<forall>i < length ns. \<forall>j < i. region (ps ! i) (ns ! i) \<inter> region (ps ! j) (ns ! j) = {}" by auto
  have "region ((p # ps) ! i) ((n # ns) ! i) \<subseteq> F - F2" if "i < Suc (length ns)" for i
    using that 1(3,4) 2(3,5) by (cases i) (auto, blast)
  moreover have "region ((p # ps) ! i) ((n # ns) ! i) \<inter> region ((p # ps) ! j) ((n # ns) ! j) = {}"
    if ij: "i < Suc (length ns)" "j < i" for i j
  proof -
    from ij obtain i' where i: "i = Suc i'" "i' < length ns" by (cases i) auto
    show ?thesis
    proof (cases j)
      case 0
      with i 1(4) 2(5) show ?thesis by fastforce
    next
      case (Suc j')
      with i ij 2(6) show ?thesis by simp
    qed
  qed
  ultimately show ?case
    using 1 2 by (intro exI [of _ "p # ps"] exI [of _ h2] exI [of _ F2])
      (auto simp: bindE_cases returnE_def)
qed

end

text \<open>The heap of SABLE as an allocator: the ghost set is the payload of the free segments.\<close>

definition heap_inv :: "u32 \<Rightarrow> heap \<Rightarrow> nat set \<Rightarrow> bool" where
  "heap_inv hp h F \<longleftrightarrow> (\<exists>ss. heap_rep h hp ss \<and> F = free_bytes (unat hp) ss)"

lemma alloc_interface:
  assumes "heap_inv hp h F" "0 < n"
  shows "\<exists>p h' F'. alloc hp n h = (Ok p, h') \<and> heap_inv hp h' F' \<and> F' \<subseteq> F \<and> region p n \<subseteq> F - F'"
proof -
  let ?b = "unat n div 8 + 1"
  obtain ss where ss: "heap_rep h hp ss" "F = free_bytes (unat hp) ss"
    using assms(1) by (auto simp: heap_inv_def)
  show ?thesis
  proof (cases "first_fit ?b ss")
    case None
    with alloc_first_fit [OF ss(1) assms(2)] ss assms(1) show ?thesis by (auto simp: region_def)
  next
    case (Some r)
    obtain off ss' where r: "r = (off, ss')" by (cases r)
    let ?p = "unat hp + 8 * off + 8"
    note ff = first_fit_free [OF Some [unfolded r], of "unat hp"]
    have "?p < 2 ^ 32" using first_fit_decomp [OF Some [unfolded r]] ss(1) by (auto simp: heap_rep_def)
    then have "unat (of_nat ?p :: u32) = ?p" by (rule unat_of_nat_u32)
    moreover have "unat n \<le> 8 * ?b" using dividend_less_times_div [of 8 "unat n"] by simp
    ultimately have "region (of_nat ?p) n \<subseteq> F - free_bytes (unat hp) ss'"
      using ff(2) ss(2) by (auto simp: region_def dest!: subsetD)
    then show ?thesis
      using alloc_first_fit [OF ss(1) assms(2)] Some r ff(1) ss(2) by (auto simp: heap_inv_def)
  qed
qed

interpretation heap: allocator "alloc hp" "heap_inv hp" for hp
  by unfold_locales (rule alloc_interface)

section \<open>Properties\<close>

text \<open>
  a fresh heap. On an aligned, non-null region of at least one block below 2 GB that ends
  inside the address space, \<open>init_heap\<close> passes its assertions and makes the region one free
  segment.
\<close>

theorem init_heap_establishes:
  assumes "hp \<noteq> 0" "hp AND 7 = 0" "heap_size AND MEM_NODE_OCCUPIED_FLAG = 0" "8 \<le> heap_size"
    "unat hp + unat heap_size \<le> 2 ^ 32"
  shows "\<exists>h'. init_heap hp heap_size h = (Ok (), h') \<and>
    heap_rep h' hp [(unat heap_size div 8 - 1, False)]"
proof -
  let ?s = "drop_bit 3 heap_size - 1"
  have d: "unat (drop_bit 3 heap_size) = unat heap_size div 8"
    by (simp only: unat_drop_bit_eq) (simp add: drop_bit_eq_div)
  have "8 \<le> unat heap_size" using assms(4) by (simp add: word_le_nat_alt)
  then have pos: "0 < unat heap_size div 8" by (simp add: div_greater_zero_iff)
  have s: "unat ?s = unat heap_size div 8 - 1"
    using pos by (subst unat_sub) (simp_all add: word_le_nat_alt d)
  moreover have "unat heap_size < 2 ^ 32" using unsigned_less [of heap_size] by simp
  ultimately have "unat ?s < 2 ^ 31" by simp
  note fl = flag_split [OF this]
  have "8 * (unat heap_size div 8) \<le> unat heap_size" by simp
  then show ?thesis
    using assms(1,2,3,5) fl s pos
    by (simp add: init_heap_def modifyE_def heap_rep_def is_node_def del: of_nat_diff)
qed

theorem init_heap_establishes_witness:
  "\<exists>h'. init_heap 0x1000 64 (\<lambda>_. \<lparr>mn_size = 0, mn_next = 0\<rparr>) = (Ok (), h') \<and>
    heap_rep h' 0x1000 [(7, False)]"
  using init_heap_establishes [of "0x1000" 64 "\<lambda>_. \<lparr>mn_size = 0, mn_next = 0\<rparr>"]
  by (simp add: MEM_NODE_OCCUPIED_FLAG_def)

text \<open>
  C31: \<open>alloc\<close> is first fit. On a heap that represents the segments \<open>ss\<close>, a request for \<open>sz\<close>
  bytes takes the first free segment with at least \<open>sz / 8 + 1\<close> blocks, splits it and returns
  the address behind its header; without such a segment it returns \<open>NULL\<close> and changes nothing.
  The search loop ends, and the heap represents the new segments.
\<close>

theorem alloc_refines_first_fit:
  assumes "heap_rep h hp ss" "0 < sz"
  shows "case first_fit (unat sz div 8 + 1) ss of
      None \<Rightarrow> alloc hp sz h = (Ok 0, h)
    | Some (off, ss') \<Rightarrow> \<exists>h'. alloc hp sz h = (Ok (of_nat (unat hp + 8 * off + 8)), h') \<and>
        heap_rep h' hp ss'"
  using alloc_first_fit [OF assms] by (auto split: option.splits prod.splits)

definition small_heap :: heap where
  "small_heap = (\<lambda>_. \<lparr>mn_size = 7, mn_next = 0\<rparr>)"

lemma small_heap_rep: "heap_rep small_heap 0x1000 [(7, False)]"
  by (simp add: heap_rep_def small_heap_def is_node_def MEM_NODE_OCCUPIED_FLAG_def)

theorem alloc_refines_first_fit_witness:
  "\<exists>h'. alloc 0x1000 20 small_heap = (Ok 0x1008, h') \<and> heap_rep h' 0x1000 [(3, True), (3, False)]"
  using alloc_refines_first_fit [OF small_heap_rep, of 20] by simp

text \<open>
  C32: allocations do not overlap. A sequence of requests of non-zero size on the heap always
  returns; every region returned lies in the free bytes of the heap, and no two of them share a
  byte.
\<close>

theorem alloc_regions_disjoint:
  assumes "heap_rep h hp ss" "\<forall>n \<in> set ns. 0 < n"
  shows "\<exists>ps h'. alloc_list (alloc hp) ns h = (Ok ps, h') \<and> length ps = length ns \<and>
    (\<forall>i < length ns. region (ps ! i) (ns ! i) \<subseteq> free_bytes (unat hp) ss) \<and>
    (\<forall>i < length ns. \<forall>j < i. region (ps ! i) (ns ! i) \<inter> region (ps ! j) (ns ! j) = {})"
proof -
  have "heap_inv hp h (free_bytes (unat hp) ss)" using assms(1) by (auto simp: heap_inv_def)
  from heap.alloc_list_ok [OF this assms(2)] show ?thesis by blast
qed

theorem alloc_regions_disjoint_witness:
  "\<exists>ps h'. alloc_list (alloc 0x1000) [8, 8] small_heap = (Ok ps, h') \<and> length ps = 2 \<and>
    region (ps ! 1) 8 \<inter> region (ps ! 0) 8 = {}"
proof -
  obtain ps h' where "alloc_list (alloc 0x1000) [8, 8] small_heap = (Ok ps, h')" "length ps = 2"
    "\<forall>i < 2. \<forall>j < i. region (ps ! i) ([8, 8] ! i) \<inter> region (ps ! j) ([8, 8] ! j) = {}"
    using alloc_regions_disjoint [OF small_heap_rep, of "[8, 8]"] by (auto simp del: alloc_list.simps)
  from this(1,2) this(3) [rule_format, of 1 0] show ?thesis by auto
qed

text \<open>
  \<open>alloc\<close> does not touch memory in use. Its region lies in one free segment, and every word
  outside that segment, so every header and every payload of the other segments, is unchanged.
\<close>

theorem alloc_writes_free_segment:
  assumes "heap_rep h hp ss" "0 < sz" "alloc hp sz h = (Ok p, h')" "p \<noteq> 0"
  shows "\<exists>pre k post. ss = pre @ (k, False) # post \<and>
    unat p = unat hp + 8 * total_size pre + 8 \<and> unat sz \<le> 8 * k \<and>
    (\<forall>x < 2 ^ 32. x < unat hp + 8 * total_size pre \<or> unat hp + 8 * (total_size pre + k + 1) \<le> x \<longrightarrow>
      h' (of_nat x) = h (of_nat x))"
proof -
  let ?b = "unat sz div 8 + 1"
  from alloc_first_fit [OF assms(1,2)] assms(3,4) obtain off ss' where
    ff: "first_fit ?b ss = Some (off, ss')" and p: "p = of_nat (unat hp + 8 * off + 8)"
    and h': "h' = place (of_nat (unat hp + 8 * off)) (drop_bit 3 sz + 1) h"
    by (auto split: option.splits prod.splits)
  from first_fit_decomp [OF ff] obtain pre k post where
    d: "ss = pre @ (k, False) # post" "?b \<le> k" "off = total_size pre" by blast
  have rep: "rep h (unat hp) ss" "unat hp + 8 * total_size ss \<le> 2 ^ 32"
    using assms(1) by (auto simp: heap_rep_def)
  have "unat hp + 8 * off + 8 < 2 ^ 32" using d rep(2) by simp
  then have "unat p = unat hp + 8 * total_size pre + 8" using p d(3) by (simp only: unat_of_nat_u32)
  moreover have "unat sz \<le> 8 * k" using dividend_less_times_div [of 8 "unat sz"] d(2) by simp
  moreover have "h' (of_nat x) = h (of_nat x)"
    if "x < 2 ^ 32" "x < unat hp + 8 * total_size pre \<or> unat hp + 8 * (total_size pre + k + 1) \<le> x" for x
    unfolding h' using place_frame_first_fit [OF rep d(1), of "drop_bit 3 sz + 1" off x] d(2,3) that
    by (simp add: blocks_needed)
  ultimately show ?thesis using d(1) by blast
qed

theorem alloc_writes_free_segment_witness:
  "\<exists>p h'. alloc 0x1000 20 small_heap = (Ok p, h') \<and> h' 0x1040 = small_heap 0x1040"
proof -
  obtain h' where h': "alloc 0x1000 20 small_heap = (Ok 0x1008, h')"
    using alloc_first_fit [OF small_heap_rep, of 20] by auto
  from alloc_writes_free_segment [OF small_heap_rep _ h'] obtain pre k post where
    "[(7, False)] = pre @ (k, False) # post" and
    fr: "\<And>x. x < 2 ^ 32 \<Longrightarrow> 0x1000 + 8 * (total_size pre + k + 1) \<le> x \<Longrightarrow> h' (of_nat x) = small_heap (of_nat x)"
    by auto
  then have "pre = []" "k = 7" by (auto simp: Cons_eq_append_conv)
  with fr [of "0x1040"] h' show ?thesis by auto
qed

end
