(* ===== verification/TPM_Struct.thy ===== *)
theory TPM_Struct
  imports HMAC Alloc
begin

text \<open>
  Marshalling of TPM structures (\<^verbatim>\<open>src/tpm_struct.c\<close>, \<^verbatim>\<open>include/tpm_struct.h\<close>) and the structures
  of \<^verbatim>\<open>include/tcg.h\<close> it handles. Every routine takes a buffer context and a hash context, each
  of which may be \<open>NULL\<close>: the state is a pair of options. A buffer context holds the contents of
  the buffer it points to. The results of \<open>sha1\<close> are ignored, as in the code.
\<close>

section \<open>Structures\<close>

type_synonym TPM_NONCE = bytes
type_synonym TPM_AUTHDATA = bytes
type_synonym TPM_SECRET = bytes
type_synonym TPM_ENCAUTH = bytes
type_synonym TPM_PCRVALUE = bytes
type_synonym TPM_COMPOSITE_HASH = bytes

record TPM_PCR_SELECTION =
  sizeOfSelect :: u16
  pcrSelect :: bytes

record TPM_PCR_COMPOSITE =
  pc_select :: TPM_PCR_SELECTION
  pc_valueSize :: u32
  pc_pcrValue :: bytes

record TPM_PCR_INFO_LONG =
  pi_tag :: u16
  localityAtCreation :: u8
  localityAtRelease :: u8
  creationPCRSelection :: TPM_PCR_SELECTION
  releasePCRSelection :: TPM_PCR_SELECTION
  digestAtCreation :: TPM_COMPOSITE_HASH
  digestAtRelease :: TPM_COMPOSITE_HASH

record TPM_STORED_DATA12 =
  sd_tag :: u16
  sd_et :: u16
  sealInfoSize :: u32
  sealInfo :: bytes
  encDataSize :: u32
  encData :: bytes

record Pack_Context =
  pack_buffer :: bytes
  bytes_packed :: u32
  pack_size :: u32

record Unpack_Context =
  unpack_buffer :: bytes
  bytes_unpacked :: u32
  unpack_size :: u32

definition pack_init :: "bytes \<Rightarrow> u32 \<Rightarrow> Pack_Context" where
  "pack_init buffer bufferSize = \<lparr>pack_buffer = buffer, bytes_packed = 0, pack_size = bufferSize\<rparr>"

definition unpack_init :: "bytes \<Rightarrow> u32 \<Rightarrow> Unpack_Context" where
  "unpack_init buffer bufferSize =
     \<lparr>unpack_buffer = buffer, bytes_unpacked = 0, unpack_size = bufferSize\<rparr>"

definition pack_finish :: "Pack_Context \<Rightarrow> u32" where
  "pack_finish ctx = bytes_packed ctx"

definition unpack_finish :: "Unpack_Context \<Rightarrow> u32" where
  "unpack_finish ctx = bytes_unpacked ctx"

section \<open>Marshalling\<close>

type_synonym pstate = "Pack_Context option \<times> SHA1_Context option"

definition check_pack_overflow :: "Pack_Context \<Rightarrow> u32 \<Rightarrow> bool" where
  "check_pack_overflow ctx sizeOfPack \<longleftrightarrow> bytes_packed ctx + sizeOfPack \<le> pack_size ctx"

text \<open>\<open>if (sctx) sha1(sctx, data, size)\<close>; only a fault inside \<open>sha1\<close> is not ignored.\<close>

definition hash_opt :: "bytes \<Rightarrow> u32 \<Rightarrow> SHA1_Context option \<Rightarrow> stop option \<times> SHA1_Context option" where
  "hash_opt data n sctx = (case sctx of None \<Rightarrow> (None, None) | Some c \<Rightarrow>
     (case sha1 data n c of (Stop x, c') \<Rightarrow> (Some x, Some c') | (_, c') \<Rightarrow> (None, Some c')))"

text \<open>
  The part all marshalling routines share: hash the \<open>n\<close> bytes, check for overflow (\<open>exit(-1)\<close>),
  copy them to \<open>pack_buffer + bytes_packed\<close>, and advance.
\<close>

definition marshal_bytes :: "bytes \<Rightarrow> u32 \<Rightarrow> (pstate, unit) exec" where
  "marshal_bytes data n = (\<lambda>(ctx, sctx).
     case hash_opt data n sctx of
       (Some x, sctx') \<Rightarrow> (Stop x, (ctx, sctx'))
     | (None, sctx') \<Rightarrow>
        (case ctx of
           None \<Rightarrow> (Ok (), (None, sctx'))
         | Some p \<Rightarrow>
             if \<not> check_pack_overflow p n then (Stop (Exit (- 1)), (ctx, sctx'))
             else case copy_in (pack_buffer p) (unat (bytes_packed p)) data (unat n) of
                    None \<Rightarrow> (Stop Fault, (ctx, sctx'))
                  | Some b \<Rightarrow> (Ok (), (Some (p\<lparr>pack_buffer := b, bytes_packed := bytes_packed p + n\<rparr>), sctx'))))"

definition marshal_BYTE :: "u8 \<Rightarrow> (pstate, unit) exec" where
  "marshal_BYTE v = marshal_bytes [v] 1"

definition marshal_UINT16 :: "u16 \<Rightarrow> (pstate, unit) exec" where
  "marshal_UINT16 v = marshal_bytes (le16 (htons v)) 2"

definition marshal_UINT32 :: "u32 \<Rightarrow> (pstate, unit) exec" where
  "marshal_UINT32 v = marshal_bytes (le32 (htonl v)) 4"

definition marshal_TPM_SECRET :: "TPM_SECRET \<Rightarrow> (pstate, unit) exec" where
  "marshal_TPM_SECRET v = marshal_bytes v 20"

text \<open>
  \<open>data\<close> is the memory from the pointer on, not the pointer: the callers pass the address of a variable or memory
  that \<open>unmarshal_ptr\<close> or the module header has given, so that \<open>ASSERT(data)\<close> holds and has no branch here.
\<close>

definition marshal_array :: "bytes \<Rightarrow> u32 \<Rightarrow> (pstate, unit) exec" where
  "marshal_array data n = marshal_bytes data n"

definition marshal_TPM_PCR_SELECTION :: "TPM_PCR_SELECTION \<Rightarrow> (pstate, unit) exec" where
  "marshal_TPM_PCR_SELECTION select =
     bindE (marshal_UINT16 (sizeOfSelect select)) (\<lambda>_.
     marshal_array (pcrSelect select) (ucast (sizeOfSelect select)))"

definition marshal_TPM_PCR_INFO_LONG :: "TPM_PCR_INFO_LONG \<Rightarrow> (pstate, unit) exec" where
  "marshal_TPM_PCR_INFO_LONG pcrInfo =
     bindE (marshal_UINT16 (pi_tag pcrInfo)) (\<lambda>_.
     bindE (marshal_BYTE (localityAtCreation pcrInfo)) (\<lambda>_.
     bindE (marshal_BYTE (localityAtRelease pcrInfo)) (\<lambda>_.
     bindE (marshal_TPM_PCR_SELECTION (creationPCRSelection pcrInfo)) (\<lambda>_.
     bindE (marshal_TPM_PCR_SELECTION (releasePCRSelection pcrInfo)) (\<lambda>_.
     bindE (marshal_array (digestAtCreation pcrInfo) 20) (\<lambda>_.
     marshal_array (digestAtRelease pcrInfo) 20))))))"

definition marshal_TPM_STORED_DATA12 :: "TPM_STORED_DATA12 \<Rightarrow> (pstate, unit) exec" where
  "marshal_TPM_STORED_DATA12 data =
     bindE (marshal_UINT16 (sd_tag data)) (\<lambda>_.
     bindE (marshal_UINT16 (sd_et data)) (\<lambda>_.
     bindE (marshal_UINT32 (sealInfoSize data)) (\<lambda>_.
     bindE (marshal_array (sealInfo data) (sealInfoSize data)) (\<lambda>_.
     bindE (marshal_UINT32 (encDataSize data)) (\<lambda>_.
     marshal_array (encData data) (encDataSize data))))))"

section \<open>Unmarshalling\<close>

text \<open>The state has the heap as well, since \<open>unmarshal_ptr\<close> allocates.\<close>

type_synonym ustate = "Unpack_Context option \<times> SHA1_Context option \<times> heap"

definition check_unpack_overflow :: "Unpack_Context \<Rightarrow> u32 \<Rightarrow> bool" where
  "check_unpack_overflow ctx sizeOfUnpack \<longleftrightarrow> bytes_unpacked ctx + sizeOfUnpack \<le> unpack_size ctx"

text \<open>Without a buffer, only hash the bytes that are passed in.\<close>

definition hash_only :: "bytes \<Rightarrow> u32 \<Rightarrow> (ustate, unit) exec" where
  "hash_only data n = (\<lambda>(ctx, sctx, h).
     case hash_opt data n sctx of
       (Some x, sctx') \<Rightarrow> (Stop x, (ctx, sctx', h)) | (None, sctx') \<Rightarrow> (Ok (), (ctx, sctx', h)))"

text \<open>With a buffer: check, take the \<open>n\<close> bytes at the current position, and advance.\<close>

definition take_bytes :: "u32 \<Rightarrow> (ustate, bytes) exec" where
  "take_bytes n = (\<lambda>(ctx, sctx, h). case ctx of
       None \<Rightarrow> (Stop Fault, (ctx, sctx, h))
     | Some u \<Rightarrow>
         if \<not> check_unpack_overflow u n then (Stop (Exit (- 1)), (ctx, sctx, h))
         else if unat (bytes_unpacked u) + unat n \<le> length (unpack_buffer u)
         then (Ok (slice (unpack_buffer u) (unat (bytes_unpacked u)) (unat n)),
               (Some (u\<lparr>bytes_unpacked := bytes_unpacked u + n\<rparr>), sctx, h))
         else (Stop Fault, (ctx, sctx, h)))"

text \<open>
  The common shape of the unmarshalling routines: \<open>old\<close> is the value passed in, as the bytes
  the code hashes when there is no buffer.
\<close>

definition unmarshal_bytes :: "bytes \<Rightarrow> u32 \<Rightarrow> (ustate, bytes option) exec" where
  "unmarshal_bytes old n =
     bindE (getE (\<lambda>(ctx, sctx, h). (ctx \<noteq> None, sctx \<noteq> None))) (\<lambda>(c, s).
     bindE (ASSERT (c \<or> s)) (\<lambda>_.
     if s \<and> \<not> c then bindE (hash_only old n) (\<lambda>_. returnE None)
     else bindE (take_bytes n) (\<lambda>tmp. bindE (hash_only tmp n) (\<lambda>_. returnE (Some tmp)))))"

definition unmarshal_BYTE :: "u8 \<Rightarrow> (ustate, u8) exec" where
  "unmarshal_BYTE v =
     bindE (unmarshal_bytes [v] 1) (\<lambda>r. returnE (case r of None \<Rightarrow> v | Some b \<Rightarrow> b ! 0))"

text \<open>
  The hash-only branch of \<open>unmarshal_UINT16\<close> converts with \<open>htonl\<close>, whose result is cut to 16
  bits; the buffer branch uses \<open>ntohs\<close>.
\<close>

definition unmarshal_UINT16 :: "u16 \<Rightarrow> (ustate, u16) exec" where
  "unmarshal_UINT16 v =
     bindE (unmarshal_bytes (le16 (ucast (htonl (ucast v)))) 2) (\<lambda>r.
     returnE (case r of None \<Rightarrow> v | Some b \<Rightarrow> ntohs (of_le16 b)))"

definition unmarshal_UINT32 :: "u32 \<Rightarrow> (ustate, u32) exec" where
  "unmarshal_UINT32 v =
     bindE (unmarshal_bytes (le32 (htonl v)) 4) (\<lambda>r.
     returnE (case r of None \<Rightarrow> v | Some b \<Rightarrow> ntohl (of_le32 b)))"

definition unmarshal_array :: "bytes \<Rightarrow> u32 \<Rightarrow> (ustate, bytes) exec" where
  "unmarshal_array data n =
     bindE (unmarshal_bytes data n) (\<lambda>r. returnE (case r of None \<Rightarrow> data | Some b \<Rightarrow> b))"

definition unmarshal_ptr :: "u32 \<Rightarrow> u32 \<Rightarrow> (ustate, bytes) exec" where
  "unmarshal_ptr hp n =
     bindE (getE (\<lambda>(ctx, sctx, h). ctx)) (\<lambda>ctx.
     bindE (ASSERT (ctx \<noteq> None)) (\<lambda>_.
     bindE (if check_unpack_overflow (the ctx) n then returnE () else stopE (Exit (- 1))) (\<lambda>_.
     bindE (\<lambda>(ctx, sctx, h). case alloc hp n h of (r, h') \<Rightarrow> (r, (ctx, sctx, h'))) (\<lambda>p.
     bindE (ASSERT (p \<noteq> 0)) (\<lambda>_.
     bindE (take_bytes n) (\<lambda>tmp.
     bindE (hash_only tmp n) (\<lambda>_. returnE tmp)))))))"

definition unmarshal_TPM_PCR_SELECTION :: "u32 \<Rightarrow> (ustate, TPM_PCR_SELECTION) exec" where
  "unmarshal_TPM_PCR_SELECTION hp =
     bindE (unmarshal_UINT16 0) (\<lambda>sos.
     bindE (unmarshal_ptr hp (ucast sos)) (\<lambda>sel.
     returnE \<lparr>sizeOfSelect = sos, pcrSelect = sel\<rparr>))"

definition unmarshal_TPM_PCR_INFO_LONG :: "u32 \<Rightarrow> (ustate, TPM_PCR_INFO_LONG) exec" where
  "unmarshal_TPM_PCR_INFO_LONG hp =
     bindE (unmarshal_UINT16 0) (\<lambda>tag.
     bindE (unmarshal_BYTE 0) (\<lambda>lc.
     bindE (unmarshal_BYTE 0) (\<lambda>lr.
     bindE (unmarshal_TPM_PCR_SELECTION hp) (\<lambda>cs.
     bindE (unmarshal_TPM_PCR_SELECTION hp) (\<lambda>rs.
     bindE (unmarshal_array [] 20) (\<lambda>dc.
     bindE (unmarshal_array [] 20) (\<lambda>dr.
     returnE \<lparr>pi_tag = tag, localityAtCreation = lc, localityAtRelease = lr,
       creationPCRSelection = cs, releasePCRSelection = rs, digestAtCreation = dc,
       digestAtRelease = dr\<rparr>)))))))"

definition unmarshal_TPM_STORED_DATA12 :: "u32 \<Rightarrow> (ustate, TPM_STORED_DATA12) exec" where
  "unmarshal_TPM_STORED_DATA12 hp =
     bindE (unmarshal_UINT16 0) (\<lambda>tag.
     bindE (unmarshal_UINT16 0) (\<lambda>et.
     bindE (unmarshal_UINT32 0) (\<lambda>sis.
     bindE (unmarshal_ptr hp sis) (\<lambda>si.
     bindE (unmarshal_UINT32 0) (\<lambda>eds.
     bindE (unmarshal_ptr hp eds) (\<lambda>ed.
     returnE \<lparr>sd_tag = tag, sd_et = et, sealInfoSize = sis, sealInfo = si,
       encDataSize = eds, encData = ed\<rparr>))))))"

section \<open>Sizes, secrets and whole structures\<close>

definition sizeof_TPM_PCR_SELECTION :: "TPM_PCR_SELECTION \<Rightarrow> u32" where
  "sizeof_TPM_PCR_SELECTION select = 0 + 2 + ucast (sizeOfSelect select)"

definition sizeof_TPM_PCR_INFO_LONG :: "TPM_PCR_INFO_LONG \<Rightarrow> u32" where
  "sizeof_TPM_PCR_INFO_LONG pcrInfo =
     0 + 2 + 2 * 1 + sizeof_TPM_PCR_SELECTION (creationPCRSelection pcrInfo)
       + sizeof_TPM_PCR_SELECTION (releasePCRSelection pcrInfo) + 2 * 20"

definition sizeof_TPM_STORED_DATA12 :: "TPM_STORED_DATA12 \<Rightarrow> u32" where
  "sizeof_TPM_STORED_DATA12 storedData =
     0 + 2 + 2 + 4 + sealInfoSize storedData + 4 + encDataSize storedData"

text \<open>\<open>c\<close> is what the uninitialised local hash context holds.\<close>

definition encAuth_gen :: "SHA1_Context \<Rightarrow> TPM_AUTHDATA \<Rightarrow> TPM_SECRET \<Rightarrow> TPM_NONCE \<Rightarrow>
    ('s, TPM_ENCAUTH) exec" where
  "encAuth_gen c entityAuthData sharedSecret authLastNonceEven = with_local c (
     bindE (modifyE sha1_init) (\<lambda>_.
     bindE (resultE (sha1 sharedSecret 20)) (\<lambda>_.
     bindE (resultE (sha1 authLastNonceEven 20)) (\<lambda>_.
     bindE (modifyE sha1_finish) (\<lambda>_.
     getE (\<lambda>sctx. xor_bytes entityAuthData (sha_hash sctx)))))))"

definition sharedSecret_gen :: "HMAC_Context \<Rightarrow> TPM_AUTHDATA \<Rightarrow> TPM_NONCE \<Rightarrow> TPM_NONCE \<Rightarrow>
    ('s, TPM_SECRET) exec" where
  "sharedSecret_gen c auth nonceEvenOSAP nonceOddOSAP = with_local c (
     bindE (resultE (hmac_init auth 20)) (\<lambda>_.
     bindE (resultE (hmac nonceEvenOSAP 20)) (\<lambda>_.
     bindE (resultE (hmac nonceOddOSAP 20)) (\<lambda>_.
     bindE (resultE hmac_finish) (\<lambda>_.
     getE (\<lambda>hctx. sha_hash (hmac_sctx hctx)))))))"

definition get_TPM_COMPOSITE_HASH :: "SHA1_Context \<Rightarrow> TPM_PCR_COMPOSITE \<Rightarrow>
    ('s, TPM_COMPOSITE_HASH) exec" where
  "get_TPM_COMPOSITE_HASH c cmp = with_local (None, Some (sha1_init c)) (
     bindE (marshal_TPM_PCR_SELECTION (pc_select cmp)) (\<lambda>_.
     bindE (marshal_UINT32 (pc_valueSize cmp)) (\<lambda>_.
     bindE (marshal_array (pc_pcrValue cmp) (pc_valueSize cmp)) (\<lambda>_.
     getE (\<lambda>(_, sctx). sha_hash (sha1_finish (the sctx)))))))"

text \<open>The result is the number of bytes packed and the contents of the buffer.\<close>

definition pack_one :: "bytes \<Rightarrow> u32 \<Rightarrow> (pstate, unit) exec \<Rightarrow> ('s, u32 \<times> bytes) exec" where
  "pack_one data dataSize m = with_local (Some (pack_init data dataSize), None) (
     bindE m (\<lambda>_. getE (\<lambda>(pctx, _). (pack_finish (the pctx), pack_buffer (the pctx)))))"

definition pack_TPM_PCR_INFO_LONG :: "bytes \<Rightarrow> u32 \<Rightarrow> TPM_PCR_INFO_LONG \<Rightarrow> ('s, u32 \<times> bytes) exec" where
  "pack_TPM_PCR_INFO_LONG data dataSize pcrInfo =
     pack_one data dataSize (marshal_TPM_PCR_INFO_LONG pcrInfo)"

definition pack_TPM_STORED_DATA12 :: "bytes \<Rightarrow> u32 \<Rightarrow> TPM_STORED_DATA12 \<Rightarrow> ('s, u32 \<times> bytes) exec" where
  "pack_TPM_STORED_DATA12 data dataSize storedData =
     pack_one data dataSize (marshal_TPM_STORED_DATA12 storedData)"

definition unpack_TPM_STORED_DATA12 :: "u32 \<Rightarrow> bytes \<Rightarrow> u32 \<Rightarrow> (heap, TPM_STORED_DATA12) exec" where
  "unpack_TPM_STORED_DATA12 hp data dataSize = (\<lambda>h.
     case unmarshal_TPM_STORED_DATA12 hp (Some (unpack_init data dataSize), None, h) of
       (r, (_, _, h')) \<Rightarrow> (r, h'))"

text \<open>\<open>mem p\<close> is the memory at the allocated pointer; the pointer is not checked before use.\<close>

definition extract_TPM_STORED_DATA12 :: "(u32 \<Rightarrow> bytes) \<Rightarrow> u32 \<Rightarrow> TPM_STORED_DATA12 \<Rightarrow>
    (heap, u32 \<times> bytes) exec" where
  "extract_TPM_STORED_DATA12 mem hp storedData =
     (let n = sizeof_TPM_STORED_DATA12 storedData in
      bindE (alloc hp n) (\<lambda>p.
      if p = 0 then stopE Fault
      else bindE (pack_TPM_STORED_DATA12 (mem p) n storedData) (\<lambda>(_, data).
           returnE (n, data))))"

section \<open>What a marshalling routine emits\<close>

text \<open>The buffer has been filled with \<open>bs\<close>; the hash has absorbed \<open>m\<close>.\<close>

definition packed :: "bytes \<Rightarrow> Pack_Context option \<Rightarrow> bool" where
  "packed bs ctx \<longleftrightarrow> (\<forall>p. ctx = Some p \<longrightarrow> unat (bytes_packed p) = length bs \<and>
     take (length bs) (pack_buffer p) = bs \<and> unat (pack_size p) \<le> length (pack_buffer p))"

definition hashed :: "bytes \<Rightarrow> SHA1_Context option \<Rightarrow> bool" where
  "hashed m sctx \<longleftrightarrow> (\<forall>c. sctx = Some c \<longrightarrow> sha_inv m c)"

text \<open>
  \<open>emits m enc\<close>: from any contexts with room for \<open>enc\<close>, the routine appends \<open>enc\<close> to the buffer
  and to the hash, whichever of them is there, and keeps the rest of the contexts.
\<close>

definition emits :: "(pstate, unit) exec \<Rightarrow> bytes \<Rightarrow> bool" where
  "emits m enc \<longleftrightarrow> (\<forall>bs h ctx sctx. packed bs ctx \<longrightarrow> hashed h sctx \<longrightarrow>
     (\<forall>p. ctx = Some p \<longrightarrow> length bs + length enc \<le> unat (pack_size p)) \<longrightarrow>
     (\<forall>c. sctx = Some c \<longrightarrow> length h + length enc < 2 ^ 29) \<longrightarrow>
     (\<exists>ctx' sctx'. m (ctx, sctx) = (Ok (), (ctx', sctx')) \<and> packed (bs @ enc) ctx' \<and>
        hashed (h @ enc) sctx' \<and> map_option pack_size ctx' = map_option pack_size ctx \<and>
        map_option (\<lambda>p. length (pack_buffer p)) ctx' = map_option (\<lambda>p. length (pack_buffer p)) ctx \<and>
        (sctx' = None) = (sctx = None)))"

lemma hash_opt_hashed:
  assumes "hashed h sctx" "unat n \<le> length data"
    "\<And>c. sctx = Some c \<Longrightarrow> length h + unat n < 2 ^ 29"
  obtains sctx' where "hash_opt data n sctx = (None, sctx')" "hashed (h @ take (unat n) data) sctx'"
    "(sctx' = None) = (sctx = None)"
proof (cases sctx)
  case None
  then show ?thesis by (intro that [of None]) (auto simp: hash_opt_def hashed_def)
next
  case (Some c)
  then obtain c' where "sha1 data n c = (Ok (), c')" "sha_inv (h @ take (unat n) data) c'"
    using sha.upd_inv [of h c n data] assms by (auto simp: hashed_def)
  with Some show ?thesis by (intro that [of "Some c'"]) (auto simp: hash_opt_def hashed_def)
qed

lemma emits_bytes:
  assumes "unat n \<le> length data" "enc = take (unat n) data"
  shows "emits (marshal_bytes data n) enc"
  unfolding emits_def
proof (intro allI impI)
  fix bs h ctx sctx
  assume pk: "packed bs ctx" and hs: "hashed h sctx"
    and room: "\<forall>p. ctx = Some p \<longrightarrow> length bs + length enc \<le> unat (pack_size p)"
    and lim: "\<forall>c. sctx = Some c \<longrightarrow> length h + length enc < 2 ^ 29"
  have len: "length enc = unat n" using assms by simp
  obtain sctx' where sc: "hash_opt data n sctx = (None, sctx')" "hashed (h @ enc) sctx'"
    "(sctx' = None) = (sctx = None)"
    using hash_opt_hashed [OF hs assms(1)] lim len assms(2) by auto
  show "\<exists>ctx' sctx'. marshal_bytes data n (ctx, sctx) = (Ok (), (ctx', sctx')) \<and> packed (bs @ enc) ctx' \<and>
        hashed (h @ enc) sctx' \<and> map_option pack_size ctx' = map_option pack_size ctx \<and>
        map_option (\<lambda>p. length (pack_buffer p)) ctx' = map_option (\<lambda>p. length (pack_buffer p)) ctx \<and>
        (sctx' = None) = (sctx = None)"
  proof (cases ctx)
    case None
    with sc show ?thesis by (auto simp: marshal_bytes_def packed_def)
  next
    case (Some p)
    have p: "unat (bytes_packed p) = length bs" "take (length bs) (pack_buffer p) = bs"
      "unat (pack_size p) \<le> length (pack_buffer p)" "length bs + unat n \<le> unat (pack_size p)"
      using pk room Some len by (auto simp: packed_def)
    have sum: "unat (bytes_packed p + n) = length bs + unat n"
      using p unat_u32_less [of "pack_size p"] by (subst unat_add_lem [THEN iffD1]) simp_all
    then have "check_pack_overflow p n" using p by (simp add: check_pack_overflow_def word_le_nat_alt)
    moreover have "copy_in (pack_buffer p) (length bs) data (unat n) = Some (splice (pack_buffer p) (length bs) enc)"
      using p assms by (simp add: copy_in_def)
    moreover have "take (length bs + unat n) (splice (pack_buffer p) (length bs) enc) = bs @ enc"
      using take_splice [of "length bs" enc "pack_buffer p"] p len by simp
    ultimately show ?thesis using sc Some p sum len
      by (simp add: marshal_bytes_def packed_def)
  qed
qed

lemma emitsD:
  assumes "emits m enc" "packed bs ctx" "hashed h sctx"
    "\<And>p. ctx = Some p \<Longrightarrow> length bs + length enc \<le> unat (pack_size p)"
    "\<And>c. sctx = Some c \<Longrightarrow> length h + length enc < 2 ^ 29"
  obtains ctx' sctx' where "m (ctx, sctx) = (Ok (), (ctx', sctx'))" "packed (bs @ enc) ctx'"
    "hashed (h @ enc) sctx'" "map_option pack_size ctx' = map_option pack_size ctx"
    "map_option (\<lambda>p. length (pack_buffer p)) ctx' = map_option (\<lambda>p. length (pack_buffer p)) ctx"
    "(sctx' = None) = (sctx = None)"
  by (rule assms(1) [unfolded emits_def, rule_format, THEN exE, of bs ctx h sctx])
    (use assms(2-5) that in \<open>auto elim!: exE\<close>)

lemma emits_bindE:
  assumes "emits m a" "emits k b"
  shows "emits (bindE m (\<lambda>_. k)) (a @ b)"
  unfolding emits_def
proof (intro allI impI)
  fix bs h ctx sctx
  assume pk: "packed bs ctx" and hs: "hashed h sctx"
    and room: "\<forall>p. ctx = Some p \<longrightarrow> length bs + length (a @ b) \<le> unat (pack_size p)"
    and lim: "\<forall>c. sctx = Some c \<longrightarrow> length h + length (a @ b) < 2 ^ 29"
  obtain ctx1 sctx1 where 1: "m (ctx, sctx) = (Ok (), (ctx1, sctx1))" "packed (bs @ a) ctx1"
    "hashed (h @ a) sctx1" "map_option pack_size ctx1 = map_option pack_size ctx"
    "map_option (\<lambda>p. length (pack_buffer p)) ctx1 = map_option (\<lambda>p. length (pack_buffer p)) ctx"
    "(sctx1 = None) = (sctx = None)"
    by (rule emitsD [OF assms(1) pk hs]) (use room lim in auto)
  have room1: "length (bs @ a) + length b \<le> unat (pack_size p)" if "ctx1 = Some p" for p
    using that 1(4) room by (cases ctx) auto
  have lim1: "length (h @ a) + length b < 2 ^ 29" if "sctx1 = Some c" for c
    using that 1(6) lim by (cases sctx) auto
  obtain ctx2 sctx2 where "k (ctx1, sctx1) = (Ok (), (ctx2, sctx2))" "packed ((bs @ a) @ b) ctx2"
    "hashed ((h @ a) @ b) sctx2" "map_option pack_size ctx2 = map_option pack_size ctx1"
    "map_option (\<lambda>p. length (pack_buffer p)) ctx2 = map_option (\<lambda>p. length (pack_buffer p)) ctx1"
    "(sctx2 = None) = (sctx1 = None)"
    by (rule emitsD [OF assms(2) 1(2,3)]) (use room1 lim1 in auto)
  with 1 show "\<exists>ctx' sctx'. bindE m (\<lambda>_. k) (ctx, sctx) = (Ok (), (ctx', sctx')) \<and>
      packed (bs @ a @ b) ctx' \<and> hashed (h @ a @ b) sctx' \<and>
      map_option pack_size ctx' = map_option pack_size ctx \<and>
      map_option (\<lambda>p. length (pack_buffer p)) ctx' = map_option (\<lambda>p. length (pack_buffer p)) ctx \<and>
      (sctx' = None) = (sctx = None)"
    by (auto simp: bindE_cases)
qed

text \<open>The wire format of the primitive types and of the structures.\<close>

definition enc_SELECTION :: "TPM_PCR_SELECTION \<Rightarrow> bytes" where
  "enc_SELECTION s = be16 (sizeOfSelect s) @ take (unat (sizeOfSelect s)) (pcrSelect s)"

definition enc_PCR_INFO_LONG :: "TPM_PCR_INFO_LONG \<Rightarrow> bytes" where
  "enc_PCR_INFO_LONG i = be16 (pi_tag i) @ [localityAtCreation i] @ [localityAtRelease i] @
     enc_SELECTION (creationPCRSelection i) @ enc_SELECTION (releasePCRSelection i) @
     take 20 (digestAtCreation i) @ take 20 (digestAtRelease i)"

definition enc_STORED_DATA12 :: "TPM_STORED_DATA12 \<Rightarrow> bytes" where
  "enc_STORED_DATA12 d = be16 (sd_tag d) @ be16 (sd_et d) @ be32 (sealInfoSize d) @
     take (unat (sealInfoSize d)) (sealInfo d) @ be32 (encDataSize d) @
     take (unat (encDataSize d)) (encData d)"

text \<open>The pointers of a structure reach over the sizes given beside them.\<close>

definition wf_SELECTION :: "TPM_PCR_SELECTION \<Rightarrow> bool" where
  "wf_SELECTION s \<longleftrightarrow> unat (sizeOfSelect s) \<le> length (pcrSelect s)"

definition wf_PCR_INFO_LONG :: "TPM_PCR_INFO_LONG \<Rightarrow> bool" where
  "wf_PCR_INFO_LONG i \<longleftrightarrow> wf_SELECTION (creationPCRSelection i) \<and> wf_SELECTION (releasePCRSelection i) \<and>
     20 \<le> length (digestAtCreation i) \<and> 20 \<le> length (digestAtRelease i)"

definition wf_STORED_DATA12 :: "TPM_STORED_DATA12 \<Rightarrow> bool" where
  "wf_STORED_DATA12 d \<longleftrightarrow> unat (sealInfoSize d) \<le> length (sealInfo d) \<and>
     unat (encDataSize d) \<le> length (encData d)"

lemma unat_ucast_16_32 [simp]: "unat (ucast (v :: u16) :: u32) = unat v"
  by (simp add: unsigned_ucast_eq take_bit_nat_eq_self order_less_le_trans [OF unsigned_less])

lemma emits_UINT: "emits (marshal_BYTE b) [b]" "emits (marshal_UINT16 v) (be16 v)"
  "emits (marshal_UINT32 w) (be32 w)"
  unfolding marshal_BYTE_def marshal_UINT16_def marshal_UINT32_def
  by (rule emits_bytes; simp)+

lemma emits_array: "unat n \<le> length data \<Longrightarrow> emits (marshal_array data n) (take (unat n) data)"
  unfolding marshal_array_def by (rule emits_bytes) simp_all

lemma emits_20: "length data = 20 \<Longrightarrow> emits (marshal_array data 20) data"
  using emits_array [of 20 data] by simp

lemma emits_SELECTION: "wf_SELECTION s \<Longrightarrow> emits (marshal_TPM_PCR_SELECTION s) (enc_SELECTION s)"
  unfolding marshal_TPM_PCR_SELECTION_def enc_SELECTION_def
  using emits_array [of "ucast (sizeOfSelect s)" "pcrSelect s"]
  by (auto simp: wf_SELECTION_def intro!: emits_bindE emits_UINT)

lemma emits_PCR_INFO_LONG:
  "wf_PCR_INFO_LONG i \<Longrightarrow> emits (marshal_TPM_PCR_INFO_LONG i) (enc_PCR_INFO_LONG i)"
  unfolding marshal_TPM_PCR_INFO_LONG_def enc_PCR_INFO_LONG_def wf_PCR_INFO_LONG_def
  using emits_array [of 20 "digestAtCreation i"] emits_array [of 20 "digestAtRelease i"]
  by (intro emits_bindE emits_UINT emits_SELECTION) auto

lemma emits_STORED_DATA12:
  "wf_STORED_DATA12 d \<Longrightarrow> emits (marshal_TPM_STORED_DATA12 d) (enc_STORED_DATA12 d)"
  unfolding marshal_TPM_STORED_DATA12_def enc_STORED_DATA12_def wf_STORED_DATA12_def
  by (intro emits_bindE emits_UINT emits_array) auto

section \<open>What an unmarshalling routine reads\<close>

text \<open>\<open>rest\<close> is what is left to read.\<close>

definition unread :: "bytes \<Rightarrow> Unpack_Context \<Rightarrow> bool" where
  "unread rest u \<longleftrightarrow> unat (unpack_size u) \<le> length (unpack_buffer u) \<and>
     unat (bytes_unpacked u) + length rest = unat (unpack_size u) \<and>
     drop (unat (bytes_unpacked u)) (take (unat (unpack_size u)) (unpack_buffer u)) = rest"

text \<open>The heap serves the requests \<open>ns\<close> and ends as \<open>h'\<close>.\<close>

fun allocates :: "u32 \<Rightarrow> u32 list \<Rightarrow> heap \<Rightarrow> heap \<Rightarrow> bool" where
  "allocates hp [] h h' \<longleftrightarrow> h' = h"
| "allocates hp (n # ns) h h' \<longleftrightarrow>
     (case alloc hp n h of (Ok p, h1) \<Rightarrow> p \<noteq> 0 \<and> allocates hp ns h1 h' | _ \<Rightarrow> False)"

lemma allocates_append:
  "allocates hp (ns @ ms) h h' \<longleftrightarrow> (\<exists>h1. allocates hp ns h h1 \<and> allocates hp ms h1 h')"
proof (induction ns arbitrary: h)
  case (Cons n ns)
  obtain r h1 where "alloc hp n h = (r, h1)" by (cases "alloc hp n h")
  with Cons show ?case by (cases r) auto
qed simp

text \<open>
  \<open>reads hp m enc v ns\<close>: when the input starts with \<open>enc\<close> and the heap can serve the requests
  \<open>ns\<close>, the routine returns \<open>v\<close>, has consumed \<open>enc\<close> and hashed it if there is a hash.
\<close>

definition reads :: "u32 \<Rightarrow> (ustate, 'a) exec \<Rightarrow> bytes \<Rightarrow> 'a \<Rightarrow> u32 list \<Rightarrow> bool" where
  "reads hp m enc v ns \<longleftrightarrow> (\<forall>u rest h0 sctx h h'. unread (enc @ rest) u \<longrightarrow> hashed h0 sctx \<longrightarrow>
     (\<forall>c. sctx = Some c \<longrightarrow> length h0 + length enc < 2 ^ 29) \<longrightarrow> allocates hp ns h h' \<longrightarrow>
     (\<exists>u' sctx'. m (Some u, sctx, h) = (Ok v, (Some u', sctx', h')) \<and> unread rest u' \<and>
        bytes_unpacked u' = bytes_unpacked u + of_nat (length enc) \<and> unpack_buffer u' = unpack_buffer u \<and>
        hashed (h0 @ enc) sctx' \<and> (sctx' = None) = (sctx = None)))"

lemma readsD:
  assumes "reads hp m enc v ns" "unread (enc @ rest) u" "hashed h0 sctx"
    "\<And>c. sctx = Some c \<Longrightarrow> length h0 + length enc < 2 ^ 29" "allocates hp ns h h'"
  obtains u' sctx' where "m (Some u, sctx, h) = (Ok v, (Some u', sctx', h'))" "unread rest u'"
    "bytes_unpacked u' = bytes_unpacked u + of_nat (length enc)" "unpack_buffer u' = unpack_buffer u"
    "hashed (h0 @ enc) sctx'" "(sctx' = None) = (sctx = None)"
  by (rule assms(1) [unfolded reads_def, rule_format, THEN exE, of rest u h0 sctx h h'])
    (use assms(2-5) that in \<open>auto elim!: exE\<close>)

lemma reads_no_hash:
  assumes "reads hp m enc v ns" "unread (enc @ rest) u" "allocates hp ns h h'"
  shows "\<exists>u'. m (Some u, None, h) = (Ok v, (Some u', None, h')) \<and> unread rest u' \<and>
    bytes_unpacked u' = bytes_unpacked u + of_nat (length enc)"
  by (rule readsD [OF assms(1,2) _ _ assms(3), of "[]" None]) (auto simp: hashed_def)

lemma reads_bindE:
  assumes "reads hp m a v ns" "reads hp (k v) b w ms"
  shows "reads hp (bindE m k) (a @ b) w (ns @ ms)"
  unfolding reads_def
proof (intro allI impI)
  fix u rest h0 sctx h h'
  assume un: "unread ((a @ b) @ rest) u" and hs: "hashed h0 sctx"
    and lim: "\<forall>c. sctx = Some c \<longrightarrow> length h0 + length (a @ b) < 2 ^ 29"
    and al: "allocates hp (ns @ ms) h h'"
  from al obtain h1 where al1: "allocates hp ns h h1" "allocates hp ms h1 h'"
    by (auto simp: allocates_append)
  obtain u1 s1 where 1: "m (Some u, sctx, h) = (Ok v, (Some u1, s1, h1))" "unread (b @ rest) u1"
    "bytes_unpacked u1 = bytes_unpacked u + of_nat (length a)" "unpack_buffer u1 = unpack_buffer u"
    "hashed (h0 @ a) s1" "(s1 = None) = (sctx = None)"
    by (rule readsD [OF assms(1), of "b @ rest" u h0 sctx h h1]) (use un hs lim al1 in auto)
  have lim1: "length (h0 @ a) + length b < 2 ^ 29" if "s1 = Some c" for c
    using that 1(6) lim by (cases sctx) auto
  obtain u2 s2 where "k v (Some u1, s1, h1) = (Ok w, (Some u2, s2, h'))" "unread rest u2"
    "bytes_unpacked u2 = bytes_unpacked u1 + of_nat (length b)" "unpack_buffer u2 = unpack_buffer u1" "hashed ((h0 @ a) @ b) s2" "(s2 = None) = (s1 = None)"
    by (rule readsD [OF assms(2) 1(2,5) lim1 al1(2)])
  with 1 show "\<exists>u' sctx'. bindE m k (Some u, sctx, h) = (Ok w, (Some u', sctx', h')) \<and> unread rest u' \<and>
      bytes_unpacked u' = bytes_unpacked u + of_nat (length (a @ b)) \<and> unpack_buffer u' = unpack_buffer u \<and>
      hashed (h0 @ a @ b) sctx' \<and> (sctx' = None) = (sctx = None)"
    by (auto simp: bindE_cases)
qed

lemma reads_returnE: "reads hp (returnE v) [] v []"
  by (auto simp: reads_def returnE_def)

lemma reads_map:
  assumes "reads hp m enc v ns" "f v = w"
  shows "reads hp (bindE m (\<lambda>x. returnE (f x))) enc w ns"
  using reads_bindE [OF assms(1), of "\<lambda>x. returnE (f x)" "[]" w "[]"] reads_returnE [of hp w] assms(2)
  by simp

text \<open>Taking bytes, on a context with enough left.\<close>

lemma take_bytes_run:
  assumes "unread (enc @ rest) u" "length enc = unat n"
  shows "check_unpack_overflow u n"
    "take_bytes n (Some u, sctx, h) =
      (Ok enc, (Some (u\<lparr>bytes_unpacked := bytes_unpacked u + n\<rparr>), sctx, h))"
    "unread rest (u\<lparr>bytes_unpacked := bytes_unpacked u + n\<rparr>)"
proof -
  let ?k = "unat (bytes_unpacked u)" and ?s = "unat (unpack_size u)"
  have un: "?s \<le> length (unpack_buffer u)" "?k + (unat n + length rest) = ?s"
    "drop ?k (take ?s (unpack_buffer u)) = enc @ rest"
    using assms by (auto simp: unread_def)
  have sum: "unat (bytes_unpacked u + n) = ?k + unat n"
    using un(2) unat_u32_less [of "unpack_size u"] by (subst unat_add_lem [THEN iffD1]) simp_all
  show ok: "check_unpack_overflow u n" using un(2) sum by (simp add: check_unpack_overflow_def word_le_nat_alt)
  have "slice (unpack_buffer u) ?k (unat n) = take (unat n) (drop ?k (take ?s (unpack_buffer u)))"
    using un(2) by (simp add: drop_take min_def)
  also have "\<dots> = enc" using un(3) assms(2) by simp
  finally show "take_bytes n (Some u, sctx, h) =
      (Ok enc, (Some (u\<lparr>bytes_unpacked := bytes_unpacked u + n\<rparr>), sctx, h))"
    using ok un by (simp add: take_bytes_def)
  have "drop (?k + unat n) (take ?s (unpack_buffer u)) = drop (unat n) (drop ?k (take ?s (unpack_buffer u)))"
    by (simp add: add.commute)
  also have "\<dots> = rest" using un(3) assms(2) by simp
  finally show "unread rest (u\<lparr>bytes_unpacked := bytes_unpacked u + n\<rparr>)"
    using un sum by (simp add: unread_def)
qed

lemma hash_only_run:
  assumes "hashed h0 sctx" "length enc = unat n"
    "\<And>c. sctx = Some c \<Longrightarrow> length h0 + unat n < 2 ^ 29"
  obtains sctx' where "hash_only enc n (ctx, sctx, h) = (Ok (), (ctx, sctx', h))"
    "hashed (h0 @ enc) sctx'" "(sctx' = None) = (sctx = None)"
proof -
  obtain sctx' where "hash_opt enc n sctx = (None, sctx')" "hashed (h0 @ take (unat n) enc) sctx'"
    "(sctx' = None) = (sctx = None)"
    by (rule hash_opt_hashed [OF assms(1), of n enc]) (use assms(2,3) in auto)
  with assms(2) show ?thesis by (intro that [of sctx']) (auto simp: hash_only_def)
qed

lemma reads_bytes:
  assumes "length enc = unat n"
  shows "reads hp (unmarshal_bytes old n) enc (Some enc) []"
  unfolding reads_def
proof (intro allI impI)
  fix u rest h0 sctx h h'
  assume un: "unread (enc @ rest) u" and hs: "hashed h0 sctx"
    and lim: "\<forall>c. sctx = Some c \<longrightarrow> length h0 + length enc < 2 ^ 29" and al: "allocates hp [] h h'"
  note tb = take_bytes_run [OF un assms]
  obtain sctx' where "hash_only enc n (Some (u\<lparr>bytes_unpacked := bytes_unpacked u + n\<rparr>), sctx, h) =
      (Ok (), (Some (u\<lparr>bytes_unpacked := bytes_unpacked u + n\<rparr>), sctx', h))"
    "hashed (h0 @ enc) sctx'" "(sctx' = None) = (sctx = None)"
    by (rule hash_only_run [OF hs assms]) (use lim assms in auto)
  with tb al assms show "\<exists>u' sctx'. unmarshal_bytes old n (Some u, sctx, h) = (Ok (Some enc), (Some u', sctx', h')) \<and>
      unread rest u' \<and> bytes_unpacked u' = bytes_unpacked u + of_nat (length enc) \<and> unpack_buffer u' = unpack_buffer u \<and>
      hashed (h0 @ enc) sctx' \<and> (sctx' = None) = (sctx = None)"
    by (auto simp: unmarshal_bytes_def bindE_cases returnE_def)
qed

lemma reads_ptr:
  assumes "length enc = unat n"
  shows "reads hp (unmarshal_ptr hp n) enc enc [n]"
  unfolding reads_def
proof (intro allI impI)
  fix u rest h0 sctx h h'
  assume un: "unread (enc @ rest) u" and hs: "hashed h0 sctx"
    and lim: "\<forall>c. sctx = Some c \<longrightarrow> length h0 + length enc < 2 ^ 29" and al: "allocates hp [n] h h'"
  from al obtain p where p: "alloc hp n h = (Ok p, h')" "p \<noteq> 0"
    by (auto split: prod.splits res.splits)
  note tb = take_bytes_run [OF un assms]
  obtain sctx' where "hash_only enc n (Some (u\<lparr>bytes_unpacked := bytes_unpacked u + n\<rparr>), sctx, h') =
      (Ok (), (Some (u\<lparr>bytes_unpacked := bytes_unpacked u + n\<rparr>), sctx', h'))"
    "hashed (h0 @ enc) sctx'" "(sctx' = None) = (sctx = None)"
    by (rule hash_only_run [OF hs assms]) (use lim assms in auto)
  with tb p assms show "\<exists>u' sctx'. unmarshal_ptr hp n (Some u, sctx, h) = (Ok enc, (Some u', sctx', h')) \<and>
      unread rest u' \<and> bytes_unpacked u' = bytes_unpacked u + of_nat (length enc) \<and> unpack_buffer u' = unpack_buffer u \<and>
      hashed (h0 @ enc) sctx' \<and> (sctx' = None) = (sctx = None)"
    by (auto simp: unmarshal_ptr_def bindE_cases returnE_def)
qed

lemma reads_BYTE: "reads hp (unmarshal_BYTE old) [v] v []"
  unfolding unmarshal_BYTE_def by (rule reads_map [OF reads_bytes]) simp_all

lemma of_le_be [simp]: "ntohs (of_le16 (be16 v)) = v" "ntohl (of_le32 (be32 w)) = w"
  by simp_all

lemma reads_UINT16: "reads hp (unmarshal_UINT16 old) (be16 v) v []"
  unfolding unmarshal_UINT16_def by (rule reads_map [OF reads_bytes]) simp_all

lemma reads_UINT32: "reads hp (unmarshal_UINT32 old) (be32 v) v []"
  unfolding unmarshal_UINT32_def by (rule reads_map [OF reads_bytes]) simp_all

lemma reads_array: "length enc = unat n \<Longrightarrow> reads hp (unmarshal_array old n) enc enc []"
  unfolding unmarshal_array_def by (rule reads_map [OF reads_bytes]) simp_all

text \<open>Structures: the pointers of the result hold exactly the bytes their size says.\<close>

definition trim_SELECTION :: "TPM_PCR_SELECTION \<Rightarrow> TPM_PCR_SELECTION" where
  "trim_SELECTION s = s\<lparr>pcrSelect := take (unat (sizeOfSelect s)) (pcrSelect s)\<rparr>"

definition trim_STORED_DATA12 :: "TPM_STORED_DATA12 \<Rightarrow> TPM_STORED_DATA12" where
  "trim_STORED_DATA12 d = d\<lparr>sealInfo := take (unat (sealInfoSize d)) (sealInfo d),
     encData := take (unat (encDataSize d)) (encData d)\<rparr>"

lemma reads_SELECTION:
  assumes "wf_SELECTION s"
  shows "reads hp (unmarshal_TPM_PCR_SELECTION hp) (enc_SELECTION s) (trim_SELECTION s)
    [ucast (sizeOfSelect s)]"
proof -
  have "reads hp (unmarshal_ptr hp (ucast (sizeOfSelect s))) (take (unat (sizeOfSelect s)) (pcrSelect s))
      (take (unat (sizeOfSelect s)) (pcrSelect s)) [ucast (sizeOfSelect s)]"
    using assms by (intro reads_ptr) (simp add: wf_SELECTION_def)
  then have "reads hp (unmarshal_TPM_PCR_SELECTION hp) (enc_SELECTION s) (trim_SELECTION s)
      ([] @ [ucast (sizeOfSelect s)])"
    unfolding unmarshal_TPM_PCR_SELECTION_def enc_SELECTION_def
    by (intro reads_bindE [OF reads_UINT16] reads_map) (simp_all add: trim_SELECTION_def, cases s, simp)
  then show ?thesis by simp
qed

lemma reads_STORED_DATA12:
  assumes "wf_STORED_DATA12 d"
  shows "reads hp (unmarshal_TPM_STORED_DATA12 hp) (enc_STORED_DATA12 d) (trim_STORED_DATA12 d)
    [sealInfoSize d, encDataSize d]"
proof -
  let ?si = "take (unat (sealInfoSize d)) (sealInfo d)" and ?ed = "take (unat (encDataSize d)) (encData d)"
  have p: "reads hp (unmarshal_ptr hp (sealInfoSize d)) ?si ?si [sealInfoSize d]"
    "reads hp (unmarshal_ptr hp (encDataSize d)) ?ed ?ed [encDataSize d]"
    using assms by (auto simp: wf_STORED_DATA12_def intro!: reads_ptr)
  have "reads hp (unmarshal_TPM_STORED_DATA12 hp)
     (be16 (sd_tag d) @ be16 (sd_et d) @ be32 (sealInfoSize d) @ ?si @ be32 (encDataSize d) @ ?ed)
     (trim_STORED_DATA12 d) ([] @ [] @ [] @ [sealInfoSize d] @ [] @ [encDataSize d])"
    unfolding unmarshal_TPM_STORED_DATA12_def
    by (rule reads_bindE, rule reads_UINT16, rule reads_bindE, rule reads_UINT16,
        rule reads_bindE, rule reads_UINT32, rule reads_bindE, rule p(1), rule reads_bindE,
        rule reads_UINT32, rule reads_map, rule p(2), simp add: trim_STORED_DATA12_def)
  then show ?thesis by (simp add: enc_STORED_DATA12_def)
qed

lemma reads_PCR_INFO_LONG:
  assumes "wf_PCR_INFO_LONG i"
  shows "reads hp (unmarshal_TPM_PCR_INFO_LONG hp) (enc_PCR_INFO_LONG i)
    (i\<lparr>creationPCRSelection := trim_SELECTION (creationPCRSelection i),
       releasePCRSelection := trim_SELECTION (releasePCRSelection i),
       digestAtCreation := take 20 (digestAtCreation i), digestAtRelease := take 20 (digestAtRelease i)\<rparr>)
    [ucast (sizeOfSelect (creationPCRSelection i)), ucast (sizeOfSelect (releasePCRSelection i))]"
proof -
  let ?c = "creationPCRSelection i" and ?r = "releasePCRSelection i"
  let ?dc = "take 20 (digestAtCreation i)" and ?dr = "take 20 (digestAtRelease i)"
  have s: "reads hp (unmarshal_TPM_PCR_SELECTION hp) (enc_SELECTION ?c) (trim_SELECTION ?c) [ucast (sizeOfSelect ?c)]"
    "reads hp (unmarshal_TPM_PCR_SELECTION hp) (enc_SELECTION ?r) (trim_SELECTION ?r) [ucast (sizeOfSelect ?r)]"
    using assms by (auto simp: wf_PCR_INFO_LONG_def intro!: reads_SELECTION)
  have a: "reads hp (unmarshal_array [] 20) ?dc ?dc []" "reads hp (unmarshal_array [] 20) ?dr ?dr []"
    using assms by (auto simp: wf_PCR_INFO_LONG_def intro!: reads_array)
  have "reads hp (unmarshal_TPM_PCR_INFO_LONG hp)
    (be16 (pi_tag i) @ [localityAtCreation i] @ [localityAtRelease i] @ enc_SELECTION ?c @ enc_SELECTION ?r @ ?dc @ ?dr)
    (i\<lparr>creationPCRSelection := trim_SELECTION ?c, releasePCRSelection := trim_SELECTION ?r,
       digestAtCreation := ?dc, digestAtRelease := ?dr\<rparr>)
    ([] @ [] @ [] @ [ucast (sizeOfSelect ?c)] @ [ucast (sizeOfSelect ?r)] @ [] @ [])"
    unfolding unmarshal_TPM_PCR_INFO_LONG_def
    by (rule reads_bindE, rule reads_UINT16, rule reads_bindE, rule reads_BYTE, rule reads_bindE,
        rule reads_BYTE, rule reads_bindE, rule s(1), rule reads_bindE, rule s(2), rule reads_bindE,
        rule a(1), rule reads_map, rule a(2), simp)
  then show ?thesis by (simp add: enc_PCR_INFO_LONG_def)
qed

lemma length_enc_STORED_DATA12:
  "wf_STORED_DATA12 d \<Longrightarrow>
   length (enc_STORED_DATA12 d) = 12 + unat (sealInfoSize d) + unat (encDataSize d)"
  by (simp add: enc_STORED_DATA12_def wf_STORED_DATA12_def)

lemma length_enc_SELECTION: "wf_SELECTION s \<Longrightarrow> length (enc_SELECTION s) = 2 + unat (sizeOfSelect s)"
  by (simp add: enc_SELECTION_def wf_SELECTION_def)

lemma length_enc_PCR_INFO_LONG:
  "wf_PCR_INFO_LONG i \<Longrightarrow> length (enc_PCR_INFO_LONG i) = 48 +
     unat (sizeOfSelect (creationPCRSelection i)) + unat (sizeOfSelect (releasePCRSelection i))"
  by (simp add: enc_PCR_INFO_LONG_def wf_PCR_INFO_LONG_def length_enc_SELECTION)

lemma unpack_init_unread:
  "length data = unat n \<Longrightarrow> unread data (unpack_init data n)"
  by (simp add: unread_def unpack_init_def)

lemma packed_pack_init: "unat n \<le> length data \<Longrightarrow> packed [] (Some (pack_init data n))"
  by (simp add: packed_def pack_init_def)

text \<open>\<open>pack_one\<close> fills the front of the buffer with the encoding.\<close>

lemma pack_one_run:
  assumes "emits m enc" "length enc \<le> unat n" "unat n \<le> length data"
  obtains b where "pack_one data n m s = (Ok (of_nat (length enc), b), s)" "take (length enc) b = enc"
    "length b = length data"
proof -
  obtain ctx' sctx' where r: "m (Some (pack_init data n), None) = (Ok (), (ctx', sctx'))" "packed ([] @ enc) ctx'"
    "map_option pack_size ctx' = map_option pack_size (Some (pack_init data n))"
    "map_option (\<lambda>p. length (pack_buffer p)) ctx' = map_option (\<lambda>p. length (pack_buffer p)) (Some (pack_init data n))"
    by (rule emitsD [OF assms(1) packed_pack_init [OF assms(3)], of "[]" None])
      (use assms in \<open>auto simp: hashed_def pack_init_def\<close>)
  then obtain p where p: "ctx' = Some p" "length (pack_buffer p) = length data" by (auto simp: pack_init_def)
  then have "bytes_packed p = of_nat (length enc)"
    using r(2) assms(2) unat_u32_less [of n] by (auto simp: packed_def unat_eq_of_nat_iff)
  with r p show ?thesis
    by (intro that [of "pack_buffer p"]) (auto simp: pack_one_def with_local_def bindE_def getE_def
        pack_finish_def packed_def)
qed

lemma sizeof_STORED_DATA12:
  assumes "12 + unat (sealInfoSize d) + unat (encDataSize d) < 2 ^ 32"
  shows "unat (sizeof_TPM_STORED_DATA12 d) = 12 + unat (sealInfoSize d) + unat (encDataSize d)"
proof -
  have "sizeof_TPM_STORED_DATA12 d = of_nat (12 + unat (sealInfoSize d) + unat (encDataSize d))"
    by (simp add: sizeof_TPM_STORED_DATA12_def)
  then show ?thesis using unat_of_nat_u32 [OF assms] by simp
qed

lemma sizeof_PCR_INFO_LONG:
  "unat (sizeof_TPM_PCR_INFO_LONG i) =
     48 + unat (sizeOfSelect (creationPCRSelection i)) + unat (sizeOfSelect (releasePCRSelection i))"
proof -
  let ?c = "unat (sizeOfSelect (creationPCRSelection i))" and ?r = "unat (sizeOfSelect (releasePCRSelection i))"
  have "?c < 2 ^ 16" "?r < 2 ^ 16"
    using unsigned_less [of "sizeOfSelect (creationPCRSelection i)"]
      unsigned_less [of "sizeOfSelect (releasePCRSelection i)"] by simp_all
  then have "48 + ?c + ?r < 2 ^ 32" by simp
  moreover have u: "ucast (v :: u16) = (of_nat (unat v) :: u32)" for v by simp
  have "sizeof_TPM_PCR_INFO_LONG i = of_nat (48 + ?c + ?r)"
    unfolding sizeof_TPM_PCR_INFO_LONG_def sizeof_TPM_PCR_SELECTION_def u by simp
  ultimately show ?thesis using unat_of_nat_u32 [of "48 + ?c + ?r"] by simp
qed

section \<open>Properties\<close>

text \<open>
  C29: the sealed blob survives the NV memory. A \<open>TPM_STORED_DATA12\<close> packed by
  \<open>pack_TPM_STORED_DATA12\<close> into a buffer of its \<open>sizeof\<close> fills the buffer exactly, and
  \<open>unpack_TPM_STORED_DATA12\<close> of that buffer returns the same structure, if the heap can hold the
  two arrays.
\<close>

theorem stored_data_round_trip:
  assumes "wf_STORED_DATA12 d" "12 + unat (sealInfoSize d) + unat (encDataSize d) < 2 ^ 32"
    and "length data = unat (sizeof_TPM_STORED_DATA12 d)"
    and "allocates hp [sealInfoSize d, encDataSize d] h h'"
  shows "\<exists>b. pack_TPM_STORED_DATA12 data (sizeof_TPM_STORED_DATA12 d) d s =
      (Ok (sizeof_TPM_STORED_DATA12 d, b), s) \<and>
    unpack_TPM_STORED_DATA12 hp b (sizeof_TPM_STORED_DATA12 d) h = (Ok (trim_STORED_DATA12 d), h')"
proof -
  let ?n = "sizeof_TPM_STORED_DATA12 d" and ?e = "enc_STORED_DATA12 d"
  have len: "length ?e = unat ?n"
    using sizeof_STORED_DATA12 [OF assms(2)] length_enc_STORED_DATA12 [OF assms(1)] by simp
  then have n: "?n = of_nat (length ?e)" by simp
  obtain b where b: "pack_one data ?n (marshal_TPM_STORED_DATA12 d) s = (Ok (of_nat (length ?e), b), s)"
    "take (length ?e) b = ?e" "length b = length data"
    by (rule pack_one_run [OF emits_STORED_DATA12 [OF assms(1)], of ?n data s]) (use len assms(3) in auto)
  then have "b = ?e" using len assms(3) by simp
  then have "unread (?e @ []) (unpack_init b ?n)" using unpack_init_unread len by simp
  then obtain u' sctx' where "unmarshal_TPM_STORED_DATA12 hp (Some (unpack_init b ?n), None, h) =
      (Ok (trim_STORED_DATA12 d), (Some u', sctx', h'))"
    by (rule readsD [OF reads_STORED_DATA12 [OF assms(1), of hp], of "[]" _ "[]" None h h'])
      (use assms(4) in \<open>auto simp: hashed_def\<close>)
  with b n show ?thesis
    by (auto simp: pack_TPM_STORED_DATA12_def unpack_TPM_STORED_DATA12_def)
qed

definition sample_blob :: TPM_STORED_DATA12 where
  "sample_blob = \<lparr>sd_tag = 0x16, sd_et = 0, sealInfoSize = 2, sealInfo = [1, 2],
     encDataSize = 3, encData = [3, 4, 5]\<rparr>"

lemma sample_blob_allocates:
  "\<exists>h'. allocates 0x1000 [2, 3] small_heap h'"
proof -
  obtain h1 where 1: "alloc 0x1000 2 small_heap = (Ok 0x1008, h1)" "heap_rep h1 0x1000 [(1, True), (5, False)]"
    using alloc_first_fit [OF small_heap_rep, of 2] by auto
  obtain h2 where "alloc 0x1000 3 h1 = (Ok 0x1018, h2)"
    using alloc_first_fit [OF 1(2), of 3] by auto
  with 1 show ?thesis by auto
qed

theorem stored_data_round_trip_witness:
  "\<exists>b h'. pack_TPM_STORED_DATA12 (replicate 17 0) 17 sample_blob () = (Ok (17, b), ()) \<and>
    unpack_TPM_STORED_DATA12 0x1000 b 17 small_heap = (Ok (trim_STORED_DATA12 sample_blob), h')"
proof -
  obtain h' where "allocates 0x1000 [2, 3] small_heap h'" using sample_blob_allocates by blast
  then show ?thesis
    using stored_data_round_trip [of sample_blob "replicate 17 0" "0x1000" small_heap h' "()"]
    by (auto simp: sample_blob_def wf_STORED_DATA12_def sizeof_TPM_STORED_DATA12_def)
qed

text \<open>
  the wire format of \<open>TPM_PCR_INFO_LONG\<close>. Packing it writes the big-endian encoding of the
  TPM specification and \<open>sizeof_TPM_PCR_INFO_LONG\<close> is its length, so the size fields of a seal
  command agree with what is marshalled; unmarshalling that encoding gives the structure back.
\<close>

theorem pcr_info_round_trip:
  assumes "wf_PCR_INFO_LONG i" "length data = unat (sizeof_TPM_PCR_INFO_LONG i)"
    and "allocates hp [ucast (sizeOfSelect (creationPCRSelection i)),
                       ucast (sizeOfSelect (releasePCRSelection i))] h h'"
  shows "pack_TPM_PCR_INFO_LONG data (sizeof_TPM_PCR_INFO_LONG i) i s =
      (Ok (sizeof_TPM_PCR_INFO_LONG i, enc_PCR_INFO_LONG i), s) \<and>
    (\<exists>u'. unmarshal_TPM_PCR_INFO_LONG hp
        (Some (unpack_init (enc_PCR_INFO_LONG i) (sizeof_TPM_PCR_INFO_LONG i)), None, h) =
      (Ok (i\<lparr>creationPCRSelection := trim_SELECTION (creationPCRSelection i),
         releasePCRSelection := trim_SELECTION (releasePCRSelection i),
         digestAtCreation := take 20 (digestAtCreation i),
         digestAtRelease := take 20 (digestAtRelease i)\<rparr>), u'))"
proof -
  let ?n = "sizeof_TPM_PCR_INFO_LONG i" and ?e = "enc_PCR_INFO_LONG i"
  have len: "length ?e = unat ?n"
    using sizeof_PCR_INFO_LONG [of i] length_enc_PCR_INFO_LONG [OF assms(1)] by simp
  have n: "of_nat (length ?e) = ?n" by (simp add: len)
  obtain b where b: "pack_one data ?n (marshal_TPM_PCR_INFO_LONG i) s = (Ok (of_nat (length ?e), b), s)"
    "take (length ?e) b = ?e" "length b = length data"
    by (rule pack_one_run [OF emits_PCR_INFO_LONG [OF assms(1)], of ?n data s]) (use len assms(2) in auto)
  have "b = ?e" using b(2,3) len assms(2) by simp
  with b(1) have "pack_TPM_PCR_INFO_LONG data ?n i s = (Ok (?n, ?e), s)"
    by (simp only: pack_TPM_PCR_INFO_LONG_def n)
  moreover have "unread (?e @ []) (unpack_init ?e ?n)" using unpack_init_unread len by simp
  note reads_no_hash [OF reads_PCR_INFO_LONG [OF assms(1)] this assms(3)]
  ultimately show ?thesis by blast
qed

definition sample_pcr_info :: TPM_PCR_INFO_LONG where
  "sample_pcr_info = (let s = \<lparr>sizeOfSelect = 3, pcrSelect = [0, 0, 10]\<rparr> in
     \<lparr>pi_tag = 6, localityAtCreation = 4, localityAtRelease = 4, creationPCRSelection = s,
      releasePCRSelection = s, digestAtCreation = replicate 20 1, digestAtRelease = replicate 20 2\<rparr>)"

lemma sample_pcr_info_allocates: "\<exists>h'. allocates 0x1000 [3, 3] small_heap h'"
proof -
  obtain h1 where 1: "alloc 0x1000 3 small_heap = (Ok 0x1008, h1)" "heap_rep h1 0x1000 [(1, True), (5, False)]"
    using alloc_first_fit [OF small_heap_rep, of 3] by auto
  obtain h2 where "alloc 0x1000 3 h1 = (Ok 0x1018, h2)"
    using alloc_first_fit [OF 1(2), of 3] by auto
  with 1 show ?thesis by auto
qed

theorem pcr_info_round_trip_witness:
  "pack_TPM_PCR_INFO_LONG (replicate 54 0) 54 sample_pcr_info () = (Ok (54, enc_PCR_INFO_LONG sample_pcr_info), ())"
proof -
  obtain h' where "allocates 0x1000 [3, 3] small_heap h'" using sample_pcr_info_allocates by blast
  then show ?thesis
    using pcr_info_round_trip [of sample_pcr_info "replicate 54 0" "0x1000" small_heap h' "()"]
    by (simp add: sample_pcr_info_def Let_def wf_PCR_INFO_LONG_def wf_SELECTION_def
        sizeof_TPM_PCR_INFO_LONG_def sizeof_TPM_PCR_SELECTION_def)
qed

text \<open>
  the overflow check of the marshalling code is a 32-bit sum. A size that wraps it passes the
  check although it does not fit, and the copy that follows leaves the buffer.
\<close>

theorem marshal_check_wraps:
  "check_pack_overflow \<lparr>pack_buffer = replicate 1024 0, bytes_packed = 0x20, pack_size = 1024\<rparr> 0xfffffff0 \<and>
   fst (marshal_array data 0xfffffff0
     (Some \<lparr>pack_buffer = replicate 1024 0, bytes_packed = 0x20, pack_size = 1024\<rparr>, None)) = Stop Fault"
  by (simp add: check_pack_overflow_def marshal_array_def marshal_bytes_def hash_opt_def copy_in_def)

lemma u16_bit_high: "\<not> bit (v :: u16) (16 + n)" "\<not> bit v (24 + n)"
  using bit_imp_le_length [of v "16 + n"] bit_imp_le_length [of v "24 + n"] by auto

lemma htonl_u16_low: "le16 (ucast (htonl (ucast (v :: u16)))) = [0, 0]"
  by (auto simp: le16_def htonl_def of_be32_def le32_def bit_simps u16_bit_high intro!: bit_word_eqI)

text \<open>
  the hash-only branch of \<open>unmarshal_UINT16\<close> swaps the 16-bit value with the 32-bit \<open>htonl\<close>
  and keeps the low half, which is zero: whatever the value, it hashes two zero bytes instead of
  the value.
\<close>

theorem unmarshal_UINT16_hashes_zero:
  assumes "sha_inv m c" "length m + 2 < 2 ^ 29"
  shows "\<exists>c'. unmarshal_UINT16 v (None, Some c, h) = (Ok v, (None, Some c', h)) \<and> sha_inv (m @ [0, 0]) c'"
proof -
  obtain sctx' where "hash_only [0, 0] 2 (None, Some c, h) = (Ok (), (None, sctx', h))"
    "hashed (m @ [0, 0]) sctx'" "(sctx' = None) = (Some c = None)"
    by (rule hash_only_run [of m "Some c" "[0, 0]" 2]) (use assms in \<open>auto simp: hashed_def\<close>)
  then show ?thesis
    by (auto simp: unmarshal_UINT16_def unmarshal_bytes_def htonl_u16_low bindE_cases returnE_def hashed_def)
qed

theorem unmarshal_UINT16_hashes_zero_witness:
  "\<exists>c'. unmarshal_UINT16 0x1234 (None, Some (sha1_init sha1_ctx0), small_heap) =
      (Ok 0x1234, (None, Some c', small_heap)) \<and> sha_inv [0, 0] c'"
  using unmarshal_UINT16_hashes_zero [OF sha1_init_inv [OF sha_wf_ctx0], of "0x1234" small_heap] by simp

lemma osap_secrets_eq:
  assumes "length auth = 20" "length nonceEven = 20" "length nonceOdd = 20" "length secret = 20"
    and "hmac_wf hc" "sha_wf sc"
  shows "sharedSecret_gen hc auth nonceEven nonceOdd s = (Ok (HMAC_SHA1 auth (nonceEven @ nonceOdd)), s) \<and>
    encAuth_gen sc auth secret nonceEven s =
      (Ok (xor_bytes auth (SHA1_hash (secret @ nonceEven))), s)"
proof
  obtain c1 where c1: "hmac_init auth 20 hc = (Ok (), c1)" "hmac_inv auth [] c1"
    using hmac_init_correct [OF assms(5), of 20 auth] assms(1) by auto
  obtain c2 where c2: "hmac nonceEven 20 c1 = (Ok (), c2)" "hmac_inv auth nonceEven c2"
    using hmac_correct [OF c1(2), of 20 nonceEven] assms(2) by auto
  obtain c3 where c3: "hmac nonceOdd 20 c2 = (Ok (), c3)" "hmac_inv auth (nonceEven @ nonceOdd) c3"
    using hmac_correct [OF c2(2), of 20 nonceOdd] assms(2,3) by auto
  show "sharedSecret_gen hc auth nonceEven nonceOdd s = (Ok (HMAC_SHA1 auth (nonceEven @ nonceOdd)), s)"
    using hmac_finish_correct [OF c3(2)] c1 c2 c3
    by (auto simp: sharedSecret_gen_def with_local_def bindE_def resultE_def getE_def)
  obtain d1 where d1: "sha1 secret 20 (sha1_init sc) = (Ok (), d1)" "sha_inv secret d1"
    using sha.hash_prefix [OF assms(6), of 20 secret] assms(4) by auto
  obtain d2 where d2: "sha1 nonceEven 20 d1 = (Ok (), d2)" "sha_inv (secret @ nonceEven) d2"
    using sha.upd_inv [OF d1(2), of 20 nonceEven] assms(2,4) by auto
  show "encAuth_gen sc auth secret nonceEven s = (Ok (xor_bytes auth (SHA1_hash (secret @ nonceEven))), s)"
    using sha.finish_hash [OF d2(2)] d1 d2
    by (simp add: encAuth_gen_def with_local_def bindE_def resultE_def getE_def modifyE_def)
qed

text \<open>
  C39: the OSAP secrets. \<open>sharedSecret_gen\<close> is the HMAC of the two OSAP nonces under the entity's
  authorisation, and \<open>encAuth_gen\<close> masks the new authorisation with the hash of the shared
  secret and the even nonce, as the TPM 1.2 protocol prescribes, whatever the uninitialised
  stack contexts hold.
\<close>

theorem osap_secrets:
  assumes "length auth = 20" "length nonceEven = 20" "length nonceOdd = 20" "length secret = 20"
    and "hmac_wf hc" "sha_wf sc"
  shows "sharedSecret_gen hc auth nonceEven nonceOdd s = (Ok (HMAC_SHA1 auth (nonceEven @ nonceOdd)), s) \<and>
    encAuth_gen sc auth secret nonceEven s =
      (Ok (xor_bytes auth (SHA1_hash (secret @ nonceEven))), s)"
  by (rule osap_secrets_eq [OF assms])

theorem osap_secrets_witness:
  "sharedSecret_gen hmac_ctx0 (replicate 20 1) (replicate 20 2) (replicate 20 3) () =
     (Ok (HMAC_SHA1 (replicate 20 1) (replicate 20 2 @ replicate 20 3)), ())"
  using osap_secrets [of "replicate 20 1" "replicate 20 2" "replicate 20 3" "replicate 20 4" hmac_ctx0 sha1_ctx0 "()"]
  by (simp add: hmac_wf_def hmac_ctx0_def)

lemma composite_hash_eq:
  assumes "wf_SELECTION (pc_select c)" "unat (pc_valueSize c) \<le> length (pc_pcrValue c)"
    and "length (enc_SELECTION (pc_select c)) + 4 + unat (pc_valueSize c) < 2 ^ 29" "sha_wf sc"
  shows "get_TPM_COMPOSITE_HASH sc c s = (Ok (SHA1_hash (enc_SELECTION (pc_select c) @
     be32 (pc_valueSize c) @ take (unat (pc_valueSize c)) (pc_pcrValue c))), s)"
proof -
  let ?m = "bindE (marshal_TPM_PCR_SELECTION (pc_select c)) (\<lambda>_. bindE (marshal_UINT32 (pc_valueSize c))
      (\<lambda>_. marshal_array (pc_pcrValue c) (pc_valueSize c)))"
  let ?e = "enc_SELECTION (pc_select c) @ be32 (pc_valueSize c) @ take (unat (pc_valueSize c)) (pc_pcrValue c)"
  have em: "emits ?m ?e" using assms(1,2) by (intro emits_bindE emits_SELECTION emits_UINT emits_array)
  obtain ctx' sctx' where r: "?m (None, Some (sha1_init sc)) = (Ok (), (ctx', sctx'))" "hashed ([] @ ?e) sctx'"
    "(sctx' = None) = (Some (sha1_init sc) = None)"
    by (rule emitsD [OF em, of "[]" None "[]" "Some (sha1_init sc)"])
      (use assms sha1_init_inv in \<open>auto simp: packed_def hashed_def\<close>)
  then obtain d where "sctx' = Some d" "sha_inv ?e d" by (auto simp: hashed_def)
  with r sha.finish_hash [of ?e d] show ?thesis
    by (auto simp: get_TPM_COMPOSITE_HASH_def with_local_def bindE_assoc [symmetric] bindE_cases getE_def)
qed

text \<open>
  \<open>get_TPM_COMPOSITE_HASH\<close> is the SHA-1 of the PCR selection, the size of the values in
  big-endian and the values.
\<close>

theorem composite_hash:
  assumes "wf_SELECTION (pc_select c)" "unat (pc_valueSize c) \<le> length (pc_pcrValue c)"
    and "length (enc_SELECTION (pc_select c)) + 4 + unat (pc_valueSize c) < 2 ^ 29" "sha_wf sc"
  shows "get_TPM_COMPOSITE_HASH sc c s = (Ok (SHA1_hash (enc_SELECTION (pc_select c) @
     be32 (pc_valueSize c) @ take (unat (pc_valueSize c)) (pc_pcrValue c))), s)"
  by (rule composite_hash_eq [OF assms])

theorem composite_hash_witness:
  "get_TPM_COMPOSITE_HASH sha1_ctx0 \<lparr>pc_select = \<lparr>sizeOfSelect = 1, pcrSelect = [8]\<rparr>, pc_valueSize = 2,
      pc_pcrValue = [1, 2]\<rparr> () = (Ok (SHA1_hash [0, 1, 8, 0, 0, 0, 2, 1, 2]), ())"
  using composite_hash [of "\<lparr>pc_select = \<lparr>sizeOfSelect = 1, pcrSelect = [8]\<rparr>, pc_valueSize = 2,
      pc_pcrValue = [1, 2]\<rparr>" sha1_ctx0 "()"]
  by (simp add: wf_SELECTION_def enc_SELECTION_def be16_def be32_def)

end
