(* ===== verification/Util_Text.thy ===== *)
theory Util_Text
  imports Exceptions
begin

text \<open>
  The text output and the command-line helpers of \<^verbatim>\<open>src/util.c\<close>. The state of the output is the
  static column of \<open>out_char\<close> and the 25 by 80 cells of the VGA text memory at \<open>0xb8000\<close>.
  Strings are byte lists with their terminating zero inside; reading behind the list is a fault.
\<close>

record screen =
  scr_col :: u32
  scr_cells :: "u16 list"

section \<open>Characters and strings\<close>

text \<open>
  \<open>BASE(24) + col\<close>: the cell index of a column of the last row, in 32-bit pointer arithmetic
  (so that the column \<open>-1\<close> is the last cell of row 23).
\<close>

definition last_row :: "u32 \<Rightarrow> nat" where
  "last_row col = unat (1920 + col)"

definition scroll :: "u16 list \<Rightarrow> u16 list" where
  "scroll cells = drop 80 cells @ replicate 80 0"

definition put_cell :: "u32 \<Rightarrow> u16 \<Rightarrow> (screen, unit) exec" where
  "put_cell col v s =
     (if last_row col < length (scr_cells s)
      then (Ok (), s\<lparr>scr_cells := (scr_cells s)[last_row col := v]\<rparr>) else (Stop Fault, s))"

definition out_char :: "u32 \<Rightarrow> (screen, u32) exec" where
  "out_char val =
     bindE (if val \<noteq> 0x0a
            then if val = 0x08
                 then bindE (modifyE (\<lambda>s. s\<lparr>scr_col := scr_col s - 1\<rparr>)) (\<lambda>_.
                      bindE (getE scr_col) (\<lambda>col. put_cell col (0x0f00 OR 0x20)))
                 else bindE (getE scr_col) (\<lambda>col.
                      bindE (put_cell col (ucast (0x0f00 OR val))) (\<lambda>_.
                      modifyE (\<lambda>s. s\<lparr>scr_col := scr_col s + 1\<rparr>)))
            else returnE ()) (\<lambda>_.
     bindE (modifyE (\<lambda>s. if scr_col s \<ge> 80 \<or> val = 0x0a
              then s\<lparr>scr_col := 0, scr_cells := scroll (scr_cells s)\<rparr> else s)) (\<lambda>_.
     returnE val))"

text \<open>A \<open>char\<close> is signed: \<open>out_char(*value)\<close> passes it sign-extended.\<close>

fun out_string :: "bytes \<Rightarrow> (screen, unit) exec" where
  "out_string [] = stopE Fault"
| "out_string (c # cs) =
     (if c = 0 then returnE () else bindE (out_char (scast c)) (\<lambda>_. out_string cs))"

primrec out_chars :: "u32 list \<Rightarrow> (screen, unit) exec" where
  "out_chars [] = returnE ()"
| "out_chars (c # cs) = bindE (out_char c) (\<lambda>_. out_chars cs)"

text \<open>The digit for four bits, and the digits of a value from bit \<open>4 * n\<close> down to bit 0.\<close>

definition hex_char :: "u32 \<Rightarrow> u32" where
  "hex_char a = (let a = a AND 0xf in (if a \<ge> 10 then a + 7 else a) + 0x30)"

primrec hex_digits :: "u32 \<Rightarrow> nat \<Rightarrow> u32 list" where
  "hex_digits v 0 = [hex_char v]"
| "hex_digits v (Suc n) = hex_char (drop_bit (4 * Suc n) v) # hex_digits v n"

text \<open>\<open>bsr\<close>: the index of the highest set bit of a non-zero word.\<close>

definition bsr :: "u32 \<Rightarrow> nat" where
  "bsr v = (case filter (\<lambda>i. bit v i) (rev [0..<32]) of i # _ \<Rightarrow> i | [] \<Rightarrow> 0)"

text \<open>\<open>i = bsr(value | 1 << bitlen) & 0xfc\<close> is four times the number of the first digit.\<close>

definition out_hex :: "u32 \<Rightarrow> nat \<Rightarrow> (screen, unit) exec" where
  "out_hex v bitlen = out_chars (hex_digits v (bsr (v OR push_bit bitlen 1) div 4))"

primrec hex_digits64 :: "u64 \<Rightarrow> nat \<Rightarrow> u32 list" where
  "hex_digits64 v 0 = [hex_char (ucast v)]"
| "hex_digits64 v (Suc n) = hex_char (ucast (drop_bit (4 * Suc n) v)) # hex_digits64 v n"

definition out_hex64 :: "u64 \<Rightarrow> (screen, unit) exec" where
  "out_hex64 v = out_chars (hex_digits64 v 15)"

primrec hex_dump_loop :: "nat \<Rightarrow> bytes \<Rightarrow> (screen, unit) exec" where
  "hex_dump_loop i [] = returnE ()"
| "hex_dump_loop i (b # bs) =
     bindE (if i mod 16 = 0 then bindE (out_char 0x0a) (\<lambda>_. returnE ())
            else if i mod 4 = 0 then bindE (out_char 0x20) (\<lambda>_. returnE ()) else returnE ()) (\<lambda>_.
     bindE (out_hex (ucast b) 7) (\<lambda>_. hex_dump_loop (i + 1) bs))"

definition hex_dump :: "bytes \<Rightarrow> (screen, unit) exec" where
  "hex_dump bs = bindE (hex_dump_loop 0 bs) (\<lambda>_. bindE (out_char 0x0a) (\<lambda>_. returnE ()))"

definition str :: "string \<Rightarrow> bytes" where
  "str s = map (\<lambda>c. of_nat (of_char c)) s @ [0]"

definition message_label :: bytes where
  "message_label = str ''SABLE:   ''"

definition out_description :: "bytes \<Rightarrow> u32 \<Rightarrow> (screen, unit) exec" where
  "out_description prefix v =
     bindE (out_string message_label) (\<lambda>_. bindE (out_string prefix) (\<lambda>_.
     bindE (out_string (str '': 0x'')) (\<lambda>_. bindE (out_hex v 0) (\<lambda>_.
     bindE (out_char 0x0a) (\<lambda>_. returnE ())))))"

definition out_description64 :: "bytes \<Rightarrow> u64 \<Rightarrow> (screen, unit) exec" where
  "out_description64 prefix v =
     bindE (out_string message_label) (\<lambda>_. bindE (out_string prefix) (\<lambda>_.
     bindE (out_string (str '': 0x'')) (\<lambda>_. bindE (out_hex64 v) (\<lambda>_.
     bindE (out_char 0x0a) (\<lambda>_. returnE ())))))"

definition out_info :: "bytes \<Rightarrow> (screen, unit) exec" where
  "out_info msg =
     bindE (out_string message_label) (\<lambda>_. bindE (out_string msg) (\<lambda>_.
     bindE (out_char 0x0a) (\<lambda>_. returnE ())))"

primrec out_hex_bytes :: "bytes \<Rightarrow> (screen, unit) exec" where
  "out_hex_bytes [] = returnE ()"
| "out_hex_bytes (b # bs) = bindE (out_hex (ucast b) 7) (\<lambda>_. out_hex_bytes bs)"

definition show_hash :: "bytes \<Rightarrow> bytes \<Rightarrow> (screen, unit) exec" where
  "show_hash s hash =
     bindE (out_string message_label) (\<lambda>_. bindE (out_string s) (\<lambda>_.
     bindE (out_hex_bytes (take 20 hash)) (\<lambda>_. bindE (out_char 0x0a) (\<lambda>_. returnE ()))))"

section \<open>Command-line helpers\<close>

text \<open>
  The inner loop of \<open>indexOf\<close>, from position \<open>i\<close> of \<open>str\<close> and \<open>j\<close> of \<open>sub\<close>: the substring ends
  here (\<open>True\<close>), or a mismatch or the end of \<open>str\<close> was met at the position returned. Reading
  behind one of the two arrays gives \<open>None\<close>.
\<close>

function index_inner :: "bytes \<Rightarrow> bytes \<Rightarrow> nat \<Rightarrow> nat \<Rightarrow> (bool \<times> nat) option" where
  "index_inner sub strg i j =
     (if i \<ge> length strg then None
      else if strg ! i = 0 then Some (False, i)
      else if j \<ge> length sub then None
      else if sub ! j = strg ! i
      then if j + 1 \<ge> length sub then None
           else if sub ! (j + 1) = 0 then Some (True, i) else index_inner sub strg (i + 1) (j + 1)
      else Some (False, i))"
  by pat_completeness auto
termination by (relation "measure (\<lambda>(sub, strg, i, j). length strg - i)") auto

declare index_inner.simps [simp del]

lemma index_inner_le: "index_inner sub strg i j = Some (b, i') \<Longrightarrow> i \<le> i'"
proof (induction sub strg i j rule: index_inner.induct)
  case (1 sub strg i j)
  then show ?case by (subst (asm) index_inner.simps) (auto split: if_splits dest: Suc_leD)
qed

text \<open>The outer loop goes on behind the position where the inner loop stopped.\<close>

function index_outer :: "bytes \<Rightarrow> bytes \<Rightarrow> nat \<Rightarrow> int option" where
  "index_outer sub strg i =
     (if i \<ge> length strg then None
      else if strg ! i = 0 then Some (- 1)
      else case index_inner sub strg i 0 of
             None \<Rightarrow> None
           | Some (found, i') \<Rightarrow> if found then Some (int i) else index_outer sub strg (i' + 1))"
  by pat_completeness auto
termination
proof (relation "measure (\<lambda>(sub, strg, i). length strg - i)", goal_cases)
  case (2 sub strg i r found i')
  then have "i \<le> i'" using index_inner_le by metis
  with 2 show ?case by simp
qed simp

declare index_outer.simps [simp del]

definition indexOf :: "bytes \<Rightarrow> bytes \<Rightarrow> int option" where
  "indexOf sub strg = index_outer sub strg 0"

fun strLen :: "bytes \<Rightarrow> nat option" where
  "strLen [] = None"
| "strLen (c # cs) = (if c \<noteq> 0 then map_option Suc (strLen cs) else Some 0)"

text \<open>The result is the rest of the command line from the value on.\<close>

definition cmdlineArgVal :: "bytes \<Rightarrow> bytes \<Rightarrow> ('s, bytes) exec" where
  "cmdlineArgVal cmdline cmdlineArg =
     (case indexOf cmdlineArg cmdline of
        None \<Rightarrow> stopE Fault
      | Some index \<Rightarrow>
          bindE (ASSERT (index \<noteq> - 1)) (\<lambda>_.
          case strLen cmdlineArg of
            None \<Rightarrow> stopE Fault
          | Some n \<Rightarrow> returnE (drop (nat index + n) cmdline)))"

text \<open>The signed result of \<open>aToI\<close> is kept as the 32-bit word that represents it.\<close>

fun aToI_loop :: "u32 \<Rightarrow> bytes \<Rightarrow> u32 option" where
  "aToI_loop ret [] = None"
| "aToI_loop ret (c # cs) =
     (if c \<noteq> 0 \<and> c \<noteq> 0x20 then aToI_loop (ret * 10 + (scast c - 0x30)) cs else Some ret)"

definition aToI :: "bytes \<Rightarrow> u32 option" where
  "aToI strg = aToI_loop 0 strg"

section \<open>Lemmas\<close>

definition screen_ok :: "screen \<Rightarrow> bool" where
  "screen_ok s \<longleftrightarrow> scr_col s < 80 \<and> length (scr_cells s) = 2000"

text \<open>Total correctness of a step on the screen: it returns and keeps the invariant.\<close>

definition prints :: "(screen, 'a) exec \<Rightarrow> bool" where
  "prints m \<longleftrightarrow> (\<forall>s. screen_ok s \<longrightarrow> (\<exists>a s'. m s = (Ok a, s') \<and> screen_ok s'))"

lemma prints_returnE [intro!]: "prints (returnE a)"
  by (simp add: prints_def returnE_def)

lemma prints_bindE [intro]: "prints m \<Longrightarrow> (\<And>a. prints (k a)) \<Longrightarrow> prints (bindE m k)"
  unfolding prints_def by (metis bindE_cases(1))

lemma last_row_less: "col < 80 \<Longrightarrow> last_row col < 2000"
proof -
  assume "col < 80"
  then have "unat col < 80" by (simp add: word_less_nat_alt)
  then show ?thesis unfolding last_row_def by (subst unat_add_lem [THEN iffD1]) simp_all
qed

lemma prints_out_char [intro]: "prints (out_char v)"
  unfolding prints_def
proof (intro allI impI)
  fix s assume s: "screen_ok s"
  have bck: "last_row (scr_col s - 1) < 2000"
  proof (cases "scr_col s = 0")
    case True
    then show ?thesis by (simp add: last_row_def)
  next
    case False
    then have "scr_col s - 1 < 80"
      using s word_less_sub1 [of "scr_col s"] by (auto simp: screen_ok_def word_less_nat_alt unat_minus_one)
    then show ?thesis by (rule last_row_less)
  qed
  have fwd: "last_row (scr_col s) < 2000" using s by (auto simp: screen_ok_def last_row_less)
  show "\<exists>a s'. out_char v s = (Ok a, s') \<and> screen_ok s'"
    using s bck fwd
    by (auto simp: out_char_def put_cell_def bindE_def modifyE_def getE_def returnE_def screen_ok_def
        scroll_def word_less_nat_alt word_le_nat_alt not_le)
qed

lemma prints_out_chars [intro]: "prints (out_chars cs)"
  by (induction cs) auto

lemma prints_out_string [intro]: "0 \<in> set cs \<Longrightarrow> prints (out_string cs)"
  by (induction cs) auto

lemma prints_out_hex [intro]: "prints (out_hex v n)"
  by (auto simp: out_hex_def)

lemma prints_hex_dump_loop [intro]: "prints (hex_dump_loop i bs)"
  by (induction bs arbitrary: i) auto

lemma prints_out_hex_bytes [intro]: "prints (out_hex_bytes bs)"
  by (induction bs) auto

lemma zero_in_str [simp]: "0 \<in> set (str s)" "0 \<in> set message_label"
  by (simp_all add: str_def message_label_def)

text \<open>Reading a digit string back.\<close>

definition unhex :: "u32 \<Rightarrow> nat" where
  "unhex c = (if c \<ge> 0x41 then unat (c - 0x37) else unat (c - 0x30))"

definition hex_value :: "u32 list \<Rightarrow> nat" where
  "hex_value cs = foldl (\<lambda>n c. 16 * n + unhex c) 0 cs"

lemma nibble_cases: "(a :: u32) AND 0xf \<in> {0, 1, 2, 3, 4, 5, 6, 7, 8, 9, 10, 11, 12, 13, 14, 15}"
proof -
  have "unat (a AND 0xf) \<le> 15" using word_and_le1 [of a "0xf"] by (simp add: word_le_nat_alt)
  then show ?thesis unfolding insert_iff word_unat_eq_iff by simp arith
qed

lemma unhex_hex_char: "unhex (hex_char a) = unat (a AND 0xf)"
  using nibble_cases [of a] by (auto simp: unhex_def hex_char_def Let_def word_le_nat_alt)

lemma and_15: "unat ((a :: u32) AND 0xf) = unat a mod 16"
proof -
  have "a AND 0xf = a mod 16" using take_bit_eq_mask [of 4 a] take_bit_eq_mod [of 4 a]
    by (simp add: mask_eq_exp_minus_1)
  then show ?thesis by (simp add: unat_mod)
qed

lemma unat_drop_bit_u32: "unat (drop_bit n (v :: u32)) = unat v div 2 ^ n"
  by (simp only: unat_drop_bit_eq) (simp only: drop_bit_eq_div)

lemma foldl_hex: "foldl (\<lambda>n c. 16 * n + unhex c) k (hex_digits v n) =
  k * 16 ^ Suc n + unat v mod 16 ^ Suc n"
proof (induction n arbitrary: k)
  case 0
  show ?case by (simp add: unhex_hex_char and_15)
next
  case (Suc n)
  have e: "(2::nat) ^ (4 * Suc n) = 16 ^ Suc n" using power_mult [of "2::nat" 4 "Suc n"] by simp
  have "unhex (hex_char (drop_bit (4 * Suc n) v)) = unat v div 16 ^ Suc n mod 16"
    by (simp only: unhex_hex_char and_15 unat_drop_bit_u32 e)
  then have "foldl (\<lambda>n c. 16 * n + unhex c) k (hex_digits v (Suc n)) =
      (16 * k + unat v div 16 ^ Suc n mod 16) * 16 ^ Suc n + unat v mod 16 ^ Suc n"
    using Suc by simp
  moreover have "unat v mod 16 ^ Suc (Suc n) = unat v div 16 ^ Suc n mod 16 * 16 ^ Suc n + unat v mod 16 ^ Suc n"
    using mod_mult2_eq [of "unat v" "16 ^ Suc n" 16] by (simp add: mult.commute)
  ultimately show ?case by (simp add: algebra_simps)
qed

lemma filter_rev_upt_eq:
  assumes "filter P (rev [0..<n]) = i # xs"
  shows "P i \<and> (\<forall>j < n. P j \<longrightarrow> j \<le> i)"
  using assms
proof (induction n)
  case (Suc n)
  then show ?case by (cases "P n") (auto simp: less_Suc_eq)
qed simp

lemma less_bsr: "unat v < 2 ^ (bsr (v OR w) + 1)"
proof -
  let ?f = "filter (\<lambda>i. bit (v OR w) i) (rev [0..<32])"
  have le: "j \<le> bsr (v OR w)" if "bit v j" for j
  proof -
    have j: "j < 32" "bit (v OR w) j" using that bit_imp_le_length [OF that] by (auto simp: bit_or_iff)
    then have "j \<in> set ?f" by simp
    then obtain i xs where "?f = i # xs" by (cases ?f) auto
    then show ?thesis using filter_rev_upt_eq [of "\<lambda>i. bit (v OR w) i" 32 i xs] j by (auto simp: bsr_def)
  qed
  let ?n = "bsr (v OR w) + 1"
  have "take_bit ?n v = v"
    by (rule bit_word_eqI) (use le in \<open>force simp: bit_take_bit_iff less_Suc_eq_le\<close>)
  then have "unat v = take_bit ?n (unat v)" by (metis unsigned_take_bit_eq)
  then show ?thesis using take_bit_nat_less_exp [of ?n "unat v"] by simp
qed

lemma index_inner_found:
  "index_inner sub strg i j = Some (True, i') \<Longrightarrow>
   \<exists>n. j < n \<and> n < length sub \<and> sub ! n = 0 \<and> i + (n - j) \<le> length strg \<and>
     (\<forall>k. j < k \<longrightarrow> k < n \<longrightarrow> sub ! k \<noteq> 0) \<and> (\<forall>k. j \<le> k \<longrightarrow> k < n \<longrightarrow> strg ! (i + (k - j)) = sub ! k)"
proof (induction sub strg i j rule: index_inner.induct)
  case (1 sub strg i j)
  from 1(2) have c: "i < length strg" "strg ! i \<noteq> 0" "j < length sub" "sub ! j = strg ! i"
    "j + 1 < length sub" by (subst (asm) index_inner.simps, simp split: if_splits)+
  show ?case
  proof (cases "sub ! (j + 1) = 0")
    case True
    then show ?thesis using c by (intro exI [of _ "j + 1"]) (auto simp: le_less_Suc_eq)
  next
    case False
    with 1(2) c have "index_inner sub strg (i + 1) (j + 1) = Some (True, i')"
      by (subst (asm) index_inner.simps) simp
    with 1(1) c False obtain n where n: "j + 1 < n" "n < length sub" "sub ! n = 0"
      "i + 1 + (n - (j + 1)) \<le> length strg" "\<forall>k. j + 1 < k \<longrightarrow> k < n \<longrightarrow> sub ! k \<noteq> 0"
      "\<forall>k. j + 1 \<le> k \<longrightarrow> k < n \<longrightarrow> strg ! (i + 1 + (k - (j + 1))) = sub ! k" by auto
    have "strg ! (i + (k - j)) = sub ! k" if "j \<le> k" "k < n" for k
    proof (cases "k = j")
      case False
      then have "j + 1 \<le> k" "i + (k - j) = i + 1 + (k - (j + 1))" using that by auto
      with n(6) that(2) show ?thesis by simp
    qed (use c(4) in simp)
    moreover have "sub ! k \<noteq> 0" if "j < k" "k < n" for k
      using n(5) that False by (cases "k = j + 1") auto
    ultimately show ?thesis using n by (intro exI [of _ n]) auto
  qed
qed

section \<open>Properties\<close>

text \<open>
  C37: output never leaves the screen. Every output routine, on every value, string, dump or
  digest and from every column (a backspace in column 0 included), returns with the column below
  80 and all stores inside the 2000 cells.
\<close>

theorem output_stays_on_screen:
  assumes "0 \<in> set msg"
  shows "prints (out_char c) \<and> prints (out_string msg) \<and> prints (out_hex v n) \<and>
    prints (out_hex64 w) \<and> prints (hex_dump bs) \<and> prints (out_description msg v) \<and>
    prints (out_description64 msg w) \<and> prints (out_info msg) \<and> prints (show_hash msg bs)"
  unfolding hex_dump_def out_description_def out_description64_def out_info_def show_hash_def out_hex64_def
  by (intro conjI prints_bindE prints_out_char prints_out_string prints_out_hex prints_out_chars
      prints_hex_dump_loop prints_out_hex_bytes prints_returnE) (simp_all add: assms)

theorem output_stays_on_screen_witness:
  "prints (out_info (str ''ok'')) \<and> prints (show_hash (str ''ok'') (replicate 20 7))"
  using output_stays_on_screen [of "str ''ok''" 0 0 0 0 "replicate 20 7"] by simp

text \<open>
  \<open>out_hex\<close> prints the value: read back as a hexadecimal number, the digits it writes are the
  value, whatever minimum width was asked for.
\<close>

theorem out_hex_round_trip:
  "\<exists>cs. out_hex v bitlen = out_chars cs \<and> hex_value cs = unat v"
proof -
  let ?b = "bsr (v OR push_bit bitlen 1)"
  have "(2::nat) ^ (?b + 1) \<le> 2 ^ (4 * Suc (?b div 4))"
    by (rule power_increasing) (use mult_div_mod_eq [of 4 ?b] in auto)
  with less_bsr [of v "push_bit bitlen 1"] have "unat v < 16 ^ Suc (?b div 4)"
    using power_mult [of "2::nat" 4 "Suc (?b div 4)"] by simp
  then have "hex_value (hex_digits v (?b div 4)) = unat v"
    using foldl_hex [of 0 v "?b div 4"] by (simp add: hex_value_def)
  then show ?thesis by (auto simp: out_hex_def)
qed

text \<open>
  \<open>indexOf\<close> is sound. An index it returns is one at which the whole substring, up to its
  terminating zero, stands in the string.
\<close>

theorem indexOf_sound:
  assumes "indexOf sub strg = Some (int k)"
  shows "\<exists>n < length sub. sub ! n = 0 \<and> k + n \<le> length strg \<and> slice strg k n = take n sub"
proof -
  have "\<exists>n < length sub. sub ! n = 0 \<and> k + n \<le> length strg \<and> slice strg k n = take n sub"
    if "index_outer sub strg i = Some (int k)" for i
    using that
  proof (induction sub strg i rule: index_outer.induct)
    case (1 sub strg i)
    from 1(2) have c: "i < length strg" "strg ! i \<noteq> 0"
      by (subst (asm) index_outer.simps, simp split: if_splits)+
    from 1(2) c obtain found i' where r: "index_inner sub strg i 0 = Some (found, i')"
      by (subst (asm) index_outer.simps) (auto split: option.splits)
    show ?case
    proof (cases found)
      case True
      with 1(2) c r have "k = i" by (subst (asm) index_outer.simps) simp
      from index_inner_found [of sub strg i 0 i'] r True obtain n where
        "n < length sub" "sub ! n = 0" "i + n \<le> length strg" "\<forall>k < n. strg ! (i + k) = sub ! k" by auto
      with \<open>k = i\<close> show ?thesis by (intro exI [of _ n]) (auto intro!: nth_equalityI)
    next
      case False
      with 1(2) c r have "index_outer sub strg (i' + 1) = Some (int k)"
        by (subst (asm) index_outer.simps) simp
      with 1(1) [OF _ _ r refl False] c show ?thesis by simp
    qed
  qed
  with assms show ?thesis by (auto simp: indexOf_def)
qed

theorem indexOf_sound_witness:
  "indexOf (str ''k='') (str ''a k=7'') = Some (int 2) \<and>
   (\<exists>n < length (str ''k=''). str ''k='' ! n = 0 \<and> 2 + n \<le> length (str ''a k=7'') \<and>
      slice (str ''a k=7'') 2 n = take n (str ''k=''))"
proof -
  have i: "indexOf (str ''k='') (str ''a k=7'') = Some (int 2)" by code_simp
  from i indexOf_sound [OF this] show ?thesis by simp
qed

text \<open>
  \<open>indexOf\<close> is not complete, and not safe. After a partial match the search goes on behind the
  mismatch, so it misses the occurrence of \<open>ab\<close> in \<open>aab\<close>; and when the string ends inside a
  partial match, as \<open>ab\<close> does for \<open>abc\<close>, it skips the terminating zero and reads behind it.
\<close>

theorem indexOf_misses:
  "indexOf (str ''ab'') (str ''aab'') = Some (- 1) \<and> indexOf (str ''abc'') (str ''ab'') = None"
  by (rule conjI; code_simp)

end
