(* ===== verification/Util_Mem.thy ===== *)
theory Util_Mem
  imports Exceptions
begin

text \<open>
  The memory routines of \<^verbatim>\<open>src/util.c\<close> on a flat 32-bit memory, so that overlapping and
  aliasing arguments are modelled as they are: both versions of \<open>memcpy\<close> (AMD and Intel
  builds), \<open>memset\<close>, \<open>memcmp\<close>, \<open>do_xor\<close>, \<open>pad\<close>, \<open>strncpy\<close>, \<open>strlen\<close> and \<open>nextln\<close>.
\<close>

type_synonym mem = "u32 \<Rightarrow> u8"

text \<open>The bytes at an address.\<close>

definition bytes_at :: "mem \<Rightarrow> u32 \<Rightarrow> nat \<Rightarrow> bytes" where
  "bytes_at m a n = map (\<lambda>i. m (a + of_nat i)) [0..<n]"

section \<open>memcpy\<close>

text \<open>\<open>while (len--) *(dp++) = *(sp++);\<close>\<close>

primrec copy_fwd :: "nat \<Rightarrow> u32 \<Rightarrow> u32 \<Rightarrow> mem \<Rightarrow> mem" where
  "copy_fwd 0 dp sp m = m"
| "copy_fwd (Suc n) dp sp m = copy_fwd n (dp + 1) (sp + 1) (m(dp := m sp))"

definition memcpy_amd :: "u32 \<Rightarrow> u32 \<Rightarrow> u32 \<Rightarrow> mem \<Rightarrow> mem" where
  "memcpy_amd dest src len m = copy_fwd (unat len) dest src m"

text \<open>The four loops of the Intel version: by bytes and by words, upwards and downwards.\<close>

definition copy_word :: "u32 \<Rightarrow> u32 \<Rightarrow> mem \<Rightarrow> mem" where
  "copy_word dst src m =
     m(dst := m src, dst + 1 := m (src + 1), dst + 2 := m (src + 2), dst + 3 := m (src + 3))"

primrec copy_words_fwd :: "nat \<Rightarrow> u32 \<Rightarrow> u32 \<Rightarrow> mem \<Rightarrow> mem" where
  "copy_words_fwd 0 dst src m = m"
| "copy_words_fwd (Suc t) dst src m = copy_words_fwd t (dst + 4) (src + 4) (copy_word dst src m)"

primrec copy_bwd :: "nat \<Rightarrow> u32 \<Rightarrow> u32 \<Rightarrow> mem \<Rightarrow> mem" where
  "copy_bwd 0 dst src m = m"
| "copy_bwd (Suc t) dst src m = copy_bwd t (dst - 1) (src - 1) (m(dst - 1 := m (src - 1)))"

primrec copy_words_bwd :: "nat \<Rightarrow> u32 \<Rightarrow> u32 \<Rightarrow> mem \<Rightarrow> mem" where
  "copy_words_bwd 0 dst src m = m"
| "copy_words_bwd (Suc t) dst src m =
     copy_words_bwd t (dst - 4) (src - 4) (copy_word (dst - 4) (src - 4) m)"

text \<open>The number of bytes copied one by one to align both pointers (0 when they are aligned).\<close>

definition align_fwd :: "u32 \<Rightarrow> u32 \<Rightarrow> u32 \<Rightarrow> u32" where
  "align_fwd dst src len =
     (if (src OR dst) AND 3 \<noteq> 0
      then if (src XOR dst) AND 3 \<noteq> 0 \<or> len < 4 then len else 4 - (src AND 3)
      else 0)"

definition align_bwd :: "u32 \<Rightarrow> u32 \<Rightarrow> u32 \<Rightarrow> u32" where
  "align_bwd dst src len =
     (if (src OR dst) AND 3 \<noteq> 0
      then if (src XOR dst) AND 3 \<noteq> 0 \<or> len \<le> 4 then len else src AND 3
      else 0)"

definition memcpy_intel :: "u32 \<Rightarrow> u32 \<Rightarrow> u32 \<Rightarrow> mem \<Rightarrow> mem" where
  "memcpy_intel dst src len m =
     (if len = 0 \<or> dst = src then m
      else if dst < src
      then let t = align_fwd dst src len;
               m = copy_fwd (unat t) dst src m;
               dst = dst + t; src = src + t; len = len - t;
               w = len div 4;
               m = copy_words_fwd (unat w) dst src m;
               dst = dst + 4 * w; src = src + 4 * w
           in copy_fwd (unat (len AND 3)) dst src m
      else let src = src + len; dst = dst + len;
               t = align_bwd dst src len;
               m = copy_bwd (unat t) dst src m;
               dst = dst - t; src = src - t; len = len - t;
               w = len div 4;
               m = copy_words_bwd (unat w) dst src m;
               dst = dst - 4 * w; src = src - 4 * w
           in copy_bwd (unat (len AND 3)) dst src m)"

section \<open>The other routines\<close>

primrec memset_loop :: "nat \<Rightarrow> u32 \<Rightarrow> u8 \<Rightarrow> mem \<Rightarrow> mem" where
  "memset_loop 0 p c m = m"
| "memset_loop (Suc n) p c m = memset_loop n (p + 1) c (m(p := c))"

definition memset :: "u32 \<Rightarrow> u8 \<Rightarrow> u32 \<Rightarrow> mem \<Rightarrow> mem" where
  "memset s c len m = memset_loop (unat len) s c m"

text \<open>\<open>outsize - insize\<close> is an \<open>int\<close> that the call converts to \<open>UINT32\<close>.\<close>

definition pad :: "u32 \<Rightarrow> u8 \<Rightarrow> u8 \<Rightarrow> u8 \<Rightarrow> mem \<Rightarrow> mem" where
  "pad inp val insize outsize m =
     memset (inp + ucast insize) val (ucast outsize - ucast insize) m"

definition xor_step :: "u32 \<Rightarrow> u32 \<Rightarrow> u32 \<Rightarrow> nat \<Rightarrow> mem \<Rightarrow> mem" where
  "xor_step in1 in2 out i m = m(out + of_nat i := m (in1 + of_nat i) XOR m (in2 + of_nat i))"

definition do_xor :: "u32 \<Rightarrow> u32 \<Rightarrow> u32 \<Rightarrow> u32 \<Rightarrow> mem \<Rightarrow> mem" where
  "do_xor in1 in2 out sz m = fold (xor_step in1 in2 out) [0..<unat sz] m"

text \<open>The index at which the loop of \<open>memcmp\<close> stops.\<close>

function memcmp_loop :: "mem \<Rightarrow> u32 \<Rightarrow> u32 \<Rightarrow> nat \<Rightarrow> nat \<Rightarrow> nat" where
  "memcmp_loop m buf1 buf2 sz i =
     (if i < sz then if m (buf1 + of_nat i) \<noteq> m (buf2 + of_nat i) then i
                     else memcmp_loop m buf1 buf2 sz (i + 1)
      else i)"
  by pat_completeness auto
termination by (relation "measure (\<lambda>(m, buf1, buf2, sz, i). sz - i)") auto

declare memcmp_loop.simps [simp del]

definition memcmp :: "u32 \<Rightarrow> u32 \<Rightarrow> u32 \<Rightarrow> mem \<Rightarrow> u32" where
  "memcmp buf1 buf2 sz m = (if memcmp_loop m buf1 buf2 (unat sz) 0 < unat sz then 1 else 0)"

partial_function (option) strlen_loop :: "mem \<Rightarrow> u32 \<Rightarrow> u32 \<Rightarrow> u32 option" where
  "strlen_loop m str n = (if m (str + n) \<noteq> 0 then strlen_loop m str (n + 1) else Some n)"

definition strlen :: "u32 \<Rightarrow> mem \<Rightarrow> u32 option" where
  "strlen str m = strlen_loop m str 0"

text \<open>
  \<open>strncpy\<close>: the first loop leaves \<open>num\<close> decremented once more than it copies, also when it
  stops at the end of \<open>num\<close>; the second loop then counts down from there.
\<close>

fun strncpy_copy :: "u32 \<Rightarrow> u32 \<Rightarrow> nat \<Rightarrow> mem \<Rightarrow> u32 \<times> u32 \<times> mem" where
  "strncpy_copy dest src 0 m = (dest, - 1, m)"
| "strncpy_copy dest src (Suc num) m =
     (if m src \<noteq> 0 then strncpy_copy (dest + 1) (src + 1) num (m(dest := m src))
      else (dest, of_nat num, m))"

definition strncpy :: "u32 \<Rightarrow> u32 \<Rightarrow> u32 \<Rightarrow> mem \<Rightarrow> u32 \<times> mem" where
  "strncpy dest src num m =
     (case strncpy_copy dest src (unat num) m of
        (dest, num, m) \<Rightarrow> (dest + num, memset_loop (unat num) dest 0 m))"

text \<open>\<open>nextln\<close> returns the length of the line and advances the pointer; \<open>-1\<close> behind the module.\<close>

partial_function (option) nextln_loop :: "mem \<Rightarrow> u32 \<Rightarrow> u32 \<Rightarrow> u32 \<Rightarrow> (u32 \<times> u32) option" where
  "nextln_loop m mptr mod_end i =
     (if m mptr \<noteq> 0x0a
      then if mptr > mod_end then Some (- 1, mptr) else nextln_loop m (mptr + 1) mod_end (i + 1)
      else Some (i, mptr + 1))"

definition nextln :: "u32 \<Rightarrow> u32 \<Rightarrow> mem \<Rightarrow> (u32 \<times> u32) option" where
  "nextln mptr mod_end m = nextln_loop m mptr mod_end 0"

section \<open>memcpy copies, also when the regions overlap\<close>

text \<open>What a copy of \<open>n\<close> bytes should do: the destination gets the bytes the source held before.\<close>

definition memmove_spec :: "u32 \<Rightarrow> u32 \<Rightarrow> nat \<Rightarrow> mem \<Rightarrow> mem" where
  "memmove_spec dst src n m = (\<lambda>a. if unat (a - dst) < n then m (src + (a - dst)) else m a)"

lemma unat_sub_nat:
  fixes x :: u32
  assumes "k < 2 ^ 32"
  shows "unat (x - of_nat k) = (if k \<le> unat x then unat x - k else 2 ^ 32 + unat x - k)"
proof -
  have k: "unat (of_nat k :: u32) = k" using assms by (simp add: unat_of_nat take_bit_nat_eq_self)
  show ?thesis using k unat_u32_less [of x] assms
    by (auto simp: unat_sub_if_size word_size)
qed

lemma unat_add_nat:
  fixes x :: u32
  assumes "unat x + k < 2 ^ 32"
  shows "unat (x + of_nat k) = unat x + k"
proof -
  have "unat (of_nat k :: u32) = k" using assms by (simp add: unat_of_nat take_bit_nat_eq_self)
  then show ?thesis using assms by (subst unat_add_lem [THEN iffD1]) simp_all
qed

lemma memmove_spec_0 [simp]: "memmove_spec dst src 0 m = m"
  by (simp add: memmove_spec_def)

lemma unat_diff_le:
  fixes x y :: u32
  assumes "unat x \<le> unat y"
  shows "unat (y - x) = unat y - unat x"
  using assms by (simp add: unat_sub word_le_nat_alt)

text \<open>Two adjacent copies are one, upwards when the destination is below the source.\<close>

lemma memmove_spec_fwd:
  assumes "unat dst < unat src" "unat src + k + n \<le> 2 ^ 32"
  shows "memmove_spec (dst + of_nat k) (src + of_nat k) n (memmove_spec dst src k m) =
    memmove_spec dst src (k + n) m"
proof
  fix a
  define d where "d = a - dst"
  have a: "a - (dst + of_nat k) = d - of_nat k" "src + of_nat k + (d - of_nat k) = src + d"
    by (simp_all add: d_def)
  have k: "k < 2 ^ 32" using assms by simp
  have s: "unat (src - dst) = unat src - unat dst" using assms by (simp add: unat_diff_le)
  have src_ok: "\<not> unat (src + d - dst) < k" if "k \<le> unat d" "unat d < k + n"
  proof -
    have e: "src + d - dst = (src - dst) + d" by simp
    have "unat ((src - dst) + d) = unat (src - dst) + unat d"
      using s assms that by (subst unat_add_lem [THEN iffD1]) simp_all
    then show ?thesis unfolding e using that by linarith
  qed
  show "memmove_spec (dst + of_nat k) (src + of_nat k) n (memmove_spec dst src k m) a =
      memmove_spec dst src (k + n) m a"
  proof (cases "k \<le> unat d")
    case True
    then have "unat (d - of_nat k) = unat d - k" using unat_sub_nat [OF k] by simp
    with True src_ok show ?thesis unfolding memmove_spec_def a by (auto simp: d_def [symmetric])
  next
    case False
    then have "unat (d - of_nat k) = 2 ^ 32 + unat d - k" using unat_sub_nat [OF k] by simp
    with False assms show ?thesis unfolding memmove_spec_def a by (auto simp: d_def [symmetric])
  qed
qed

lemma memmove_spec_1: "memmove_spec dst src 1 m = m(dst := m src)"
  by (rule ext) (auto simp: memmove_spec_def unat_eq_0)

lemma memmove_spec_bwd:
  assumes "unat src < unat dst" "unat dst + k + n \<le> 2 ^ 32"
  shows "memmove_spec dst src k (memmove_spec (dst + of_nat k) (src + of_nat k) n m) =
    memmove_spec dst src (k + n) m"
proof
  fix a
  define d where "d = a - dst"
  have a: "a - (dst + of_nat k) = d - of_nat k" "src + of_nat k + (d - of_nat k) = src + d"
    by (simp_all add: d_def)
  have k: "k < 2 ^ 32" using assms by simp
  have src_ok: "\<not> unat (src + d - (dst + of_nat k)) < n" if "unat d < k"
  proof -
    have "unat (src + d) = unat src + unat d"
      using that assms by (subst unat_add_lem [THEN iffD1]) simp_all
    moreover have "unat (dst + of_nat k) = unat dst + k" if "n \<noteq> 0"
      using assms that by (intro unat_add_nat) simp
    ultimately show ?thesis using that assms unat_u32_less [of "src + d"]
      by (auto simp: unat_sub_if_size word_size)
  qed
  show "memmove_spec dst src k (memmove_spec (dst + of_nat k) (src + of_nat k) n m) a =
      memmove_spec dst src (k + n) m a"
  proof (cases "k \<le> unat d")
    case True
    then have "unat (d - of_nat k) = unat d - k" using unat_sub_nat [OF k] by simp
    with True show ?thesis unfolding memmove_spec_def a by (auto simp: d_def [symmetric])
  next
    case False
    with src_ok show ?thesis unfolding memmove_spec_def by (auto simp: d_def [symmetric])
  qed
qed

lemma copy_word_memmove: "copy_word dst src m = memmove_spec dst src 4 m"
proof
  fix a
  have "unat (a - dst) < 4 \<longleftrightarrow> a - dst = 0 \<or> a - dst = 1 \<or> a - dst = 2 \<or> a - dst = 3"
    unfolding word_unat_eq_iff by auto
  moreover have "a - dst = c \<longleftrightarrow> a = dst + c" for c by (auto simp: algebra_simps)
  ultimately show "copy_word dst src m a = memmove_spec dst src 4 m a"
    by (auto simp: copy_word_def memmove_spec_def)
qed

lemma copy_fwd_memmove:
  assumes "unat dst < unat src" "unat src + n \<le> 2 ^ 32"
  shows "copy_fwd n dst src m = memmove_spec dst src n m"
  using assms
proof (induction n arbitrary: dst src m)
  case (Suc n)
  show ?case
  proof (cases n)
    case 0
    then show ?thesis by (simp add: memmove_spec_1 [simplified])
  next
    case (Suc n')
    have "unat (dst + 1) = unat dst + 1" "unat (src + 1) = unat src + 1"
      using unat_add_nat [of dst 1] unat_add_nat [of src 1] Suc.prems Suc by simp_all
    then have "copy_fwd n (dst + 1) (src + 1) (m(dst := m src)) =
        memmove_spec (dst + 1) (src + 1) n (m(dst := m src))"
      using Suc.prems by (intro Suc.IH) simp_all
    then show ?thesis using memmove_spec_fwd [of dst src 1 n m] Suc.prems
      by (simp add: memmove_spec_1 [simplified])
  qed
qed simp

lemma copy_words_fwd_memmove:
  assumes "unat dst < unat src" "unat src + 4 * n \<le> 2 ^ 32"
  shows "copy_words_fwd n dst src m = memmove_spec dst src (4 * n) m"
  using assms
proof (induction n arbitrary: dst src m)
  case (Suc n)
  show ?case
  proof (cases n)
    case 0
    then show ?thesis by (simp add: copy_word_memmove)
  next
    case (Suc n')
    have "unat (dst + 4) = unat dst + 4" "unat (src + 4) = unat src + 4"
      using unat_add_nat [of dst 4] unat_add_nat [of src 4] Suc.prems Suc by simp_all
    with Suc.IH [of "dst + 4" "src + 4" "copy_word dst src m"] Suc.prems
      memmove_spec_fwd [of dst src 4 "4 * n" m] show ?thesis by (simp add: copy_word_memmove)
  qed
qed simp

lemma copy_bwd_memmove:
  assumes "unat src < unat dst" "unat dst + n \<le> 2 ^ 32"
  shows "copy_bwd n (dst + of_nat n) (src + of_nat n) m = memmove_spec dst src n m"
  using assms(2)
proof (induction n arbitrary: m)
  case (Suc n)
  then show ?case using memmove_spec_bwd [OF assms(1), of n 1 m]
    by (simp add: memmove_spec_1 [simplified] add.assoc [symmetric])
qed simp

lemma copy_words_bwd_memmove:
  assumes "unat src < unat dst" "unat dst + 4 * n \<le> 2 ^ 32"
  shows "copy_words_bwd n (dst + of_nat (4 * n)) (src + of_nat (4 * n)) m = memmove_spec dst src (4 * n) m"
  using assms(2)
proof (induction n arbitrary: m)
  case (Suc n)
  then show ?case using memmove_spec_bwd [OF assms(1), of "4 * n" 4 m]
    by (simp add: copy_word_memmove algebra_simps)
qed simp

text \<open>The three parts of the Intel copy together copy \<open>len\<close> bytes.\<close>

lemma and_3_le: "unat ((v :: u32) AND 3) \<le> 3"
  using word_and_le1 [of v 3] by (simp add: word_le_nat_alt)

lemma align_fwd_le: "unat (align_fwd dst src len) \<le> unat len"
proof -
  have "unat (4 - (src AND 3)) \<le> 4"
    using and_3_le [of src] by (subst unat_sub) (simp_all add: word_le_nat_alt)
  then show ?thesis by (auto simp: align_fwd_def word_less_nat_alt)
qed

lemma align_bwd_le: "unat (align_bwd dst src len) \<le> unat len"
  using and_3_le [of src] by (auto simp: align_bwd_def word_le_nat_alt)

lemma len_split:
  fixes len :: u32
  shows "unat (len div 4) = unat len div 4" "unat (len AND 3) = unat len mod 4"
    "4 * (len div 4) = of_nat (4 * (unat len div 4))"
proof -
  show d: "unat (len div 4) = unat len div 4" by (simp add: unat_div)
  have "len AND 3 = len mod 4" 
    using take_bit_eq_mask [of 2 len] take_bit_eq_mod [of 2 len] by (simp add: mask_eq_exp_minus_1)
  then show "unat (len AND 3) = unat len mod 4" by (simp add: unat_mod)
  have "len div 4 = of_nat (unat len div 4)" unfolding d [symmetric] by simp
  then show "4 * (len div 4) = of_nat (4 * (unat len div 4))" by simp
qed

lemma copy_fwd_at:
  assumes "unat dst < unat src" "unat src + k + n \<le> 2 ^ 32"
  shows "copy_fwd n (dst + of_nat k) (src + of_nat k) (memmove_spec dst src k m) =
    memmove_spec dst src (k + n) m"
proof (cases "n = 0")
  case False
  with assms show ?thesis
    by (subst copy_fwd_memmove) (simp_all add: unat_add_nat memmove_spec_fwd)
qed simp

lemma copy_words_fwd_at:
  assumes "unat dst < unat src" "unat src + k + 4 * n \<le> 2 ^ 32"
  shows "copy_words_fwd n (dst + of_nat k) (src + of_nat k) (memmove_spec dst src k m) =
    memmove_spec dst src (k + 4 * n) m"
proof (cases "n = 0")
  case False
  with assms show ?thesis
    by (subst copy_words_fwd_memmove) (simp_all add: unat_add_nat memmove_spec_fwd)
qed simp

lemma copy_bwd_at:
  assumes "unat src < unat dst" "unat dst + k + n + r \<le> 2 ^ 32"
  shows "copy_bwd n (dst + of_nat (k + n)) (src + of_nat (k + n))
      (memmove_spec (dst + of_nat (k + n)) (src + of_nat (k + n)) r m) =
    memmove_spec (dst + of_nat k) (src + of_nat k) (n + r) m"
proof (cases "n = 0")
  case False
  let ?d = "dst + of_nat k" and ?s = "src + of_nat k"
  have "unat ?d = unat dst + k" "unat ?s = unat src + k" using False assms by (simp_all add: unat_add_nat)
  with assms copy_bwd_memmove [of ?s ?d n] memmove_spec_bwd [of ?s ?d n r m] show ?thesis
    by (simp add: add.assoc)
qed simp

lemma copy_words_bwd_at:
  assumes "unat src < unat dst" "unat dst + k + 4 * n + r \<le> 2 ^ 32"
  shows "copy_words_bwd n (dst + of_nat (k + 4 * n)) (src + of_nat (k + 4 * n))
      (memmove_spec (dst + of_nat (k + 4 * n)) (src + of_nat (k + 4 * n)) r m) =
    memmove_spec (dst + of_nat k) (src + of_nat k) (4 * n + r) m"
proof (cases "n = 0")
  case False
  let ?d = "dst + of_nat k" and ?s = "src + of_nat k"
  have "unat ?d = unat dst + k" "unat ?s = unat src + k" using False assms by (simp_all add: unat_add_nat)
  with assms copy_words_bwd_memmove [of ?s ?d n] memmove_spec_bwd [of ?s ?d "4 * n" r m] show ?thesis
    by (simp add: add.assoc)
qed simp

lemma memcpy_intel_fwd:
  assumes "unat dst < unat src" "unat src + unat len \<le> 2 ^ 32" "len \<noteq> 0"
  shows "memcpy_intel dst src len m = memmove_spec dst src (unat len) m"
proof -
  define T R where "T = unat (align_fwd dst src len)" and "R = unat len - T"
  have T: "align_fwd dst src len = of_nat T" "T \<le> unat len" by (simp_all add: T_def align_fwd_le)
  have R: "unat (len - of_nat T) = R"
    using T unat_sub_nat [of T len] unat_u32_less [of len] by (simp add: R_def)
  have L: "unat len = T + (4 * (R div 4) + R mod 4)" using T by (simp add: R_def)
  have lt: "dst \<noteq> src" "dst < src" using assms(1) by (auto simp: word_less_nat_alt)
  have 1: "copy_fwd T dst src m = memmove_spec dst src T m"
    using copy_fwd_at [of dst src 0 T m] assms T by simp
  have 2: "copy_words_fwd (R div 4) (dst + of_nat T) (src + of_nat T) (memmove_spec dst src T m) =
      memmove_spec dst src (T + 4 * (R div 4)) m"
    using assms L by (intro copy_words_fwd_at) simp_all
  have 3: "copy_fwd (R mod 4) (dst + of_nat (T + 4 * (R div 4))) (src + of_nat (T + 4 * (R div 4)))
      (memmove_spec dst src (T + 4 * (R div 4)) m) = memmove_spec dst src (unat len) m"
    using copy_fwd_at [OF assms(1), of "T + 4 * (R div 4)" "R mod 4" m] assms(2) L by (simp add: add.assoc)
  have "unat (of_nat T :: u32) = T" unfolding T(1) [symmetric] by (simp add: T_def)
  then show ?thesis
    using assms(3) lt 1 2 3
    by (simp only: memcpy_intel_def Let_def T(1) R len_split if_False simp_thms if_True
        of_nat_add add.assoc)
qed

lemma memcpy_intel_bwd:
  assumes "unat src < unat dst" "unat dst + unat len \<le> 2 ^ 32" "len \<noteq> 0"
  shows "memcpy_intel dst src len m = memmove_spec dst src (unat len) m"
proof -
  let ?d = "dst + len" and ?s = "src + len"
  define T R where "T = unat (align_bwd ?d ?s len)" and "R = unat len - T"
  have T: "align_bwd ?d ?s len = of_nat T" "T \<le> unat len" by (simp_all add: T_def align_bwd_le)
  have R: "unat (len - of_nat T) = R"
    using T unat_sub_nat [of T len] unat_u32_less [of len] by (simp add: R_def)
  define W Q where "W = R div 4" and "Q = R mod 4"
  have L: "unat len = Q + 4 * W + T" using T by (simp add: R_def W_def Q_def)
  then have len: "len = of_nat (Q + 4 * W + T)" by (metis of_nat_unat ucast_id)
  have lt: "dst \<noteq> src" "\<not> dst < src" using assms(1) by (auto simp: word_less_nat_alt)
  have 1: "copy_bwd T ?d ?s m = memmove_spec (dst + of_nat (Q + 4 * W)) (src + of_nat (Q + 4 * W)) T m"
    using copy_bwd_at [OF assms(1), of "Q + 4 * W" T 0 m] assms(2) L unfolding len by simp
  have 2: "copy_words_bwd W (dst + of_nat (Q + 4 * W)) (src + of_nat (Q + 4 * W))
      (memmove_spec (dst + of_nat (Q + 4 * W)) (src + of_nat (Q + 4 * W)) T m) =
      memmove_spec (dst + of_nat Q) (src + of_nat Q) (4 * W + T) m"
    using copy_words_bwd_at [OF assms(1), of Q W T m] assms(2) L by simp
  have 3: "copy_bwd Q (dst + of_nat Q) (src + of_nat Q) (memmove_spec (dst + of_nat Q) (src + of_nat Q) (4 * W + T) m)
      = memmove_spec dst src (unat len) m"
    using copy_bwd_at [OF assms(1), of 0 Q "4 * W + T" m] assms(2) L by (simp add: add.assoc)
  have a: "x + len - of_nat T = x + of_nat (Q + 4 * W)" "x + of_nat (Q + 4 * W) - of_nat (4 * W) = x + of_nat Q" for x
    unfolding len by simp_all
  have "unat (of_nat T :: u32) = T" unfolding T(1) [symmetric] by (simp add: T_def)
  then show ?thesis
    using assms(3) lt 1 2 3
    by (simp only: memcpy_intel_def Let_def T(1) R len_split if_False simp_thms a W_def [symmetric] Q_def [symmetric])
qed

lemma memcpy_amd_fwd:
  assumes "unat dst < unat src" "unat src + unat len \<le> 2 ^ 32"
  shows "memcpy_amd dst src len m = memmove_spec dst src (unat len) m"
  using copy_fwd_at [of dst src 0 "unat len" m] assms by (simp add: memcpy_amd_def)

lemma copy_fwd_safe:
  assumes "\<And>j. j < n \<Longrightarrow> n \<le> unat (src + of_nat j - dst)" "n < 2 ^ 32"
  shows "copy_fwd n dst src m = memmove_spec dst src n m"
  using assms
proof (induction n arbitrary: dst src m)
  case (Suc n)
  have "n \<le> unat (src + 1 + of_nat j - (dst + 1))" if "j < n" for j
  proof -
    have e: "src + 1 + of_nat j - (dst + 1) = src + of_nat j - dst" by simp
    show ?thesis unfolding e using Suc.prems(1) [of j] that by simp
  qed
  with Suc have IH: "copy_fwd n (dst + 1) (src + 1) (m(dst := m src)) =
      memmove_spec (dst + 1) (src + 1) n (m(dst := m src))" by simp
  have "memmove_spec (dst + 1) (src + 1) n (m(dst := m src)) a = memmove_spec dst src (Suc n) m a" for a
  proof -
    define d where "d = a - dst"
    have a: "a - (dst + 1) = d - 1" "src + 1 + (d - 1) = src + d" by (simp_all add: d_def)
    have ne: "src + d \<noteq> dst" if "unat d < Suc n"
      using Suc.prems(1) [OF that] by auto
    have d1: "unat (d - 1) = (if d = 0 then 2 ^ 32 - 1 else unat d - 1)"
      using unat_sub_nat [of 1 d] by (auto simp: unat_eq_0 Suc_le_eq)
    show ?thesis
    proof (cases "d = 0")
      case True
      with d1 Suc.prems(2) show ?thesis unfolding memmove_spec_def a by (simp add: d_def)
    next
      case False
      then have "unat d \<noteq> 0" "a \<noteq> dst" by (auto simp: unat_eq_0 d_def)
      with d1 False have "unat (d - 1) < n \<longleftrightarrow> unat d < Suc n" "a \<noteq> dst" by auto
      with ne show ?thesis unfolding memmove_spec_def a by (simp add: d_def [symmetric])
    qed
  qed
  with IH show ?case by auto
qed simp

lemma memcpy_amd_above:
  assumes "unat src + unat len \<le> unat dst" "unat dst + unat len \<le> 2 ^ 32"
  shows "memcpy_amd dst src len m = memmove_spec dst src (unat len) m"
  unfolding memcpy_amd_def
proof (rule copy_fwd_safe)
  fix j assume j: "j < unat len"
  have "unat (src + of_nat j) = unat src + j" using assms j unat_u32_less [of dst] by (intro unat_add_nat) simp
  then show "unat len \<le> unat (src + of_nat j - dst)"
    using assms j by (simp add: unat_sub_if_size word_size)
qed (rule unat_u32_less)

section \<open>The other routines\<close>

lemma memset_loop_eq:
  assumes "n < 2 ^ 32"
  shows "memset_loop n p c m = (\<lambda>a. if unat (a - p) < n then c else m a)"
  using assms
proof (induction n arbitrary: p m)
  case (Suc n)
  have "(unat (a - (p + 1)) < n \<or> a = p) \<longleftrightarrow> unat (a - p) < Suc n" for a
  proof -
    define d where "d = a - p"
    have "unat (d - 1) = (if d = 0 then 2 ^ 32 - 1 else unat d - 1)"
      using unat_sub_nat [of 1 d] by (auto simp: unat_eq_0 Suc_le_eq)
    then have "(unat (d - 1) < n \<or> d = 0) \<longleftrightarrow> unat d < Suc n"
      using Suc.prems unat_eq_0 [of d] by (cases "d = 0") auto
    moreover have e: "a - (p + 1) = d - 1" "a = p \<longleftrightarrow> d = 0" by (simp_all add: d_def)
    ultimately show ?thesis unfolding e d_def [symmetric] by simp
  qed
  with Suc show ?case by (auto simp: fun_eq_iff)
qed (simp add: fun_eq_iff)

lemma memcmp_loop_eq:
  "memcmp_loop m a b n i < n \<longleftrightarrow> (\<exists>j \<ge> i. j < n \<and> m (a + of_nat j) \<noteq> m (b + of_nat j))"
proof (induction "n - i" arbitrary: i rule: less_induct)
  case less
  show ?case
  proof (cases "i < n \<and> m (a + of_nat i) = m (b + of_nat i)")
    case True
    then have "memcmp_loop m a b n i = memcmp_loop m a b n (Suc i)" by (simp add: memcmp_loop.simps)
    also have "\<dots> < n \<longleftrightarrow> (\<exists>j \<ge> Suc i. j < n \<and> m (a + of_nat j) \<noteq> m (b + of_nat j))"
      using True by (intro less) auto
    also have "\<dots> \<longleftrightarrow> (\<exists>j \<ge> i. j < n \<and> m (a + of_nat j) \<noteq> m (b + of_nat j))"
      using True by (intro ex_ge_Suc [symmetric]) simp
    finally show ?thesis .
  next
    case False
    then show ?thesis by (auto simp: memcmp_loop.simps)
  qed
qed

lemma do_xor_fold:
  fixes out in1 in2 :: u32 and m :: mem
  assumes "n < 2 ^ 32"
    and "\<And>i j. i < j \<Longrightarrow> j < n \<Longrightarrow> in1 + of_nat j \<noteq> out + of_nat i \<and> in2 + of_nat j \<noteq> out + of_nat i"
  shows "fold (xor_step in1 in2 out) [0..<n] m =
    (\<lambda>a. if unat (a - out) < n then m (in1 + (a - out)) XOR m (in2 + (a - out)) else m a)"
  using assms
proof (induction n)
  case (Suc n)
  let ?g = "\<lambda>k a. if unat (a - out) < k then m (in1 + (a - out)) XOR m (in2 + (a - out)) else m a"
  have IH: "fold (xor_step in1 in2 out) [0..<n] m = ?g n"
    by (rule Suc.IH) (use Suc.prems in auto)
  have keep: "?g n (x + of_nat n) = m (x + of_nat n)" if "\<And>i. i < n \<Longrightarrow> x + of_nat n \<noteq> out + of_nat i" for x
  proof -
    have "\<not> unat (x + of_nat n - out) < n"
      using that [of "unat (x + of_nat n - out)"] by auto
    then show ?thesis by simp
  qed
  have "unat (a - out) < Suc n \<longleftrightarrow> unat (a - out) < n \<or> a = out + of_nat n" for a
  proof -
    have "unat (a - out) = n \<longleftrightarrow> a - out = of_nat n" 
      using unat_eq_of_nat_iff [of n "a - out"] Suc.prems(1) by simp
    then show ?thesis by (auto simp: less_Suc_eq algebra_simps)
  qed
  then have "xor_step in1 in2 out n (?g n) = ?g (Suc n)"
    using Suc.prems(2) keep [of in1] keep [of in2] unfolding xor_step_def by (intro ext) auto
  then show ?case using IH by simp
qed simp

section \<open>Properties\<close>

lemma memcpy_intel_eq:
  assumes "unat dst + unat len \<le> 2 ^ 32" "unat src + unat len \<le> 2 ^ 32"
  shows "memcpy_intel dst src len m =
    (\<lambda>a. if unat (a - dst) < unat len then m (src + (a - dst)) else m a)"
proof -
  consider "len = 0 \<or> dst = src" | "len \<noteq> 0" "unat dst < unat src" | "len \<noteq> 0" "unat src < unat dst"
    by (metis linorder_neqE_nat word_unat_eq_iff)
  then show ?thesis
  proof cases
    case 1
    then show ?thesis by (auto simp: memcpy_intel_def)
  next
    case 2
    then show ?thesis using memcpy_intel_fwd assms(2) by (simp add: memmove_spec_def)
  next
    case 3
    then show ?thesis using memcpy_intel_bwd assms(1) by (simp add: memmove_spec_def)
  qed
qed

text \<open>
  C36: the Intel \<open>memcpy\<close> is a \<open>memmove\<close>. Its choice of direction and its alignment and word
  loops copy every byte of the source as it was before the call, and change nothing else, also
  when the regions overlap in either direction.
\<close>

theorem memcpy_intel_overlapping:
  assumes "unat dst + unat len \<le> 2 ^ 32" "unat src + unat len \<le> 2 ^ 32"
  shows "memcpy_intel dst src len m =
    (\<lambda>a. if unat (a - dst) < unat len then m (src + (a - dst)) else m a)"
  using assms by (rule memcpy_intel_eq)

theorem memcpy_intel_overlapping_witness:
  "memcpy_intel 0x1003 0x1001 9 (\<lambda>a. ucast a) 0x100b = 0x09"
  using memcpy_intel_overlapping [of "0x1003" 9 "0x1001" "\<lambda>a. ucast a"] by simp

text \<open>
  the byte loop of the AMD \<open>memcpy\<close> copies correctly when the destination starts below the
  source, overlapping or not (as the screen scrolling uses it), or lies behind the source.
\<close>

theorem memcpy_amd_copies:
  assumes "unat src + unat len \<le> 2 ^ 32" "unat dst + unat len \<le> 2 ^ 32"
    and "unat dst < unat src \<or> unat src + unat len \<le> unat dst"
  shows "memcpy_amd dst src len m =
    (\<lambda>a. if unat (a - dst) < unat len then m (src + (a - dst)) else m a)"
  using memcpy_amd_fwd memcpy_amd_above assms by (auto simp: memmove_spec_def)

theorem memcpy_amd_copies_witness:
  "memcpy_amd 0xb8000 0xb80a0 3840 (\<lambda>a. ucast a) 0xb8001 = 0xa1"
  using memcpy_amd_copies [of "0xb80a0" 3840 "0xb8000" "\<lambda>a. ucast a"] by simp

text \<open>
  \<open>do_xor\<close> with the output on top of the first input (as HMAC and the mask code call it) or
  with separate buffers writes the exclusive or of the inputs as they were before the call.
\<close>

theorem do_xor_result:
  assumes "\<And>i j. i < j \<Longrightarrow> j < unat n \<Longrightarrow> in1 + of_nat j \<noteq> out + of_nat i"
    and "\<And>i j. i < j \<Longrightarrow> j < unat n \<Longrightarrow> in2 + of_nat j \<noteq> out + of_nat i"
  shows "bytes_at (do_xor in1 in2 out n m) out (unat n) =
    map2 (XOR) (bytes_at m in1 (unat n)) (bytes_at m in2 (unat n))"
proof -
  have "unat (of_nat i :: u32) = i" if "i < unat n" for i
    using that unat_u32_less [of n] by (simp add: unat_of_nat take_bit_nat_eq_self)
  then show ?thesis using do_xor_fold [of "unat n" in1 out in2 m, OF unat_u32_less] assms
    by (auto simp: do_xor_def bytes_at_def intro!: nth_equalityI)
qed

theorem do_xor_result_witness:
  "bytes_at (do_xor 0x100 0x200 0x100 2 (\<lambda>a. if a < 0x200 then 5 else 3)) 0x100 2 = [6, 6]"
proof -
  have ij: "i = 0 \<and> j = 1" if "i < j" "j < unat (2 :: u32)" for i j using that by auto
  have "bytes_at (do_xor 0x100 0x200 0x100 2 (\<lambda>a. if a < 0x200 then 5 else 3)) 0x100 (unat (2 :: u32)) =
      map2 (XOR) (bytes_at (\<lambda>a. if a < 0x200 then 5 else 3) 0x100 (unat (2 :: u32)))
        (bytes_at (\<lambda>a. if a < 0x200 then 5 else 3) 0x200 (unat (2 :: u32)))"
    by (rule do_xor_result) (auto dest: ij)
  then show ?thesis by (simp add: bytes_at_def upt_rec)
qed

text \<open>
  \<open>memcmp\<close> returns 0 exactly when the two buffers hold the same bytes, and 1 otherwise.
\<close>

theorem memcmp_equal:
  "memcmp buf1 buf2 n m = (if bytes_at m buf1 (unat n) = bytes_at m buf2 (unat n) then 0 else 1)"
  using memcmp_loop_eq [of m buf1 buf2 "unat n" 0]
  by (auto simp: memcmp_def bytes_at_def list_eq_iff_nth_eq)

lemma strncpy_copy_full:
  assumes "\<And>i. i < n \<Longrightarrow> m (src + of_nat i) \<noteq> 0"
    "\<And>i. i < n \<Longrightarrow> n \<le> unat (src + of_nat i - dest)" "n < 2 ^ 32"
  shows "\<exists>m'. strncpy_copy dest src n m = (dest + of_nat n, - 1, m')"
  using assms
proof (induction n arbitrary: dest src m)
  case (Suc n)
  have nz: "(m(dest := m src)) (src + 1 + of_nat i) \<noteq> 0" if "i < n" for i
    using Suc.prems(1) [of "Suc i"] Suc.prems(1) [of 0] that by (auto simp: add.assoc)
  have "n \<le> unat (src + 1 + of_nat i - (dest + 1))" if "i < n" for i
  proof -
    have e: "src + 1 + of_nat i - (dest + 1) = src + of_nat i - dest" by simp
    show ?thesis unfolding e using Suc.prems(2) [of i] that by simp
  qed
  with Suc.prems(3) nz obtain m' where
    "strncpy_copy (dest + 1) (src + 1) n (m(dest := m src)) = (dest + 1 + of_nat n, - 1, m')"
    using Suc.IH [of "m(dest := m src)" "src + 1" "dest + 1"] by fastforce
  with Suc.prems(1) [of 0] show ?case by (simp add: add.assoc)
qed simp

text \<open>
  \<open>strncpy\<close> of a string of \<open>num\<close> or more characters does not stop at \<open>num\<close>: the counter has
  wrapped to \<open>2^32 - 1\<close> and the padding loop clears all of memory but one byte.
\<close>

theorem strncpy_clears_memory:
  assumes "0 < num" "\<And>i. i < unat num \<Longrightarrow> m (src + of_nat i) \<noteq> 0"
    and "\<And>i. i < unat num \<Longrightarrow> unat num \<le> unat (src + of_nat i - dest)"
    and "a \<noteq> dest + num - 1"
  shows "snd (strncpy dest src num m) a = 0"
proof -
  obtain m' where "strncpy_copy dest src (unat num) m = (dest + num, - 1, m')"
    using strncpy_copy_full [of "unat num" m src dest] assms(2,3) unat_u32_less [of num] by auto
  moreover have "unat (a - (dest + num)) < 2 ^ 32 - 1"
  proof -
    have "a - (dest + num) \<noteq> - 1" using assms(4) by (auto simp: algebra_simps)
    then have "a - (dest + num) < - 1" using word_order.extremum_strict by (simp add: less_le)
    then show ?thesis by (simp add: word_less_nat_alt unsigned_minus_1_eq_mask mask_eq_exp_minus_1)
  qed
  ultimately show ?thesis
    by (simp add: strncpy_def memset_loop_eq unsigned_minus_1_eq_mask mask_eq_exp_minus_1)
qed

theorem strncpy_clears_memory_witness:
  "snd (strncpy 0x2000 0x1000 2 (\<lambda>_. 0x41)) 0x5000 = 0"
proof -
  have "i < 2 \<longleftrightarrow> i = 0 \<or> i = (1 :: nat)" for i by auto
  then show ?thesis
    using strncpy_clears_memory [of 2 "\<lambda>_. 0x41" "0x1000" "0x2000" "0x5000"] by fastforce
qed

end
