(* ===== verification/World.thy ===== *)
theory World
  imports TPM_Struct Util_Text Util_Mem
begin

text \<open>
  The state the boot code works on, and the hardware it talks to. The hardware is a parameter:
  \<open>'d\<close> is its state, and the record \<open>hw\<close> holds one function per kind of access (port I/O,
  memory-mapped registers, model-specific registers, \<open>cpuid\<close>); nothing is assumed of them here.
\<close>

record 'd hw =
  hw_inb :: "u16 \<Rightarrow> 'd \<Rightarrow> u8 \<times> 'd"
  hw_outb :: "u16 \<Rightarrow> u8 \<Rightarrow> 'd \<Rightarrow> 'd"
  hw_inw :: "u16 \<Rightarrow> 'd \<Rightarrow> u16 \<times> 'd"
  hw_outw :: "u16 \<Rightarrow> u16 \<Rightarrow> 'd \<Rightarrow> 'd"
  hw_inl :: "u16 \<Rightarrow> 'd \<Rightarrow> u32 \<times> 'd"
  hw_outl :: "u16 \<Rightarrow> u32 \<Rightarrow> 'd \<Rightarrow> 'd"
  hw_rd8 :: "u32 \<Rightarrow> 'd \<Rightarrow> u8 \<times> 'd"
  hw_wr8 :: "u32 \<Rightarrow> u8 \<Rightarrow> 'd \<Rightarrow> 'd"
  hw_rd32 :: "u32 \<Rightarrow> 'd \<Rightarrow> u32 \<times> 'd"
  hw_wr32 :: "u32 \<Rightarrow> u32 \<Rightarrow> 'd \<Rightarrow> 'd"
  hw_rdmsr :: "u32 \<Rightarrow> 'd \<Rightarrow> u64 \<times> 'd"
  hw_wrmsr :: "u32 \<Rightarrow> u64 \<Rightarrow> 'd \<Rightarrow> 'd"
  hw_cpuid_eax :: "u32 \<Rightarrow> u32"
  hw_cpuid_ecx :: "u32 \<Rightarrow> u32"
  hw_cpuid_edx :: "u32 \<Rightarrow> u32"

text \<open>An authorisation session (\<^verbatim>\<open>include/tpm.h\<close>); the OSAP part is behind a pointer.\<close>

record TPM_OSAP_EXTENSION =
  nonceEvenOSAP :: TPM_NONCE
  nonceOddOSAP :: TPM_NONCE

record TPM_SESSION =
  authHandle :: u32
  nonceEven :: TPM_NONCE
  nonceOdd :: TPM_NONCE
  continueAuthSession :: u8
  osap :: "TPM_OSAP_EXTENSION option"

text \<open>The statics of \<^verbatim>\<open>src/keyboard.c\<close>.\<close>

record kbd =
  scancode :: u32
  shift :: bool
  capslock :: bool

text \<open>
  The globals: the physical memory outside the loader (the multiboot structures and modules), the
  keyboard state of \<^verbatim>\<open>src/keyboard.c\<close>, the pointer \<open>code\<close> of \<^verbatim>\<open>src/elf.c\<close>, \<open>tis_buffers\<close> and \<open>tis_locality\<close> of \<^verbatim>\<open>src/tis.c\<close>, the heap, the array \<open>sessions\<close>
  of \<^verbatim>\<open>src/sable.c\<close> (addresses, 0 is \<open>NULL\<close>) with the session objects those addresses hold, the
  text screen, and the hardware. The last four fields are the stack slots of the contexts a TPM
  command works with: a command starts with whatever they hold.
\<close>

record 'd world =
  w_dev :: 'd
  w_screen :: screen
  w_mem :: mem
  w_kbd :: kbd
  w_code :: u32
  w_heap :: heap
  w_in :: bytes
  w_out :: bytes
  w_locality :: u32
  w_sessions :: "u32 list"
  w_objs :: "u32 \<Rightarrow> TPM_SESSION"
  w_pctx :: Pack_Context
  w_uctx :: Unpack_Context
  w_sctx :: SHA1_Context
  w_hctx :: HMAC_Context

section \<open>Access to the parts of the state\<close>

definition on_dev :: "('d \<Rightarrow> 'a \<times> 'd) \<Rightarrow> ('d world, 'a) exec" where
  "on_dev f = (\<lambda>w. case f (w_dev w) of (a, d) \<Rightarrow> (Ok a, w\<lparr>w_dev := d\<rparr>))"

definition on_screen :: "(screen, 'a) exec \<Rightarrow> ('d world, 'a) exec" where
  "on_screen m = (\<lambda>w. case m (w_screen w) of (r, s) \<Rightarrow> (r, w\<lparr>w_screen := s\<rparr>))"

definition on_heap :: "(heap, 'a) exec \<Rightarrow> ('d world, 'a) exec" where
  "on_heap m = (\<lambda>w. case m (w_heap w) of (r, h) \<Rightarrow> (r, w\<lparr>w_heap := h\<rparr>))"

definition rd8 :: "'d hw \<Rightarrow> u32 \<Rightarrow> ('d world, u8) exec" where
  "rd8 hw a = on_dev (hw_rd8 hw a)"

definition wr8 :: "'d hw \<Rightarrow> u32 \<Rightarrow> u8 \<Rightarrow> ('d world, unit) exec" where
  "wr8 hw a v = on_dev (\<lambda>d. ((), hw_wr8 hw a v d))"

definition rd32w :: "'d hw \<Rightarrow> u32 \<Rightarrow> ('d world, u32) exec" where
  "rd32w hw a = on_dev (hw_rd32 hw a)"

definition inb :: "'d hw \<Rightarrow> u16 \<Rightarrow> ('d world, u8) exec" where
  "inb hw p = on_dev (hw_inb hw p)"

definition outb :: "'d hw \<Rightarrow> u16 \<Rightarrow> u8 \<Rightarrow> ('d world, unit) exec" where
  "outb hw p v = on_dev (\<lambda>d. ((), hw_outb hw p v d))"

section \<open>Waiting\<close>

text \<open>
  \<open>wait\<close> (\<^verbatim>\<open>src/util.c\<close>) counts down the interval timer. \<open>ms\<close> is a signed 32-bit counter, the
  timer state is 16 bits wide. A timer that does not advance makes it wait for ever (\<open>None\<close>).
\<close>

partial_function (option) wait_loop :: "'d hw \<Rightarrow> u32 \<Rightarrow> u16 \<Rightarrow> 'd \<Rightarrow> 'd option" where
  "wait_loop hw ms old d =
     (if 0 < sint ms
      then (let d = hw_outb hw 0x43 0 d;
                (lo, d) = hw_inb hw 0x40 d;
                (hi, d) = hw_inb hw 0x40 d;
                state = ucast lo OR push_bit 8 (ucast hi)
            in wait_loop hw (ms - ucast (old - state)) state d)
      else Some d)"

definition wait :: "'d hw \<Rightarrow> u32 \<Rightarrow> ('d world, unit) exec" where
  "wait hw ms = (\<lambda>w.
     let d = w_dev w;
         d = hw_outb hw 0x43 0x34 d;
         d = hw_outb hw 0x40 0 d;
         d = hw_outb hw 0x40 0 d
     in case wait_loop hw (ms * 1193) 0 d of
          None \<Rightarrow> (Stop Hang, w\<lparr>w_dev := d\<rparr>) | Some d' \<Rightarrow> (Ok (), w\<lparr>w_dev := d'\<rparr>))"

text \<open>A timer that is good enough: \<open>wait\<close> returns, from every hardware state.\<close>

definition wait_returns :: "'d hw \<Rightarrow> bool" where
  "wait_returns hw \<longleftrightarrow> (\<forall>ms w. \<exists>w'. wait hw ms w = (Ok (), w'))"

text \<open>\<open>exit\<close> prints the status, waits about a thousand seconds and reboots.\<close>

primrec wait_times :: "'d hw \<Rightarrow> nat \<Rightarrow> ('d world, unit) exec" where
  "wait_times hw 0 = returnE ()"
| "wait_times hw (Suc n) = bindE (wait hw 1000) (\<lambda>_. wait_times hw n)"

definition exit :: "'d hw \<Rightarrow> u32 \<Rightarrow> ('d world, 'a) exec" where
  "exit hw status =
     bindE (on_screen (out_description (str ''ERROR'') status)) (\<lambda>_.
     bindE (wait_times hw 1000) (\<lambda>_.
     bindE (on_screen (out_string (str (''-> OK, reboot now!'' @ [CHR 0x0A])))) (\<lambda>_.
     stopE Reboot)))"

section \<open>Lemmas\<close>

text \<open>The part of the state that hardware access does not touch.\<close>

definition same_but_dev :: "'d world \<Rightarrow> 'd world \<Rightarrow> bool" where
  "same_but_dev w w' \<longleftrightarrow> w_screen w' = w_screen w \<and> w_mem w' = w_mem w \<and> w_kbd w' = w_kbd w \<and>
     w_code w' = w_code w \<and> w_heap w' = w_heap w \<and> w_in w' = w_in w \<and>
     w_out w' = w_out w \<and> w_locality w' = w_locality w \<and> w_sessions w' = w_sessions w \<and>
     w_objs w' = w_objs w \<and> w_pctx w' = w_pctx w \<and> w_uctx w' = w_uctx w \<and> w_sctx w' = w_sctx w \<and>
     w_hctx w' = w_hctx w"

definition dev_only :: "('d world, 'a) exec \<Rightarrow> bool" where
  "dev_only m \<longleftrightarrow> (\<forall>w. same_but_dev w (snd (m w)))"

lemma same_but_dev_refl [simp]: "same_but_dev w w"
  by (simp add: same_but_dev_def)

lemma same_but_dev_trans: "same_but_dev w w' \<Longrightarrow> same_but_dev w' w'' \<Longrightarrow> same_but_dev w w''"
  by (simp add: same_but_dev_def)

lemma dev_onlyI: "(\<And>w r w'. m w = (r, w') \<Longrightarrow> same_but_dev w w') \<Longrightarrow> dev_only m"
  unfolding dev_only_def by (metis surjective_pairing)

lemma dev_onlyD: "dev_only m \<Longrightarrow> m w = (r, w') \<Longrightarrow> same_but_dev w w'"
  unfolding dev_only_def by (metis snd_conv)

lemma dev_only_bindE [intro]:
  assumes m: "dev_only m" and k: "\<And>a. dev_only (k a)"
  shows "dev_only (bindE m k)"
proof (rule dev_onlyI)
  fix w r w' assume run: "bindE m k w = (r, w')"
  obtain q v where q: "m w = (q, v)" by (cases "m w")
  have 1: "same_but_dev w v" by (rule dev_onlyD [OF m q])
  show "same_but_dev w w'"
  proof (cases q)
    case (Ok a)
    then have "k a v = (r, w')" using run q by (simp add: bindE_def)
    then show ?thesis by (rule same_but_dev_trans [OF 1 dev_onlyD [OF k]])
  qed (use run q 1 in \<open>simp_all add: bindE_def\<close>)
qed

lemma dev_only_pure [intro]:
  "dev_only (returnE a)" "dev_only (throwE e)" "dev_only (stopE x)" "dev_only (getE f)"
  by (simp_all add: dev_only_def returnE_def throwE_def stopE_def getE_def)

lemma dev_only_ERROR_if [intro]: "dev_only (ERROR_if c e)" "dev_only (ASSERT c)"
  by (cases c; simp add: dev_only_pure)+

lemma dev_only_on_dev [intro]: "dev_only (on_dev f)"
  by (simp add: dev_only_def same_but_dev_def on_dev_def split: prod.split)

lemma dev_only_hw [intro]:
  "dev_only (rd8 hw a)" "dev_only (wr8 hw a v)" "dev_only (rd32w hw a)"
  "dev_only (inb hw p)" "dev_only (outb hw p v)"
  unfolding rd8_def wr8_def rd32w_def inb_def outb_def by (rule dev_only_on_dev)+

lemma dev_only_wait [intro]: "dev_only (wait hw ms)"
  unfolding dev_only_def wait_def Let_def by (simp add: same_but_dev_def split: option.split)

text \<open>Weakest preconditions of hardware access.\<close>

lemma wpE_hw [wp_simps]:
  "wpE (rd8 hw a) Q w = (case hw_rd8 hw a (w_dev w) of (v, d) \<Rightarrow> Q (Ok v) (w\<lparr>w_dev := d\<rparr>))"
  "wpE (wr8 hw a b) Q' w = Q' (Ok ()) (w\<lparr>w_dev := hw_wr8 hw a b (w_dev w)\<rparr>)"
  "wpE (rd32w hw a) Q'' w = (case hw_rd32 hw a (w_dev w) of (v, d) \<Rightarrow> Q'' (Ok v) (w\<lparr>w_dev := d\<rparr>))"
  by (simp_all add: wpE_def rd8_def wr8_def rd32w_def on_dev_def split: prod.split)

lemma wpE_wait:
  assumes "wait_returns hw" "\<And>d. Q (Ok ()) (w\<lparr>w_dev := d\<rparr>)"
  shows "wpE (wait hw ms) Q w"
proof -
  obtain w' where w': "wait hw ms w = (Ok (), w')" using assms(1) unfolding wait_returns_def by blast
  then have "\<exists>d. w' = w\<lparr>w_dev := d\<rparr>" by (auto simp: wait_def Let_def split: option.splits)
  then show ?thesis using w' assms(2) by (auto simp: wpE_def)
qed

end
