(* ===== verification/TIS.thy ===== *)
theory TIS
  imports World
begin

text \<open>
  The TPM interface driver (\<^verbatim>\<open>src/tis.c\<close>, \<^verbatim>\<open>include/tis.h\<close>). Registers are one byte wide except
  the identification and capability words, and every access to them is an access to the hardware
  parameter. The theorems take the documented behaviour of a TPM behind these registers as the
  predicate \<open>tis_device\<close>.
\<close>

section \<open>Registers\<close>

abbreviation TIS_BASE :: u32 where "TIS_BASE \<equiv> 0xfed40000"

datatype TIS_TPM_VENDOR =
    TIS_INIT_NO_TPM
  | TIS_INIT_STM
  | TIS_INIT_INFINEON
  | TIS_INIT_ATMEL
  | TIS_INIT_BROADCOM
  | TIS_INIT_QEMU
  | TIS_INIT_IBM

text \<open>Byte offsets of the fields of the packed structures \<open>TIS_MMAP\<close> and \<open>TIS_ID\<close>.\<close>

record TIS_MMAP =
  access :: u32
  intf_capability :: u32
  sts_base :: u32
  data_fifo :: u32

definition mmap_at :: "u32 \<Rightarrow> TIS_MMAP" where
  "mmap_at a = \<lparr>access = a, intf_capability = a + 0x14, sts_base = a + 0x18, data_fifo = a + 0x24\<rparr>"

record TIS_ID =
  did_vid :: u32
  rid :: u32

definition id_at :: "u32 \<Rightarrow> TIS_ID" where
  "id_at a = \<lparr>did_vid = a, rid = a + 4\<rparr>"

abbreviation TIS_ACCESS_VALID :: u8 where "TIS_ACCESS_VALID \<equiv> 0x80"
abbreviation TIS_ACCESS_ACTIVE :: u8 where "TIS_ACCESS_ACTIVE \<equiv> 0x20"
abbreviation TIS_ACCESS_TO_SEIZE :: u8 where "TIS_ACCESS_TO_SEIZE \<equiv> 0x08"
abbreviation TIS_ACCESS_REQUEST :: u8 where "TIS_ACCESS_REQUEST \<equiv> 0x02"

abbreviation TIS_STS_VALID :: u8 where "TIS_STS_VALID \<equiv> 0x80"
abbreviation TIS_STS_CMD_READY :: u8 where "TIS_STS_CMD_READY \<equiv> 0x40"
abbreviation TIS_STS_TPM_GO :: u8 where "TIS_STS_TPM_GO \<equiv> 0x20"
abbreviation TIS_STS_DATA_AVAIL :: u8 where "TIS_STS_DATA_AVAIL \<equiv> 0x10"
abbreviation TIS_STS_EXPECT :: u8 where "TIS_STS_EXPECT \<equiv> 0x08"

abbreviation TIS_LOCALITY_0 :: u32 where "TIS_LOCALITY_0 \<equiv> 0"
abbreviation TIS_LOCALITY_2 :: u32 where "TIS_LOCALITY_2 \<equiv> 0x2000"
abbreviation TIS_LOCALITY_4 :: u32 where "TIS_LOCALITY_4 \<equiv> 0x4000"

abbreviation TIS_BUFFER_SIZE :: nat where "TIS_BUFFER_SIZE \<equiv> 1024"

section \<open>Localities\<close>

text \<open>\<open>tis_access\<close>: every mention of \<open>mmap->access\<close> is a read of its own.\<close>

definition tis_access :: "'d hw \<Rightarrow> u32 \<Rightarrow> bool \<Rightarrow> ('d world, unit) exec" where
  "tis_access hw locality force =
     bindE (ASSERT (locality \<noteq> TIS_LOCALITY_0 \<or> \<not> force)) (\<lambda>_.
     bindE (ASSERT (locality \<ge> TIS_LOCALITY_0 \<and> locality \<le> TIS_LOCALITY_4)) (\<lambda>_.
     bindE (modifyE (\<lambda>w. w\<lparr>w_locality := TIS_BASE + locality\<rparr>)) (\<lambda>_.
     let mmap = mmap_at (TIS_BASE + locality) in
     bindE (rd8 hw (access mmap)) (\<lambda>a.
     bindE (ERROR_if (a AND TIS_ACCESS_VALID = 0) ERROR_TIS_LOCALITY_REGISTER_INVALID) (\<lambda>_.
     bindE (rd8 hw (access mmap)) (\<lambda>a.
     bindE (ERROR_if (a = 0xff) ERROR_TIS_LOCALITY_REGISTER_INVALID) (\<lambda>_.
     bindE (rd8 hw (access mmap)) (\<lambda>a.
     bindE (ERROR_if (a AND TIS_ACCESS_ACTIVE \<noteq> 0) ERROR_TIS_LOCALITY_ALREADY_ACCESSED) (\<lambda>_.
     bindE (wr8 hw (access mmap) TIS_ACCESS_REQUEST) (\<lambda>_.
     bindE (wait hw 10) (\<lambda>_.
     bindE (wr8 hw (sts_base mmap) TIS_STS_CMD_READY) (\<lambda>_.
     bindE (if force
            then bindE (rd8 hw (access mmap)) (\<lambda>a.
              if a AND TIS_ACCESS_ACTIVE = 0
              then bindE (wr8 hw (access mmap) TIS_ACCESS_TO_SEIZE) (\<lambda>_.
                   bindE (wait hw 10) (\<lambda>_.
                   wr8 hw (sts_base mmap) TIS_STS_CMD_READY))
              else returnE ())
            else returnE ()) (\<lambda>_.
     bindE (rd8 hw (access mmap)) (\<lambda>a.
     ERROR_if (a AND TIS_ACCESS_ACTIVE = 0) ERROR_TIS_LOCALITY_ACCESS_TIMEOUT))))))))))))))"

text \<open>\<open>tis_deactivate_all\<close>: the loop over the localities 0 to 3 collects in \<open>res\<close>.\<close>

primrec deactivate_loop :: "'d hw \<Rightarrow> u32 list \<Rightarrow> u8 \<Rightarrow> ('d world, u8) exec" where
  "deactivate_loop hw [] res = returnE res"
| "deactivate_loop hw (i # is) res =
     (let mmap = mmap_at (TIS_BASE + push_bit 12 i) in
      bindE (rd8 hw (access mmap)) (\<lambda>a.
      if a \<noteq> 0xff
      then bindE (wr8 hw (access mmap) TIS_ACCESS_ACTIVE) (\<lambda>_.
           bindE (rd8 hw (access mmap)) (\<lambda>a.
           deactivate_loop hw is (res OR (a AND TIS_ACCESS_ACTIVE))))
      else deactivate_loop hw is res))"

definition tis_deactivate_all :: "'d hw \<Rightarrow> ('d world, unit) exec" where
  "tis_deactivate_all hw =
     bindE (deactivate_loop hw [0, 1, 2, 3] 0) (\<lambda>res.
     ERROR_if (res \<noteq> 0) ERROR_TIS_LOCALITY_DEACTIVATE)"

text \<open>\<open>tis_init\<close>: the vendor of the TPM, after the work-around for the ATMEL parts.\<close>

definition show_rev :: "'d hw \<Rightarrow> TIS_ID \<Rightarrow> string \<Rightarrow> TIS_TPM_VENDOR \<Rightarrow> ('d world, TIS_TPM_VENDOR) exec"
  where
  "show_rev hw tid s v =
     bindE (rd8 hw (rid tid)) (\<lambda>r.
     bindE (on_screen (out_description (str s) (ucast r))) (\<lambda>_.
     returnE v))"

definition tis_init :: "'d hw \<Rightarrow> ('d world, TIS_TPM_VENDOR) exec" where
  "tis_init hw =
     (let tid = id_at (TIS_BASE + 0xf00); mmap = mmap_at TIS_BASE in
      bindE (rd32w hw (did_vid tid)) (\<lambda>v.
      bindE (if v = - 1
             then bindE (rd32w hw (intf_capability mmap)) (\<lambda>c.
                  if c AND NOT 0x1fa = 5
                  then bindE (rd8 hw (access mmap)) (\<lambda>a.
                       if a AND 0xe8 = 0x80
                       then bindE (on_screen (out_info (str ''Fix DID/VID bug...''))) (\<lambda>_.
                            bindE (resultE (tis_access hw TIS_LOCALITY_0 False)) (\<lambda>_.
                            returnE ()))
                       else returnE ())
                  else returnE ())
             else returnE ()) (\<lambda>_.
      bindE (rd32w hw (did_vid tid)) (\<lambda>v.
      if v = 0x2e4d5453 \<or> v = 0x4a100000 \<or> v = 0x104a then show_rev hw tid ''STM rev:'' TIS_INIT_STM
      else if v = 0xb15d1 then show_rev hw tid ''Infineon rev:'' TIS_INIT_INFINEON
      else if v = 0x32021114 \<or> v = 0x32031114 then show_rev hw tid ''Atmel rev:'' TIS_INIT_ATMEL
      else if v = 0x100214E4 then show_rev hw tid ''Broadcom rev:'' TIS_INIT_BROADCOM
      else if v = 0x10001 then show_rev hw tid ''Qemu TPM rev:'' TIS_INIT_QEMU
      else if v = 0x11014 then show_rev hw tid ''IBM TPM rev:'' TIS_INIT_IBM
      else if v = 0 \<or> v = - 1
      then bindE (on_screen (out_info (str ''TPM not found!''))) (\<lambda>_. returnE TIS_INIT_NO_TPM)
      else bindE (rd32w hw (did_vid tid)) (\<lambda>v.
           bindE (on_screen (out_description (str ''TPM unknown! ID:'') v)) (\<lambda>_.
           returnE TIS_INIT_NO_TPM))))))"

section \<open>Transmission\<close>

text \<open>\<open>wait_state\<close>: at most 4000 polls of the status register, a millisecond apart.\<close>

primrec wait_state_loop :: "'d hw \<Rightarrow> TIS_MMAP \<Rightarrow> u8 \<Rightarrow> nat \<Rightarrow> ('d world, unit) exec" where
  "wait_state_loop hw mmap state 0 = returnE ()"
| "wait_state_loop hw mmap state (Suc n) =
     bindE (rd8 hw (sts_base mmap)) (\<lambda>s.
     if s AND state \<noteq> state
     then bindE (wait hw 1) (\<lambda>_. wait_state_loop hw mmap state n)
     else returnE ())"

definition wait_state :: "'d hw \<Rightarrow> TIS_MMAP \<Rightarrow> u8 \<Rightarrow> ('d world, unit) exec" where
  "wait_state hw mmap state = wait_state_loop hw mmap state 4000"

text \<open>The field \<open>paramSize\<close> of the packed \<open>TPM_COMMAND_HEADER\<close> at the start of a buffer.\<close>

definition paramSize :: "bytes \<Rightarrow> u32" where
  "paramSize buf = of_be32 (slice buf 2 4)"

text \<open>The loop of \<open>tis_write\<close> sends \<open>n\<close> more bytes from index \<open>i\<close> of \<open>tis_buffers.in\<close>.\<close>

primrec write_loop :: "'d hw \<Rightarrow> TIS_MMAP \<Rightarrow> nat \<Rightarrow> nat \<Rightarrow> ('d world, unit) exec" where
  "write_loop hw mmap 0 i = returnE ()"
| "write_loop hw mmap (Suc n) i =
     bindE (getE w_in) (\<lambda>buf.
     if i < length buf
     then bindE (wr8 hw (data_fifo mmap) (buf ! i)) (\<lambda>_. write_loop hw mmap n (Suc i))
     else stopE Fault)"

definition tis_write :: "'d hw \<Rightarrow> ('d world, int) exec" where
  "tis_write hw =
     bindE (getE (mmap_at \<circ> w_locality)) (\<lambda>mmap.
     bindE (rd8 hw (sts_base mmap)) (\<lambda>s.
     bindE (if s AND TIS_STS_CMD_READY = 0
            then bindE (wr8 hw (sts_base mmap) TIS_STS_CMD_READY) (\<lambda>_.
                 wait_state hw mmap TIS_STS_CMD_READY)
            else returnE ()) (\<lambda>_.
     bindE (rd8 hw (sts_base mmap)) (\<lambda>s.
     bindE (ERROR_if (s AND TIS_STS_CMD_READY = 0) ERROR_TIS_TRANSMIT) (\<lambda>_.
     bindE (getE (\<lambda>w. sint (paramSize (w_in w)))) (\<lambda>psize.
     bindE (write_loop hw mmap (nat psize) 0) (\<lambda>_.
     bindE (wait_state hw mmap TIS_STS_VALID) (\<lambda>_.
     bindE (rd8 hw (sts_base mmap)) (\<lambda>s.
     bindE (ERROR_if (s AND TIS_STS_EXPECT \<noteq> 0) ERROR_TIS_TRANSMIT) (\<lambda>_.
     bindE (wr8 hw (sts_base mmap) TIS_STS_TPM_GO) (\<lambda>_.
     returnE (max 0 psize))))))))))))"

text \<open>
  The loops of \<open>tis_read\<close> fetch at most \<open>n\<close> more bytes to index \<open>i\<close> of \<open>tis_buffers.out\<close>, while
  the TPM has data; nothing checks \<open>i\<close> against the size of the buffer.
\<close>

primrec read_loop :: "'d hw \<Rightarrow> TIS_MMAP \<Rightarrow> nat \<Rightarrow> nat \<Rightarrow> ('d world, nat) exec" where
  "read_loop hw mmap 0 i = returnE i"
| "read_loop hw mmap (Suc n) i =
     bindE (rd8 hw (sts_base mmap)) (\<lambda>s.
     if s AND TIS_STS_DATA_AVAIL \<noteq> 0
     then bindE (rd8 hw (data_fifo mmap)) (\<lambda>b.
          bindE (getE w_out) (\<lambda>buf.
          if i < length buf
          then bindE (modifyE (\<lambda>w. w\<lparr>w_out := (w_out w)[i := b]\<rparr>)) (\<lambda>_.
               read_loop hw mmap n (Suc i))
          else stopE Fault))
     else returnE i)"

definition tis_read :: "'d hw \<Rightarrow> ('d world, nat) exec" where
  "tis_read hw =
     bindE (getE (mmap_at \<circ> w_locality)) (\<lambda>mmap.
     bindE (wait_state hw mmap (TIS_STS_VALID OR TIS_STS_DATA_AVAIL)) (\<lambda>_.
     bindE (rd8 hw (sts_base mmap)) (\<lambda>s.
     bindE (ERROR_if (s AND TIS_STS_VALID = 0) ERROR_TIS_TRANSMIT) (\<lambda>_.
     bindE (read_loop hw mmap 6 0) (\<lambda>i.
     bindE (getE (\<lambda>w. sint (paramSize (w_out w)))) (\<lambda>psize.
     bindE (read_loop hw mmap (nat (psize - int i)) i) (\<lambda>i.
     bindE (rd8 hw (sts_base mmap)) (\<lambda>s.
     bindE (ERROR_if (s AND TIS_STS_DATA_AVAIL \<noteq> 0) ERROR_TIS_TRANSMIT) (\<lambda>_.
     bindE (wr8 hw (sts_base mmap) TIS_STS_CMD_READY) (\<lambda>_.
     returnE i))))))))))"

definition tis_transmit :: "'d hw \<Rightarrow> ('d world, unit) exec" where
  "tis_transmit hw = bindE (tis_write hw) (\<lambda>_. bindE (tis_read hw) (\<lambda>_. returnE ()))"

section \<open>A TPM behind the registers\<close>

text \<open>
  What the TCG PC Client TIS specification says of the status register and the data FIFO of an
  active locality. \<open>Idle\<close> has \<open>commandReady\<close> clear; \<open>Executing n r\<close> answers the next \<open>n\<close> status
  reads with \<open>stsValid\<close> clear and then offers the response \<open>r\<close>.
\<close>

datatype tis_state = Idle | Ready | Receiving bytes | Executing nat bytes

text \<open>
  A TPM: the state of its interface and of its core as functions of the hardware state, and what
  the core does with a command (how long it takes, what it answers, its next state).
\<close>

record ('d, 'c) tpm =
  tpm_if :: "'d \<Rightarrow> tis_state"
  tpm_core :: "'d \<Rightarrow> 'c"
  tpm_run :: "'c \<Rightarrow> bytes \<Rightarrow> nat \<times> bytes \<times> 'c"

text \<open>A command has been received in full when as many bytes came as its header announces.\<close>

definition complete :: "bytes \<Rightarrow> bool" where
  "complete c \<longleftrightarrow> 6 \<le> length c \<and> int (length c) = sint (paramSize c)"

fun sts_shows :: "tis_state \<Rightarrow> u8 \<Rightarrow> bool" where
  "sts_shows Idle v \<longleftrightarrow> v AND TIS_STS_CMD_READY = 0"
| "sts_shows Ready v \<longleftrightarrow> v AND TIS_STS_CMD_READY \<noteq> 0"
| "sts_shows (Receiving c) v \<longleftrightarrow>
     v AND TIS_STS_VALID \<noteq> 0 \<and> (v AND TIS_STS_EXPECT = 0 \<longleftrightarrow> complete c)"
| "sts_shows (Executing (Suc n) r) v \<longleftrightarrow> v AND TIS_STS_VALID = 0"
| "sts_shows (Executing 0 r) v \<longleftrightarrow>
     v AND TIS_STS_VALID \<noteq> 0 \<and> (v AND TIS_STS_DATA_AVAIL = 0 \<longleftrightarrow> r = [])"

fun after_poll :: "tis_state \<Rightarrow> tis_state" where
  "after_poll (Executing (Suc n) r) = Executing n r"
| "after_poll s = s"

definition same_tpm :: "('d, 'c) tpm \<Rightarrow> 'd \<Rightarrow> 'd \<Rightarrow> bool" where
  "same_tpm td d d' \<longleftrightarrow> tpm_if td d' = tpm_if td d \<and> tpm_core td d' = tpm_core td d"

definition tis_device :: "'d hw \<Rightarrow> u32 \<Rightarrow> ('d, 'c) tpm \<Rightarrow> bool" where
  "tis_device hw loc td \<longleftrightarrow>
     (\<forall>d v d'. hw_rd8 hw (sts_base (mmap_at loc)) d = (v, d') \<longrightarrow>
        sts_shows (tpm_if td d) v \<and> tpm_if td d' = after_poll (tpm_if td d) \<and>
        tpm_core td d' = tpm_core td d) \<and>
     (\<forall>d b. tpm_core td (hw_wr8 hw (data_fifo (mmap_at loc)) b d) = tpm_core td d \<and>
        (tpm_if td d = Ready \<longrightarrow>
           tpm_if td (hw_wr8 hw (data_fifo (mmap_at loc)) b d) = Receiving [b]) \<and>
        (\<forall>c. tpm_if td d = Receiving c \<longrightarrow>
           tpm_if td (hw_wr8 hw (data_fifo (mmap_at loc)) b d) = Receiving (c @ [b]))) \<and>
     (\<forall>d c n r k. tpm_if td d = Receiving c \<and> complete c \<and>
        tpm_run td (tpm_core td d) c = (n, r, k) \<longrightarrow>
        tpm_if td (hw_wr8 hw (sts_base (mmap_at loc)) TIS_STS_TPM_GO d) = Executing n r \<and>
        tpm_core td (hw_wr8 hw (sts_base (mmap_at loc)) TIS_STS_TPM_GO d) = k) \<and>
     (\<forall>d b r v d'. tpm_if td d = Executing 0 (b # r) \<and>
        hw_rd8 hw (data_fifo (mmap_at loc)) d = (v, d') \<longrightarrow>
        v = b \<and> tpm_if td d' = Executing 0 r \<and> tpm_core td d' = tpm_core td d) \<and>
     (\<forall>d. tpm_if td (hw_wr8 hw (sts_base (mmap_at loc)) TIS_STS_CMD_READY d) = Ready \<and>
        tpm_core td (hw_wr8 hw (sts_base (mmap_at loc)) TIS_STS_CMD_READY d) = tpm_core td d) \<and>
     (\<forall>d p v. same_tpm td d (hw_outb hw p v d)) \<and>
     (\<forall>d p. same_tpm td d (snd (hw_inb hw p d)))"

text \<open>The laws one by one.\<close>

lemmas tis_device_status = tis_device_def [THEN iffD1, THEN conjunct1, rule_format]
lemmas tis_device_rest = tis_device_def [THEN iffD1, THEN conjunct2]
lemmas tis_device_fifo_write = tis_device_rest [THEN conjunct1, rule_format]
lemmas tis_device_go = tis_device_rest [THEN conjunct2, THEN conjunct1, rule_format]
lemmas tis_device_fifo_read =
  tis_device_rest [THEN conjunct2, THEN conjunct2, THEN conjunct1, rule_format]
lemmas tis_device_ready =
  tis_device_rest [THEN conjunct2, THEN conjunct2, THEN conjunct2, THEN conjunct1, rule_format]
lemmas tis_device_ports =
  tis_device_rest [THEN conjunct2, THEN conjunct2, THEN conjunct2, THEN conjunct2, rule_format]

section \<open>Runs against a TPM\<close>

text \<open>
  \<open>runs td m w a x s k\<close>: from \<open>w\<close> the driver step \<open>m\<close> returns \<open>a\<close>, leaves \<open>x\<close> in the output
  buffer and the TPM in interface state \<open>s\<close> and core state \<open>k\<close>, and changes nothing else.
\<close>

definition runs :: "('d, 'c) tpm \<Rightarrow> ('d world, 'a) exec \<Rightarrow> 'd world \<Rightarrow> 'a \<Rightarrow> bytes \<Rightarrow> tis_state \<Rightarrow> 'c \<Rightarrow> bool"
  where
  "runs td m w a x s k \<longleftrightarrow>
     (\<exists>d'. m w = (Ok a, w\<lparr>w_dev := d', w_out := x\<rparr>) \<and> tpm_if td d' = s \<and> tpm_core td d' = k)"

lemma runsI:
  "m w = (Ok a, w\<lparr>w_dev := d', w_out := x\<rparr>) \<Longrightarrow> tpm_if td d' = s \<Longrightarrow> tpm_core td d' = k \<Longrightarrow>
   runs td m w a x s k"
  unfolding runs_def by blast

text \<open>Sequencing: the next step sees a world that differs from \<open>w\<close> in the hardware and the output
  buffer only.\<close>

lemma runs_bindE:
  assumes "runs td m w a x s k"
    and "\<And>d. tpm_if td d = s \<Longrightarrow> tpm_core td d = k \<Longrightarrow>
           runs td (f a) (w\<lparr>w_dev := d, w_out := x\<rparr>) b y t l"
  shows "runs td (bindE m f) w b y t l"
proof -
  obtain d where 1: "m w = (Ok a, w\<lparr>w_dev := d, w_out := x\<rparr>)" "tpm_if td d = s" "tpm_core td d = k"
    using assms(1) unfolding runs_def by blast
  obtain d' where "f a (w\<lparr>w_dev := d, w_out := x\<rparr>) = (Ok b, w\<lparr>w_dev := d', w_out := y\<rparr>)"
    and "tpm_if td d' = t" "tpm_core td d' = l"
    using assms(2) [OF 1(2,3)] unfolding runs_def by auto
  then show ?thesis using 1(1) by (intro runsI) (simp_all add: bindE_cases(1))
qed

lemma bindE_unit_right [simp]: "bindE m (\<lambda>_. returnE ()) = m"
proof -
  have "(\<lambda>_. returnE ()) = returnE" by (rule ext) simp
  then show ?thesis by simp
qed

lemma runs_get:
  "runs td (f (g w)) w a x s k \<Longrightarrow> runs td (bindE (getE g) f) w a x s k"
  by (simp add: runs_def getE_def bindE_def)

lemma runs_if: "c \<Longrightarrow> runs td m w a x s k \<Longrightarrow> runs td (if c then m else m') w a x s k"
  by simp

lemma runs_modify:
  assumes "runs td f (w\<lparr>w_out := h (w_out w)\<rparr>) a x s k"
  shows "runs td (bindE (modifyE (\<lambda>w. w\<lparr>w_out := h (w_out w)\<rparr>)) (\<lambda>_. f)) w a x s k"
  using assms by (simp add: runs_def modifyE_def bindE_def)

lemma runs_returnE:
  "tpm_if td (w_dev w) = s \<Longrightarrow> tpm_core td (w_dev w) = k \<Longrightarrow> w_out w = x \<Longrightarrow> runs td (returnE a) w a x s k"
  by (rule runsI [where d' = "w_dev w"]) (simp_all add: returnE_def)

lemma runs_getE:
  "tpm_if td (w_dev w) = s \<Longrightarrow> tpm_core td (w_dev w) = k \<Longrightarrow> w_out w = x \<Longrightarrow>
   f w = a \<Longrightarrow> runs td (getE f) w a x s k"
  by (rule runsI [where d' = "w_dev w"]) (simp_all add: getE_def)

text \<open>A status read.\<close>

lemma rd8_run: "hw_rd8 hw a (w_dev w) = (v, d') \<Longrightarrow> rd8 hw a w = (Ok v, w\<lparr>w_dev := d'\<rparr>)"
  by (simp add: rd8_def on_dev_def)

lemma wr8_run: "wr8 hw a v w = (Ok (), w\<lparr>w_dev := hw_wr8 hw a v (w_dev w)\<rparr>)"
  by (simp add: wr8_def on_dev_def)

lemma runs_status:
  assumes dev: "tis_device hw loc td"
  obtains v where "runs td (rd8 hw (sts_base (mmap_at loc))) w v (w_out w)
      (after_poll (tpm_if td (w_dev w))) (tpm_core td (w_dev w))"
    and "sts_shows (tpm_if td (w_dev w)) v"
proof -
  obtain v d' where r: "hw_rd8 hw (sts_base (mmap_at loc)) (w_dev w) = (v, d')"
    by (cases "hw_rd8 hw (sts_base (mmap_at loc)) (w_dev w)")
  note * = tis_device_status [OF dev r]
  show thesis
    by (rule that [OF _ * [THEN conjunct1]], rule runsI [where d' = d'])
      (simp_all add: rd8_run [OF r] *)
qed

lemma runs_fifo_write:
  assumes dev: "tis_device hw loc td"
    and st: "tpm_if td (w_dev w) = Ready \<and> c = [] \<or> tpm_if td (w_dev w) = Receiving c"
  shows "runs td (wr8 hw (data_fifo (mmap_at loc)) b) w () (w_out w)
    (Receiving (c @ [b])) (tpm_core td (w_dev w))"
  by (rule runsI [where d' = "hw_wr8 hw (data_fifo (mmap_at loc)) b (w_dev w)"])
    (use st tis_device_fifo_write [OF dev, where d = "w_dev w" and b = b] in \<open>auto simp: wr8_run\<close>)

lemma runs_fifo_read:
  assumes dev: "tis_device hw loc td" and st: "tpm_if td (w_dev w) = Executing 0 (b # r)"
  shows "runs td (rd8 hw (data_fifo (mmap_at loc))) w b (w_out w)
    (Executing 0 r) (tpm_core td (w_dev w))"
proof -
  obtain v d' where r: "hw_rd8 hw (data_fifo (mmap_at loc)) (w_dev w) = (v, d')"
    by (cases "hw_rd8 hw (data_fifo (mmap_at loc)) (w_dev w)")
  note * = tis_device_fifo_read [OF dev conjI, OF st r]
  show ?thesis by (rule runsI [where d' = d']) (simp_all add: rd8_run [OF r] *)
qed

lemma runs_go:
  assumes dev: "tis_device hw loc td"
    and st: "tpm_if td (w_dev w) = Receiving c" "complete c"
    and run: "tpm_run td (tpm_core td (w_dev w)) c = (n, r, k)"
  shows "runs td (wr8 hw (sts_base (mmap_at loc)) TIS_STS_TPM_GO) w () (w_out w) (Executing n r) k"
  by (rule runsI [where d' = "hw_wr8 hw (sts_base (mmap_at loc)) TIS_STS_TPM_GO (w_dev w)"])
    (simp_all add: wr8_run tis_device_go [OF dev conjI, OF st(1) conjI, OF st(2) run])

lemma runs_ready:
  assumes dev: "tis_device hw loc td"
  shows "runs td (wr8 hw (sts_base (mmap_at loc)) TIS_STS_CMD_READY) w () (w_out w)
    Ready (tpm_core td (w_dev w))"
  by (rule runsI [where d' = "hw_wr8 hw (sts_base (mmap_at loc)) TIS_STS_CMD_READY (w_dev w)"])
    (simp_all add: wr8_run tis_device_ready [OF dev])

text \<open>Waiting uses ports only.\<close>

lemma same_tpm_trans: "same_tpm td d d' \<Longrightarrow> same_tpm td d' d'' \<Longrightarrow> same_tpm td d d''"
  by (simp add: same_tpm_def)

lemma same_tpm_ports:
  assumes "tis_device hw loc td"
  shows "same_tpm td d (hw_outb hw p v d)" "hw_inb hw p d = (x, d') \<Longrightarrow> same_tpm td d d'"
  using tis_device_ports [OF assms] by (metis snd_conv)+

lemma wait_loop_same:
  "wait_loop hw ms old d = Some d' \<Longrightarrow> tis_device hw loc td \<Longrightarrow> same_tpm td d d'"
proof (induction rule: wait_loop.raw_induct [rotated 1, consumes 1, case_names step])
  case (step wl hw ms old d d')
  note dev = step.prems
  show ?case
  proof (cases "0 < sint ms")
    case True
    obtain lo d1 where lo: "hw_inb hw 0x40 (hw_outb hw 0x43 0 d) = (lo, d1)"
      by (cases "hw_inb hw 0x40 (hw_outb hw 0x43 0 d)")
    obtain hi d2 where hi: "hw_inb hw 0x40 d1 = (hi, d2)" by (cases "hw_inb hw 0x40 d1")
    have "same_tpm td d2 d'"
      by (rule step.IH [OF _ dev]) (use step.hyps True lo hi in \<open>simp add: Let_def\<close>)
    then show ?thesis
      using same_tpm_ports(1) [OF dev] same_tpm_ports(2) [OF dev lo] same_tpm_ports(2) [OF dev hi]
      by (meson same_tpm_trans)
  qed (use step.hyps in \<open>simp add: same_tpm_def\<close>)
qed

lemma runs_wait:
  assumes dev: "tis_device hw loc td" and timer: "wait_returns hw"
  shows "runs td (wait hw ms) w () (w_out w) (tpm_if td (w_dev w)) (tpm_core td (w_dev w))"
proof -
  let ?d = "hw_outb hw 0x40 0 (hw_outb hw 0x40 0 (hw_outb hw 0x43 0x34 (w_dev w)))"
  obtain w' where ok: "wait hw ms w = (Ok (), w')" using timer unfolding wait_returns_def by blast
  then obtain d' where d': "wait_loop hw (ms * 1193) 0 ?d = Some d'" "w' = w\<lparr>w_dev := d'\<rparr>"
    by (auto simp: wait_def Let_def split: option.splits)
  have "same_tpm td (w_dev w) ?d"
    using same_tpm_ports(1) [OF dev] by (meson same_tpm_trans)
  then have "same_tpm td (w_dev w) d'"
    using wait_loop_same [OF d'(1) dev] by (rule same_tpm_trans)
  then show ?thesis using ok d'(2) by (intro runsI [where d' = d']) (simp_all add: same_tpm_def)
qed

text \<open>Bits of the status register.\<close>

lemma and_one_bit: "(v :: 'a :: len word) AND 2 ^ n = (if bit v n then 2 ^ n else 0)"
  by (rule bit_eqI) (auto simp: bit_and_iff bit_exp_iff)

lemma sts_bits:
  fixes v :: u8
  shows "v AND 0x80 = 0 \<longleftrightarrow> \<not> bit v 7" "v AND 0x80 = 0x80 \<longleftrightarrow> bit v 7"
    "v AND 0x40 = 0 \<longleftrightarrow> \<not> bit v 6" "v AND 0x40 = 0x40 \<longleftrightarrow> bit v 6"
    "v AND 0x10 = 0 \<longleftrightarrow> \<not> bit v 4" "v AND 0x90 = 0x90 \<longleftrightarrow> bit v 7 \<and> bit v 4"
proof -
  have "v AND 0x90 = (v AND 2 ^ 7) OR (v AND 2 ^ 4)"
    by (simp flip: bit.conj_disj_distrib)
  then show "v AND 0x90 = 0x90 \<longleftrightarrow> bit v 7 \<and> bit v 4"
    unfolding and_one_bit by simp
  show "v AND 0x80 = 0 \<longleftrightarrow> \<not> bit v 7" "v AND 0x80 = 0x80 \<longleftrightarrow> bit v 7"
    using and_one_bit [of v 7] by simp_all
  show "v AND 0x40 = 0 \<longleftrightarrow> \<not> bit v 6" "v AND 0x40 = 0x40 \<longleftrightarrow> bit v 6"
    using and_one_bit [of v 6] by simp_all
  show "v AND 0x10 = 0 \<longleftrightarrow> \<not> bit v 4" using and_one_bit [of v 4] by simp
qed

text \<open>\<open>wait_state\<close> at a TPM that is receiving, that is ready, and that is busy for \<open>n\<close> polls.\<close>

lemma runs_wait_state_now:
  assumes dev: "tis_device hw loc td" and st: "after_poll (tpm_if td (w_dev w)) = tpm_if td (w_dev w)"
    and now: "\<And>v. sts_shows (tpm_if td (w_dev w)) v \<Longrightarrow> v AND state = state" and m: "0 < m"
  shows "runs td (wait_state_loop hw (mmap_at loc) state m) w () (w_out w)
    (tpm_if td (w_dev w)) (tpm_core td (w_dev w))"
proof -
  obtain v where v: "runs td (rd8 hw (sts_base (mmap_at loc))) w v (w_out w)
      (after_poll (tpm_if td (w_dev w))) (tpm_core td (w_dev w))"
    and "sts_shows (tpm_if td (w_dev w)) v"
    by (rule runs_status [OF dev])
  then have "v AND state = state" using now by blast
  moreover obtain k where "m = Suc k" using m by (cases m) auto
  ultimately show ?thesis by simp (rule runs_bindE [OF v], use st in \<open>simp add: runs_returnE\<close>)
qed

lemma runs_wait_state_busy:
  assumes dev: "tis_device hw loc td" and timer: "wait_returns hw" and r: "r \<noteq> []"
  shows "tpm_if td (w_dev w) = Executing n r \<Longrightarrow> n < m \<Longrightarrow>
    runs td (wait_state_loop hw (mmap_at loc) (TIS_STS_VALID OR TIS_STS_DATA_AVAIL) m) w () (w_out w)
      (Executing 0 r) (tpm_core td (w_dev w))"
proof (induction n arbitrary: m w)
  case 0
  show ?case
    using runs_wait_state_now [OF dev, of w "TIS_STS_VALID OR TIS_STS_DATA_AVAIL" m] 0 r
    by (simp add: sts_bits)
next
  case (Suc n)
  obtain k where m: "m = Suc k" "n < k" using Suc.prems(2) by (cases m) auto
  obtain v where v: "runs td (rd8 hw (sts_base (mmap_at loc))) w v (w_out w)
      (after_poll (tpm_if td (w_dev w))) (tpm_core td (w_dev w))"
    and "sts_shows (tpm_if td (w_dev w)) v"
    by (rule runs_status [OF dev])
  then have busy: "\<not> bit v 7" using Suc.prems(1) by (simp add: sts_bits)
  show ?case unfolding m wait_state_loop.simps
  proof (rule runs_bindE [OF v])
    fix d assume d: "tpm_if td d = after_poll (tpm_if td (w_dev w))"
      "tpm_core td d = tpm_core td (w_dev w)"
    let ?w = "w\<lparr>w_dev := d, w_out := w_out w\<rparr>"
    have *: "runs td (wait hw 1) ?w () (w_out w) (Executing n r) (tpm_core td (w_dev w))"
      using runs_wait [OF dev timer, of 1 ?w] d Suc.prems(1) by simp
    have "runs td (bindE (wait hw 1)
        (\<lambda>_. wait_state_loop hw (mmap_at loc) (TIS_STS_VALID OR TIS_STS_DATA_AVAIL) k)) ?w () (w_out w)
        (Executing 0 r) (tpm_core td (w_dev w))"
    proof (rule runs_bindE [OF *])
      fix e assume e: "tpm_if td e = Executing n r" "tpm_core td e = tpm_core td (w_dev w)"
      show "runs td (wait_state_loop hw (mmap_at loc) (TIS_STS_VALID OR TIS_STS_DATA_AVAIL) k)
          (?w\<lparr>w_dev := e, w_out := w_out w\<rparr>) () (w_out w) (Executing 0 r) (tpm_core td (w_dev w))"
        using Suc.IH [of "?w\<lparr>w_dev := e, w_out := w_out w\<rparr>" k] e m(2) by simp
    qed
    then show "runs td (if v AND (TIS_STS_VALID OR TIS_STS_DATA_AVAIL) \<noteq> TIS_STS_VALID OR TIS_STS_DATA_AVAIL
        then bindE (wait hw 1)
          (\<lambda>_. wait_state_loop hw (mmap_at loc) (TIS_STS_VALID OR TIS_STS_DATA_AVAIL) k)
        else returnE ()) ?w () (w_out w) (Executing 0 r) (tpm_core td (w_dev w))"
      using busy by (simp add: sts_bits)
  qed
qed

text \<open>The bytes of a command reach the TPM in order.\<close>

lemma runs_write_loop:
  assumes dev: "tis_device hw loc td"
  shows "tpm_if td (w_dev w) = Ready \<and> i = 0 \<or> tpm_if td (w_dev w) = Receiving (take i (w_in w)) \<Longrightarrow>
    i + Suc n \<le> length (w_in w) \<Longrightarrow>
    runs td (write_loop hw (mmap_at loc) (Suc n) i) w () (w_out w)
      (Receiving (take (i + Suc n) (w_in w))) (tpm_core td (w_dev w))"
proof (induction n arbitrary: i w)
  case 0
  have "runs td (wr8 hw (data_fifo (mmap_at loc)) (w_in w ! i)) w () (w_out w)
      (Receiving (take i (w_in w) @ [w_in w ! i])) (tpm_core td (w_dev w))"
    by (rule runs_fifo_write [OF dev]) (use 0 in auto)
  then show ?case unfolding write_loop.simps
    by (intro runs_get) (use 0 in \<open>simp add: take_Suc_conv_app_nth\<close>)
next
  case (Suc n)
  have *: "runs td (wr8 hw (data_fifo (mmap_at loc)) (w_in w ! i)) w () (w_out w)
      (Receiving (take i (w_in w) @ [w_in w ! i])) (tpm_core td (w_dev w))"
    by (rule runs_fifo_write [OF dev]) (use Suc.prems in auto)
  have "runs td (bindE (wr8 hw (data_fifo (mmap_at loc)) (w_in w ! i))
      (\<lambda>_. write_loop hw (mmap_at loc) (Suc n) (Suc i))) w () (w_out w)
      (Receiving (take (i + Suc (Suc n)) (w_in w))) (tpm_core td (w_dev w))"
  proof (rule runs_bindE [OF *])
    fix d assume d: "tpm_if td d = Receiving (take i (w_in w) @ [w_in w ! i])"
      "tpm_core td d = tpm_core td (w_dev w)"
    show "runs td (write_loop hw (mmap_at loc) (Suc n) (Suc i)) (w\<lparr>w_dev := d, w_out := w_out w\<rparr>)
        () (w_out w) (Receiving (take (i + Suc (Suc n)) (w_in w))) (tpm_core td (w_dev w))"
      using Suc.IH [of "w\<lparr>w_dev := d, w_out := w_out w\<rparr>" "Suc i"] Suc.prems d
      by (simp add: take_Suc_conv_app_nth del: write_loop.simps)
  qed
  then show ?case
    by (subst write_loop.simps, intro runs_get) (use Suc.prems in \<open>simp del: write_loop.simps\<close>)
qed

text \<open>The response reaches the output buffer in order.\<close>

lemma splice_Cons_update:
  "i < length x \<Longrightarrow> splice (x[i := b]) (Suc i) ys = splice x i (b # ys)"
  by (simp add: splice_def take_Suc_conv_app_nth drop_update_cancel)

lemma runs_read_loop:
  assumes dev: "tis_device hw loc td"
  shows "tpm_if td (w_dev w) = Executing 0 r \<Longrightarrow> i + min n (length r) \<le> length (w_out w) \<Longrightarrow>
    runs td (read_loop hw (mmap_at loc) n i) w (i + min n (length r)) (splice (w_out w) i (take n r))
      (Executing 0 (drop n r)) (tpm_core td (w_dev w))"
proof (induction n arbitrary: i w r)
  case 0
  then show ?case by (simp add: runs_returnE)
next
  case (Suc n)
  obtain v where v: "runs td (rd8 hw (sts_base (mmap_at loc))) w v (w_out w)
      (Executing 0 r) (tpm_core td (w_dev w))"
    and shows_v: "sts_shows (Executing 0 r) v"
    using Suc.prems(1) by (metis runs_status [OF dev] after_poll.simps(5))
  show ?case
  proof (cases r)
    case Nil
    then show ?thesis using shows_v Suc.prems
      by simp (rule runs_bindE [OF v], simp add: runs_returnE)
  next
    case (Cons b q)
    show ?thesis unfolding read_loop.simps
    proof (rule runs_bindE [OF v])
      fix d assume d: "tpm_if td d = Executing 0 r" "tpm_core td d = tpm_core td (w_dev w)"
      let ?w = "w\<lparr>w_dev := d, w_out := w_out w\<rparr>"
      have b: "runs td (rd8 hw (data_fifo (mmap_at loc))) ?w b (w_out w) (Executing 0 q)
          (tpm_core td (w_dev w))"
        using runs_fifo_read [OF dev, of ?w b q] d Cons by simp
      show "runs td (if v AND TIS_STS_DATA_AVAIL \<noteq> 0
          then bindE (rd8 hw (data_fifo (mmap_at loc))) (\<lambda>b. bindE (getE w_out) (\<lambda>buf.
            if i < length buf
            then bindE (modifyE (\<lambda>w. w\<lparr>w_out := (w_out w)[i := b]\<rparr>)) (\<lambda>_.
                 read_loop hw (mmap_at loc) n (Suc i))
            else stopE Fault))
          else returnE i) ?w (i + min (Suc n) (length r)) (splice (w_out w) i (take (Suc n) r))
          (Executing 0 (drop (Suc n) r)) (tpm_core td (w_dev w))"
      proof (rule runs_if, use shows_v Cons in simp, rule runs_bindE [OF b], rule runs_get)
        fix e assume e: "tpm_if td e = Executing 0 q" "tpm_core td e = tpm_core td (w_dev w)"
        let ?u = "?w\<lparr>w_dev := e, w_out := w_out w\<rparr>"
        let ?v = "w\<lparr>w_dev := e, w_out := (w_out w)[i := b]\<rparr>"
        have "runs td (read_loop hw (mmap_at loc) n (Suc i)) ?v (Suc i + min n (length q))
            (splice ((w_out w)[i := b]) (Suc i) (take n q)) (Executing 0 (drop n q)) (tpm_core td e)"
          using Suc.IH [of ?v q "Suc i"] e Suc.prems(2) Cons by simp
        then show "runs td (if i < length (w_out ?u)
            then bindE (modifyE (\<lambda>w. w\<lparr>w_out := (w_out w)[i := b]\<rparr>)) (\<lambda>_.
                 read_loop hw (mmap_at loc) n (Suc i))
            else stopE Fault) ?u (i + min (Suc n) (length r)) (splice (w_out w) i (take (Suc n) r))
            (Executing 0 (drop (Suc n) r)) (tpm_core td (w_dev w))"
          using Suc.prems(2) Cons e
          by (intro runs_if runs_modify) (simp_all add: splice_Cons_update)
      qed
    qed
  qed
qed

text \<open>\<open>tis_write\<close> delivers the command and starts it, \<open>tis_read\<close> fetches the response.\<close>

lemma runs_write_start:
  assumes dev: "tis_device hw loc td" and st: "tpm_if td (w_dev w) \<in> {Idle, Ready}"
  shows "runs td (bindE (rd8 hw (sts_base (mmap_at loc))) (\<lambda>s.
      if s AND TIS_STS_CMD_READY = 0
      then bindE (wr8 hw (sts_base (mmap_at loc)) TIS_STS_CMD_READY) (\<lambda>_.
           wait_state hw (mmap_at loc) TIS_STS_CMD_READY)
      else returnE ())) w () (w_out w) Ready (tpm_core td (w_dev w))"
proof -
  have poll: "after_poll (tpm_if td (w_dev w)) = tpm_if td (w_dev w)" using st by auto
  obtain v where v: "runs td (rd8 hw (sts_base (mmap_at loc))) w v (w_out w)
      (tpm_if td (w_dev w)) (tpm_core td (w_dev w))" and sh: "sts_shows (tpm_if td (w_dev w)) v"
    by (rule runs_status [OF dev, of w]) (simp add: poll)
  show ?thesis
  proof (rule runs_bindE [OF v])
    fix d assume d: "tpm_if td d = tpm_if td (w_dev w)" "tpm_core td d = tpm_core td (w_dev w)"
    let ?w = "w\<lparr>w_dev := d, w_out := w_out w\<rparr>"
    have r: "runs td (wr8 hw (sts_base (mmap_at loc)) TIS_STS_CMD_READY) ?w () (w_out w) Ready
        (tpm_core td (w_dev w))"
      using runs_ready [OF dev, of ?w] d by simp
    have "runs td (bindE (wr8 hw (sts_base (mmap_at loc)) TIS_STS_CMD_READY) (\<lambda>_.
        wait_state hw (mmap_at loc) TIS_STS_CMD_READY)) ?w () (w_out w) Ready (tpm_core td (w_dev w))"
    proof (rule runs_bindE [OF r])
      fix e assume "tpm_if td e = Ready" "tpm_core td e = tpm_core td (w_dev w)"
      then show "runs td (wait_state hw (mmap_at loc) TIS_STS_CMD_READY)
          (?w\<lparr>w_dev := e, w_out := w_out w\<rparr>) () (w_out w) Ready (tpm_core td (w_dev w))"
        using runs_wait_state_now [OF dev, of "?w\<lparr>w_dev := e, w_out := w_out w\<rparr>" TIS_STS_CMD_READY 4000]
        by (simp add: wait_state_def sts_bits)
    qed
    then show "runs td (if v AND TIS_STS_CMD_READY = 0
        then bindE (wr8 hw (sts_base (mmap_at loc)) TIS_STS_CMD_READY) (\<lambda>_.
             wait_state hw (mmap_at loc) TIS_STS_CMD_READY)
        else returnE ()) ?w () (w_out w) Ready (tpm_core td (w_dev w))"
      using st sh d by (auto simp: runs_returnE)
  qed
qed

text \<open>
  Runs as triples: \<open>w\<^sub>0\<close> fixes the rest of the world, the assertions are the output buffer and the
  state of the TPM.
\<close>

definition at :: "('d, 'c) tpm \<Rightarrow> 'd world \<Rightarrow> bytes \<Rightarrow> tis_state \<Rightarrow> 'c \<Rightarrow> 'd world \<Rightarrow> bool" where
  "at td w0 x s k w \<longleftrightarrow> (\<exists>d. w = w0\<lparr>w_dev := d, w_out := x\<rparr> \<and> tpm_if td d = s \<and> tpm_core td d = k)"

definition triple :: "('d, 'c) tpm \<Rightarrow> 'd world \<Rightarrow> bytes \<Rightarrow> tis_state \<Rightarrow> 'c \<Rightarrow> ('d world, 'a) exec \<Rightarrow>
    'a \<Rightarrow> bytes \<Rightarrow> tis_state \<Rightarrow> 'c \<Rightarrow> bool" where
  "triple td w0 x s k m a y t l \<longleftrightarrow>
     (\<forall>w. at td w0 x s k w \<longrightarrow> (\<exists>w'. m w = (Ok a, w') \<and> at td w0 y t l w'))"

lemma at_simps:
  assumes "at td w0 x s k w"
  shows "tpm_if td (w_dev w) = s" "tpm_core td (w_dev w) = k" "w_out w = x" "w_in w = w_in w0"
    "w_locality w = w_locality w0"
  using assms by (auto simp: at_def)

lemma tripleI:
  assumes "\<And>w. at td w0 x s k w \<Longrightarrow> runs td m w a y t l"
  shows "triple td w0 x s k m a y t l"
  unfolding triple_def
proof (intro allI impI)
  fix w assume w: "at td w0 x s k w"
  then obtain d where d: "w = w0\<lparr>w_dev := d, w_out := x\<rparr>" unfolding at_def by blast
  obtain e where "m w = (Ok a, w\<lparr>w_dev := e, w_out := y\<rparr>)" "tpm_if td e = t" "tpm_core td e = l"
    using assms [OF w] unfolding runs_def by blast
  then show "\<exists>w'. m w = (Ok a, w') \<and> at td w0 y t l w'" using d by (auto simp: at_def)
qed

lemma triple_bind:
  "triple td w0 x s k m a y t l \<Longrightarrow> triple td w0 y t l (f a) b z u o' \<Longrightarrow>
   triple td w0 x s k (bindE m f) b z u o'"
  unfolding triple_def by (metis bindE_cases(1))

lemma triple_get:
  "(\<And>w. at td w0 x s k w \<Longrightarrow> g w = a) \<Longrightarrow> triple td w0 x s k (f a) b z u o' \<Longrightarrow>
   triple td w0 x s k (bindE (getE g) f) b z u o'"
  by (erule triple_bind [rotated]) (rule tripleI, auto intro: runs_getE dest: at_simps)

lemma triple_returnE: "triple td w0 x s k (returnE a) a x s k"
  by (rule tripleI) (auto intro: runs_returnE dest: at_simps)

lemma triple_runs:
  assumes "triple td w x s k m a y t l" "w_out w = x" "tpm_if td (w_dev w) = s" "tpm_core td (w_dev w) = k"
  shows "runs td m w a y t l"
proof -
  have "at td w x s k w" unfolding at_def using assms(2-4) by (intro exI [of _ "w_dev w"]) auto
  then show ?thesis using assms(1) unfolding triple_def at_def runs_def by blast
qed

text \<open>A status read whose value passes a check.\<close>

lemma triple_check:
  assumes dev: "tis_device hw loc td" and s: "after_poll s = s"
    and ok: "\<And>v. sts_shows s v \<Longrightarrow> \<not> bad v"
    and rest: "triple td w0 x s k (f ()) b y t l"
  shows "triple td w0 x s k
    (bindE (rd8 hw (sts_base (mmap_at loc))) (\<lambda>v. bindE (ERROR_if (bad v) e) f)) b y t l"
  unfolding triple_def
proof (intro allI impI)
  fix w assume w: "at td w0 x s k w"
  obtain v where v: "runs td (rd8 hw (sts_base (mmap_at loc))) w v x s k" and sh: "sts_shows s v"
    by (rule runs_status [OF dev, of w]) (use s at_simps [OF w] in simp)
  obtain d where d: "rd8 hw (sts_base (mmap_at loc)) w = (Ok v, w\<lparr>w_dev := d, w_out := x\<rparr>)"
    "tpm_if td d = s" "tpm_core td d = k" using v unfolding runs_def by blast
  have "at td w0 x s k (w\<lparr>w_dev := d, w_out := x\<rparr>)" using w d(2,3) unfolding at_def by auto
  then show "\<exists>w'. bindE (rd8 hw (sts_base (mmap_at loc))) (\<lambda>v. bindE (ERROR_if (bad v) e) f) w = (Ok b, w')
      \<and> at td w0 y t l w'"
    using rest ok [OF sh] d(1) unfolding triple_def by (simp add: bindE_def ERROR_if_def returnE_def)
qed

lemma paramSize_take: "6 \<le> n \<Longrightarrow> paramSize (take n b) = paramSize b"
  by (simp add: paramSize_def drop_take min_def)

lemma triple_tis_write:
  assumes dev: "tis_device hw loc td" and st: "s \<in> {Idle, Ready}"
    and loc: "w_locality w0 = loc" and n: "sint (paramSize (w_in w0)) = int n" "6 \<le> n" "n \<le> length (w_in w0)"
    and run: "tpm_run td k (take n (w_in w0)) = (t, r, l)"
  shows "triple td w0 x s k (tis_write hw) (int n) x (Executing t r) l"
proof -
  let ?c = "take n (w_in w0)"
  have complete: "complete ?c" using n by (simp add: complete_def paramSize_take)
  obtain m where m: "n = Suc m" using n(2) by (cases n) auto
  have loop: "triple td w0 x Ready k (write_loop hw (mmap_at loc) n 0) () x (Receiving ?c) k"
  proof (rule tripleI)
    fix w assume w: "at td w0 x Ready k w"
    show "runs td (write_loop hw (mmap_at loc) n 0) w () x (Receiving ?c) k"
      using runs_write_loop [OF dev, of w 0 m] at_simps [OF w] n(3) m by simp
  qed
  have valid: "triple td w0 x (Receiving ?c) k (wait_state hw (mmap_at loc) TIS_STS_VALID) () x (Receiving ?c) k"
  proof (rule tripleI)
    fix w assume w: "at td w0 x (Receiving ?c) k w"
    show "runs td (wait_state hw (mmap_at loc) TIS_STS_VALID) w () x (Receiving ?c) k"
      using runs_wait_state_now [OF dev, of w TIS_STS_VALID 4000] at_simps [OF w]
      by (simp add: wait_state_def sts_bits)
  qed
  have go: "triple td w0 x (Receiving ?c) k (wr8 hw (sts_base (mmap_at loc)) TIS_STS_TPM_GO) () x (Executing t r) l"
  proof (rule tripleI)
    fix w assume w: "at td w0 x (Receiving ?c) k w"
    show "runs td (wr8 hw (sts_base (mmap_at loc)) TIS_STS_TPM_GO) w () x (Executing t r) l"
      using runs_go [OF dev _ complete, of w t r l] at_simps [OF w] run by simp
  qed
  have start: "triple td w0 x s k (bindE (rd8 hw (sts_base (mmap_at loc))) (\<lambda>s.
      if s AND TIS_STS_CMD_READY = 0
      then bindE (wr8 hw (sts_base (mmap_at loc)) TIS_STS_CMD_READY) (\<lambda>_.
           wait_state hw (mmap_at loc) TIS_STS_CMD_READY)
      else returnE ())) () x Ready k"
    (is "triple td w0 x s k ?start () x Ready k")
  proof (rule tripleI)
    fix w assume w: "at td w0 x s k w"
    show "runs td ?start w () x Ready k"
      using runs_write_start [OF dev, of w] at_simps [OF w] st by simp
  qed
  have max: "max 0 (int n) = int n" by simp
  show ?thesis unfolding tis_write_def
    apply (rule triple_get [where a = "mmap_at loc"], use loc in \<open>simp add: at_simps\<close>)
    apply (rule triple_bind [OF start, unfolded bindE_assoc])
    apply (rule triple_check [OF dev], simp, simp)
    apply (rule triple_get [where a = "int n"], use n in \<open>simp add: at_simps\<close>)
    apply (rule triple_bind, simp only: nat_int, rule loop)
    apply (rule triple_bind [OF valid])
    apply (rule triple_check [OF dev], simp, use complete in simp)
    apply (rule triple_bind [OF go])
    apply (simp only: max, rule triple_returnE)
    done
qed

lemma paramSize_splice:
  "6 \<le> length r \<Longrightarrow> 6 \<le> length x \<Longrightarrow> paramSize (splice x 0 (take 6 r)) = paramSize r"
  by (simp add: paramSize_def splice_def drop_take min_def)

lemma triple_wait_busy:
  assumes dev: "tis_device hw loc td" and timer: "wait_returns hw" and r: "r \<noteq> []" and t: "t < 4000"
  shows "triple td w0 x (Executing t r) k
      (wait_state hw (mmap_at loc) (TIS_STS_VALID OR TIS_STS_DATA_AVAIL)) () x (Executing 0 r) k"
proof (rule tripleI)
  fix w assume w: "at td w0 x (Executing t r) k w"
  show "runs td (wait_state hw (mmap_at loc) (TIS_STS_VALID OR TIS_STS_DATA_AVAIL)) w () x (Executing 0 r) k"
    using runs_wait_state_busy [OF dev timer, of r w t 4000] at_simps [OF w] r t
    unfolding wait_state_def by fastforce
qed

lemma triple_read_loop:
  assumes dev: "tis_device hw loc td" and z: "i + min n (length q) \<le> length z"
  shows "triple td w0 z (Executing 0 q) k (read_loop hw (mmap_at loc) n i) (i + min n (length q))
      (splice z i (take n q)) (Executing 0 (drop n q)) k"
proof (rule tripleI)
  fix w assume w: "at td w0 z (Executing 0 q) k w"
  show "runs td (read_loop hw (mmap_at loc) n i) w (i + min n (length q)) (splice z i (take n q))
      (Executing 0 (drop n q)) k"
    using runs_read_loop [OF dev, of w q i n] at_simps [OF w] z by simp
qed

lemma triple_tis_read:
  assumes dev: "tis_device hw loc td" and timer: "wait_returns hw" and loc: "w_locality w0 = loc"
    and r: "6 \<le> length r" "length r \<le> length x" "sint (paramSize r) = int (length r)" and t: "t < 4000"
  shows "triple td w0 x (Executing t r) k (tis_read hw) (length r) (splice x 0 r) Ready k"
proof -
  let ?y = "splice x 0 (take 6 r)"
  have "length (take 6 r) = 6" using r(1) by simp
  then have y: "splice ?y 6 (drop 6 r) = splice x 0 r" "length ?y = length x"
    using r splice_append [of 0 "take 6 r" "drop 6 r" x] by simp_all
  have head: "triple td w0 x (Executing 0 r) k (read_loop hw (mmap_at loc) 6 0) 6 ?y (Executing 0 (drop 6 r)) k"
    using triple_read_loop [OF dev, where i = 0 and q = r and z = x and n = 6] r by (simp add: min_def split: if_splits)
  have tail: "triple td w0 ?y (Executing 0 (drop 6 r)) k
      (read_loop hw (mmap_at loc) (nat (int (length r) - int 6)) 6) (length r) (splice x 0 r) (Executing 0 []) k"
    using triple_read_loop [OF dev, where i = 6 and q = "drop 6 r" and z = ?y and n = "length r - 6"] r y
    by (simp add: nat_diff_distrib)
  have ready: "triple td w0 (splice x 0 r) (Executing 0 []) k
      (wr8 hw (sts_base (mmap_at loc)) TIS_STS_CMD_READY) () (splice x 0 r) Ready k"
  proof (rule tripleI)
    fix w assume w: "at td w0 (splice x 0 r) (Executing 0 []) k w"
    show "runs td (wr8 hw (sts_base (mmap_at loc)) TIS_STS_CMD_READY) w () (splice x 0 r) Ready k"
      using runs_ready [OF dev, of w] at_simps [OF w] by simp
  qed
  show ?thesis unfolding tis_read_def
    apply (rule triple_get [where a = "mmap_at loc"], use loc in \<open>simp add: at_simps\<close>)
    apply (rule triple_bind [OF triple_wait_busy [OF dev timer _ t]], use r in force)
    apply (rule triple_check [OF dev], simp, simp)
    apply (rule triple_bind [OF head])
    apply (rule triple_get [where a = "int (length r)"], use r in \<open>simp add: at_simps paramSize_splice\<close>)
    apply (rule triple_bind [OF tail])
    apply (rule triple_check [OF dev], simp, simp)
    apply (rule triple_bind [OF ready])
    apply (rule triple_returnE)
    done
qed

text \<open>A request and its response.\<close>

lemma runs_tis_transmit:
  assumes dev: "tis_device hw (w_locality w) td" and timer: "wait_returns hw"
    and st: "tpm_if td (w_dev w) \<in> {Idle, Ready}"
    and n: "sint (paramSize (w_in w)) = int n" "6 \<le> n" "n \<le> length (w_in w)"
    and run: "tpm_run td (tpm_core td (w_dev w)) (take n (w_in w)) = (t, r, k)" and t: "t < 4000"
    and r: "6 \<le> length r" "length r \<le> length (w_out w)" "sint (paramSize r) = int (length r)"
  shows "runs td (tis_transmit hw) w () (splice (w_out w) 0 r) Ready k"
  unfolding tis_transmit_def
  by (rule triple_runs [OF triple_bind [OF triple_tis_write [OF dev st refl n run]
      triple_bind [OF triple_tis_read [OF dev timer refl r t] triple_returnE]]]) simp_all

end
