(* ===== verification/TPM_Sim.thy ===== *)
theory TPM_Sim
  imports TIS
begin

text \<open>
  A machine with an interval timer and a TPM at one locality, as an instance of the hardware
  parameter. It shows that the hypotheses \<open>tis_device\<close> and \<open>wait_returns\<close> of the theorems can hold,
  and the examples of the theorems run on it; what its TPM answers is a parameter again.
\<close>

record 'c sim =
  s_if :: tis_state
  s_core :: 'c
  s_access :: u8
  s_timer :: u16
  s_hi :: bool

type_synonym 'c run = "'c \<Rightarrow> bytes \<Rightarrow> nat \<times> bytes \<times> 'c"

fun sim_status :: "tis_state \<Rightarrow> u8" where
  "sim_status Idle = 0"
| "sim_status Ready = 0x40"
| "sim_status (Receiving c) = (if complete c then 0x80 else 0x88)"
| "sim_status (Executing (Suc n) r) = 0"
| "sim_status (Executing 0 r) = (if r = [] then 0x80 else 0x90)"

fun sim_fifo_write :: "u8 \<Rightarrow> tis_state \<Rightarrow> tis_state" where
  "sim_fifo_write b Ready = Receiving [b]"
| "sim_fifo_write b (Receiving c) = Receiving (c @ [b])"
| "sim_fifo_write b s = s"

fun sim_fifo_read :: "tis_state \<Rightarrow> u8 \<times> tis_state" where
  "sim_fifo_read (Executing 0 (b # r)) = (b, Executing 0 r)"
| "sim_fifo_read s = (0xff, s)"

definition sim_command :: "'c run \<Rightarrow> u8 \<Rightarrow> 'c sim \<Rightarrow> 'c sim" where
  "sim_command run v d =
     (if v = TIS_STS_CMD_READY then d\<lparr>s_if := Ready\<rparr>
      else case s_if d of
        Receiving c \<Rightarrow> (if v = TIS_STS_TPM_GO \<and> complete c
          then (case run (s_core d) c of (n, r, k) \<Rightarrow> d\<lparr>s_if := Executing n r, s_core := k\<rparr>) else d)
      | _ \<Rightarrow> d)"

definition sim_rd8 :: "u32 \<Rightarrow> u32 \<Rightarrow> 'c sim \<Rightarrow> u8 \<times> 'c sim" where
  "sim_rd8 loc a d =
     (if a = loc + 0x18 then (sim_status (s_if d), d\<lparr>s_if := after_poll (s_if d)\<rparr>)
      else if a = loc + 0x24 then (case sim_fifo_read (s_if d) of (b, s) \<Rightarrow> (b, d\<lparr>s_if := s\<rparr>))
      else if a = loc then (s_access d, d)
      else (0xff, d))"

definition sim_wr8 :: "'c run \<Rightarrow> u32 \<Rightarrow> u32 \<Rightarrow> u8 \<Rightarrow> 'c sim \<Rightarrow> 'c sim" where
  "sim_wr8 run loc a v d =
     (if a = loc + 0x18 then sim_command run v d
      else if a = loc + 0x24 then d\<lparr>s_if := sim_fifo_write v (s_if d)\<rparr>
      else if a = loc \<and> v = TIS_ACCESS_REQUEST then d\<lparr>s_access := 0xa0\<rparr>
      else if a = loc \<and> v = TIS_ACCESS_ACTIVE then d\<lparr>s_access := 0x80\<rparr>
      else d)"

text \<open>Channel 0 of the timer: mode 0x34 starts it at 0, a latch command steps it.\<close>

definition sim_outb :: "u16 \<Rightarrow> u8 \<Rightarrow> 'c sim \<Rightarrow> 'c sim" where
  "sim_outb p v d =
     (if p = 0x43 then d\<lparr>s_timer := (if v = 0x34 then 0 else s_timer d - 1), s_hi := False\<rparr> else d)"

definition sim_inb :: "u16 \<Rightarrow> 'c sim \<Rightarrow> u8 \<times> 'c sim" where
  "sim_inb p d =
     (if p = 0x40
      then (ucast (if s_hi d then drop_bit 8 (s_timer d) else s_timer d), d\<lparr>s_hi := \<not> s_hi d\<rparr>)
      else (0xff, d))"

definition sim_hw :: "'c run \<Rightarrow> u32 \<Rightarrow> 'c sim hw" where
  "sim_hw run loc =
     \<lparr>hw_inb = sim_inb, hw_outb = sim_outb, hw_inw = (\<lambda>p d. (- 1, d)), hw_outw = (\<lambda>p v d. d),
      hw_inl = (\<lambda>p d. (- 1, d)), hw_outl = (\<lambda>p v d. d),
      hw_rd8 = sim_rd8 loc, hw_wr8 = sim_wr8 run loc, hw_rd32 = (\<lambda>a d. (0x10001, d)),
      hw_wr32 = (\<lambda>a v d. d), hw_rdmsr = (\<lambda>a d. (0, d)), hw_wrmsr = (\<lambda>a v d. d),
      hw_cpuid_eax = (\<lambda>x. 0), hw_cpuid_ecx = (\<lambda>x. 0), hw_cpuid_edx = (\<lambda>x. 0)\<rparr>"

definition sim_tpm :: "'c run \<Rightarrow> ('c sim, 'c) tpm" where
  "sim_tpm run = \<lparr>tpm_if = s_if, tpm_core = s_core, tpm_run = run\<rparr>"

lemma sim_hw_simps [simp]:
  "hw_inb (sim_hw run loc) = sim_inb" "hw_outb (sim_hw run loc) = sim_outb"
  "hw_rd8 (sim_hw run loc) = sim_rd8 loc" "hw_wr8 (sim_hw run loc) = sim_wr8 run loc"
  "tpm_if (sim_tpm run) = s_if" "tpm_core (sim_tpm run) = s_core" "tpm_run (sim_tpm run) = run"
  by (simp_all add: sim_hw_def sim_tpm_def)

lemma sim_shows: "sts_shows s (sim_status s)"
  by (cases s rule: sim_status.cases) auto

lemma sim_is_tis_device: "tis_device (sim_hw run loc) loc (sim_tpm run)"
  unfolding tis_device_def
proof (intro conjI)
  show "\<forall>d v d'. hw_rd8 (sim_hw run loc) (sts_base (mmap_at loc)) d = (v, d') \<longrightarrow>
      sts_shows (tpm_if (sim_tpm run) d) v \<and>
      tpm_if (sim_tpm run) d' = after_poll (tpm_if (sim_tpm run) d) \<and>
      tpm_core (sim_tpm run) d' = tpm_core (sim_tpm run) d"
    by (auto simp: mmap_at_def sim_rd8_def sim_shows)
qed (auto simp: mmap_at_def sim_rd8_def sim_wr8_def sim_command_def same_tpm_def sim_outb_def
      sim_inb_def)

lemma timer_bytes:
  "ucast (ucast t :: u8) OR push_bit 8 (ucast (ucast (drop_bit 8 t) :: u8)) = (t :: u16)"
  using of_le16_le16 [of t] by (simp add: of_le16_def le16_def)

lemma sim_wait_loop:
  assumes timer: "hw_inb hw = sim_inb" "hw_outb hw = sim_outb"
  shows "\<exists>d'. wait_loop hw ms (s_timer d) d = Some d'"
proof (induction "nat (sint ms)" arbitrary: ms d)
  case 0
  then show ?case by (subst wait_loop.simps) simp
next
  case (Suc n)
  let ?d = "d\<lparr>s_timer := s_timer d - 1, s_hi := False\<rparr>"
  have pos: "0 < sint ms" using Suc.hyps(2) by linarith
  have "sint (ms - 1) = sint ms - 1"
    using pos sint_lt [of ms] by (simp add: sint_word_ariths signed_take_bit_int_eq_self)
  then have "n = nat (sint (ms - 1))" using Suc.hyps(2) by linarith
  then obtain d' where "wait_loop hw (ms - 1) (s_timer ?d) ?d = Some d'"
    using Suc.hyps(1) by blast
  then show ?case using pos timer_bytes [of "s_timer d - 1"]
    by (subst wait_loop.simps) (simp add: Let_def timer sim_outb_def sim_inb_def)
qed

lemma timer_wait_returns:
  assumes timer: "hw_inb hw = sim_inb" "hw_outb hw = sim_outb"
  shows "wait_returns hw"
  unfolding wait_returns_def
proof (intro allI)
  fix ms and w :: "'a sim world"
  let ?d = "hw_outb hw 0x40 0 (hw_outb hw 0x40 0 (hw_outb hw 0x43 0x34 (w_dev w)))"
  have "s_timer ?d = 0" by (simp add: timer sim_outb_def)
  then obtain d' where "wait_loop hw (ms * 1193) 0 ?d = Some d'"
    using sim_wait_loop [OF timer, of "ms * 1193" ?d] by metis
  then show "\<exists>w'. wait hw ms w = (Ok (), w')" by (simp add: wait_def Let_def)
qed

lemmas sim_wait_returns = timer_wait_returns [OF sim_hw_simps(1,2)]

text \<open>A world on this machine: an empty screen and heap, locality 2 active.\<close>

definition sim_world :: "'c \<Rightarrow> heap \<Rightarrow> 'c sim world" where
  "sim_world c h =
     \<lparr>w_dev = \<lparr>s_if = Idle, s_core = c, s_access = 0x80, s_timer = 0, s_hi = False\<rparr>,
      w_screen = \<lparr>scr_col = 0, scr_cells = replicate 2000 0\<rparr>,
      w_mem = (\<lambda>_. 0), w_kbd = \<lparr>scancode = 0, shift = False, capslock = False\<rparr>, w_code = 0x7c00,
      w_heap = h, w_in = replicate 1024 0, w_out = replicate 1024 0,
      w_locality = TIS_BASE + TIS_LOCALITY_2, w_sessions = [0, 0],
      w_objs = (\<lambda>_. \<lparr>authHandle = 0, nonceEven = replicate 20 0, nonceOdd = replicate 20 0,
        continueAuthSession = 0, osap = None\<rparr>),
      w_pctx = pack_init [] 0, w_uctx = unpack_init [] 0, w_sctx = sha1_ctx0, w_hctx = hmac_ctx0\<rparr>"

end
