(* ===== verification/TIS_Correct.thy ===== *)
theory TIS_Correct
  imports TPM_Sim
begin

text \<open>
  What the TPM interface driver guarantees: a request reaches the TPM unchanged and its response
  reaches the output buffer, the waits end, and where the driver trusts the TPM too much.
\<close>

section \<open>Errors\<close>

lemma wait_state_returns:
  assumes "wait_returns hw"
  shows "\<exists>w'. wait_state_loop hw mmap state n w = (Ok (), w')"
proof (induction n arbitrary: w)
  case (Suc n)
  obtain v d' where r: "rd8 hw (sts_base mmap) w = (Ok v, w\<lparr>w_dev := d'\<rparr>)"
    by (cases "hw_rd8 hw (sts_base mmap) (w_dev w)") (auto simp: rd8_run)
  obtain w' where "wait hw 1 (w\<lparr>w_dev := d'\<rparr>) = (Ok (), w')"
    using assms unfolding wait_returns_def by blast
  then show ?case using Suc r by (simp add: bindE_cases(1) returnE_def)
qed (simp add: returnE_def)

lemma read_loop_overflow:
  assumes dev: "tis_device hw loc td"
  shows "tpm_if td (w_dev w) = Executing 0 r \<Longrightarrow> i \<le> length (w_out w) \<Longrightarrow>
    length (w_out w) < i + length r \<Longrightarrow> length (w_out w) < i + n \<Longrightarrow>
    \<exists>w'. read_loop hw (mmap_at loc) n i w = (Stop Fault, w')"
proof (induction n arbitrary: i w r)
  case (Suc n)
  obtain b q where r: "r = b # q" using Suc.prems by (cases r) auto
  obtain v where v: "runs td (rd8 hw (sts_base (mmap_at loc))) w v (w_out w)
      (Executing 0 r) (tpm_core td (w_dev w))" and sh: "sts_shows (Executing 0 r) v"
    using Suc.prems(1) by (metis runs_status [OF dev] after_poll.simps(5))
  obtain d where d: "rd8 hw (sts_base (mmap_at loc)) w = (Ok v, w\<lparr>w_dev := d, w_out := w_out w\<rparr>)"
    "tpm_if td d = Executing 0 r" using v unfolding runs_def by blast
  let ?w = "w\<lparr>w_dev := d, w_out := w_out w\<rparr>"
  obtain e where e: "rd8 hw (data_fifo (mmap_at loc)) ?w = (Ok b, ?w\<lparr>w_dev := e, w_out := w_out w\<rparr>)"
    "tpm_if td e = Executing 0 q"
    using runs_fifo_read [OF dev, of ?w b q] d(2) r unfolding runs_def by auto
  show ?case
  proof (cases "i < length (w_out w)")
    case True
    let ?v = "w\<lparr>w_dev := e, w_out := (w_out w)[i := b]\<rparr>"
    have "\<exists>w'. read_loop hw (mmap_at loc) n (Suc i) ?v = (Stop Fault, w')"
      using Suc.IH [of ?v q "Suc i"] Suc.prems True e(2) r by simp
    then show ?thesis using True sh r d(1) e(1) by (simp add: bindE_def getE_def modifyE_def)
  qed (use sh r d(1) e(1) in \<open>simp add: bindE_def getE_def stopE_def\<close>)
qed simp

text \<open>Steps that run into a fault.\<close>

definition faults :: "('d, 'c) tpm \<Rightarrow> 'd world \<Rightarrow> bytes \<Rightarrow> tis_state \<Rightarrow> 'c \<Rightarrow> ('d world, 'a) exec \<Rightarrow> bool"
  where
  "faults td w0 x s k m \<longleftrightarrow> (\<forall>w. at td w0 x s k w \<longrightarrow> (\<exists>w'. m w = (Stop Fault, w')))"

lemma faults_bind:
  "triple td w0 x s k m a y t l \<Longrightarrow> faults td w0 y t l (f a) \<Longrightarrow> faults td w0 x s k (bindE m f)"
  unfolding triple_def faults_def by (metis bindE_cases(1))

lemma faults_here: "faults td w0 x s k m \<Longrightarrow> faults td w0 x s k (bindE m f)"
  unfolding faults_def by (metis bindE_cases(3))

lemma faults_get:
  assumes "\<And>w. at td w0 x s k w \<Longrightarrow> g w = a" "faults td w0 x s k (f a)"
  shows "faults td w0 x s k (bindE (getE g) f)"
proof -
  have "triple td w0 x s k (bindE (getE g) returnE) a x s k"
    by (rule triple_get [OF assms(1) triple_returnE])
  then have "triple td w0 x s k (getE g) a x s k" by simp
  from faults_bind [where f = f, OF this assms(2)] show ?thesis .
qed

lemma faults_check:
  assumes "tis_device hw loc td" "after_poll s = s" "\<And>v. sts_shows s v \<Longrightarrow> \<not> bad v"
    and "faults td w0 x s k (f ())"
  shows "faults td w0 x s k
    (bindE (rd8 hw (sts_base (mmap_at loc))) (\<lambda>v. bindE (ERROR_if (bad v) e) f))"
proof -
  have "triple td w0 x s k (bindE (rd8 hw (sts_base (mmap_at loc)))
      (\<lambda>v. bindE (ERROR_if (bad v) e) returnE)) () x s k"
    by (rule triple_check [OF assms(1-3)], assumption, rule triple_returnE)
  from faults_bind [where f = f, OF this assms(4)] show ?thesis by (simp add: bindE_assoc)
qed

section \<open>Properties\<close>

text \<open>
  C18: against a TPM that follows the TIS specification and answers within 4000 polls,
  \<open>tis_transmit\<close> delivers exactly the command in \<open>tis_buffers.in\<close> (as many bytes as its header
  announces), the TPM executes that command once, and its response is in \<open>tis_buffers.out\<close>
  afterwards; nothing else of the state changes and the TPM is ready for the next command.
\<close>

theorem tis_transmit_exchange:
  assumes "tis_device hw (w_locality w) td" "wait_returns hw" "tpm_if td (w_dev w) \<in> {Idle, Ready}"
    and "sint (paramSize (w_in w)) = int n" "6 \<le> n" "n \<le> length (w_in w)"
    and "tpm_run td (tpm_core td (w_dev w)) (take n (w_in w)) = (t, r, k)" "t < 4000"
    and "6 \<le> length r" "length r \<le> length (w_out w)" "sint (paramSize r) = int (length r)"
  shows "\<exists>d. tis_transmit hw w = (Ok (), w\<lparr>w_dev := d, w_out := splice (w_out w) 0 r\<rparr>) \<and>
    tpm_if td d = Ready \<and> tpm_core td d = k"
  using runs_tis_transmit [OF assms] unfolding runs_def by blast

text \<open>A TPM that takes three polls and echoes the command.\<close>

definition echo_world :: "nat sim world" where
  "echo_world = (sim_world 0 (\<lambda>_. \<lparr>mn_size = 0, mn_next = 0\<rparr>))
     \<lparr>w_in := [0, 0xc1, 0, 0, 0, 8, 1, 2] @ replicate 1016 0\<rparr>"

definition echo_run :: "nat run" where
  "echo_run k c = (3, c, Suc k)"

theorem tis_transmit_exchange_witness:
  "\<exists>d. tis_transmit (sim_hw echo_run (w_locality echo_world)) echo_world =
     (Ok (), echo_world\<lparr>w_dev := d,
       w_out := splice (w_out echo_world) 0 [0, 0xc1, 0, 0, 0, 8, 1, 2]\<rparr>) \<and>
     s_if d = Ready \<and> s_core d = 1"
proof -
  have "\<exists>d. tis_transmit (sim_hw echo_run (w_locality echo_world)) echo_world =
     (Ok (), echo_world\<lparr>w_dev := d,
       w_out := splice (w_out echo_world) 0 [0, 0xc1, 0, 0, 0, 8, 1, 2]\<rparr>) \<and>
     tpm_if (sim_tpm echo_run) d = Ready \<and> tpm_core (sim_tpm echo_run) d = 1"
    by (rule tis_transmit_exchange [where n = 8 and t = 3])
      (simp_all add: sim_is_tis_device sim_wait_returns echo_world_def sim_world_def echo_run_def
        paramSize_def of_be32_def)
  then show ?thesis by simp
qed

text \<open>
  the driver does not bound the response: a TPM that offers more bytes than
  \<open>tis_buffers.out\<close> holds, and announces them in the header, makes \<open>tis_read\<close> write behind the
  buffer.
\<close>

theorem tis_read_overflow:
  assumes "tis_device hw (w_locality w) td" "wait_returns hw" "tpm_if td (w_dev w) = Executing t r" "t < 4000"
    and "6 \<le> length (w_out w)" "length (w_out w) < length r"
    and "int (length (w_out w)) < sint (paramSize r)"
  shows "\<exists>w'. tis_read hw w = (Stop Fault, w')"
proof -
  let ?loc = "w_locality w" and ?k = "tpm_core td (w_dev w)" and ?x = "w_out w"
  let ?y = "splice ?x 0 (take 6 r)"
  note dev = assms(1)
  have len: "6 \<le> length r" "r \<noteq> []" "length ?y = length ?x" using assms(5,6) by auto
  have loop: "faults td w ?y (Executing 0 (drop 6 r)) ?k
      (read_loop hw (mmap_at ?loc) (nat (sint (paramSize r) - int 6)) 6)"
    unfolding faults_def
  proof (intro allI impI)
    fix v assume v: "at td w ?y (Executing 0 (drop 6 r)) ?k v"
    show "\<exists>v'. read_loop hw (mmap_at ?loc) (nat (sint (paramSize r) - int 6)) 6 v = (Stop Fault, v')"
      using read_loop_overflow [OF dev, of v "drop 6 r" 6 "nat (sint (paramSize r) - int 6)"]
        at_simps [OF v] len assms(5-7) by simp
  qed
  have head: "triple td w ?x (Executing 0 r) ?k (read_loop hw (mmap_at ?loc) 6 0) 6 ?y
      (Executing 0 (drop 6 r)) ?k"
    using triple_read_loop [OF dev, where i = 0 and n = 6 and q = r and z = ?x] len(1) assms(5)
    by (simp add: min_def split: if_splits)
  have "faults td w ?x (Executing t r) ?k (tis_read hw)" unfolding tis_read_def
    apply (rule faults_get [where a = "mmap_at ?loc"], simp add: at_simps)
    apply (rule faults_bind [OF triple_wait_busy [OF dev assms(2) len(2) assms(4)]])
    apply (rule faults_check [OF dev], simp, simp)
    apply (rule faults_bind [OF head])
    apply (rule faults_get [where a = "sint (paramSize r)"],
        use assms(5) len(1) in \<open>simp add: at_simps paramSize_splice\<close>)
    apply (rule faults_here [OF loop])
    done
  moreover have "at td w ?x (Executing t r) ?k w"
    unfolding at_def using assms(3) by (intro exI [of _ "w_dev w"]) simp
  ultimately show ?thesis unfolding faults_def by blast
qed

text \<open>A response of 1030 bytes.\<close>

definition flood_world :: "nat sim world" where
  "flood_world = echo_world\<lparr>w_dev := (w_dev echo_world)
     \<lparr>s_if := Executing 2 ([0, 0xc4, 0, 0, 4, 6] @ replicate 1024 0)\<rparr>\<rparr>"

theorem tis_read_overflow_witness:
  "\<exists>w'. tis_read (sim_hw echo_run (w_locality flood_world)) flood_world = (Stop Fault, w')"
  by (rule tis_read_overflow [where td = "sim_tpm echo_run" and t = 2
        and r = "[0, 0xc4, 0, 0, 4, 6] @ replicate 1024 0"])
    (simp_all add: sim_is_tis_device sim_wait_returns flood_world_def echo_world_def sim_world_def
      paramSize_def of_be32_def)

text \<open>
  C26: a TPM whose status never shows \<open>commandReady\<close> does not hang the driver: after the 4000
  polls \<open>tis_transmit\<close> reports \<open>ERROR_TIS_TRANSMIT\<close>.
\<close>

theorem tis_transmit_not_ready:
  assumes "wait_returns hw" and "\<And>d. fst (hw_rd8 hw (sts_base (mmap_at (w_locality w))) d) AND TIS_STS_CMD_READY = 0"
  shows "\<exists>w'. tis_transmit hw w = (Throw ERROR_TIS_TRANSMIT, w')"
proof -
  let ?mmap = "mmap_at (w_locality w)"
  have rd: "\<exists>v d. rd8 hw (sts_base ?mmap) u = (Ok v, u\<lparr>w_dev := d\<rparr>) \<and> v AND TIS_STS_CMD_READY = 0" for u
    using assms(2) [of "w_dev u"]
    by (cases "hw_rd8 hw (sts_base ?mmap) (w_dev u)") (auto simp: rd8_run)
  obtain v d where 1: "rd8 hw (sts_base ?mmap) w = (Ok v, w\<lparr>w_dev := d\<rparr>)" "v AND TIS_STS_CMD_READY = 0"
    using rd by blast
  obtain u where 2: "wr8 hw (sts_base ?mmap) TIS_STS_CMD_READY (w\<lparr>w_dev := d\<rparr>) = (Ok (), u)"
    by (simp add: wr8_run)
  obtain u' where 3: "wait_state hw ?mmap TIS_STS_CMD_READY u = (Ok (), u')"
    using wait_state_returns [OF assms(1)] unfolding wait_state_def by blast
  obtain v' d' where 4: "rd8 hw (sts_base ?mmap) u' = (Ok v', u'\<lparr>w_dev := d'\<rparr>)" "v' AND TIS_STS_CMD_READY = 0"
    using rd by blast
  have "tis_write hw w = (Throw ERROR_TIS_TRANSMIT, u'\<lparr>w_dev := d'\<rparr>)"
    using 1 2 3 4 by (simp add: tis_write_def bindE_def getE_def throwE_def)
  then show ?thesis by (simp add: tis_transmit_def bindE_def)
qed

text \<open>The machine without a TPM: every register reads as zero.\<close>

definition no_tpm_hw :: "nat sim hw" where
  "no_tpm_hw = (sim_hw echo_run 0)\<lparr>hw_rd8 := (\<lambda>a d. (0, d))\<rparr>"

theorem tis_transmit_not_ready_witness:
  "\<exists>w'. tis_transmit no_tpm_hw echo_world = (Throw ERROR_TIS_TRANSMIT, w')"
  by (rule tis_transmit_not_ready) (simp_all add: no_tpm_hw_def timer_wait_returns)

text \<open>
  \<open>tis_access\<close> with a timer that works returns, or throws one of the three errors its
  comment lists; when it returns, the driver is set to that locality and the last value it read
  from the access register had \<open>activeLocality\<close> set.
\<close>

theorem tis_access_outcomes:
  assumes timer: "wait_returns hw" and loc: "locality \<le> TIS_LOCALITY_4" "locality \<noteq> TIS_LOCALITY_0 \<or> \<not> force"
    and run: "tis_access hw locality force w = (r, w')"
  shows "w_locality w' = TIS_BASE + locality \<and>
    (r = Ok () \<and> (\<exists>v d. hw_rd8 hw (TIS_BASE + locality) d = (v, w_dev w') \<and> v AND TIS_ACCESS_ACTIVE \<noteq> 0) \<or>
     r \<in> Throw ` {ERROR_TIS_LOCALITY_REGISTER_INVALID, ERROR_TIS_LOCALITY_ACCESS_TIMEOUT,
       ERROR_TIS_LOCALITY_ALREADY_ACCESSED})"
    (is "?Q r w'")
proof -
  have "wpE (tis_access hw locality force) ?Q w"
    unfolding tis_access_def Let_def using loc
    by (auto simp: wp_simps mmap_at_def simp del: bindE_run intro!: wpE_wait [OF timer] split: prod.split)
      blast+
  then show ?thesis using run by (simp add: wpE_run)
qed

theorem tis_access_outcomes_witness:
  "\<exists>r w'. tis_access (sim_hw echo_run (TIS_BASE + TIS_LOCALITY_2)) TIS_LOCALITY_2 True echo_world = (r, w') \<and>
     w_locality w' = TIS_BASE + TIS_LOCALITY_2"
proof -
  let ?hw = "sim_hw echo_run (TIS_BASE + TIS_LOCALITY_2)"
  obtain r w' where "tis_access ?hw TIS_LOCALITY_2 True echo_world = (r, w')"
    by (cases "tis_access ?hw TIS_LOCALITY_2 True echo_world")
  with tis_access_outcomes [OF sim_wait_returns _ _ this] show ?thesis by auto
qed

end
