(* ===== verification/TPM.thy ===== *)
theory TPM
  imports TIS_Correct
begin

text \<open>
  The TPM commands (\<^verbatim>\<open>src/tpm.c\<close>, \<^verbatim>\<open>include/tpm.h\<close>). Each command packs a request into
  \<open>tis_buffers.in\<close>, transmits it, and unpacks the response from \<open>tis_buffers.out\<close>; the authorised
  commands compute HMACs over both on the way. A parameter \<open>TPM_SESSION **session\<close> is \<open>None\<close> for
  \<open>NULL\<close> or an index of the array \<open>sessions\<close>; \<open>hp\<close> is the address of the heap.
\<close>

section \<open>Constants\<close>

abbreviation TPM_TAG_RQU_COMMAND :: u16 where "TPM_TAG_RQU_COMMAND \<equiv> 0xc1"
abbreviation TPM_TAG_RQU_AUTH1_COMMAND :: u16 where "TPM_TAG_RQU_AUTH1_COMMAND \<equiv> 0xc2"
abbreviation TPM_TAG_RQU_AUTH2_COMMAND :: u16 where "TPM_TAG_RQU_AUTH2_COMMAND \<equiv> 0xc3"
abbreviation TPM_TAG_RSP_COMMAND :: u16 where "TPM_TAG_RSP_COMMAND \<equiv> 0xc4"
abbreviation TPM_TAG_RSP_AUTH1_COMMAND :: u16 where "TPM_TAG_RSP_AUTH1_COMMAND \<equiv> 0xc5"
abbreviation TPM_TAG_RSP_AUTH2_COMMAND :: u16 where "TPM_TAG_RSP_AUTH2_COMMAND \<equiv> 0xc6"

abbreviation TPM_ORD_OIAP :: u32 where "TPM_ORD_OIAP \<equiv> 0x0A"
abbreviation TPM_ORD_OSAP :: u32 where "TPM_ORD_OSAP \<equiv> 0x0B"
abbreviation TPM_ORD_Extend :: u32 where "TPM_ORD_Extend \<equiv> 0x14"
abbreviation TPM_ORD_PcrRead :: u32 where "TPM_ORD_PcrRead \<equiv> 0x15"
abbreviation TPM_ORD_Seal :: u32 where "TPM_ORD_Seal \<equiv> 0x17"
abbreviation TPM_ORD_Unseal :: u32 where "TPM_ORD_Unseal \<equiv> 0x18"
abbreviation TPM_ORD_Sealx :: u32 where "TPM_ORD_Sealx \<equiv> 0x3D"
abbreviation TPM_ORD_GetRandom :: u32 where "TPM_ORD_GetRandom \<equiv> 0x46"
abbreviation TPM_ORD_Startup :: u32 where "TPM_ORD_Startup \<equiv> 0x99"
abbreviation TPM_ORD_NV_WriteValueAuth :: u32 where "TPM_ORD_NV_WriteValueAuth \<equiv> 0xCE"
abbreviation TPM_ORD_NV_ReadValue :: u32 where "TPM_ORD_NV_ReadValue \<equiv> 0xCF"

record HEAP_DATA =
  hd_dataSize :: u32
  hd_data :: bytes

section \<open>The contexts of a command\<close>

text \<open>The hash argument of a marshalling call: \<open>NULL\<close>, \<open>&sctx\<close> or \<open>&hctx.sctx\<close>.\<close>

datatype sink = NoHash | Sctx | Hctx

fun get_sink :: "sink \<Rightarrow> 'd world \<Rightarrow> SHA1_Context option" where
  "get_sink NoHash w = None"
| "get_sink Sctx w = Some (w_sctx w)"
| "get_sink Hctx w = Some (hmac_sctx (w_hctx w))"

fun put_sink :: "sink \<Rightarrow> SHA1_Context option \<Rightarrow> 'd world \<Rightarrow> 'd world" where
  "put_sink Sctx (Some c) w = w\<lparr>w_sctx := c\<rparr>"
| "put_sink Hctx (Some c) w = w\<lparr>w_hctx := (w_hctx w)\<lparr>hmac_sctx := c\<rparr>\<rparr>"
| "put_sink k c w = w"

text \<open>A marshalling call with \<open>&pctx\<close>, whose buffer is \<open>tis_buffers.in\<close>; one with \<open>NULL\<close>.\<close>

definition pk :: "sink \<Rightarrow> (pstate, unit) exec \<Rightarrow> ('d world, unit) exec" where
  "pk k m = (\<lambda>w. case m (Some ((w_pctx w)\<lparr>pack_buffer := w_in w\<rparr>), get_sink k w) of
     (r, (Some p, c)) \<Rightarrow> (r, put_sink k c (w\<lparr>w_pctx := p, w_in := pack_buffer p\<rparr>))
   | (r, (None, c)) \<Rightarrow> (r, put_sink k c w))"

definition hs :: "sink \<Rightarrow> (pstate, unit) exec \<Rightarrow> ('d world, unit) exec" where
  "hs k m = (\<lambda>w. case m (None, get_sink k w) of (r, (_, c)) \<Rightarrow> (r, put_sink k c w))"

text \<open>The same for unmarshalling, from \<open>tis_buffers.out\<close>.\<close>

definition un :: "sink \<Rightarrow> (ustate, 'a) exec \<Rightarrow> ('d world, 'a) exec" where
  "un k m = (\<lambda>w. case m (Some ((w_uctx w)\<lparr>unpack_buffer := w_out w\<rparr>), get_sink k w, w_heap w) of
     (r, (Some u, c, h)) \<Rightarrow> (r, put_sink k c (w\<lparr>w_uctx := u, w_heap := h\<rparr>))
   | (r, (None, c, h)) \<Rightarrow> (r, put_sink k c (w\<lparr>w_heap := h\<rparr>)))"

definition unh :: "sink \<Rightarrow> (ustate, 'a) exec \<Rightarrow> ('d world, 'a) exec" where
  "unh k m = (\<lambda>w. case m (None, get_sink k w, w_heap w) of
     (r, (_, c, h)) \<Rightarrow> (r, put_sink k c (w\<lparr>w_heap := h\<rparr>)))"

definition on_s :: "(SHA1_Context \<Rightarrow> SHA1_Context) \<Rightarrow> ('d world, unit) exec" where
  "on_s f = modifyE (\<lambda>w. w\<lparr>w_sctx := f (w_sctx w)\<rparr>)"

definition on_h :: "(HMAC_Context, unit) exec \<Rightarrow> ('d world, unit) exec" where
  "on_h m = (\<lambda>w. case resultE m (w_hctx w) of
     (Ok _, c) \<Rightarrow> (Ok (), w\<lparr>w_hctx := c\<rparr>)
   | (Throw e, c) \<Rightarrow> (Throw e, w\<lparr>w_hctx := c\<rparr>)
   | (Stop x, c) \<Rightarrow> (Stop x, w\<lparr>w_hctx := c\<rparr>))"

definition start_pack :: "('d world, unit) exec" where
  "start_pack = modifyE (\<lambda>w. w\<lparr>w_pctx := pack_init (w_in w) 1024\<rparr>)"

text \<open>The end of the packing phase, the exchange, and the start of unpacking.\<close>

definition transmit :: "'d hw \<Rightarrow> u32 \<Rightarrow> ('d world, unit) exec" where
  "transmit hw paramSize_in =
     bindE (getE (pack_finish \<circ> w_pctx)) (\<lambda>packed.
     bindE (ASSERT (packed = paramSize_in)) (\<lambda>_.
     bindE (tis_transmit hw) (\<lambda>_.
     modifyE (\<lambda>w. w\<lparr>w_uctx := unpack_init (w_out w) 1024\<rparr>))))"

text \<open>The checks that end the unpacking phase.\<close>

definition check_out :: "u32 \<Rightarrow> u16 \<Rightarrow> u16 \<Rightarrow> ('d world, unit) exec" where
  "check_out paramSize_out tag_out tag =
     bindE (getE (unpack_finish \<circ> w_uctx)) (\<lambda>unpacked.
     bindE (ERROR_if (unpacked \<noteq> paramSize_out) ERROR_TPM_BAD_OUTPUT_PARAM) (\<lambda>_.
     ERROR_if (tag_out \<noteq> tag) ERROR_TPM_BAD_OUTPUT_PARAM))"

text \<open>Session objects: \<open>s->field\<close> and assignments through \<open>s\<close>.\<close>

definition sess :: "u32 \<Rightarrow> (TPM_SESSION \<Rightarrow> 'a) \<Rightarrow> ('d world, 'a) exec" where
  "sess s f = (if s = 0 then stopE Fault else getE (\<lambda>w. f (w_objs w s)))"

definition set_sess :: "u32 \<Rightarrow> (TPM_SESSION \<Rightarrow> TPM_SESSION) \<Rightarrow> ('d world, unit) exec" where
  "set_sess s f =
     (if s = 0 then stopE Fault else modifyE (\<lambda>w. w\<lparr>w_objs := (w_objs w)(s := f (w_objs w s))\<rparr>))"

definition set_session :: "nat \<Rightarrow> u32 \<Rightarrow> ('d world, unit) exec" where
  "set_session i p = modifyE (\<lambda>w. w\<lparr>w_sessions := (w_sessions w)[i := p]\<rparr>)"

section \<open>Commands without authorisation\<close>

definition TPM_Startup :: "'d hw \<Rightarrow> u16 \<Rightarrow> ('d world, unit) exec" where
  "TPM_Startup hw startupType_in =
     (let paramSize_in = 2 + 4 + 4 + 2 in
      bindE start_pack (\<lambda>_.
      bindE (pk NoHash (marshal_UINT16 TPM_TAG_RQU_COMMAND)) (\<lambda>_.
      bindE (pk NoHash (marshal_UINT32 paramSize_in)) (\<lambda>_.
      bindE (pk NoHash (marshal_UINT32 TPM_ORD_Startup)) (\<lambda>_.
      bindE (pk NoHash (marshal_UINT16 startupType_in)) (\<lambda>_.
      bindE (transmit hw paramSize_in) (\<lambda>_.
      bindE (un NoHash (unmarshal_UINT16 0)) (\<lambda>tag_out.
      bindE (un NoHash (unmarshal_UINT32 0)) (\<lambda>paramSize_out.
      bindE (un NoHash (unmarshal_UINT32 0)) (\<lambda>res.
      bindE (TPM_ERROR_if res) (\<lambda>_.
      check_out paramSize_out tag_out TPM_TAG_RSP_COMMAND)))))))))))"

text \<open>The result is what the command writes to \<open>randomBytes_out\<close>.\<close>

definition TPM_GetRandom :: "'d hw \<Rightarrow> u32 \<Rightarrow> ('d world, bytes) exec" where
  "TPM_GetRandom hw bytesRequested_in =
     (let paramSize_in = 2 + 4 + 4 + 4 in
      bindE start_pack (\<lambda>_.
      bindE (pk NoHash (marshal_UINT16 TPM_TAG_RQU_COMMAND)) (\<lambda>_.
      bindE (pk NoHash (marshal_UINT32 paramSize_in)) (\<lambda>_.
      bindE (pk NoHash (marshal_UINT32 TPM_ORD_GetRandom)) (\<lambda>_.
      bindE (pk NoHash (marshal_UINT32 bytesRequested_in)) (\<lambda>_.
      bindE (transmit hw paramSize_in) (\<lambda>_.
      bindE (un NoHash (unmarshal_UINT16 0)) (\<lambda>tag_out.
      bindE (un NoHash (unmarshal_UINT32 0)) (\<lambda>paramSize_out.
      bindE (un NoHash (unmarshal_UINT32 0)) (\<lambda>res.
      bindE (TPM_ERROR_if res) (\<lambda>_.
      bindE (un NoHash (unmarshal_UINT32 0)) (\<lambda>randomBytesSize_out.
      bindE (ERROR_if (bytesRequested_in \<noteq> randomBytesSize_out) ERROR_TPM_BAD_OUTPUT_PARAM) (\<lambda>_.
      bindE (un NoHash (unmarshal_array [] randomBytesSize_out)) (\<lambda>randomBytes_out.
      bindE (check_out paramSize_out tag_out TPM_TAG_RSP_COMMAND) (\<lambda>_.
      returnE randomBytes_out)))))))))))))))"

definition TPM_PCRRead :: "'d hw \<Rightarrow> u32 \<Rightarrow> ('d world, TPM_PCRVALUE) exec" where
  "TPM_PCRRead hw pcrIndex_in =
     (let paramSize_in = 2 + 4 + 4 + 4 in
      bindE start_pack (\<lambda>_.
      bindE (pk NoHash (marshal_UINT16 TPM_TAG_RQU_COMMAND)) (\<lambda>_.
      bindE (pk NoHash (marshal_UINT32 paramSize_in)) (\<lambda>_.
      bindE (pk NoHash (marshal_UINT32 TPM_ORD_PcrRead)) (\<lambda>_.
      bindE (pk NoHash (marshal_UINT32 pcrIndex_in)) (\<lambda>_.
      bindE (transmit hw paramSize_in) (\<lambda>_.
      bindE (un NoHash (unmarshal_UINT16 0)) (\<lambda>tag_out.
      bindE (un NoHash (unmarshal_UINT32 0)) (\<lambda>paramSize_out.
      bindE (un NoHash (unmarshal_UINT32 0)) (\<lambda>res.
      bindE (TPM_ERROR_if res) (\<lambda>_.
      bindE (un NoHash (unmarshal_array [] 20)) (\<lambda>ret.
      bindE (check_out paramSize_out tag_out TPM_TAG_RSP_COMMAND) (\<lambda>_.
      returnE ret)))))))))))))"

definition TPM_Extend :: "'d hw \<Rightarrow> u32 \<Rightarrow> TPM_DIGEST \<Rightarrow> ('d world, TPM_PCRVALUE) exec" where
  "TPM_Extend hw pcrNum_in inDigest_in =
     (let paramSize_in = 2 + 4 + 4 + 4 + 20 in
      bindE start_pack (\<lambda>_.
      bindE (pk NoHash (marshal_UINT16 TPM_TAG_RQU_COMMAND)) (\<lambda>_.
      bindE (pk NoHash (marshal_UINT32 paramSize_in)) (\<lambda>_.
      bindE (pk NoHash (marshal_UINT32 TPM_ORD_Extend)) (\<lambda>_.
      bindE (pk NoHash (marshal_UINT32 pcrNum_in)) (\<lambda>_.
      bindE (pk NoHash (marshal_array inDigest_in 20)) (\<lambda>_.
      bindE (transmit hw paramSize_in) (\<lambda>_.
      bindE (un NoHash (unmarshal_UINT16 0)) (\<lambda>tag_out.
      bindE (un NoHash (unmarshal_UINT32 0)) (\<lambda>paramSize_out.
      bindE (un NoHash (unmarshal_UINT32 0)) (\<lambda>res.
      bindE (TPM_ERROR_if res) (\<lambda>_.
      bindE (un NoHash (unmarshal_array [] 20)) (\<lambda>ret.
      bindE (check_out paramSize_out tag_out TPM_TAG_RSP_COMMAND) (\<lambda>_.
      returnE ret))))))))))))))"

text \<open>
  \<open>alloc\<close> may return \<open>NULL\<close>: the first field of the session is then at address 0, which the
  \<open>ASSERT(val)\<close> of \<open>unmarshal_UINT32\<close> catches.
\<close>

definition TPM_OIAP :: "'d hw \<Rightarrow> u32 \<Rightarrow> nat option \<Rightarrow> ('d world, unit) exec" where
  "TPM_OIAP hw hp session =
     (let paramSize_in = 2 + 4 + 4 in
      bindE (ASSERT (session \<noteq> None)) (\<lambda>_.
      bindE start_pack (\<lambda>_.
      bindE (pk NoHash (marshal_UINT16 TPM_TAG_RQU_COMMAND)) (\<lambda>_.
      bindE (pk NoHash (marshal_UINT32 paramSize_in)) (\<lambda>_.
      bindE (pk NoHash (marshal_UINT32 TPM_ORD_OIAP)) (\<lambda>_.
      bindE (transmit hw paramSize_in) (\<lambda>_.
      bindE (un NoHash (unmarshal_UINT16 0)) (\<lambda>tag_out.
      bindE (un NoHash (unmarshal_UINT32 0)) (\<lambda>paramSize_out.
      bindE (un NoHash (unmarshal_UINT32 0)) (\<lambda>res.
      bindE (TPM_ERROR_if res) (\<lambda>_.
      bindE (on_heap (alloc hp 49)) (\<lambda>s.
      bindE (set_session (the session) s) (\<lambda>_.
      bindE (ASSERT (s \<noteq> 0)) (\<lambda>_.
      bindE (un NoHash (unmarshal_UINT32 0)) (\<lambda>handle.
      bindE (set_sess s (\<lambda>o'. o'\<lparr>authHandle := handle\<rparr>)) (\<lambda>_.
      bindE (un NoHash (unmarshal_array [] 20)) (\<lambda>even.
      bindE (set_sess s (\<lambda>o'. o'\<lparr>nonceEven := even\<rparr>)) (\<lambda>_.
      bindE (set_sess s (\<lambda>o'. o'\<lparr>osap := None\<rparr>)) (\<lambda>_.
      check_out paramSize_out tag_out TPM_TAG_RSP_COMMAND)))))))))))))))))))"

text \<open>
  The extension object is new memory: it holds whatever was there (\<open>junk\<close>). When there is no memory
  for it, \<open>unmarshal_array\<close> skips the copy to \<open>NULL\<close> and the last assignment is the one that faults.
\<close>

definition TPM_OSAP :: "'d hw \<Rightarrow> u32 \<Rightarrow> TPM_NONCE \<Rightarrow> u16 \<Rightarrow> u32 \<Rightarrow> TPM_NONCE \<Rightarrow> nat option \<Rightarrow>
    ('d world, unit) exec" where
  "TPM_OSAP hw hp junk entityType_in entityValue_in nonceOdd_in session =
     (let paramSize_in = 2 + 4 + 4 + 2 + 4 + 20 in
      bindE (ASSERT (session \<noteq> None)) (\<lambda>_.
      bindE start_pack (\<lambda>_.
      bindE (pk NoHash (marshal_UINT16 TPM_TAG_RQU_COMMAND)) (\<lambda>_.
      bindE (pk NoHash (marshal_UINT32 paramSize_in)) (\<lambda>_.
      bindE (pk NoHash (marshal_UINT32 TPM_ORD_OSAP)) (\<lambda>_.
      bindE (pk NoHash (marshal_UINT16 entityType_in)) (\<lambda>_.
      bindE (pk NoHash (marshal_UINT32 entityValue_in)) (\<lambda>_.
      bindE (pk NoHash (marshal_array nonceOdd_in 20)) (\<lambda>_.
      bindE (transmit hw paramSize_in) (\<lambda>_.
      bindE (un NoHash (unmarshal_UINT16 0)) (\<lambda>tag_out.
      bindE (un NoHash (unmarshal_UINT32 0)) (\<lambda>paramSize_out.
      bindE (un NoHash (unmarshal_UINT32 0)) (\<lambda>res.
      bindE (TPM_ERROR_if res) (\<lambda>_.
      bindE (on_heap (alloc hp 49)) (\<lambda>s.
      bindE (set_session (the session) s) (\<lambda>_.
      bindE (on_heap (alloc hp 40)) (\<lambda>ext.
      bindE (set_sess s (\<lambda>o'. o'\<lparr>osap := (if ext = 0 then None
          else Some \<lparr>nonceEvenOSAP = junk, nonceOddOSAP = junk\<rparr>)\<rparr>)) (\<lambda>_.
      bindE (un NoHash (unmarshal_UINT32 0)) (\<lambda>handle.
      bindE (set_sess s (\<lambda>o'. o'\<lparr>authHandle := handle\<rparr>)) (\<lambda>_.
      bindE (un NoHash (unmarshal_array [] 20)) (\<lambda>even.
      bindE (set_sess s (\<lambda>o'. o'\<lparr>nonceEven := even\<rparr>)) (\<lambda>_.
      bindE (un NoHash (unmarshal_array [] 20)) (\<lambda>evenOSAP.
      bindE (set_sess s (\<lambda>o'. o'\<lparr>osap := map_option (nonceEvenOSAP_update (\<lambda>_. evenOSAP)) (osap o')\<rparr>)) (\<lambda>_.
      bindE (check_out paramSize_out tag_out TPM_TAG_RSP_COMMAND) (\<lambda>_.
      if ext = 0 then stopE Fault
      else set_sess s (\<lambda>o'. o'\<lparr>osap := map_option (nonceOddOSAP_update (\<lambda>_. nonceOdd_in)) (osap o')\<rparr>)
      )))))))))))))))))))))))))"

section \<open>Authorised commands\<close>

text \<open>
  The authorisation block of a request: the HMAC over the digest \<open>sctx.hash\<close>, the nonces and the
  continue flag, keyed with \<open>key\<close>; and the one of a response, which updates the session and ends in
  the received authorisation value. The commands differ only in whether the value is taken before
  or after \<open>hmac_finish\<close>.
\<close>

definition auth_in :: "u32 \<Rightarrow> bytes \<Rightarrow> ('d world, unit) exec" where
  "auth_in s key =
     bindE (on_h (hmac_init key 20)) (\<lambda>_.
     bindE (getE (\<lambda>w. sha_hash (w_sctx w))) (\<lambda>digest.
     bindE (hs Hctx (marshal_array digest 20)) (\<lambda>_.
     bindE (sess s authHandle) (\<lambda>handle.
     bindE (pk NoHash (marshal_UINT32 handle)) (\<lambda>_.
     bindE (sess s nonceEven) (\<lambda>even.
     bindE (hs Hctx (marshal_array even 20)) (\<lambda>_.
     bindE (sess s nonceOdd) (\<lambda>odd.
     bindE (pk Hctx (marshal_array odd 20)) (\<lambda>_.
     bindE (sess s continueAuthSession) (\<lambda>cont.
     bindE (pk Hctx (marshal_BYTE cont)) (\<lambda>_.
     bindE (on_h hmac_finish) (\<lambda>_.
     bindE (getE (\<lambda>w. sha_hash (hmac_sctx (w_hctx w)))) (\<lambda>inAuth.
     pk NoHash (marshal_array inAuth 20))))))))))))))"

definition auth_out_start :: "u32 \<Rightarrow> bytes \<Rightarrow> ('d world, unit) exec" where
  "auth_out_start s key =
     bindE (on_h (hmac_init key 20)) (\<lambda>_.
     bindE (getE (\<lambda>w. sha_hash (w_sctx w))) (\<lambda>digest.
     bindE (unh Hctx (unmarshal_array digest 20)) (\<lambda>_.
     bindE (un Hctx (unmarshal_array [] 20)) (\<lambda>even.
     bindE (set_sess s (\<lambda>o'. o'\<lparr>nonceEven := even\<rparr>)) (\<lambda>_.
     bindE (sess s nonceOdd) (\<lambda>odd.
     bindE (unh Hctx (unmarshal_array odd 20)) (\<lambda>_.
     bindE (un Hctx (unmarshal_BYTE 0)) (\<lambda>cont.
     set_sess s (\<lambda>o'. o'\<lparr>continueAuthSession := cont\<rparr>)))))))))"

definition auth_out :: "u32 \<Rightarrow> bytes \<Rightarrow> ('d world, TPM_AUTHDATA) exec" where
  "auth_out s key =
     bindE (auth_out_start s key) (\<lambda>_.
     bindE (un NoHash (unmarshal_array [] 20)) (\<lambda>resAuth_out.
     bindE (on_h hmac_finish) (\<lambda>_.
     returnE resAuth_out)))"

text \<open>\<open>memcmp(&hctx.sctx.hash, &auth, sizeof(TPM_AUTHDATA))\<close>\<close>

definition check_auth :: "TPM_AUTHDATA \<Rightarrow> ('d world, unit) exec" where
  "check_auth auth =
     bindE (getE (\<lambda>w. sha_hash (hmac_sctx (w_hctx w)))) (\<lambda>hash.
     ERROR_if (take 20 hash \<noteq> take 20 auth) ERROR_TPM_BAD_OUTPUT_AUTH)"

text \<open>\<open>*session\<close>, and \<open>if (!s->continueAuthSession) *session = NULL\<close>.\<close>

definition session_of :: "nat option \<Rightarrow> ('d world, u32) exec" where
  "session_of i = (case i of None \<Rightarrow> stopE Fault | Some i \<Rightarrow>
     bindE (getE w_sessions) (\<lambda>ss. if i < length ss then returnE (ss ! i) else stopE Fault))"

definition end_session :: "nat option \<Rightarrow> u32 \<Rightarrow> ('d world, unit) exec" where
  "end_session i s =
     bindE (sess s continueAuthSession) (\<lambda>cont.
     if cont = 0 then set_session (the i) 0 else returnE ())"

definition TPM_NV_WriteValueAuth :: "'d hw \<Rightarrow> bytes \<Rightarrow> u32 \<Rightarrow> u32 \<Rightarrow> u32 \<Rightarrow> TPM_AUTHDATA \<Rightarrow> nat option \<Rightarrow>
    ('d world, unit) exec" where
  "TPM_NV_WriteValueAuth hw data_in dataSize_in nvIndex_in offset_in nv_auth session =
     (let paramSize_in = 2 + 4 + 4 + 4 + 4 + 4 + dataSize_in + 4 + 20 + 1 + 20 in
      bindE (ASSERT (session \<noteq> None)) (\<lambda>_.
      bindE (session_of session) (\<lambda>s.
      bindE start_pack (\<lambda>_.
      bindE (on_s sha1_init) (\<lambda>_.
      bindE (pk NoHash (marshal_UINT16 TPM_TAG_RQU_AUTH1_COMMAND)) (\<lambda>_.
      bindE (pk NoHash (marshal_UINT32 paramSize_in)) (\<lambda>_.
      bindE (pk Sctx (marshal_UINT32 TPM_ORD_NV_WriteValueAuth)) (\<lambda>_.
      bindE (pk Sctx (marshal_UINT32 nvIndex_in)) (\<lambda>_.
      bindE (pk Sctx (marshal_UINT32 offset_in)) (\<lambda>_.
      bindE (pk Sctx (marshal_UINT32 dataSize_in)) (\<lambda>_.
      bindE (pk Sctx (marshal_array data_in dataSize_in)) (\<lambda>_.
      bindE (on_s sha1_finish) (\<lambda>_.
      bindE (auth_in s nv_auth) (\<lambda>_.
      bindE (transmit hw paramSize_in) (\<lambda>_.
      bindE (on_s sha1_init) (\<lambda>_.
      bindE (un NoHash (unmarshal_UINT16 0)) (\<lambda>tag_out.
      bindE (un NoHash (unmarshal_UINT32 0)) (\<lambda>paramSize_out.
      bindE (un Sctx (unmarshal_UINT32 0)) (\<lambda>res.
      bindE (TPM_ERROR_if res) (\<lambda>_.
      bindE (unh Sctx (unmarshal_UINT32 TPM_ORD_NV_WriteValueAuth)) (\<lambda>_.
      bindE (on_s sha1_finish) (\<lambda>_.
      bindE (auth_out s nv_auth) (\<lambda>resAuth_out.
      bindE (check_out paramSize_out tag_out TPM_TAG_RSP_AUTH1_COMMAND) (\<lambda>_.
      bindE (end_session session s) (\<lambda>_.
      check_auth resAuth_out)))))))))))))))))))))))))"

definition TPM_NV_ReadValue :: "'d hw \<Rightarrow> u32 \<Rightarrow> u32 \<Rightarrow> u32 \<Rightarrow> u32 \<Rightarrow> TPM_AUTHDATA option \<Rightarrow> nat option \<Rightarrow>
    ('d world, HEAP_DATA) exec" where
  "TPM_NV_ReadValue hw hp nvIndex_in offset_in dataSize_in ownerAuth_in session =
     bindE (if session = None then returnE 0 else session_of session) (\<lambda>s.
     bindE (ASSERT (ownerAuth_in \<noteq> None \<and> session \<noteq> None \<and> s \<noteq> 0 \<or>
                    ownerAuth_in = None \<and> (session = None \<or> s = 0))) (\<lambda>_.
     let tag_in = (if s \<noteq> 0 then TPM_TAG_RQU_AUTH1_COMMAND else TPM_TAG_RQU_COMMAND);
         paramSize_in = (if s \<noteq> 0 then 2 + 4 + 4 + 4 + 4 + 4 + 4 + 20 + 1 + 20
                         else 2 + 4 + 4 + 4 + 4 + 4) in
     bindE start_pack (\<lambda>_.
     bindE (on_s sha1_init) (\<lambda>_.
     bindE (pk NoHash (marshal_UINT16 tag_in)) (\<lambda>_.
     bindE (pk NoHash (marshal_UINT32 paramSize_in)) (\<lambda>_.
     bindE (pk Sctx (marshal_UINT32 TPM_ORD_NV_ReadValue)) (\<lambda>_.
     bindE (pk Sctx (marshal_UINT32 nvIndex_in)) (\<lambda>_.
     bindE (pk Sctx (marshal_UINT32 offset_in)) (\<lambda>_.
     bindE (pk Sctx (marshal_UINT32 dataSize_in)) (\<lambda>_.
     bindE (on_s sha1_finish) (\<lambda>_.
     bindE (if s \<noteq> 0 then auth_in s (the ownerAuth_in) else returnE ()) (\<lambda>_.
     bindE (transmit hw paramSize_in) (\<lambda>_.
     bindE (on_s sha1_init) (\<lambda>_.
     bindE (un NoHash (unmarshal_UINT16 0)) (\<lambda>tag_out.
     bindE (un NoHash (unmarshal_UINT32 0)) (\<lambda>paramSize_out.
     bindE (un Sctx (unmarshal_UINT32 0)) (\<lambda>res.
     bindE (TPM_ERROR_if res) (\<lambda>_.
     bindE (unh Sctx (unmarshal_UINT32 TPM_ORD_NV_ReadValue)) (\<lambda>_.
     bindE (un Sctx (unmarshal_UINT32 0)) (\<lambda>dataSize.
     bindE (un Sctx (unmarshal_ptr hp dataSize)) (\<lambda>data.
     bindE (on_s sha1_finish) (\<lambda>_.
     bindE (if s \<noteq> 0
            then bindE (auth_out_start s (the ownerAuth_in)) (\<lambda>_.
                 bindE (on_h hmac_finish) (\<lambda>_.
                 bindE (un NoHash (unmarshal_array [] 20)) (\<lambda>ownerAuth_out.
                 bindE (end_session session s) (\<lambda>_.
                 returnE ownerAuth_out))))
            else returnE []) (\<lambda>ownerAuth_out.
     bindE (check_out paramSize_out tag_out
              (if s \<noteq> 0 then TPM_TAG_RSP_AUTH1_COMMAND else TPM_TAG_RSP_COMMAND)) (\<lambda>_.
     bindE (if s \<noteq> 0 then check_auth ownerAuth_out else returnE ()) (\<lambda>_.
     returnE \<lparr>hd_dataSize = dataSize, hd_data = data\<rparr>)))))))))))))))))))))))))"

definition TPM_Unseal :: "'d hw \<Rightarrow> u32 \<Rightarrow> TPM_STORED_DATA12 \<Rightarrow> u32 \<Rightarrow> TPM_AUTHDATA \<Rightarrow> nat option \<Rightarrow>
    TPM_AUTHDATA \<Rightarrow> nat option \<Rightarrow> ('d world, HEAP_DATA) exec" where
  "TPM_Unseal hw hp inData_in parentHandle_in parentAuth parentSession dataAuth dataSession =
     (let inDataSize_in = sizeof_TPM_STORED_DATA12 inData_in;
          paramSize_in = 2 + 4 + 4 + 4 + inDataSize_in + 4 + 20 + 1 + 20 + 4 + 20 + 1 + 20 in
      bindE (ASSERT (parentSession \<noteq> None \<and> dataSession \<noteq> None)) (\<lambda>_.
      bindE (session_of parentSession) (\<lambda>parentS.
      bindE (session_of dataSession) (\<lambda>dataS.
      bindE start_pack (\<lambda>_.
      bindE (on_s sha1_init) (\<lambda>_.
      bindE (pk NoHash (marshal_UINT16 TPM_TAG_RQU_AUTH2_COMMAND)) (\<lambda>_.
      bindE (pk NoHash (marshal_UINT32 paramSize_in)) (\<lambda>_.
      bindE (pk Sctx (marshal_UINT32 TPM_ORD_Unseal)) (\<lambda>_.
      bindE (pk NoHash (marshal_UINT32 parentHandle_in)) (\<lambda>_.
      bindE (pk Sctx (marshal_TPM_STORED_DATA12 inData_in)) (\<lambda>_.
      bindE (on_s sha1_finish) (\<lambda>_.
      bindE (auth_in parentS parentAuth) (\<lambda>_.
      bindE (auth_in dataS dataAuth) (\<lambda>_.
      bindE (transmit hw paramSize_in) (\<lambda>_.
      bindE (on_s sha1_init) (\<lambda>_.
      bindE (un NoHash (unmarshal_UINT16 0)) (\<lambda>tag_out.
      bindE (un NoHash (unmarshal_UINT32 0)) (\<lambda>paramSize_out.
      bindE (un Sctx (unmarshal_UINT32 0)) (\<lambda>res.
      bindE (TPM_ERROR_if res) (\<lambda>_.
      bindE (unh Sctx (unmarshal_UINT32 TPM_ORD_Unseal)) (\<lambda>_.
      bindE (un Sctx (unmarshal_UINT32 0)) (\<lambda>dataSize.
      bindE (un Sctx (unmarshal_ptr hp dataSize)) (\<lambda>data.
      bindE (on_s sha1_finish) (\<lambda>_.
      bindE (auth_out parentS parentAuth) (\<lambda>resAuth_out.
      bindE (end_session parentSession parentS) (\<lambda>_.
      bindE (check_auth resAuth_out) (\<lambda>_.
      bindE (auth_out dataS dataAuth) (\<lambda>dataAuth_out.
      bindE (check_out paramSize_out tag_out TPM_TAG_RSP_AUTH2_COMMAND) (\<lambda>_.
      bindE (check_auth dataAuth_out) (\<lambda>_.
      bindE (end_session dataSession dataS) (\<lambda>_.
      returnE \<lparr>hd_dataSize = dataSize, hd_data = data\<rparr>)))))))))))))))))))))))))))))))"

text \<open>\<open>TPM_Seal\<close>, or \<open>TPM_Sealx\<close> in a build with \<open>USE_TPM_SEALX\<close> (the flag \<open>sealx\<close>).\<close>

definition TPM_Seal :: "bool \<Rightarrow> 'd hw \<Rightarrow> u32 \<Rightarrow> u32 \<Rightarrow> TPM_ENCAUTH \<Rightarrow> TPM_PCR_INFO_LONG \<Rightarrow> bytes \<Rightarrow> u32 \<Rightarrow>
    nat option \<Rightarrow> TPM_SECRET \<Rightarrow> ('d world, TPM_STORED_DATA12) exec" where
  "TPM_Seal sealx hw hp keyHandle_in encAuth_in pcrInfo_in inData_in inDataSize_in session sharedSecret =
     (let pcrInfoSize_in = sizeof_TPM_PCR_INFO_LONG pcrInfo_in;
          paramSize_in = 2 + 4 + 4 + 4 + 20 + 4 + pcrInfoSize_in + 4 + inDataSize_in + 4 + 20 + 1 + 20;
          ordinal_in = (if sealx then TPM_ORD_Sealx else TPM_ORD_Seal) in
      bindE (ASSERT (session \<noteq> None)) (\<lambda>_.
      bindE (session_of session) (\<lambda>s.
      bindE start_pack (\<lambda>_.
      bindE (on_s sha1_init) (\<lambda>_.
      bindE (pk NoHash (marshal_UINT16 TPM_TAG_RQU_AUTH1_COMMAND)) (\<lambda>_.
      bindE (pk NoHash (marshal_UINT32 paramSize_in)) (\<lambda>_.
      bindE (pk Sctx (marshal_UINT32 ordinal_in)) (\<lambda>_.
      bindE (pk NoHash (marshal_UINT32 keyHandle_in)) (\<lambda>_.
      bindE (pk Sctx (marshal_array encAuth_in 20)) (\<lambda>_.
      bindE (pk Sctx (marshal_UINT32 pcrInfoSize_in)) (\<lambda>_.
      bindE (pk Sctx (marshal_TPM_PCR_INFO_LONG pcrInfo_in)) (\<lambda>_.
      bindE (pk Sctx (marshal_UINT32 inDataSize_in)) (\<lambda>_.
      bindE (pk Sctx (marshal_array inData_in inDataSize_in)) (\<lambda>_.
      bindE (on_s sha1_finish) (\<lambda>_.
      bindE (auth_in s sharedSecret) (\<lambda>_.
      bindE (transmit hw paramSize_in) (\<lambda>_.
      bindE (on_s sha1_init) (\<lambda>_.
      bindE (un NoHash (unmarshal_UINT16 0)) (\<lambda>tag_out.
      bindE (un NoHash (unmarshal_UINT32 0)) (\<lambda>paramSize_out.
      bindE (un Sctx (unmarshal_UINT32 0)) (\<lambda>res.
      bindE (TPM_ERROR_if res) (\<lambda>_.
      bindE (unh Sctx (unmarshal_UINT32 ordinal_in)) (\<lambda>_.
      bindE (un Sctx (unmarshal_TPM_STORED_DATA12 hp)) (\<lambda>ret.
      bindE (on_s sha1_finish) (\<lambda>_.
      bindE (auth_out s sharedSecret) (\<lambda>resAuth_out.
      bindE (check_out paramSize_out tag_out TPM_TAG_RSP_AUTH1_COMMAND) (\<lambda>_.
      bindE (check_auth resAuth_out) (\<lambda>_.
      bindE (sess s continueAuthSession) (\<lambda>cont.
      bindE (ERROR_if (cont \<noteq> 0) ERROR_TPM_BAD_OUTPUT_PARAM) (\<lambda>_.
      bindE (set_session (the session) 0) (\<lambda>_.
      returnE ret)))))))))))))))))))))))))))))))"

end
