(* ===== verification/Keyboard.thy ===== *)
theory Keyboard
  imports World
begin

text \<open>
  The keyboard driver (\<^verbatim>\<open>src/keyboard.c\<close>): polling the 8042 controller, translation of scan
  codes, and the line editor \<open>get_string\<close>. The loops that wait for the controller may not end,
  which is \<open>Stop Hang\<close>. The state is the hardware and the three statics of the file.
\<close>

section \<open>Key codes\<close>

abbreviation (input) KEY_SPACE :: u32 where "KEY_SPACE \<equiv> 0x20"
abbreviation (input) KEY_0 :: u32 where "KEY_0 \<equiv> 0x30"
abbreviation (input) KEY_1 :: u32 where "KEY_1 \<equiv> 0x31"
abbreviation (input) KEY_2 :: u32 where "KEY_2 \<equiv> 0x32"
abbreviation (input) KEY_3 :: u32 where "KEY_3 \<equiv> 0x33"
abbreviation (input) KEY_4 :: u32 where "KEY_4 \<equiv> 0x34"
abbreviation (input) KEY_5 :: u32 where "KEY_5 \<equiv> 0x35"
abbreviation (input) KEY_6 :: u32 where "KEY_6 \<equiv> 0x36"
abbreviation (input) KEY_7 :: u32 where "KEY_7 \<equiv> 0x37"
abbreviation (input) KEY_8 :: u32 where "KEY_8 \<equiv> 0x38"
abbreviation (input) KEY_9 :: u32 where "KEY_9 \<equiv> 0x39"
abbreviation (input) KEY_A :: u32 where "KEY_A \<equiv> 0x61"
abbreviation (input) KEY_B :: u32 where "KEY_B \<equiv> 0x62"
abbreviation (input) KEY_C :: u32 where "KEY_C \<equiv> 0x63"
abbreviation (input) KEY_D :: u32 where "KEY_D \<equiv> 0x64"
abbreviation (input) KEY_E :: u32 where "KEY_E \<equiv> 0x65"
abbreviation (input) KEY_F :: u32 where "KEY_F \<equiv> 0x66"
abbreviation (input) KEY_G :: u32 where "KEY_G \<equiv> 0x67"
abbreviation (input) KEY_H :: u32 where "KEY_H \<equiv> 0x68"
abbreviation (input) KEY_I :: u32 where "KEY_I \<equiv> 0x69"
abbreviation (input) KEY_J :: u32 where "KEY_J \<equiv> 0x6a"
abbreviation (input) KEY_K :: u32 where "KEY_K \<equiv> 0x6b"
abbreviation (input) KEY_L :: u32 where "KEY_L \<equiv> 0x6c"
abbreviation (input) KEY_M :: u32 where "KEY_M \<equiv> 0x6d"
abbreviation (input) KEY_N :: u32 where "KEY_N \<equiv> 0x6e"
abbreviation (input) KEY_O :: u32 where "KEY_O \<equiv> 0x6f"
abbreviation (input) KEY_P :: u32 where "KEY_P \<equiv> 0x70"
abbreviation (input) KEY_Q :: u32 where "KEY_Q \<equiv> 0x71"
abbreviation (input) KEY_R :: u32 where "KEY_R \<equiv> 0x72"
abbreviation (input) KEY_S :: u32 where "KEY_S \<equiv> 0x73"
abbreviation (input) KEY_T :: u32 where "KEY_T \<equiv> 0x74"
abbreviation (input) KEY_U :: u32 where "KEY_U \<equiv> 0x75"
abbreviation (input) KEY_V :: u32 where "KEY_V \<equiv> 0x76"
abbreviation (input) KEY_W :: u32 where "KEY_W \<equiv> 0x77"
abbreviation (input) KEY_X :: u32 where "KEY_X \<equiv> 0x78"
abbreviation (input) KEY_Y :: u32 where "KEY_Y \<equiv> 0x79"
abbreviation (input) KEY_Z :: u32 where "KEY_Z \<equiv> 0x7a"
abbreviation (input) KEY_RETURN :: u32 where "KEY_RETURN \<equiv> 0xd"
abbreviation (input) KEY_ESCAPE :: u32 where "KEY_ESCAPE \<equiv> 0x1001"
abbreviation (input) KEY_BACKSPACE :: u32 where "KEY_BACKSPACE \<equiv> 0x8"
abbreviation (input) KEY_F1 :: u32 where "KEY_F1 \<equiv> 0x1201"
abbreviation (input) KEY_F2 :: u32 where "KEY_F2 \<equiv> 0x1202"
abbreviation (input) KEY_F3 :: u32 where "KEY_F3 \<equiv> 0x1203"
abbreviation (input) KEY_F4 :: u32 where "KEY_F4 \<equiv> 0x1204"
abbreviation (input) KEY_F5 :: u32 where "KEY_F5 \<equiv> 0x1205"
abbreviation (input) KEY_F6 :: u32 where "KEY_F6 \<equiv> 0x1206"
abbreviation (input) KEY_F7 :: u32 where "KEY_F7 \<equiv> 0x1207"
abbreviation (input) KEY_F8 :: u32 where "KEY_F8 \<equiv> 0x1208"
abbreviation (input) KEY_F9 :: u32 where "KEY_F9 \<equiv> 0x1209"
abbreviation (input) KEY_F10 :: u32 where "KEY_F10 \<equiv> 0x120a"
abbreviation (input) KEY_F11 :: u32 where "KEY_F11 \<equiv> 0x120b"
abbreviation (input) KEY_F12 :: u32 where "KEY_F12 \<equiv> 0x120b"
abbreviation (input) KEY_DOT :: u32 where "KEY_DOT \<equiv> 0x2e"
abbreviation (input) KEY_COMMA :: u32 where "KEY_COMMA \<equiv> 0x2c"
abbreviation (input) KEY_COLON :: u32 where "KEY_COLON \<equiv> 0x3a"
abbreviation (input) KEY_SEMICOLON :: u32 where "KEY_SEMICOLON \<equiv> 0x3b"
abbreviation (input) KEY_SLASH :: u32 where "KEY_SLASH \<equiv> 0x2f"
abbreviation (input) KEY_BACKSLASH :: u32 where "KEY_BACKSLASH \<equiv> 0x5c"
abbreviation (input) KEY_PLUS :: u32 where "KEY_PLUS \<equiv> 0x2b"
abbreviation (input) KEY_MINUS :: u32 where "KEY_MINUS \<equiv> 0x2d"
abbreviation (input) KEY_ASTERISK :: u32 where "KEY_ASTERISK \<equiv> 0x2a"
abbreviation (input) KEY_EXCLAMATION :: u32 where "KEY_EXCLAMATION \<equiv> 0x21"
abbreviation (input) KEY_QUESTION :: u32 where "KEY_QUESTION \<equiv> 0x3f"
abbreviation (input) KEY_QUOTEDOUBLE :: u32 where "KEY_QUOTEDOUBLE \<equiv> 0x22"
abbreviation (input) KEY_QUOTE :: u32 where "KEY_QUOTE \<equiv> 0x27"
abbreviation (input) KEY_EQUAL :: u32 where "KEY_EQUAL \<equiv> 0x3d"
abbreviation (input) KEY_HASH :: u32 where "KEY_HASH \<equiv> 0x23"
abbreviation (input) KEY_PERCENT :: u32 where "KEY_PERCENT \<equiv> 0x25"
abbreviation (input) KEY_AMPERSAND :: u32 where "KEY_AMPERSAND \<equiv> 0x26"
abbreviation (input) KEY_UNDERSCORE :: u32 where "KEY_UNDERSCORE \<equiv> 0x5f"
abbreviation (input) KEY_LEFTPARENTHESIS :: u32 where "KEY_LEFTPARENTHESIS \<equiv> 0x28"
abbreviation (input) KEY_RIGHTPARENTHESIS :: u32 where "KEY_RIGHTPARENTHESIS \<equiv> 0x29"
abbreviation (input) KEY_LEFTBRACKET :: u32 where "KEY_LEFTBRACKET \<equiv> 0x5b"
abbreviation (input) KEY_RIGHTBRACKET :: u32 where "KEY_RIGHTBRACKET \<equiv> 0x5d"
abbreviation (input) KEY_LEFTCURL :: u32 where "KEY_LEFTCURL \<equiv> 0x7b"
abbreviation (input) KEY_RIGHTCURL :: u32 where "KEY_RIGHTCURL \<equiv> 0x7d"
abbreviation (input) KEY_LESS :: u32 where "KEY_LESS \<equiv> 0x3c"
abbreviation (input) KEY_GREATER :: u32 where "KEY_GREATER \<equiv> 0x3e"
abbreviation (input) KEY_BAR :: u32 where "KEY_BAR \<equiv> 0x7c"
abbreviation (input) KEY_GRAVE :: u32 where "KEY_GRAVE \<equiv> 0x60"
abbreviation (input) KEY_TILDE :: u32 where "KEY_TILDE \<equiv> 0x7e"
abbreviation (input) KEY_AT :: u32 where "KEY_AT \<equiv> 0x40"
abbreviation (input) KEY_CARRET :: u32 where "KEY_CARRET \<equiv> 0x5e"
abbreviation (input) KEY_KP_0 :: u32 where "KEY_KP_0 \<equiv> 0x30"
abbreviation (input) KEY_KP_2 :: u32 where "KEY_KP_2 \<equiv> 0x32"
abbreviation (input) KEY_KP_3 :: u32 where "KEY_KP_3 \<equiv> 0x33"
abbreviation (input) KEY_KP_8 :: u32 where "KEY_KP_8 \<equiv> 0x38"
abbreviation (input) KEY_KP_DECIMAL :: u32 where "KEY_KP_DECIMAL \<equiv> 0x2e"
abbreviation (input) KEY_KP_ASTERISK :: u32 where "KEY_KP_ASTERISK \<equiv> 0x2a"
abbreviation (input) KEY_KP_NUMLOCK :: u32 where "KEY_KP_NUMLOCK \<equiv> 0x300f"
abbreviation (input) KEY_TAB :: u32 where "KEY_TAB \<equiv> 0x4000"
abbreviation (input) KEY_CAPSLOCK :: u32 where "KEY_CAPSLOCK \<equiv> 0x4001"
abbreviation (input) KEY_LSHIFT :: u32 where "KEY_LSHIFT \<equiv> 0x4002"
abbreviation (input) KEY_LCTRL :: u32 where "KEY_LCTRL \<equiv> 0x4003"
abbreviation (input) KEY_RSHIFT :: u32 where "KEY_RSHIFT \<equiv> 0x4006"
abbreviation (input) KEY_RALT :: u32 where "KEY_RALT \<equiv> 0x4008"
abbreviation (input) KEY_HOME :: u32 where "KEY_HOME \<equiv> 0x400c"
abbreviation (input) KEY_PAGEUP :: u32 where "KEY_PAGEUP \<equiv> 0x400e"
abbreviation (input) KEY_SCROLLLOCK :: u32 where "KEY_SCROLLLOCK \<equiv> 0x4010"
abbreviation (input) KEY_UNKNOWN :: u32 where "KEY_UNKNOWN \<equiv> 0x4012"

text \<open>
  The table by scan code. It has 83 entries: behind \<open>KEY_PAGEUP\<close> (\<open>0x49\<close>) the six codes up to
  \<open>0x4f\<close> are missing, so the entries whose comments say \<open>0x50\<close> to \<open>0x58\<close> are at \<open>0x4a\<close> to \<open>0x52\<close>.
\<close>

definition kkybrd_scancode_std :: "u32 list" where
  "kkybrd_scancode_std = 
    [KEY_UNKNOWN, KEY_ESCAPE, KEY_1, KEY_2, KEY_3, KEY_4, KEY_5, KEY_6, KEY_7, KEY_8, KEY_9,
     KEY_0, KEY_MINUS, KEY_EQUAL, KEY_BACKSPACE, KEY_TAB, KEY_Q, KEY_W, KEY_E, KEY_R, KEY_T,
     KEY_Y, KEY_U, KEY_I, KEY_O, KEY_P, KEY_LEFTBRACKET, KEY_RIGHTBRACKET, KEY_RETURN,
     KEY_LCTRL, KEY_A, KEY_S, KEY_D, KEY_F, KEY_G, KEY_H, KEY_J, KEY_K, KEY_L, KEY_SEMICOLON,
     KEY_QUOTE, KEY_GRAVE, KEY_LSHIFT, KEY_BACKSLASH, KEY_Z, KEY_X, KEY_C, KEY_V, KEY_B, KEY_N,
     KEY_M, KEY_COMMA, KEY_DOT, KEY_SLASH, KEY_RSHIFT, KEY_KP_ASTERISK, KEY_RALT, KEY_SPACE,
     KEY_CAPSLOCK, KEY_F1, KEY_F2, KEY_F3, KEY_F4, KEY_F5, KEY_F6, KEY_F7, KEY_F8, KEY_F9,
     KEY_F10, KEY_KP_NUMLOCK, KEY_SCROLLLOCK, KEY_HOME, KEY_KP_8, KEY_PAGEUP, KEY_KP_2,
     KEY_KP_3, KEY_KP_0, KEY_KP_DECIMAL, KEY_UNKNOWN, KEY_UNKNOWN, KEY_UNKNOWN, KEY_F11,
     KEY_F12]"

section \<open>The controller\<close>

text \<open>Poll the status register until the bits \<open>m\<close> are clear (\<open>want\<close>) or one is set.\<close>

partial_function (option) poll_status :: "'d hw \<Rightarrow> u8 \<Rightarrow> bool \<Rightarrow> 'd \<Rightarrow> 'd option" where
  "poll_status hw m want d =
     (let (status, d) = hw_inb hw 0x64 d
      in if (status AND m = 0) = want then Some d else poll_status hw m want d)"

definition kybrd_poll :: "'d hw \<Rightarrow> u8 \<Rightarrow> bool \<Rightarrow> ('d \<times> kbd, unit) exec" where
  "kybrd_poll hw m want = (\<lambda>(d, k). case poll_status hw m want d of
     None \<Rightarrow> (Stop Hang, (d, k)) | Some d \<Rightarrow> (Ok (), (d, k)))"

definition kybrd_outb :: "'d hw \<Rightarrow> u16 \<Rightarrow> u8 \<Rightarrow> ('d \<times> kbd, unit) exec" where
  "kybrd_outb hw port v = modifyE (\<lambda>(d, k). (hw_outb hw port v d, k))"

definition kybrd_ctrl_send_cmd :: "'d hw \<Rightarrow> u8 \<Rightarrow> ('d \<times> kbd, unit) exec" where
  "kybrd_ctrl_send_cmd hw cmd =
     bindE (kybrd_poll hw 0x02 True) (\<lambda>_. kybrd_outb hw 0x64 cmd)"

definition kybrd_enc_read_buf :: "'d hw \<Rightarrow> ('d \<times> kbd, u8) exec" where
  "kybrd_enc_read_buf hw = (\<lambda>(d, k). case hw_inb hw 0x60 d of (v, d) \<Rightarrow> (Ok v, (d, k)))"

definition kybrd_enc_send_cmd :: "'d hw \<Rightarrow> u8 \<Rightarrow> ('d \<times> kbd, unit) exec" where
  "kybrd_enc_send_cmd hw cmd =
     bindE (kybrd_poll hw 0x02 True) (\<lambda>_. kybrd_outb hw 0x60 cmd)"

definition bool_int :: "bool \<Rightarrow> u8" where
  "bool_int b = (if b then 1 else 0)"

text \<open>The LED byte is computed from \<open>num\<close> in each of the last two assignments.\<close>

definition kkybrd_set_leds :: "'d hw \<Rightarrow> bool \<Rightarrow> bool \<Rightarrow> bool \<Rightarrow> ('d \<times> kbd, unit) exec" where
  "kkybrd_set_leds hw num caps scrl =
     (let data = (0 :: u8);
          data = (if scrl then data OR 1 else data AND 1);
          data = (if num then bool_int num OR 2 else bool_int num AND 2);
          data = (if caps then bool_int num OR 4 else bool_int num AND 4)
      in bindE (kybrd_enc_send_cmd hw 0xED) (\<lambda>_. kybrd_enc_send_cmd hw data))"

section \<open>Translation\<close>

definition shifted_digit :: "u8 \<Rightarrow> u8" where
  "shifted_digit key =
     (if key = 0x30 then 0x29 else if key = 0x31 then 0x21 else if key = 0x32 then 0x40
      else if key = 0x33 then 0x21 else if key = 0x34 then 0x23 else if key = 0x35 then 0x25
      else if key = 0x36 then 0x5e else if key = 0x37 then 0x26 else if key = 0x38 then 0x2a
      else if key = 0x39 then 0x28 else key)"

definition shifted_sign :: "u8 \<Rightarrow> u8" where
  "shifted_sign key =
     (if key = 0x2c then 0x3c else if key = 0x2e then 0x3e else if key = 0x2f then 0x3f
      else if key = 0x3b then 0x3a else if key = 0x27 then 0x22 else if key = 0x5b then 0x7b
      else if key = 0x5d then 0x7d else if key = 0x60 then 0x7e else if key = 0x2d then 0x5f
      else if key = 0x2b then 0x3d else if key = 0x5c then 0x7c else key)"

text \<open>\<open>BYTE key = code\<close> keeps the low byte of the key code.\<close>

definition kybrd_key_to_ascii :: "kbd \<Rightarrow> u32 \<Rightarrow> u8" where
  "kybrd_key_to_ascii k code =
     (let key = ucast code in
      if key \<le> 0x7f
      then let key = (if (shift k \<or> capslock k) \<and> 0x61 \<le> key \<and> key \<le> 0x7a then key - 32 else key)
           in if shift k \<and> \<not> capslock k
              then if 0x30 \<le> key \<and> key \<le> 0x39 then shifted_digit key else shifted_sign key
              else key
      else 0)"

text \<open>\<open>kkybrd_scancode_std[code]\<close>\<close>

definition key_of :: "u32 \<Rightarrow> ('s, u32) exec" where
  "key_of code = (if unat code < length kkybrd_scancode_std
     then returnE (kkybrd_scancode_std ! unat code) else stopE Fault)"

definition set_kbd :: "(kbd \<Rightarrow> kbd) \<Rightarrow> ('d \<times> kbd, unit) exec" where
  "set_kbd f = modifyE (\<lambda>(d, k). (d, f k))"

text \<open>What \<open>getchar\<close> does with the scan code it has read.\<close>

definition scan :: "'d hw \<Rightarrow> u8 \<Rightarrow> ('d \<times> kbd, u8) exec" where
  "scan hw b =
    (let code = ucast b in
     if code AND 0x80 \<noteq> 0
     then bindE (key_of (code - 0x80)) (\<lambda>key.
          if key = KEY_LSHIFT \<or> key = KEY_RSHIFT
          then bindE (set_kbd (\<lambda>k. k\<lparr>shift := False\<rparr>)) (\<lambda>_. returnE 0)
          else getE (\<lambda>(d, k). kybrd_key_to_ascii k key))
     else bindE (set_kbd (\<lambda>k. k\<lparr>scancode := code\<rparr>)) (\<lambda>_.
          bindE (key_of code) (\<lambda>key.
          bindE (if key = KEY_LSHIFT \<or> key = KEY_RSHIFT then set_kbd (\<lambda>k. k\<lparr>shift := True\<rparr>)
                 else if key = KEY_CAPSLOCK
                 then bindE (set_kbd (\<lambda>k. k\<lparr>capslock := \<not> capslock k\<rparr>)) (\<lambda>_.
                      bindE (getE (\<lambda>(d, k). capslock k)) (\<lambda>caps. kkybrd_set_leds hw False caps False))
                 else returnE ()) (\<lambda>_.
          returnE 0))))"

definition getchar :: "'d hw \<Rightarrow> ('d \<times> kbd, u8) exec" where
  "getchar hw =
     bindE (kybrd_poll hw 0x01 False) (\<lambda>_. bindE (kybrd_enc_read_buf hw) (scan hw))"

section \<open>The line editor\<close>

definition on_kbd :: "('d \<times> kbd, 'a) exec \<Rightarrow> ('d world, 'a) exec" where
  "on_kbd m = (\<lambda>w. case m (w_dev w, w_kbd w) of (r, (d, k)) \<Rightarrow> (r, w\<lparr>w_dev := d, w_kbd := k\<rparr>))"

text \<open>\<open>str[i] = c\<close>; the buffer is the array the caller passed.\<close>

definition put_str :: "bytes \<Rightarrow> u32 \<Rightarrow> u8 \<Rightarrow> ('s, bytes) exec" where
  "put_str strg i c = (if unat i < length strg then returnE (strg[unat i := c]) else stopE Fault)"

definition echo :: "bool \<Rightarrow> u8 \<Rightarrow> ('d world, unit) exec" where
  "echo vis c = (if vis then bindE (on_screen (out_char (scast c))) (\<lambda>_. returnE ()) else returnE ())"

text \<open>The effect of one character that is not a carriage return: the buffer and the index.\<close>

definition edit_char :: "bool \<Rightarrow> u8 \<Rightarrow> bytes \<Rightarrow> u32 \<Rightarrow> ('d world, bytes \<times> u32) exec" where
  "edit_char vis c strg i =
     (if c = 0x08
      then bindE (put_str strg i 0) (\<lambda>strg.
           if i > 0 then bindE (echo vis c) (\<lambda>_. returnE (strg, i - 1)) else returnE (strg, i))
      else if c \<noteq> 0
      then bindE (put_str strg i c) (\<lambda>strg. bindE (echo vis c) (\<lambda>_. returnE (strg, i + 1)))
      else returnE (strg, i))"

partial_function (option) string_loop :: "'d hw \<Rightarrow> u32 \<Rightarrow> bool \<Rightarrow> bytes \<Rightarrow> u32 \<Rightarrow> 'd world \<Rightarrow>
    ((bytes \<times> u32) res \<times> 'd world) option" where
  "string_loop hw strSize vis strg i w =
     (if i < strSize
      then case on_kbd (getchar hw) w of
             (Ok c, w) \<Rightarrow>
               (if c = 0x0d then Some (Ok (strg, i), w)
                else case edit_char vis c strg i w of
                       (Ok (strg, i), w) \<Rightarrow> string_loop hw strSize vis strg i w
                     | (Throw e, w) \<Rightarrow> Some (Throw e, w)
                     | (Stop x, w) \<Rightarrow> Some (Stop x, w))
           | (Throw e, w) \<Rightarrow> Some (Throw e, w)
           | (Stop x, w) \<Rightarrow> Some (Stop x, w)
      else Some (Ok (strg, i), w))"

definition get_line :: "'d hw \<Rightarrow> u32 \<Rightarrow> bool \<Rightarrow> bytes \<Rightarrow> ('d world, bytes \<times> u32) exec" where
  "get_line hw strSize vis strg = (\<lambda>w. case string_loop hw strSize vis strg 0 w of
     None \<Rightarrow> (Stop Hang, w) | Some r \<Rightarrow> r)"

text \<open>The result is the length, and the array as it is afterwards.\<close>

definition get_string :: "'d hw \<Rightarrow> bytes \<Rightarrow> u32 \<Rightarrow> bool \<Rightarrow> ('d world, u32 \<times> bytes) exec" where
  "get_string hw strg strSize vis =
     bindE (on_kbd (getchar hw)) (\<lambda>_.
     bindE (get_line hw strSize vis strg) (\<lambda>(strg, i).
     bindE (put_str strg i 0) (\<lambda>strg.
     bindE (on_screen (out_char 0x0a)) (\<lambda>_.
     returnE (i, strg)))))"

section \<open>What is typed\<close>

text \<open>
  The characters the driver returns next: \<open>delivers hw cs (d, k) (d', k')\<close> says that the next calls
  of \<open>getchar\<close> return \<open>cs\<close>, and the state after them.
\<close>

fun delivers :: "'d hw \<Rightarrow> bytes \<Rightarrow> 'd \<times> kbd \<Rightarrow> 'd \<times> kbd \<Rightarrow> bool" where
  "delivers hw [] s s' \<longleftrightarrow> s' = s"
| "delivers hw (c # cs) s s' \<longleftrightarrow> (\<exists>t. getchar hw s = (Ok c, t) \<and> delivers hw cs t s')"

text \<open>
  The line editor as a function of the characters: \<open>edit n line cs\<close> is the line after \<open>cs\<close>, when
  it is complete exactly at their end (by a carriage return, or because it has \<open>n\<close> characters).
\<close>

definition edit1 :: "bytes \<Rightarrow> u8 \<Rightarrow> bytes" where
  "edit1 line c = (if c = 0x08 then butlast line else if c = 0 then line else line @ [c])"

fun edit :: "nat \<Rightarrow> bytes \<Rightarrow> bytes \<Rightarrow> bytes option" where
  "edit n line [] = (if length line < n then None else Some line)"
| "edit n line (c # cs) =
     (if length line < n
      then if c = 0x0d then (if cs = [] then Some line else None) else edit n (edit1 line c) cs
      else None)"

lemma on_kbd_Ok:
  "m (w_dev w, w_kbd w) = (Ok a, (d, k)) \<Longrightarrow> on_kbd m w = (Ok a, w\<lparr>w_dev := d, w_kbd := k\<rparr>)"
  by (simp add: on_kbd_def)

lemma echo_ok:
  assumes "screen_ok (w_screen w)"
  obtains s where "echo vis c w = (Ok (), w\<lparr>w_screen := s\<rparr>)" "screen_ok s"
proof -
  obtain v s where "out_char (scast c) (w_screen w) = (Ok v, s)" "screen_ok s"
    using prints_out_char [of "scast c"] assms unfolding prints_def by blast
  then show thesis
    using that [of s] that [of "w_screen w"] assms
    by (cases vis) (auto simp: echo_def on_screen_def bindE_def returnE_def)
qed

text \<open>The buffer holds the line at its front.\<close>

definition line_in :: "bytes \<Rightarrow> bytes \<Rightarrow> bool" where
  "line_in line strg \<longleftrightarrow> take (length line) strg = line"

lemma line_in_butlast: "line_in line strg \<Longrightarrow> line_in (butlast line) (strg[length line := v])"
  unfolding line_in_def
  by (metis butlast_take diff_le_self length_butlast length_take min.cobounded1 take_update_cancel)

lemma line_in_snoc: "line_in line strg \<Longrightarrow> length line < length strg \<Longrightarrow>
   line_in (line @ [c]) (strg[length line := c])"
  by (simp add: line_in_def take_Suc_conv_app_nth)

lemma edit_char_ok:
  assumes l: "line_in line strg" "length line < length strg" "length strg < 2 ^ 32"
    and s: "screen_ok (w_screen w)"
  obtains strg' s' where
    "edit_char vis c strg (of_nat (length line)) w = (Ok (strg', of_nat (length (edit1 line c))), w\<lparr>w_screen := s'\<rparr>)"
    "line_in (edit1 line c) strg'" "length strg' = length strg" "screen_ok s'"
proof -
  let ?i = "of_nat (length line) :: u32"
  have i: "unat ?i = length line" using l by (simp add: unat_of_nat_u32)
  have pos: "0 < ?i \<longleftrightarrow> line \<noteq> []" using i by (metis length_0_conv unat_eq_zero word_neq_0_conv)
  obtain t where t: "echo vis c w = (Ok (), w\<lparr>w_screen := t\<rparr>)" "screen_ok t"
    by (rule echo_ok [OF s])
  consider "c = 0x08" "line = []" | "c = 0x08" "line \<noteq> []" | "c = 0" | "c \<noteq> 0x08" "c \<noteq> 0" by blast
  then show thesis
  proof cases
    case 1
    then show ?thesis using that [of "strg[0 := 0]" "w_screen w"] l s i pos
      by (simp add: edit_char_def put_str_def edit1_def bindE_def returnE_def line_in_def)
  next
    case 2
    then have "?i - 1 = of_nat (length (butlast line))" by (simp add: of_nat_diff Suc_le_eq)
    then show ?thesis using 2 that [of "strg[length line := 0]" t] l t i pos line_in_butlast [OF l(1)]
      by (simp add: edit_char_def put_str_def edit1_def bindE_def returnE_def)
  next
    case 3
    then show ?thesis using that [of strg "w_screen w"] l s
      by (simp add: edit_char_def edit1_def returnE_def)
  next
    case 4
    then show ?thesis using that [of "strg[length line := c]" t] l t i line_in_snoc [OF l(1,2)]
      by (simp add: edit_char_def put_str_def edit1_def bindE_def returnE_def add.commute)
  qed
qed

lemma length_edit: "edit n line cs = Some s \<Longrightarrow> length line \<le> n \<Longrightarrow> length s \<le> n"
  by (induction n line cs rule: edit.induct) (auto simp: edit1_def split: if_splits)

lemma string_loop_ok:
  assumes "delivers hw cs (w_dev w, w_kbd w) (d', k')" "edit (unat n) line cs = Some s"
    and "line_in line strg" "length line \<le> unat n" "unat n \<le> length strg" "length strg < 2 ^ 32" "screen_ok (w_screen w)"
  shows "\<exists>strg' scr. string_loop hw n vis strg (of_nat (length line)) w =
      Some (Ok (strg', of_nat (length s)), w\<lparr>w_dev := d', w_kbd := k', w_screen := scr\<rparr>) \<and>
    line_in s strg' \<and> length strg' = length strg \<and> screen_ok scr"
  using assms
proof (induction cs arbitrary: w line strg)
  case Nil
  have "(of_nat (length line) :: u32) < n \<longleftrightarrow> length line < unat n"
    using Nil.prems by (simp add: word_less_nat_alt unat_of_nat_u32)
  with Nil show ?case
    by (subst string_loop.simps) (auto split: if_splits intro!: exI [of _ "w_screen w"])
next
  case (Cons c cs)
  obtain d k where g: "getchar hw (w_dev w, w_kbd w) = (Ok c, (d, k))" "delivers hw cs (d, k) (d', k')"
    using Cons.prems(1) by auto
  let ?w = "w\<lparr>w_dev := d, w_kbd := k\<rparr>"
  have lt: "length line < unat n" using Cons.prems(2) by (simp split: if_splits)
  then have i: "(of_nat (length line) :: u32) < n"
    using Cons.prems by (simp add: word_less_nat_alt unat_of_nat_u32)
  show ?case
  proof (cases "c = 0x0d")
    case True
    then have "cs = []" "s = line" using Cons.prems(2) lt by (auto split: if_splits)
    then show ?thesis using True g i Cons.prems on_kbd_Ok [where m = "getchar hw", OF g(1)]
      by (subst string_loop.simps) (auto intro!: exI [of _ "w_screen w"])
  next
    case False
    obtain strg' s' where e:
      "edit_char vis c strg (of_nat (length line)) ?w = (Ok (strg', of_nat (length (edit1 line c))), ?w\<lparr>w_screen := s'\<rparr>)"
      "line_in (edit1 line c) strg'" "length strg' = length strg" "screen_ok s'"
      using edit_char_ok [of line strg ?w vis c] Cons.prems lt by auto
    have "\<exists>strg'' scr. string_loop hw n vis strg' (of_nat (length (edit1 line c))) (?w\<lparr>w_screen := s'\<rparr>) =
        Some (Ok (strg'', of_nat (length s)), (?w\<lparr>w_screen := s'\<rparr>)\<lparr>w_dev := d', w_kbd := k', w_screen := scr\<rparr>) \<and>
      line_in s strg'' \<and> length strg'' = length strg' \<and> screen_ok scr"
      by (rule Cons.IH) (use Cons.prems False lt e g in \<open>auto simp: edit1_def\<close>)
    then show ?thesis using False i e on_kbd_Ok [where m = "getchar hw", OF g(1)]
      by (subst string_loop.simps) auto
  qed
qed

section \<open>Properties\<close>

lemma get_string_run:
  assumes "delivers hw (c # cs) (w_dev w, w_kbd w) (d', k')" "edit (unat n) [] cs = Some s"
    and "unat n \<le> length strg" "length strg < 2 ^ 32" "screen_ok (w_screen w)"
  shows "\<exists>strg' scr. get_string hw strg n vis w =
      bindE (put_str strg' (of_nat (length s)) 0) (\<lambda>strg. bindE (on_screen (out_char 0x0a)) (\<lambda>_.
        returnE (of_nat (length s), strg))) (w\<lparr>w_dev := d', w_kbd := k', w_screen := scr\<rparr>) \<and>
    line_in s strg' \<and> length strg' = length strg \<and> screen_ok scr"
proof -
  obtain d k where g: "getchar hw (w_dev w, w_kbd w) = (Ok c, (d, k))" "delivers hw cs (d, k) (d', k')"
    using assms(1) by auto
  let ?w = "w\<lparr>w_dev := d, w_kbd := k\<rparr>"
  obtain strg' scr where "string_loop hw n vis strg 0 ?w =
      Some (Ok (strg', of_nat (length s)), ?w\<lparr>w_dev := d', w_kbd := k', w_screen := scr\<rparr>)"
    "line_in s strg'" "length strg' = length strg" "screen_ok scr"
    using string_loop_ok [of hw cs ?w d' k' n "[]" s strg vis] assms g by (auto simp: line_in_def)
  then show ?thesis using on_kbd_Ok [where m = "getchar hw", OF g(1)]
    by (auto simp: get_string_def get_line_def bindE_cases(1))
qed

text \<open>
  C16: what \<open>get_string\<close> returns is what the user typed. The first character is dropped; the rest
  are edited with backspace until a carriage return or until \<open>strSize\<close> characters are there. The
  line is at the front of the caller's array with a zero behind it, its length is the result, and
  the array is not left as long as it has one byte more than \<open>strSize\<close>.
\<close>

theorem get_string_line:
  assumes "delivers hw (c # cs) (w_dev w, w_kbd w) (d', k')" "edit (unat n) [] cs = Some s"
    and "unat n < length strg" "length strg < 2 ^ 32" "screen_ok (w_screen w)"
  shows "\<exists>strg' scr. get_string hw strg n vis w =
      (Ok (of_nat (length s), strg'), w\<lparr>w_dev := d', w_kbd := k', w_screen := scr\<rparr>) \<and>
    take (length s + 1) strg' = s @ [0] \<and> length strg' = length strg \<and> screen_ok scr"
proof -
  obtain strg' scr where r: "get_string hw strg n vis w =
      bindE (put_str strg' (of_nat (length s)) 0) (\<lambda>strg. bindE (on_screen (out_char 0x0a)) (\<lambda>_.
        returnE (of_nat (length s), strg))) (w\<lparr>w_dev := d', w_kbd := k', w_screen := scr\<rparr>)"
    "line_in s strg'" "length strg' = length strg" "screen_ok scr"
    using get_string_run [of hw c cs w d' k' n s strg vis] assms by auto
  have len: "length s < length strg" using length_edit [OF assms(2)] assms(3) by simp
  then have i: "unat (of_nat (length s) :: u32) = length s" using assms(4) by (simp add: unat_of_nat_u32)
  obtain v scr' where "out_char 0x0a scr = (Ok v, scr')" "screen_ok scr'"
    using prints_out_char [of "0x0a"] r(4) unfolding prints_def by blast
  then show ?thesis
    using r i len by (auto simp: put_str_def on_screen_def bindE_def returnE_def line_in_def take_Suc_conv_app_nth)
qed

text \<open>A keyboard whose state is the list of scan codes still to come.\<close>

definition key_hw :: "u8 list hw" where
  "key_hw = \<lparr>hw_inb = (\<lambda>p d. if p = 0x64 then (if d = [] then 0 else 1, d)
        else if p = 0x60 \<and> d \<noteq> [] then (hd d, tl d) else (0xff, d)),
      hw_outb = (\<lambda>p v d. d), hw_inw = (\<lambda>p d. (- 1, d)), hw_outw = (\<lambda>p v d. d),
      hw_inl = (\<lambda>p d. (- 1, d)), hw_outl = (\<lambda>p v d. d),
      hw_rd8 = (\<lambda>a d. (0xff, d)), hw_wr8 = (\<lambda>a v d. d), hw_rd32 = (\<lambda>a d. (- 1, d)),
      hw_wr32 = (\<lambda>a v d. d), hw_rdmsr = (\<lambda>a d. (0, d)), hw_wrmsr = (\<lambda>a v d. d),
      hw_cpuid_eax = (\<lambda>x. 0), hw_cpuid_ecx = (\<lambda>x. 0), hw_cpuid_edx = (\<lambda>x. 0)\<rparr>"

definition key_world :: "u8 list \<Rightarrow> u8 list world" where
  "key_world ks = \<lparr>w_dev = ks, w_screen = \<lparr>scr_col = 0, scr_cells = replicate 2000 0\<rparr>, w_mem = (\<lambda>_. 0),
     w_kbd = \<lparr>scancode = 0, shift = False, capslock = False\<rparr>, w_code = 0x7c00,
     w_heap = (\<lambda>_. \<lparr>mn_size = 0, mn_next = 0\<rparr>), w_in = [], w_out = [], w_locality = 0, w_sessions = [],
     w_objs = (\<lambda>_. \<lparr>authHandle = 0, nonceEven = [], nonceOdd = [], continueAuthSession = 0, osap = None\<rparr>),
     w_pctx = pack_init [] 0, w_uctx = unpack_init [] 0, w_sctx = sha1_ctx0, w_hctx = hmac_ctx0\<rparr>"

lemma key_getchar: "getchar key_hw (b # ks, k) = scan key_hw b (ks, k)"
proof -
  have "poll_status key_hw 1 False (b # ks) = Some (b # ks)"
    by (subst poll_status.simps) (simp add: key_hw_def)
  moreover have "hw_inb key_hw 0x60 (b # ks) = (b, ks)" by (simp add: key_hw_def)
  ultimately show ?thesis
    by (simp add: getchar_def bindE_cases(1) kybrd_poll_def kybrd_enc_read_buf_def)
qed

text \<open>The keys shift, Y, return typed after the leading return: pressed and released.\<close>

definition typed_Y :: "u8 list" where
  "typed_Y = [0x9c, 0x2a, 0x15, 0x95, 0xaa, 0x1c, 0x9c]"

lemmas key_simps = key_getchar scan_def key_of_def kkybrd_scancode_std_def set_kbd_def kybrd_key_to_ascii_def
  shifted_sign_def bindE_def returnE_def getE_def modifyE_def

lemma typed_Y_delivers:
  "delivers key_hw [0x0d, 0, 0, 0x59, 0, 0, 0x0d] (typed_Y, \<lparr>scancode = 0, shift = False, capslock = False\<rparr>)
     ([], \<lparr>scancode = 0x1c, shift = False, capslock = False\<rparr>)"
  by (simp add: typed_Y_def key_simps Let_def)

theorem get_string_line_witness:
  "\<exists>strg' w'. get_string key_hw [1, 2, 3] 2 True (key_world typed_Y) = (Ok (1, strg'), w') \<and>
     take 2 strg' = [0x59, 0]"
proof -
  have "\<exists>strg' scr. get_string key_hw [1, 2, 3] 2 True (key_world typed_Y) =
      (Ok (of_nat (length [0x59 :: u8]), strg'), (key_world typed_Y)\<lparr>w_dev := [],
        w_kbd := \<lparr>scancode = 0x1c, shift = False, capslock = False\<rparr>, w_screen := scr\<rparr>) \<and>
    take (length [0x59 :: u8] + 1) strg' = [0x59] @ [0] \<and> length strg' = length [1, 2, 3 :: u8] \<and> screen_ok scr"
    by (rule get_string_line [where c = "0x0d" and cs = "[0, 0, 0x59, 0, 0, 0x0d]"])
      (use typed_Y_delivers in \<open>simp_all add: key_world_def edit1_def screen_ok_def del: delivers.simps\<close>)
  then show ?thesis by (fastforce simp: numeral_2_eq_2)
qed

text \<open>
  when the array has no byte more than \<open>strSize\<close>, a line of \<open>strSize\<close> characters makes
  \<open>get_string\<close> write its terminating zero behind the array.
\<close>

theorem get_string_overflow:
  assumes "delivers hw (c # cs) (w_dev w, w_kbd w) (d', k')" "edit (unat n) [] cs = Some s"
    and "length s = unat n" "length strg = unat n" "screen_ok (w_screen w)"
  shows "\<exists>w'. get_string hw strg n vis w = (Stop Fault, w')"
proof -
  have len: "length strg < 2 ^ 32" using assms(4) unsigned_less [of n] by simp
  have n: "of_nat (length s) = n" using assms(3) by simp
  show ?thesis using get_string_run [of hw c cs w d' k' n s strg vis] assms len
    by (auto simp: n put_str_def stopE_def bindE_def)
qed

theorem get_string_overflow_witness:
  "\<exists>w'. get_string key_hw [7] 1 False (key_world [0x9c, 0x95]) = (Stop Fault, w')"
  by (rule get_string_overflow [where c = "0x0d" and cs = "[0x79]" and s = "[0x79]" and d' = "[]"
        and k' = "\<lparr>scancode = 0, shift = False, capslock = False\<rparr>"])
    (simp_all add: key_world_def key_simps edit1_def screen_ok_def Let_def)

text \<open>
  Releasing the Alt key or F8 is a backspace, since the low byte of their key codes is 8; with
  shift the keys 3 and 4 give the signs of 1 and 3.
\<close>

lemma modifier_is_backspace:
  "kybrd_key_to_ascii k (kkybrd_scancode_std ! 0x38) = 0x08"
  "kybrd_key_to_ascii k (kkybrd_scancode_std ! 0x42) = 0x08"
  by (simp_all add: kybrd_key_to_ascii_def kkybrd_scancode_std_def shifted_sign_def Let_def)

lemma shifted_digits_wrong:
  "shift k \<Longrightarrow> \<not> capslock k \<Longrightarrow> kybrd_key_to_ascii k KEY_3 = 0x21 \<and> kybrd_key_to_ascii k KEY_4 = 0x23"
  by (simp add: kybrd_key_to_ascii_def shifted_digit_def Let_def)

text \<open>A scan code without a table entry (\<open>0x53\<close> to \<open>0x7f\<close>, F11 among them) reads behind the table.\<close>

lemma scancode_out_of_table: "0x53 \<le> code \<Longrightarrow> key_of code s = (Stop Fault, s)"
  by (simp add: key_of_def kkybrd_scancode_std_def stopE_def word_le_nat_alt)

end
