(* ===== verification/ELF.thy ===== *)
theory ELF
  imports World
begin

text \<open>
  The start of the next module (\<^verbatim>\<open>src/elf.c\<close>, with the structures of \<^verbatim>\<open>include/mbi.h\<close> and
  \<^verbatim>\<open>include/elf.h\<close>). \<open>start_module\<close> writes a small program to \<open>0x7c00\<close> that copies the segments
  of the module to their places and enters it, and jumps there. The structures are read from and
  written to the physical memory, so that what overlaps, overlaps.
\<close>

section \<open>Memory access\<close>

definition ld16 :: "mem \<Rightarrow> u32 \<Rightarrow> u16" where
  "ld16 m a = of_le16 (bytes_at m a 2)"

definition ld32 :: "mem \<Rightarrow> u32 \<Rightarrow> u32" where
  "ld32 m a = of_le32 (bytes_at m a 4)"

definition st32 :: "u32 \<Rightarrow> u32 \<Rightarrow> mem \<Rightarrow> mem" where
  "st32 a v m = m(a := ucast v, a + 1 := ucast (drop_bit 8 v), a + 2 := ucast (drop_bit 16 v),
     a + 3 := ucast (drop_bit 24 v))"

text \<open>The bytes \<open>bs\<close> written to memory one after the other.\<close>

primrec poke :: "u32 \<Rightarrow> bytes \<Rightarrow> mem \<Rightarrow> mem" where
  "poke a [] m = m"
| "poke a (b # bs) m = poke (a + 1) bs (m(a := b))"

definition load32 :: "u32 \<Rightarrow> ('d world, u32) exec" where
  "load32 a = getE (\<lambda>w. ld32 (w_mem w) a)"

definition load16 :: "u32 \<Rightarrow> ('d world, u16) exec" where
  "load16 a = getE (\<lambda>w. ld16 (w_mem w) a)"

definition store32 :: "u32 \<Rightarrow> u32 \<Rightarrow> ('d world, unit) exec" where
  "store32 a v = modifyE (\<lambda>w. w\<lparr>w_mem := st32 a v (w_mem w)\<rparr>)"

section \<open>Structures\<close>

text \<open>The addresses of the members of a structure.\<close>

record mbh =
  mbh_magic :: u32
  mbh_flags :: u32
  mbh_checksum :: u32
  mbh_header_addr :: u32
  mbh_load_addr :: u32
  mbh_load_end_addr :: u32
  mbh_bss_end_addr :: u32
  mbh_entry_addr :: u32

definition mbh_at :: "u32 \<Rightarrow> mbh" where
  "mbh_at a = \<lparr>mbh_magic = a, mbh_flags = a + 4, mbh_checksum = a + 8, mbh_header_addr = a + 12,
     mbh_load_addr = a + 16, mbh_load_end_addr = a + 20, mbh_bss_end_addr = a + 24,
     mbh_entry_addr = a + 28\<rparr>"

record mbi =
  mbi_flags :: u32
  mbi_mem_lower :: u32
  mbi_mem_upper :: u32
  mbi_boot_device :: u32
  mbi_cmdline :: u32
  mbi_mods_count :: u32
  mbi_mods_addr :: u32
  mbi_mmap_length :: u32
  mbi_mmap_addr :: u32
  mbi_boot_loader_name :: u32

definition mbi_at :: "u32 \<Rightarrow> mbi" where
  "mbi_at a = \<lparr>mbi_flags = a, mbi_mem_lower = a + 4, mbi_mem_upper = a + 8, mbi_boot_device = a + 12,
     mbi_cmdline = a + 16, mbi_mods_count = a + 20, mbi_mods_addr = a + 24, mbi_mmap_length = a + 44,
     mbi_mmap_addr = a + 48, mbi_boot_loader_name = a + 64\<rparr>"

record module =
  mod_start :: u32
  mod_end :: u32
  mod_string :: u32
  mod_reserved :: u32

definition module_at :: "u32 \<Rightarrow> module" where
  "module_at a = \<lparr>mod_start = a, mod_end = a + 4, mod_string = a + 8, mod_reserved = a + 12\<rparr>"

record eh =
  e_ident :: u32
  e_type :: u32
  e_machine :: u32
  e_version :: u32
  e_entry :: u32
  e_phoff :: u32
  e_phentsize :: u32
  e_phnum :: u32

definition eh_at :: "u32 \<Rightarrow> eh" where
  "eh_at a = \<lparr>e_ident = a, e_type = a + 16, e_machine = a + 18, e_version = a + 20, e_entry = a + 24,
     e_phoff = a + 28, e_phentsize = a + 42, e_phnum = a + 44\<rparr>"

record ph =
  p_type :: u32
  p_offset :: u32
  p_vaddr :: u32
  p_paddr :: u32
  p_filesz :: u32
  p_memsz :: u32

definition ph_at :: "u32 \<Rightarrow> ph" where
  "ph_at a = \<lparr>p_type = a, p_offset = a + 4, p_vaddr = a + 8, p_paddr = a + 12, p_filesz = a + 16,
     p_memsz = a + 20\<rparr>"

definition MBI_MAGIC1 :: u32 where "MBI_MAGIC1 = 0x1badb002"
definition MBI_MAGIC2 :: u32 where "MBI_MAGIC2 = 0x2badb002"

definition CHECK_FLAG :: "u32 \<Rightarrow> nat \<Rightarrow> bool" where
  "CHECK_FLAG flags b \<longleftrightarrow> flags AND push_bit b 1 \<noteq> 0"

definition SET_FLAG :: "u32 \<Rightarrow> nat \<Rightarrow> u32" where
  "SET_FLAG flags b = flags OR push_bit b 1"

section \<open>The code generator\<close>

definition TRAMPOLINE_ADDRESS :: u32 where "TRAMPOLINE_ADDRESS = 0x7c00"

datatype reg = EAX | ECX | EDX | EBX | ESP | EBP | ESI | EDI

fun reg_num :: "reg \<Rightarrow> u8" where
  "reg_num EAX = 0" | "reg_num ECX = 1" | "reg_num EDX = 2" | "reg_num EBX = 3"
| "reg_num ESP = 4" | "reg_num EBP = 5" | "reg_num ESI = 6" | "reg_num EDI = 7"

definition byte_out :: "u8 \<Rightarrow> ('d world, unit) exec" where
  "byte_out b = modifyE (\<lambda>w. w\<lparr>w_mem := (w_mem w)(w_code w := b), w_code := w_code w + 1\<rparr>)"

definition gen_mov :: "reg \<Rightarrow> u32 \<Rightarrow> ('d world, unit) exec" where
  "gen_mov r constant =
     bindE (byte_out (0xB8 OR reg_num r)) (\<lambda>_.
     bindE (byte_out (ucast constant)) (\<lambda>_.
     bindE (byte_out (ucast (drop_bit 8 constant))) (\<lambda>_.
     bindE (byte_out (ucast (drop_bit 16 constant))) (\<lambda>_.
     byte_out (ucast (drop_bit 24 constant))))))"

definition gen_jmp_edx :: "('d world, unit) exec" where
  "gen_jmp_edx = bindE (byte_out 0xFF) (\<lambda>_. byte_out 0xE2)"

definition gen_elf_segment :: "u32 \<Rightarrow> u32 \<Rightarrow> u32 \<Rightarrow> u32 \<Rightarrow> ('d world, unit) exec" where
  "gen_elf_segment target src len fill =
     bindE (gen_mov EDI target) (\<lambda>_.
     bindE (gen_mov ESI src) (\<lambda>_.
     bindE (gen_mov ECX len) (\<lambda>_.
     bindE (byte_out 0xF3) (\<lambda>_.
     bindE (byte_out 0xA4) (\<lambda>_.
     bindE (gen_mov ECX fill) (\<lambda>_.
     bindE (byte_out 0xF3) (\<lambda>_.
     byte_out 0xAA)))))))"

text \<open>The search for the multiboot header: at most 8192 words, compared as pointers.\<close>

primrec find_mbh :: "nat \<Rightarrow> u32 \<Rightarrow> u32 \<Rightarrow> mem \<Rightarrow> u32" where
  "find_mbh 0 stop ptr m = ptr"
| "find_mbh (Suc n) stop ptr m =
     (if ptr < stop \<and> ld32 m (mbh_magic (mbh_at ptr)) \<noteq> MBI_MAGIC1 then find_mbh n stop (ptr + 4) m else ptr)"

text \<open>
  The loop over the program headers. \<open>e_phnum\<close> is read again in each round, as the headers are in
  the memory the code is written to; it has 16 bits, so 65536 rounds are always enough.
\<close>

primrec gen_segments :: "nat \<Rightarrow> u32 \<Rightarrow> u32 \<Rightarrow> u32 \<Rightarrow> ('d world, unit) exec" where
  "gen_segments 0 i elf m = returnE ()"
| "gen_segments (Suc n) i elf m =
     bindE (load16 (e_phnum (eh_at elf))) (\<lambda>phnum.
     if i < ucast phnum
     then bindE (load32 (mod_start (module_at m))) (\<lambda>start.
          bindE (load32 (e_phoff (eh_at elf))) (\<lambda>phoff.
          bindE (load16 (e_phentsize (eh_at elf))) (\<lambda>phentsize.
          let p = ph_at (start + phoff + i * ucast phentsize) in
          bindE (load32 (p_type p)) (\<lambda>type.
          bindE (if type \<noteq> 1 then returnE ()
                 else bindE (load32 (p_paddr p)) (\<lambda>paddr.
                      bindE (load32 (p_offset p)) (\<lambda>offset.
                      bindE (load32 (p_filesz p)) (\<lambda>filesz.
                      bindE (load32 (p_memsz p)) (\<lambda>memsz.
                      gen_elf_segment paddr (start + offset) filesz (memsz - filesz)))))) (\<lambda>_.
          gen_segments n (i + 1) elf m)))))
     else returnE ())"

text \<open>
  The multiboot branch. The source address is a difference of pointers to \<open>UINT32\<close>: the number of
  words (an arithmetic shift of the difference) times four.
\<close>

definition word_diff :: "u32 \<Rightarrow> u32 \<Rightarrow> u32" where
  "word_diff a b = 4 * word_of_int (sint (a - b) div 4)"

definition gen_multiboot :: "u32 \<Rightarrow> u32 \<Rightarrow> ('d world, unit) exec" where
  "gen_multiboot m mb =
     bindE (load32 (mbh_load_end_addr (mbh_at mb))) (\<lambda>load_end_addr.
     bindE (if load_end_addr = 0 then load32 (mod_end (module_at m)) else returnE load_end_addr) (\<lambda>load_end.
     bindE (load32 (mbh_bss_end_addr (mbh_at mb))) (\<lambda>bss_end_addr.
     let bss_offset = (if bss_end_addr = 0 then 0 else bss_end_addr - load_end) in
     bindE (load32 (mbh_load_addr (mbh_at mb))) (\<lambda>load_addr.
     bindE (load32 (mbh_header_addr (mbh_at mb))) (\<lambda>header_addr.
     gen_elf_segment load_addr (mb - word_diff header_addr load_addr) (load_end - load_addr) bss_offset)))))"

definition check_elf :: "u32 \<Rightarrow> ('d world, unit) exec" where
  "check_elf elf =
     bindE (load32 (e_ident (eh_at elf))) (\<lambda>magic.
     bindE (load16 (e_ident (eh_at elf) + 4)) (\<lambda>class_data.
     bindE (ERROR_if (magic \<noteq> 0x464c457f \<or> class_data \<noteq> 0x0101) ERROR_BAD_ELF_HEADER) (\<lambda>_.
     bindE (load16 (e_type (eh_at elf))) (\<lambda>type.
     bindE (load16 (e_machine (eh_at elf))) (\<lambda>machine.
     bindE (load32 (e_version (eh_at elf))) (\<lambda>version.
     bindE (ERROR_if (type \<noteq> 2 \<or> machine \<noteq> 3 \<or> version \<noteq> 1) ERROR_BAD_ELF_HEADER) (\<lambda>_.
     bindE (load16 (e_phentsize (eh_at elf))) (\<lambda>phentsize.
     ERROR_if (32 > phentsize) ERROR_BAD_ELF_HEADER))))))))"

text \<open>The segments of the module: by its multiboot header, or by its program headers.\<close>

definition gen_module :: "u32 \<Rightarrow> u32 \<Rightarrow> bool \<Rightarrow> u32 \<Rightarrow> ('d world, unit) exec" where
  "gen_module m mb multiboot start =
     (if multiboot then gen_multiboot m mb
      else bindE (check_elf start) (\<lambda>_. gen_segments 65536 0 start m))"

text \<open>The last step, \<open>jmp *%edx\<close> with \<open>eax = 0\<close> and \<open>ebx = mbi\<close>, leaves the loader.\<close>

definition enter_module :: "'d hw \<Rightarrow> u32 \<Rightarrow> u32 \<Rightarrow> ('d world, unit) exec" where
  "enter_module hw mbi entry =
     bindE (gen_mov EDX entry) (\<lambda>_.
     bindE (on_screen (out_info (str (''jumping to next segment...'' @ [CHR 0x0A])))) (\<lambda>_.
     bindE (wait hw 1000) (\<lambda>_.
     bindE gen_jmp_edx (\<lambda>_.
     stopE (Jump TRAMPOLINE_ADDRESS 0 mbi)))))"

definition start_module :: "'d hw \<Rightarrow> u32 \<Rightarrow> ('d world, unit) exec" where
  "start_module hw mbi =
     bindE (load32 (mbi_mods_count (mbi_at mbi))) (\<lambda>mods_count.
     bindE (ERROR_if (mods_count = 0) ERROR_NO_MODULE) (\<lambda>_.
     bindE (load32 (mbi_mods_addr (mbi_at mbi))) (\<lambda>m.
     bindE (store32 (mbi_mods_addr (mbi_at mbi)) (m + 16)) (\<lambda>_.
     bindE (store32 (mbi_mods_count (mbi_at mbi)) (mods_count - 1)) (\<lambda>_.
     bindE (load32 (mod_string (module_at m))) (\<lambda>strg.
     bindE (store32 (mbi_cmdline (mbi_at mbi)) strg) (\<lambda>_.
     bindE (load32 (mbi_flags (mbi_at mbi))) (\<lambda>flags.
     bindE (store32 (mbi_flags (mbi_at mbi)) (SET_FLAG flags 2)) (\<lambda>_.
     bindE (load32 (mod_start (module_at m))) (\<lambda>start.
     bindE (getE (\<lambda>w. find_mbh 8192 (start + 32768) start (w_mem w))) (\<lambda>mb.
     bindE (load32 (mbh_flags (mbh_at mb))) (\<lambda>mb_flags.
     bindE (load32 (mbh_magic (mbh_at mb))) (\<lambda>mb_magic.
     let multiboot = (mb_flags AND 0x00010000 \<noteq> 0 \<and> mb_magic = MBI_MAGIC1) in
     bindE (gen_module m mb multiboot start) (\<lambda>_.
     bindE (gen_mov EAX MBI_MAGIC2) (\<lambda>_.
     bindE (if multiboot then load32 (mbh_entry_addr (mbh_at mb)) else load32 (e_entry (eh_at start))) (\<lambda>entry.
     enter_module hw mbi entry))))))))))))))))"

end
