(* ===== verification/AMD.thy ===== *)
theory AMD
  imports ELF
begin

text \<open>
  The AMD platform code: processor checks (\<^verbatim>\<open>src/arch-amd/amd.c\<close>), interprocessor interrupts
  (\<^verbatim>\<open>src/arch-amd/mp.c\<close>), and the PCI configuration space with the device exclusion vector
  (\<^verbatim>\<open>src/arch-amd/dev.c\<close>). The registers are those of the hardware parameter. Parameters are also
  the assembly routine for the other processors and the bytes that follow a string constant.
\<close>

section \<open>Hardware access\<close>

definition rdmsr :: "'d hw \<Rightarrow> u32 \<Rightarrow> ('d world, u64) exec" where
  "rdmsr hw a = on_dev (hw_rdmsr hw a)"

definition wrmsr :: "'d hw \<Rightarrow> u32 \<Rightarrow> u64 \<Rightarrow> ('d world, unit) exec" where
  "wrmsr hw a v = on_dev (\<lambda>d. ((), hw_wrmsr hw a v d))"

definition inw :: "'d hw \<Rightarrow> u16 \<Rightarrow> ('d world, u16) exec" where
  "inw hw p = on_dev (hw_inw hw p)"

definition outw :: "'d hw \<Rightarrow> u16 \<Rightarrow> u16 \<Rightarrow> ('d world, unit) exec" where
  "outw hw p v = on_dev (\<lambda>d. ((), hw_outw hw p v d))"

definition inl :: "'d hw \<Rightarrow> u16 \<Rightarrow> ('d world, u32) exec" where
  "inl hw p = on_dev (hw_inl hw p)"

definition outl :: "'d hw \<Rightarrow> u16 \<Rightarrow> u32 \<Rightarrow> ('d world, unit) exec" where
  "outl hw p v = on_dev (\<lambda>d. ((), hw_outl hw p v d))"

definition wr32w :: "'d hw \<Rightarrow> u32 \<Rightarrow> u32 \<Rightarrow> ('d world, unit) exec" where
  "wr32w hw a v = on_dev (\<lambda>d. ((), hw_wr32 hw a v d))"

text \<open>A loop over a list that carries a value.\<close>

primrec foldE :: "('a \<Rightarrow> 'b \<Rightarrow> ('s, 'b) exec) \<Rightarrow> 'a list \<Rightarrow> 'b \<Rightarrow> ('s, 'b) exec" where
  "foldE f [] b = returnE b"
| "foldE f (x # xs) b = bindE (f x b) (\<lambda>b. foldE f xs b)"

section \<open>Processor\<close>

definition MSR_EFER :: u32 where "MSR_EFER = 0xC0000080"
definition EFER_SVME :: u64 where "EFER_SVME = push_bit 12 1"

definition enable_svm :: "'d hw \<Rightarrow> ('d world, unit) exec" where
  "enable_svm hw =
     bindE (rdmsr hw MSR_EFER) (\<lambda>v.
     bindE (wrmsr hw MSR_EFER (v OR EFER_SVME)) (\<lambda>_.
     bindE (rdmsr hw MSR_EFER) (\<lambda>v.
     ERROR_if (v AND EFER_SVME = 0) ERROR_SVM_ENABLE)))"

definition check_cpuid :: "'d hw \<Rightarrow> ('d world, u32) exec" where
  "check_cpuid hw =
     bindE (ERROR_if (0x8000000A > hw_cpuid_eax hw 0x80000000) ERROR_NO_EXT) (\<lambda>_.
     bindE (ERROR_if (0x4 AND hw_cpuid_ecx hw 0x80000001 = 0) ERROR_NO_SVM) (\<lambda>_.
     bindE (ERROR_if (0x200 AND hw_cpuid_edx hw 0x80000001 = 0) ERROR_NO_APIC) (\<lambda>_.
     returnE (hw_cpuid_eax hw 0x8000000A AND 0xff))))"

section \<open>Interprocessor interrupts\<close>

definition MSR_APIC_BASE :: u32 where "MSR_APIC_BASE = 0x1B"
definition APIC_BASE_ENABLE :: u64 where "APIC_BASE_ENABLE = 0x800"
definition APIC_BASE_BSP :: u64 where "APIC_BASE_BSP = 0x100"
definition APIC_ICR_LOW_OFFSET :: u32 where "APIC_ICR_LOW_OFFSET = 0x300"
definition APIC_ICR_DST_ALL_EX :: u32 where "APIC_ICR_DST_ALL_EX = push_bit 18 3"
definition APIC_ICR_LEVEL_EDGE :: u32 where "APIC_ICR_LEVEL_EDGE = push_bit 15 0"
definition APIC_ICR_ASSERT :: u32 where "APIC_ICR_ASSERT = push_bit 14 1"
definition APIC_ICR_PENDING :: u32 where "APIC_ICR_PENDING = push_bit 12 1"
definition APIC_ICR_INIT :: u32 where "APIC_ICR_INIT = push_bit 8 5"
definition APIC_ICR_STARTUP :: u32 where "APIC_ICR_STARTUP = push_bit 8 6"

text \<open>Waits until the interrupt has been delivered; \<open>None\<close> when that never happens.\<close>

partial_function (option) ipi_wait :: "'d hw \<Rightarrow> u32 \<Rightarrow> 'd world \<Rightarrow> (unit res \<times> 'd world) option" where
  "ipi_wait hw icr w =
     (case rd32w hw icr w of
        (Ok v, w) \<Rightarrow>
          (if v AND APIC_ICR_PENDING \<noteq> 0
           then case wait hw 1 w of
                  (Ok _, w) \<Rightarrow> ipi_wait hw icr w
                | (Throw e, w) \<Rightarrow> Some (Throw e, w)
                | (Stop x, w) \<Rightarrow> Some (Stop x, w)
           else Some (Ok (), w))
      | (Throw e, w) \<Rightarrow> Some (Throw e, w)
      | (Stop x, w) \<Rightarrow> Some (Stop x, w))"

definition ipi_delivered :: "'d hw \<Rightarrow> u32 \<Rightarrow> ('d world, unit) exec" where
  "ipi_delivered hw icr = (\<lambda>w. case ipi_wait hw icr w of None \<Rightarrow> (Stop Hang, w) | Some r \<Rightarrow> r)"

definition send_ipi :: "'d hw \<Rightarrow> u32 \<Rightarrow> ('d world, unit) exec" where
  "send_ipi hw param =
     bindE (rdmsr hw MSR_APIC_BASE) (\<lambda>v.
     bindE (ERROR_if (v AND (APIC_BASE_ENABLE OR APIC_BASE_BSP) = 0) ERROR_APIC) (\<lambda>_.
     bindE (ERROR_if (drop_bit 32 v AND 0xf \<noteq> 0) ERROR_APIC) (\<lambda>_.
     let apic_icr_low = (ucast v AND 0xfffff000) + APIC_ICR_LOW_OFFSET in
     bindE (rd32w hw apic_icr_low) (\<lambda>icr.
     bindE (ERROR_if (icr AND APIC_ICR_PENDING \<noteq> 0) ERROR_APIC) (\<lambda>_.
     bindE (wr32w hw apic_icr_low (APIC_ICR_DST_ALL_EX OR APIC_ICR_LEVEL_EDGE OR APIC_ICR_ASSERT OR param)) (\<lambda>_.
     ipi_delivered hw apic_icr_low))))))"

definition stop_processors :: "'d hw \<Rightarrow> ('d world, unit) exec" where
  "stop_processors hw = send_ipi hw APIC_ICR_INIT"

definition start_processors :: "'d hw \<Rightarrow> u32 \<Rightarrow> ('d world, unit) exec" where
  "start_processors hw address =
     bindE (ASSERT (address AND 0xfff00fff = 0)) (\<lambda>_.
     send_ipi hw (APIC_ICR_STARTUP OR drop_bit 12 address))"

section \<open>PCI configuration space\<close>

abbreviation (input) PCI_ADDR_PORT :: u16 where "PCI_ADDR_PORT \<equiv> 0xcf8"
abbreviation (input) PCI_DATA_PORT :: u16 where "PCI_DATA_PORT \<equiv> 0xcfc"
abbreviation (input) PCI_CONF_HDR_CMD :: u32 where "PCI_CONF_HDR_CMD \<equiv> 4"
abbreviation (input) PCI_CONF_HDR_CAP :: u32 where "PCI_CONF_HDR_CAP \<equiv> 52"
abbreviation (input) PCI_CAP_OFFSET :: u32 where "PCI_CAP_OFFSET \<equiv> 1"

definition pci_read_byte :: "'d hw \<Rightarrow> u32 \<Rightarrow> ('d world, u8) exec" where
  "pci_read_byte hw addr =
     bindE (outl hw PCI_ADDR_PORT addr) (\<lambda>_. inb hw (PCI_DATA_PORT + ucast (addr AND 3)))"

definition pci_read_word :: "'d hw \<Rightarrow> u32 \<Rightarrow> ('d world, u16) exec" where
  "pci_read_word hw addr =
     bindE (outl hw PCI_ADDR_PORT addr) (\<lambda>_. inw hw (PCI_DATA_PORT + ucast (addr AND 2)))"

definition pci_read_long :: "'d hw \<Rightarrow> u32 \<Rightarrow> ('d world, u32) exec" where
  "pci_read_long hw addr = bindE (outl hw PCI_ADDR_PORT addr) (\<lambda>_. inl hw PCI_DATA_PORT)"

definition pci_write_word :: "'d hw \<Rightarrow> u32 \<Rightarrow> u16 \<Rightarrow> ('d world, unit) exec" where
  "pci_write_word hw addr v =
     bindE (outl hw PCI_ADDR_PORT addr) (\<lambda>_. outw hw (PCI_DATA_PORT + ucast (addr AND 2)) v)"

definition pci_write_long :: "'d hw \<Rightarrow> u32 \<Rightarrow> u32 \<Rightarrow> ('d world, unit) exec" where
  "pci_write_long hw addr v = bindE (outl hw PCI_ADDR_PORT addr) (\<lambda>_. outl hw PCI_DATA_PORT v)"

definition pci_read_word_aligned :: "'d hw \<Rightarrow> u32 \<Rightarrow> ('d world, u16) exec" where
  "pci_read_word_aligned hw addr = bindE (outl hw PCI_ADDR_PORT addr) (\<lambda>_. inw hw PCI_DATA_PORT)"

definition pci_write_word_aligned :: "'d hw \<Rightarrow> u32 \<Rightarrow> u16 \<Rightarrow> ('d world, unit) exec" where
  "pci_write_word_aligned hw addr v = bindE (outl hw PCI_ADDR_PORT addr) (\<lambda>_. outw hw PCI_DATA_PORT v)"

text \<open>
  The loop over the functions of a device: \<open>maxfunc\<close> is 0 or 7, so eight rounds are enough. The
  body returns the new result and the new \<open>maxfunc\<close>.
\<close>

primrec func_loop :: "nat \<Rightarrow> (u32 \<Rightarrow> u8 \<Rightarrow> u32 \<Rightarrow> ('s, u32 \<times> u8) exec) \<Rightarrow> u32 \<Rightarrow> u8 \<Rightarrow> u32 \<Rightarrow> ('s, u32) exec" where
  "func_loop 0 body func maxfunc res = returnE res"
| "func_loop (Suc n) body func maxfunc res =
     (if func \<le> ucast maxfunc
      then bindE (body func maxfunc res) (\<lambda>(res, maxfunc). func_loop n body (func + 1) maxfunc res)
      else returnE res)"

definition per_class_body :: "'d hw \<Rightarrow> u16 \<Rightarrow> u32 \<Rightarrow> u32 \<Rightarrow> u8 \<Rightarrow> u32 \<Rightarrow> ('d world, u32 \<times> u8) exec" where
  "per_class_body hw cls i func maxfunc res =
     (let addr = 0x80000000 OR push_bit 11 i OR push_bit 8 func in
      bindE (if maxfunc = 0 then pci_read_byte hw (addr + 14) else returnE 0) (\<lambda>b.
      let maxfunc = (if maxfunc = 0 \<and> b AND 0x80 \<noteq> 0 then 7 else maxfunc) in
      bindE (pci_read_long hw (addr + 0x8)) (\<lambda>v.
      returnE (if ucast cls = drop_bit 16 v then addr else res, maxfunc))))"

definition pci_find_device_per_class :: "'d hw \<Rightarrow> u16 \<Rightarrow> ('d world, u32) exec" where
  "pci_find_device_per_class hw cls =
     foldE (\<lambda>i. func_loop 8 (per_class_body hw cls (of_nat i)) 0 0) [0..<8192] 0"

definition pci_address :: "u32 \<Rightarrow> u32 \<Rightarrow> u32 \<Rightarrow> u32" where
  "pci_address bus dev func = 0x80000000 OR push_bit 16 bus OR push_bit 11 dev OR push_bit 8 func"

definition find_device_body :: "'d hw \<Rightarrow> u32 \<Rightarrow> u32 \<Rightarrow> u32 \<Rightarrow> u32 \<Rightarrow> u8 \<Rightarrow> u32 \<Rightarrow> ('d world, u32 \<times> u8) exec" where
  "find_device_body hw devid bus dev func maxfunc res =
     (let addr = pci_address bus dev func in
      bindE (pci_read_long hw addr) (\<lambda>v.
      bindE (pci_read_byte hw (addr + 14)) (\<lambda>header_type.
      returnE (if devid = v then addr else res,
               if maxfunc = 0 \<and> header_type AND 0x80 \<noteq> 0 then 7 else maxfunc))))"

definition pci_find_device :: "'d hw \<Rightarrow> u32 \<Rightarrow> ('d world, u32) exec" where
  "pci_find_device hw devid =
     foldE (\<lambda>bus. foldE (\<lambda>dev. func_loop 8 (find_device_body hw devid (of_nat bus) (of_nat dev)) 0 0) [0..<32])
       [0..<255] 0"

text \<open>The walk along the capability list, which does not end on a cyclic one.\<close>

partial_function (option) cap_loop :: "'d hw \<Rightarrow> u32 \<Rightarrow> u8 \<Rightarrow> u8 \<Rightarrow> 'd world \<Rightarrow> (u8 res \<times> 'd world) option" where
  "cap_loop hw addr capid v w =
     (if v \<noteq> 0
      then case pci_read_byte hw (addr + ucast v) w of
             (Ok b, w) \<Rightarrow>
               (if capid = b then Some (Ok v, w)
                else case pci_read_byte hw (addr + ucast v + PCI_CAP_OFFSET) w of
                       (Ok v, w) \<Rightarrow> cap_loop hw addr capid v w
                     | (Throw e, w) \<Rightarrow> Some (Throw e, w)
                     | (Stop x, w) \<Rightarrow> Some (Stop x, w))
           | (Throw e, w) \<Rightarrow> Some (Throw e, w)
           | (Stop x, w) \<Rightarrow> Some (Stop x, w)
      else Some (Ok v, w))"

definition pci_dev_find_cap :: "'d hw \<Rightarrow> u32 \<Rightarrow> u8 \<Rightarrow> ('d world, u8) exec" where
  "pci_dev_find_cap hw addr capid =
     bindE (pci_read_long hw (addr + PCI_CONF_HDR_CMD)) (\<lambda>v.
     bindE (ERROR_if (v AND 0x100000 = 0) ERROR_PCI) (\<lambda>_.
     bindE (pci_read_byte hw (addr + PCI_CONF_HDR_CAP)) (\<lambda>v.
     (\<lambda>w. case cap_loop hw addr capid v w of None \<Rightarrow> (Stop Hang, w) | Some r \<Rightarrow> r))))"

definition myprintf :: "u8 \<Rightarrow> u32 \<Rightarrow> u32 \<Rightarrow> u32 \<Rightarrow> u32 \<Rightarrow> (screen, unit) exec" where
  "myprintf ch high_base base high_size sz =
     bindE (out_char (scast ch)) (\<lambda>_. bindE (out_hex high_base 31) (\<lambda>_.
     bindE (out_char 0x5f) (\<lambda>_. bindE (out_hex base 31) (\<lambda>_.
     bindE (out_char 0x20) (\<lambda>_. bindE (out_hex high_size 31) (\<lambda>_.
     bindE (out_char 0x5f) (\<lambda>_. bindE (out_hex sz 31) (\<lambda>_.
     bindE (out_char 0x0a) (\<lambda>_. returnE ())))))))))"

text \<open>
  \<open>pci_print_bars\<close>: \<open>bars\<close> and \<open>masks\<close> are arrays of six words whose initial contents are the
  stack's; a \<open>count\<close> above six leaves them.
\<close>

definition read_bar :: "'d hw \<Rightarrow> u32 \<Rightarrow> nat \<Rightarrow> u32 list \<times> u32 list \<Rightarrow> ('d world, u32 list \<times> u32 list) exec" where
  "read_bar hw addr i = (\<lambda>(bars, masks).
     let a = addr + 0x10 + of_nat i * 4 in
     bindE (pci_read_long hw a) (\<lambda>b.
     if i \<ge> 6 then stopE Fault
     else bindE (pci_write_long hw a (- 1)) (\<lambda>_.
          bindE (pci_read_long hw a) (\<lambda>mask.
          bindE (pci_write_long hw a b) (\<lambda>_.
          returnE (bars[i := b], masks[i := NOT mask]))))))"

primrec print_bar_loop :: "nat \<Rightarrow> nat \<Rightarrow> nat \<Rightarrow> u32 list \<Rightarrow> u32 list \<Rightarrow> (screen, unit) exec" where
  "print_bar_loop 0 count i bars masks = returnE ()"
| "print_bar_loop (Suc n) count i bars masks =
     (if i < count
      then let bar = bars ! i; msk = masks ! i;
               wide = (bar AND 0x1 = 0 \<and> bar AND 0x6 = 4 \<and> i < 5);
               base = (if bar AND 0x1 \<noteq> 0 then bar AND 0xfffe else bar AND NOT 0xf);
               sz = (if bar AND 0x1 \<noteq> 0 then (msk AND 0xfffe) OR 1 OR base else msk OR 0xf OR base);
               ch = (if bar AND 0x1 \<noteq> 0 then 0x69 else 0x6d);
               high_base = (if wide then bars ! (i + 1) else 0);
               high_size = (if wide then masks ! (i + 1) OR high_base else 0)
           in bindE (if base \<noteq> 0 then myprintf ch high_base base high_size sz else returnE ()) (\<lambda>_.
              print_bar_loop n count (if wide then i + 2 else i + 1) bars masks)
      else returnE ())"

definition pci_print_bars :: "'d hw \<Rightarrow> u32 list \<times> u32 list \<Rightarrow> u32 \<Rightarrow> u32 \<Rightarrow> ('d world, unit) exec" where
  "pci_print_bars hw junk addr count =
     bindE (pci_read_word_aligned hw (addr + 0x4)) (\<lambda>cmd.
     bindE (pci_write_word_aligned hw (addr + 0x4) 0) (\<lambda>_.
     bindE (foldE (read_bar hw addr) [0..<unat count] junk) (\<lambda>(bars, masks).
     bindE (pci_write_word_aligned hw (addr + 0x4) cmd) (\<lambda>_.
     on_screen (print_bar_loop (unat count) (unat count) 0 bars masks)))))"

text \<open>In the release build the iteration only reads.\<close>

definition iterate_body :: "'d hw \<Rightarrow> u32 \<Rightarrow> u32 \<Rightarrow> u32 \<Rightarrow> u8 \<Rightarrow> u32 \<Rightarrow> ('d world, u32 \<times> u8) exec" where
  "iterate_body hw bus dev func maxfunc res =
     (let addr = pci_address bus dev func in
      bindE (pci_read_long hw addr) (\<lambda>v.
      bindE (pci_read_byte hw (addr + 14)) (\<lambda>header_type.
      returnE (res, if maxfunc = 0 \<and> header_type AND 0x80 \<noteq> 0 then 7 else maxfunc))))"

definition pci_iterate_devices :: "'d hw \<Rightarrow> ('d world, u32) exec" where
  "pci_iterate_devices hw =
     foldE (\<lambda>bus. foldE (\<lambda>dev. func_loop 8 (iterate_body hw (of_nat bus) (of_nat dev)) 0 0) [0..<32]) [0..<255] 0"

section \<open>The device exclusion vector\<close>

abbreviation (input) DEV_PCI_DEVICE_ID_OLD :: u32 where "DEV_PCI_DEVICE_ID_OLD \<equiv> 0x11031022"
abbreviation (input) DEV_PCI_DEVICE_ID_K10 :: u32 where "DEV_PCI_DEVICE_ID_K10 \<equiv> 0x12031022"
abbreviation (input) DEV_PCI_DEVICE_ID_BLD :: u32 where "DEV_PCI_DEVICE_ID_BLD \<equiv> 0x14031022"
abbreviation (input) DEV_PCI_DEVICE_ID_LEN :: u32 where "DEV_PCI_DEVICE_ID_LEN \<equiv> 0x141d1022"
abbreviation (input) DEV_PCI_CAP_ID :: u8 where "DEV_PCI_CAP_ID \<equiv> 0x0f"
abbreviation (input) DEV_OFFSET_OP :: u32 where "DEV_OFFSET_OP \<equiv> 4"
abbreviation (input) DEV_OFFSET_DATA :: u32 where "DEV_OFFSET_DATA \<equiv> 8"

datatype dev_registers = DEV_REG_BASE_LO | DEV_REG_BASE_HI | DEV_REG_MAP | DEV_REG_CAP | DEV_REG_CR
  | DEV_REG_ERR_STATUS | DEV_REG_ERR_ADDR_LO | DEV_REG_ERR_ADDR_HI

fun dev_reg_num :: "dev_registers \<Rightarrow> u32" where
  "dev_reg_num DEV_REG_BASE_LO = 0" | "dev_reg_num DEV_REG_BASE_HI = 1" | "dev_reg_num DEV_REG_MAP = 2"
| "dev_reg_num DEV_REG_CAP = 3" | "dev_reg_num DEV_REG_CR = 4" | "dev_reg_num DEV_REG_ERR_STATUS = 5"
| "dev_reg_num DEV_REG_ERR_ADDR_LO = 6" | "dev_reg_num DEV_REG_ERR_ADDR_HI = 7"

definition DEV_CR_EN :: u32 where "DEV_CR_EN = push_bit 0 1"
definition DEV_CR_INVD :: u32 where "DEV_CR_INVD = push_bit 4 1"
definition DEV_CR_SLDEV :: u32 where "DEV_CR_SLDEV = push_bit 5 1"

definition dev_read_reg :: "'d hw \<Rightarrow> u32 \<Rightarrow> dev_registers \<Rightarrow> u8 \<Rightarrow> ('d world, u32) exec" where
  "dev_read_reg hw addr func instance' =
     bindE (pci_write_long hw (addr + DEV_OFFSET_OP) (push_bit 8 (dev_reg_num func) OR ucast instance')) (\<lambda>_.
     pci_read_long hw (addr + DEV_OFFSET_DATA))"

definition dev_write_reg :: "'d hw \<Rightarrow> u32 \<Rightarrow> dev_registers \<Rightarrow> u8 \<Rightarrow> u32 \<Rightarrow> ('d world, unit) exec" where
  "dev_write_reg hw addr func instance' v =
     bindE (pci_write_long hw (addr + DEV_OFFSET_OP) (push_bit 8 (dev_reg_num func) OR ucast instance')) (\<lambda>_.
     pci_write_long hw (addr + DEV_OFFSET_DATA) v)"

definition dev_get_addr :: "'d hw \<Rightarrow> ('d world, u32) exec" where
  "dev_get_addr hw =
     bindE (pci_find_device hw DEV_PCI_DEVICE_ID_OLD) (\<lambda>v.
     bindE (if v = 0 then pci_find_device hw DEV_PCI_DEVICE_ID_K10 else returnE v) (\<lambda>v.
     bindE (if v = 0 then pci_find_device hw DEV_PCI_DEVICE_ID_BLD else returnE v) (\<lambda>v.
     bindE (if v = 0 then pci_find_device hw DEV_PCI_DEVICE_ID_LEN else returnE v) (\<lambda>v.
     bindE (ERROR_if (v = 0) ERROR_DEV) (\<lambda>_.
     bindE (pci_dev_find_cap hw v DEV_PCI_CAP_ID) (\<lambda>cap.
     let v = v + ucast cap in
     bindE (ERROR_if (v = 0) ERROR_DEV) (\<lambda>_.
     bindE (pci_read_long hw v) (\<lambda>hdr.
     bindE (ERROR_if (0xf \<noteq> hdr AND 0xf00ff) ERROR_DEV) (\<lambda>_.
     returnE v)))))))))"

definition disable_dev_protection :: "'d hw \<Rightarrow> ('d world, unit) exec" where
  "disable_dev_protection hw =
     bindE (on_screen (out_info (str ''disable DEV and SLDEV protection''))) (\<lambda>_.
     bindE (dev_get_addr hw) (\<lambda>addr.
     bindE (dev_read_reg hw addr DEV_REG_CR 0) (\<lambda>v.
     dev_write_reg hw addr DEV_REG_CR 0 (v AND NOT (DEV_CR_SLDEV OR DEV_CR_EN OR DEV_CR_INVD)))))"

text \<open>\<open>while (dom)\<close> counts down from a value below 256.\<close>

primrec bitmap_loop :: "nat \<Rightarrow> 'd hw \<Rightarrow> u32 \<Rightarrow> u32 \<Rightarrow> ('d world, unit) exec" where
  "bitmap_loop 0 hw addr base = returnE ()"
| "bitmap_loop (Suc n) hw addr base =
     bindE (dev_write_reg hw addr DEV_REG_BASE_HI (of_nat (Suc n)) 0) (\<lambda>_.
     bindE (dev_write_reg hw addr DEV_REG_BASE_HI (of_nat (Suc n)) (base OR 3)) (\<lambda>_.
     bitmap_loop n hw addr base))"

definition enable_dev_bitmap :: "'d hw \<Rightarrow> u32 \<Rightarrow> u32 \<Rightarrow> ('d world, u32) exec" where
  "enable_dev_bitmap hw addr base =
     bindE (on_screen (out_description (str ''enable dev at'') base)) (\<lambda>_.
     bindE (dev_read_reg hw addr DEV_REG_CAP 0) (\<lambda>v.
     bindE (bitmap_loop (unat (drop_bit 8 v AND 0xff)) hw addr base) (\<lambda>_.
     bindE (dev_read_reg hw addr DEV_REG_CR 0) (\<lambda>v.
     bindE (dev_write_reg hw addr DEV_REG_CR 0 (v OR DEV_CR_EN OR DEV_CR_INVD)) (\<lambda>_.
     returnE 0)))))"

definition enable_dev_protection :: "'d hw \<Rightarrow> u32 \<Rightarrow> u32 \<Rightarrow> ('d world, unit) exec" where
  "enable_dev_protection hw sldev_buffer buffer =
     bindE (on_screen (out_info (str ''enable DEV protection''))) (\<lambda>_.
     bindE (ERROR_if (buffer AND 0xfff \<noteq> 0) ERROR_DEV) (\<lambda>_.
     bindE (ERROR_if (sldev_buffer < push_bit 17 1 \<or> sldev_buffer AND 0xfff \<noteq> 0) ERROR_DEV) (\<lambda>_.
     bindE (dev_get_addr hw) (\<lambda>addr.
     bindE (modifyE (\<lambda>w. w\<lparr>w_mem := memset sldev_buffer 0xff (push_bit 12 1) (w_mem w)\<rparr>)) (\<lambda>_.
     let base = sldev_buffer - drop_bit 15 buffer in
     bindE (enable_dev_bitmap hw addr ((base + 0xfff) AND 0xfffff000)) (\<lambda>_.
     bindE (modifyE (\<lambda>w. w\<lparr>w_mem := memset buffer 0xff (push_bit 17 1) (w_mem w)\<rparr>)) (\<lambda>_.
     bindE (enable_dev_bitmap hw addr base) (\<lambda>_.
     returnE ()))))))))"

section \<open>After the launch\<close>

definition REALMODE_CODE :: u32 where "REALMODE_CODE = 0x20000"

definition cpu_name :: bytes where
  "cpu_name = str ''AMD CPU booted by SABLE''"

definition of_le64 :: "bytes \<Rightarrow> u64" where
  "of_le64 bs = ucast (of_le32 (take 4 bs)) OR push_bit 32 (ucast (of_le32 (drop 4 bs)))"

text \<open>
  \<open>fixup\<close> writes the processor name, six times eight bytes from \<open>cpu_name\<close>; \<open>behind\<close> are the bytes
  the linker placed behind the string, \<open>smp_init\<close> the code between \<open>smp_init_start\<close> and
  \<open>smp_init_end\<close>.
\<close>

definition name_msr :: "'d hw \<Rightarrow> bytes \<Rightarrow> nat \<Rightarrow> unit \<Rightarrow> ('d world, unit) exec" where
  "name_msr hw behind i u =
     wrmsr hw (0xc0010030 + of_nat i) (of_le64 (take 8 (drop (i * 8) (cpu_name @ behind))))"

definition fixup :: "'d hw \<Rightarrow> bytes \<Rightarrow> bytes \<Rightarrow> ('d world, unit) exec" where
  "fixup hw behind smp_init =
     bindE (on_screen (out_info (str ''patch CPU name tag''))) (\<lambda>_.
     bindE (foldE (name_msr hw behind) [0..<6] ()) (\<lambda>_.
     bindE (on_screen (out_info (str ''halt APs in init state''))) (\<lambda>_.
     bindE (modifyE (\<lambda>w. w\<lparr>w_mem := poke REALMODE_CODE smp_init (w_mem w)\<rparr>)) (\<lambda>_.
     bindE (start_processors hw REALMODE_CODE) (\<lambda>_.
     bindE (enable_svm hw) (\<lambda>_.
     on_screen (out_info (str ''Enable global interrupt flag''))))))))"

definition revert_skinit :: "'d hw \<Rightarrow> bytes \<Rightarrow> bytes \<Rightarrow> ('d world, unit) exec" where
  "revert_skinit hw behind smp_init =
     bindE (check_cpuid hw) (\<lambda>_.
     bindE (disable_dev_protection hw) (\<lambda>_.
     bindE (fixup hw behind smp_init) (\<lambda>_.
     on_screen (out_info (str ''fixup done'')))))"

end
