(* ===== verification/MGF1.thy ===== *)
theory MGF1
  imports SHA1_Correct Alloc
begin

text \<open>
  The mask generation function of \<^verbatim>\<open>src/mgf1.c\<close>, used to encrypt the data sent to the TPM.
  The output is allocated on the heap; the loop stores one digest after the other. The function
  ignores the results of \<open>sha1\<close> and does not check the pointer \<open>alloc\<close> returns: a store through
  \<open>NULL\<close> or behind the region is a fault.
\<close>

text \<open>One iteration: the digest of the input followed by the big-endian counter.\<close>

definition mgf1_digest :: "bytes \<Rightarrow> u32 \<Rightarrow> u32 \<Rightarrow> (SHA1_Context, TPM_DIGEST) exec" where
  "mgf1_digest input inputLen counter =
     bindE (modifyE sha1_init) (\<lambda>_.
     bindE (resultE (sha1 input inputLen)) (\<lambda>_.
     bindE (resultE (sha1 (le32 (htonl counter)) 4)) (\<lambda>_.
     bindE (modifyE sha1_finish) (\<lambda>_.
     getE sha_hash))))"

definition round_up_20 :: "u32 \<Rightarrow> u32" where
  "round_up_20 outputLen =
     (if outputLen mod 20 \<noteq> 0 then outputLen + (20 - outputLen mod 20) else outputLen)"

text \<open>The loop \<open>while ((counter * 20) < outputLen)\<close>, on the output buffer and the hash context.\<close>

function mgf1_loop :: "bytes \<Rightarrow> u32 \<Rightarrow> u32 \<Rightarrow> u32 \<Rightarrow> (bytes \<times> SHA1_Context, unit) exec" where
  "mgf1_loop input inputLen outputLen counter (outp, sctx) =
     (if counter * 20 < outputLen
      then (case mgf1_digest input inputLen counter sctx of
          (Ok d, sctx') \<Rightarrow>
            if 20 * unat counter + 20 \<le> unat (round_up_20 outputLen)
            then mgf1_loop input inputLen outputLen (counter + 1)
                   (splice outp (20 * unat counter) d, sctx')
            else (Stop Fault, (outp, sctx'))
        | (Throw e, sctx') \<Rightarrow> (Throw e, (outp, sctx'))
        | (Stop x, sctx') \<Rightarrow> (Stop x, (outp, sctx')))
      else (Ok (), (outp, sctx)))"
  by pat_completeness auto
termination
proof (relation "measure (\<lambda>(input, inputLen, outputLen, counter, s). 2 ^ 32 - unat counter)", goal_cases)
  case (2 input inputLen outputLen counter)
  then have "unat counter + 1 < 2 ^ 32" using unat_u32_less [of "round_up_20 outputLen"] by simp
  then have "unat (counter + 1) = unat counter + 1" by (subst unat_add_lem [THEN iffD1]) simp_all
  moreover have "unat counter < 2 ^ 32" using unat_u32_less [of counter] by simp
  ultimately show ?case by simp
qed simp_all

declare mgf1_loop.simps [simp del]

text \<open>\<open>fresh\<close> is what the allocated memory and the stack variable \<open>sctx\<close> hold before.\<close>

definition mgf1 :: "(u32 \<Rightarrow> bytes) \<times> SHA1_Context \<Rightarrow> u32 \<Rightarrow> bytes \<Rightarrow> u32 \<Rightarrow> u32 \<Rightarrow>
    (heap, u32 \<times> bytes) exec" where
  "mgf1 fresh hp input inputLen outputLen =
     bindE (alloc hp (round_up_20 outputLen)) (\<lambda>p.
     if p = 0 then stopE Fault
     else (case mgf1_loop input inputLen outputLen 0
                  (take (unat (round_up_20 outputLen)) (fst fresh p), snd fresh) of
             (Ok _, (outp, _)) \<Rightarrow> returnE (p, outp)
           | (Throw e, _) \<Rightarrow> throwE e
           | (Stop x, _) \<Rightarrow> stopE x))"

section \<open>The standard\<close>

text \<open>MGF1 of PKCS #1 over SHA-1: \<open>n\<close> digests of the seed and a counter.\<close>

definition MGF1_stream :: "bytes \<Rightarrow> nat \<Rightarrow> bytes" where
  "MGF1_stream seed n = concat (map (\<lambda>i. SHA1_hash (seed @ be32 (of_nat i))) [0..<n])"

lemma length_MGF1_stream [simp]: "length (MGF1_stream seed n) = 20 * n"
  by (induction n) (simp_all add: MGF1_stream_def)

lemma mgf1_digest_correct:
  assumes "sha_wf sctx" "unat inputLen \<le> length input" "unat inputLen + 4 < 2 ^ 29"
  shows "\<exists>sctx'. mgf1_digest input inputLen c sctx =
      (Ok (SHA1_hash (take (unat inputLen) input @ be32 c)), sctx') \<and> sha_wf sctx'"
proof -
  let ?s = "take (unat inputLen) input"
  obtain c1 where c1: "sha1 input inputLen (sha1_init sctx) = (Ok (), c1)" "sha_inv ?s c1"
    using sha.hash_prefix [OF assms(1,2)] assms(3) by auto
  obtain c2 where c2: "sha1 (be32 c) 4 c1 = (Ok (), c2)" "sha_inv (?s @ be32 c) c2"
    using sha.upd_inv [OF c1(2), of 4 "be32 c"] assms(2,3) by auto
  from sha.finish_hash [OF c2(2)] c1 c2 show ?thesis
    by (simp add: mgf1_digest_def bindE_def modifyE_def resultE_def getE_def)
qed

lemma mgf1_loop_correct:
  assumes "sha_wf sctx" "unat inputLen \<le> length input" "unat inputLen + 4 < 2 ^ 29"
    and "length outp = 20 * n" "20 * unat c \<le> 20 * n" "20 * n < 2 ^ 32"
    and "unat outputLen \<le> 20 * n" "20 * n < unat outputLen + 20"
    and "take (20 * unat c) outp = MGF1_stream (take (unat inputLen) input) (unat c)"
    and up: "unat (round_up_20 outputLen) = 20 * n"
  shows "\<exists>sctx'. mgf1_loop input inputLen outputLen c (outp, sctx) =
    (Ok (), (MGF1_stream (take (unat inputLen) input) n, sctx'))"
  using assms(1,4,5,9)
proof (induction "n - unat c" arbitrary: c outp sctx rule: less_induct)
  case less
  let ?s = "take (unat inputLen) input"
  have c20: "unat (c * 20) = unat c * 20" using less.prems(3) assms(6) by (subst unat_mult_lem [THEN iffD1]) simp_all
  show ?case
  proof (cases "unat c < n")
    case True
    have lt: "c * 20 < outputLen" using c20 True assms(8) by (simp add: word_less_nat_alt)
    have c1: "unat (c + 1) = unat c + 1" using True assms(6) by (subst unat_add_lem [THEN iffD1]) simp_all
    obtain s' where d: "mgf1_digest input inputLen c sctx = (Ok (SHA1_hash (?s @ be32 c)), s')" "sha_wf s'"
      using mgf1_digest_correct [OF less.prems(1) assms(2,3)] by blast
    let ?o = "splice outp (20 * unat c) (SHA1_hash (?s @ be32 c))"
    have "take (20 * (unat c + 1)) ?o = MGF1_stream ?s (unat c + 1)"
      using take_splice [of "20 * unat c" "SHA1_hash (?s @ be32 c)" outp] less.prems(2,4) True
      by (simp add: MGF1_stream_def add.commute)
    then have "\<exists>sctx'. mgf1_loop input inputLen outputLen (c + 1) (?o, s') = (Ok (), (MGF1_stream ?s n, sctx'))"
      using less.prems d(2) True by (intro less.hyps) (simp_all add: c1)
    then show ?thesis
      using lt d(1) True up by (subst mgf1_loop.simps) simp
  next
    case False
    with less.prems(3) have "unat c = n" by simp
    moreover from this have "\<not> c * 20 < outputLen" using c20 assms(7) by (simp add: word_less_nat_alt)
    ultimately show ?thesis using less.prems(2,4) by (subst mgf1_loop.simps) simp
  qed
qed

section \<open>Properties\<close>

lemma round_up_20_mult:
  assumes "unat l + 20 \<le> 2 ^ 32"
  shows "unat (round_up_20 l) = 20 * ((unat l + 19) div 20)"
proof -
  define q r where "q = unat l div 20" and "r = unat l mod 20"
  have r: "r < 20" and l: "unat l = 20 * q + r" by (simp_all add: q_def r_def)
  have m: "unat (l mod 20) = r" by (simp add: unat_mod r_def)
  have d: "(unat l + 19) div 20 = (if r = 0 then q else q + 1)"
  proof (cases "r = 0")
    case False
    then have "unat l + 19 = (r - 1) + 20 * (q + 1)" using l by simp
    moreover have "((r - 1) + 20 * (q + 1)) div 20 = q + 1" using r by simp
    ultimately show ?thesis using False by simp
  qed (simp add: l)
  show ?thesis
  proof (cases "r = 0")
    case True
    then have "l mod 20 = 0" using m by (metis unat_eq_zero)
    with True d l show ?thesis by (simp add: round_up_20_def)
  next
    case False
    then have ne: "l mod 20 \<noteq> 0" using m by (metis unat_0)
    have "unat (20 - l mod 20) = 20 - r" using m r by (subst unat_sub) (simp_all add: word_le_nat_alt)
    then have "unat (l + (20 - l mod 20)) = 20 * (q + 1)"
      using False r assms l by (subst unat_add_lem [THEN iffD1]) simp_all
    with ne d False show ?thesis by (simp add: round_up_20_def)
  qed
qed

text \<open>
  C35: for a non-empty output of at most \<open>2^32 - 20\<close> bytes and an input below 512 MB, \<open>mgf1\<close>
  either gets no memory (and stores through \<open>NULL\<close>), or returns a region of fresh memory that
  holds the MGF1 mask of PKCS #1, rounded up to whole digests.
\<close>

theorem mgf1_computes_mask:
  assumes "heap_rep h hp ss" "0 < outputLen" "unat outputLen + 20 \<le> 2 ^ 32"
    and "unat inputLen \<le> length input" "unat inputLen + 4 < 2 ^ 29"
    and "\<And>p. unat (round_up_20 outputLen) \<le> length (mem p)" "sha_wf sctx"
  shows "case fst (mgf1 (mem, sctx) hp input inputLen outputLen h) of
      Ok (p, buf) \<Rightarrow> buf = MGF1_stream (take (unat inputLen) input) ((unat outputLen + 19) div 20)
    | Throw _ \<Rightarrow> False
    | Stop x \<Rightarrow> x = Fault \<and> first_fit (unat (round_up_20 outputLen) div 8 + 1) ss = None"
proof -
  let ?n = "(unat outputLen + 19) div 20" and ?r = "round_up_20 outputLen"
  have up: "unat ?r = 20 * ?n" using round_up_20_mult [OF assms(3)] .
  have n: "unat outputLen \<le> 20 * ?n" "20 * ?n < unat outputLen + 20" 
    using dividend_less_times_div [of 20 "unat outputLen + 19"] times_div_less_eq_dividend [of 20 "unat outputLen + 19"]
    by simp_all
  have pos: "0 < ?r" using up n(1) assms(2) by (simp add: word_less_nat_alt)
  have lim: "20 * ?n < 2 ^ 32" using up unat_u32_less [of ?r] by simp
  let ?o = "\<lambda>p. take (unat ?r) (mem p)"
  obtain s' where loop: "mgf1_loop input inputLen outputLen 0 (?o p, sctx) =
      (Ok (), (MGF1_stream (take (unat inputLen) input) ?n, s' p))" for p
    using mgf1_loop_correct [OF assms(7,4,5) _ _ lim n _ up, of "?o _" 0] assms(6) up lim
    by (simp add: MGF1_stream_def) metis
  show ?thesis
  proof (cases "first_fit (unat ?r div 8 + 1) ss")
    case None
    with alloc_first_fit [OF assms(1) pos] show ?thesis by (simp add: mgf1_def bindE_cases stopE_def)
  next
    case (Some x)
    obtain off ss' where x: "x = (off, ss')" by (cases x)
    let ?p = "unat hp + 8 * off + 8"
    have "?p < 2 ^ 32"
      using first_fit_decomp [OF Some [unfolded x]] assms(1) by (auto simp: heap_rep_def)
    then have "(of_nat ?p :: u32) \<noteq> 0" using of_nat_u32_inj [of ?p 0] by simp
    with alloc_first_fit [OF assms(1) pos] Some x obtain p h' where
      "alloc hp ?r h = (Ok p, h')" "p \<noteq> 0" by auto
    with loop show ?thesis by (simp add: mgf1_def bindE_cases returnE_def)
  qed
qed

theorem mgf1_computes_mask_witness:
  "case fst (mgf1 (\<lambda>_. replicate 40 0, sha1_ctx0) 0x1000 [1, 2, 3] 3 25 small_heap) of
      Ok (p, buf) \<Rightarrow> buf = MGF1_stream [1, 2, 3] 2
    | Throw _ \<Rightarrow> False
    | Stop x \<Rightarrow> x = Fault \<and> first_fit 6 [(7, False)] = None"
  using mgf1_computes_mask [OF small_heap_rep, of 25 3 "[1, 2, 3]" "\<lambda>_. replicate 40 0" sha1_ctx0]
  by (simp add: round_up_20_mult [of 25, simplified] split: res.splits prod.splits)

end
