(* ===== verification/Sable.thy ===== *)
theory Sable
  imports TPM Keyboard AMD MGF1
begin

text \<open>
  The boot loader itself (\<^verbatim>\<open>src/sable.c\<close>): sealing and unsealing the passphrase, measuring the
  modules, the steps before and after the late launch. The launch code is that of the AMD build;
  \<open>get_pcr_info\<close> has both builds. What the C program takes from its surroundings is the record
  \<open>env\<close>: the address of the heap, the build flags, uninitialised memory by size, the assembly
  routine \<open>smp_init\<close> and the bytes behind the string \<open>cpu_name\<close>.
\<close>

record env =
  e_heap :: u32
  e_amd :: bool
  e_sealx :: bool
  e_qemu :: bool
  e_junk :: "nat \<Rightarrow> bytes"
  e_version_string :: u32
  e_behind :: bytes
  e_smp_init :: bytes

abbreviation (input) TPM_ET_KEYHANDLE :: u16 where "TPM_ET_KEYHANDLE \<equiv> 1"
abbreviation (input) TPM_KH_SRK :: u32 where "TPM_KH_SRK \<equiv> 0x40000000"
abbreviation (input) TPM_ST_CLEAR :: u16 where "TPM_ST_CLEAR \<equiv> 1"
abbreviation (input) TPM_TAG_PCR_INFO_LONG :: u16 where "TPM_TAG_PCR_INFO_LONG \<equiv> 6"
abbreviation (input) TPM_LOC_TWO :: u8 where "TPM_LOC_TWO \<equiv> 4"
abbreviation (input) AUTHDATA_STR_SIZE :: u32 where "AUTHDATA_STR_SIZE \<equiv> 64"
abbreviation (input) PASSPHRASE_STR_SIZE :: u32 where "PASSPHRASE_STR_SIZE \<equiv> 128"

section \<open>Small helpers\<close>

text \<open>An array on the heap that is written at once: the pointer is used without a check.\<close>

definition new_buf :: "u32 \<Rightarrow> u32 \<Rightarrow> ('d world, u32) exec" where
  "new_buf hp n = bindE (on_heap (alloc hp n)) (\<lambda>p. if p = 0 then stopE Fault else returnE p)"

text \<open>The hash of a message in a local context, whose exception is kept.\<close>

definition sha1_local :: "bytes \<Rightarrow> u32 \<Rightarrow> ('d world, ERROR option \<times> bytes) exec" where
  "sha1_local data n =
     bindE (on_s sha1_init) (\<lambda>_.
     bindE (\<lambda>w. case resultE (sha1 data n) (w_sctx w) of
              (Ok r, c) \<Rightarrow> (Ok (case r of Inl e \<Rightarrow> Some e | Inr _ \<Rightarrow> None), w\<lparr>w_sctx := c\<rparr>)
            | (Throw e, c) \<Rightarrow> (Throw e, w\<lparr>w_sctx := c\<rparr>)
            | (Stop x, c) \<Rightarrow> (Stop x, w\<lparr>w_sctx := c\<rparr>)) (\<lambda>exc.
     bindE (on_s sha1_finish) (\<lambda>_.
     bindE (getE (\<lambda>w. sha_hash (w_sctx w))) (\<lambda>hash.
     returnE (exc, hash)))))"

text \<open>With \<open>THROW(sha1_ret.exception)\<close> before \<open>sha1_finish\<close>.\<close>

definition sha1_throw :: "bytes \<Rightarrow> u32 \<Rightarrow> ('d world, bytes) exec" where
  "sha1_throw data n =
     bindE (on_s sha1_init) (\<lambda>_.
     bindE (\<lambda>w. case sha1 data n (w_sctx w) of (r, c) \<Rightarrow> (r, w\<lparr>w_sctx := c\<rparr>)) (\<lambda>_.
     bindE (on_s sha1_finish) (\<lambda>_.
     getE (\<lambda>w. sha_hash (w_sctx w)))))"

text \<open>The string at an address, with its zero; a memory without a zero is searched for ever.\<close>

definition string_at :: "u32 \<Rightarrow> ('d world, bytes) exec" where
  "string_at a = (\<lambda>w. case strlen a (w_mem w) of
     None \<Rightarrow> (Stop Hang, w) | Some n \<Rightarrow> (Ok (bytes_at (w_mem w) a (unat n + 1)), w))"

section \<open>Secrets from the user and the TPM\<close>

definition get_authdata :: "'d hw \<Rightarrow> env \<Rightarrow> ('d world, TPM_AUTHDATA) exec" where
  "get_authdata hw env =
     bindE (get_string hw (e_junk env 64) AUTHDATA_STR_SIZE False) (\<lambda>(res, auth_str).
     if 0 < sint res then sha1_throw auth_str res else returnE (replicate 20 0))"

definition get_nonce :: "'d hw \<Rightarrow> ('d world, TPM_NONCE) exec" where
  "get_nonce hw = TPM_GetRandom hw 20"

definition get_pcr_info :: "'d hw \<Rightarrow> env \<Rightarrow> ('d world, TPM_PCR_INFO_LONG) exec" where
  "get_pcr_info hw env =
     bindE (on_heap (alloc (e_heap env) (2 * 20))) (\<lambda>pcr_values.
     bindE (new_buf (e_heap env) 3) (\<lambda>_.
     let pcr_select = \<lparr>sizeOfSelect = 3, pcrSelect = [0, 0, if e_amd env then 0x0a else 0x0c]\<rparr> in
     bindE (TPM_PCRRead hw (if e_amd env then 17 else 18)) (\<lambda>pcr0.
     bindE (if pcr_values = 0 then stopE Fault else returnE ()) (\<lambda>_.
     bindE (TPM_PCRRead hw 19) (\<lambda>pcr19.
     let composite = \<lparr>pc_select = pcr_select, pc_valueSize = 2 * 20, pc_pcrValue = pcr0 @ pcr19\<rparr> in
     bindE (\<lambda>w. get_TPM_COMPOSITE_HASH (w_sctx w) composite w) (\<lambda>composite_hash.
     returnE \<lparr>pi_tag = TPM_TAG_PCR_INFO_LONG, localityAtCreation = TPM_LOC_TWO,
       localityAtRelease = TPM_LOC_TWO, creationPCRSelection = pcr_select,
       releasePCRSelection = pcr_select, digestAtCreation = composite_hash,
       digestAtRelease = composite_hash\<rparr>))))))"

text \<open>\<open>sessions[i]\<close>, and the OSAP extension behind it.\<close>

definition session_at :: "nat \<Rightarrow> ('d world, u32) exec" where
  "session_at i = session_of (Some i)"

definition sess_osap :: "u32 \<Rightarrow> ('d world, TPM_OSAP_EXTENSION) exec" where
  "sess_osap s = bindE (sess s osap) (\<lambda>x. case x of None \<Rightarrow> stopE Fault | Some x \<Rightarrow> returnE x)"

definition shared_secret :: "TPM_AUTHDATA \<Rightarrow> u32 \<Rightarrow> ('d world, TPM_SECRET) exec" where
  "shared_secret auth s =
     bindE (sess_osap s) (\<lambda>x.
     (\<lambda>w. sharedSecret_gen (w_hctx w) auth (nonceEvenOSAP x) (nonceOddOSAP x) w))"

text \<open>The seed of the mask that hides the data of \<open>TPM_Sealx\<close>, and the masked data.\<close>

definition mask_seed :: "TPM_SESSION \<Rightarrow> TPM_SECRET \<Rightarrow> bytes" where
  "mask_seed s secret = take 20 (nonceEven s) @ take 20 (nonceOdd s) @ [0x58, 0x4f, 0x52] @ take 20 secret"

definition masked :: "env \<Rightarrow> bytes \<Rightarrow> bytes \<Rightarrow> u32 \<Rightarrow> ('d world, bytes) exec" where
  "masked env seed data n =
     bindE (\<lambda>w. on_heap (mgf1 (\<lambda>p. e_junk env (unat (round_up_20 n)), w_sctx w) (e_heap env) seed 63 n) w) (\<lambda>(_, mask').
     bindE (new_buf (e_heap env) n) (\<lambda>_.
     returnE (xor_bytes (take (unat n) data) (take (unat n) mask'))))"

section \<open>The passphrase\<close>

definition seal_passphrase :: "'d hw \<Rightarrow> env \<Rightarrow> TPM_AUTHDATA \<Rightarrow> TPM_AUTHDATA \<Rightarrow> bytes \<Rightarrow> u32 \<Rightarrow>
    ('d world, TPM_STORED_DATA12) exec" where
  "seal_passphrase hw env srk_auth pp_auth passphrase lenPassphrase =
     bindE (get_nonce hw) (\<lambda>nonceOddOSAP.
     bindE (TPM_OSAP hw (e_heap env) (e_junk env 20) TPM_ET_KEYHANDLE TPM_KH_SRK nonceOddOSAP (Some 0)) (\<lambda>_.
     bindE (get_nonce hw) (\<lambda>odd'.
     bindE (session_at 0) (\<lambda>s.
     bindE (set_sess s (\<lambda>o'. o'\<lparr>nonceOdd := odd'\<rparr>)) (\<lambda>_.
     bindE (set_sess s (\<lambda>o'. o'\<lparr>continueAuthSession := 0\<rparr>)) (\<lambda>_.
     bindE (shared_secret srk_auth s) (\<lambda>sharedSecret.
     bindE (sess s nonceEven) (\<lambda>even'.
     bindE (\<lambda>w. encAuth_gen (w_sctx w) pp_auth sharedSecret even' w) (\<lambda>encAuth.
     bindE (get_pcr_info hw env) (\<lambda>pcr_info.
     bindE (if e_sealx env
            then bindE (new_buf (e_heap env) 63) (\<lambda>_.
                 bindE (sess s (\<lambda>o'. mask_seed o' sharedSecret)) (\<lambda>seed.
                 masked env seed passphrase lenPassphrase))
            else returnE passphrase) (\<lambda>inData.
     TPM_Seal (e_sealx env) hw (e_heap env) TPM_KH_SRK encAuth pcr_info inData lenPassphrase (Some 0)
       sharedSecret)))))))))))"

definition write_passphrase :: "'d hw \<Rightarrow> env \<Rightarrow> TPM_AUTHDATA \<Rightarrow> TPM_STORED_DATA12 \<Rightarrow> u32 \<Rightarrow> u32 \<Rightarrow>
    ('d world, unit) exec" where
  "write_passphrase hw env nv_auth sealedData index nvsize =
     bindE (TPM_OIAP hw (e_heap env) (Some 0)) (\<lambda>_.
     bindE (get_nonce hw) (\<lambda>odd'.
     bindE (session_at 0) (\<lambda>s.
     bindE (set_sess s (\<lambda>o'. o'\<lparr>nonceOdd := odd'\<rparr>)) (\<lambda>_.
     bindE (set_sess s (\<lambda>o'. o'\<lparr>continueAuthSession := 0\<rparr>)) (\<lambda>_.
     bindE (on_heap (extract_TPM_STORED_DATA12 (\<lambda>p. e_junk env (unat (sizeof_TPM_STORED_DATA12 sealedData)))
              (e_heap env) sealedData)) (\<lambda>(_, data).
     TPM_NV_WriteValueAuth hw data nvsize index 0 nv_auth (Some 0)))))))"

text \<open>\<open>alloc\<close> hands out whole blocks: 136 bytes for 128, 8 bytes for 4.\<close>

definition configure :: "'d hw \<Rightarrow> env \<Rightarrow> u32 \<Rightarrow> u32 \<Rightarrow> ('d world, unit) exec" where
  "configure hw env index nvsize =
     bindE (new_buf (e_heap env) PASSPHRASE_STR_SIZE) (\<lambda>_.
     bindE (on_screen (out_string (str ''Please enter the passphrase (128 char max): ''))) (\<lambda>_.
     bindE (get_string hw (e_junk env 136) (PASSPHRASE_STR_SIZE - 1) True) (\<lambda>(n, passphrase).
     let lenPassphrase = n + 1 in
     bindE (on_screen (out_string (str ''Please enter the passPhraseAuthData (64 char max): ''))) (\<lambda>_.
     bindE (get_authdata hw env) (\<lambda>pp_auth.
     bindE (on_screen (out_string (str ''Please enter the srkAuthData (64 char max): ''))) (\<lambda>_.
     bindE (get_authdata hw env) (\<lambda>srk_auth.
     bindE (seal_passphrase hw env srk_auth pp_auth passphrase lenPassphrase) (\<lambda>sealedData.
     bindE (on_screen (out_string (str ''Please enter the nvAuthData (64 char max): ''))) (\<lambda>_.
     bindE (get_authdata hw env) (\<lambda>nv_auth.
     write_passphrase hw env nv_auth sealedData index nvsize))))))))))"

definition read_passphrase :: "'d hw \<Rightarrow> env \<Rightarrow> u32 \<Rightarrow> u32 \<Rightarrow> ('d world, TPM_STORED_DATA12) exec" where
  "read_passphrase hw env index nvsize =
     bindE (TPM_NV_ReadValue hw (e_heap env) index 0 nvsize None None) (\<lambda>v.
     on_heap (unpack_TPM_STORED_DATA12 (e_heap env) (hd_data v) (hd_dataSize v)))"

text \<open>
  The exception of the first \<open>get_nonce\<close> is not looked at: the nonce is then what the failed call
  left in its buffer.
\<close>

definition unseal_passphrase :: "'d hw \<Rightarrow> env \<Rightarrow> TPM_AUTHDATA \<Rightarrow> TPM_AUTHDATA \<Rightarrow> TPM_STORED_DATA12 \<Rightarrow>
    ('d world, bytes) exec" where
  "unseal_passphrase hw env srk_auth pp_auth sealed_pp =
     bindE (resultE (get_nonce hw)) (\<lambda>r.
     let odd' = (case r of Inl _ \<Rightarrow> e_junk env 20 | Inr v \<Rightarrow> v) in
     bindE (TPM_OSAP hw (e_heap env) (e_junk env 20) TPM_ET_KEYHANDLE TPM_KH_SRK odd' (Some 0)) (\<lambda>_.
     bindE (session_at 0) (\<lambda>s0.
     bindE (set_sess s0 (\<lambda>o'. o'\<lparr>continueAuthSession := 0\<rparr>)) (\<lambda>_.
     bindE (shared_secret srk_auth s0) (\<lambda>sharedSecret.
     bindE (TPM_OIAP hw (e_heap env) (Some 1)) (\<lambda>_.
     bindE (get_nonce hw) (\<lambda>odd'.
     bindE (session_at 1) (\<lambda>s1.
     bindE (set_sess s1 (\<lambda>o'. o'\<lparr>nonceOdd := odd'\<rparr>)) (\<lambda>_.
     bindE (set_sess s1 (\<lambda>o'. o'\<lparr>continueAuthSession := 0\<rparr>)) (\<lambda>_.
     bindE (if e_sealx env
            then bindE (new_buf (e_heap env) 63) (\<lambda>_.
                 bindE (new_buf (e_heap env) 12) (\<lambda>_.
                 sess s0 (\<lambda>o'. mask_seed o' sharedSecret)))
            else returnE []) (\<lambda>seed.
     bindE (TPM_Unseal hw (e_heap env) sealed_pp TPM_KH_SRK sharedSecret (Some 0) pp_auth (Some 1)) (\<lambda>v.
     if e_sealx env then masked env seed (hd_data v) (hd_dataSize v) else returnE (hd_data v)))))))))))))"

definition trusted_boot :: "'d hw \<Rightarrow> env \<Rightarrow> u32 \<Rightarrow> u32 \<Rightarrow> ('d world, unit) exec" where
  "trusted_boot hw env index nvsize =
     bindE (read_passphrase hw env index nvsize) (\<lambda>sealed_pp.
     bindE (on_screen (out_string (str ''Please enter the passPhraseAuthData (64 char max): ''))) (\<lambda>_.
     bindE (get_authdata hw env) (\<lambda>pp_auth.
     bindE (on_screen (out_string (str ''Please enter the srkAuthData (64 char max): ''))) (\<lambda>_.
     bindE (get_authdata hw env) (\<lambda>srk_auth.
     bindE (unseal_passphrase hw env srk_auth pp_auth sealed_pp) (\<lambda>passphrase.
     bindE (on_screen (out_string (str (''Please confirm that the passphrase is correct:'' @ [CHR 0x0A, CHR 0x0A])))) (\<lambda>_.
     bindE (on_screen (out_string passphrase)) (\<lambda>_.
     bindE (on_screen (out_string (str ([CHR 0x0A, CHR 0x0A] @
              ''If this is correct, please type YES in all capitals: '')))) (\<lambda>_.
     bindE (new_buf (e_heap env) 4) (\<lambda>_.
     bindE (get_string hw (e_junk env 8) 4 True) (\<lambda>(_, yes_string).
     if take 3 yes_string \<noteq> [0x59, 0x45, 0x53] then stopE Reboot else returnE ())))))))))))"

section \<open>Measurement\<close>

text \<open>
  One module: its image, and its command line when that is not empty. The exception of the second
  hash is not looked at.
\<close>

definition hash_module :: "'d hw \<Rightarrow> u32 \<Rightarrow> ('d world, unit) exec" where
  "hash_module hw m =
     bindE (load32 (mod_start (module_at m))) (\<lambda>start.
     bindE (load32 (mod_end (module_at m))) (\<lambda>end'.
     bindE (ERROR_if (end' < start) ERROR_BAD_MODULE) (\<lambda>_.
     bindE (getE (\<lambda>w. bytes_at (w_mem w) start (unat (end' - start)))) (\<lambda>image.
     bindE (sha1_throw image (end' - start)) (\<lambda>hash.
     bindE (TPM_Extend hw 19 hash) (\<lambda>_.
     bindE (load32 (mod_string (module_at m))) (\<lambda>p.
     bindE (string_at p) (\<lambda>strg.
     if length strg - 1 > 0
     then bindE (sha1_local strg (of_nat (length strg - 1))) (\<lambda>(_, hash).
          bindE (TPM_Extend hw 19 hash) (\<lambda>_. returnE ()))
     else returnE ()))))))))"

definition mbi_calc_hash :: "'d hw \<Rightarrow> u32 \<Rightarrow> ('d world, unit) exec" where
  "mbi_calc_hash hw mbi =
     bindE (load32 (mbi_flags (mbi_at mbi))) (\<lambda>flags.
     bindE (if CHECK_FLAG flags 2
            then bindE (load32 (mbi_cmdline (mbi_at mbi))) (\<lambda>p.
                 bindE (string_at p) (\<lambda>strg.
                 bindE (sha1_local strg (of_nat (length strg - 1))) (\<lambda>(_, hash).
                 bindE (TPM_Extend hw 19 hash) (\<lambda>_. returnE ()))))
            else returnE ()) (\<lambda>_.
     bindE (ERROR_if (\<not> CHECK_FLAG flags 3) ERROR_BAD_MODULE) (\<lambda>_.
     bindE (load32 (mbi_mods_count (mbi_at mbi))) (\<lambda>mods_count.
     bindE (ERROR_if (mods_count = 0) ERROR_NO_MODULE) (\<lambda>_.
     bindE (on_screen (out_description (str ''Hashing modules count'') mods_count)) (\<lambda>_.
     bindE (load32 (mbi_mods_addr (mbi_at mbi))) (\<lambda>m.
     foldE (\<lambda>i _. hash_module hw (m + 16 * of_nat i)) [0..<unat mods_count] ())))))))"

section \<open>Before the launch\<close>

text \<open>\<open>ERROR_TPM | TPM_E_INVALID_POSTINIT\<close>\<close>

definition prepare_tpm :: "'d hw \<Rightarrow> ('d world, unit) exec" where
  "prepare_tpm hw =
     bindE (tis_init hw) (\<lambda>vendor.
     bindE (ERROR_if (vendor = TIS_INIT_NO_TPM) ERROR_BAD_TPM_VENDOR) (\<lambda>_.
     bindE (CATCH (tis_access hw TIS_LOCALITY_0 False) ERROR_TIS_LOCALITY_ALREADY_ACCESSED
              (on_screen (out_info (str ''Already in Locality 0'')))) (\<lambda>_.
     bindE (CATCH (TPM_Startup hw TPM_ST_CLEAR) (ERROR_TPM (0x80 OR 0x26))
              (on_screen (out_info (str ''TPM already initialized'')))) (\<lambda>_.
     tis_deactivate_all hw))))"

definition version_string :: bytes where
  "version_string = str (''SABLE:   v.0.6.0'' @ [CHR 0x0A])"

definition pre_launch :: "'d hw \<Rightarrow> env \<Rightarrow> u32 \<Rightarrow> u32 \<Rightarrow> ('d world, unit) exec" where
  "pre_launch hw env m flags =
     bindE (on_screen (out_string version_string)) (\<lambda>_.
     bindE (ERROR_if (m = 0) ERROR_NO_MBI) (\<lambda>_.
     bindE (ERROR_if (flags \<noteq> MBI_MAGIC2) ERROR_BAD_MBI) (\<lambda>_.
     bindE (load32 (mbi_flags (mbi_at m))) (\<lambda>f.
     bindE (store32 (mbi_flags (mbi_at m)) (SET_FLAG f 9)) (\<lambda>_.
     bindE (store32 (mbi_boot_loader_name (mbi_at m)) (e_version_string env)) (\<lambda>_.
     bindE (prepare_tpm hw) (\<lambda>_.
     bindE (check_cpuid hw) (\<lambda>rev.
     bindE (on_screen (out_description (str ''SVM revision'') rev)) (\<lambda>_.
     bindE (enable_svm hw) (\<lambda>_.
     bindE (stop_processors hw) (\<lambda>_.
     bindE (on_screen (out_info (str ''call skinit''))) (\<lambda>_.
     bindE (wait hw 1000) (\<lambda>_.
     stopE Skinit)))))))))))))"

definition pre_launch_entry :: "'d hw \<Rightarrow> env \<Rightarrow> u32 \<Rightarrow> u32 \<Rightarrow> ('d world, unit) exec" where
  "pre_launch_entry hw env m flags = CATCH_ANY (pre_launch hw env m flags) (\<lambda>e. exit hw (error_number e))"

section \<open>After the launch\<close>

definition num_arg :: "bytes \<Rightarrow> bytes \<Rightarrow> ('d world, u32) exec" where
  "num_arg cmdline arg =
     bindE (cmdlineArgVal cmdline arg) (\<lambda>v.
     case aToI v of None \<Rightarrow> stopE Fault | Some n \<Rightarrow> returnE n)"

definition boot_dialog :: "'d hw \<Rightarrow> env \<Rightarrow> u32 \<Rightarrow> u32 \<Rightarrow> ('d world, unit) exec" where
  "boot_dialog hw env nvIndex nvSize =
     bindE (on_screen (out_string (str ''Configure now? [y/n]: ''))) (\<lambda>_.
     bindE (get_string hw (e_junk env 2) 1 True) (\<lambda>(_, config_str).
     if config_str ! 0 = 0x79
     then bindE (configure hw env nvIndex nvSize) (\<lambda>_.
          bindE (tis_deactivate_all hw) (\<lambda>_.
          bindE (on_screen (out_string (str ([CHR 0x0A] @ ''Configuration complete. Rebooting now...'' @ [CHR 0x0A])))) (\<lambda>_.
          bindE (wait hw 5000) (\<lambda>_.
          stopE Reboot))))
     else bindE (trusted_boot hw env nvIndex nvSize) (\<lambda>_. tis_deactivate_all hw)))"

definition post_launch :: "'d hw \<Rightarrow> env \<Rightarrow> u32 \<Rightarrow> ('d world, unit) exec" where
  "post_launch hw env m =
     bindE (on_heap (init_heap (e_heap env) (8 * 1024))) (\<lambda>_.
     bindE (if e_qemu env
            then CATCH (revert_skinit hw (e_behind env) (e_smp_init env)) ERROR_DEV (returnE ())
            else revert_skinit hw (e_behind env) (e_smp_init env)) (\<lambda>_.
     bindE (load32 (mbi_cmdline (mbi_at m))) (\<lambda>p.
     bindE (string_at p) (\<lambda>cmdline.
     bindE (num_arg cmdline (str ''--nv-index='')) (\<lambda>nvIndex.
     bindE (num_arg cmdline (str ''--nv-size='')) (\<lambda>nvSize.
     bindE (ERROR_if (m = 0) ERROR_NO_MBI) (\<lambda>_.
     bindE (tis_init hw) (\<lambda>vendor.
     bindE (if vendor = TIS_INIT_NO_TPM then returnE ()
            else bindE (tis_access hw TIS_LOCALITY_2 False) (\<lambda>_.
                 bindE (mbi_calc_hash hw m) (\<lambda>_.
                 bindE (TPM_PCRRead hw 17) (\<lambda>pcr17.
                 bindE (on_screen (show_hash (str ''PCR[17]: '') pcr17)) (\<lambda>_.
                 bindE (TPM_PCRRead hw 19) (\<lambda>pcr19.
                 bindE (on_screen (show_hash (str ''PCR[19]: '') pcr19)) (\<lambda>_.
                 bindE (wait hw 1000) (\<lambda>_.
                 boot_dialog hw env nvIndex nvSize)))))))) (\<lambda>_.
     start_module hw m)))))))))"

definition post_launch_entry :: "'d hw \<Rightarrow> env \<Rightarrow> u32 \<Rightarrow> ('d world, unit) exec" where
  "post_launch_entry hw env m = CATCH_ANY (post_launch hw env m) (\<lambda>e. exit hw (error_number e))"

end
