(* ===== verification/TPM_Correct.thy ===== *)
theory TPM_Correct
  imports TPM
begin

text \<open>
  What the TPM commands send and what they make of the answer. The packing phase and the unpacking
  phase each have an assertion that says how far they are and what the hash contexts have absorbed;
  the properties compose the two around the exchange that \<open>runs_tis_transmit\<close> describes.
\<close>

section \<open>Packing a request\<close>

text \<open>\<open>outer w\<close> is the part of the world a command never touches.\<close>

definition outer :: "'d world \<Rightarrow> screen \<times> mem \<times> kbd \<times> u32" where
  "outer w = (w_screen w, w_mem w, w_kbd w, w_code w)"

lemma outer_simps [simp]:
  "outer (w\<lparr>w_dev := d\<rparr>) = outer w" "outer (w\<lparr>w_heap := h\<rparr>) = outer w"
  "outer (w\<lparr>w_in := i\<rparr>) = outer w" "outer (w\<lparr>w_out := out\<rparr>) = outer w"
  "outer (w\<lparr>w_sessions := ss\<rparr>) = outer w" "outer (w\<lparr>w_objs := ob\<rparr>) = outer w"
  "outer (w\<lparr>w_pctx := p\<rparr>) = outer w" "outer (w\<lparr>w_uctx := u\<rparr>) = outer w"
  "outer (w\<lparr>w_sctx := s\<rparr>) = outer w" "outer (w\<lparr>w_hctx := c\<rparr>) = outer w"
  by (simp_all add: outer_def)

text \<open>\<open>rest w\<close> is the part of the world a packing phase does not touch.\<close>

definition rest :: "'d world \<Rightarrow> _" where
  "rest w = (w_dev w, outer w, w_heap w, w_out w, w_locality w, w_sessions w, w_objs w)"

definition pk_at :: "'d world \<Rightarrow> bytes \<Rightarrow> (SHA1_Context \<Rightarrow> bool) \<Rightarrow> (HMAC_Context \<Rightarrow> bool) \<Rightarrow> 'd world \<Rightarrow> bool"
  where
  "pk_at w0 bs S H w \<longleftrightarrow> rest w = rest w0 \<and> length (w_in w) = 1024 \<and>
     packed bs (Some ((w_pctx w)\<lparr>pack_buffer := w_in w\<rparr>)) \<and> pack_size (w_pctx w) = 1024 \<and>
     S (w_sctx w) \<and> H (w_hctx w)"

text \<open>The three forms of a marshalling call with \<open>&pctx\<close>.\<close>

lemma pk_emits:
  assumes m: "emits m enc" and pk: "packed bs (Some (p\<lparr>pack_buffer := i\<rparr>))" "length i = 1024" "pack_size p = 1024"
    and room: "length bs + length enc \<le> 1024"
    and h: "hashed x sctx" "\<And>c. sctx = Some c \<Longrightarrow> length x + length enc < 2 ^ 29"
  obtains p' sctx' where "m (Some (p\<lparr>pack_buffer := i\<rparr>), sctx) = (Ok (), (Some p', sctx'))"
    "length (pack_buffer p') = 1024" "packed (bs @ enc) (Some (p'\<lparr>pack_buffer := pack_buffer p'\<rparr>))"
    "pack_size p' = 1024" "hashed (x @ enc) sctx'" "(sctx' = None) = (sctx = None)"
proof -
  obtain ctx' sctx' where *: "m (Some (p\<lparr>pack_buffer := i\<rparr>), sctx) = (Ok (), (ctx', sctx'))"
    "packed (bs @ enc) ctx'" "hashed (x @ enc) sctx'"
    "map_option pack_size ctx' = map_option pack_size (Some (p\<lparr>pack_buffer := i\<rparr>))"
    "map_option (\<lambda>p. length (pack_buffer p)) ctx' = map_option (\<lambda>p. length (pack_buffer p)) (Some (p\<lparr>pack_buffer := i\<rparr>))"
    "(sctx' = None) = (sctx = None)"
    by (rule emitsD [OF m pk(1) h(1)]) (use pk room h(2) in auto)
  obtain p' where "ctx' = Some p'" using *(4) by (cases ctx') auto
  with * pk show thesis by (intro that [of p' sctx']) auto
qed

lemma pk_NoHash:
  assumes "emits m enc" "length bs + length enc \<le> 1024"
  shows "yields (pk_at w0 bs S H) (pk NoHash m) (Ok ()) (pk_at w0 (bs @ enc) S H)"
proof (rule yieldsI)
  fix w assume w: "pk_at w0 bs S H w"
  obtain p' sctx' where "m (Some ((w_pctx w)\<lparr>pack_buffer := w_in w\<rparr>), None) = (Ok (), (Some p', sctx'))"
    "length (pack_buffer p') = 1024" "packed (bs @ enc) (Some (p'\<lparr>pack_buffer := pack_buffer p'\<rparr>))"
    "pack_size p' = 1024"
    by (rule pk_emits [OF assms(1) _ _ _ assms(2), where p = "w_pctx w" and i = "w_in w" and x = "[]" and sctx = None])
      (use w in \<open>auto simp: hashed_def pk_at_def\<close>)
  then show "\<exists>w'. pk NoHash m w = (Ok (), w') \<and> pk_at w0 (bs @ enc) S H w'"
    using w by (simp add: pk_def pk_at_def rest_def)
qed

lemma pk_Sctx:
  assumes "emits m enc" "length bs + length enc \<le> 1024" "length x + length enc < 2 ^ 29"
  shows "yields (pk_at w0 bs (sha_inv x) H) (pk Sctx m) (Ok ()) (pk_at w0 (bs @ enc) (sha_inv (x @ enc)) H)"
proof (rule yieldsI)
  fix w assume w: "pk_at w0 bs (sha_inv x) H w"
  obtain p' sctx' where r: "m (Some ((w_pctx w)\<lparr>pack_buffer := w_in w\<rparr>), Some (w_sctx w)) = (Ok (), (Some p', sctx'))"
    "length (pack_buffer p') = 1024" "packed (bs @ enc) (Some (p'\<lparr>pack_buffer := pack_buffer p'\<rparr>))"
    "pack_size p' = 1024" "hashed (x @ enc) sctx'" "(sctx' = None) = (Some (w_sctx w) = None)"
    by (rule pk_emits [OF assms(1) _ _ _ assms(2), where p = "w_pctx w" and i = "w_in w" and x = x and sctx = "Some (w_sctx w)"])
      (use w assms(3) in \<open>auto simp: hashed_def pk_at_def\<close>)
  then obtain s' where "sctx' = Some s'" "sha_inv (x @ enc) s'" by (auto simp: hashed_def)
  then show "\<exists>w'. pk Sctx m w = (Ok (), w') \<and> pk_at w0 (bs @ enc) (sha_inv (x @ enc)) H w'"
    using w r by (simp add: pk_def pk_at_def rest_def)
qed

text \<open>The inner hash of an HMAC context.\<close>

lemma hmac_inv_hashed:
  "hmac_inv K x h \<longleftrightarrow> hmac_key h = HMAC_K0 K \<and>
     hashed (xor_bytes (replicate 64 0x36) (HMAC_K0 K) @ x) (Some (hmac_sctx h))"
  by (simp add: hmac_inv_def hashed_def)

lemma pk_Hctx:
  assumes "emits m enc" "length bs + length enc \<le> 1024" "length x + length enc < 2 ^ 28"
  shows "yields (pk_at w0 bs S (hmac_inv K x)) (pk Hctx m) (Ok ()) (pk_at w0 (bs @ enc) S (hmac_inv K (x @ enc)))"
proof (rule yieldsI)
  fix w assume w: "pk_at w0 bs S (hmac_inv K x) w"
  let ?i = "xor_bytes (replicate 64 0x36) (HMAC_K0 K)" and ?c = "Some (hmac_sctx (w_hctx w))"
  obtain p' sctx' where r: "m (Some ((w_pctx w)\<lparr>pack_buffer := w_in w\<rparr>), ?c) = (Ok (), (Some p', sctx'))"
    "length (pack_buffer p') = 1024" "packed (bs @ enc) (Some (p'\<lparr>pack_buffer := pack_buffer p'\<rparr>))"
    "pack_size p' = 1024" "hashed ((?i @ x) @ enc) sctx'" "(sctx' = None) = (?c = None)"
    by (rule pk_emits [OF assms(1) _ _ _ assms(2), where p = "w_pctx w" and i = "w_in w" and x = "?i @ x" and sctx = ?c])
      (use w assms(3) in \<open>auto simp: hmac_inv_hashed pk_at_def\<close>)
  then obtain s' where s': "sctx' = Some s'" by (cases sctx') auto
  then have "hmac_inv K (x @ enc) ((w_hctx w)\<lparr>hmac_sctx := s'\<rparr>)"
    using r(5) w by (simp add: hmac_inv_hashed pk_at_def)
  then show "\<exists>w'. pk Hctx m w = (Ok (), w') \<and> pk_at w0 (bs @ enc) S (hmac_inv K (x @ enc)) w'"
    using w r s' by (simp add: pk_def pk_at_def rest_def)
qed

lemma hs_Hctx:
  assumes "emits m enc" "length x + length enc < 2 ^ 28"
  shows "yields (pk_at w0 bs S (hmac_inv K x)) (hs Hctx m) (Ok ()) (pk_at w0 bs S (hmac_inv K (x @ enc)))"
proof (rule yieldsI)
  fix w assume w: "pk_at w0 bs S (hmac_inv K x) w"
  let ?i = "xor_bytes (replicate 64 0x36) (HMAC_K0 K)" and ?c = "Some (hmac_sctx (w_hctx w))"
  obtain ctx' sctx' where r: "m (None, ?c) = (Ok (), (ctx', sctx'))"
    "hashed ((?i @ x) @ enc) sctx'" "(sctx' = None) = (?c = None)"
    by (rule emitsD [OF assms(1), of "[]" None "?i @ x" ?c])
      (use w assms(2) in \<open>auto simp: hmac_inv_hashed packed_def pk_at_def\<close>)
  then obtain s' where s': "sctx' = Some s'" by (cases sctx') auto
  then have "hmac_inv K (x @ enc) ((w_hctx w)\<lparr>hmac_sctx := s'\<rparr>)"
    using r(2) w by (simp add: hmac_inv_hashed pk_at_def)
  then show "\<exists>w'. hs Hctx m w = (Ok (), w') \<and> pk_at w0 bs S (hmac_inv K (x @ enc)) w'"
    using w r s' by (simp add: hs_def pk_at_def rest_def)
qed

text \<open>A finished hash, a finished HMAC.\<close>

definition digest_is :: "bytes \<Rightarrow> SHA1_Context \<Rightarrow> bool" where
  "digest_is d c \<longleftrightarrow> sha_wf c \<and> sha_hash c = d"

definition mac_is :: "bytes \<Rightarrow> HMAC_Context \<Rightarrow> bool" where
  "mac_is d c \<longleftrightarrow> hmac_wf c \<and> sha_hash (hmac_sctx c) = d"

lemma digest_is_wf: "digest_is d c \<Longrightarrow> sha_wf c" and mac_is_wf: "mac_is d h \<Longrightarrow> hmac_wf h"
  by (simp_all add: digest_is_def mac_is_def)

lemma on_h_run: "m (w_hctx w) = (Ok (), h) \<Longrightarrow> on_h m w = (Ok (), w\<lparr>w_hctx := h\<rparr>)"
  by (simp add: on_h_def resultE_def)

lemma pk_sha1_init:
  "(\<And>c. S c \<Longrightarrow> sha_wf c) \<Longrightarrow>
   yields (pk_at w0 bs S H) (on_s sha1_init) (Ok ()) (pk_at w0 bs (sha_inv []) H)"
  by (rule yieldsI) (auto simp: on_s_def modifyE_def pk_at_def rest_def intro!: sha.init_inv)

lemma pk_sha1_finish:
  "yields (pk_at w0 bs (sha_inv x) H) (on_s sha1_finish) (Ok ()) (pk_at w0 bs (digest_is (SHA1_hash x)) H)"
  by (rule yieldsI) (auto simp: on_s_def modifyE_def pk_at_def rest_def digest_is_def sha.finish_hash)

lemma pk_hmac_init:
  assumes "\<And>c. H c \<Longrightarrow> hmac_wf c" "length key = 20"
  shows "yields (pk_at w0 bs S H) (on_h (hmac_init key 20)) (Ok ()) (pk_at w0 bs S (hmac_inv key []))"
proof (rule yieldsI)
  fix w assume w: "pk_at w0 bs S H w"
  then obtain h where "hmac_init key 20 (w_hctx w) = (Ok (), h)" "hmac_inv key [] h"
    using hmac_init_correct [of "w_hctx w" 20 key] assms by (auto simp: pk_at_def)
  then show "\<exists>w'. on_h (hmac_init key 20) w = (Ok (), w') \<and> pk_at w0 bs S (hmac_inv key []) w'"
    using w by (simp add: on_h_run pk_at_def rest_def)
qed

lemma pk_hmac_finish:
  "yields (pk_at w0 bs S (hmac_inv K x)) (on_h hmac_finish) (Ok ()) (pk_at w0 bs S (mac_is (HMAC_SHA1 K x)))"
proof (rule yieldsI)
  fix w assume w: "pk_at w0 bs S (hmac_inv K x) w"
  then obtain h where "hmac_finish (w_hctx w) = (Ok (), h)" "sha_hash (hmac_sctx h) = HMAC_SHA1 K x" "hmac_wf h"
    using hmac_finish_correct [of K x "w_hctx w"] by (auto simp: pk_at_def)
  then show "\<exists>w'. on_h hmac_finish w = (Ok (), w') \<and> pk_at w0 bs S (mac_is (HMAC_SHA1 K x)) w'"
    using w by (simp add: on_h_run pk_at_def rest_def mac_is_def)
qed

lemma pk_at_mac: "pk_at w0 bs S (mac_is d) w \<Longrightarrow> sha_hash (hmac_sctx (w_hctx w)) = d"
  by (simp add: pk_at_def mac_is_def)

lemma pk_sess:
  "s \<noteq> 0 \<Longrightarrow> yields (pk_at w0 bs S H) (k (f (w_objs w0 s))) r R \<Longrightarrow>
   yields (pk_at w0 bs S H) (bindE (sess s f) k) r R"
  by (simp add: sess_def, rule yields_getE) (auto simp: pk_at_def rest_def)

text \<open>The authorisation block of a request.\<close>

definition sess_wf :: "TPM_SESSION \<Rightarrow> bool" where
  "sess_wf s \<longleftrightarrow> length (nonceEven s) = 20 \<and> length (nonceOdd s) = 20"

definition request_auth :: "bytes \<Rightarrow> bytes \<Rightarrow> TPM_SESSION \<Rightarrow> bytes" where
  "request_auth key digest s =
     HMAC_SHA1 key (digest @ nonceEven s @ nonceOdd s @ [continueAuthSession s])"

definition auth_block :: "bytes \<Rightarrow> bytes \<Rightarrow> TPM_SESSION \<Rightarrow> bytes" where
  "auth_block key digest s =
     be32 (authHandle s) @ nonceOdd s @ [continueAuthSession s] @ request_auth key digest s"

lemma length_auth_block [simp]: "sess_wf s \<Longrightarrow> length (auth_block key digest s) = 45"
  by (simp add: auth_block_def request_auth_def sess_wf_def)

lemma pk_auth_in:
  assumes s: "s \<noteq> 0" "sess_wf (w_objs w0 s)" and H: "\<And>c. H c \<Longrightarrow> hmac_wf c"
    and len: "length key = 20" "length d = 20" "length bs + 45 \<le> 1024"
  shows "yields (pk_at w0 bs (digest_is d) H) (auth_in s key) (Ok ())
    (pk_at w0 (bs @ auth_block key d (w_objs w0 s)) (digest_is d) (mac_is (request_auth key d (w_objs w0 s))))"
proof -
  let ?o = "w_objs w0 s"
  have o: "length (nonceEven ?o) = 20" "length (nonceOdd ?o) = 20" using s(2) by (simp_all add: sess_wf_def)
  let ?t = "d @ nonceEven ?o @ nonceOdd ?o @ [continueAuthSession ?o]"
  have "yields (pk_at w0 bs (digest_is d) H) (auth_in s key) (Ok ())
    (pk_at w0 ((((bs @ be32 (authHandle ?o)) @ nonceOdd ?o) @ [continueAuthSession ?o]) @ HMAC_SHA1 key
       (((([] @ d) @ nonceEven ?o) @ nonceOdd ?o) @ [continueAuthSession ?o]))
      (digest_is d) (mac_is (HMAC_SHA1 key (((([] @ d) @ nonceEven ?o) @ nonceOdd ?o) @ [continueAuthSession ?o]))))"
    unfolding auth_in_def
    apply (rule yields_bind [OF pk_hmac_init], erule H, rule len)
    apply (rule yields_getE [where a = d], simp add: pk_at_def digest_is_def)
    apply (rule yields_bind [OF hs_Hctx [OF emits_20 [OF len(2)]]], simp add: len)
    apply (rule pk_sess [OF s(1)])
    apply (rule yields_bind [OF pk_NoHash [OF emits_UINT(3)]], use len in simp)
    apply (rule pk_sess [OF s(1)])
    apply (rule yields_bind [OF hs_Hctx [OF emits_20 [OF o(1)]]], simp add: len o)
    apply (rule pk_sess [OF s(1)])
    apply (rule yields_bind [OF pk_Hctx [OF emits_20 [OF o(2)]]], use len o in simp, use len o in simp)
    apply (rule pk_sess [OF s(1)])
    apply (rule yields_bind [OF pk_Hctx [OF emits_UINT(1)]], use len o in simp, use len o in simp)
    apply (rule yields_bind [OF pk_hmac_finish])
    apply (rule yields_getE, erule pk_at_mac)
    apply (rule pk_NoHash [OF emits_20], simp, use len o in simp)
    done
  then show ?thesis by (simp add: auth_block_def request_auth_def)
qed

section \<open>The exchange\<close>

text \<open>
  The machine is ready for a command and its TPM is in the core state \<open>k\<close>; what the TPM answers.
\<close>

definition tpm_ready :: "'d hw \<Rightarrow> ('d, 'c) tpm \<Rightarrow> 'c \<Rightarrow> 'd world \<Rightarrow> bool" where
  "tpm_ready hw td k w \<longleftrightarrow> tis_device hw (w_locality w) td \<and> wait_returns hw \<and>
     tpm_if td (w_dev w) \<in> {Idle, Ready} \<and> tpm_core td (w_dev w) = k \<and>
     length (w_in w) = 1024 \<and> length (w_out w) = 1024 \<and> sha_wf (w_sctx w) \<and> hmac_wf (w_hctx w)"

definition answers :: "('d, 'c) tpm \<Rightarrow> 'c \<Rightarrow> bytes \<Rightarrow> bytes \<Rightarrow> 'c \<Rightarrow> bool" where
  "answers td k q r k' \<longleftrightarrow> (\<exists>t. tpm_run td k q = (t, r, k') \<and> t < 4000) \<and>
     10 \<le> length r \<and> length r \<le> 1024 \<and> paramSize r = of_nat (length r)"

text \<open>The parts of the world that do not change between the exchange and the end of a command.\<close>

definition un_at :: "'d world \<Rightarrow> ('d, 'c) tpm \<Rightarrow> 'c \<Rightarrow> heap \<Rightarrow> u32 list \<Rightarrow> (u32 \<Rightarrow> TPM_SESSION) \<Rightarrow> bytes \<Rightarrow> u32 \<Rightarrow>
    (SHA1_Context \<Rightarrow> bool) \<Rightarrow> (HMAC_Context \<Rightarrow> bool) \<Rightarrow> 'd world \<Rightarrow> bool" where
  "un_at w0 td k hp ss ob left n S H w \<longleftrightarrow>
     tpm_if td (w_dev w) = Ready \<and> tpm_core td (w_dev w) = k \<and> outer w = outer w0 \<and>
     w_locality w = w_locality w0 \<and> length (w_in w) = 1024 \<and> length (w_out w) = 1024 \<and>
     w_heap w = hp \<and> w_sessions w = ss \<and> w_objs w = ob \<and>
     unread left ((w_uctx w)\<lparr>unpack_buffer := w_out w\<rparr>) \<and> bytes_unpacked (w_uctx w) = n \<and>
     S (w_sctx w) \<and> H (w_hctx w)"

lemma sint_small: "n \<le> 1024 \<Longrightarrow> sint (of_nat n :: u32) = int n"
  by (simp add: signed_of_nat signed_take_bit_int_eq_self)

lemma unread_init:
  "length b = 1024 \<Longrightarrow> unread b (unpack_init b 1024)"
  by (simp add: unread_def unpack_init_def)

lemma transmit_yields:
  assumes ready: "tpm_ready hw td k w0" and ans: "answers td k q r k'"
    and q: "6 \<le> length q" "length q \<le> 1024" "paramSize q = of_nat (length q)"
  shows "yields (pk_at w0 q S H) (transmit hw (of_nat (length q))) (Ok ())
    (un_at w0 td k' (w_heap w0) (w_sessions w0) (w_objs w0) (r @ drop (length r) (w_out w0)) 0 S H)"
proof (rule yieldsI)
  fix w assume w: "pk_at w0 q S H w"
  obtain t where t: "tpm_run td k q = (t, r, k')" "t < 4000" and r: "6 \<le> length r" "length r \<le> 1024"
    "sint (paramSize r) = int (length r)"
    using ans sint_small by (auto simp: answers_def)
  have in_q: "take (length q) (w_in w) = q" and n: "bytes_packed (w_pctx w) = of_nat (length q)"
    using w q(2) by (auto simp: pk_at_def packed_def unat_eq_of_nat_iff)
  have ps: "sint (paramSize (w_in w)) = int (length q)"
    using paramSize_take [OF q(1), of "w_in w"] in_q q(2,3) sint_small [of "length q"] by metis
  have same: "w_dev w = w_dev w0" "w_out w = w_out w0" "w_locality w = w_locality w0"
    "outer w = outer w0" "w_heap w = w_heap w0" "w_sessions w = w_sessions w0" "w_objs w = w_objs w0"
    using w by (simp_all add: pk_at_def rest_def)
  have "runs td (tis_transmit hw) w () (splice (w_out w) 0 r) Ready k'"
    by (rule runs_tis_transmit [where n = "length q" and t = t])
      (use ready same w ps q r t in_q in \<open>auto simp: tpm_ready_def pk_at_def\<close>)
  then obtain d where d: "tis_transmit hw w = (Ok (), w\<lparr>w_dev := d, w_out := splice (w_out w) 0 r\<rparr>)"
    "tpm_if td d = Ready" "tpm_core td d = k'" unfolding runs_def by blast
  have out: "splice (w_out w) 0 r = r @ drop (length r) (w_out w0)" "length (w_out w0) = 1024"
    using ready same by (auto simp: splice_def tpm_ready_def)
  have "transmit hw (of_nat (length q)) w =
      (Ok (), w\<lparr>w_dev := d, w_out := splice (w_out w) 0 r, w_uctx := unpack_init (splice (w_out w) 0 r) 1024\<rparr>)"
    using n d(1) by (simp add: transmit_def pack_finish_def bindE_def getE_def modifyE_def returnE_def)
  moreover have "unread (r @ drop (length r) (w_out w0)) (unpack_init (r @ drop (length r) (w_out w0)) 1024)"
    by (rule unread_init) (use out r in simp)
  ultimately show "\<exists>w'. transmit hw (of_nat (length q)) w = (Ok (), w') \<and>
      un_at w0 td k' (w_heap w0) (w_sessions w0) (w_objs w0) (r @ drop (length r) (w_out w0)) 0 S H w'"
    using w d(2,3) out r same by (simp add: un_at_def pk_at_def unpack_init_def)
qed

section \<open>Unpacking a response\<close>

lemma un_reads:
  assumes m: "reads p m enc v ns" and al: "allocates p ns (w_heap w) hp'"
    and un: "unread (enc @ left) ((w_uctx w)\<lparr>unpack_buffer := w_out w\<rparr>)"
    and h: "hashed x sctx" "\<And>c. sctx = Some c \<Longrightarrow> length x + length enc < 2 ^ 29"
  obtains u sctx' where
    "m (Some ((w_uctx w)\<lparr>unpack_buffer := w_out w\<rparr>), sctx, w_heap w) = (Ok v, (Some u, sctx', hp'))"
    "unread left (u\<lparr>unpack_buffer := w_out w\<rparr>)" "bytes_unpacked u = bytes_unpacked (w_uctx w) + of_nat (length enc)"
    "hashed (x @ enc) sctx'" "(sctx' = None) = (sctx = None)"
proof -
  obtain u sctx' where *: "m (Some ((w_uctx w)\<lparr>unpack_buffer := w_out w\<rparr>), sctx, w_heap w) = (Ok v, (Some u, sctx', hp'))"
    "unread left u" "bytes_unpacked u = bytes_unpacked ((w_uctx w)\<lparr>unpack_buffer := w_out w\<rparr>) + of_nat (length enc)"
    "unpack_buffer u = unpack_buffer ((w_uctx w)\<lparr>unpack_buffer := w_out w\<rparr>)"
    "hashed (x @ enc) sctx'" "(sctx' = None) = (sctx = None)"
    by (rule readsD [OF m un h(1) _ al]) (use h(2) in auto)
  have e: "u\<lparr>unpack_buffer := w_out w\<rparr> = u" using *(4) by (cases u) simp
  have "unread left (u\<lparr>unpack_buffer := w_out w\<rparr>)" unfolding e by (rule *(2))
  then show thesis by (rule that [OF *(1) _ _ *(5,6)]) (use *(3) in simp)
qed

lemma un_NoHash:
  assumes "reads p m enc v ns" "allocates p ns hp hp'"
  shows "yields (un_at w0 td k hp ss ob (enc @ left) n S H) (un NoHash m) (Ok v)
    (un_at w0 td k hp' ss ob left (n + of_nat (length enc)) S H)"
proof (rule yieldsI)
  fix w assume w: "un_at w0 td k hp ss ob (enc @ left) n S H w"
  obtain u sctx' where
    "m (Some ((w_uctx w)\<lparr>unpack_buffer := w_out w\<rparr>), None, w_heap w) = (Ok v, (Some u, sctx', hp'))"
    "unread left (u\<lparr>unpack_buffer := w_out w\<rparr>)" "bytes_unpacked u = bytes_unpacked (w_uctx w) + of_nat (length enc)"
    by (rule un_reads [OF assms(1), where w = w and x = "[]" and sctx = None and hp' = hp' and left = left])
      (use w assms(2) in \<open>auto simp: un_at_def hashed_def\<close>)
  then show "\<exists>w'. un NoHash m w = (Ok v, w') \<and> un_at w0 td k hp' ss ob left (n + of_nat (length enc)) S H w'"
    using w by (simp add: un_def un_at_def)
qed

lemma un_Sctx:
  assumes "reads p m enc v ns" "allocates p ns hp hp'" "length x + length enc < 2 ^ 29"
  shows "yields (un_at w0 td k hp ss ob (enc @ left) n (sha_inv x) H) (un Sctx m) (Ok v)
    (un_at w0 td k hp' ss ob left (n + of_nat (length enc)) (sha_inv (x @ enc)) H)"
proof (rule yieldsI)
  fix w assume w: "un_at w0 td k hp ss ob (enc @ left) n (sha_inv x) H w"
  obtain u sctx' where r:
    "m (Some ((w_uctx w)\<lparr>unpack_buffer := w_out w\<rparr>), Some (w_sctx w), w_heap w) = (Ok v, (Some u, sctx', hp'))"
    "unread left (u\<lparr>unpack_buffer := w_out w\<rparr>)" "bytes_unpacked u = bytes_unpacked (w_uctx w) + of_nat (length enc)"
    "hashed (x @ enc) sctx'" "(sctx' = None) = (Some (w_sctx w) = None)"
    by (rule un_reads [OF assms(1), where w = w and x = x and sctx = "Some (w_sctx w)" and hp' = hp' and left = left])
      (use w assms(2,3) in \<open>auto simp: un_at_def hashed_def\<close>)
  then obtain s' where "sctx' = Some s'" "sha_inv (x @ enc) s'" by (auto simp: hashed_def)
  then show "\<exists>w'. un Sctx m w = (Ok v, w') \<and>
      un_at w0 td k hp' ss ob left (n + of_nat (length enc)) (sha_inv (x @ enc)) H w'"
    using w r by (simp add: un_def un_at_def)
qed

lemma un_Hctx:
  assumes "reads p m enc v ns" "allocates p ns hp hp'" "length x + length enc < 2 ^ 28"
  shows "yields (un_at w0 td k hp ss ob (enc @ left) n S (hmac_inv K x)) (un Hctx m) (Ok v)
    (un_at w0 td k hp' ss ob left (n + of_nat (length enc)) S (hmac_inv K (x @ enc)))"
proof (rule yieldsI)
  fix w assume w: "un_at w0 td k hp ss ob (enc @ left) n S (hmac_inv K x) w"
  let ?i = "xor_bytes (replicate 64 0x36) (HMAC_K0 K)" and ?c = "Some (hmac_sctx (w_hctx w))"
  obtain u sctx' where r:
    "m (Some ((w_uctx w)\<lparr>unpack_buffer := w_out w\<rparr>), ?c, w_heap w) = (Ok v, (Some u, sctx', hp'))"
    "unread left (u\<lparr>unpack_buffer := w_out w\<rparr>)" "bytes_unpacked u = bytes_unpacked (w_uctx w) + of_nat (length enc)"
    "hashed ((?i @ x) @ enc) sctx'" "(sctx' = None) = (?c = None)"
    by (rule un_reads [OF assms(1), where w = w and x = "?i @ x" and sctx = ?c and hp' = hp' and left = left])
      (use w assms(2,3) in \<open>auto simp: un_at_def hmac_inv_hashed\<close>)
  then obtain s' where s': "sctx' = Some s'" by (cases sctx') auto
  then have "hmac_inv K (x @ enc) ((w_hctx w)\<lparr>hmac_sctx := s'\<rparr>)"
    using r(4) w by (simp add: hmac_inv_hashed un_at_def)
  then show "\<exists>w'. un Hctx m w = (Ok v, w') \<and>
      un_at w0 td k hp' ss ob left (n + of_nat (length enc)) S (hmac_inv K (x @ enc)) w'"
    using w r s' by (simp add: un_def un_at_def)
qed

text \<open>Hashing a value that is not in the response.\<close>

lemma unmarshal_hash_only:
  assumes "hashed x (Some c)" "unat n \<le> length old" "length x + unat n < 2 ^ 29"
  obtains c' where "unmarshal_bytes old n (None, Some c, h) = (Ok None, (None, Some c', h))"
    "hashed (x @ take (unat n) old) (Some c')"
proof -
  obtain sctx' where r: "hash_opt old n (Some c) = (None, sctx')" "hashed (x @ take (unat n) old) sctx'"
    "(sctx' = None) = (Some c = None)"
    by (rule hash_opt_hashed [OF assms(1,2)]) (use assms(3) in auto)
  then obtain c' where "sctx' = Some c'" by auto
  with r that show thesis
    by (auto simp: unmarshal_bytes_def hash_only_def bindE_def getE_def returnE_def)
qed

lemma unh_Sctx_UINT32:
  assumes "length x + 4 < 2 ^ 29"
  shows "yields (un_at w0 td k hp ss ob left n (sha_inv x) H) (unh Sctx (unmarshal_UINT32 v)) (Ok v)
    (un_at w0 td k hp ss ob left n (sha_inv (x @ be32 v)) H)"
proof (rule yieldsI)
  fix w assume w: "un_at w0 td k hp ss ob left n (sha_inv x) H w"
  obtain c' where "unmarshal_bytes (le32 (htonl v)) 4 (None, Some (w_sctx w), w_heap w) =
      (Ok None, (None, Some c', w_heap w))" "hashed (x @ take (unat (4 :: u32)) (le32 (htonl v))) (Some c')"
    by (rule unmarshal_hash_only [of x "w_sctx w" 4 "le32 (htonl v)" "w_heap w"])
      (use w assms in \<open>auto simp: un_at_def hashed_def\<close>)
  then show "\<exists>w'. unh Sctx (unmarshal_UINT32 v) w = (Ok v, w') \<and>
      un_at w0 td k hp ss ob left n (sha_inv (x @ be32 v)) H w'"
    using w by (simp add: unh_def unmarshal_UINT32_def bindE_def returnE_def un_at_def hashed_def)
qed

lemma unh_Hctx_20:
  assumes "length x + 20 < 2 ^ 28" "length d = 20"
  shows "yields (un_at w0 td k hp ss ob left n S (hmac_inv K x)) (unh Hctx (unmarshal_array d 20)) (Ok d)
    (un_at w0 td k hp ss ob left n S (hmac_inv K (x @ d)))"
proof (rule yieldsI)
  fix w assume w: "un_at w0 td k hp ss ob left n S (hmac_inv K x) w"
  let ?i = "xor_bytes (replicate 64 0x36) (HMAC_K0 K)"
  obtain c' where "unmarshal_bytes d 20 (None, Some (hmac_sctx (w_hctx w)), w_heap w) =
      (Ok None, (None, Some c', w_heap w))" "hashed ((?i @ x) @ take (unat (20 :: u32)) d) (Some c')"
    by (rule unmarshal_hash_only [of "?i @ x" "hmac_sctx (w_hctx w)" 20 d "w_heap w"])
      (use w assms in \<open>auto simp: un_at_def hmac_inv_hashed\<close>)
  then show "\<exists>w'. unh Hctx (unmarshal_array d 20) w = (Ok d, w') \<and>
      un_at w0 td k hp ss ob left n S (hmac_inv K (x @ d)) w'"
    using w assms(2) by (simp add: unh_def unmarshal_array_def bindE_def returnE_def un_at_def hmac_inv_hashed)
qed

lemma un_sha1_init:
  "(\<And>c. S c \<Longrightarrow> sha_wf c) \<Longrightarrow>
   yields (un_at w0 td k hp ss ob left n S H) (on_s sha1_init) (Ok ()) (un_at w0 td k hp ss ob left n (sha_inv []) H)"
  by (rule yieldsI) (auto simp: on_s_def modifyE_def un_at_def intro!: sha.init_inv)

lemma un_sha1_finish:
  "yields (un_at w0 td k hp ss ob left n (sha_inv x) H) (on_s sha1_finish) (Ok ())
     (un_at w0 td k hp ss ob left n (digest_is (SHA1_hash x)) H)"
  by (rule yieldsI) (auto simp: on_s_def modifyE_def un_at_def digest_is_def sha.finish_hash)

lemma un_hmac_init:
  assumes "\<And>c. H c \<Longrightarrow> hmac_wf c" "length key = 20"
  shows "yields (un_at w0 td k hp ss ob left n S H) (on_h (hmac_init key 20)) (Ok ())
    (un_at w0 td k hp ss ob left n S (hmac_inv key []))"
proof (rule yieldsI)
  fix w assume w: "un_at w0 td k hp ss ob left n S H w"
  then obtain h where "hmac_init key 20 (w_hctx w) = (Ok (), h)" "hmac_inv key [] h"
    using hmac_init_correct [of "w_hctx w" 20 key] assms by (auto simp: un_at_def)
  then show "\<exists>w'. on_h (hmac_init key 20) w = (Ok (), w') \<and> un_at w0 td k hp ss ob left n S (hmac_inv key []) w'"
    using w by (simp add: on_h_run un_at_def)
qed

lemma un_hmac_finish:
  "yields (un_at w0 td k hp ss ob left n S (hmac_inv K x)) (on_h hmac_finish) (Ok ())
     (un_at w0 td k hp ss ob left n S (mac_is (HMAC_SHA1 K x)))"
proof (rule yieldsI)
  fix w assume w: "un_at w0 td k hp ss ob left n S (hmac_inv K x) w"
  then obtain h where "hmac_finish (w_hctx w) = (Ok (), h)" "sha_hash (hmac_sctx h) = HMAC_SHA1 K x" "hmac_wf h"
    using hmac_finish_correct [of K x "w_hctx w"] by (auto simp: un_at_def)
  then show "\<exists>w'. on_h hmac_finish w = (Ok (), w') \<and> un_at w0 td k hp ss ob left n S (mac_is (HMAC_SHA1 K x)) w'"
    using w by (simp add: on_h_run un_at_def mac_is_def)
qed

lemma un_sess:
  "s \<noteq> 0 \<Longrightarrow> yields (un_at w0 td k hp ss ob left n S H) (c (f (ob s))) r R \<Longrightarrow>
   yields (un_at w0 td k hp ss ob left n S H) (bindE (sess s f) c) r R"
  by (simp add: sess_def, rule yields_getE) (auto simp: un_at_def)

lemma un_set_sess:
  "s \<noteq> 0 \<Longrightarrow> yields (un_at w0 td k hp ss ob left n S H) (set_sess s f) (Ok ())
     (un_at w0 td k hp ss (ob(s := f (ob s))) left n S H)"
  by (rule yieldsI) (simp add: set_sess_def modifyE_def un_at_def)

lemma un_set_session:
  "yields (un_at w0 td k hp ss ob left n S H) (set_session i p) (Ok ()) (un_at w0 td k hp (ss[i := p]) ob left n S H)"
  by (rule yieldsI) (simp add: set_session_def modifyE_def un_at_def)

lemma un_alloc:
  "alloc p sz hp = (Ok a, hp') \<Longrightarrow>
   yields (un_at w0 td k hp ss ob left n S H) (on_heap (alloc p sz)) (Ok a) (un_at w0 td k hp' ss ob left n S H)"
  by (rule yieldsI) (simp add: on_heap_def un_at_def)

lemma un_end_session:
  "s \<noteq> 0 \<Longrightarrow> yields (un_at w0 td k hp ss ob left n S H) (end_session (Some i) s) (Ok ())
     (un_at w0 td k hp (if continueAuthSession (ob s) = 0 then ss[i := 0] else ss) ob left n S H)"
  unfolding end_session_def
  by (rule un_sess) (auto intro: un_set_session yields_returnE)

lemma un_check_out:
  "yields (un_at w0 td k hp ss ob left n S H) (check_out psize tag_out tag)
     (if n \<noteq> psize \<or> tag_out \<noteq> tag then Throw ERROR_TPM_BAD_OUTPUT_PARAM else Ok ())
     (un_at w0 td k hp ss ob left n S H)"
  by (rule yieldsI)
    (auto simp: check_out_def un_at_def unpack_finish_def bindE_def getE_def throwE_def returnE_def
      ERROR_if_def)

lemma un_check_auth:
  "length a = 20 \<Longrightarrow> length m = 20 \<Longrightarrow>
   yields (un_at w0 td k hp ss ob left n S (mac_is m)) (check_auth a)
     (if m \<noteq> a then Throw ERROR_TPM_BAD_OUTPUT_AUTH else Ok ()) (un_at w0 td k hp ss ob left n S (mac_is m))"
  by (rule yieldsI)
    (auto simp: check_auth_def un_at_def mac_is_def bindE_def getE_def throwE_def returnE_def)

text \<open>The primitive reads, with the number of bytes evaluated.\<close>

lemma un_prims:
  "yields (un_at w0 td k hp ss ob (be16 u @ left) n S H) (un NoHash (unmarshal_UINT16 0)) (Ok u)
     (un_at w0 td k hp ss ob left (n + 2) S H)"
  "yields (un_at w0 td k hp ss ob (be32 v @ left) n S H) (un NoHash (unmarshal_UINT32 0)) (Ok v)
     (un_at w0 td k hp ss ob left (n + 4) S H)"
  "length d = 20 \<Longrightarrow> yields (un_at w0 td k hp ss ob (d @ left) n S H) (un NoHash (unmarshal_array [] 20)) (Ok d)
     (un_at w0 td k hp ss ob left (n + 20) S H)"
  using un_NoHash [OF reads_UINT16, of _ hp hp] un_NoHash [OF reads_UINT32, of _ hp hp]
    un_NoHash [OF reads_array, of d 20 _ hp hp] by simp_all

text \<open>The response header; \<open>TPM_ERROR\<close> on a result code.\<close>

lemma un_TPM_ERROR:
  "yields (un_at w0 td k hp ss ob left n S H) (TPM_ERROR_if res)
     (if res \<noteq> 0 then Throw (ERROR_TPM (0x80 OR res)) else Ok ()) (un_at w0 td k hp ss ob left n S H)"
  unfolding TPM_ERROR_if_def by (rule yields_ERROR_if)

text \<open>What holds when a command is over: the state of the parts it may have changed.\<close>

definition cmd_done :: "'d hw \<Rightarrow> ('d, 'c) tpm \<Rightarrow> 'c \<Rightarrow> 'd world \<Rightarrow> heap \<Rightarrow> u32 list \<Rightarrow> (u32 \<Rightarrow> TPM_SESSION) \<Rightarrow>
    'd world \<Rightarrow> bool" where
  "cmd_done hw td k w0 hp ss ob w \<longleftrightarrow> tpm_ready hw td k w \<and> w_heap w = hp \<and> w_sessions w = ss \<and>
     w_objs w = ob \<and> outer w = outer w0 \<and> w_locality w = w_locality w0"

lemma un_at_done:
  assumes "tpm_ready hw td k w0" "\<And>c. S c \<Longrightarrow> sha_wf c" "\<And>c. H c \<Longrightarrow> hmac_wf c"
    and "un_at w0 td k' hp ss ob left n S H w"
  shows "cmd_done hw td k' w0 hp ss ob w"
  using assms by (auto simp: cmd_done_def tpm_ready_def un_at_def)

lemma un_header:
  assumes "\<And>w. un_at w0 td k hp ss ob left 10 S H w \<Longrightarrow> Q w"
    and "yields (un_at w0 td k hp ss ob left 10 S H) (f tag psize) r Q"
  shows "yields (un_at w0 td k hp ss ob (be16 tag @ be32 psize @ be32 res @ left) 0 S H)
     (bindE (un NoHash (unmarshal_UINT16 0)) (\<lambda>t. bindE (un NoHash (unmarshal_UINT32 0)) (\<lambda>p.
      bindE (un NoHash (unmarshal_UINT32 0)) (\<lambda>r. bindE (TPM_ERROR_if r) (\<lambda>_. f t p)))))
     (if res \<noteq> 0 then Throw (ERROR_TPM (0x80 OR res)) else r) Q"
proof -
  have *: "yields (un_at w0 td k hp ss ob left 10 S H) (bindE (TPM_ERROR_if res) (\<lambda>_. f tag psize))
      (if res \<noteq> 0 then Throw (ERROR_TPM (0x80 OR res)) else r) Q"
    using un_TPM_ERROR [of w0 td k hp ss ob left 10 S H res] assms
    by (cases "res = 0") (auto intro: yields_bind yields_throw [OF yields_weaken])
  show ?thesis
    apply (rule yields_bind, rule un_prims(1))
    apply (rule yields_bind, rule un_prims(2))
    apply (rule yields_bind, rule un_prims(2))
    using * by simp
qed

text \<open>The end of a command that returns \<open>v\<close> after \<open>10 + m\<close> bytes.\<close>

lemma un_check_return:
  assumes "tpm_ready hw td k0 w0" "\<And>c. S c \<Longrightarrow> sha_wf c" "\<And>c. H c \<Longrightarrow> hmac_wf c"
    and "psize = of_nat (10 + b)" "b \<le> 1014" "m \<le> 1014" "n = of_nat (10 + m)"
  shows "yields (un_at w0 td k hp ss ob left n S H)
    (bindE (check_out psize tag_out tag) (\<lambda>_. returnE v))
    (if b \<noteq> m \<or> tag_out \<noteq> tag then Throw ERROR_TPM_BAD_OUTPUT_PARAM else Ok v) (cmd_done hw td k w0 hp ss ob)"
proof -
  have sz: "n \<noteq> psize \<longleftrightarrow> b \<noteq> m" unfolding assms(4,7) by (subst of_nat_u32_inj) (use assms(5,6) in auto)
  note check = un_check_out [of w0 td k hp ss ob left n S H psize tag_out tag]
  note fin = un_at_done [OF assms(1-3)]
  show ?thesis
  proof (cases "b \<noteq> m \<or> tag_out \<noteq> tag")
    case True
    then have "yields (un_at w0 td k hp ss ob left n S H) (check_out psize tag_out tag)
        (Throw ERROR_TPM_BAD_OUTPUT_PARAM) (cmd_done hw td k w0 hp ss ob)"
      using check sz by (intro yields_weaken [OF _ fin]) auto
    then show ?thesis using True by (simp add: yields_throw)
  next
    case False
    then have "yields (un_at w0 td k hp ss ob left n S H) (check_out psize tag_out tag) (Ok ())
        (un_at w0 td k hp ss ob left n S H)" using check sz by simp
    from yields_bind [where k = "\<lambda>_. returnE v", OF this yields_weaken [OF yields_returnE fin]] False
    show ?thesis by simp
  qed
qed

section \<open>Commands without authorisation\<close>

lemma paramSize_enc [simp]: "paramSize (be16 t @ be32 n @ x) = n"
  by (simp add: paramSize_def drop_append)

lemma start_yields:
  "tpm_ready hw td k w0 \<Longrightarrow> yields (\<lambda>w. w = w0) start_pack (Ok ()) (pk_at w0 [] sha_wf hmac_wf)"
  by (rule yieldsI)
    (auto simp: start_pack_def modifyE_def pk_at_def rest_def tpm_ready_def packed_def pack_init_def)

lemma transmit_bind:
  assumes "tpm_ready hw td k w0"
    and "answers td k (be16 t @ be32 n @ q) (be16 tag @ be32 psize @ be32 res @ body) k'"
    and "n = of_nat (6 + length q)" "6 + length q \<le> 1024"
    and "yields (un_at w0 td k' (w_heap w0) (w_sessions w0) (w_objs w0)
      (be16 tag @ be32 psize @ be32 res @ body @ drop (10 + length body) (w_out w0)) 0 S H) m r Q"
  shows "yields (pk_at w0 (be16 t @ be32 n @ q) S H) (bindE (transmit hw n) (\<lambda>_. m)) r Q"
proof -
  have len: "length (be16 t @ be32 n @ q) = 6 + length q"
    "length (be16 tag @ be32 psize @ be32 res @ body) = 10 + length body" by simp_all
  show ?thesis
    using yields_bind [OF transmit_yields [OF assms(1,2)], where k = "\<lambda>_. m"] assms(3-5)
    unfolding len append_assoc by simp
qed

text \<open>Normalisation of a packed request and its announced size.\<close>

lemmas request_norm = append_assoc append_Nil numeral_plus_numeral add_num_simps

text \<open>The pieces of a request that every command starts with.\<close>

lemmas pack16 = yields_bind [OF pk_NoHash [OF emits_UINT(2)]]
lemmas pack32 = yields_bind [OF pk_NoHash [OF emits_UINT(3)]]
lemmas pack20 = yields_bind [OF pk_NoHash [OF emits_20]]

text \<open>20 bytes of the response, or of what an earlier response left behind it in the buffer.\<close>

lemma take_stale:
  assumes "off + length body \<le> 1024" "off + m \<le> 1024" "length out = 1024"
  obtains d left where "body @ drop (off + length body) out = d @ left" "length d = m"
    "length body = m \<longrightarrow> d = body"
proof -
  let ?b = "body @ drop (off + length body) out"
  have "length (take m ?b) = m" using assms by simp
  moreover have "length body = m \<longrightarrow> take m ?b = body" by simp
  ultimately show thesis by (rule that [OF append_take_drop_id [symmetric]])
qed

lemma read20_yields:
  assumes ready: "tpm_ready hw td k w0"
    and ans: "answers td k q (be16 tag @ be32 psize @ be32 res @ body) k'"
  shows "yields (un_at w0 td k' (w_heap w0) (w_sessions w0) (w_objs w0)
      (be16 tag @ be32 psize @ be32 res @ body @ drop (10 + length body) (w_out w0)) 0 sha_wf hmac_wf)
    (bindE (un NoHash (unmarshal_UINT16 0)) (\<lambda>tag_out.
      bindE (un NoHash (unmarshal_UINT32 0)) (\<lambda>paramSize_out.
      bindE (un NoHash (unmarshal_UINT32 0)) (\<lambda>res.
      bindE (TPM_ERROR_if res) (\<lambda>_.
      bindE (un NoHash (unmarshal_array [] 20)) (\<lambda>ret.
      bindE (check_out paramSize_out tag_out TPM_TAG_RSP_COMMAND) (\<lambda>_.
      returnE ret)))))))
    (if res \<noteq> 0 then Throw (ERROR_TPM (0x80 OR res))
     else if length body \<noteq> 20 \<or> tag \<noteq> TPM_TAG_RSP_COMMAND then Throw ERROR_TPM_BAD_OUTPUT_PARAM
     else Ok body) (cmd_done hw td k' w0 (w_heap w0) (w_sessions w0) (w_objs w0))"
proof -
  have body: "length body \<le> 1014" and psize: "psize = of_nat (10 + length body)"
    using ans by (auto simp: answers_def)
  have out: "length (w_out w0) = 1024" using ready by (simp add: tpm_ready_def)
  obtain d left where d: "body @ drop (10 + length body) (w_out w0) = d @ left" "length d = 20"
    "length body = 20 \<longrightarrow> d = body"
    by (rule take_stale [of 10 body 20 "w_out w0"]) (use body out in auto)
  have Ok: "(if length body \<noteq> 20 \<or> tag \<noteq> TPM_TAG_RSP_COMMAND then Throw ERROR_TPM_BAD_OUTPUT_PARAM else Ok body) =
      (if length body \<noteq> 20 \<or> tag \<noteq> TPM_TAG_RSP_COMMAND then Throw ERROR_TPM_BAD_OUTPUT_PARAM else Ok d)"
    using d(3) by simp
  show ?thesis unfolding d(1) Ok
    apply (rule un_header, rule un_at_done [OF ready], assumption, assumption, assumption)
    apply (rule yields_bind [OF un_prims(3) [OF d(2)]])
    apply (rule un_check_return [OF ready _ _ psize body])
    by simp_all
qed

lemma PCRRead_yields:
  assumes ready: "tpm_ready hw td k w0"
    and ans: "answers td k (be16 TPM_TAG_RQU_COMMAND @ be32 14 @ be32 TPM_ORD_PcrRead @ be32 pcr)
      (be16 tag @ be32 psize @ be32 res @ body) k'"
  shows "yields (\<lambda>w. w = w0) (TPM_PCRRead hw pcr)
    (if res \<noteq> 0 then Throw (ERROR_TPM (0x80 OR res))
     else if length body \<noteq> 20 \<or> tag \<noteq> TPM_TAG_RSP_COMMAND then Throw ERROR_TPM_BAD_OUTPUT_PARAM
     else Ok body) (cmd_done hw td k' w0 (w_heap w0) (w_sessions w0) (w_objs w0))"
  unfolding TPM_PCRRead_def Let_def
  apply (rule yields_bind [OF start_yields [OF ready]])
  apply (rule pack16, simp)
  apply (rule pack32, simp)
  apply (rule pack32, simp)
  apply (rule pack32, simp)
  apply (simp only: request_norm)
  apply (rule transmit_bind [OF ready ans], simp, simp)
  by (rule read20_yields [OF ready ans])

lemma Extend_yields:
  assumes ready: "tpm_ready hw td k w0" and digest: "length digest = 20"
    and ans: "answers td k (be16 TPM_TAG_RQU_COMMAND @ be32 34 @ be32 TPM_ORD_Extend @ be32 pcr @ digest)
      (be16 tag @ be32 psize @ be32 res @ body) k'"
  shows "yields (\<lambda>w. w = w0) (TPM_Extend hw pcr digest)
    (if res \<noteq> 0 then Throw (ERROR_TPM (0x80 OR res))
     else if length body \<noteq> 20 \<or> tag \<noteq> TPM_TAG_RSP_COMMAND then Throw ERROR_TPM_BAD_OUTPUT_PARAM
     else Ok body) (cmd_done hw td k' w0 (w_heap w0) (w_sessions w0) (w_objs w0))"
  unfolding TPM_Extend_def Let_def
  apply (rule yields_bind [OF start_yields [OF ready]])
  apply (rule pack16, simp)
  apply (rule pack32, simp)
  apply (rule pack32, simp)
  apply (rule pack32, simp)
  apply (rule pack20, rule digest, simp add: digest)
  apply (simp only: request_norm)
  apply (rule transmit_bind [OF ready ans], simp add: digest, simp add: digest)
  by (rule read20_yields [OF ready ans])

lemma Startup_yields:
  assumes ready: "tpm_ready hw td k w0"
    and ans: "answers td k (be16 TPM_TAG_RQU_COMMAND @ be32 12 @ be32 TPM_ORD_Startup @ be16 t)
      (be16 tag @ be32 psize @ be32 res @ body) k'"
  shows "yields (\<lambda>w. w = w0) (TPM_Startup hw t)
    (if res \<noteq> 0 then Throw (ERROR_TPM (0x80 OR res))
     else if body \<noteq> [] \<or> tag \<noteq> TPM_TAG_RSP_COMMAND then Throw ERROR_TPM_BAD_OUTPUT_PARAM
     else Ok ()) (cmd_done hw td k' w0 (w_heap w0) (w_sessions w0) (w_objs w0))"
proof -
  let ?left = "body @ drop (10 + length body) (w_out w0)"
  have body: "length body \<le> 1014" and psize: "psize = of_nat (10 + length body)"
    using ans by (auto simp: answers_def)
  have *: "yields (un_at w0 td k' (w_heap w0) (w_sessions w0) (w_objs w0) ?left 10 sha_wf hmac_wf)
      (check_out psize tag TPM_TAG_RSP_COMMAND)
      (if body \<noteq> [] \<or> tag \<noteq> TPM_TAG_RSP_COMMAND then Throw ERROR_TPM_BAD_OUTPUT_PARAM else Ok ())
      (cmd_done hw td k' w0 (w_heap w0) (w_sessions w0) (w_objs w0))"
    using un_check_return [OF ready _ _ psize body, of sha_wf hmac_wf 0 10 k' "w_heap w0" "w_sessions w0"
        "w_objs w0" ?left tag TPM_TAG_RSP_COMMAND "()"] by simp
  show ?thesis
    unfolding TPM_Startup_def Let_def
    apply (rule yields_bind [OF start_yields [OF ready]])
    apply (rule pack16, simp)
    apply (rule pack32, simp)
    apply (rule pack32, simp)
    apply (rule pack16, simp)
    apply (simp only: request_norm)
    apply (rule transmit_bind [OF ready ans], simp, simp)
    apply (rule un_header, rule un_at_done [OF ready], assumption, assumption, assumption)
    by (rule *)
qed

lemma GetRandom_yields:
  assumes ready: "tpm_ready hw td k w0" and req: "req \<le> 1010"
    and ans: "answers td k (be16 TPM_TAG_RQU_COMMAND @ be32 14 @ be32 TPM_ORD_GetRandom @ be32 req)
      (be16 tag @ be32 psize @ be32 res @ be32 m @ data) k'"
  shows "yields (\<lambda>w. w = w0) (TPM_GetRandom hw req)
    (if res \<noteq> 0 then Throw (ERROR_TPM (0x80 OR res))
     else if m \<noteq> req \<or> length data \<noteq> unat req \<or> tag \<noteq> TPM_TAG_RSP_COMMAND then Throw ERROR_TPM_BAD_OUTPUT_PARAM
     else Ok data) (cmd_done hw td k' w0 (w_heap w0) (w_sessions w0) (w_objs w0))"
    (is "yields _ _ (if res \<noteq> 0 then _ else ?r) ?Q")
proof -
  have data: "length data \<le> 1010" "4 + length data \<le> 1014" and psize: "psize = of_nat (10 + (4 + length data))"
    using ans by (auto simp: answers_def)
  have out: "length (w_out w0) = 1024" using ready by (simp add: tpm_ready_def)
  have req_nat: "unat req \<le> 1010" using req by (simp add: word_le_nat_alt)
  let ?at = "\<lambda>left n. un_at w0 td k' (w_heap w0) (w_sessions w0) (w_objs w0) left n sha_wf hmac_wf"
  let ?left = "data @ drop (14 + length data) (w_out w0)"
  obtain d left where d: "?left = d @ left" "length d = unat req" "length data = unat req \<longrightarrow> d = data"
    by (rule take_stale [of 14 data "unat req" "w_out w0"]) (use data req_nat out in auto)
  have rd: "yields (?at ?left 14) (un NoHash (unmarshal_array [] req)) (Ok d) (?at left (14 + req))"
    using un_NoHash [OF reads_array [OF d(2)], of _ "w_heap w0" "w_heap w0"] d(1,2) by simp
  have chk: "yields (?at left (14 + req)) (bindE (check_out psize tag TPM_TAG_RSP_COMMAND) (\<lambda>_. returnE d))
      (if 4 + length data \<noteq> 4 + unat req \<or> tag \<noteq> TPM_TAG_RSP_COMMAND then Throw ERROR_TPM_BAD_OUTPUT_PARAM else Ok d) ?Q"
    by (rule un_check_return [OF ready _ _ psize data(2)]) (use req_nat in simp_all)
  have "yields (?at (be32 m @ ?left) 10) (bindE (un NoHash (unmarshal_UINT32 0)) (\<lambda>rs.
      bindE (ERROR_if (req \<noteq> rs) ERROR_TPM_BAD_OUTPUT_PARAM) (\<lambda>_.
      bindE (un NoHash (unmarshal_array [] rs)) (\<lambda>r.
      bindE (check_out psize tag TPM_TAG_RSP_COMMAND) (\<lambda>_. returnE r))))) ?r ?Q"
  proof (rule yields_bind [OF un_prims(2)], cases "m = req")
    case True
    then show "yields (?at ?left (10 + 4)) (bindE (ERROR_if (req \<noteq> m) ERROR_TPM_BAD_OUTPUT_PARAM) (\<lambda>_.
      bindE (un NoHash (unmarshal_array [] m)) (\<lambda>r.
      bindE (check_out psize tag TPM_TAG_RSP_COMMAND) (\<lambda>_. returnE r)))) ?r ?Q"
      using yields_bind [OF rd, of "\<lambda>r. bindE (check_out psize tag TPM_TAG_RSP_COMMAND) (\<lambda>_. returnE r)", OF chk] d(3)
      by (auto split: if_splits)
  next
    case False
    then show "yields (?at ?left (10 + 4)) (bindE (ERROR_if (req \<noteq> m) ERROR_TPM_BAD_OUTPUT_PARAM) (\<lambda>_.
      bindE (un NoHash (unmarshal_array [] m)) (\<lambda>r.
      bindE (check_out psize tag TPM_TAG_RSP_COMMAND) (\<lambda>_. returnE r)))) ?r ?Q"
      by (auto intro: yields_weaken [OF yields_throwE un_at_done [OF ready]])
  qed
  then show ?thesis unfolding TPM_GetRandom_def Let_def
    apply -
    apply (rule yields_bind [OF start_yields [OF ready]])
    apply (rule pack16, simp)
    apply (rule pack32, simp)
    apply (rule pack32, simp)
    apply (rule pack32, simp)
    apply (simp only: request_norm)
    apply (rule transmit_bind [OF ready ans], simp, simp)
    apply (simp only: append_assoc)
    apply (rule un_header, rule un_at_done [OF ready], assumption, assumption, assumption)
    by simp
qed

section \<open>Sessions\<close>

lemma un_header_ok:
  assumes "yields (un_at w0 td k hp ss ob left 10 S H) (f tag psize) r Q"
  shows "yields (un_at w0 td k hp ss ob (be16 tag @ be32 psize @ be32 0 @ left) 0 S H)
     (bindE (un NoHash (unmarshal_UINT16 0)) (\<lambda>t. bindE (un NoHash (unmarshal_UINT32 0)) (\<lambda>p.
      bindE (un NoHash (unmarshal_UINT32 0)) (\<lambda>r. bindE (TPM_ERROR_if r) (\<lambda>_. f t p))))) r Q"
  apply (rule yields_bind, rule un_prims(1))
  apply (rule yields_bind, rule un_prims(2))
  apply (rule yields_bind, rule un_prims(2))
  using assms by (simp add: TPM_ERROR_if_def)

lemma un_check_ok:
  "n = psize \<Longrightarrow> yields (un_at w0 td k hp ss ob left n S H) (check_out psize tag tag) (Ok ())
     (un_at w0 td k hp ss ob left n S H)"
  using un_check_out [of w0 td k hp ss ob left n S H psize tag tag] by simp

lemma OSAP_yields:
  assumes ready: "tpm_ready hw td k w0" and nOdd: "length nOdd = 20" and nEven: "length nEven = 20" "length evenOSAP = 20"
    and ans: "answers td k (be16 TPM_TAG_RQU_COMMAND @ be32 36 @ be32 TPM_ORD_OSAP @ be16 et @ be32 ev @ nOdd)
      (be16 TPM_TAG_RSP_COMMAND @ be32 psize @ be32 0 @ be32 handle @ nEven @ evenOSAP) k'"
    and al: "alloc hp 49 (w_heap w0) = (Ok s, h1)" "s \<noteq> 0" "alloc hp 40 h1 = (Ok x, h2)" "x \<noteq> 0"
  shows "yields (\<lambda>w. w = w0) (TPM_OSAP hw hp junk et ev nOdd (Some i)) (Ok ())
    (cmd_done hw td k' w0 h2 ((w_sessions w0)[i := s])
      ((w_objs w0)(s := (w_objs w0 s)\<lparr>authHandle := handle, nonceEven := nEven,
         osap := Some \<lparr>nonceEvenOSAP = evenOSAP, nonceOddOSAP = nOdd\<rparr>\<rparr>)))"
proof -
  have psize: "psize = of_nat (10 + 44)" using ans nEven by (simp add: answers_def)
  show ?thesis unfolding TPM_OSAP_def Let_def
    apply (rule yields_ASSERT)
    apply (rule yields_bind [OF start_yields [OF ready]])
    apply (rule pack16, simp)
    apply (rule pack32, simp)
    apply (rule pack32, simp)
    apply (rule pack16, simp)
    apply (rule pack32, simp)
    apply (rule pack20, rule nOdd, simp add: nOdd)
    apply (simp only: request_norm)
    apply (rule transmit_bind [OF ready ans], simp add: nOdd, simp add: nOdd)
    apply (rule un_header_ok)
    apply (rule yields_bind [OF un_alloc [OF al(1)]])
    apply (rule yields_bind [OF un_set_session])
    apply (rule yields_bind [OF un_alloc [OF al(3)]])
    apply (rule yields_bind [OF un_set_sess [OF al(2)]])
    apply (simp only: append_assoc)
    apply (rule yields_bind [OF un_prims(2)])
    apply (rule yields_bind [OF un_set_sess [OF al(2)]])
    apply (rule yields_bind [OF un_prims(3) [OF nEven(1)]])
    apply (rule yields_bind [OF un_set_sess [OF al(2)]])
    apply (rule yields_bind [OF un_prims(3) [OF nEven(2)]])
    apply (rule yields_bind [OF un_set_sess [OF al(2)]])
    apply (rule yields_bind [OF un_check_ok], simp add: psize)
    apply (simp only: al(4) if_False, rule yields_weaken [OF un_set_sess [OF al(2)]])
    apply (drule un_at_done [OF ready, rotated 2], assumption, assumption)
    by simp_all
qed

lemma OIAP_yields:
  assumes ready: "tpm_ready hw td k w0" and nEven: "length nEven = 20"
    and ans: "answers td k (be16 TPM_TAG_RQU_COMMAND @ be32 10 @ be32 TPM_ORD_OIAP)
      (be16 TPM_TAG_RSP_COMMAND @ be32 psize @ be32 0 @ be32 handle @ nEven) k'"
    and al: "alloc hp 49 (w_heap w0) = (Ok s, h1)" "s \<noteq> 0"
  shows "yields (\<lambda>w. w = w0) (TPM_OIAP hw hp (Some i)) (Ok ())
    (cmd_done hw td k' w0 h1 ((w_sessions w0)[i := s])
      ((w_objs w0)(s := (w_objs w0 s)\<lparr>authHandle := handle, nonceEven := nEven, osap := None\<rparr>)))"
proof -
  have psize: "psize = of_nat (10 + 24)" using ans nEven by (simp add: answers_def)
  show ?thesis unfolding TPM_OIAP_def Let_def
    apply (rule yields_ASSERT)
    apply (rule yields_bind [OF start_yields [OF ready]])
    apply (rule pack16, simp)
    apply (rule pack32, simp)
    apply (rule pack32, simp)
    apply (simp only: request_norm)
    apply (rule transmit_bind [OF ready ans], simp, simp)
    apply (rule un_header_ok)
    apply (rule yields_bind [OF un_alloc [OF al(1)]])
    apply (rule yields_bind [OF un_set_session])
    apply (rule yields_ASSERT [OF _ al(2)])
    apply (simp only: append_assoc)
    apply (rule yields_bind [OF un_prims(2)])
    apply (rule yields_bind [OF un_set_sess [OF al(2)]])
    apply (rule yields_bind [OF un_prims(3) [OF nEven]])
    apply (rule yields_bind [OF un_set_sess [OF al(2)]])
    apply (rule yields_bind [OF un_set_sess [OF al(2)]])
    apply (rule yields_weaken [OF un_check_ok], simp add: psize)
    apply (drule un_at_done [OF ready, rotated 2], assumption, assumption)
    by simp_all
qed

section \<open>Properties\<close>

text \<open>
  C23: against a TPM that follows the TIS specification, \<open>TPM_Extend\<close> sends the \<open>TPM_ORD_Extend\<close>
  request for the given PCR and digest, in the TCG byte order, and nothing else. A result code
  other than 0 is thrown as a TPM error, an answer of another size or tag is rejected, and
  otherwise the 20 bytes the TPM returned are the result. Heap, sessions, screen and memory stay as they
  were and the TPM is ready again.
\<close>

theorem TPM_Extend_result:
  assumes "tpm_ready hw td k w0" "length digest = 20"
    and "answers td k (be16 TPM_TAG_RQU_COMMAND @ be32 34 @ be32 TPM_ORD_Extend @ be32 pcr @ digest)
      (be16 tag @ be32 psize @ be32 res @ body) k'"
  shows "\<exists>w. TPM_Extend hw pcr digest w0 =
      (if res \<noteq> 0 then Throw (ERROR_TPM (0x80 OR res))
       else if length body \<noteq> 20 \<or> tag \<noteq> TPM_TAG_RSP_COMMAND then Throw ERROR_TPM_BAD_OUTPUT_PARAM
       else Ok body, w) \<and>
    tpm_ready hw td k' w \<and> w_heap w = w_heap w0 \<and> w_sessions w = w_sessions w0 \<and>
    w_objs w = w_objs w0 \<and> outer w = outer w0"
  using yieldsD [OF Extend_yields [OF assms] refl] unfolding cmd_done_def by blast

text \<open>A TPM that gives one fixed answer after three polls and counts the commands.\<close>

definition fixed_run :: "bytes \<Rightarrow> nat run" where
  "fixed_run r k c = (3, r, Suc k)"

definition empty_heap :: heap where
  "empty_heap = (\<lambda>_. \<lparr>mn_size = 0, mn_next = 0\<rparr>)"

lemma sim_ready: "tpm_ready (sim_hw run (TIS_BASE + TIS_LOCALITY_2)) (sim_tpm run) k (sim_world k h)"
  by (simp add: tpm_ready_def sim_is_tis_device sim_wait_returns sim_world_def sha_wf_def hmac_wf_def
      sha1_ctx0_def hmac_ctx0_def)

lemma fixed_answers:
  "10 \<le> length r \<Longrightarrow> length r \<le> 1024 \<Longrightarrow> paramSize r = of_nat (length r) \<Longrightarrow>
   answers (sim_tpm (fixed_run r)) k q r (Suc k)"
  by (simp add: answers_def fixed_run_def)

theorem TPM_Extend_result_witness:
  "\<exists>w. TPM_Extend (sim_hw (fixed_run (be16 TPM_TAG_RSP_COMMAND @ be32 30 @ be32 0 @ replicate 20 7))
      (TIS_BASE + TIS_LOCALITY_2)) 19 (replicate 20 1) (sim_world 0 empty_heap) = (Ok (replicate 20 7), w) \<and>
    s_core (w_dev w) = 1"
proof -
  let ?r = "be16 TPM_TAG_RSP_COMMAND @ be32 30 @ be32 0 @ replicate 20 7"
  have a: "answers (sim_tpm (fixed_run ?r)) 0 q ?r (Suc 0)" for q
    by (rule fixed_answers) simp_all
  show ?thesis
    using TPM_Extend_result [where pcr = 19, OF sim_ready [where k = 0 and h = empty_heap] _ a, of "replicate 20 1"]
    by (auto simp: tpm_ready_def)
qed

text \<open>
  \<open>TPM_GetRandom\<close> returns exactly the bytes the TPM sent, and only when it sent as many
  as were asked for; a shorter or longer answer is \<open>ERROR_TPM_BAD_OUTPUT_PARAM\<close>.
\<close>

theorem TPM_GetRandom_result:
  assumes "tpm_ready hw td k w0" "req \<le> 1010"
    and "answers td k (be16 TPM_TAG_RQU_COMMAND @ be32 14 @ be32 TPM_ORD_GetRandom @ be32 req)
      (be16 tag @ be32 psize @ be32 res @ be32 m @ data) k'"
  shows "\<exists>w. TPM_GetRandom hw req w0 =
      (if res \<noteq> 0 then Throw (ERROR_TPM (0x80 OR res))
       else if m \<noteq> req \<or> length data \<noteq> unat req \<or> tag \<noteq> TPM_TAG_RSP_COMMAND
       then Throw ERROR_TPM_BAD_OUTPUT_PARAM else Ok data, w) \<and>
    tpm_ready hw td k' w \<and> w_heap w = w_heap w0 \<and> w_sessions w = w_sessions w0"
  using yieldsD [OF GetRandom_yields [OF assms] refl] unfolding cmd_done_def by blast

theorem TPM_GetRandom_result_witness:
  "\<exists>w. TPM_GetRandom (sim_hw (fixed_run (be16 TPM_TAG_RSP_COMMAND @ be32 17 @ be32 0 @ be32 3 @ [5, 6, 7]))
      (TIS_BASE + TIS_LOCALITY_2)) 20 (sim_world 0 empty_heap) = (Throw ERROR_TPM_BAD_OUTPUT_PARAM, w)"
proof -
  let ?r = "be16 TPM_TAG_RSP_COMMAND @ be32 17 @ be32 0 @ be32 3 @ [5, 6, 7]"
  have a: "answers (sim_tpm (fixed_run ?r)) 0 q ?r (Suc 0)" for q
    by (rule fixed_answers) simp_all
  show ?thesis
    using TPM_GetRandom_result [where req = 20, OF sim_ready [where k = 0 and h = empty_heap] _ a]
    by auto
qed

text \<open>
  \<open>TPM_OSAP\<close> opens a session: the session object it allocates holds the handle and the
  nonces of the answer and the caller's odd OSAP nonce, so that the shared secret can be
  computed from it, and the slot the caller named points to it.
\<close>

theorem TPM_OSAP_session:
  assumes "tpm_ready hw td k w0" "length nOdd = 20" "length nEven = 20" "length evenOSAP = 20"
    and "answers td k (be16 TPM_TAG_RQU_COMMAND @ be32 36 @ be32 TPM_ORD_OSAP @ be16 et @ be32 ev @ nOdd)
      (be16 TPM_TAG_RSP_COMMAND @ be32 psize @ be32 0 @ be32 handle @ nEven @ evenOSAP) k'"
    and "alloc hp 49 (w_heap w0) = (Ok s, h1)" "s \<noteq> 0" "alloc hp 40 h1 = (Ok x, h2)" "x \<noteq> 0"
    and "i < length (w_sessions w0)"
  shows "\<exists>w. TPM_OSAP hw hp junk et ev nOdd (Some i) w0 = (Ok (), w) \<and> tpm_ready hw td k' w \<and>
    w_heap w = h2 \<and> w_sessions w ! i = s \<and> authHandle (w_objs w s) = handle \<and>
    nonceEven (w_objs w s) = nEven \<and>
    osap (w_objs w s) = Some \<lparr>nonceEvenOSAP = evenOSAP, nonceOddOSAP = nOdd\<rparr>"
  using yieldsD [OF OSAP_yields [OF assms(1-9), where i = i and junk = junk] refl] assms(10)
  unfolding cmd_done_def by force

text \<open>A heap of 2 KB at \<open>0x1000\<close>.\<close>

definition heap2k :: heap where
  "heap2k = (\<lambda>_. \<lparr>mn_size = 255, mn_next = 0\<rparr>)"

lemma heap2k_rep: "heap_rep heap2k 0x1000 [(255, False)]"
  by (simp add: heap_rep_def heap2k_def is_node_def MEM_NODE_OCCUPIED_FLAG_def)

theorem TPM_OSAP_session_witness:
  "\<exists>w. TPM_OSAP (sim_hw (fixed_run (be16 TPM_TAG_RSP_COMMAND @ be32 54 @ be32 0 @ be32 9 @ replicate 20 2 @
      replicate 20 3)) (TIS_BASE + TIS_LOCALITY_2)) 0x1000 [] 4 5 (replicate 20 1) (Some 0)
      (sim_world 0 heap2k) = (Ok (), w) \<and> w_sessions w ! 0 = 0x1008 \<and> authHandle (w_objs w 0x1008) = 9"
proof -
  let ?r = "be16 TPM_TAG_RSP_COMMAND @ be32 54 @ be32 0 @ be32 9 @ replicate 20 2 @ replicate 20 3"
  have a: "answers (sim_tpm (fixed_run ?r)) 0 q ?r (Suc 0)" for q
    by (rule fixed_answers) simp_all
  obtain h1 where 1: "alloc 0x1000 49 heap2k = (Ok 0x1008, h1)" "heap_rep h1 0x1000 [(7, True), (247, False)]"
    using alloc_first_fit [OF heap2k_rep, of 49] by auto
  obtain h2 where 2: "alloc 0x1000 40 h1 = (Ok 0x1048, h2)"
    using alloc_first_fit [OF 1(2), of 40] by auto
  have *: "\<exists>w. TPM_OSAP (sim_hw (fixed_run ?r) (TIS_BASE + TIS_LOCALITY_2)) 0x1000 [] 4 5 (replicate 20 1) (Some 0)
      (sim_world 0 heap2k) = (Ok (), w) \<and> tpm_ready (sim_hw (fixed_run ?r) (TIS_BASE + TIS_LOCALITY_2))
      (sim_tpm (fixed_run ?r)) (Suc 0) w \<and> w_heap w = h2 \<and> w_sessions w ! 0 = 0x1008 \<and> authHandle (w_objs w 0x1008) = 9 \<and>
    nonceEven (w_objs w 0x1008) = replicate 20 2 \<and>
    osap (w_objs w 0x1008) = Some \<lparr>nonceEvenOSAP = replicate 20 3, nonceOddOSAP = replicate 20 1\<rparr>"
    by (rule TPM_OSAP_session [OF sim_ready _ _ _ a, where s = "0x1008" and x = "0x1048" and ?h1.0 = h1]) (use 1(1) 2 in \<open>simp_all add: sim_world_def\<close>)
  then show ?thesis by blast
qed

end
