(* ===== verification/TPM_Auth.thy ===== *)
theory TPM_Auth
  imports TPM_Correct
begin

text \<open>
  The authorised TPM commands: how the HMACs of requests and responses enter, and that a response
  is accepted exactly when the TPM's HMAC over it is right.
\<close>

section \<open>Authorised commands\<close>

definition response_auth :: "bytes \<Rightarrow> bytes \<Rightarrow> bytes \<Rightarrow> bytes \<Rightarrow> u8 \<Rightarrow> bytes" where
  "response_auth key digest nEven nOdd cont = HMAC_SHA1 key (digest @ nEven @ nOdd @ [cont])"

lemma length_response_auth [simp]: "length (response_auth key digest nEven nOdd cont) = 20"
  by (simp add: response_auth_def)

lemma un_prims_hashed:
  "length x + 4 < 2 ^ 29 \<Longrightarrow> yields (un_at w0 td k hp ss ob (be32 v @ left) n (sha_inv x) H)
     (un Sctx (unmarshal_UINT32 0)) (Ok v) (un_at w0 td k hp ss ob left (n + 4) (sha_inv (x @ be32 v)) H)"
  "length y + 20 < 2 ^ 28 \<Longrightarrow> length d = 20 \<Longrightarrow> yields (un_at w0 td k hp ss ob (d @ left) n S (hmac_inv K y))
     (un Hctx (unmarshal_array [] 20)) (Ok d) (un_at w0 td k hp ss ob left (n + 20) S (hmac_inv K (y @ d)))"
  "length y + 1 < 2 ^ 28 \<Longrightarrow> yields (un_at w0 td k hp ss ob ([b] @ left) n S (hmac_inv K y))
     (un Hctx (unmarshal_BYTE 0)) (Ok b) (un_at w0 td k hp ss ob left (n + 1) S (hmac_inv K (y @ [b])))"
  using un_Sctx [OF reads_UINT32 [of _ 0 v], where hp = hp and hp' = hp and x = x and n = n]
    un_Hctx [OF reads_array [of d 20], where hp = hp and hp' = hp and x = y and n = n]
    un_Hctx [OF reads_BYTE [of _ 0 b], where hp = hp and hp' = hp and x = y and n = n] by simp_all

lemma un_auth_out_start:
  assumes s: "s \<noteq> 0" "length (nonceOdd (ob s)) = 20" and H: "\<And>c. H c \<Longrightarrow> hmac_wf c"
    and len: "length key = 20" "length d = 20" "length nEven = 20"
  shows "yields (un_at w0 td k hp ss ob (nEven @ [cont] @ left) n (digest_is d) H) (auth_out_start s key) (Ok ())
    (un_at w0 td k hp ss (ob(s := (ob s)\<lparr>nonceEven := nEven, continueAuthSession := cont\<rparr>)) left (n + 21)
      (digest_is d) (hmac_inv key (d @ nEven @ nonceOdd (ob s) @ [cont])))"
proof -
  show ?thesis unfolding auth_out_start_def
    apply (rule yields_bind [OF un_hmac_init], erule H, rule len)
    apply (rule yields_getE [where a = d], simp add: un_at_def digest_is_def)
    apply (rule yields_bind [OF unh_Hctx_20 [OF _ len(2)]], simp)
    apply (simp only: append_Nil)
    apply (rule yields_bind [OF un_prims_hashed(2)], simp add: len, rule len)
    apply (rule yields_bind [OF un_set_sess [OF s(1)]])
    apply (rule un_sess [OF s(1)])
    apply (rule yields_bind [OF unh_Hctx_20], simp add: len, simp add: s(2))
    apply (rule yields_bind [OF un_prims_hashed(3)], simp add: len s(2))
    apply (rule yields_weaken [OF un_set_sess [OF s(1)]])
    by (simp add: add.commute)
qed

lemma un_auth_out:
  assumes s: "s \<noteq> 0" "length (nonceOdd (ob s)) = 20" and H: "\<And>c. H c \<Longrightarrow> hmac_wf c"
    and len: "length key = 20" "length d = 20" "length nEven = 20" "length a = 20"
  shows "yields (un_at w0 td k hp ss ob (nEven @ [cont] @ a @ left) n (digest_is d) H) (auth_out s key) (Ok a)
    (un_at w0 td k hp ss (ob(s := (ob s)\<lparr>nonceEven := nEven, continueAuthSession := cont\<rparr>)) left (n + 41)
      (digest_is d) (mac_is (response_auth key d nEven (nonceOdd (ob s)) cont)))"
  unfolding auth_out_def
  apply (rule yields_bind, rule un_auth_out_start, rule s, rule s, erule H, rule len, rule len, rule len)
  apply (rule yields_bind [OF un_prims(3) [OF len(4)]])
  apply (rule yields_bind [OF un_hmac_finish])
  apply (rule yields_weaken [OF yields_returnE])
  by (simp add: response_auth_def add.commute)

text \<open>The header of an authorised response, whose result code and ordinal are hashed.\<close>

lemma un_auth_header:
  assumes S: "\<And>c. S c \<Longrightarrow> sha_wf c"
    and "yields (un_at w0 td k hp ss ob left 10 (sha_inv (be32 0 @ be32 ord)) H) (f tag psize) r Q"
  shows "yields (un_at w0 td k hp ss ob (be16 tag @ be32 psize @ be32 0 @ left) 0 S H)
     (bindE (on_s sha1_init) (\<lambda>_.
      bindE (un NoHash (unmarshal_UINT16 0)) (\<lambda>t. bindE (un NoHash (unmarshal_UINT32 0)) (\<lambda>p.
      bindE (un Sctx (unmarshal_UINT32 0)) (\<lambda>r. bindE (TPM_ERROR_if r) (\<lambda>_.
      bindE (unh Sctx (unmarshal_UINT32 ord)) (\<lambda>_. f t p))))))) r Q"
  apply (rule yields_bind [OF un_sha1_init], erule S)
  apply (rule yields_bind, rule un_prims(1))
  apply (rule yields_bind, rule un_prims(2))
  apply (rule yields_bind [OF un_prims_hashed(1)], simp)
  apply (simp add: TPM_ERROR_if_def)
  apply (rule yields_bind [OF unh_Sctx_UINT32], simp)
  by (rule assms(2))

lemma session_of_pk:
  assumes "i < length (w_sessions w0)"
  shows "yields (\<lambda>w. w = w0) (c (w_sessions w0 ! i)) r Q \<Longrightarrow> yields (\<lambda>w. w = w0) (bindE (session_of (Some i)) c) r Q"
  using assms by (simp add: yields_def session_of_def bindE_def getE_def returnE_def)

lemma un_check_auth_ok:
  "length a = 20 \<Longrightarrow> length m = 20 \<Longrightarrow>
   yields (un_at w0 td k hp ss ob left n S (mac_is m)) (check_auth a)
     (if a = m then Ok () else Throw ERROR_TPM_BAD_OUTPUT_AUTH) (un_at w0 td k hp ss ob left n S (mac_is m))"
  using un_check_auth [of a m] by (cases "a = m") auto

lemma yields_check_auth:
  assumes "length a = 20" "length m = 20"
    and "a = m \<Longrightarrow> yields (un_at w0 td k hp ss ob left n S (mac_is m)) c r Q"
    and "\<And>w. un_at w0 td k hp ss ob left n S (mac_is m) w \<Longrightarrow> Q w"
  shows "yields (un_at w0 td k hp ss ob left n S (mac_is m)) (bindE (check_auth a) (\<lambda>_. c))
    (if a = m then r else Throw ERROR_TPM_BAD_OUTPUT_AUTH) Q"
proof (cases "a = m")
  case True
  then have "yields (un_at w0 td k hp ss ob left n S (mac_is m)) (check_auth a) (Ok ())
      (un_at w0 td k hp ss ob left n S (mac_is m))"
    using un_check_auth_ok [OF assms(1,2)] by simp
  from yields_bind [where k = "\<lambda>_. c", OF this assms(3) [OF True]] True show ?thesis by simp
next
  case False
  then have "yields (un_at w0 td k hp ss ob left n S (mac_is m)) (check_auth a) (Throw ERROR_TPM_BAD_OUTPUT_AUTH) Q"
    using yields_weaken [OF un_check_auth_ok [OF assms(1,2)] assms(4)] by simp
  then show ?thesis using False by (simp add: yields_throw)
qed

text \<open>The inputs and outputs of \<open>TPM_NV_WriteValueAuth\<close> that the authorisation covers.\<close>

lemmas pack32S = yields_bind [OF pk_Sctx [OF emits_UINT(3)]]

lemma NV_WriteValueAuth_yields:
  fixes s i w0
  defines "ob \<equiv> w_objs w0"
  assumes ready: "tpm_ready hw td k w0" and s: "i < length (w_sessions w0)" "w_sessions w0 ! i = s" "s \<noteq> 0" "sess_wf (ob s)"
    and len: "length nv_auth = 20" "length data = unat dsize" "dsize \<le> 900" "length nEven = 20" "length a = 20"
    and dg: "dg = SHA1_hash (be32 TPM_ORD_NV_WriteValueAuth @ be32 idx @ be32 off @ be32 dsize @ data)"
    and ans: "answers td k (be16 TPM_TAG_RQU_AUTH1_COMMAND @ be32 (67 + dsize) @ be32 TPM_ORD_NV_WriteValueAuth @
        be32 idx @ be32 off @ be32 dsize @ data @ auth_block nv_auth dg (ob s))
      (be16 TPM_TAG_RSP_AUTH1_COMMAND @ be32 psize @ be32 0 @ nEven @ [cont] @ a) k'"
  shows "yields (\<lambda>w. w = w0) (TPM_NV_WriteValueAuth hw data dsize idx off nv_auth (Some i))
    (if a = response_auth nv_auth (SHA1_hash (be32 0 @ be32 TPM_ORD_NV_WriteValueAuth)) nEven (nonceOdd (ob s)) cont
     then Ok () else Throw ERROR_TPM_BAD_OUTPUT_AUTH)
    (cmd_done hw td k' w0 (w_heap w0) (if cont = 0 then (w_sessions w0)[i := 0] else w_sessions w0)
      (ob(s := (ob s)\<lparr>nonceEven := nEven, continueAuthSession := cont\<rparr>)))"
proof -
  have psize: "psize = of_nat (10 + 41)" using ans len by (simp add: answers_def)
  have d: "unat dsize \<le> 900" using len(3) by (simp add: word_le_nat_alt)
  have "of_nat (unat dsize) = dsize" by simp
  then have n: "67 + dsize = (of_nat (6 + length (be32 TPM_ORD_NV_WriteValueAuth @ be32 idx @ be32 off @ be32 dsize @
      data @ auth_block nv_auth dg (ob s))) :: u32)" using s(4) len(2) by (simp add: algebra_simps)
  have sz: "2 + 4 + 4 + 4 + 4 + 4 + dsize + 4 + 20 + 1 + 20 = 67 + dsize" by simp
  show ?thesis unfolding TPM_NV_WriteValueAuth_def Let_def sz
    apply (rule yields_ASSERT)
    apply (rule session_of_pk [OF s(1)], unfold s(2))
    apply (rule yields_bind [OF start_yields [OF ready]])
    apply (rule yields_bind [OF pk_sha1_init], assumption)
    apply (rule pack16, simp)
    apply (rule pack32, simp)
    apply (rule pack32S, simp, simp)
    apply (rule pack32S, simp, simp)
    apply (rule pack32S, simp, simp)
    apply (rule pack32S, simp, simp)
    apply (rule yields_bind [OF pk_Sctx [OF emits_array]], simp add: len, use d in simp, use d in simp)
    apply (rule yields_bind [OF pk_sha1_finish])
    apply (simp only: append_assoc append_Nil take_all [OF eq_imp_le [OF len(2)]] dg [symmetric])
    apply (rule yields_bind [OF pk_auth_in], rule s, use s(4) in \<open>simp add: ob_def\<close>, assumption, rule len,
      simp add: dg, use len d in simp)
    apply (simp only: append_assoc ob_def [symmetric])
    apply (rule transmit_bind [OF ready ans n], use s len d in simp)
    apply (rule un_auth_header, erule digest_is_wf)
    apply (rule yields_bind [OF un_sha1_finish])
    apply (simp only: append_assoc ob_def [symmetric])
    apply (rule yields_bind [OF un_auth_out], rule s, use s(4) in \<open>simp add: sess_wf_def\<close>, erule mac_is_wf,
      rule len, simp, rule len, rule len)
    apply (rule yields_bind [OF un_check_ok], simp add: psize)
    apply (rule yields_bind [OF un_end_session [OF s(3)]])
    apply (rule yields_weaken [OF un_check_auth_ok], rule len, simp)
    apply (drule un_at_done [OF ready digest_is_wf mac_is_wf, rotated 2], assumption, assumption)
    by simp_all
qed

lemma un_ptr_hashed:
  assumes "length d = unat n" "allocates p [n] hp hp'" "length x + unat n < 2 ^ 29"
  shows "yields (un_at w0 td k hp ss ob (d @ left) m (sha_inv x) H) (un Sctx (unmarshal_ptr p n)) (Ok d)
    (un_at w0 td k hp' ss ob left (m + n) (sha_inv (x @ d)) H)"
  using un_Sctx [OF reads_ptr [OF assms(1), of p] assms(2), of x] assms(1,3) by simp






text \<open>The packing phase of \<open>TPM_Unseal\<close> and its exchange.\<close>

lemma sizeof_enc_STORED_DATA12:
  "wf_STORED_DATA12 d \<Longrightarrow> sizeof_TPM_STORED_DATA12 d = of_nat (length (enc_STORED_DATA12 d))"
  by (simp add: sizeof_TPM_STORED_DATA12_def length_enc_STORED_DATA12)

lemma Unseal_request:
  fixes w0
  defines "ob \<equiv> w_objs w0"
  assumes ready: "tpm_ready hw td k w0"
    and i: "i < length (w_sessions w0)" "w_sessions w0 ! i = p" "p \<noteq> 0" "sess_wf (ob p)"
    and j: "j < length (w_sessions w0)" "w_sessions w0 ! j = q" "q \<noteq> 0" "sess_wf (ob q)"
    and len: "length pa = 20" "length da = 20" "length (enc_STORED_DATA12 b) \<le> 900" and b: "wf_STORED_DATA12 b"
    and dg: "dg = SHA1_hash (be32 TPM_ORD_Unseal @ enc_STORED_DATA12 b)"
    and ans: "answers td k (be16 TPM_TAG_RQU_AUTH2_COMMAND @ be32 (104 + sizeof_TPM_STORED_DATA12 b) @
        be32 TPM_ORD_Unseal @ be32 kh @ enc_STORED_DATA12 b @ auth_block pa dg (ob p) @ auth_block da dg (ob q))
      (be16 tag @ be32 psize @ be32 res @ body) k'"
    and rest: "yields (un_at w0 td k' (w_heap w0) (w_sessions w0) ob
      (be16 tag @ be32 psize @ be32 res @ body @ drop (10 + length body) (w_out w0)) 0
      (digest_is dg) (mac_is (request_auth da dg (ob q)))) m r Q"
  shows "yields (\<lambda>w. w = w0)
     (bindE start_pack (\<lambda>_.
      bindE (on_s sha1_init) (\<lambda>_.
      bindE (pk NoHash (marshal_UINT16 TPM_TAG_RQU_AUTH2_COMMAND)) (\<lambda>_.
      bindE (pk NoHash (marshal_UINT32 (104 + sizeof_TPM_STORED_DATA12 b))) (\<lambda>_.
      bindE (pk Sctx (marshal_UINT32 TPM_ORD_Unseal)) (\<lambda>_.
      bindE (pk NoHash (marshal_UINT32 kh)) (\<lambda>_.
      bindE (pk Sctx (marshal_TPM_STORED_DATA12 b)) (\<lambda>_.
      bindE (on_s sha1_finish) (\<lambda>_.
      bindE (auth_in p pa) (\<lambda>_.
      bindE (auth_in q da) (\<lambda>_.
      bindE (transmit hw (104 + sizeof_TPM_STORED_DATA12 b)) (\<lambda>_. m)))))))))))) r Q"
proof -
  have n: "104 + sizeof_TPM_STORED_DATA12 b = (of_nat (6 + length (be32 TPM_ORD_Unseal @ be32 kh @ enc_STORED_DATA12 b @
      auth_block pa dg (ob p) @ auth_block da dg (ob q))) :: u32)"
    using i(4) j(4) by (simp add: sizeof_enc_STORED_DATA12 [OF b] algebra_simps)
  show ?thesis
    apply (rule yields_bind [OF start_yields [OF ready]])
    apply (rule yields_bind [OF pk_sha1_init], assumption)
    apply (rule pack16, simp)
    apply (rule pack32, simp)
    apply (rule pack32S, simp, simp)
    apply (rule pack32, simp)
    apply (rule yields_bind [OF pk_Sctx [OF emits_STORED_DATA12 [OF b]]], use len in simp, use len in simp)
    apply (rule yields_bind [OF pk_sha1_finish])
    apply (simp only: append_assoc append_Nil dg [symmetric])
    apply (rule yields_bind [OF pk_auth_in], rule i, use i(4) in \<open>simp add: ob_def\<close>, assumption, rule len,
      simp add: dg, use len in simp)
    apply (rule yields_bind [OF pk_auth_in], rule j, use j(4) in \<open>simp add: ob_def\<close>, erule mac_is_wf, rule len,
      simp add: dg, use len i(4) in \<open>simp add: ob_def\<close>)
    apply (simp only: append_assoc ob_def [symmetric])
    apply (rule transmit_bind [OF ready ans n], use i j len in simp)
    apply (unfold ob_def)
    by (rule rest [unfolded ob_def])
qed

lemma cont_updated: "continueAuthSession (x\<lparr>nonceEven := e, continueAuthSession := c\<rparr>) = c"
  by simp

lemma Unseal_response:
  fixes w0
  assumes ready: "tpm_ready hw td k0 w0"
    and s: "p \<noteq> 0" "q \<noteq> 0" "p \<noteq> q" "sess_wf (ob p)" "sess_wf (ob q)" "i \<noteq> j" "length ss > max i j"
    and len: "length pa = 20" "length da = 20" "length data = unat n" "length e1 = 20" "length a1 = 20"
      "length e2 = 20" "length a2 = 20" "unat n \<le> 900"
    and al: "allocates hp [n] h h1" and psize: "psize = of_nat (10 + (4 + unat n + 82))"
    and rd: "rd = SHA1_hash (be32 0 @ be32 TPM_ORD_Unseal @ be32 n @ data)"
    and S: "\<And>c. S c \<Longrightarrow> sha_wf c" and H: "\<And>c. H c \<Longrightarrow> hmac_wf c"
  shows "yields (un_at w0 td k h ss ob
      (be16 TPM_TAG_RSP_AUTH2_COMMAND @ be32 psize @ be32 0 @ be32 n @ data @ e1 @ [c1] @ a1 @ e2 @ [c2] @ a2 @ left) 0 S H)
     (bindE (on_s sha1_init) (\<lambda>_.
      bindE (un NoHash (unmarshal_UINT16 0)) (\<lambda>tag_out.
      bindE (un NoHash (unmarshal_UINT32 0)) (\<lambda>paramSize_out.
      bindE (un Sctx (unmarshal_UINT32 0)) (\<lambda>res.
      bindE (TPM_ERROR_if res) (\<lambda>_.
      bindE (unh Sctx (unmarshal_UINT32 TPM_ORD_Unseal)) (\<lambda>_.
      bindE (un Sctx (unmarshal_UINT32 0)) (\<lambda>dataSize.
      bindE (un Sctx (unmarshal_ptr hp dataSize)) (\<lambda>data.
      bindE (on_s sha1_finish) (\<lambda>_.
      bindE (auth_out p pa) (\<lambda>resAuth_out.
      bindE (end_session (Some i) p) (\<lambda>_.
      bindE (check_auth resAuth_out) (\<lambda>_.
      bindE (auth_out q da) (\<lambda>dataAuth_out.
      bindE (check_out paramSize_out tag_out TPM_TAG_RSP_AUTH2_COMMAND) (\<lambda>_.
      bindE (check_auth dataAuth_out) (\<lambda>_.
      bindE (end_session (Some j) q) (\<lambda>_.
      returnE \<lparr>hd_dataSize = dataSize, hd_data = data\<rparr>)))))))))))))))))
    (if a1 = response_auth pa rd e1 (nonceOdd (ob p)) c1 \<and> a2 = response_auth da rd e2 (nonceOdd (ob q)) c2
     then Ok \<lparr>hd_dataSize = n, hd_data = data\<rparr> else Throw ERROR_TPM_BAD_OUTPUT_AUTH)
    (\<lambda>w. tpm_ready hw td k w \<and> w_heap w = h1 \<and> w_sessions w ! i = (if c1 = 0 then 0 else ss ! i))"
    (is "yields _ _ ?r ?Q")
proof -
  let ?ob1 = "ob(p := (ob p)\<lparr>nonceEven := e1, continueAuthSession := c1\<rparr>)"
  let ?ss1 = "if c1 = 0 then ss[i := 0] else ss"
  let ?m1 = "response_auth pa rd e1 (nonceOdd (ob p)) c1" and ?m2 = "response_auth da rd e2 (nonceOdd (ob q)) c2"
  have Q: "?Q w" if "un_at w0 td k h1 ss' ob' l x (digest_is rd) (mac_is y) w" "ss' ! i = (if c1 = 0 then 0 else ss ! i)"
    for w ss' ob' l x y
    using un_at_done [OF ready digest_is_wf mac_is_wf that(1)] that(2) by (auto simp: cmd_done_def)
  have obq: "?ob1 q = ob q" using s(3) by simp
  have r: "?r = (if a1 = ?m1 then if a2 = ?m2 then Ok \<lparr>hd_dataSize = n, hd_data = data\<rparr>
      else Throw ERROR_TPM_BAD_OUTPUT_AUTH else Throw ERROR_TPM_BAD_OUTPUT_AUTH)" by simp
  have ss1: "?ss1 ! i = (if c1 = 0 then 0 else ss ! i)" using s(7) by simp
  have tail: "yields (un_at w0 td k h1 ?ss1 ?ob1 (e2 @ [c2] @ a2 @ left) (10 + 4 + n + 41) (digest_is rd) (mac_is ?m1))
     (bindE (auth_out q da) (\<lambda>dataAuth_out.
      bindE (check_out psize TPM_TAG_RSP_AUTH2_COMMAND TPM_TAG_RSP_AUTH2_COMMAND) (\<lambda>_.
      bindE (check_auth dataAuth_out) (\<lambda>_.
      bindE (end_session (Some j) q) (\<lambda>_.
      returnE \<lparr>hd_dataSize = n, hd_data = data\<rparr>)))))
     (if a2 = ?m2 then Ok \<lparr>hd_dataSize = n, hd_data = data\<rparr> else Throw ERROR_TPM_BAD_OUTPUT_AUTH) ?Q"
    apply (rule yields_bind [OF un_auth_out], rule s, use s in \<open>simp add: sess_wf_def\<close>, erule mac_is_wf,
      rule len, simp add: rd, rule len, rule len)
    apply (rule yields_bind [OF un_check_ok], simp add: psize)
    apply (simp only: obq, rule yields_check_auth [OF len(7)], simp)
    apply (rule yields_bind [OF un_end_session [OF s(2)]])
    apply (rule yields_weaken [OF yields_returnE], erule Q, use s(6,7) in simp)
    by (erule Q, rule ss1)
  show ?thesis
    apply (rule un_auth_header, erule S)
    apply (rule yields_bind [OF un_prims_hashed(1)], simp)
    apply (rule yields_bind [OF un_ptr_hashed [OF len(3) al]], use len(8) in simp)
    apply (rule yields_bind [OF un_sha1_finish])
    apply (simp only: append_assoc rd [symmetric])
    apply (rule yields_bind [OF un_auth_out], rule s, use s in \<open>simp add: sess_wf_def\<close>, erule H,
      rule len, simp add: rd, rule len, rule len)
    apply (rule yields_bind [OF un_end_session [OF s(1)]])
    apply (simp only: r fun_upd_same cont_updated)
    apply (rule yields_check_auth [OF len(5)], simp)
    apply (rule tail)
    by (erule Q, rule ss1)
qed

lemma Unseal_yields:
  fixes w0
  defines "ob \<equiv> w_objs w0"
  assumes ready: "tpm_ready hw td k w0"
    and i: "i < length (w_sessions w0)" "w_sessions w0 ! i = p" "p \<noteq> 0" "sess_wf (ob p)"
    and j: "j < length (w_sessions w0)" "w_sessions w0 ! j = q" "q \<noteq> 0" "sess_wf (ob q)" and pq: "i \<noteq> j" "p \<noteq> q"
    and len: "length pa = 20" "length da = 20" "length (enc_STORED_DATA12 b) \<le> 900" and b: "wf_STORED_DATA12 b"
    and out: "length data = unat n" "length e1 = 20" "length a1 = 20" "length e2 = 20" "length a2 = 20" "unat n \<le> 900"
    and al: "allocates hp [n] (w_heap w0) h1"
    and dg: "dg = SHA1_hash (be32 TPM_ORD_Unseal @ enc_STORED_DATA12 b)"
    and rd: "rd = SHA1_hash (be32 0 @ be32 TPM_ORD_Unseal @ be32 n @ data)"
    and ans: "answers td k (be16 TPM_TAG_RQU_AUTH2_COMMAND @ be32 (104 + sizeof_TPM_STORED_DATA12 b) @
        be32 TPM_ORD_Unseal @ be32 kh @ enc_STORED_DATA12 b @ auth_block pa dg (ob p) @ auth_block da dg (ob q))
      (be16 TPM_TAG_RSP_AUTH2_COMMAND @ be32 psize @ be32 0 @ be32 n @ data @ e1 @ [c1] @ a1 @ e2 @ [c2] @ a2) k'"
  shows "yields (\<lambda>w. w = w0) (TPM_Unseal hw hp b kh pa (Some i) da (Some j))
    (if a1 = response_auth pa rd e1 (nonceOdd (ob p)) c1 \<and> a2 = response_auth da rd e2 (nonceOdd (ob q)) c2
     then Ok \<lparr>hd_dataSize = n, hd_data = data\<rparr> else Throw ERROR_TPM_BAD_OUTPUT_AUTH)
    (\<lambda>w. tpm_ready hw td k' w \<and> w_heap w = h1 \<and>
      w_sessions w ! i = (if c1 = 0 then 0 else p))"
proof -
  have psize: "psize = of_nat (10 + (4 + unat n + 82))" using ans out by (simp add: answers_def algebra_simps)
  have sz: "2 + 4 + 4 + 4 + sizeof_TPM_STORED_DATA12 b + 4 + 20 + 1 + 20 + 4 + 20 + 1 + 20 = 104 + sizeof_TPM_STORED_DATA12 b"
    by simp
  show ?thesis unfolding TPM_Unseal_def Let_def sz
    apply (rule yields_ASSERT)
    apply (rule session_of_pk [OF i(1)], unfold i(2))
    apply (rule session_of_pk [OF j(1)], unfold j(2))
    apply (rule Unseal_request [OF ready i(1-3) i(4)[unfolded ob_def] j(1-3) j(4)[unfolded ob_def] len b dg ans[unfolded ob_def]])
    apply (simp only: append_assoc)
    apply (fold ob_def)
    apply (rule yields_weaken, rule Unseal_response [OF ready i(3) j(3) pq(2) i(4) j(4) pq(1) _ len(1,2) out al psize rd])
    using i j by (auto dest: digest_is_wf mac_is_wf)
qed

lemma Seal_yields:
  fixes s i w0 sealx
  defines "ob \<equiv> w_objs w0" and "ord \<equiv> if sealx then TPM_ORD_Sealx else TPM_ORD_Seal"
  assumes ready: "tpm_ready hw td k w0" and s: "i < length (w_sessions w0)" "w_sessions w0 ! i = s" "s \<noteq> 0" "sess_wf (ob s)"
    and pcr: "wf_PCR_INFO_LONG pcr" "length (enc_PCR_INFO_LONG pcr) \<le> 400"
    and len: "length encAuth = 20" "length secret = 20" "length data = unat n" "n \<le> 400"
    and ret: "wf_STORED_DATA12 ret" "trim_STORED_DATA12 ret = ret" "length (enc_STORED_DATA12 ret) \<le> 900"
      "length nEven = 20" "length a = 20"
    and al: "allocates hp [sealInfoSize ret, encDataSize ret] (w_heap w0) h1"
    and dg: "dg = SHA1_hash (be32 ord @ encAuth @ be32 (sizeof_TPM_PCR_INFO_LONG pcr) @ enc_PCR_INFO_LONG pcr @ be32 n @ data)"
    and ans: "answers td k (be16 TPM_TAG_RQU_AUTH1_COMMAND @ be32 (87 + sizeof_TPM_PCR_INFO_LONG pcr + n) @ be32 ord @
        be32 kh @ encAuth @ be32 (sizeof_TPM_PCR_INFO_LONG pcr) @ enc_PCR_INFO_LONG pcr @ be32 n @ data @ auth_block secret dg (ob s))
      (be16 TPM_TAG_RSP_AUTH1_COMMAND @ be32 psize @ be32 0 @ enc_STORED_DATA12 ret @ nEven @ [cont] @ a) k'"
  shows "yields (\<lambda>w. w = w0) (TPM_Seal sealx hw hp kh encAuth pcr data n (Some i) secret)
    (if a = response_auth secret (SHA1_hash (be32 0 @ be32 ord @ enc_STORED_DATA12 ret)) nEven (nonceOdd (ob s)) cont
     then if cont = 0 then Ok ret else Throw ERROR_TPM_BAD_OUTPUT_PARAM else Throw ERROR_TPM_BAD_OUTPUT_AUTH)
    (\<lambda>w. tpm_ready hw td k' w \<and> w_heap w = h1)"
    (is "yields _ _ _ ?Q")
proof -
  let ?e = "enc_STORED_DATA12 ret" and ?r = "SHA1_hash (be32 0 @ be32 ord @ enc_STORED_DATA12 ret)"
  have psize: "psize = of_nat (10 + (length ?e + 41))" using ans ret by (simp add: answers_def algebra_simps)
  have n: "unat n \<le> 400" using len(4) by (simp add: word_le_nat_alt)
  have len_enc: "of_nat (length (enc_PCR_INFO_LONG pcr)) = sizeof_TPM_PCR_INFO_LONG pcr"
    by (simp add: length_enc_PCR_INFO_LONG [OF pcr(1)] sizeof_TPM_PCR_INFO_LONG_def sizeof_TPM_PCR_SELECTION_def)
  have "of_nat (unat n) = n" by simp
  then have sum: "87 + sizeof_TPM_PCR_INFO_LONG pcr + n = (of_nat (6 + length (be32 ord @ be32 kh @ encAuth @
      be32 (sizeof_TPM_PCR_INFO_LONG pcr) @ enc_PCR_INFO_LONG pcr @ be32 n @ data @ auth_block secret dg (ob s))) :: u32)"
    using s(4) len by (simp add: len_enc algebra_simps)
  have sz: "2 + 4 + 4 + 4 + 20 + 4 + sizeof_TPM_PCR_INFO_LONG pcr + 4 + n + 4 + 20 + 1 + 20 =
      87 + sizeof_TPM_PCR_INFO_LONG pcr + n" by simp
  have Q: "?Q w" if "un_at w0 td k' h1 ss' ob' l x (digest_is y) (mac_is z) w" for w ss' ob' l x y z
    using un_at_done [OF ready digest_is_wf mac_is_wf that] by (simp add: cmd_done_def)
  have tail: "yields (un_at w0 td k' h1 ss' ob' l x (digest_is y) (mac_is z))
      (bindE (ERROR_if (cont \<noteq> 0) ERROR_TPM_BAD_OUTPUT_PARAM) (\<lambda>_. bindE (set_session (the (Some i)) 0) (\<lambda>_. returnE ret)))
      (if cont = 0 then Ok ret else Throw ERROR_TPM_BAD_OUTPUT_PARAM) ?Q" for ss' ob' l x y z
    by (cases "cont = 0")
      (auto simp: intro!: yields_bind [OF un_set_session] yields_weaken [OF yields_returnE] yields_weaken [OF yields_throwE] Q)
  show ?thesis unfolding TPM_Seal_def Let_def sz ord_def [symmetric]
    apply (rule yields_ASSERT)
    apply (rule session_of_pk [OF s(1)], unfold s(2))
    apply (rule yields_bind [OF start_yields [OF ready]])
    apply (rule yields_bind [OF pk_sha1_init], assumption)
    apply (rule pack16, simp)
    apply (rule pack32, simp)
    apply (rule pack32S, simp, simp)
    apply (rule pack32, simp)
    apply (rule yields_bind [OF pk_Sctx [OF emits_20 [OF len(1)]]], simp add: len, simp add: len)
    apply (rule pack32S, simp add: len, simp add: len)
    apply (rule yields_bind [OF pk_Sctx [OF emits_PCR_INFO_LONG [OF pcr(1)]]], use pcr len in simp, use pcr len in simp)
    apply (rule pack32S, use pcr len in simp, use pcr len in simp)
    apply (rule yields_bind [OF pk_Sctx [OF emits_array]], simp add: len, use pcr len n in simp, use pcr len n in simp)
    apply (rule yields_bind [OF pk_sha1_finish])
    apply (simp only: append_assoc append_Nil take_all [OF eq_imp_le [OF len(3)]] dg [symmetric])
    apply (rule yields_bind [OF pk_auth_in], rule s, use s(4) in \<open>simp add: ob_def\<close>, assumption, rule len,
      simp add: dg, use len pcr n in simp)
    apply (simp only: append_assoc ob_def [symmetric])
    apply (rule transmit_bind [OF ready ans sum], use s len n pcr in simp)
    apply (rule un_auth_header, erule digest_is_wf)
    apply (simp only: append_assoc)
    apply (rule yields_bind [OF un_Sctx [OF reads_STORED_DATA12 [OF ret(1)] al]], use ret(3) in simp)
    apply (rule yields_bind [OF un_sha1_finish])
    apply (simp only: append_assoc ret(2) ob_def [symmetric])
    apply (rule yields_bind [OF un_auth_out], rule s, use s(4) in \<open>simp add: sess_wf_def\<close>, erule mac_is_wf,
      rule len, simp, rule ret, rule ret)
    apply (rule yields_bind [OF un_check_ok], simp add: psize)
    apply (rule yields_check_auth [OF ret(5)], simp)
    apply (rule un_sess [OF s(3)])
    apply (simp only: fun_upd_same cont_updated)
    apply (rule tail)
    by (erule Q, simp)
qed

section \<open>Properties\<close>

text \<open>
  C21: \<open>TPM_NV_WriteValueAuth\<close> sends the data with an authorisation block whose HMAC is keyed with
  the NV password and covers the digest of the parameters, the nonces and the continue flag. It
  succeeds if and only if the HMAC of the answer is the right one for the same key, so an answer
  that does not come from a holder of the password is \<open>ERROR_TPM_BAD_OUTPUT_AUTH\<close>; the session
  slot is cleared when the TPM closed the session.
\<close>

theorem TPM_NV_WriteValueAuth_result:
  assumes "tpm_ready hw td k w0" "i < length (w_sessions w0)" "w_sessions w0 ! i = s" "s \<noteq> 0" "sess_wf (w_objs w0 s)"
    and "length nv_auth = 20" "length data = unat dsize" "dsize \<le> 900" "length nEven = 20" "length a = 20"
    and "dg = SHA1_hash (be32 TPM_ORD_NV_WriteValueAuth @ be32 idx @ be32 off @ be32 dsize @ data)"
    and "answers td k (be16 TPM_TAG_RQU_AUTH1_COMMAND @ be32 (67 + dsize) @ be32 TPM_ORD_NV_WriteValueAuth @
        be32 idx @ be32 off @ be32 dsize @ data @ auth_block nv_auth dg (w_objs w0 s))
      (be16 TPM_TAG_RSP_AUTH1_COMMAND @ be32 psize @ be32 0 @ nEven @ [cont] @ a) k'"
  shows "\<exists>w. TPM_NV_WriteValueAuth hw data dsize idx off nv_auth (Some i) w0 =
      (if a = response_auth nv_auth (SHA1_hash (be32 0 @ be32 TPM_ORD_NV_WriteValueAuth)) nEven
            (nonceOdd (w_objs w0 s)) cont
       then Ok () else Throw ERROR_TPM_BAD_OUTPUT_AUTH, w) \<and>
    tpm_ready hw td k' w \<and> w_sessions w = (if cont = 0 then (w_sessions w0)[i := 0] else w_sessions w0)"
  using yieldsD [OF NV_WriteValueAuth_yields [OF assms] refl] unfolding cmd_done_def by blast

text \<open>The session of the examples, at \<open>0x3000\<close>, and a second one at \<open>0x3040\<close>.\<close>

definition session_world :: "heap \<Rightarrow> nat sim world" where
  "session_world h = (sim_world 0 h)\<lparr>w_sessions := [0x3000, 0x3040]\<rparr>"

lemma session_world_simps [simp]:
  "w_sessions (session_world h) = [0x3000, 0x3040]" "w_heap (session_world h) = h"
  "sess_wf (w_objs (session_world h) p)" "nonceOdd (w_objs (session_world h) p) = replicate 20 0"
  by (simp_all add: session_world_def sim_world_def sess_wf_def)

lemma session_ready: "tpm_ready (sim_hw run (TIS_BASE + TIS_LOCALITY_2)) (sim_tpm run) 0 (session_world h)"
  using sim_ready [of run 0 h] by (simp add: tpm_ready_def session_world_def)

theorem TPM_NV_WriteValueAuth_result_witness:
  "\<exists>w. TPM_NV_WriteValueAuth (sim_hw (fixed_run (be16 TPM_TAG_RSP_AUTH1_COMMAND @ be32 51 @ be32 0 @ replicate 20 3 @ [0] @
      response_auth (replicate 20 1) (SHA1_hash (be32 0 @ be32 TPM_ORD_NV_WriteValueAuth)) (replicate 20 3) (replicate 20 0) 0))
      (TIS_BASE + TIS_LOCALITY_2)) [4, 5] 2 4 0 (replicate 20 1) (Some 0) (session_world heap2k) = (Ok (), w) \<and>
    w_sessions w = [0, 0x3040]"
proof -
  let ?a = "response_auth (replicate 20 1) (SHA1_hash (be32 0 @ be32 TPM_ORD_NV_WriteValueAuth)) (replicate 20 3) (replicate 20 0) 0"
  let ?r = "be16 TPM_TAG_RSP_AUTH1_COMMAND @ be32 51 @ be32 0 @ replicate 20 3 @ [0] @ ?a"
  have a: "answers (sim_tpm (fixed_run ?r)) 0 q ?r (Suc 0)" for q
    by (rule fixed_answers) simp_all
  show ?thesis
    using TPM_NV_WriteValueAuth_result [where i = 0 and data = "[4, 5]" and dsize = 2 and idx = 4 and off = 0
        and nv_auth = "replicate 20 1", OF session_ready [where h = heap2k] _ _ _ _ _ _ _ _ _ refl a] by auto
qed


lemma heap2k_allocates: "0 < n \<Longrightarrow> n < 2000 \<Longrightarrow> \<exists>h. allocates 0x1000 [n] heap2k h"
proof -
  assume n: "0 < n" "n < (2000 :: u32)"
  then have "unat n div 8 + 1 \<le> 255" by (simp add: word_less_nat_alt)
  moreover have "of_nat (unat (0x1000 :: u32) + 8 * 0 + 8) \<noteq> (0 :: u32)" by simp
  ultimately show "\<exists>h. allocates 0x1000 [n] heap2k h"
    using alloc_first_fit [OF heap2k_rep n(1)] by (auto split: option.splits prod.splits if_splits)
qed




text \<open>
  C19: \<open>TPM_Unseal\<close> sends the sealed blob unchanged under two authorisation blocks over the digest
  of the request, one keyed with the parent key's secret and one with the blob's. It returns the
  data if and only if both HMACs of the answer are right, each checked under its own key and
  nonces; otherwise the data is not returned and the error is \<open>ERROR_TPM_BAD_OUTPUT_AUTH\<close>.
\<close>

theorem TPM_Unseal_result:
  assumes "tpm_ready hw td k w0"
    and "i < length (w_sessions w0)" "w_sessions w0 ! i = p" "p \<noteq> 0" "sess_wf (w_objs w0 p)"
    and "j < length (w_sessions w0)" "w_sessions w0 ! j = q" "q \<noteq> 0" "sess_wf (w_objs w0 q)" "i \<noteq> j" "p \<noteq> q"
    and "length pa = 20" "length da = 20" "length (enc_STORED_DATA12 b) \<le> 900" "wf_STORED_DATA12 b"
    and "length data = unat n" "length e1 = 20" "length a1 = 20" "length e2 = 20" "length a2 = 20" "unat n \<le> 900"
    and "allocates hp [n] (w_heap w0) h1"
    and "dg = SHA1_hash (be32 TPM_ORD_Unseal @ enc_STORED_DATA12 b)"
    and "rd = SHA1_hash (be32 0 @ be32 TPM_ORD_Unseal @ be32 n @ data)"
    and "answers td k (be16 TPM_TAG_RQU_AUTH2_COMMAND @ be32 (104 + sizeof_TPM_STORED_DATA12 b) @
        be32 TPM_ORD_Unseal @ be32 kh @ enc_STORED_DATA12 b @
        auth_block pa dg (w_objs w0 p) @ auth_block da dg (w_objs w0 q))
      (be16 TPM_TAG_RSP_AUTH2_COMMAND @ be32 psize @ be32 0 @ be32 n @ data @ e1 @ [c1] @ a1 @ e2 @ [c2] @ a2) k'"
  shows "\<exists>w. TPM_Unseal hw hp b kh pa (Some i) da (Some j) w0 =
      (if a1 = response_auth pa rd e1 (nonceOdd (w_objs w0 p)) c1 \<and> a2 = response_auth da rd e2 (nonceOdd (w_objs w0 q)) c2
       then Ok \<lparr>hd_dataSize = n, hd_data = data\<rparr> else Throw ERROR_TPM_BAD_OUTPUT_AUTH, w) \<and>
    tpm_ready hw td k' w \<and> w_heap w = h1 \<and> w_sessions w ! i = (if c1 = 0 then 0 else p)"
  using yieldsD [OF Unseal_yields [OF assms] refl] by blast

text \<open>A blob of three bytes.\<close>

definition blob3 :: TPM_STORED_DATA12 where
  "blob3 = \<lparr>sd_tag = 0x16, sd_et = 0, sealInfoSize = 1, sealInfo = [9], encDataSize = 2, encData = [7, 8]\<rparr>"

lemma blob3_simps [simp]: "wf_STORED_DATA12 blob3" "length (enc_STORED_DATA12 blob3) = 15"
  "trim_STORED_DATA12 blob3 = blob3" "sealInfoSize blob3 = 1" "encDataSize blob3 = 2"
  by (simp_all add: wf_STORED_DATA12_def enc_STORED_DATA12_def trim_STORED_DATA12_def blob3_def)

theorem TPM_Unseal_result_witness:
  "\<exists>w. TPM_Unseal (sim_hw (fixed_run (be16 TPM_TAG_RSP_AUTH2_COMMAND @ be32 99 @ be32 0 @ be32 3 @ [7, 8, 9] @
      replicate 20 3 @ [0] @ response_auth (replicate 20 1) (SHA1_hash (be32 0 @ be32 TPM_ORD_Unseal @ be32 3 @ [7, 8, 9]))
        (replicate 20 3) (replicate 20 0) 0 @
      replicate 20 4 @ [0] @ response_auth (replicate 20 2) (SHA1_hash (be32 0 @ be32 TPM_ORD_Unseal @ be32 3 @ [7, 8, 9]))
        (replicate 20 4) (replicate 20 0) 0)) (TIS_BASE + TIS_LOCALITY_2)) 0x1000 blob3 0x40000000
      (replicate 20 1) (Some 0) (replicate 20 2) (Some 1) (session_world heap2k) =
    (Ok \<lparr>hd_dataSize = 3, hd_data = [7, 8, 9]\<rparr>, w) \<and> w_sessions w ! 0 = 0"
proof -
  let ?d = "SHA1_hash (be32 0 @ be32 TPM_ORD_Unseal @ be32 3 @ [7, 8, 9])"
  let ?a1 = "response_auth (replicate 20 1) ?d (replicate 20 3) (replicate 20 0) 0"
  let ?a2 = "response_auth (replicate 20 2) ?d (replicate 20 4) (replicate 20 0) 0"
  let ?r = "be16 TPM_TAG_RSP_AUTH2_COMMAND @ be32 99 @ be32 0 @ be32 3 @ [7, 8, 9] @ replicate 20 3 @ [0] @ ?a1 @
    replicate 20 4 @ [0] @ ?a2"
  have a: "answers (sim_tpm (fixed_run ?r)) 0 q ?r (Suc 0)" for q
    by (rule fixed_answers) simp_all
  obtain h where h: "allocates 0x1000 [3] (w_heap (session_world heap2k)) h"
    using heap2k_allocates [of 3] by auto
  show ?thesis
    using TPM_Unseal_result [where i = 0 and j = 1 and pa = "replicate 20 1" and da = "replicate 20 2" and b = blob3
        and kh = "0x40000000" and p = "0x3000" and q = "0x3040",
        OF session_ready [where h = heap2k] _ _ _ _ _ _ _ _ _ _ _ _ _ _ _ _ _ _ _ _ h refl refl a]
    by auto
qed

text \<open>
  C20: \<open>TPM_Seal\<close> sends the data, the encrypted authorisation value and the PCR selection it is to
  be bound to, all under the HMAC of the OSAP shared secret. It returns the blob the TPM sent if
  and only if the answer's HMAC is right and the TPM closed the session.
\<close>

theorem TPM_Seal_result:
  assumes "tpm_ready hw td k w0" "i < length (w_sessions w0)" "w_sessions w0 ! i = s" "s \<noteq> 0" "sess_wf (w_objs w0 s)"
    and "wf_PCR_INFO_LONG pcr" "length (enc_PCR_INFO_LONG pcr) \<le> 400"
    and "length encAuth = 20" "length secret = 20" "length data = unat n" "n \<le> 400"
    and "wf_STORED_DATA12 ret" "trim_STORED_DATA12 ret = ret" "length (enc_STORED_DATA12 ret) \<le> 900"
      "length nEven = 20" "length a = 20"
    and "allocates hp [sealInfoSize ret, encDataSize ret] (w_heap w0) h1"
    and "dg = SHA1_hash (be32 (if sealx then TPM_ORD_Sealx else TPM_ORD_Seal) @ encAuth @
        be32 (sizeof_TPM_PCR_INFO_LONG pcr) @ enc_PCR_INFO_LONG pcr @ be32 n @ data)"
    and "answers td k (be16 TPM_TAG_RQU_AUTH1_COMMAND @ be32 (87 + sizeof_TPM_PCR_INFO_LONG pcr + n) @
        be32 (if sealx then TPM_ORD_Sealx else TPM_ORD_Seal) @ be32 kh @ encAuth @ be32 (sizeof_TPM_PCR_INFO_LONG pcr) @
        enc_PCR_INFO_LONG pcr @ be32 n @ data @ auth_block secret dg (w_objs w0 s))
      (be16 TPM_TAG_RSP_AUTH1_COMMAND @ be32 psize @ be32 0 @ enc_STORED_DATA12 ret @ nEven @ [cont] @ a) k'"
  shows "\<exists>w. TPM_Seal sealx hw hp kh encAuth pcr data n (Some i) secret w0 =
      (if a = response_auth secret (SHA1_hash (be32 0 @ be32 (if sealx then TPM_ORD_Sealx else TPM_ORD_Seal) @
            enc_STORED_DATA12 ret)) nEven (nonceOdd (w_objs w0 s)) cont
       then if cont = 0 then Ok ret else Throw ERROR_TPM_BAD_OUTPUT_PARAM
       else Throw ERROR_TPM_BAD_OUTPUT_AUTH, w) \<and> tpm_ready hw td k' w \<and> w_heap w = h1"
  using yieldsD [OF Seal_yields [OF assms] refl] by blast

definition no_pcrs :: TPM_PCR_INFO_LONG where
  "no_pcrs = \<lparr>pi_tag = 6, localityAtCreation = 4, localityAtRelease = 4,
     creationPCRSelection = \<lparr>sizeOfSelect = 3, pcrSelect = [0, 0, 0]\<rparr>,
     releasePCRSelection = \<lparr>sizeOfSelect = 3, pcrSelect = [0, 0, 0]\<rparr>,
     digestAtCreation = replicate 20 0, digestAtRelease = replicate 20 0\<rparr>"

lemma no_pcrs_simps [simp]: "wf_PCR_INFO_LONG no_pcrs" "length (enc_PCR_INFO_LONG no_pcrs) = 54"
  by (simp_all add: wf_PCR_INFO_LONG_def enc_PCR_INFO_LONG_def wf_SELECTION_def enc_SELECTION_def no_pcrs_def)

theorem TPM_Seal_result_witness:
  "\<exists>w. TPM_Seal False (sim_hw (fixed_run (be16 TPM_TAG_RSP_AUTH1_COMMAND @ be32 66 @ be32 0 @ enc_STORED_DATA12 blob3 @
      replicate 20 3 @ [0] @ response_auth (replicate 20 1) (SHA1_hash (be32 0 @ be32 TPM_ORD_Seal @ enc_STORED_DATA12 blob3))
        (replicate 20 3) (replicate 20 0) 0)) (TIS_BASE + TIS_LOCALITY_2)) 0x1000 0x40000000 (replicate 20 2) no_pcrs
      [4, 5] 2 (Some 0) (replicate 20 1) (session_world heap2k) = (Ok blob3, w)"
proof -
  let ?a = "response_auth (replicate 20 1) (SHA1_hash (be32 0 @ be32 TPM_ORD_Seal @ enc_STORED_DATA12 blob3))
        (replicate 20 3) (replicate 20 0) 0"
  let ?r = "be16 TPM_TAG_RSP_AUTH1_COMMAND @ be32 66 @ be32 0 @ enc_STORED_DATA12 blob3 @ replicate 20 3 @ [0] @ ?a"
  have a: "answers (sim_tpm (fixed_run ?r)) 0 q ?r (Suc 0)" for q
    by (rule fixed_answers) simp_all
  obtain h1 where 1: "alloc 0x1000 1 heap2k = (Ok 0x1008, h1)" "heap_rep h1 0x1000 [(1, True), (253, False)]"
    using alloc_first_fit [OF heap2k_rep, of 1] by auto
  obtain h2 where 2: "alloc 0x1000 2 h1 = (Ok 0x1018, h2)"
    using alloc_first_fit [OF 1(2), of 2] by auto
  have h: "allocates 0x1000 [sealInfoSize blob3, encDataSize blob3] (w_heap (session_world heap2k)) h2"
    using 1 2 by simp
  show ?thesis
    using TPM_Seal_result [where sealx = False and i = 0 and pcr = no_pcrs and encAuth = "replicate 20 2"
        and secret = "replicate 20 1" and data = "[4, 5]" and n = 2 and kh = "0x40000000",
        OF session_ready [where h = heap2k] _ _ _ _ _ _ _ _ _ _ _ _ _ _ _ h refl a]
    by auto
qed

end
