(* ===== verification/ELF_Correct.thy ===== *)
theory ELF_Correct
  imports ELF TPM_Auth
begin

text \<open>
  The program \<open>start_module\<close> generates, run on a small model of the processor, loads the segments of
  the module and enters it. The model has the four instructions the generator emits, decoded from
  memory.
\<close>

section \<open>The processor\<close>

record cpu =
  eip :: u32
  regs :: "reg \<Rightarrow> u32"

text \<open>\<open>rep movsb\<close> and \<open>rep stosb\<close> with the direction flag clear.\<close>

definition rep_movsb :: "cpu \<times> mem \<Rightarrow> cpu \<times> mem" where
  "rep_movsb = (\<lambda>(c, m). let n = regs c ECX in
     (c\<lparr>regs := (regs c)(ECX := 0, ESI := regs c ESI + n, EDI := regs c EDI + n)\<rparr>,
      copy_fwd (unat n) (regs c EDI) (regs c ESI) m))"

definition rep_stosb :: "cpu \<times> mem \<Rightarrow> cpu \<times> mem" where
  "rep_stosb = (\<lambda>(c, m). let n = regs c ECX in
     (c\<lparr>regs := (regs c)(ECX := 0, EDI := regs c EDI + n)\<rparr>,
      memset_loop (unat n) (regs c EDI) (ucast (regs c EAX)) m))"

definition reg_of :: "u8 \<Rightarrow> reg" where
  "reg_of b = (let n = b AND 7 in if n = 0 then EAX else if n = 1 then ECX else if n = 2 then EDX
     else if n = 3 then EBX else if n = 4 then ESP else if n = 5 then EBP else if n = 6 then ESI else EDI)"

definition advance :: "u32 \<Rightarrow> cpu \<times> mem \<Rightarrow> cpu \<times> mem" where
  "advance n = (\<lambda>(c, m). (c\<lparr>eip := eip c + n\<rparr>, m))"

definition step :: "cpu \<times> mem \<Rightarrow> (cpu \<times> mem) option" where
  "step = (\<lambda>(c, m). let b = m (eip c); b' = m (eip c + 1) in
     if b AND 0xF8 = 0xB8
     then Some (advance 5 (c\<lparr>regs := (regs c)(reg_of b := ld32 m (eip c + 1))\<rparr>, m))
     else if b = 0xF3 \<and> b' = 0xA4 then Some (advance 2 (rep_movsb (c, m)))
     else if b = 0xF3 \<and> b' = 0xAA then Some (advance 2 (rep_stosb (c, m)))
     else if b = 0xFF \<and> b' = 0xE2 then Some (c\<lparr>eip := regs c EDX\<rparr>, m)
     else None)"

primrec run :: "nat \<Rightarrow> cpu \<times> mem \<Rightarrow> (cpu \<times> mem) option" where
  "run 0 s = Some s"
| "run (Suc n) s = (case step s of None \<Rightarrow> None | Some s' \<Rightarrow> run n s')"

lemma run_add: "run n s = Some s' \<Longrightarrow> run (n + k) s = run k s'"
  by (induction n arbitrary: s) (auto split: option.splits)

section \<open>Instructions\<close>

datatype instr = Mov reg u32 | RepMovsb | RepStosb | JmpEdx

fun enc :: "instr \<Rightarrow> bytes" where
  "enc (Mov r v) = (0xB8 OR reg_num r) # le32 v"
| "enc RepMovsb = [0xF3, 0xA4]"
| "enc RepStosb = [0xF3, 0xAA]"
| "enc JmpEdx = [0xFF, 0xE2]"

abbreviation encs :: "instr list \<Rightarrow> bytes" where
  "encs is \<equiv> concat (map enc is)"

text \<open>A segment: target, source, number of bytes to copy, number of zero bytes behind them.\<close>

type_synonym segment = "u32 \<times> u32 \<times> u32 \<times> u32"

fun seg_code :: "segment \<Rightarrow> instr list" where
  "seg_code (t, s, l, f) = [Mov EDI t, Mov ESI s, Mov ECX l, RepMovsb, Mov ECX f, RepStosb]"

fun load_seg :: "segment \<Rightarrow> mem \<Rightarrow> mem" where
  "load_seg (t, s, l, f) m = memset_loop (unat f) (t + l) 0 (copy_fwd (unat l) t s m)"

definition prog :: "segment list \<Rightarrow> u32 \<Rightarrow> instr list" where
  "prog segs entry = concat (map seg_code segs) @ [Mov EAX MBI_MAGIC2, Mov EDX entry, JmpEdx]"

section \<open>Regions\<close>

definition footprint :: "u32 \<Rightarrow> nat \<Rightarrow> u32 set" where
  "footprint a n = (\<lambda>i. a + of_nat i) ` {..<n}"

lemma footprint_0 [simp]: "footprint a 0 = {}"
  by (simp add: footprint_def)

lemma footprint_Suc: "footprint a (Suc n) = insert a (footprint (a + 1) n)"
  unfolding footprint_def lessThan_Suc_eq_insert_0 image_insert image_image by (simp add: add.assoc)

lemma footprint_add: "footprint a (n + k) = footprint a n \<union> footprint (a + of_nat n) k"
  by (induction n arbitrary: a) (auto simp: footprint_Suc ac_simps)

lemma footprint_mono: "k + n \<le> N \<Longrightarrow> footprint (a + of_nat k) n \<subseteq> footprint a N"
proof -
  assume "k + n \<le> N"
  then obtain r where "N = k + (n + r)" by (metis add.assoc le_Suc_ex)
  then show ?thesis by (simp only: footprint_add) blast
qed

lemma footprint_take: "n \<le> N \<Longrightarrow> footprint a n \<subseteq> footprint a N"
  using footprint_mono [of 0 n N a] by simp

lemma poke_append: "poke a (xs @ ys) m = poke (a + of_nat (length xs)) ys (poke a xs m)"
  by (induction xs arbitrary: a m) (simp_all add: ac_simps)

lemma poke_outside: "x \<notin> footprint a (length bs) \<Longrightarrow> poke a bs m x = m x"
  by (induction bs arbitrary: a m) (simp_all add: footprint_Suc)

lemma not_in_footprint: "length bs < 2 ^ 32 \<Longrightarrow> a \<notin> footprint (a + 1) (length bs)"
proof
  assume l: "length bs < 2 ^ 32" and "a \<in> footprint (a + 1) (length bs)"
  then obtain i where i: "i < length bs" "a = a + 1 + of_nat i" by (auto simp: footprint_def)
  from i(2) have "a + of_nat (Suc i) = a + (0 :: u32)" by (simp add: ac_simps)
  then have "of_nat (Suc i) = (0 :: u32)" by (simp only: add_left_cancel)
  moreover have "unat (of_nat (Suc i) :: u32) = Suc i" using i(1) l by (simp add: unat_of_nat_u32 del: of_nat_Suc)
  ultimately show False by simp
qed

lemma bytes_at_Suc: "bytes_at m a (Suc n) = m a # bytes_at m (a + 1) n"
  unfolding bytes_at_def by (simp add: upt_conv_Cons map_Suc_upt [symmetric] add.assoc del: upt_Suc map_Suc_upt) 

lemma bytes_at_2: "bytes_at m a (Suc (Suc 0)) = [m a, m (a + 1)]"
  by (simp add: bytes_at_def)

lemma bytes_at_append: "bytes_at m a (n + k) = bytes_at m a n @ bytes_at m (a + of_nat n) k"
  by (induction n arbitrary: a) (simp_all add: bytes_at_Suc ac_simps, simp add: bytes_at_def)

lemma bytes_at_poke: "length bs \<le> 2 ^ 32 \<Longrightarrow> bytes_at (poke a bs m) a (length bs) = bs"
proof (induction bs arbitrary: a m)
  case (Cons b bs)
  then have "poke (a + 1) bs (m(a := b)) a = b" by (subst poke_outside) (simp_all add: not_in_footprint)
  with Cons show ?case by (simp add: bytes_at_Suc)
qed (simp add: bytes_at_def)

lemma bytes_at_cong: "(\<And>x. x \<in> footprint a n \<Longrightarrow> m' x = m x) \<Longrightarrow> bytes_at m' a n = bytes_at m a n"
  by (induction n arbitrary: a) (simp_all add: bytes_at_Suc footprint_Suc, simp add: bytes_at_def)

section \<open>Running the code\<close>

text \<open>The effect of an instruction without its fetch.\<close>

fun effect :: "instr \<Rightarrow> cpu \<times> mem \<Rightarrow> cpu \<times> mem" where
  "effect (Mov r v) (c, m) = (c\<lparr>regs := (regs c)(r := v)\<rparr>, m)"
| "effect RepMovsb s = rep_movsb s"
| "effect RepStosb s = rep_stosb s"
| "effect JmpEdx (c, m) = (c\<lparr>eip := regs c EDX - 2\<rparr>, m)"

definition code_at :: "mem \<Rightarrow> u32 \<Rightarrow> instr list \<Rightarrow> bool" where
  "code_at m a is \<longleftrightarrow> bytes_at m a (length (encs is)) = encs is"

lemma length_enc: "length (enc i) = (case i of Mov r v \<Rightarrow> 5 | _ \<Rightarrow> 2)"
  by (cases i) simp_all

lemma code_at_Cons:
  "code_at m a (i # is) \<longleftrightarrow> bytes_at m a (length (enc i)) = enc i \<and> code_at m (a + of_nat (length (enc i))) is"
  by (simp add: code_at_def bytes_at_append) (simp add: bytes_at_def)

lemma reg_of_num: "reg_of (0xB8 OR reg_num r) = r" "(0xB8 OR reg_num r) AND 0xF8 = 0xB8"
  by (cases r; simp add: reg_of_def)+

lemma ld32_code: "bytes_at m a 4 = le32 v \<Longrightarrow> ld32 m a = v"
  by (simp add: ld32_def)

lemma fetch:
  assumes "bytes_at m (eip c) (length (enc i)) = enc i"
  shows "step (c, m) = Some (advance (of_nat (length (enc i))) (effect i (c, m)))"
proof (cases i)
  case (Mov r v)
  then have "m (eip c) # bytes_at m (eip c + 1) 4 = (0xB8 OR reg_num r) # le32 v"
    using assms bytes_at_Suc [of m "eip c" 4] by simp
  then show ?thesis using Mov ld32_code [of m "eip c + 1" v] reg_of_num [of r] by (simp add: step_def Let_def)
qed (use assms in \<open>auto simp: step_def Let_def bytes_at_2 advance_def rep_movsb_def rep_stosb_def\<close>)

text \<open>The code survives an effect that does not write to it.\<close>

lemma code_at_cong:
  "code_at m a is \<Longrightarrow> (\<And>x. x \<in> footprint a (length (encs is)) \<Longrightarrow> m' x = m x) \<Longrightarrow> code_at m' a is"
  unfolding code_at_def using bytes_at_cong by metis

lemma copy_fwd_outside: "x \<notin> footprint d n \<Longrightarrow> copy_fwd n d s m x = m x"
  by (induction n arbitrary: d s m) (simp_all add: footprint_Suc)

lemma memset_outside: "x \<notin> footprint d n \<Longrightarrow> memset_loop n d v m x = m x"
  by (induction n arbitrary: d m) (simp_all add: footprint_Suc)

fun target :: "segment \<Rightarrow> u32 set" where
  "target (t, s, l, f) = footprint t (unat l + unat f)"

lemma load_seg_outside: "x \<notin> target sg \<Longrightarrow> load_seg sg m x = m x"
  by (cases sg) (simp add: footprint_add copy_fwd_outside memset_outside)

lemma step_Mov:
  assumes "code_at m (eip c) (Mov r v # is)"
  shows "step (c, m) = Some (c\<lparr>eip := eip c + 5, regs := (regs c)(r := v)\<rparr>, m)"
    "code_at m (eip c + 5) is"
  using assms fetch [of m c "Mov r v"] by (simp_all add: code_at_Cons advance_def)

lemma step_rep:
  assumes "code_at m (eip c) (i # is)" "i = RepMovsb \<or> i = RepStosb"
  shows "step (c, m) = Some (advance 2 (effect i (c, m)))" "code_at m (eip c + 2) is"
  using assms fetch [of m c i] by (auto simp: code_at_Cons)

text \<open>One segment takes six steps.\<close>

lemma six: "(6 :: nat) = Suc (Suc (Suc (Suc (Suc (Suc 0)))))"
  by simp

lemma run_segment:
  assumes code: "code_at m (eip c) (seg_code sg @ is)" and eax: "regs c EAX = 0"
    and disj: "target sg \<inter> footprint (eip c) (length (encs (seg_code sg @ is))) = {}"
  shows "\<exists>c'. run 6 (c, m) = Some (c', load_seg sg m) \<and> eip c' = eip c + 24 \<and> regs c' EAX = 0 \<and>
    regs c' EBX = regs c EBX \<and> code_at (load_seg sg m) (eip c') is"
proof -
  obtain t s l f where sg: "sg = (t, s, l, f)" by (cases sg)
  let ?a = "eip c" and ?n = "length (encs (seg_code sg @ is))"
  let ?m1 = "copy_fwd (unat l) t s m" and ?m2 = "load_seg sg m"
  let ?r1 = "(regs c)(EDI := t, ESI := s, ECX := l)"
  let ?r2 = "?r1(ECX := 0, ESI := s + l, EDI := t + l)"
  have len: "?n = 24 + length (encs is)" by (simp add: sg)
  have m1: "?m1 x = m x" if "x \<in> footprint ?a ?n" for x
    by (rule copy_fwd_outside) (use that disj sg in \<open>auto simp: footprint_add\<close>)
  have m2: "?m2 x = m x" if "x \<in> footprint ?a ?n" for x
    by (rule load_seg_outside) (use that disj in auto)
  have keep: "code_at m' (?a + of_nat k) js" if "code_at m (?a + of_nat k) js" "k + length (encs js) \<le> ?n"
    "\<And>x. x \<in> footprint ?a ?n \<Longrightarrow> m' x = m x" for m' k js
    by (rule code_at_cong [OF that(1)]) (use that(2,3) footprint_mono [OF that(2)] in auto)
  have c0: "code_at m ?a (Mov EDI t # Mov ESI s # Mov ECX l # RepMovsb # Mov ECX f # RepStosb # is)"
    using code by (simp add: sg)
  have c1: "code_at m (?a + 5) (Mov ESI s # Mov ECX l # RepMovsb # Mov ECX f # RepStosb # is)"
    by (rule step_Mov(2) [OF c0])
  have c2: "code_at m (?a + 10) (Mov ECX l # RepMovsb # Mov ECX f # RepStosb # is)"
    using step_Mov(2) [of m "c\<lparr>eip := ?a + 5\<rparr>"] c1 by (simp add: add.assoc)
  have c3: "code_at m (?a + 15) (RepMovsb # Mov ECX f # RepStosb # is)"
    using step_Mov(2) [of m "c\<lparr>eip := ?a + 10\<rparr>"] c2 by (simp add: add.assoc)
  have c4: "code_at m (?a + 17) (Mov ECX f # RepStosb # is)"
    using step_rep(2) [of m "c\<lparr>eip := ?a + 15\<rparr>"] c3 by (simp add: add.assoc)
  have c4': "code_at ?m1 (?a + 17) (Mov ECX f # RepStosb # is)"
    using keep [of 17, OF _ _ m1] c4 len by simp
  have c5: "code_at ?m1 (?a + 22) (RepStosb # is)"
    using step_Mov(2) [of ?m1 "c\<lparr>eip := ?a + 17\<rparr>"] c4' by (simp add: add.assoc)
  have "code_at m (?a + 24) is"
    using step_rep(2) [of m "c\<lparr>eip := ?a + 22\<rparr>" RepStosb]
      step_Mov(2) [of m "c\<lparr>eip := ?a + 17\<rparr>" ECX f] c4 by (simp add: add.assoc)
  then have c6: "code_at ?m2 (?a + 24) is" using keep [of 24, OF _ _ m2] len by simp
  let ?c' = "c\<lparr>eip := ?a + 24, regs := ?r2(ECX := 0, EDI := t + l + f)\<rparr>"
  have st: "step (c, m) = Some (c\<lparr>eip := ?a + 5, regs := (regs c)(EDI := t)\<rparr>, m)"
    "step (c\<lparr>eip := ?a + 5, regs := (regs c)(EDI := t)\<rparr>, m) =
       Some (c\<lparr>eip := ?a + 10, regs := (regs c)(EDI := t, ESI := s)\<rparr>, m)"
    "step (c\<lparr>eip := ?a + 10, regs := (regs c)(EDI := t, ESI := s)\<rparr>, m) = Some (c\<lparr>eip := ?a + 15, regs := ?r1\<rparr>, m)"
    "step (c\<lparr>eip := ?a + 15, regs := ?r1\<rparr>, m) = Some (c\<lparr>eip := ?a + 17, regs := ?r2\<rparr>, ?m1)"
    "step (c\<lparr>eip := ?a + 17, regs := ?r2\<rparr>, ?m1) = Some (c\<lparr>eip := ?a + 22, regs := ?r2(ECX := f)\<rparr>, ?m1)"
    "step (c\<lparr>eip := ?a + 22, regs := ?r2(ECX := f)\<rparr>, ?m1) = Some (?c', ?m2)"
    using step_Mov(1) [OF c0] step_Mov(1) [of m "c\<lparr>eip := ?a + 5, regs := (regs c)(EDI := t)\<rparr>"] c1
      step_Mov(1) [of m "c\<lparr>eip := ?a + 10, regs := (regs c)(EDI := t, ESI := s)\<rparr>"] c2
      step_rep(1) [of m "c\<lparr>eip := ?a + 15, regs := ?r1\<rparr>"] c3
      step_Mov(1) [of ?m1 "c\<lparr>eip := ?a + 17, regs := ?r2\<rparr>"] c4'
      step_rep(1) [of ?m1 "c\<lparr>eip := ?a + 22, regs := ?r2(ECX := f)\<rparr>"] c5 eax
    by (simp_all add: add.assoc advance_def rep_movsb_def rep_stosb_def Let_def sg fun_upd_twist)
  have "run 6 (c, m) = Some (?c', ?m2)"
    unfolding six by (simp only: run.simps st option.case)
  then show ?thesis using c6 eax by (intro exI [of _ ?c']) simp
qed

lemma length_seg_code [simp]: "length (encs (seg_code sg)) = 24"
  by (cases sg) simp

lemma run_segments:
  assumes "code_at m (eip c) (concat (map seg_code segs) @ is)" "regs c EAX = 0"
    and "\<forall>sg \<in> set segs. target sg \<inter> footprint (eip c) (length (encs (concat (map seg_code segs) @ is))) = {}"
  shows "\<exists>n c'. run n (c, m) = Some (c', fold load_seg segs m) \<and> regs c' EAX = 0 \<and>
    regs c' EBX = regs c EBX \<and> code_at (fold load_seg segs m) (eip c') is"
  using assms
proof (induction segs arbitrary: c m)
  case Nil
  then show ?case by (intro exI [of _ 0] exI [of _ c]) simp
next
  case (Cons sg segs)
  let ?is = "concat (map seg_code segs) @ is"
  obtain c1 where 1: "run 6 (c, m) = Some (c1, load_seg sg m)" "eip c1 = eip c + 24" "regs c1 EAX = 0"
    "regs c1 EBX = regs c EBX" "code_at (load_seg sg m) (eip c1) ?is"
    using run_segment [of m c sg ?is] Cons.prems by auto
  have "footprint (eip c + of_nat 24) (length (encs ?is)) \<subseteq> footprint (eip c) (length (encs (concat (map seg_code (sg # segs)) @ is)))"
    by (rule footprint_mono) simp
  then have d: "\<forall>sg' \<in> set segs. target sg' \<inter> footprint (eip c1) (length (encs ?is)) = {}"
    using Cons.prems(3) 1(2) by fastforce
  obtain n c' where 2: "run n (c1, load_seg sg m) = Some (c', fold load_seg segs (load_seg sg m))"
    "regs c' EAX = 0" "regs c' EBX = regs c EBX" "code_at (fold load_seg segs (load_seg sg m)) (eip c') is"
    using Cons.IH [OF 1(5,3) d] 1(4) by auto
  have "run (6 + n) (c, m) = Some (c', fold load_seg segs (load_seg sg m))"
    using run_add [OF 1(1), of n] 2(1) by simp
  with 2 show ?case by (intro exI [of _ "6 + n"] exI [of _ c']) simp
qed

lemma run_prog:
  assumes "code_at m (eip c) (prog segs entry)" "regs c EAX = 0"
    and "\<forall>sg \<in> set segs. target sg \<inter> footprint (eip c) (length (encs (prog segs entry))) = {}"
  shows "\<exists>n c'. run n (c, m) = Some (c', fold load_seg segs m) \<and> eip c' = entry \<and>
    regs c' EAX = MBI_MAGIC2 \<and> regs c' EBX = regs c EBX"
proof -
  let ?m = "fold load_seg segs m"
  obtain n c1 where 1: "run n (c, m) = Some (c1, ?m)" "regs c1 EBX = regs c EBX"
    "code_at ?m (eip c1) [Mov EAX MBI_MAGIC2, Mov EDX entry, JmpEdx]"
    using run_segments [OF assms [unfolded prog_def]] by blast
  let ?c2 = "c1\<lparr>eip := eip c1 + 5, regs := (regs c1)(EAX := MBI_MAGIC2)\<rparr>"
  let ?c3 = "c1\<lparr>eip := eip c1 + 10, regs := (regs c1)(EAX := MBI_MAGIC2, EDX := entry)\<rparr>"
  have 2: "step (c1, ?m) = Some (?c2, ?m)" "code_at ?m (eip c1 + 5) [Mov EDX entry, JmpEdx]"
    using step_Mov [OF 1(3)] by simp_all
  then have 3: "step (?c2, ?m) = Some (?c3, ?m)" "code_at ?m (eip c1 + 10) [JmpEdx]"
    using step_Mov [of ?m ?c2] by (simp_all add: add.assoc)
  have 4: "step (?c3, ?m) = Some (?c3\<lparr>eip := entry\<rparr>, ?m)"
    using fetch [of ?m ?c3 JmpEdx] 3(2) by (simp add: code_at_def advance_def)
  have "run (Suc (Suc (Suc 0))) (c1, ?m) = Some (?c3\<lparr>eip := entry\<rparr>, ?m)"
    by (simp only: run.simps 2(1) 3(1) 4 option.case)
  then show ?thesis
    using run_add [OF 1(1), of "Suc (Suc (Suc 0))"] 1(2)
    by (intro exI [of _ "n + Suc (Suc (Suc 0))"] exI [of _ "?c3\<lparr>eip := entry\<rparr>"]) simp
qed

section \<open>The generated code\<close>

definition emit :: "instr list \<Rightarrow> 'd world \<Rightarrow> 'd world" where
  "emit is w = w\<lparr>w_mem := poke (w_code w) (encs is) (w_mem w), w_code := w_code w + of_nat (length (encs is))\<rparr>"

lemma emit_append: "emit js (emit is w) = emit (is @ js) w"
  by (simp add: emit_def poke_append ac_simps)

lemma emit_Nil [simp]: "emit [] w = w"
  by (simp add: emit_def)

lemma emit_upd:
  "emit is (w\<lparr>w_screen := s, w_dev := d\<rparr>) = (emit is w)\<lparr>w_dev := d, w_screen := s\<rparr>"
  by (simp add: emit_def)

lemma emit_screen: "w_screen (emit is w) = w_screen w"
  by (simp add: emit_def)

lemma gen_mov_emits: "gen_mov r v w = (Ok (), emit [Mov r v] w)"
  by (simp add: gen_mov_def byte_out_def bindE_def modifyE_def emit_def le32_def ac_simps)

lemma gen_jmp_emits: "gen_jmp_edx w = (Ok (), emit [JmpEdx] w)"
  by (simp add: gen_jmp_edx_def byte_out_def bindE_def modifyE_def emit_def ac_simps)

lemma byte_pair_emits:
  "bindE (byte_out 0xF3) (\<lambda>_. bindE (byte_out 0xA4) k) w = k () (emit [RepMovsb] w)"
  "bindE (byte_out 0xF3) (\<lambda>_. byte_out 0xAA) w = (Ok (), emit [RepStosb] w)"
  by (simp_all add: byte_out_def bindE_def modifyE_def emit_def ac_simps)

lemma gen_segment_emits: "gen_elf_segment t s l f w = (Ok (), emit (seg_code (t, s, l, f)) w)"
  by (simp add: gen_elf_segment_def bindE_def [of "gen_mov _ _"] gen_mov_emits byte_pair_emits emit_append)

text \<open>The segments of an ELF image that are to be loaded, as its program headers give them.\<close>

definition ph_addr :: "mem \<Rightarrow> u32 \<Rightarrow> nat \<Rightarrow> u32" where
  "ph_addr m elf i = elf + ld32 m (elf + 28) + of_nat i * ucast (ld16 m (elf + 42))"

definition elf_seg :: "mem \<Rightarrow> u32 \<Rightarrow> nat \<Rightarrow> segment list" where
  "elf_seg m elf i = (let a = ph_addr m elf i in
     if ld32 m a = 1 then [(ld32 m (a + 12), elf + ld32 m (a + 4), ld32 m (a + 16), ld32 m (a + 20) - ld32 m (a + 16))]
     else [])"

definition elf_phnum :: "mem \<Rightarrow> u32 \<Rightarrow> nat" where
  "elf_phnum m elf = unat (ld16 m (elf + 44))"

definition elf_segments :: "mem \<Rightarrow> u32 \<Rightarrow> segment list" where
  "elf_segments m elf = concat (map (elf_seg m elf) [0..<elf_phnum m elf])"

text \<open>What the generator reads: the module structure, the ELF header and the program headers.\<close>

definition elf_reads :: "mem \<Rightarrow> u32 \<Rightarrow> u32 \<Rightarrow> u32 set" where
  "elf_reads m mo elf = footprint mo 16 \<union> footprint elf 52 \<union> (\<Union>i < elf_phnum m elf. footprint (ph_addr m elf i) 32)"

lemma ld32_cong: "(\<And>x. x \<in> footprint a 4 \<Longrightarrow> m' x = m x) \<Longrightarrow> ld32 m' a = ld32 m a"
  unfolding ld32_def using bytes_at_cong [of a 4 m' m] by simp

lemma ld16_cong: "(\<And>x. x \<in> footprint a 2 \<Longrightarrow> m' x = m x) \<Longrightarrow> ld16 m' a = ld16 m a"
  unfolding ld16_def using bytes_at_cong [of a 2 m' m] by simp

lemma elf_reads_same:
  assumes "\<And>x. x \<in> elf_reads m mo elf \<Longrightarrow> m' x = m x"
  shows "ld32 m' mo = ld32 m mo" "ld32 m' (mo + 4) = ld32 m (mo + 4)" "ld32 m' (elf + 24) = ld32 m (elf + 24)"
    "ld32 m' (elf + 28) = ld32 m (elf + 28)"
    "ld16 m' (elf + 42) = ld16 m (elf + 42)" "ld16 m' (elf + 44) = ld16 m (elf + 44)"
    "i < elf_phnum m elf \<Longrightarrow> ph_addr m' elf i = ph_addr m elf i"
    "i < elf_phnum m elf \<Longrightarrow> elf_seg m' elf i = elf_seg m elf i"
proof -
  have mo: "ld32 m' (mo + of_nat k) = ld32 m (mo + of_nat k)" if "k + 4 \<le> 16" for k
    by (rule ld32_cong, rule assms) (use footprint_mono [OF that, of mo] in \<open>auto simp: elf_reads_def\<close>)
  have e: "ld32 m' (elf + of_nat k) = ld32 m (elf + of_nat k)" if "k + 4 \<le> 52" for k
    by (rule ld32_cong, rule assms) (use footprint_mono [OF that, of elf] in \<open>auto simp: elf_reads_def\<close>)
  have e16: "ld16 m' (elf + of_nat k) = ld16 m (elf + of_nat k)" if "k + 2 \<le> 52" for k
    by (rule ld16_cong, rule assms) (use footprint_mono [OF that, of elf] in \<open>auto simp: elf_reads_def\<close>)
  show "ld32 m' mo = ld32 m mo" "ld32 m' (mo + 4) = ld32 m (mo + 4)" "ld32 m' (elf + 24) = ld32 m (elf + 24)"
    "ld32 m' (elf + 28) = ld32 m (elf + 28)"
    "ld16 m' (elf + 42) = ld16 m (elf + 42)" "ld16 m' (elf + 44) = ld16 m (elf + 44)"
    using mo [of 0] mo [of 4] e [of 24] e [of 28] e16 [of 42] e16 [of 44] by simp_all
  then show a: "ph_addr m' elf i = ph_addr m elf i" if "i < elf_phnum m elf" for i by (simp add: ph_addr_def)
  have p: "ld32 m' (ph_addr m elf i + of_nat k) = ld32 m (ph_addr m elf i + of_nat k)"
    if "i < elf_phnum m elf" "k + 4 \<le> 32" for i k
    by (rule ld32_cong, rule assms)
      (use footprint_mono [OF that(2), of "ph_addr m elf i"] that(1) in \<open>auto simp: elf_reads_def\<close>)
  show "elf_seg m' elf i = elf_seg m elf i" if "i < elf_phnum m elf"
    using a [OF that] p [OF that, of 0] p [OF that, of 4] p [OF that, of 12] p [OF that, of 16] p [OF that, of 20]
    by (simp add: elf_seg_def Let_def)
qed

lemma emit_reads:
  assumes "elf_reads m mo elf \<inter> footprint (w_code w) N = {}" "length (encs is) \<le> N" "w_mem w = m"
    and "x \<in> elf_reads m mo elf"
  shows "w_mem (emit is w) x = m x"
  using assms footprint_take [OF assms(2), of "w_code w"] by (auto simp: emit_def intro!: poke_outside)

lemma emit_elf_seg:
  "(if ld32 m' (ph_addr m' elf i) \<noteq> 1 then returnE ()
    else gen_elf_segment (ld32 m' (ph_addr m' elf i + 12)) (elf + ld32 m' (ph_addr m' elf i + 4))
      (ld32 m' (ph_addr m' elf i + 16)) (ld32 m' (ph_addr m' elf i + 20) - ld32 m' (ph_addr m' elf i + 16))) w =
   (Ok (), emit (concat (map seg_code (elf_seg m' elf i))) w)"
  by (simp add: elf_seg_def Let_def returnE_def gen_segment_emits)

lemma length_elf_seg: "length (encs (concat (map seg_code (elf_seg m elf i)))) \<le> 24"
  by (simp add: elf_seg_def Let_def)

lemma gen_segments_emits:
  assumes disj: "elf_reads m mo elf \<inter> footprint (w_code w) N = {}" and m: "w_mem w = m" "ld32 m mo = elf"
  shows "i \<le> elf_phnum m elf \<Longrightarrow> elf_phnum m elf - i < n \<Longrightarrow> length (encs is) + 24 * (elf_phnum m elf - i) \<le> N \<Longrightarrow>
    gen_segments n (of_nat i) elf mo (emit is w) =
      (Ok (), emit (is @ concat (map seg_code (concat (map (elf_seg m elf) [i..<elf_phnum m elf])))) w)"
proof (induction n arbitrary: i "is")
  case (Suc n)
  let ?m = "w_mem (emit is w)" and ?k = "elf_phnum m elf"
  have same: "?m x = m x" if "x \<in> elf_reads m mo elf" for x
    by (rule emit_reads [OF disj _ m(1) that]) (use Suc.prems(3) in simp)
  note r = elf_reads_same [of m mo elf ?m, OF same]
  have k: "?k < 65536" using unsigned_less [of "ld16 m (elf + 44)"] by (simp add: elf_phnum_def)
  then have i: "unat (of_nat i :: u32) = i" using Suc.prems(1) by (simp add: unat_of_nat_u32)
  have ph: "ucast (ld16 ?m (elf + 44)) = (of_nat ?k :: u32)"
    using r(6) by (simp add: elf_phnum_def)
  have lt: "(of_nat i :: u32) < ucast (ld16 ?m (elf + 44)) \<longleftrightarrow> i < ?k"
    unfolding ph using i k by (simp add: word_less_nat_alt unat_of_nat_u32)
  show ?case
  proof (cases "i < ?k")
    case False
    then have "[i..<?k] = []" by simp
    then show ?thesis using False lt by (simp add: load16_def eh_at_def bindE_def getE_def returnE_def)
  next
    case True
    let ?sg = "concat (map seg_code (elf_seg m elf i))"
    have sg: "elf_seg ?m elf i = elf_seg m elf i" by (rule r(8) [OF _ True])
    have IH: "gen_segments n (of_nat (Suc i)) elf mo (emit (is @ ?sg) w) =
      (Ok (), emit ((is @ ?sg) @ concat (map seg_code (concat (map (elf_seg m elf) [Suc i..<?k])))) w)"
      by (rule Suc.IH) (use True Suc.prems length_elf_seg [of m elf i] in auto)
    have step: "gen_segments (Suc n) (of_nat i) elf mo (emit is w) =
      bindE (if ld32 ?m (ph_addr ?m elf i) \<noteq> 1 then returnE ()
    else gen_elf_segment (ld32 ?m (ph_addr ?m elf i + 12)) (elf + ld32 ?m (ph_addr ?m elf i + 4))
      (ld32 ?m (ph_addr ?m elf i + 16)) (ld32 ?m (ph_addr ?m elf i + 20) - ld32 ?m (ph_addr ?m elf i + 16)))
       (\<lambda>_. gen_segments n (of_nat i + 1) elf mo) (emit is w)"
      using True lt r(1) m(2)
      by (simp add: load16_def load32_def eh_at_def ph_at_def module_at_def ph_addr_def bindE_def getE_def Let_def)
    show ?thesis unfolding step bindE_cases(1) [OF emit_elf_seg] emit_append sg
      using IH True by (simp add: upt_conv_Cons add.commute)
  qed
qed simp

section \<open>Starting a module\<close>

text \<open>The memory after the changes to the multiboot information: the first module is skipped.\<close>

definition next_mbi :: "mem \<Rightarrow> u32 \<Rightarrow> mem" where
  "next_mbi m mbi =
     (let mo = ld32 m (mbi + 24);
          m = st32 (mbi + 20) (ld32 m (mbi + 20) - 1) (st32 (mbi + 24) (mo + 16) m);
          m = st32 (mbi + 16) (ld32 m (mo + 8)) m
      in st32 mbi (SET_FLAG (ld32 m mbi) 2) m)"

definition is_multiboot :: "mem \<Rightarrow> u32 \<Rightarrow> bool" where
  "is_multiboot m start \<longleftrightarrow> (let mb = find_mbh 8192 (start + 32768) start m in
     ld32 m (mb + 4) AND 0x00010000 \<noteq> 0 \<and> ld32 m mb = MBI_MAGIC1)"

definition elf_ok :: "mem \<Rightarrow> u32 \<Rightarrow> bool" where
  "elf_ok m elf \<longleftrightarrow> ld32 m elf = 0x464c457f \<and> ld16 m (elf + 4) = 0x0101 \<and> ld16 m (elf + 16) = 2 \<and>
     ld16 m (elf + 18) = 3 \<and> ld32 m (elf + 20) = 1 \<and> 32 \<le> ld16 m (elf + 42)"

lemma check_elf_result: "check_elf elf w = (if elf_ok (w_mem w) elf then Ok () else Throw ERROR_BAD_ELF_HEADER, w)"
  by (auto simp: check_elf_def elf_ok_def load32_def load16_def eh_at_def bindE_def getE_def throwE_def returnE_def
      ERROR_if_def not_le)

lemma bind_mem:
  "bindE (load32 a) k w = k (ld32 (w_mem w) a) w" "bindE (load16 a) l w = l (ld16 (w_mem w) a) w"
  "bindE (store32 a v) j w = j () (w\<lparr>w_mem := st32 a v (w_mem w)\<rparr>)" "bindE (getE f) h w = h (f w) w"
  by (simp_all add: load32_def load16_def store32_def bindE_def getE_def modifyE_def)

text \<open>The first part of \<open>start_module\<close>.\<close>

lemma start_module_head:
  assumes "ld32 (w_mem w) (mbi + 20) \<noteq> 0" "mo = ld32 (w_mem w) (mbi + 24)" "m = next_mbi (w_mem w) mbi"
    and "start = ld32 m mo" "\<not> is_multiboot m start"
  shows "start_module hw mbi w =
     bindE (gen_module mo (find_mbh 8192 (start + 32768) start m) False start) (\<lambda>_.
     bindE (gen_mov EAX MBI_MAGIC2) (\<lambda>_.
     bindE (load32 (start + 24)) (enter_module hw mbi))) (w\<lparr>w_mem := m\<rparr>)"
proof -
  have mb: "(ld32 m (find_mbh 8192 (start + 32768) start m + 4) AND 0x00010000 \<noteq> 0 \<and>
      ld32 m (find_mbh 8192 (start + 32768) start m) = MBI_MAGIC1) = False"
    using assms(5) by (simp add: is_multiboot_def Let_def)
  have m: "st32 mbi (SET_FLAG (ld32 (st32 (mbi + 16) (ld32 (st32 (mbi + 20) (ld32 (w_mem w) (mbi + 20) - 1) (st32 (mbi + 24) (mo + 16) (w_mem w))) (mo + 8)) (st32 (mbi + 20) (ld32 (w_mem w) (mbi + 20) - 1) (st32 (mbi + 24) (mo + 16) (w_mem w)))) mbi) 2)
      (st32 (mbi + 16) (ld32 (st32 (mbi + 20) (ld32 (w_mem w) (mbi + 20) - 1) (st32 (mbi + 24) (mo + 16) (w_mem w))) (mo + 8)) (st32 (mbi + 20) (ld32 (w_mem w) (mbi + 20) - 1) (st32 (mbi + 24) (mo + 16) (w_mem w)))) = m"
    by (simp add: assms(2,3) next_mbi_def Let_def)
  show ?thesis
    using assms(1)
    by (simp add: start_module_def bind_mem mb mbi_at_def module_at_def mbh_at_def eh_at_def
        assms(2) [symmetric] m assms(4) [symmetric] Let_def del: find_mbh.simps)
qed

lemma enter_module_run:
  assumes "wait_returns hw" "screen_ok (w_screen w)"
  shows "\<exists>d s. enter_module hw mbi entry w =
    (Stop (Jump TRAMPOLINE_ADDRESS 0 mbi), (emit [Mov EDX entry, JmpEdx] w)\<lparr>w_dev := d, w_screen := s\<rparr>)"
proof -
  let ?w = "emit [Mov EDX entry] w"
  let ?msg = "str (''jumping to next segment...'' @ [CHR 0x0A])"
  have "prints (out_info ?msg)" unfolding out_info_def by (intro prints_bindE prints_out_string prints_out_char) auto
  then obtain a s where s: "out_info ?msg (w_screen ?w) = (Ok a, s)" "screen_ok s"
    using assms(2) unfolding prints_def by (auto simp: emit_def)
  let ?v = "?w\<lparr>w_screen := s\<rparr>"
  have "wpE (wait hw 1000) (\<lambda>r u. r = Ok () \<and> (\<exists>d. u = ?v\<lparr>w_dev := d\<rparr>)) ?v"
    by (rule wpE_wait [OF assms(1)]) auto
  then obtain d where d: "wait hw 1000 ?v = (Ok (), ?v\<lparr>w_dev := d\<rparr>)" by (auto simp: wpE_def split: prod.splits)
  have "on_screen (out_info ?msg) ?w = (Ok a, ?v)" using s(1) by (simp add: on_screen_def)
  then have "enter_module hw mbi entry w = (Stop (Jump TRAMPOLINE_ADDRESS 0 mbi), emit [JmpEdx] (?v\<lparr>w_dev := d\<rparr>))"
    using d by (simp add: enter_module_def bindE_def gen_mov_emits gen_jmp_emits stopE_def)
  moreover have "emit [JmpEdx] (?v\<lparr>w_dev := d\<rparr>) = (emit [Mov EDX entry, JmpEdx] w)\<lparr>w_dev := d, w_screen := s\<rparr>"
    by (simp only: emit_upd emit_append append_Cons append_Nil)
  ultimately show ?thesis by auto
qed

lemma length_segments: "length (encs (concat (map seg_code segs))) = 24 * length segs"
  by (induction segs) simp_all

lemma length_elf_segments: "length (elf_segments m elf) \<le> elf_phnum m elf"
proof -
  have "length (elf_seg m elf i) \<le> 1" for i by (simp add: elf_seg_def Let_def)
  then have "length (concat (map (elf_seg m elf) xs)) \<le> length xs" for xs
    by (induction xs) (auto intro: order.trans [OF add_mono])
  from this [of "[0..<elf_phnum m elf]"] show ?thesis by (simp add: elf_segments_def)
qed

text \<open>The region the generated program takes, for so many segments.\<close>

definition trampoline :: "mem \<Rightarrow> u32 \<Rightarrow> u32 set" where
  "trampoline m elf = footprint TRAMPOLINE_ADDRESS (24 * elf_phnum m elf + 12)"

lemma start_elf_emits:
  assumes "ld32 (w_mem w) (mbi + 20) \<noteq> 0" "mo = ld32 (w_mem w) (mbi + 24)" "m = next_mbi (w_mem w) mbi"
    and "elf = ld32 m mo" "\<not> is_multiboot m elf" "elf_ok m elf"
    and "w_code w = TRAMPOLINE_ADDRESS" "wait_returns hw" "screen_ok (w_screen w)"
    and "elf_reads m mo elf \<inter> trampoline m elf = {}"
  shows "\<exists>d s. start_module hw mbi w = (Stop (Jump TRAMPOLINE_ADDRESS 0 mbi),
    (emit (prog (elf_segments m elf) (ld32 m (elf + 24))) (w\<lparr>w_mem := m\<rparr>))\<lparr>w_dev := d, w_screen := s\<rparr>)"
proof -
  let ?w = "w\<lparr>w_mem := m\<rparr>" and ?N = "24 * elf_phnum m elf + 12" and ?segs = "elf_segments m elf"
  let ?is = "concat (map seg_code ?segs)"
  have disj: "elf_reads m mo elf \<inter> footprint (w_code ?w) ?N = {}" using assms(7,10) by (simp add: trampoline_def)
  have phnum: "elf_phnum m elf < 65536" using unsigned_less [of "ld16 m (elf + 44)"] by (simp add: elf_phnum_def)
  have gen: "gen_segments 65536 0 elf mo ?w = (Ok (), emit ?is ?w)"
    using gen_segments_emits [of m mo elf ?w ?N 0 65536 "[]", OF disj _ assms(4) [symmetric]] phnum
    by (simp add: elf_segments_def del: gen_segments.simps)
  have "w_mem (emit (?is @ [Mov EAX MBI_MAGIC2]) ?w) x = m x" if "x \<in> elf_reads m mo elf" for x
    by (rule emit_reads [OF disj _ _ that])
      (use length_elf_segments [of m elf] in \<open>simp_all only: map_append concat_append length_append length_segments, simp_all\<close>)
  then have entry: "ld32 (w_mem (emit (?is @ [Mov EAX MBI_MAGIC2]) ?w)) (elf + 24) = ld32 m (elf + 24)"
    by (rule elf_reads_same(3))
  have "gen_module mo mb False elf ?w = (Ok (), emit ?is ?w)" for mb
    using assms(6) gen by (simp add: gen_module_def bindE_def check_elf_result del: gen_segments.simps)
  then have "start_module hw mbi w = enter_module hw mbi (ld32 m (elf + 24)) (emit (?is @ [Mov EAX MBI_MAGIC2]) ?w)"
    unfolding start_module_head [OF assms(1-5)]
    by (simp add: bindE_cases(1) gen_mov_emits emit_append bind_mem entry del: find_mbh.simps)
  moreover obtain d s where "enter_module hw mbi (ld32 m (elf + 24)) (emit (?is @ [Mov EAX MBI_MAGIC2]) ?w) =
      (Stop (Jump TRAMPOLINE_ADDRESS 0 mbi),
       (emit [Mov EDX (ld32 m (elf + 24)), JmpEdx] (emit (?is @ [Mov EAX MBI_MAGIC2]) ?w))\<lparr>w_dev := d, w_screen := s\<rparr>)"
    using enter_module_run [OF assms(8), of "emit (?is @ [Mov EAX MBI_MAGIC2]) ?w" mbi "ld32 m (elf + 24)"]
      assms(9) emit_screen [of "?is @ [Mov EAX MBI_MAGIC2]" ?w] by auto
  ultimately show ?thesis by (auto simp: emit_append prog_def)
qed

text \<open>
  C15: \<open>start_module\<close> boots an ELF module. It jumps to the program it generated at \<open>0x7c00\<close>, and that
  program, run on the processor, copies every loadable segment to its physical address, clears
  the rest of the segment, and enters the module at its entry point with the multiboot magic in
  \<open>eax\<close> and the multiboot information in \<open>ebx\<close>. The multiboot information then starts at the second
  module. Needed is that neither the headers the generator reads nor the segments overlap the
  generated program, which the code does not check.
\<close>

theorem start_module_boots_elf:
  assumes "ld32 (w_mem w) (mbi + 20) \<noteq> 0" "mo = ld32 (w_mem w) (mbi + 24)" "m = next_mbi (w_mem w) mbi"
    and "elf = ld32 m mo" "\<not> is_multiboot m elf" "elf_ok m elf"
    and "w_code w = TRAMPOLINE_ADDRESS" "wait_returns hw" "screen_ok (w_screen w)"
    and "elf_reads m mo elf \<inter> trampoline m elf = {}"
    and "\<forall>sg \<in> set (elf_segments m elf). target sg \<inter> trampoline m elf = {}"
    and "eip c = TRAMPOLINE_ADDRESS" "regs c EAX = 0" "regs c EBX = mbi"
  shows "\<exists>w' n c'. start_module hw mbi w = (Stop (Jump TRAMPOLINE_ADDRESS 0 mbi), w') \<and>
    (\<forall>x. x \<notin> trampoline m elf \<longrightarrow> w_mem w' x = m x) \<and>
    run n (c, w_mem w') = Some (c', fold load_seg (elf_segments m elf) (w_mem w')) \<and>
    eip c' = ld32 m (elf + 24) \<and> regs c' EAX = MBI_MAGIC2 \<and> regs c' EBX = mbi"
proof -
  let ?segs = "elf_segments m elf" and ?e = "ld32 m (elf + 24)"
  let ?p = "prog ?segs ?e" and ?w = "w\<lparr>w_mem := m\<rparr>"
  obtain d s where r: "start_module hw mbi w = (Stop (Jump TRAMPOLINE_ADDRESS 0 mbi), (emit ?p ?w)\<lparr>w_dev := d, w_screen := s\<rparr>)"
    using start_elf_emits [OF assms(1-10)] by blast
  let ?m = "poke TRAMPOLINE_ADDRESS (encs ?p) m"
  have phnum: "elf_phnum m elf < 65536" using unsigned_less [of "ld16 m (elf + 44)"] by (simp add: elf_phnum_def)
  have len: "length (encs ?p) = 24 * length ?segs + 12" 
    unfolding prog_def map_append concat_append length_append length_segments by simp
  then have le: "length (encs ?p) \<le> 24 * elf_phnum m elf + 12" using length_elf_segments [of m elf] by simp
  have sub: "footprint TRAMPOLINE_ADDRESS (length (encs ?p)) \<subseteq> trampoline m elf"
    unfolding trampoline_def by (rule footprint_take [OF le])
  have code: "code_at ?m (eip c) ?p" unfolding code_at_def assms(12) by (rule bytes_at_poke) (use le phnum in simp)
  have "\<forall>sg \<in> set ?segs. target sg \<inter> footprint (eip c) (length (encs ?p)) = {}"
    using assms(11,12) sub by fastforce
  from run_prog [OF code assms(13) this] obtain n c' where "run n (c, ?m) = Some (c', fold load_seg ?segs ?m)"
    "eip c' = ?e" "regs c' EAX = MBI_MAGIC2" "regs c' EBX = mbi" using assms(14) by auto
  moreover have "?m x = m x" if "x \<notin> trampoline m elf" for x using poke_outside sub that by blast
  ultimately show ?thesis using r assms(7) by (auto simp: emit_def)
qed

subsection \<open>An example\<close>

lemma footprint_disjoint:
  assumes "unat a + n \<le> unat b" "unat b + k \<le> 2 ^ 32"
  shows "footprint a n \<inter> footprint b k = {}"
proof -
  have "False" if "i < n" "j < k" "a + of_nat i = b + of_nat j" for i j
  proof -
    have u: "unat (x + of_nat k) = unat x + k" if "unat x + k < 2 ^ 32" for x :: u32 and k
      using unat_of_nat_u32 [of "unat x + k"] that by simp
    have "unat a + i < 2 ^ 32" "unat b + j < 2 ^ 32" using that(1,2) assms by linarith+
    from this [THEN u] show False using that assms by simp
  qed
  then show ?thesis by (auto simp: footprint_def)
qed

lemma bytes_at_4: "bytes_at m a 4 = [m a, m (a + 1), m (a + 2), m (a + 3)]"
  and bytes_at_two: "bytes_at m a 2 = [m a, m (a + 1)]"
  by (simp_all add: bytes_at_def upt_rec)

lemma apart:
  assumes "4 \<le> b - a" "4 \<le> a - b" "i < 4" "j < 4"
  shows "b + of_nat i \<noteq> (a :: u32) + of_nat j"
proof
  assume eq: "b + of_nat i = a + of_nat j"
  then have e: "b - a = of_nat j - of_nat i" "a - b = of_nat i - of_nat j" by (simp_all add: algebra_simps)
  have u: "unat (of_nat (k - l) :: u32) = k - l" if "k < 4" for k l using that by (simp add: unat_of_nat)
  show False
  proof (cases "i \<le> j")
    case True
    then have "b - a = of_nat (j - i)" using e by (simp add: of_nat_diff)
    then show False using assms u [of j i] by (simp add: word_le_nat_alt)
  next
    case False
    then have "a - b = of_nat (i - j)" using e by (simp add: of_nat_diff)
    then show False using assms u [of i j] by (simp add: word_le_nat_alt)
  qed
qed

lemma st32_outside: "4 \<le> b - a \<Longrightarrow> 4 \<le> a - b \<Longrightarrow> i < 4 \<Longrightarrow> st32 a v m (b + of_nat i) = m (b + of_nat i)"
  using apart [of b a i 0] apart [of b a i 1] apart [of b a i 2] apart [of b a i 3] by (simp add: st32_def)

lemma low16: "ucast (ucast v :: u8) OR push_bit 8 (ucast (ucast (drop_bit 8 v) :: u8)) = (ucast (v :: u32) :: u16)"
  by (rule bit_word_eqI) (auto simp: bit_simps not_less)

text \<open>Reading back what was stored, at the same address and elsewhere.\<close>

lemma ld_st:
  "ld32 (st32 a v m) a = v" "ld16 (st32 a v m) a = ucast v"
  "b - a = 2 \<Longrightarrow> ld16 (st32 a v m) b = ucast (drop_bit 16 v)"
  "4 \<le> b - a \<Longrightarrow> 4 \<le> a - b \<Longrightarrow> ld32 (st32 a v m) b = ld32 m b"
  "4 \<le> b - a \<Longrightarrow> 4 \<le> a - b \<Longrightarrow> ld16 (st32 a v m) b = ld16 m b"
proof -
  have "bytes_at (st32 a v m) a 4 = le32 v" by (simp add: bytes_at_4 st32_def le32_def)
  then show "ld32 (st32 a v m) a = v" by (simp add: ld32_def)
  show "ld16 (st32 a v m) a = ucast v" by (simp add: ld16_def st32_def bytes_at_two of_le16_def low16)
  show "ld16 (st32 a v m) b = ucast (drop_bit 16 v)" if "b - a = 2"
    using low16 [of "drop_bit 16 v"] that by (simp add: diff_eq_eq ld16_def st32_def bytes_at_two of_le16_def)
  show "ld32 (st32 a v m) b = ld32 m b" "ld16 (st32 a v m) b = ld16 m b" if "4 \<le> b - a" "4 \<le> a - b"
    using st32_outside [OF that, of 0] st32_outside [OF that, of 1] st32_outside [OF that, of 2]
      st32_outside [OF that, of 3] by (simp_all add: ld32_def ld16_def bytes_at_4 bytes_at_two)
qed

text \<open>
  An image at \<open>0x100000\<close> with one segment of four bytes and four bytes of zeroes, whose identification
  has the multiboot magic (and no load flag) in its padding.
\<close>

definition elf_mem :: mem where
  "elf_mem =
     st32 0x1014 1 (st32 0x1018 0x2000 (st32 0x2000 0x100000 (st32 0x2004 0x100058 (st32 0x2008 0x3000
      (st32 0x100000 0x464c457f (st32 0x100004 0x00010101 (st32 0x100008 MBI_MAGIC1 (st32 0x10000c 0
      (st32 0x100010 0x00030002 (st32 0x100014 1 (st32 0x100018 0x200001 (st32 0x10001c 0x34
      (st32 0x100028 0x00200034 (st32 0x10002c 1
      (st32 0x100034 1 (st32 0x100038 0x54 (st32 0x100040 0x200000 (st32 0x100044 4 (st32 0x100048 8
      (st32 0x100054 0xdeadbeef (\<lambda>_. 0)))))))))))))))))))))"

definition elf_world :: "nat sim world" where
  "elf_world = (sim_world 0 heap2k)\<lparr>w_mem := elf_mem\<rparr>"

lemma find_mbh_step:
  "0 < n \<Longrightarrow> find_mbh n stop ptr m =
     (if ptr < stop \<and> ld32 m ptr \<noteq> MBI_MAGIC1 then find_mbh (n - 1) stop (ptr + 4) m else ptr)"
  by (cases n) (simp_all add: mbh_at_def)

definition elf_mem' :: mem where
  "elf_mem' = next_mbi elf_mem 0x1000"

lemma elf_mem'_eq:
  "elf_mem' = st32 0x1000 4 (st32 0x1010 0x3000 (st32 0x1014 0 (st32 0x1018 0x2010 elf_mem)))"
  by (simp add: elf_mem'_def next_mbi_def elf_mem_def ld_st SET_FLAG_def Let_def) (simp add: ld32_def bytes_at_4 of_le32_def)

lemma elf_image:
  "ld32 elf_mem' 0x2000 = 0x100000" "ld32 elf_mem' 0x100000 = 0x464c457f" "ld16 elf_mem' 0x100004 = 0x0101"
  "ld32 elf_mem' 0x100004 = 0x00010101" "ld32 elf_mem' 0x100008 = MBI_MAGIC1" "ld32 elf_mem' 0x10000c = 0"
  "ld16 elf_mem' 0x100010 = 2" "ld16 elf_mem' 0x100012 = 3" "ld32 elf_mem' 0x100014 = 1"
  "ld32 elf_mem' 0x100018 = 0x200001" "ld32 elf_mem' 0x10001c = 0x34" "ld16 elf_mem' 0x10002a = 0x20"
  "ld16 elf_mem' 0x10002c = 1" "ld32 elf_mem' 0x100034 = 1" "ld32 elf_mem' 0x100038 = 0x54"
  "ld32 elf_mem' 0x100040 = 0x200000" "ld32 elf_mem' 0x100044 = 4" "ld32 elf_mem' 0x100048 = 8"
  by (simp_all add: elf_mem'_eq elf_mem_def ld_st)

lemma elf_image_facts:
  "\<not> is_multiboot elf_mem' 0x100000" "elf_ok elf_mem' 0x100000" "elf_phnum elf_mem' 0x100000 = 1"
  "elf_segments elf_mem' 0x100000 = [(0x200000, 0x100054, 4, 4)]"
  by (simp_all add: is_multiboot_def find_mbh_step elf_image MBI_MAGIC1_def elf_ok_def elf_phnum_def elf_segments_def
      elf_seg_def ph_addr_def Let_def)

theorem start_module_boots_elf_witness:
  "\<exists>w' n c'. start_module (sim_hw echo_run 0) 0x1000 elf_world = (Stop (Jump TRAMPOLINE_ADDRESS 0 0x1000), w') \<and>
    run n (\<lparr>eip = TRAMPOLINE_ADDRESS, regs = (\<lambda>_. 0)(EBX := 0x1000)\<rparr>, w_mem w') =
      Some (c', load_seg (0x200000, 0x100054, 4, 4) (w_mem w')) \<and> eip c' = 0x200001"
proof -
  have t: "trampoline elf_mem' 0x100000 = footprint 0x7c00 36"
    by (simp add: trampoline_def elf_image_facts TRAMPOLINE_ADDRESS_def)
  have r: "elf_reads elf_mem' 0x2000 0x100000 \<inter> trampoline elf_mem' 0x100000 = {}"
    unfolding t elf_reads_def elf_image_facts
    using footprint_disjoint [of "0x2000" 16 "0x7c00" 36] footprint_disjoint [of "0x7c00" 36 "0x100000" 52]
      footprint_disjoint [of "0x7c00" 36 "0x100034" 32]
    by (auto simp: ph_addr_def elf_image)
  have tg: "\<forall>sg \<in> set (elf_segments elf_mem' 0x100000). target sg \<inter> trampoline elf_mem' 0x100000 = {}"
    unfolding t elf_image_facts using footprint_disjoint [of "0x7c00" 36 "0x200000" 8] by auto
  have w: "ld32 (w_mem elf_world) (0x1000 + 20) \<noteq> 0" "0x2000 = ld32 (w_mem elf_world) (0x1000 + 24)"
    "elf_mem' = next_mbi (w_mem elf_world) 0x1000" "w_code elf_world = TRAMPOLINE_ADDRESS" "screen_ok (w_screen elf_world)"
    by (simp_all add: elf_world_def sim_world_def elf_mem'_def elf_mem_def ld_st TRAMPOLINE_ADDRESS_def screen_ok_def)
  let ?c = "\<lparr>eip = TRAMPOLINE_ADDRESS, regs = (\<lambda>_. 0)(EBX := 0x1000)\<rparr>"
  show ?thesis
    using start_module_boots_elf [where w = elf_world and mbi = "0x1000" and mo = "0x2000" and m = elf_mem' and
        elf = "0x100000" and c = ?c, OF w(1-3) elf_image(1) [symmetric] elf_image_facts(1,2) w(4) sim_wait_returns [where run = echo_run and loc = 0] w(5) r tg]
    by (fastforce simp: elf_image elf_image_facts simp del: load_seg.simps)
qed

end
