(* ===== verification/Sable_Correct.thy ===== *)
theory Sable_Correct
  imports Sable TPM_Auth ELF_Correct
begin

text \<open>
  Properties of the boot loader that span its components: what is measured, in which order, and
  what the outcome of the measurement is; what the passphrase is bound to; what reaches the next
  module.
\<close>

section \<open>Measuring\<close>

text \<open>A TPM that answers every command in time with a response of the size it announces.\<close>

definition prompt :: "('d, 'c) tpm \<Rightarrow> bool" where
  "prompt td \<longleftrightarrow> (\<forall>k q. case tpm_run td k q of (t, r, k') \<Rightarrow>
     t < 4000 \<and> 10 \<le> length r \<and> length r \<le> 1024 \<and> paramSize r = of_nat (length r))"

text \<open>The specification of \<open>TPM_Extend\<close> on PCR 19: the error, if any, and the TPM afterwards.\<close>

definition extend_req :: "bytes \<Rightarrow> bytes" where
  "extend_req d = be16 TPM_TAG_RQU_COMMAND @ be32 34 @ be32 TPM_ORD_Extend @ be32 19 @ d"

definition outcome20 :: "bytes \<Rightarrow> ERROR option" where
  "outcome20 r = (let tag = of_be16 (take 2 r); res = of_be32 (take 4 (drop 6 r)) in
     if res \<noteq> 0 then Some (ERROR_TPM (0x80 OR res))
     else if length r \<noteq> 30 \<or> tag \<noteq> TPM_TAG_RSP_COMMAND then Some ERROR_TPM_BAD_OUTPUT_PARAM else None)"

definition extend_spec :: "('d, 'c) tpm \<Rightarrow> 'c \<Rightarrow> bytes \<Rightarrow> ERROR option \<times> 'c" where
  "extend_spec td k d = (case tpm_run td k (extend_req d) of (t, r, k') \<Rightarrow> (outcome20 r, k'))"

text \<open>Extending by a list of digests, up to the first error.\<close>

fun measure_all :: "('d, 'c) tpm \<Rightarrow> 'c \<Rightarrow> bytes list \<Rightarrow> ERROR option \<times> 'c" where
  "measure_all td k [] = (None, k)"
| "measure_all td k (d # ds) = (case extend_spec td k d of
     (None, k') \<Rightarrow> measure_all td k' ds | (Some e, k') \<Rightarrow> (Some e, k'))"

lemma measure_all_append:
  "measure_all td k (ds @ es) = (case measure_all td k ds of
     (None, k') \<Rightarrow> measure_all td k' es | (Some e, k') \<Rightarrow> (Some e, k'))"
  by (induction td k ds rule: measure_all.induct) (auto split: prod.splits option.splits)

text \<open>The outcome as a result.\<close>

definition ends :: "ERROR option \<Rightarrow> 'a \<Rightarrow> 'a res" where
  "ends e a = (case e of None \<Rightarrow> Ok a | Some e \<Rightarrow> Throw e)"

lemma ends_simps [simp]: "ends None a = Ok a" "ends (Some e) a = Throw e"
  by (simp_all add: ends_def)

lemma response_split:
  assumes "10 \<le> length r"
  shows "r = be16 (of_be16 (take 2 r)) @ be32 (paramSize r) @ be32 (of_be32 (take 4 (drop 6 r))) @ drop 10 r"
proof -
  have "r = take 2 r @ take 4 (drop 2 r) @ take 4 (drop 6 r) @ drop 10 r"
    using append_take_drop_id [of 4 "drop 6 r"] append_take_drop_id [of 4 "drop 2 r"] by simp
  then show ?thesis using assms
    by (simp add: be16_of_be16 be32_of_be32 paramSize_def slice_def)
qed

text \<open>The state between two measurements.\<close>

definition measuring :: "'d hw \<Rightarrow> ('d, 'c) tpm \<Rightarrow> 'd world \<Rightarrow> 'c \<Rightarrow> 'd world \<Rightarrow> bool" where
  "measuring hw td w0 k w \<longleftrightarrow> tpm_ready hw td k w \<and> w_mem w = w_mem w0 \<and> w_heap w = w_heap w0 \<and> w_kbd w = w_kbd w0 \<and>
     w_code w = w_code w0 \<and> w_locality w = w_locality w0 \<and> w_sessions w = w_sessions w0 \<and> w_objs w = w_objs w0 \<and>
     screen_ok (w_screen w)"

lemma Extend_measures:
  assumes "prompt td" "length d = 20"
  shows "\<exists>body. yields (measuring hw td w0 k) (TPM_Extend hw 19 d) (ends (fst (extend_spec td k d)) body)
    (measuring hw td w0 (snd (extend_spec td k d)))"
proof -
  obtain t r k' where run: "tpm_run td k (extend_req d) = (t, r, k')" by (cases "tpm_run td k (extend_req d)")
  have r: "t < 4000" "10 \<le> length r" "length r \<le> 1024" "paramSize r = of_nat (length r)"
    using assms(1) run by (auto simp: prompt_def split: prod.splits dest!: spec [of _ k] spec [of _ "extend_req d"])
  let ?tag = "of_be16 (take 2 r)" and ?res = "of_be32 (take 4 (drop 6 r))" and ?body = "drop 10 r"
  have "answers td k (extend_req d) r k'" using run r by (auto simp: answers_def)
  then have ans: "answers td k (be16 TPM_TAG_RQU_COMMAND @ be32 34 @ be32 TPM_ORD_Extend @ be32 19 @ d)
      (be16 ?tag @ be32 (paramSize r) @ be32 ?res @ ?body) k'"
    using response_split [OF r(2)] by (simp add: extend_req_def)
  have sp: "extend_spec td k d = (outcome20 r, k')" by (simp add: extend_spec_def run)
  have "yields (measuring hw td w0 k) (TPM_Extend hw 19 d) (ends (outcome20 r) ?body) (measuring hw td w0 k')"
  proof (rule yieldsI)
    fix w assume w: "measuring hw td w0 k w"
    then have "tpm_ready hw td k w" by (simp add: measuring_def)
    from yieldsD [OF Extend_yields [OF this assms(2) ans] refl] obtain w' where
      "TPM_Extend hw 19 d w = (ends (outcome20 r) ?body, w')" "cmd_done hw td k' w (w_heap w) (w_sessions w) (w_objs w) w'"
      using r(2) by (auto simp: outcome20_def Let_def split: if_splits)
    then show "\<exists>w'. TPM_Extend hw 19 d w = (ends (outcome20 r) ?body, w') \<and> measuring hw td w0 k' w'"
      using w by (auto simp: measuring_def cmd_done_def outer_def)
  qed
  then show ?thesis unfolding sp by auto
qed

lemma yields_ends:
  assumes "yields P m (ends e a) Q" "e = None \<Longrightarrow> yields Q (k a) r R" "\<And>x s. e = Some x \<Longrightarrow> Q s \<Longrightarrow> R s"
  shows "yields P (bindE m k) (case e of None \<Rightarrow> r | Some x \<Rightarrow> Throw x) R"
  using assms by (cases e) (auto intro: yields_bind yields_throw yields_weaken)

lemma measuring_upd:
  "measuring hw td w0 k w \<Longrightarrow> sha_wf c \<Longrightarrow> measuring hw td w0 k (w\<lparr>w_sctx := c\<rparr>)"
  by (auto simp: measuring_def tpm_ready_def)

lemma sha1_throw_measures:
  assumes "unat n \<le> length data" "unat n < 2 ^ 29"
  shows "yields (measuring hw td w0 k) (sha1_throw data n) (Ok (SHA1_hash (take (unat n) data))) (measuring hw td w0 k)"
    "yields (measuring hw td w0 k) (sha1_local data n) (Ok (None, SHA1_hash (take (unat n) data))) (measuring hw td w0 k)"
proof -
  have step: "\<exists>c'. sha1_throw data n w = (Ok (SHA1_hash (take (unat n) data)), w\<lparr>w_sctx := c'\<rparr>) \<and>
      sha1_local data n w = (Ok (None, SHA1_hash (take (unat n) data)), w\<lparr>w_sctx := c'\<rparr>) \<and> sha_wf c'"
    if w: "measuring hw td w0 k w" for w
  proof -
    have "sha_wf (w_sctx w)" using w by (simp add: measuring_def tpm_ready_def)
    from sha.hash_prefix [OF this assms] obtain c' where
      "sha1 data n (sha1_init (w_sctx w)) = (Ok (), c')" "sha_hash (sha1_finish c') = SHA1_hash (take (unat n) data)"
      "sha_wf (sha1_finish c')" by auto
    then show ?thesis
      by (intro exI [of _ "sha1_finish c'"])
        (simp add: sha1_throw_def sha1_local_def on_s_def modifyE_def getE_def returnE_def resultE_def bindE_def)
  qed
  show "yields (measuring hw td w0 k) (sha1_throw data n) (Ok (SHA1_hash (take (unat n) data))) (measuring hw td w0 k)"
    "yields (measuring hw td w0 k) (sha1_local data n) (Ok (None, SHA1_hash (take (unat n) data))) (measuring hw td w0 k)"
    by (rule yieldsI, frule step, elim exE conjE, rule exI, rule conjI, assumption, erule measuring_upd, assumption)+
qed

lemma load_measures:
  "yields (measuring hw td w0 k) (f (ld32 (w_mem w0) a)) r R \<Longrightarrow> yields (measuring hw td w0 k) (bindE (load32 a) f) r R"
  unfolding load32_def by (erule yields_getE [rotated]) (simp add: measuring_def)

lemma string_measures:
  "strlen p (w_mem w0) = Some n \<Longrightarrow>
   yields (measuring hw td w0 k) (string_at p) (Ok (bytes_at (w_mem w0) p (unat n + 1))) (measuring hw td w0 k)"
  by (rule yieldsI) (simp add: string_at_def measuring_def)

text \<open>What a module contributes to the measurement, and when it can be measured.\<close>

definition module_ok :: "mem \<Rightarrow> u32 \<Rightarrow> bool" where
  "module_ok m a \<longleftrightarrow> ld32 m a \<le> ld32 m (a + 4) \<and> unat (ld32 m (a + 4) - ld32 m a) < 2 ^ 29 \<and>
     (case strlen (ld32 m (a + 8)) m of None \<Rightarrow> False | Some n \<Rightarrow> unat n < 2 ^ 29)"

definition string_digest :: "mem \<Rightarrow> u32 \<Rightarrow> bytes" where
  "string_digest m p = SHA1_hash (bytes_at m p (unat (the (strlen p m))))"

definition module_digests :: "mem \<Rightarrow> u32 \<Rightarrow> bytes list" where
  "module_digests m a = SHA1_hash (bytes_at m (ld32 m a) (unat (ld32 m (a + 4) - ld32 m a))) #
     (if strlen (ld32 m (a + 8)) m = Some 0 then [] else [string_digest m (ld32 m (a + 8))])"

lemma take_bytes_at: "n \<le> k \<Longrightarrow> take n (bytes_at m a k) = bytes_at m a n" and length_bytes_at: "length (bytes_at m a k) = k"
  by (simp_all add: bytes_at_def take_map)

lemma string_hash_measures:
  assumes "strlen p (w_mem w0) = Some n" "unat n < 2 ^ 29" "prompt td"
  shows "yields (measuring hw td w0 k)
     (bindE (sha1_local (bytes_at (w_mem w0) p (unat n + 1)) (of_nat (length (bytes_at (w_mem w0) p (unat n + 1)) - 1))) (\<lambda>(_, hash).
      bindE (TPM_Extend hw 19 hash) (\<lambda>_. returnE ())))
     (ends (fst (extend_spec td k (string_digest (w_mem w0) p))) ())
     (measuring hw td w0 (snd (extend_spec td k (string_digest (w_mem w0) p))))"
proof -
  let ?d = "string_digest (w_mem w0) p" and ?s = "bytes_at (w_mem w0) p (unat n + 1)"
  have l: "of_nat (length ?s - 1) = n" by (simp add: length_bytes_at)
  have h: "yields (measuring hw td w0 k) (sha1_local ?s n) (Ok (None, ?d)) (measuring hw td w0 k)"
    using sha1_throw_measures(2) [of n ?s] assms by (simp add: length_bytes_at take_bytes_at string_digest_def)
  obtain body where e: "yields (measuring hw td w0 k) (TPM_Extend hw 19 ?d) (ends (fst (extend_spec td k ?d)) body)
      (measuring hw td w0 (snd (extend_spec td k ?d)))"
    using Extend_measures [OF assms(3), of ?d hw w0 k] by (auto simp: string_digest_def)
  have "yields (measuring hw td w0 k) (bindE (TPM_Extend hw 19 ?d) (\<lambda>_. returnE ()))
      (case fst (extend_spec td k ?d) of None \<Rightarrow> Ok () | Some x \<Rightarrow> Throw x) (measuring hw td w0 (snd (extend_spec td k ?d)))"
    by (rule yields_ends [OF e yields_returnE]) auto
  then show ?thesis unfolding l by (intro yields_bind [OF h]) (simp add: ends_def)
qed

lemma hash_module_measures:
  assumes "module_ok (w_mem w0) a" "prompt td"
  shows "yields (measuring hw td w0 k) (hash_module hw a) (ends (fst (measure_all td k (module_digests (w_mem w0) a))) ())
    (measuring hw td w0 (snd (measure_all td k (module_digests (w_mem w0) a))))"
proof -
  let ?m = "w_mem w0"
  let ?start = "ld32 ?m a" and ?fin = "ld32 ?m (a + 4)" and ?p = "ld32 ?m (a + 8)"
  let ?n = "?fin - ?start"
  let ?d = "SHA1_hash (bytes_at ?m ?start (unat ?n))"
  obtain n where n: "strlen ?p ?m = Some n" "unat n < 2 ^ 29" using assms(1) by (auto simp: module_ok_def split: option.splits)
  have ok: "\<not> ?fin < ?start" "unat ?n < 2 ^ 29" using assms(1) by (simp_all add: module_ok_def not_less)
  have h: "yields (measuring hw td w0 k) (sha1_throw (bytes_at ?m ?start (unat ?n)) ?n) (Ok ?d) (measuring hw td w0 k)"
    using sha1_throw_measures(1) [of ?n "bytes_at ?m ?start (unat ?n)"] ok by (simp add: length_bytes_at take_bytes_at)
  obtain body where e: "yields (measuring hw td w0 k) (TPM_Extend hw 19 ?d) (ends (fst (extend_spec td k ?d)) body)
      (measuring hw td w0 (snd (extend_spec td k ?d)))"
    using Extend_measures [OF assms(2), of ?d hw w0 k] by auto
  let ?k = "snd (extend_spec td k ?d)" and ?s = "bytes_at ?m ?p (unat n + 1)"
  let ?rest = "if unat n = 0 then [] else [string_digest ?m ?p]"
  have rest: "yields (measuring hw td w0 ?k)
     (if length ?s - 1 > 0
      then bindE (sha1_local ?s (of_nat (length ?s - 1))) (\<lambda>(_, hash). bindE (TPM_Extend hw 19 hash) (\<lambda>_. returnE ()))
      else returnE ()) (ends (fst (measure_all td ?k ?rest)) ()) (measuring hw td w0 (snd (measure_all td ?k ?rest)))"
    using string_hash_measures [OF n assms(2), of hw ?k] yields_returnE [of "measuring hw td w0 ?k"]
    by (auto simp: length_bytes_at split: prod.split option.split)
  have ds: "module_digests ?m a = ?d # ?rest" using n(1) by (simp add: module_digests_def unat_eq_zero)
  have res: "(case fst (extend_spec td k ?d) of None \<Rightarrow> ends (fst (measure_all td ?k ?rest)) () | Some x \<Rightarrow> Throw x) =
      ends (fst (measure_all td k (?d # ?rest))) ()"
    by (simp split: prod.split option.split)
  have k': "yields (measuring hw td w0 k) (bindE (TPM_Extend hw 19 ?d) (\<lambda>_. bindE (load32 (a + 8)) (\<lambda>p. bindE (string_at p) (\<lambda>strg.
      if length strg - 1 > 0
      then bindE (sha1_local strg (of_nat (length strg - 1))) (\<lambda>(_, hash). bindE (TPM_Extend hw 19 hash) (\<lambda>_. returnE ()))
      else returnE ())))) (ends (fst (measure_all td k (?d # ?rest))) ()) (measuring hw td w0 (snd (measure_all td k (?d # ?rest))))"
    unfolding res [symmetric]
  proof (rule yields_ends [OF e], rule load_measures, rule yields_bind [OF string_measures [OF n(1)]])
    assume "fst (extend_spec td k ?d) = None"
    then have "measure_all td k (?d # ?rest) = measure_all td ?k ?rest" by (cases "extend_spec td k ?d") simp
    with rest show "yields (measuring hw td w0 ?k)
     (if length ?s - 1 > 0
      then bindE (sha1_local ?s (of_nat (length ?s - 1))) (\<lambda>(_, hash). bindE (TPM_Extend hw 19 hash) (\<lambda>_. returnE ()))
      else returnE ()) (ends (fst (measure_all td ?k ?rest)) ()) (measuring hw td w0 (snd (measure_all td k (?d # ?rest))))" by simp
  qed (auto split: prod.split)
  show ?thesis unfolding ds hash_module_def module_at_def module.simps
    apply (rule load_measures, rule load_measures)
    apply (simp only: ok ERROR_if_simps bindE_returnE)
    apply (rule yields_getE [where a = "bytes_at ?m ?start (unat ?n)"], simp add: measuring_def)
    apply (rule yields_bind [OF h])
    by (rule k')
qed

text \<open>
  The digests of a whole boot: the loader's command line when the flag announces one, then the
  modules in the order of their table.
\<close>

definition cmdline_digests :: "mem \<Rightarrow> u32 \<Rightarrow> bytes list" where
  "cmdline_digests m mbi = (if CHECK_FLAG (ld32 m mbi) 2 then [string_digest m (ld32 m (mbi + 16))] else [])"

definition modules_of :: "mem \<Rightarrow> u32 \<Rightarrow> u32 list" where
  "modules_of m mbi = map (\<lambda>i. ld32 m (mbi + 24) + 16 * of_nat i) [0..<unat (ld32 m (mbi + 20))]"

definition boot_digests :: "mem \<Rightarrow> u32 \<Rightarrow> bytes list" where
  "boot_digests m mbi = cmdline_digests m mbi @ concat (map (module_digests m) (modules_of m mbi))"

text \<open>A multiboot information that can be measured.\<close>

definition boot_ok :: "mem \<Rightarrow> u32 \<Rightarrow> bool" where
  "boot_ok m mbi \<longleftrightarrow>
     (CHECK_FLAG (ld32 m mbi) 2 \<longrightarrow> (case strlen (ld32 m (mbi + 16)) m of None \<Rightarrow> False | Some n \<Rightarrow> unat n < 2 ^ 29)) \<and>
     CHECK_FLAG (ld32 m mbi) 3 \<and> ld32 m (mbi + 20) \<noteq> 0 \<and> (\<forall>a \<in> set (modules_of m mbi). module_ok m a)"

lemma foldE_map: "foldE f (map g xs) b = foldE (\<lambda>x. f (g x)) xs b"
  by (induction xs arbitrary: b) simp_all

lemma measure_all_chain:
  "(case fst (measure_all td k ds) of None \<Rightarrow> ends (fst (measure_all td (snd (measure_all td k ds)) es)) a | Some x \<Rightarrow> Throw x) =
   ends (fst (measure_all td k (ds @ es))) a"
  "fst (measure_all td k ds) = None \<Longrightarrow> measure_all td k (ds @ es) = measure_all td (snd (measure_all td k ds)) es"
  "fst (measure_all td k ds) = Some x \<Longrightarrow> measure_all td k (ds @ es) = measure_all td k ds"
  by (auto simp: measure_all_append split: prod.split option.split)

text \<open>Two measurements in sequence.\<close>

lemma measures_seq:
  assumes "yields (measuring hw td w0 k) m (ends (fst (measure_all td k ds)) a) (measuring hw td w0 (snd (measure_all td k ds)))"
    and "\<And>k'. yields (measuring hw td w0 k') (f a) (ends (fst (measure_all td k' es)) b) (measuring hw td w0 (snd (measure_all td k' es)))"
  shows "yields (measuring hw td w0 k) (bindE m f) (ends (fst (measure_all td k (ds @ es))) b)
    (measuring hw td w0 (snd (measure_all td k (ds @ es))))"
  unfolding measure_all_chain(1) [symmetric]
proof (rule yields_ends [OF assms(1)])
  assume "fst (measure_all td k ds) = None"
  then show "yields (measuring hw td w0 (snd (measure_all td k ds))) (f a)
      (ends (fst (measure_all td (snd (measure_all td k ds)) es)) b) (measuring hw td w0 (snd (measure_all td k (ds @ es))))"
    using assms(2) by (simp add: measure_all_chain(2))
qed (simp add: measure_all_chain(3))

lemma modules_measure:
  assumes "\<forall>a \<in> set as. module_ok (w_mem w0) a" "prompt td"
  shows "yields (measuring hw td w0 k) (foldE (\<lambda>a _. hash_module hw a) as ())
    (ends (fst (measure_all td k (concat (map (module_digests (w_mem w0)) as)))) ())
    (measuring hw td w0 (snd (measure_all td k (concat (map (module_digests (w_mem w0)) as)))))"
  using assms(1)
proof (induction as arbitrary: k)
  case Nil
  show ?case by (simp add: yields_returnE)
next
  case (Cons a as)
  show ?case unfolding foldE.simps list.map concat.simps
    by (rule measures_seq [OF hash_module_measures]) (use Cons assms(2) in simp_all)
qed

lemma on_screen_measures:
  assumes "prints m" "yields (measuring hw td w0 k) f r R"
  shows "yields (measuring hw td w0 k) (bindE (on_screen m) (\<lambda>_. f)) r R"
proof (rule yieldsI)
  fix w assume w: "measuring hw td w0 k w"
  then have "screen_ok (w_screen w)" by (simp add: measuring_def)
  then obtain a s where s: "m (w_screen w) = (Ok a, s)" "screen_ok s" using assms(1) by (auto simp: prints_def)
  then have "measuring hw td w0 k (w\<lparr>w_screen := s\<rparr>)" using w by (auto simp: measuring_def tpm_ready_def)
  from yieldsD [OF assms(2) this] show "\<exists>w'. bindE (on_screen m) (\<lambda>_. f) w = (r, w') \<and> R w'"
    using s(1) by (simp add: bindE_def on_screen_def)
qed

lemma prints_description: "0 \<in> set msg \<Longrightarrow> prints (out_description msg v)"
  unfolding out_description_def by (intro prints_bindE prints_out_string prints_out_char prints_out_hex prints_returnE) simp_all

lemma cmdline_measures:
  assumes "boot_ok (w_mem w0) mbi" "prompt td"
  shows "yields (measuring hw td w0 k)
     (if CHECK_FLAG (ld32 (w_mem w0) mbi) 2
      then bindE (load32 (mbi_cmdline (mbi_at mbi))) (\<lambda>p.
           bindE (string_at p) (\<lambda>strg.
           bindE (sha1_local strg (of_nat (length strg - 1))) (\<lambda>(_, hash).
           bindE (TPM_Extend hw 19 hash) (\<lambda>_. returnE ()))))
      else returnE ())
     (ends (fst (measure_all td k (cmdline_digests (w_mem w0) mbi))) ())
     (measuring hw td w0 (snd (measure_all td k (cmdline_digests (w_mem w0) mbi))))"
proof (cases "CHECK_FLAG (ld32 (w_mem w0) mbi) 2")
  case True
  let ?p = "ld32 (w_mem w0) (mbi + 16)" and ?d = "string_digest (w_mem w0) (ld32 (w_mem w0) (mbi + 16))"
  obtain n where n: "strlen ?p (w_mem w0) = Some n" "unat n < 2 ^ 29"
    using assms(1) True by (auto simp: boot_ok_def split: option.splits)
  have one: "fst (measure_all td k [?d]) = fst (extend_spec td k ?d)" "snd (measure_all td k [?d]) = snd (extend_spec td k ?d)"
    by (auto split: prod.split option.split)
  show ?thesis using True unfolding cmdline_digests_def mbi_at_def mbi.simps
    by (simp only: if_True one)
      (rule load_measures, rule yields_bind [OF string_measures [OF n(1)]], rule string_hash_measures [OF n assms(2)])
qed (simp add: cmdline_digests_def yields_returnE)

lemma pass_ERROR_if: "\<not> c \<Longrightarrow> yields P f r R \<Longrightarrow> yields P (bindE (ERROR_if c e) (\<lambda>_. f)) r R"
  by (simp add: yields_def bindE_def returnE_def)

lemma calc_hash_yields:
  assumes ok: "boot_ok (w_mem w0) mbi" and p: "prompt td"
  shows "yields (measuring hw td w0 k) (mbi_calc_hash hw mbi)
    (ends (fst (measure_all td k (boot_digests (w_mem w0) mbi))) ())
    (measuring hw td w0 (snd (measure_all td k (boot_digests (w_mem w0) mbi))))"
proof -
  let ?m = "w_mem w0"
  have ms: "yields (measuring hw td w0 k') (foldE (\<lambda>i _. hash_module hw (ld32 ?m (mbi + 24) + 16 * of_nat i)) [0..<unat (ld32 ?m (mbi + 20))] ())
      (ends (fst (measure_all td k' (concat (map (module_digests ?m) (modules_of ?m mbi))))) ())
      (measuring hw td w0 (snd (measure_all td k' (concat (map (module_digests ?m) (modules_of ?m mbi))))))" for k'
    using modules_measure [of "modules_of ?m mbi" w0 td hw k'] ok p by (simp add: boot_ok_def modules_of_def foldE_map)
  have fl: "\<not> (\<not> CHECK_FLAG (ld32 ?m mbi) 3)" "\<not> (ld32 ?m (mbi + 20) = 0)" using ok by (simp_all add: boot_ok_def)
  have z: "0 \<in> set (str ''Hashing modules count'')" by (simp add: str_def)
  show ?thesis unfolding mbi_calc_hash_def boot_digests_def
    apply (subst mbi_at_def, simp only: mbi.simps)
    apply (rule load_measures)
    apply (rule measures_seq [OF cmdline_measures [OF ok p]])
    apply (rule pass_ERROR_if [OF fl(1)])
    apply (subst mbi_at_def, simp only: mbi.simps)
    apply (rule load_measures)
    apply (rule pass_ERROR_if [OF fl(2)])
    apply (rule on_screen_measures [OF prints_description [OF z]])
    apply (subst mbi_at_def, simp only: mbi.simps)
    apply (rule load_measures)
    by (rule ms)
qed

text \<open>
  C4: \<open>mbi_calc_hash\<close> measures the boot and nothing else: on a TPM that answers every command in time, it
  extends PCR 19 by the digest of the loader's command line (when its flag is set), then for every
  module of the table in order by the digest of its image and, when it is not empty, of its command
  line, each over exactly the bytes from \<open>mod_start\<close> to \<open>mod_end\<close> (to the terminating zero); it stops
  at the first extension the TPM refuses, with that error, returns otherwise, and leaves memory,
  heap, sessions, keyboard and locality as they were.
\<close>

theorem mbi_calc_hash_measures:
  assumes "tpm_ready hw td k w" "prompt td" "screen_ok (w_screen w)" "boot_ok (w_mem w) mbi"
    and "measure_all td k (boot_digests (w_mem w) mbi) = (e, k')"
  shows "\<exists>w'. mbi_calc_hash hw mbi w = (case e of None \<Rightarrow> Ok () | Some x \<Rightarrow> Throw x, w') \<and>
    tpm_ready hw td k' w' \<and> w_mem w' = w_mem w \<and> w_heap w' = w_heap w \<and> w_kbd w' = w_kbd w \<and>
    w_locality w' = w_locality w \<and> w_sessions w' = w_sessions w \<and> w_objs w' = w_objs w"
proof -
  have "measuring hw td w k w" using assms by (simp add: measuring_def)
  from yieldsD [OF calc_hash_yields [OF assms(4,2)] this] show ?thesis
    using assms(5) by (auto simp: measuring_def ends_def)
qed

text \<open>
  A TPM that keeps the documented promise of \<open>TPM_Extend\<close>: the command succeeds and the register becomes
  the hash of its old value and the digest. \<open>pcr\<close> reads the register off the state of the TPM.
\<close>

definition extends_pcr :: "('d, 'c) tpm \<Rightarrow> ('c \<Rightarrow> bytes) \<Rightarrow> bool" where
  "extends_pcr td pcr \<longleftrightarrow> (\<forall>k d. length d = 20 \<longrightarrow>
     fst (extend_spec td k d) = None \<and> pcr (snd (extend_spec td k d)) = SHA1_hash (pcr k @ d))"

lemma measure_all_pcr:
  assumes "extends_pcr td pcr" "\<forall>d \<in> set ds. length d = 20"
  shows "fst (measure_all td k ds) = None \<and>
    pcr (snd (measure_all td k ds)) = fold (\<lambda>d v. SHA1_hash (v @ d)) ds (pcr k)"
  using assms(2)
proof (induction ds arbitrary: k)
  case (Cons d ds)
  then have "fst (extend_spec td k d) = None" "pcr (snd (extend_spec td k d)) = SHA1_hash (pcr k @ d)"
    using assms(1) by (simp_all add: extends_pcr_def)
  with Cons.IH [of "snd (extend_spec td k d)"] Cons.prems show ?case by (cases "extend_spec td k d") simp
qed simp

lemma length_boot_digests: "\<forall>d \<in> set (boot_digests m mbi). length d = 20"
  by (auto simp: boot_digests_def cmdline_digests_def module_digests_def string_digest_def split: if_splits)

text \<open>
  C3: The register PCR 19 after the measurement is the hash chain over the boot: starting from its
  old value, one link per digest of the command line, of each module's image and of each module's
  command line, in the order of the module table.
\<close>

theorem mbi_calc_hash_pcr19:
  assumes "tpm_ready hw td k w" "prompt td" "screen_ok (w_screen w)" "boot_ok (w_mem w) mbi" "extends_pcr td pcr"
  shows "\<exists>w' k'. mbi_calc_hash hw mbi w = (Ok (), w') \<and> tpm_ready hw td k' w' \<and>
    pcr k' = fold (\<lambda>d v. SHA1_hash (v @ d)) (boot_digests (w_mem w) mbi) (pcr k)"
proof -
  have "measuring hw td w k w" using assms by (simp add: measuring_def)
  from yieldsD [OF calc_hash_yields [OF assms(4,2)] this] show ?thesis
    using measure_all_pcr [OF assms(5) length_boot_digests, of k "w_mem w" mbi] by (auto simp: measuring_def)
qed

text \<open>
  A boot with the command line \<open>a\<close> and one module of four bytes, with the command line \<open>b\<close>; a TPM that
  answers every command alike, and one that keeps PCR 19.
\<close>

definition boot_mem :: mem where
  "boot_mem = st32 0x1000 0xC (st32 0x1010 0x3000 (st32 0x1014 1 (st32 0x1018 0x2000 (st32 0x2000 0x4000
      (st32 0x2004 0x4004 (st32 0x2008 0x3004 (st32 0x3000 0x61 (st32 0x3004 0x62 (st32 0x4000 0x04030201 (\<lambda>_. 0))))))))))"

definition boot_world :: "'c \<Rightarrow> 'c sim world" where
  "boot_world k = (sim_world k empty_heap)\<lparr>w_mem := boot_mem\<rparr>"

lemma boot_image:
  "ld32 boot_mem 0x1000 = 0xC" "ld32 boot_mem 0x1010 = 0x3000" "ld32 boot_mem 0x1014 = 1" "ld32 boot_mem 0x1018 = 0x2000"
  "ld32 boot_mem 0x2000 = 0x4000" "ld32 boot_mem 0x2004 = 0x4004" "ld32 boot_mem 0x2008 = 0x3004"
  by (simp_all add: boot_mem_def ld_st)

lemma boot_bytes:
  "boot_mem 0x3000 = 0x61" "boot_mem 0x3001 = 0" "boot_mem 0x3004 = 0x62" "boot_mem 0x3005 = 0"
  "bytes_at boot_mem 0x4000 4 = [1, 2, 3, 4]"
  by (simp_all add: boot_mem_def st32_def bytes_at_4)

lemma bytes_at_1: "bytes_at m a (Suc 0) = [m a]"
  by (simp add: bytes_at_def)

lemma boot_strings: "strlen 0x3000 boot_mem = Some 1" "strlen 0x3004 boot_mem = Some 1"
  by (simp_all add: strlen_def strlen_loop.simps boot_bytes)

lemma boot_facts:
  "boot_ok boot_mem 0x1000"
  "boot_digests boot_mem 0x1000 = [SHA1_hash [0x61], SHA1_hash [1, 2, 3, 4], SHA1_hash [0x62]]"
  by (simp_all add: boot_ok_def boot_digests_def cmdline_digests_def modules_of_def module_digests_def module_ok_def
      string_digest_def boot_image boot_strings boot_bytes CHECK_FLAG_def bytes_at_1)

lemma boot_ready:
  "tpm_ready (sim_hw rn (TIS_BASE + TIS_LOCALITY_2)) (sim_tpm rn) k (boot_world k)"
  "screen_ok (w_screen (boot_world k))" "w_mem (boot_world k) = boot_mem"
  using sim_ready [of rn k empty_heap] by (auto simp: boot_world_def tpm_ready_def sim_world_def screen_ok_def)

lemma fixed_prompt:
  "10 \<le> length r \<Longrightarrow> length r \<le> 1024 \<Longrightarrow> paramSize r = of_nat (length r) \<Longrightarrow> prompt (sim_tpm (fixed_run r))"
  by (simp add: prompt_def fixed_run_def)

theorem mbi_calc_hash_measures_witness:
  "\<exists>w'. mbi_calc_hash (sim_hw (fixed_run (be16 TPM_TAG_RSP_COMMAND @ be32 30 @ be32 0 @ replicate 20 7))
      (TIS_BASE + TIS_LOCALITY_2)) 0x1000 (boot_world 0) = (Ok (), w') \<and> s_core (w_dev w') = 3"
proof -
  let ?r = "be16 TPM_TAG_RSP_COMMAND @ be32 30 @ be32 0 @ replicate 20 7"
  have p: "prompt (sim_tpm (fixed_run ?r))" by (rule fixed_prompt) simp_all
  have o: "outcome20 ?r = None" by (simp add: outcome20_def)
  have m: "measure_all (sim_tpm (fixed_run ?r)) 0 (boot_digests (w_mem (boot_world 0)) 0x1000) = (None, 3)"
    by (simp add: boot_ready boot_facts extend_spec_def fixed_run_def o)
  show ?thesis
    using mbi_calc_hash_measures [OF boot_ready(1) p boot_ready(2) _ m] by (auto simp: boot_ready boot_facts tpm_ready_def)
qed

text \<open>The TPM that keeps PCR 19: the digest stands after the 14 bytes of the header and the index.\<close>

definition pcr_run :: "bytes run" where
  "pcr_run v q = (let v' = SHA1_hash (v @ drop 14 q) in
     (3, be16 TPM_TAG_RSP_COMMAND @ be32 30 @ be32 0 @ v', v'))"

lemma pcr_run_facts: "prompt (sim_tpm pcr_run)" "extends_pcr (sim_tpm pcr_run) (\<lambda>v. v)"
  by (simp_all add: prompt_def extends_pcr_def extend_spec_def pcr_run_def Let_def outcome20_def extend_req_def paramSize_def)

theorem mbi_calc_hash_pcr19_witness:
  "\<exists>w'. mbi_calc_hash (sim_hw pcr_run (TIS_BASE + TIS_LOCALITY_2)) 0x1000 (boot_world (replicate 20 0)) = (Ok (), w') \<and>
    s_core (w_dev w') = SHA1_hash (SHA1_hash (SHA1_hash (replicate 20 0 @ SHA1_hash [0x61]) @ SHA1_hash [1, 2, 3, 4]) @ SHA1_hash [0x62])"
  using mbi_calc_hash_pcr19 [OF boot_ready(1) pcr_run_facts(1) boot_ready(2) _ pcr_run_facts(2), where k = "replicate 20 0" and mbi = "0x1000"]
  by (auto simp: boot_ready boot_facts tpm_ready_def)

end
