(* ===== verification/Intel_State.thy ===== *)
theory Intel_State
  imports World
begin

text \<open>
  The state of the Intel build: the loader's, the memory map (\<^verbatim>\<open>src/arch-intel/e820.c\<close>) and the statics of
  \<^verbatim>\<open>src/arch-intel\<close>.
\<close>

record memory_map_t =
  mm_size :: u32
  base_addr_low :: u32
  base_addr_high :: u32
  length_low :: u32
  length_high :: u32
  mm_type :: u32

text \<open>\<open>g_copy_e820_map\<close> and \<open>g_nr_map\<close>\<close>

record e820 =
  e820map :: "nat \<Rightarrow> memory_map_t"
  nr_map :: u32

text \<open>The serial port the command line configures (\<^verbatim>\<open>include/arch-intel/com.h\<close>).\<close>

record bdf_t =
  bdf_bus :: u32
  bdf_slot :: u32
  bdf_func :: u32

record serial_port_t =
  comc_curspeed :: u32
  comc_clockhz :: u32
  comc_fmt :: u8
  comc_port :: u32
  comc_irq :: u32
  comc_psbdf :: bdf_t
  comc_pbbdf :: bdf_t

text \<open>
  The state of the Intel build adds the table and the statics of \<^verbatim>\<open>src/arch-intel\<close> to the loader's: the
  SINIT module that will be launched (0 is \<open>NULL\<close>), the object \<open>g_ldr_ctx\<close> points to, what was found
  on the command lines (64 bytes for each option), and the pointers and counters of the launch.
\<close>

record loader_ctx =
  lc_addr :: u32
  lc_type :: u32

record 'd intel =
  i_world :: "'d world"
  g_e820 :: e820
  g_min_ram :: u32
  g_sinit :: u32
  g_ldr_ctx :: loader_ctx
  g_tboot_param_values :: "bytes list"
  g_linux_param_values :: "bytes list"
  g_com_port :: serial_port_t
  g_psbdf_enabled :: bool
  g_pbbdf_enabled :: bool
  boot_params :: u32
  g_saved_mtrrs :: u32
  g_using_da :: u32
  g_elog :: u32
  ap_wfs_count :: u32
  rsdp :: u32
  g_dmar_table :: u32
  g_hide_dmar :: bool
  g_cpuid_ext_feat_info :: u32
  g_feat_ctrl_msr :: u32
  kernel_s3_resume_vector :: u64
  vmcs_rev_id :: u32
  pin_based_vm_exec_ctrls :: u32
  proc_based_vm_exec_ctrls :: u32
  vm_exit_ctrls :: u32
  vm_entry_ctrls :: u32
  init_done :: bool
  aps_exit_guest :: u32

definition on_world :: "('d world, 'a) exec \<Rightarrow> ('d intel, 'a) exec" where
  "on_world m = (\<lambda>s. case m (i_world s) of (r, w) \<Rightarrow> (r, s\<lparr>i_world := w\<rparr>))"

definition on_e820 :: "(e820 \<Rightarrow> 'a \<times> e820) \<Rightarrow> ('d intel, 'a) exec" where
  "on_e820 f = (\<lambda>s. case f (g_e820 s) of (a, m) \<Rightarrow> (Ok a, s\<lparr>g_e820 := m\<rparr>))"

definition say :: "string \<Rightarrow> ('d intel, unit) exec" where
  "say msg = on_world (on_screen (out_info (str msg)))"

end
