(* ===== verification/E820.thy ===== *)
theory E820
  imports Intel_State
begin

text \<open>
  The copy of the firmware's memory map (\<^verbatim>\<open>src/arch-intel/e820.c\<close>): the table that is edited, and the
  questions the Intel launch asks it. The table is the array at \<open>TBOOT_E820_COPY_ADDR\<close>, a function of
  the index; indices are computed as 32-bit numbers as in the source, so \<open>i - 1\<close> at \<open>i = 0\<close> wraps.
\<close>

section \<open>Entries\<close>

definition MAX_E820_ENTRIES :: u32 where
  "MAX_E820_ENTRIES = 0x1800 div 24"

abbreviation (input) E820_RAM :: u32 where "E820_RAM \<equiv> 1"
abbreviation (input) E820_RESERVED :: u32 where "E820_RESERVED \<equiv> 2"
definition E820_MIXED :: u32 where "E820_MIXED = - 1 - 1"
definition E820_GAP :: u32 where "E820_GAP = - 1"

definition split64b :: "u64 \<Rightarrow> u32 \<times> u32" where
  "split64b val = (ucast (val AND 0xffffffff), ucast (drop_bit 32 val))"

definition combine64b :: "u32 \<Rightarrow> u32 \<Rightarrow> u64" where
  "combine64b val_lo val_hi = push_bit 32 (ucast val_hi) OR ucast val_lo"

definition e820_base_64 :: "memory_map_t \<Rightarrow> u64" where
  "e820_base_64 entry = combine64b (base_addr_low entry) (base_addr_high entry)"

definition e820_length_64 :: "memory_map_t \<Rightarrow> u64" where
  "e820_length_64 entry = combine64b (length_low entry) (length_high entry)"

definition set_base :: "u64 \<Rightarrow> memory_map_t \<Rightarrow> memory_map_t" where
  "set_base v e = e\<lparr>base_addr_low := fst (split64b v), base_addr_high := snd (split64b v)\<rparr>"

definition set_length :: "u64 \<Rightarrow> memory_map_t \<Rightarrow> memory_map_t" where
  "set_length v e = e\<lparr>length_low := fst (split64b v), length_high := snd (split64b v)\<rparr>"

definition entry_at :: "e820 \<Rightarrow> u32 \<Rightarrow> memory_map_t" where
  "entry_at s i = e820map s (unat i)"

definition upd_entry :: "u32 \<Rightarrow> (memory_map_t \<Rightarrow> memory_map_t) \<Rightarrow> e820 \<Rightarrow> e820" where
  "upd_entry i f s = s\<lparr>e820map := (e820map s)(unat i := f (e820map s (unat i)))\<rparr>"

section \<open>Editing\<close>

lemma u32_next: "i < (n :: u32) \<Longrightarrow> unat (i + 1) = unat i + 1"
  using unat_u32_less [of n] by (simp add: unat_word_ariths word_less_nat_alt)

lemma u32_prev: "i < (n :: u32) \<Longrightarrow> unat (n - 1) = unat n - 1"
  by (simp add: unat_sub_if' word_less_nat_alt)

function shift_up :: "(nat \<Rightarrow> memory_map_t) \<Rightarrow> u32 \<Rightarrow> u32 \<Rightarrow> nat \<Rightarrow> memory_map_t" where
  "shift_up m i pos = (if pos < i then shift_up (m(unat (i + 1) := m (unat i))) (i - 1) pos else m)"
  by pat_completeness auto
termination
  by (relation "measure (\<lambda>(_, i, _). unat i)") (auto simp: u32_prev word_less_nat_alt)

declare shift_up.simps [simp del]

definition new_entry :: "u64 \<Rightarrow> u64 \<Rightarrow> u32 \<Rightarrow> memory_map_t" where
  "new_entry addr len type = \<lparr>mm_size = 24 - 4, base_addr_low = fst (split64b addr), base_addr_high = snd (split64b addr),
     length_low = fst (split64b len), length_high = snd (split64b len), mm_type = type\<rparr>"

definition insert_after_region :: "e820 \<Rightarrow> u32 \<Rightarrow> u64 \<Rightarrow> u64 \<Rightarrow> u32 \<Rightarrow> bool \<times> e820" where
  "insert_after_region s pos addr len type =
     (if nr_map s + 1 > MAX_E820_ENTRIES then (False, s)
      else (True, \<lparr>e820map = (shift_up (e820map s) (nr_map s - 1) pos)(unat (pos + 1) := new_entry addr len type),
                   nr_map = nr_map s + 1\<rparr>))"

function shift_down :: "(nat \<Rightarrow> memory_map_t) \<Rightarrow> u32 \<Rightarrow> u32 \<Rightarrow> nat \<Rightarrow> memory_map_t" where
  "shift_down m i end' = (if i < end' then shift_down (m(unat i := m (unat (i + 1)))) (i + 1) end' else m)"
  by pat_completeness auto
termination
  by (relation "measure (\<lambda>(_, i, e). unat e - unat i)") (auto simp: u32_next word_less_nat_alt)

declare shift_down.simps [simp del]

definition remove_region :: "u32 \<Rightarrow> e820 \<Rightarrow> e820" where
  "remove_region pos s = \<lparr>e820map = shift_down (e820map s) pos (nr_map s - 1), nr_map = nr_map s - 1\<rparr>"

text \<open>
  The search for the place of the new region: \<open>Inl\<close> is the return of 0 for lack of room, \<open>Inr\<close> the
  index with which the loop ends.
\<close>

function protect_search :: "u64 \<Rightarrow> u64 \<Rightarrow> u32 \<Rightarrow> u32 \<Rightarrow> e820 \<Rightarrow> e820 + u32 \<times> e820" where
  "protect_search new_addr new_size new_type i s =
     (if i < nr_map s then
        let addr = e820_base_64 (entry_at s i); size = e820_length_64 (entry_at s i); type = mm_type (entry_at s i) in
        if new_addr = addr
        then (case insert_after_region s (i - 1) new_addr new_size new_type of
                (False, s) \<Rightarrow> Inl s | (True, s) \<Rightarrow> Inr (i, s))
        else if new_addr > addr \<and> new_addr < addr + size
        then (case insert_after_region s i new_addr new_size new_type of
                (False, s) \<Rightarrow> Inl s
              | (True, s) \<Rightarrow>
                  let tmp_addr = e820_base_64 (entry_at s i); s = upd_entry i (set_length (new_addr - tmp_addr)) s; i = i + 1
                  in (case insert_after_region s i addr size type of
                        (False, s) \<Rightarrow> Inl s | (True, s) \<Rightarrow> Inr (i, s)))
        else if addr > new_addr
        then (case insert_after_region s (i - 1) new_addr new_size new_type of
                (False, s) \<Rightarrow> Inl s | (True, s) \<Rightarrow> Inr (i, s))
        else protect_search new_addr new_size new_type (i + 1) s
      else Inr (i, s))"
  by pat_completeness auto
termination
  by (relation "measure (\<lambda>(_, _, _, i, s). unat (nr_map s) - unat i)")
    (auto simp: u32_next word_less_nat_alt)

declare protect_search.simps [simp del]

text \<open>The loop that deletes the regions the new one covers, from index \<open>i\<close>; \<open>te\<close> is \<open>tmp_addr + tmp_size\<close>.\<close>

function delete_covered :: "u64 \<Rightarrow> u32 \<Rightarrow> u64 \<Rightarrow> e820 \<Rightarrow> e820" where
  "delete_covered new_end i te s =
     (if i < nr_map s \<and> new_end \<ge> te
      then let s = remove_region i s in
           delete_covered new_end i (e820_base_64 (entry_at s i) + e820_length_64 (entry_at s i)) s
      else s)"
  by pat_completeness auto
termination
  by (relation "measure (\<lambda>(_, _, _, s). unat (nr_map s))")
    (auto simp: remove_region_def u32_prev word_less_nat_alt)

declare delete_covered.simps [simp del]

definition trim_to :: "u64 \<Rightarrow> u64 \<Rightarrow> u32 \<Rightarrow> e820 \<Rightarrow> e820" where
  "trim_to new_end tmp_end i s = upd_entry i (set_base new_end) (upd_entry i (set_length (tmp_end - new_end)) s)"

definition protect_region :: "u64 \<Rightarrow> u64 \<Rightarrow> u32 \<Rightarrow> e820 \<Rightarrow> bool \<times> e820" where
  "protect_region new_addr new_size new_type s =
     (if new_size = 0 then (True, s)
      else if new_addr + new_size < new_addr then (False, s)
      else case protect_search new_addr new_size new_type 0 s of
        Inl s \<Rightarrow> (False, s)
      | Inr (i, s) \<Rightarrow>
          if i = nr_map s then insert_after_region s (i - 1) new_addr new_size new_type
          else let i = i + 1; tmp_addr = e820_base_64 (entry_at s i); tmp_size = e820_length_64 (entry_at s i) in
            if new_addr \<ge> tmp_addr \<and> new_addr + new_size < tmp_addr + tmp_size
            then (True, trim_to (new_addr + new_size) (tmp_addr + tmp_size) i s)
            else let s = delete_covered (new_addr + new_size) i (tmp_addr + tmp_size) s in
              if i < nr_map s
              then let tmp_addr = e820_base_64 (entry_at s i); tmp_size = e820_length_64 (entry_at s i) in
                (True, if new_addr + new_size > tmp_addr
                       then trim_to (new_addr + new_size) (tmp_addr + tmp_size) i s else s)
              else (True, s))"

section \<open>Questions\<close>

definition is_overlapped :: "u64 \<Rightarrow> u64 \<Rightarrow> u64 \<Rightarrow> u64 \<Rightarrow> bool" where
  "is_overlapped base end' e820_base e820_end =
     (let length' = end' - base; e820_length = e820_end - e820_base;
          min' = (if base < e820_base then base else e820_base);
          max' = (if end' > e820_end then end' else e820_end)
      in max' - min' < length' + e820_length \<or>
         max' - min' = length' + e820_length \<and>
           (length' = 0 \<and> base > e820_base \<and> base < e820_end \<or>
            e820_length = 0 \<and> e820_base > base \<and> e820_base < end'))"

text \<open>How the type of one more range changes the answer.\<close>

definition merge_type :: "u32 \<Rightarrow> u32 \<Rightarrow> u32" where
  "merge_type ret type =
     (if ret = 0 then type else if ret = type then ret else if ret = E820_GAP then ret
      else if type = E820_GAP then E820_GAP else E820_MIXED)"

text \<open>The loop visits the gap before an entry and then the entry; \<open>gap\<close> says which.\<close>

function check_loop :: "e820 \<Rightarrow> u64 \<Rightarrow> u64 \<Rightarrow> u32 \<Rightarrow> bool \<Rightarrow> u64 \<Rightarrow> u64 \<Rightarrow> u32 \<Rightarrow> u64 \<times> u64 \<times> u32" where
  "check_loop s base end' i gap e820_base e820_length ret =
     (if i < nr_map s then
        let e = entry_at s i;
            (e820_base, e820_length, type) =
              (if gap then (e820_base + e820_length, e820_base_64 e - (e820_base + e820_length), E820_GAP)
               else (e820_base_64 e, e820_length_64 e, mm_type e));
            ret = (if e820_length = 0 then ret
                   else if \<not> is_overlapped base end' e820_base (e820_base + e820_length) then ret
                   else merge_type ret type)
        in check_loop s base end' (if gap then i else i + 1) (\<not> gap) e820_base e820_length ret
      else (e820_base, e820_length, ret))"
  by pat_completeness auto
termination
  by (relation "measure (\<lambda>(s, _, _, i, gap, _). 2 * (unat (nr_map s) - unat i) + (if gap then 1 else 0))")
    (auto simp: u32_next word_less_nat_alt split: if_splits)

declare check_loop.simps [simp del]

definition e820_check_region :: "u64 \<Rightarrow> u64 \<Rightarrow> e820 \<Rightarrow> u32" where
  "e820_check_region base len s =
     (let end' = base + len; (e820_base, e820_length, ret) = check_loop s base end' 0 True 0 0 0
      in if is_overlapped base end' (e820_base + e820_length) (- 1) then E820_GAP else ret)"

text \<open>The highest RAM region below a limit that is large enough.\<close>

function highest_loop :: "e820 \<Rightarrow> u64 \<Rightarrow> u64 \<Rightarrow> u32 \<Rightarrow> u64 \<times> u64 \<Rightarrow> u64 \<times> u64" where
  "highest_loop s sz limit i fit =
     (if i < nr_map s then
        let e = entry_at s i; base = e820_base_64 e; len = e820_length_64 e in
        if mm_type e = E820_RAM
        then if base + len > limit then fit
             else highest_loop s sz limit (i + 1) (if sz \<le> len then (base, len) else fit)
        else highest_loop s sz limit (i + 1) fit
      else fit)"
  by pat_completeness auto
termination
  by (relation "measure (\<lambda>(s, _, _, i, _). unat (nr_map s) - unat i)") (auto simp: u32_next word_less_nat_alt)

declare highest_loop.simps [simp del]

definition get_highest_sized_ram :: "u64 \<Rightarrow> u64 \<Rightarrow> e820 \<Rightarrow> u64 \<times> u64" where
  "get_highest_sized_ram sz limit s = highest_loop s sz limit 0 (0, 0)"

section \<open>Reserving\<close>

lemma insert_count: "insert_after_region s pos a l t = (True, s') \<Longrightarrow> nr_map s' = nr_map s + 1"
  by (auto simp: insert_after_region_def split: if_splits)

lemma reserve_measure:
  assumes "i < (n :: u32)"
  shows "unat (n + 1) - unat (i + 1 + 1) < unat n - unat i"
proof (cases "n = - 1")
  case False
  then have "unat n \<noteq> unat (- 1 :: u32)" by (simp add: word_unat_eq_iff)
  moreover have "unat (- 1 :: u32) = 2 ^ 32 - 1" by (simp add: unsigned_minus_1_eq_mask mask_eq_exp_minus_1)
  ultimately have "unat n + 1 < 2 ^ 32" using unat_u32_less [of n] by simp
  then have "unat (n + 1) = unat n + 1" "unat (i + 1 + 1) = unat i + 2"
    using assms by (simp_all add: unat_word_ariths word_less_nat_alt)
  then show ?thesis using assms by (simp add: word_less_nat_alt)
qed (use assms in \<open>simp add: word_less_nat_alt\<close>)

text \<open>
  The loop of \<open>e820_reserve_ram\<close>: \<open>Inl\<close> is the branch that reports that it should never be reached,
  \<open>Inr\<close> the value returned.
\<close>

function reserve_loop :: "u64 \<Rightarrow> u64 \<Rightarrow> u32 \<Rightarrow> e820 \<Rightarrow> e820 + bool \<times> e820" where
  "reserve_loop base len i s =
     (if i < nr_map s then
        let e = entry_at s i; e820_base = e820_base_64 e; e820_length = e820_length_64 e; e820_end = e820_base + e820_length;
            end' = base + len
        in
        if mm_type e \<noteq> E820_RAM then reserve_loop base len (i + 1) s
        else if end' \<le> e820_base then reserve_loop base len (i + 1) s
        else if base \<ge> e820_end then reserve_loop base len (i + 1) s
        else if base \<le> e820_base \<and> e820_end \<le> end'
        then reserve_loop base len (i + 1) (upd_entry i (mm_type_update (\<lambda>_. E820_RESERVED)) s)
        else if e820_base \<ge> base \<and> end' > e820_base \<and> e820_end > end'
        then (case insert_after_region s (i - 1) e820_base (end' - e820_base) E820_RESERVED of
                (False, s) \<Rightarrow> Inr (False, s)
              | (True, s) \<Rightarrow> Inr (True, upd_entry (i + 1) (set_length (e820_end - end')) (upd_entry (i + 1) (set_base end') s)))
        else if base > e820_base \<and> e820_end > base \<and> end' \<ge> e820_end
        then (case insert_after_region (upd_entry i (set_length (base - e820_base)) s) i base (e820_end - base) E820_RESERVED of
                (False, s) \<Rightarrow> Inr (False, s)
              | (True, s) \<Rightarrow> reserve_loop base len (i + 1 + 1) s)
        else if base > e820_base \<and> e820_end > end'
        then (case insert_after_region (upd_entry i (set_length (base - e820_base)) s) i base len E820_RESERVED of
                (False, s) \<Rightarrow> Inr (False, s)
              | (True, s) \<Rightarrow>
                  (case insert_after_region s (i + 1) end' (e820_end - end') (mm_type (entry_at s i)) of
                     (b, s) \<Rightarrow> Inr (b, s)))
        else Inl s
      else Inr (True, s))"
  by pat_completeness auto
termination
proof (relation "measure (\<lambda>(_, _, i, s). unat (nr_map s) - unat i)", goal_cases)
  case (6 base len i s)
  then show ?case using reserve_measure [of i "nr_map s"] insert_count [OF sym] by (auto simp: upd_entry_def)
qed (auto simp: u32_next word_less_nat_alt upd_entry_def)

declare reserve_loop.simps [simp del]

definition e820_protect_region :: "u64 \<Rightarrow> u64 \<Rightarrow> u32 \<Rightarrow> ('d intel, bool) exec" where
  "e820_protect_region addr sz type = on_e820 (protect_region addr sz type)"

definition e820_reserve_ram :: "u64 \<Rightarrow> u64 \<Rightarrow> ('d intel, bool) exec" where
  "e820_reserve_ram base len =
     (if len = 0 then returnE True
      else bindE (on_e820 (\<lambda>m. case reserve_loop base len 0 m of Inl m \<Rightarrow> (None, m) | Inr (b, m) \<Rightarrow> (Some b, m))) (\<lambda>r.
      case r of Some b \<Rightarrow> returnE b
      | None \<Rightarrow> bindE (say ''ERROR : we should never get here'') (\<lambda>_. returnE False)))"

text \<open>\<open>print_map\<close> prints \<open>n\<close> entries.\<close>

primrec print_entries :: "memory_map_t list \<Rightarrow> ('d intel, unit) exec" where
  "print_entries [] = returnE ()"
| "print_entries (e # es) =
     bindE (on_world (on_screen (out_description64 (str ''Start '') (e820_base_64 e)))) (\<lambda>_.
     bindE (on_world (on_screen (out_description64 (str ''End '') (e820_base_64 e + e820_length_64 e)))) (\<lambda>_.
     bindE (on_world (on_screen (out_description (str ''Type '') (mm_type e)))) (\<lambda>_.
     print_entries es)))"

definition print_e820_map :: "('d intel, unit) exec" where
  "print_e820_map = bindE (getE g_e820) (\<lambda>s. print_entries (map (e820map s) [0..<unat (nr_map s)]))"

text \<open>The ranges of RAM below and above 4 GB.\<close>

record ram_ranges =
  min_lo_ram :: u64
  max_lo_ram :: u64
  min_hi_ram :: u64
  max_hi_ram :: u64

definition add_low :: "u64 \<Rightarrow> u64 \<Rightarrow> ram_ranges \<Rightarrow> ram_ranges" where
  "add_low base limit r =
     r\<lparr>min_lo_ram := (if base < 0x100000000 \<and> base < min_lo_ram r then base else min_lo_ram r),
       max_lo_ram := (if limit \<le> 0x100000000 \<and> limit > max_lo_ram r then limit else max_lo_ram r)\<rparr>"

definition add_high :: "u64 \<Rightarrow> u64 \<Rightarrow> ram_ranges \<Rightarrow> ram_ranges" where
  "add_high base limit r =
     r\<lparr>min_hi_ram := (if base \<ge> 0x100000000 \<and> base < min_hi_ram r then base else min_hi_ram r),
       max_hi_ram := (if limit > 0x100000000 \<and> limit > max_hi_ram r then limit else max_hi_ram r)\<rparr>"

text \<open>
  The loop over the table, which \<open>e820_reserve_ram\<close> may change; \<open>last_min_ram_base\<close> is 0. \<open>Inl\<close> is a
  return of false.
\<close>

partial_function (option) ranges_loop :: "u32 \<Rightarrow> bool \<Rightarrow> ram_ranges \<Rightarrow> 'd intel \<Rightarrow> ((ram_ranges + ram_ranges) res \<times> 'd intel) option" where
  "ranges_loop i found r s =
     (if i < nr_map (g_e820 s) then
        let e = entry_at (g_e820 s) i; base = e820_base_64 e; limit = base + e820_length_64 e in
        if mm_type e = E820_RAM
        then if base < 0x100000000 \<and> limit > 0x100000000
             then Some (bindE (say ''ERROR : e820 memory range straddles 4GB boundary'') (\<lambda>_. returnE (Inl r)) s)
             else if \<not> found \<or> base \<le> 0
             then ranges_loop (i + 1) found (add_high base limit (add_low base limit r)) s
             else if base < 0x100000000
             then (case e820_reserve_ram base (limit - base) s of
                     (Ok b, s) \<Rightarrow> if b then ranges_loop (i + 1) found (add_high base limit r) s else Some (Ok (Inl r), s)
                   | (Throw x, s) \<Rightarrow> Some (Throw x, s)
                   | (Stop x, s) \<Rightarrow> Some (Stop x, s))
             else ranges_loop (i + 1) found (add_high base limit r) s
        else ranges_loop (i + 1) (found \<or> min_lo_ram r \<noteq> - 1 \<and> limit > 0x100000) r s
      else Some (Ok (Inr r), s))"

definition get_ram_ranges :: "('d intel, bool \<times> ram_ranges) exec" where
  "get_ram_ranges =
     (let r0 = \<lparr>min_lo_ram = - 1, max_lo_ram = 0, min_hi_ram = - 1, max_hi_ram = 0\<rparr> in
      bindE (getE g_min_ram) (\<lambda>min_ram.
      bindE (if min_ram > 0 then bindE (say ''We dont expect to be here : g_min_ram'') (\<lambda>_. stopE Hang) else returnE ()) (\<lambda>_.
      bindE (\<lambda>s. case ranges_loop 0 False r0 s of None \<Rightarrow> (Stop Hang, s) | Some r \<Rightarrow> r) (\<lambda>x.
      case x of
        Inl r \<Rightarrow> returnE (False, r)
      | Inr r \<Rightarrow>
          if min_lo_ram r \<ge> max_lo_ram r
          then bindE (say ''no low ram in e820 map'') (\<lambda>_. returnE (False, r))
          else returnE (True, if min_hi_ram r \<ge> max_hi_ram r then r\<lparr>min_hi_ram := 0, max_hi_ram := 0\<rparr> else r)))))"

section \<open>The table as a list\<close>

definition entries :: "e820 \<Rightarrow> memory_map_t list" where
  "entries s = map (e820map s) [0..<unat (nr_map s)]"

lemma length_entries [simp]: "length (entries s) = unat (nr_map s)"
  by (simp add: entries_def)

lemma entries_nth: "i < nr_map s \<Longrightarrow> entries s ! unat i = entry_at s i"
  by (simp add: entries_def entry_at_def word_less_nat_alt)

lemma max_entries: "unat MAX_E820_ENTRIES = 256"
  by (simp add: MAX_E820_ENTRIES_def)

lemma combine_split [simp]: "combine64b (fst (split64b v)) (snd (split64b v)) = v"
proof (rule bit_word_eqI)
  fix n assume n: "n < LENGTH(64)"
  have "v AND 0xffffffff = take_bit 32 v" by (simp add: take_bit_eq_mask mask_eq_exp_minus_1)
  then show "bit (combine64b (fst (split64b v)) (snd (split64b v))) n = bit v n"
    using n by (cases "n < 32") (auto simp: combine64b_def split64b_def bit_simps)
qed

lemma entry_64 [simp]:
  "e820_base_64 (new_entry a l t) = a" "e820_length_64 (new_entry a l t) = l" "mm_type (new_entry a l t) = t"
  "e820_base_64 (set_base v e) = v" "e820_length_64 (set_base v e) = e820_length_64 e" "mm_type (set_base v e) = mm_type e"
  "e820_length_64 (set_length v e) = v" "e820_base_64 (set_length v e) = e820_base_64 e" "mm_type (set_length v e) = mm_type e"
  by (simp_all add: e820_base_64_def e820_length_64_def new_entry_def set_base_def set_length_def)

lemma shift_up_eq:
  "unat pos \<le> unat i \<Longrightarrow> unat i < 256 \<Longrightarrow>
   shift_up m i pos = (\<lambda>j. if unat pos + 1 < j \<and> j \<le> unat i + 1 then m (j - 1) else m j)"
proof (induction m i pos rule: shift_up.induct)
  case (1 m i pos)
  show ?case
  proof (cases "pos < i")
    case True
    have u: "unat (i + 1) = unat i + 1" "unat (i - 1) = unat i - 1" "unat pos < unat i"
      using True u32_prev [OF True] 1(3) by (simp_all add: word_less_nat_alt unat_word_ariths)
    have "shift_up m i pos = shift_up (m(unat (i + 1) := m (unat i))) (i - 1) pos"
      using True by (subst shift_up.simps) simp
    also have "\<dots> = (\<lambda>j. if unat pos + 1 < j \<and> j \<le> unat (i - 1) + 1 then (m(unat (i + 1) := m (unat i))) (j - 1)
        else (m(unat (i + 1) := m (unat i))) j)"
      by (rule 1(1) [OF True]) (use u 1(3) in simp_all)
    finally show ?thesis using u by (auto simp: fun_eq_iff)
  next
    case False
    then have "unat pos = unat i" using 1 by (simp add: word_less_nat_alt)
    then show ?thesis using False by (subst shift_up.simps) (auto simp: fun_eq_iff)
  qed
qed

lemma shift_down_eq:
  "shift_down m i n = (\<lambda>j. if unat i \<le> j \<and> j < unat n then m (j + 1) else m j)"
proof (induction m i n rule: shift_down.induct)
  case (1 m i n)
  show ?case
  proof (cases "i < n")
    case True
    then have "shift_down m i n = shift_down (m(unat i := m (unat (i + 1)))) (i + 1) n"
      by (subst shift_down.simps) simp
    also have "\<dots> = (\<lambda>j. if unat (i + 1) \<le> j \<and> j < unat n then (m(unat i := m (unat (i + 1)))) (j + 1)
        else (m(unat i := m (unat (i + 1)))) j)"
      by (rule 1 [OF True])
    finally show ?thesis using u32_next [OF True] True by (auto simp: fun_eq_iff word_less_nat_alt)
  next
    case False
    then show ?thesis by (subst shift_down.simps) (auto simp: fun_eq_iff word_less_nat_alt)
  qed
qed

lemma insert_room: "unat (nr_map s) < 256 \<Longrightarrow> \<not> nr_map s + 1 > MAX_E820_ENTRIES"
  using unat_u32_less [of "nr_map s"] by (simp add: word_less_nat_alt max_entries unat_word_ariths not_less)

lemma insert_middle:
  assumes "unat (nr_map s) < 256" "pos < nr_map s" "insert_after_region s pos a l t = (b, s')"
  shows "b" "nr_map s' = nr_map s + 1" "unat (nr_map s') = unat (nr_map s) + 1"
    "entries s' = take (unat pos + 1) (entries s) @ new_entry a l t # drop (unat pos + 1) (entries s)"
proof -
  have pos: "unat pos < unat (nr_map s)" "unat (pos + 1) = unat pos + 1" "unat (nr_map s - 1) = unat (nr_map s) - 1"
    using assms(2) u32_next [OF assms(2)] u32_prev [OF assms(2)] by (simp_all add: word_less_nat_alt)
  have s': "b" "s' = \<lparr>e820map = (shift_up (e820map s) (nr_map s - 1) pos)(unat (pos + 1) := new_entry a l t), nr_map = nr_map s + 1\<rparr>"
    using assms(3) insert_room [OF assms(1)] by (auto simp: insert_after_region_def)
  then show "b" "nr_map s' = nr_map s + 1" by simp_all
  show n: "unat (nr_map s') = unat (nr_map s) + 1" using assms(1) s' by (simp add: unat_word_ariths)
  have sh: "shift_up (e820map s) (nr_map s - 1) pos =
      (\<lambda>j. if unat pos + 1 < j \<and> j \<le> unat (nr_map s) then e820map s (j - 1) else e820map s j)"
    using shift_up_eq [of pos "nr_map s - 1" "e820map s"] pos assms(1) by simp
  show "entries s' = take (unat pos + 1) (entries s) @ new_entry a l t # drop (unat pos + 1) (entries s)"
  proof (rule nth_equalityI)
    fix j assume "j < length (entries s')"
    then have j: "j < unat (nr_map s) + 1" by (simp add: n)
    show "entries s' ! j = (take (unat pos + 1) (entries s) @ new_entry a l t # drop (unat pos + 1) (entries s)) ! j"
      using j pos n unfolding s'(2) sh
      by (auto simp: entries_def nth_append nth_Cons' min_def) (rule arg_cong [where f = "e820map s"], arith)+
  qed (use pos n in simp)
qed

lemma insert_end:
  assumes "unat (nr_map s) < 256" "insert_after_region s (nr_map s - 1) a l t = (b, s')"
  shows "b" "nr_map s' = nr_map s + 1" "entries s' = entries s @ [new_entry a l t]"
proof -
  have "\<not> nr_map s - 1 < nr_map s - 1" by simp
  then have "shift_up (e820map s) (nr_map s - 1) (nr_map s - 1) = e820map s" by (subst shift_up.simps) simp
  then have s': "b" "s' = \<lparr>e820map = (e820map s)(unat (nr_map s) := new_entry a l t), nr_map = nr_map s + 1\<rparr>"
    using assms(2) insert_room [OF assms(1)] by (auto simp: insert_after_region_def)
  then show "b" "nr_map s' = nr_map s + 1" by simp_all
  have "unat (nr_map s + 1) = Suc (unat (nr_map s))" using assms(1) by (simp add: unat_word_ariths)
  then show "entries s' = entries s @ [new_entry a l t]" by (simp add: entries_def s'(2))
qed

lemma upd_entry_entries:
  assumes "i < nr_map s"
  shows "entries (upd_entry i f s) = (entries s)[unat i := f (entries s ! unat i)]" "nr_map (upd_entry i f s) = nr_map s"
    "entry_at (upd_entry i f s) i = f (entry_at s i)"
  using assms
  by (auto simp: entries_def upd_entry_def entry_at_def word_less_nat_alt nth_list_update intro!: nth_equalityI)

lemma remove_entries:
  assumes "i < nr_map s"
  shows "entries (remove_region i s) = take (unat i) (entries s) @ drop (unat i + 1) (entries s)"
    "unat (nr_map (remove_region i s)) = unat (nr_map s) - 1"
proof -
  have n: "unat (nr_map s - 1) = unat (nr_map s) - 1" "unat i < unat (nr_map s)"
    using u32_prev [OF assms] assms by (simp_all add: word_less_nat_alt)
  then show "unat (nr_map (remove_region i s)) = unat (nr_map s) - 1" by (simp add: remove_region_def)
  show "entries (remove_region i s) = take (unat i) (entries s) @ drop (unat i + 1) (entries s)"
    by (rule nth_equalityI) (use n in \<open>auto simp: remove_region_def entries_def shift_down_eq nth_append min_def\<close>)
qed

end
