(* ===== verification/Intel.thy ===== *)
theory Intel
  imports E820 ELF_Correct
begin

text \<open>
  What the theories of the Intel launch share: the registers of the chipset and the \<open>getsec\<close> instruction
  as a parameter, access to the physical memory, the overflow checks of \<^verbatim>\<open>include/arch-intel/misc.h\<close>, and
  rules for code that reads memory, prints messages and decides.
\<close>

section \<open>Hardware\<close>

text \<open>The instructions that the code executes for their effect on the processors.\<close>

datatype cpu_op = Disable_intr | Wbinvd | Getsec_smctrl | Getsec_wakeup | Getsec_sexit | Cpu_relax | Lgdt

text \<open>
  The chipset's registers, the control registers, \<open>getsec\<close>, the instructions above, 16-bit registers in
  the address space, the registers \<open>cs\<close> and \<open>ebx\<close> (of \<open>cpuid\<close>) and whether the bit of \<open>cpuid\<close> in \<open>eflags\<close> can be
  changed. The last one is what the other processors make of a shared counter while this one waits.
\<close>

record 'd txt_hw =
  tx_rd64 :: "u32 \<Rightarrow> 'd \<Rightarrow> u64 \<times> 'd"
  tx_wr64 :: "u32 \<Rightarrow> u64 \<Rightarrow> 'd \<Rightarrow> 'd"
  tx_read_cr4 :: "'d \<Rightarrow> u32 \<times> 'd"
  tx_write_cr4 :: "u32 \<Rightarrow> 'd \<Rightarrow> 'd"
  tx_getsec_parameters :: "u32 \<Rightarrow> 'd \<Rightarrow> (u32 \<times> u32 \<times> u32) \<times> 'd"
  tx_read_cr0 :: "'d \<Rightarrow> u32 \<times> 'd"
  tx_write_cr0 :: "u32 \<Rightarrow> 'd \<Rightarrow> 'd"
  tx_read_eflags :: "'d \<Rightarrow> u32 \<times> 'd"
  tx_write_eflags :: "u32 \<Rightarrow> 'd \<Rightarrow> 'd"
  tx_op :: "cpu_op \<Rightarrow> 'd \<Rightarrow> 'd"
  tx_rd16 :: "u32 \<Rightarrow> 'd \<Rightarrow> u16 \<times> 'd"
  tx_wr16 :: "u32 \<Rightarrow> u16 \<Rightarrow> 'd \<Rightarrow> 'd"
  tx_capabilities :: "u32 \<Rightarrow> 'd \<Rightarrow> u32 \<times> 'd"
  tx_cs :: u16
  tx_cpuid_ebx :: "u32 \<Rightarrow> u32 \<Rightarrow> u32"
  tx_has_cpuid :: bool
  tx_others :: "'d \<Rightarrow> u32 \<Rightarrow> u32"

text \<open>The addresses that the linker gives to parts of the loader, the last one to string literals.\<close>

record symbols =
  sym_start :: u32
  sym_end :: u32
  sym_mle_start :: u32
  sym_mle_end :: u32
  sym_skinit :: u32
  sym_txt_wakeup :: u32
  sym_g_mle_hdr :: u32
  sym_g_mle_pt :: u32
  sym_g_rsdp :: u32
  sym_tboot_shared :: u32
  sym_g_cmdline :: u32
  sym_gdt :: u32
  sym_end_gdt :: u32
  sym_shutdown_entry :: u32
  sym_mle_join :: u32
  sym_ap_lock :: u32
  sym_s3_wakeup_16 :: u32
  sym_s3_wakeup_end :: u32
  sym_g_saved_s3_wakeup_page :: u32
  sym_idle_pg_table :: u32
  sym_host_vmcs :: u32
  sym_ap_vmcs :: u32
  sym_mini_guest :: u32
  sym_vmx_asm_vmexit_handler :: u32
  sym_string :: "string \<Rightarrow> u32"

definition on_device :: "('d \<Rightarrow> 'a \<times> 'd) \<Rightarrow> ('d intel, 'a) exec" where
  "on_device f = on_world (on_dev f)"

definition read_config_reg :: "'d txt_hw \<Rightarrow> u32 \<Rightarrow> u32 \<Rightarrow> ('d intel, u64) exec" where
  "read_config_reg tx config_regs_base reg = on_device (tx_rd64 tx (config_regs_base + reg))"

definition write_config_reg :: "'d txt_hw \<Rightarrow> u32 \<Rightarrow> u32 \<Rightarrow> u64 \<Rightarrow> ('d intel, unit) exec" where
  "write_config_reg tx config_regs_base reg val = on_device (\<lambda>d. ((), tx_wr64 tx (config_regs_base + reg) val d))"

definition read_pub_config_reg :: "'d txt_hw \<Rightarrow> u32 \<Rightarrow> ('d intel, u64) exec" where
  "read_pub_config_reg tx reg = read_config_reg tx 0xfed30000 reg"

definition write_pub_config_reg :: "'d txt_hw \<Rightarrow> u32 \<Rightarrow> u64 \<Rightarrow> ('d intel, unit) exec" where
  "write_pub_config_reg tx reg val = write_config_reg tx 0xfed30000 reg val"

definition read_priv_config_reg :: "'d txt_hw \<Rightarrow> u32 \<Rightarrow> ('d intel, u64) exec" where
  "read_priv_config_reg tx reg = read_config_reg tx 0xfed20000 reg"

definition write_priv_config_reg :: "'d txt_hw \<Rightarrow> u32 \<Rightarrow> u64 \<Rightarrow> ('d intel, unit) exec" where
  "write_priv_config_reg tx reg val = write_config_reg tx 0xfed20000 reg val"

definition read_msr :: "'d hw \<Rightarrow> u32 \<Rightarrow> ('d intel, u64) exec" where
  "read_msr hw a = on_device (hw_rdmsr hw a)"

definition write_msr :: "'d hw \<Rightarrow> u32 \<Rightarrow> u64 \<Rightarrow> ('d intel, unit) exec" where
  "write_msr hw a v = on_device (\<lambda>d. ((), hw_wrmsr hw a v d))"

definition read_cr4 :: "'d txt_hw \<Rightarrow> ('d intel, u32) exec" where
  "read_cr4 tx = on_device (tx_read_cr4 tx)"

definition write_cr4 :: "'d txt_hw \<Rightarrow> u32 \<Rightarrow> ('d intel, unit) exec" where
  "write_cr4 tx v = on_device (\<lambda>d. ((), tx_write_cr4 tx v d))"

definition read_cr0 :: "'d txt_hw \<Rightarrow> ('d intel, u32) exec" where
  "read_cr0 tx = on_device (tx_read_cr0 tx)"

definition write_cr0 :: "'d txt_hw \<Rightarrow> u32 \<Rightarrow> ('d intel, unit) exec" where
  "write_cr0 tx v = on_device (\<lambda>d. ((), tx_write_cr0 tx v d))"

definition read_eflags :: "'d txt_hw \<Rightarrow> ('d intel, u32) exec" where
  "read_eflags tx = on_device (tx_read_eflags tx)"

definition write_eflags :: "'d txt_hw \<Rightarrow> u32 \<Rightarrow> ('d intel, unit) exec" where
  "write_eflags tx v = on_device (\<lambda>d. ((), tx_write_eflags tx v d))"

definition cpuE :: "'d txt_hw \<Rightarrow> cpu_op \<Rightarrow> ('d intel, unit) exec" where
  "cpuE tx i = on_device (\<lambda>d. ((), tx_op tx i d))"

definition TXTCR_VER_FSBIF :: u32 where "TXTCR_VER_FSBIF = 0x0100"
definition TXTCR_DIDVID :: u32 where "TXTCR_DIDVID = 0x0110"
definition TXTCR_VER_QPIIF :: u32 where "TXTCR_VER_QPIIF = 0x0200"
definition TXTCR_SINIT_BASE :: u32 where "TXTCR_SINIT_BASE = 0x0270"
definition TXTCR_SINIT_SIZE :: u32 where "TXTCR_SINIT_SIZE = 0x0278"
definition TXTCR_HEAP_BASE :: u32 where "TXTCR_HEAP_BASE = 0x0300"
definition TXTCR_HEAP_SIZE :: u32 where "TXTCR_HEAP_SIZE = 0x0308"

section \<open>Memory and messages\<close>

abbreviation i_mem :: "'d intel \<Rightarrow> mem" where
  "i_mem s \<equiv> w_mem (i_world s)"

definition ld64 :: "mem \<Rightarrow> u32 \<Rightarrow> u64" where
  "ld64 m a = combine64b (ld32 m a) (ld32 m (a + 4))"

definition st8 :: "u32 \<Rightarrow> u8 \<Rightarrow> mem \<Rightarrow> mem" where
  "st8 a v m = m(a := v)"

definition st16 :: "u32 \<Rightarrow> u16 \<Rightarrow> mem \<Rightarrow> mem" where
  "st16 a v m = m(a := ucast v, a + 1 := ucast (drop_bit 8 v))"

definition st64 :: "u32 \<Rightarrow> u64 \<Rightarrow> mem \<Rightarrow> mem" where
  "st64 a v m = st32 (a + 4) (ucast (drop_bit 32 v)) (st32 a (ucast v) m)"

definition memE :: "('d intel, mem) exec" where
  "memE = getE i_mem"

definition setmemE :: "(mem \<Rightarrow> mem) \<Rightarrow> ('d intel, unit) exec" where
  "setmemE f = on_world (modifyE (\<lambda>w. w\<lparr>w_mem := f (w_mem w)\<rparr>))"

text \<open>One line of output: a text, a text and a number (\<open>out_description\<close>), or a text without a label.\<close>

datatype msg = Info string | Num string u32 | Num64 string u64 | Text string

fun tell :: "msg \<Rightarrow> ('d intel, unit) exec" where
  "tell (Info t) = on_world (on_screen (out_info (str t)))"
| "tell (Num t v) = on_world (on_screen (out_description (str t) v))"
| "tell (Num64 t v) = on_world (on_screen (out_description64 (str t) v))"
| "tell (Text t) = on_world (on_screen (out_string (str t)))"

primrec tell_all :: "msg list \<Rightarrow> ('d intel, unit) exec" where
  "tell_all [] = returnE ()"
| "tell_all (t # ts) = bindE (tell t) (\<lambda>_. tell_all ts)"

text \<open>Code that reads memory, prints and gives a value: the messages in order, and the value.\<close>

type_synonym 'a told = "msg list \<times> 'a"

definition runT :: "(mem \<Rightarrow> 'a told) \<Rightarrow> ('d intel, 'a) exec" where
  "runT f = bindE memE (\<lambda>m. bindE (tell_all (fst (f m))) (\<lambda>_. returnE (snd (f m))))"

definition saying :: "msg list \<Rightarrow> 'a told \<Rightarrow> 'a told" where
  "saying ts x = (ts @ fst x, snd x)"

section \<open>Overflow checks\<close>

definition plus_overflow_u64 :: "u64 \<Rightarrow> u64 \<Rightarrow> bool" where
  "plus_overflow_u64 x y \<longleftrightarrow> NOT 0 - x < y"

definition plus_overflow_u32 :: "u32 \<Rightarrow> u32 \<Rightarrow> bool" where
  "plus_overflow_u32 x y \<longleftrightarrow> NOT 0 - x < y"

definition multiply_overflow_u32 :: "u32 \<Rightarrow> u32 \<Rightarrow> bool" where
  "multiply_overflow_u32 x y = (if x > 0 then NOT 0 div x < y else False)"

lemma unat_u64_less: "unat (v :: u64) < 2 ^ 64"
  using unsigned_less [of v] by simp

lemma plus_overflow_u32_iff: "plus_overflow_u32 x y \<longleftrightarrow> 2 ^ 32 \<le> unat x + unat y"
proof -
  have "unat (NOT 0 - x) = 2 ^ 32 - 1 - unat x" using unat_u32_less [of x]
    by (subst unat_sub) (simp_all add: word_le_nat_alt unsigned_minus_1_eq_mask mask_eq_exp_minus_1)
  then show ?thesis using unat_u32_less [of x] by (auto simp: plus_overflow_u32_def word_less_nat_alt)
qed

lemma plus_overflow_u64_iff: "plus_overflow_u64 x y \<longleftrightarrow> 2 ^ 64 \<le> unat x + unat y"
proof -
  have "unat (NOT 0 - x) = 2 ^ 64 - 1 - unat x" using unat_u64_less [of x]
    by (subst unat_sub) (simp_all add: word_le_nat_alt unsigned_minus_1_eq_mask mask_eq_exp_minus_1)
  then show ?thesis using unat_u64_less [of x] by (auto simp: plus_overflow_u64_def word_less_nat_alt)
qed

lemma multiply_overflow_u32_iff: "multiply_overflow_u32 x y \<longleftrightarrow> 2 ^ 32 \<le> unat x * unat y"
proof (cases "x = 0")
  case False
  then have x: "0 < unat x" by (simp add: unat_gt_0)
  have "multiply_overflow_u32 x y \<longleftrightarrow> (2 ^ 32 - 1) div unat x < unat y"
    using False by (simp add: multiply_overflow_u32_def word_less_nat_alt unat_div unsigned_minus_1_eq_mask
      mask_eq_exp_minus_1 unat_gt_0)
  also have "\<dots> \<longleftrightarrow> 2 ^ 32 - 1 < unat y * unat x" by (rule div_less_iff_less_mult [OF x])
  finally show ?thesis by (simp add: mult.commute) arith
qed (simp add: multiply_overflow_u32_def)

lemma unat_plus_u32: "\<not> plus_overflow_u32 x y \<Longrightarrow> unat (x + y) = unat x + unat y"
  by (simp add: plus_overflow_u32_iff unat_word_ariths)

lemma unat_plus_u64: "\<not> plus_overflow_u64 x y \<Longrightarrow> unat (x + y) = unat x + unat y"
  by (simp add: plus_overflow_u64_iff unat_word_ariths)

lemma unat_times_u32: "\<not> multiply_overflow_u32 x y \<Longrightarrow> unat (x * y) = unat x * unat y"
  by (simp add: multiply_overflow_u32_iff unat_word_ariths)

section \<open>Code that only reads and prints\<close>

text \<open>The state \<open>s\<close> up to the contents of the screen.\<close>

definition like :: "'d intel \<Rightarrow> 'd intel \<Rightarrow> bool" where
  "like s s' \<longleftrightarrow> screen_ok (w_screen (i_world s')) \<and> (\<exists>scr. s' = s\<lparr>i_world := i_world s\<lparr>w_screen := scr\<rparr>\<rparr>)"

definition intel_ok :: "'d intel \<Rightarrow> bool" where
  "intel_ok s \<longleftrightarrow> screen_ok (w_screen (i_world s))"

lemma like_refl: "intel_ok s \<Longrightarrow> like s s"
  unfolding like_def intel_ok_def by (intro conjI exI [where x = "w_screen (i_world s)"]) simp_all

lemma like_parts:
  "like s s' \<Longrightarrow> i_mem s' = i_mem s" "like s s' \<Longrightarrow> w_dev (i_world s') = w_dev (i_world s)"
  "like s s' \<Longrightarrow> g_e820 s' = g_e820 s" "like s s' \<Longrightarrow> g_sinit s' = g_sinit s" "like s s' \<Longrightarrow> g_ldr_ctx s' = g_ldr_ctx s"
  "like s s' \<Longrightarrow> intel_ok s'"
  by (auto simp: like_def intel_ok_def)

lemma yields_tell:
  fixes s :: "'d intel"
  shows "yields (like s) (tell t) (Ok ()) (like s)"
proof -
  have "prints (out_info (str x))" "prints (out_description (str x) v)" "prints (out_description64 (str x) w)"
    "prints (out_string (str x))" for x v w
    unfolding out_info_def out_description_def out_description64_def out_hex64_def
    by (intro prints_bindE prints_out_string prints_out_chars prints_out_hex prints_out_char prints_returnE zero_in_str)+
  then have "\<exists>p. (tell t :: ('d intel, unit) exec) = on_world (on_screen p) \<and> prints (p :: (screen, unit) exec)" by (cases t) auto
  then obtain p :: "(screen, unit) exec" where p: "(tell t :: ('d intel, unit) exec) = on_world (on_screen p)" "prints p" by blast
  show ?thesis unfolding p(1)
  proof (rule yieldsI)
    fix s' assume s': "like s s'"
    then have "screen_ok (w_screen (i_world s'))" by (simp add: like_def)
    from p(2) [unfolded prints_def, rule_format, OF this]
    obtain scr where scr: "p (w_screen (i_world s')) = (Ok (), scr)" "screen_ok scr" by auto
    have "like s (s'\<lparr>i_world := (i_world s')\<lparr>w_screen := scr\<rparr>\<rparr>)" 
    proof -
      obtain t where t: "s' = s\<lparr>i_world := i_world s\<lparr>w_screen := t\<rparr>\<rparr>" using s' unfolding like_def by blast
      show ?thesis unfolding like_def
        by (intro conjI exI [where x = scr]) (simp_all add: t scr(2))
    qed
    then show "\<exists>s''. on_world (on_screen p) s' = (Ok (), s'') \<and> like s s''"
      by (simp add: on_world_def on_screen_def scr(1))
  qed
qed

lemma yields_tell_all: "yields (like s) (tell_all ts) (Ok ()) (like s)"
  by (induction ts) (auto intro: yields_bind yields_tell yields_returnE)

lemma yields_runT: "yields (like s) (runT f) (Ok (snd (f (i_mem s)))) (like s)"
  unfolding runT_def memE_def
  by (rule yields_getE [where a = "i_mem s"])
    (auto simp: like_parts intro: yields_bind yields_tell_all yields_returnE)

text \<open>The rules for one step that only reads, in front of the rest \<open>k\<close>.\<close>

lemma yields_tell_then: "yields (like s) k r Q \<Longrightarrow> yields (like s) (bindE (tell t) (\<lambda>_. k)) r Q"
  by (rule yields_bind [OF yields_tell])

lemma yields_memE_then: "yields (like s) (k (i_mem s)) r Q \<Longrightarrow> yields (like s) (bindE memE k) r Q"
  unfolding memE_def by (rule yields_getE [where a = "i_mem s"]) (auto simp: like_parts)

lemma yields_runT_then: "yields (like s) (k (snd (f (i_mem s)))) r Q \<Longrightarrow> yields (like s) (bindE (runT f) k) r Q"
  by (rule yields_bind [OF yields_runT])

lemma yields_if: "(c \<Longrightarrow> yields P m r Q) \<Longrightarrow> (\<not> c \<Longrightarrow> yields P m' r Q) \<Longrightarrow> yields P (if c then m else m') r Q"
  by simp

lemma yields_ret: "a = b \<Longrightarrow> yields P (returnE a) (Ok b) P"
  by (simp add: yields_returnE)

lemmas reading = yields_tell_then yields_memE_then yields_runT_then yields_if yields_ret

text \<open>
  Registers that keep their value and whose reading has no effect, as the configuration registers of
  the chipset that the firmware has locked; \<open>rv\<close> gives the value at an address.
\<close>

definition fixed_registers :: "'d txt_hw \<Rightarrow> (u32 \<Rightarrow> u64) \<Rightarrow> bool" where
  "fixed_registers tx rv \<longleftrightarrow> (\<forall>a d. tx_rd64 tx a d = (rv a, d))"

lemma yields_reg_then:
  assumes "fixed_registers tx rv"
  shows "yields (like s) (k (rv (0xfed30000 + reg))) r Q \<Longrightarrow> yields (like s) (bindE (read_pub_config_reg tx reg) k) r Q"
    "yields (like s) (k (rv (0xfed20000 + reg))) r Q \<Longrightarrow> yields (like s) (bindE (read_priv_config_reg tx reg) k) r Q"
proof -
  have rd: "yields (like s) (read_config_reg tx b reg) (Ok (rv (b + reg))) (like s)" for b
    by (rule yieldsI)
      (use assms in \<open>simp add: read_config_reg_def on_device_def on_world_def on_dev_def fixed_registers_def\<close>)
  show "yields (like s) (k (rv (0xfed30000 + reg))) r Q \<Longrightarrow> yields (like s) (bindE (read_pub_config_reg tx reg) k) r Q"
    "yields (like s) (k (rv (0xfed20000 + reg))) r Q \<Longrightarrow> yields (like s) (bindE (read_priv_config_reg tx reg) k) r Q"
    unfolding read_pub_config_reg_def read_priv_config_reg_def by (erule yields_bind [OF rd])+
qed

section \<open>A machine for the examples\<close>

definition sim_txt :: "(u32 \<Rightarrow> u64) \<Rightarrow> 'd txt_hw" where
  "sim_txt rv = \<lparr>tx_rd64 = (\<lambda>a d. (rv a, d)), tx_wr64 = (\<lambda>a v d. d), tx_read_cr4 = (\<lambda>d. (0x4000, d)),
     tx_write_cr4 = (\<lambda>v d. d), tx_getsec_parameters = (\<lambda>i d. ((if i = 0 then 0x40002 else 0, 0, 0), d)),
     tx_read_cr0 = (\<lambda>d. (0x21, d)), tx_write_cr0 = (\<lambda>v d. d), tx_read_eflags = (\<lambda>d. (0, d)), tx_write_eflags = (\<lambda>v d. d),
     tx_op = (\<lambda>i d. d), tx_rd16 = (\<lambda>a d. (0, d)), tx_wr16 = (\<lambda>a v d. d), tx_capabilities = (\<lambda>i d. (0x1ff, d)), tx_cs = 8,
     tx_cpuid_ebx = (\<lambda>i j. if i = 0 then 0x756e6547 else 0), tx_has_cpuid = True, tx_others = (\<lambda>d n. n)\<rparr>"

definition sim_intel :: "mem \<Rightarrow> 'c \<Rightarrow> 'c sim intel" where
  "sim_intel m k = \<lparr>i_world = (sim_world k (\<lambda>_. \<lparr>mn_size = 0, mn_next = 0\<rparr>))\<lparr>w_mem := m\<rparr>,
     g_e820 = \<lparr>e820map = (\<lambda>_. new_entry 0 0 0), nr_map = 0\<rparr>, g_min_ram = 0, g_sinit = 0,
     g_ldr_ctx = \<lparr>lc_addr = 0, lc_type = 0\<rparr>, g_tboot_param_values = [], g_linux_param_values = [],
     g_com_port = \<lparr>comc_curspeed = 115200, comc_clockhz = 0, comc_fmt = 3, comc_port = 0x3f8, comc_irq = 0,
       comc_psbdf = \<lparr>bdf_bus = 0, bdf_slot = 0, bdf_func = 0\<rparr>, comc_pbbdf = \<lparr>bdf_bus = 0, bdf_slot = 0, bdf_func = 0\<rparr>\<rparr>,
     g_psbdf_enabled = False, g_pbbdf_enabled = False, boot_params = 0, g_saved_mtrrs = 0, g_using_da = 0, g_elog = 0, ap_wfs_count = 0,
     rsdp = 0, g_dmar_table = 0, g_hide_dmar = False, g_cpuid_ext_feat_info = 0, g_feat_ctrl_msr = 0, kernel_s3_resume_vector = 0,
     vmcs_rev_id = 0, pin_based_vm_exec_ctrls = 0, proc_based_vm_exec_ctrls = 0, vm_exit_ctrls = 0, vm_entry_ctrls = 0,
     init_done = False, aps_exit_guest = 0\<rparr>"

lemma sim_intel_parts [simp]: "intel_ok (sim_intel m k)" "i_mem (sim_intel m k) = m"
  by (simp_all add: intel_ok_def sim_intel_def sim_world_def screen_ok_def)

lemma sim_txt_fixed [simp]: "fixed_registers (sim_txt rv) rv"
  by (simp add: fixed_registers_def sim_txt_def)

lemma ld64_parts: "ld32 m a = lo \<Longrightarrow> ld32 m (a + 4) = hi \<Longrightarrow> ld64 m a = combine64b lo hi"
  by (simp add: ld64_def)

end
