(* ===== verification/TXT_Heap.thy ===== *)
theory TXT_Heap
  imports Intel
begin

text \<open>
  The TXT heap (\<^verbatim>\<open>src/arch-intel/heap.c\<close> and \<^verbatim>\<open>include/arch-intel/heap.h\<close>): four tables one behind the
  other, each with its size in front, which the firmware, the loader and SINIT fill for each other.
  The checks read the tables in the physical memory and print what they reject.
\<close>

section \<open>Tables\<close>

definition get_txt_heap :: "'d txt_hw \<Rightarrow> ('d intel, u32) exec" where
  "get_txt_heap tx = bindE (read_pub_config_reg tx TXTCR_HEAP_BASE) (\<lambda>v. returnE (ucast v))"

definition get_bios_data_size :: "mem \<Rightarrow> u32 \<Rightarrow> u64" where
  "get_bios_data_size m heap = ld64 m heap"

definition get_bios_data_start :: "u32 \<Rightarrow> u32" where
  "get_bios_data_start heap = heap + 8"

text \<open>\<open>heap + size\<close> is arithmetic on a 32-bit pointer.\<close>

definition get_os_mle_data_size :: "mem \<Rightarrow> u32 \<Rightarrow> u64" where
  "get_os_mle_data_size m heap = ld64 m (heap + ucast (get_bios_data_size m heap))"

definition get_os_mle_data_start :: "mem \<Rightarrow> u32 \<Rightarrow> u32" where
  "get_os_mle_data_start m heap = heap + ucast (get_bios_data_size m heap) + 8"

definition get_os_sinit_data_size :: "mem \<Rightarrow> u32 \<Rightarrow> u64" where
  "get_os_sinit_data_size m heap =
     ld64 m (heap + ucast (get_bios_data_size m heap) + ucast (get_os_mle_data_size m heap))"

definition get_os_sinit_data_start :: "mem \<Rightarrow> u32 \<Rightarrow> u32" where
  "get_os_sinit_data_start m heap =
     heap + ucast (get_bios_data_size m heap) + ucast (get_os_mle_data_size m heap) + 8"

definition get_sinit_mle_data_size :: "mem \<Rightarrow> u32 \<Rightarrow> u64" where
  "get_sinit_mle_data_size m heap =
     ld64 m (heap + ucast (get_bios_data_size m heap) + ucast (get_os_mle_data_size m heap)
       + ucast (get_os_sinit_data_size m heap))"

definition get_sinit_mle_data_start :: "mem \<Rightarrow> u32 \<Rightarrow> u32" where
  "get_sinit_mle_data_start m heap =
     heap + ucast (get_bios_data_size m heap) + ucast (get_os_mle_data_size m heap)
       + ucast (get_os_sinit_data_size m heap) + 8"

text \<open>The addresses of the members of the packed structures.\<close>

record bios_data_t =
  bd_version :: u32
  bd_bios_sinit_size :: u32
  bd_lcp_pd_base :: u32
  bd_lcp_pd_size :: u32
  bd_num_logical_procs :: u32
  bd_flags :: u32
  bd_ext_data_elts :: u32

definition bios_data_at :: "u32 \<Rightarrow> bios_data_t" where
  "bios_data_at a = \<lparr>bd_version = a, bd_bios_sinit_size = a + 4, bd_lcp_pd_base = a + 8, bd_lcp_pd_size = a + 16,
     bd_num_logical_procs = a + 24, bd_flags = a + 28, bd_ext_data_elts = a + 36\<rparr>"

text \<open>
  \<open>sizeof(os_mle_data_t)\<close>: the version, the MTRR state (two 8-byte arrays of 16, a type and a count),
  two words, the policy data and the event log; \<open>sizeof(os_sinit_data_t)\<close> is 92.
\<close>

definition sizeof_os_mle_data_t :: u64 where
  "sizeof_os_mle_data_t = 4 + (8 + 4 + 16 * 8 + 16 * 8) + 4 + 4 + 64 * 1024 + 5 * 4 * 1024"

section \<open>Extended data elements\<close>

definition elt_type :: "mem \<Rightarrow> u32 \<Rightarrow> u32" where "elt_type m elt = ld32 m elt"
definition elt_size :: "mem \<Rightarrow> u32 \<Rightarrow> u32" where "elt_size m elt = ld32 m (elt + 4)"

definition verify_bios_spec_ver_elt :: "mem \<Rightarrow> u32 \<Rightarrow> bool told" where
  "verify_bios_spec_ver_elt m elt =
     (if elt_size m elt \<noteq> 8 + 6
      then ([Num ''HEAP_BIOS_SPEC_VER element has wrong size'' (elt_size m elt)], False) else ([], True))"

text \<open>The loop over the addresses of an ACM element from index \<open>i\<close>.\<close>

function verify_acm_addrs :: "mem \<Rightarrow> u32 \<Rightarrow> u32 \<Rightarrow> u32 \<Rightarrow> bool told" where
  "verify_acm_addrs m elt num i =
     (if i < num then
        let addr = ld64 m (elt + 12 + i * 8) in
        if addr = 0 then ([Num ''HEAP_ACM element ACM addr is NULL. index:'' i], False)
        else if addr \<ge> 0x100000000
        then ([Num (''HEAP_ACM element ACM addr is >4GB (0x%jx)'' @ [CHR 0x0A]) (ucast addr), Num ''ERROR in index'' i], False)
        else verify_acm_addrs m elt num (i + 1)
      else ([], True))"
  by pat_completeness auto
termination
  by (relation "measure (\<lambda>(_, _, num, i). unat num - unat i)") (auto simp: u32_next word_less_nat_alt)

declare verify_acm_addrs.simps [simp del]

definition verify_acm_elt :: "mem \<Rightarrow> u32 \<Rightarrow> bool told" where
  "verify_acm_elt m elt =
     (let num_acms = ld32 m (elt + 8) in
      if elt_size m elt \<noteq> 8 + 4 + num_acms * 8
      then ([Num ''HEAP_ACM element has wrong size :'' (elt_size m elt)], False)
      else saying (if num_acms = 0 then [Info ''WARNING: HEAP_ACM element has no ACM addrs''] else [])
             (verify_acm_addrs m elt num_acms 0))"

definition verify_custom_elt :: "mem \<Rightarrow> u32 \<Rightarrow> bool told" where
  "verify_custom_elt m elt =
     (if elt_size m elt < 8 + 16 then ([Num ''HEAP_CUSTOM element has wrong size :'' (elt_size m elt)], False) else ([], True))"

definition EVTLOG_SIGNATURE :: bytes where
  "EVTLOG_SIGNATURE = str ''TXT Event Container''"

definition verify_evt_log :: "mem \<Rightarrow> u32 \<Rightarrow> bool told" where
  "verify_evt_log m elog =
     (let size' = ld32 m (elog + 36); events = ld32 m (elog + 40); next = ld32 m (elog + 44) in
      if elog = 0 then ([Info (''Event log container pointer is NULL'' @ [CHR 0x0A])], False)
      else if bytes_at m elog 20 \<noteq> EVTLOG_SIGNATURE then ([Info ''Bad event log container signature''], False)
      else if size' \<noteq> 5 * 4 * 1024
      then ([Num (''Bad event log container size: 0x%x'' @ [CHR 0x0A]) size'], False)
      else if events < 48 \<or> next < events \<or> next > size'
      then ([Info ''Bad events offset range'', Num ''elog->pcr_events_offset'' events, Num ''elog->next_event_offset'' next], False)
      else ([], True))"

definition verify_evt_log_ptr_elt :: "mem \<Rightarrow> u32 \<Rightarrow> bool told" where
  "verify_evt_log_ptr_elt m elt =
     (if elt_size m elt \<noteq> 8 + 8
      then ([Num ''HEAP_EVENT_LOG_POINTER element has wrong size :'' (elt_size m elt)], False)
      else verify_evt_log m (ucast (ld64 m (elt + 8))))"

definition verify_evt_log_ptr_elt_2 :: "mem \<Rightarrow> u32 \<Rightarrow> bool told" where
  "verify_evt_log_ptr_elt_2 m elt = ([], elt \<noteq> 0)"

text \<open>The check the type of an element selects; \<open>HEAP_EXTDATA_TYPE_END\<close> is handled by the loop.\<close>

definition unknown_elt :: "mem \<Rightarrow> u32 \<Rightarrow> msg list" where
  "unknown_elt m elt = [Info ''unknown element'', Num ''type:'' (elt_type m elt), Num ''size:'' (elt_size m elt)]"

definition verify_elt :: "mem \<Rightarrow> u32 \<Rightarrow> bool told" where
  "verify_elt m elt =
     (if elt_type m elt = 1 then verify_bios_spec_ver_elt m elt
      else if elt_type m elt = 2 then verify_acm_elt m elt
      else if elt_type m elt = 4 then verify_custom_elt m elt
      else if elt_type m elt = 5 then verify_evt_log_ptr_elt m elt
      else if elt_type m elt = 7 then verify_evt_log_ptr_elt_2 m elt
      else (unknown_elt m elt, True))"

function verify_ext_data_elts :: "mem \<Rightarrow> u32 \<Rightarrow> u32 \<Rightarrow> bool told" where
  "verify_ext_data_elts m elt elts_size =
     (if elts_size < 8 then ([Info ''heap ext data elements too small''], False)
      else if elts_size < elt_size m elt \<or> elt_size m elt = 0
      then ([Info ''invalid element size'', Num ''type:'' (elt_type m elt), Num ''size:'' (elt_size m elt)], False)
      else if elt_type m elt = 0 then ([], True)
      else if snd (verify_elt m elt)
      then saying (fst (verify_elt m elt)) (verify_ext_data_elts m (elt + elt_size m elt) (elts_size - elt_size m elt))
      else verify_elt m elt)"
  by pat_completeness auto
termination
proof (relation "measure (\<lambda>(_, _, n). unat n)", goal_cases)
  case (2 m elt n)
  then have "elt_size m elt \<le> n" "0 < unat (elt_size m elt)" by (simp_all add: unat_gt_0 not_less)
  then show ?case by (simp add: unat_sub word_le_nat_alt)
qed simp

declare verify_ext_data_elts.simps [simp del]

text \<open>Printing the elements; the loop does not end when an element has size 0.\<close>

definition print_bios_spec_ver_elt :: "mem \<Rightarrow> u32 \<Rightarrow> msg list" where
  "print_bios_spec_ver_elt m elt =
     [Info ''BIOS_SPEC_VER'', Num ''major'' (ucast (ld16 m (elt + 8))), Num ''minor'' (ucast (ld16 m (elt + 10))),
      Num ''trev'' (ucast (ld16 m (elt + 12)))]"

definition print_acm_elt :: "mem \<Rightarrow> u32 \<Rightarrow> msg list" where
  "print_acm_elt m elt =
     (let tab = [CHR 0x09, CHR 0x09]; num_acms = ld32 m (elt + 8) in
      [Info ''ACM:'', Num (tab @ ''num_acms'') num_acms] @
      map (\<lambda>i. Num (tab @ ''     acm_addrs'') (ucast (ld64 m (elt + 12 + of_nat i * 8)))) [0..<unat num_acms])"

definition print_uuid :: "mem \<Rightarrow> u32 \<Rightarrow> msg list" where
  "print_uuid m uuid =
     [Info ''UUID'', Num ''uuid->data1'' (ld32 m uuid), Num ''uuid->data2'' (ucast (ld16 m (uuid + 4))),
      Num ''uuid->data3'' (ucast (ld16 m (uuid + 6))), Num ''uuid->data4'' (ucast (ld16 m (uuid + 8))),
      Num ''uuid->data5[0]'' (ucast (m (uuid + 10))), Num ''uuid->data5[1]'' (ucast (m (uuid + 11))),
      Num ''uuid->data5[2]'' (ucast (m (uuid + 12))), Num ''uuid->data5[3]'' (ucast (m (uuid + 13))),
      Num ''uuid->data5[4]'' (ucast (m (uuid + 14))), Num ''uuid->data5[5]'' (ucast (m (uuid + 15)))]"

definition print_custom_elt :: "mem \<Rightarrow> u32 \<Rightarrow> msg list" where
  "print_custom_elt m elt =
     [Info ''CUSTOM:'', Num ([CHR 0x09, CHR 0x09] @ ''    size'') (elt_size m elt), Info ''uuid''] @ print_uuid m (elt + 8)"

definition print_elt :: "mem \<Rightarrow> u32 \<Rightarrow> msg list" where
  "print_elt m elt =
     (if elt_type m elt = 1 then print_bios_spec_ver_elt m elt
      else if elt_type m elt = 2 then print_acm_elt m elt
      else if elt_type m elt = 4 then print_custom_elt m elt
      else if elt_type m elt \<in> {5, 7, 8} then []
      else unknown_elt m elt)"

partial_function (option) print_elts :: "mem \<Rightarrow> u32 \<Rightarrow> msg list option" where
  "print_elts m elt =
     (if elt_type m elt \<noteq> 0
      then Option.bind (print_elts m (elt + elt_size m elt)) (\<lambda>ts. Some (print_elt m elt @ ts))
      else Some [])"

definition print_ext_data_elts :: "u32 \<Rightarrow> ('d intel, unit) exec" where
  "print_ext_data_elts elts =
     bindE memE (\<lambda>m. case print_elts m elts of None \<Rightarrow> stopE Hang | Some ts \<Rightarrow> tell_all ts)"

section \<open>The checks of the tables\<close>

definition verify_bios_data :: "'d txt_hw \<Rightarrow> u32 \<Rightarrow> ('d intel, bool) exec" where
  "verify_bios_data tx txt_heap =
     bindE (read_pub_config_reg tx TXTCR_HEAP_BASE) (\<lambda>heap_base.
     bindE (read_pub_config_reg tx TXTCR_HEAP_SIZE) (\<lambda>heap_size.
     if txt_heap = 0 \<or> heap_base = 0 \<or> heap_size = 0
     then bindE (tell (Info ''HEAP : Invalide size'')) (\<lambda>_. returnE False)
     else bindE memE (\<lambda>m.
       let sz = get_bios_data_size m txt_heap; bd = bios_data_at (get_bios_data_start txt_heap);
           version = ld32 m (bd_version bd); procs = ld32 m (bd_num_logical_procs bd) in
       if sz = 0 then bindE (tell (Info (''BIOS data size is 0'' @ [CHR 0x0A]))) (\<lambda>_. returnE False)
       else if sz > heap_size
       then bindE (tell_all [Info ''BIOS data size is larger than heap size'', Num ''size'' (ucast sz),
              Num ''headp size'' (ucast heap_size)]) (\<lambda>_. returnE False)
       else if version < 2
       then bindE (tell (Num ''unsupported BIOS data version'' version)) (\<lambda>_. returnE False)
       else bindE (if version > 4 then tell (Num ''Just Warning: unsupported BIOS data version:'' version) else returnE ()) (\<lambda>_.
         if procs < 1
         then bindE (tell (Num ''BIOS data has incorrect num_logical_procs:'' procs)) (\<lambda>_. returnE False)
         else if procs > 512
         then bindE (tell (Num ''BIOS data specifies too many CPUs:'' procs)) (\<lambda>_. returnE False)
         else if version \<ge> 4 \<and> sz > 36 + 8
         then runT (\<lambda>m. verify_ext_data_elts m (bd_ext_data_elts bd) (ucast (sz - 36 - 8)))
         else returnE True))))"

definition verify_os_mle_data :: "'d txt_hw \<Rightarrow> u32 \<Rightarrow> ('d intel, bool) exec" where
  "verify_os_mle_data tx txt_heap =
     bindE (read_priv_config_reg tx TXTCR_HEAP_SIZE) (\<lambda>heap_size.
     bindE memE (\<lambda>m.
       let sz = get_os_mle_data_size m txt_heap; version = ld32 m (get_os_mle_data_start m txt_heap) in
       if sz = 0 then bindE (tell (Info ''OS to MLE data size is 0'')) (\<lambda>_. returnE False)
       else if sz > heap_size
       then bindE (tell_all [Info ''OS to MLE data size is larger than heap size'', Num ''size'' (ucast sz),
              Num ''head size'' (ucast heap_size)]) (\<lambda>_. returnE False)
       else if sz \<noteq> sizeof_os_mle_data_t + 8
       then bindE (tell_all [Info ''OS to MLE data size is not equal to os_mle_data_t + size'', Num ''size'' (ucast sz),
              Num ''size of os_mle_data'' (ucast sizeof_os_mle_data_t)]) (\<lambda>_. returnE False)
       else if version \<noteq> 3
       then bindE (tell (Num ''unsupported OS to MLE data version'' version)) (\<lambda>_. returnE False)
       else returnE True))"

text \<open>The array has three elements; \<open>None\<close> is an index outside it.\<close>

definition calc_os_sinit_data_size :: "u32 \<Rightarrow> u64 option" where
  "calc_os_sinit_data_size version =
     (let sizes = [84 + 8, 92 + 8, 92 + 8 + 2 * 8 + 8] in
      if version \<ge> 6 then Some (sizes ! 2)
      else if unat (version - 4) < 3 then Some (sizes ! unat (version - 4)) else None)"

text \<open>In the release build only the elements are printed.\<close>

definition print_os_sinit_data :: "u32 \<Rightarrow> ('d intel, unit) exec" where
  "print_os_sinit_data os_sinit_data =
     bindE memE (\<lambda>m. if ld32 m os_sinit_data \<ge> 6 then print_ext_data_elts (os_sinit_data + 92) else returnE ())"

definition verify_os_sinit_data :: "'d txt_hw \<Rightarrow> u32 \<Rightarrow> ('d intel, bool) exec" where
  "verify_os_sinit_data tx txt_heap =
     bindE (read_priv_config_reg tx TXTCR_HEAP_SIZE) (\<lambda>heap_size.
     bindE memE (\<lambda>m.
       let sz = get_os_sinit_data_size m txt_heap; os_sinit_data = get_os_sinit_data_start m txt_heap;
           version = ld32 m os_sinit_data in
       if sz = 0 then bindE (tell (Info (''OS to SINIT data size is 0'' @ [CHR 0x0A]))) (\<lambda>_. returnE False)
       else if sz > heap_size
       then bindE (tell_all [Info ''OS to SINIT data size is larger than heap size'', Num ''size'' (ucast sz),
              Num ''heap_size'' (ucast heap_size)]) (\<lambda>_. returnE False)
       else if version < 4 \<or> version > 7
       then bindE (tell (Num ''unsupported OS to SINIT data version'' version)) (\<lambda>_. returnE False)
       else case calc_os_sinit_data_size version of
         None \<Rightarrow> stopE Fault
       | Some n \<Rightarrow>
         if sz \<noteq> n
         then bindE (tell_all [Info ''OS to SINIT data size (%Lx) does not match for version'', Num ''size'' (ucast sz),
                Num ''os_sinit_data_t'' 92]) (\<lambda>_. returnE False)
         else bindE (if version \<ge> 6 then runT (\<lambda>m. verify_ext_data_elts m (os_sinit_data + 92) (ucast (sz - 92 - 8)))
                     else returnE True) (\<lambda>b.
           if \<not> b then returnE False
           else bindE (print_os_sinit_data os_sinit_data) (\<lambda>_. returnE True))))"

definition verify_sinit_mle_data :: "'d txt_hw \<Rightarrow> u32 \<Rightarrow> ('d intel, bool) exec" where
  "verify_sinit_mle_data tx txt_heap =
     bindE (read_priv_config_reg tx TXTCR_HEAP_SIZE) (\<lambda>heap_size.
     bindE memE (\<lambda>m.
       let sz = get_sinit_mle_data_size m txt_heap; version = ld32 m (get_sinit_mle_data_start m txt_heap) in
       if sz = 0 then bindE (tell (Info (''SINIT to MLE data size is 0'' @ [CHR 0x0A]))) (\<lambda>_. returnE False)
       else if sz > heap_size
       then bindE (tell (Info ''SINIT to MLE data size is larger than heap size'')) (\<lambda>_. returnE False)
       else if version < 6
       then bindE (tell (Num ''unsupported SINIT to MLE data version'' version)) (\<lambda>_. returnE False)
       else bindE (if version > 9 then tell (Num ''unsupported SINIT to MLE data version'' version) else returnE ()) (\<lambda>_.
         returnE True)))"

definition verify_txt_heap :: "'d txt_hw \<Rightarrow> u32 \<Rightarrow> bool \<Rightarrow> ('d intel, bool) exec" where
  "verify_txt_heap tx txt_heap bios_data_only =
     bindE (verify_bios_data tx txt_heap) (\<lambda>b.
     if \<not> b then returnE False
     else if bios_data_only then returnE True
     else bindE memE (\<lambda>m.
       let size1 = get_bios_data_size m txt_heap; size2 = get_os_mle_data_size m txt_heap;
           size3 = get_os_sinit_data_size m txt_heap; size4 = get_sinit_mle_data_size m txt_heap in
       if plus_overflow_u64 size1 size2 \<or> plus_overflow_u64 size3 size4 \<or>
          plus_overflow_u64 (size1 + size2) (size3 + size4)
       then bindE (tell (Info ''TXT heap data size overflows'')) (\<lambda>_. returnE False)
       else bindE (read_priv_config_reg tx TXTCR_HEAP_SIZE) (\<lambda>heap_size.
         if size1 + size2 + size3 + size4 > heap_size
         then bindE (tell (Info ''TXT heap data sizes size1, size2, size3, size4, are larger than heap total'')) (\<lambda>_.
              returnE False)
         else bindE (verify_os_mle_data tx txt_heap) (\<lambda>b.
           if \<not> b then returnE False
           else bindE (verify_os_sinit_data tx txt_heap) (\<lambda>b.
             if \<not> b then returnE False
             else bindE (verify_sinit_mle_data tx txt_heap) (\<lambda>b. if \<not> b then returnE False else returnE True))))))"

section \<open>The checks return\<close>

text \<open>A list of elements in \<open>n\<close> bytes that ends with an element of type 0.\<close>

inductive elt_chain :: "mem \<Rightarrow> u32 \<Rightarrow> nat \<Rightarrow> bool" for m where
  chain_end: "8 \<le> n \<Longrightarrow> elt_size m a \<noteq> 0 \<Longrightarrow> unat (elt_size m a) \<le> n \<Longrightarrow> elt_type m a = 0 \<Longrightarrow> elt_chain m a n"
| chain_step: "8 \<le> n \<Longrightarrow> elt_size m a \<noteq> 0 \<Longrightarrow> unat (elt_size m a) \<le> n \<Longrightarrow> elt_type m a \<noteq> 0 \<Longrightarrow>
    snd (verify_elt m a) \<Longrightarrow> elt_chain m (a + elt_size m a) (n - unat (elt_size m a)) \<Longrightarrow> elt_chain m a n"

inductive_simps elt_chain_iff: "elt_chain m a n"

lemma verify_ext_data_elts_iff: "snd (verify_ext_data_elts m a n) \<longleftrightarrow> elt_chain m a (unat n)"
proof (induction m a n rule: verify_ext_data_elts.induct)
  case (1 m a n)
  have sz: "unat (n - elt_size m a) = unat n - unat (elt_size m a)" if "elt_size m a \<le> n"
    using that by (simp add: unat_sub)
  show ?case
  proof (cases "n < 8 \<or> n < elt_size m a \<or> elt_size m a = 0")
    case True
    then show ?thesis
      by (subst verify_ext_data_elts.simps, subst elt_chain_iff) (auto simp: word_less_nat_alt not_le)
  next
    case False
    then have le: "elt_size m a \<le> n" "\<not> n < 8" by auto
    show ?thesis
      by (subst verify_ext_data_elts.simps, subst elt_chain_iff)
        (use False 1 sz [OF le(1)] le in \<open>auto simp: saying_def word_less_nat_alt not_less word_le_nat_alt\<close>)
  qed
qed

lemma print_elts_chain: "elt_chain m a n \<Longrightarrow> \<exists>ts. print_elts m a = Some ts"
proof (induction rule: elt_chain.induct)
  case (chain_end n a)
  then show ?case by (subst print_elts.simps) simp
next
  case (chain_step n a)
  then show ?case by (subst print_elts.simps) auto
qed

lemma yields_print_ext_data_elts:
  "elt_chain (i_mem s) a n \<Longrightarrow> yields (like s) (print_ext_data_elts a) (Ok ()) (like s)"
  unfolding print_ext_data_elts_def using print_elts_chain [of "i_mem s" a n]
  by (intro yields_memE_then) (auto intro: yields_tell_all)

lemma yields_tell_all_then: "yields (like s) k r Q \<Longrightarrow> yields (like s) (bindE (tell_all ts) (\<lambda>_. k)) r Q"
  by (rule yields_bind [OF yields_tell_all])

lemma yields_when_then:
  "yields (like s) k r Q \<Longrightarrow> yields (like s) (bindE (if c then tell t else returnE ()) (\<lambda>_. k)) r Q"
  by (cases c) (simp_all add: yields_tell_then)

text \<open>The branches of each check that accept, gathered into one condition each, with the sizes the two views of the registers give.\<close>

definition bios_accepted :: "mem \<Rightarrow> u64 \<Rightarrow> u64 \<Rightarrow> u32 \<Rightarrow> bool" where
  "bios_accepted m base limit heap \<longleftrightarrow>
     (let sz = get_bios_data_size m heap; version = ld32 m (heap + 8); procs = ld32 m (heap + 32) in
      heap \<noteq> 0 \<and> base \<noteq> 0 \<and> limit \<noteq> 0 \<and> sz \<noteq> 0 \<and> sz \<le> limit \<and> 2 \<le> version \<and> procs \<noteq> 0 \<and> procs \<le> 512 \<and>
      (4 \<le> version \<and> 44 < sz \<longrightarrow> elt_chain m (heap + 44) (unat (ucast (sz - 44) :: u32))))"

definition os_mle_accepted :: "mem \<Rightarrow> u64 \<Rightarrow> u32 \<Rightarrow> bool" where
  "os_mle_accepted m limit heap \<longleftrightarrow>
     get_os_mle_data_size m heap = sizeof_os_mle_data_t + 8 \<and> get_os_mle_data_size m heap \<le> limit \<and>
     ld32 m (get_os_mle_data_start m heap) = 3"

definition os_sinit_accepted :: "mem \<Rightarrow> u64 \<Rightarrow> u32 \<Rightarrow> bool" where
  "os_sinit_accepted m limit heap \<longleftrightarrow>
     (let sz = get_os_sinit_data_size m heap; a = get_os_sinit_data_start m heap; version = ld32 m a in
      sz \<le> limit \<and> 4 \<le> version \<and> version \<le> 7 \<and> sz = (if version = 4 then 92 else if version = 5 then 100 else 124) \<and>
      (6 \<le> version \<longrightarrow> elt_chain m (a + 92) 24))"

definition sinit_mle_accepted :: "mem \<Rightarrow> u64 \<Rightarrow> u32 \<Rightarrow> bool" where
  "sinit_mle_accepted m limit heap \<longleftrightarrow>
     (let sz = get_sinit_mle_data_size m heap in
      sz \<noteq> 0 \<and> sz \<le> limit \<and> 6 \<le> ld32 m (get_sinit_mle_data_start m heap))"

definition total_fits :: "mem \<Rightarrow> u64 \<Rightarrow> u32 \<Rightarrow> bool" where
  "total_fits m limit heap \<longleftrightarrow>
     unat (get_bios_data_size m heap) + unat (get_os_mle_data_size m heap) + unat (get_os_sinit_data_size m heap) +
       unat (get_sinit_mle_data_size m heap) \<le> unat limit"

lemmas heap_reading = reading yields_tell_all_then yields_when_then yields_runT

lemma yields_runT_eq: "snd (f (i_mem s)) = b \<Longrightarrow> yields (like s) (runT f) (Ok b) (like s)"
  using yields_runT [of s f] by simp

lemma yields_verify_bios_data:
  assumes rv: "fixed_registers tx rv"
  shows "yields (like s) (verify_bios_data tx heap)
    (Ok (bios_accepted (i_mem s) (rv (0xfed30000 + TXTCR_HEAP_BASE)) (rv (0xfed30000 + TXTCR_HEAP_SIZE)) heap)) (like s)"
  unfolding verify_bios_data_def Let_def
  by (intro yields_reg_then [OF rv] reading yields_tell_all_then yields_when_then yields_runT_eq)
      (auto simp: bios_accepted_def Let_def bios_data_at_def get_bios_data_start_def verify_ext_data_elts_iff not_less not_le add.assoc
         diff_diff_eq)

lemma yields_verify_os_mle_data:
  assumes rv: "fixed_registers tx rv"
  shows "yields (like s) (verify_os_mle_data tx heap)
    (Ok (os_mle_accepted (i_mem s) (rv (0xfed20000 + TXTCR_HEAP_SIZE)) heap)) (like s)"
  unfolding verify_os_mle_data_def Let_def
  by (intro yields_reg_then [OF rv] reading yields_tell_all_then yields_when_then)
    (auto simp: os_mle_accepted_def sizeof_os_mle_data_t_def)

lemma yields_verify_sinit_mle_data:
  assumes rv: "fixed_registers tx rv"
  shows "yields (like s) (verify_sinit_mle_data tx heap)
    (Ok (sinit_mle_accepted (i_mem s) (rv (0xfed20000 + TXTCR_HEAP_SIZE)) heap)) (like s)"
  unfolding verify_sinit_mle_data_def Let_def
  by (intro yields_reg_then [OF rv] reading yields_tell_all_then yields_when_then)
    (auto simp: sinit_mle_accepted_def Let_def)

lemma version_cases: "4 \<le> (v :: u32) \<Longrightarrow> v \<le> 7 \<Longrightarrow> v = 4 \<or> v = 5 \<or> v = 6 \<or> v = 7"
  unfolding word_le_nat_alt word_unat_eq_iff by simp arith

lemma calc_os_sinit_data_size_eq:
  assumes "4 \<le> v" "v \<le> 7"
  shows "calc_os_sinit_data_size v = Some (if v = 4 then 92 else if v = 5 then 100 else 124)"
  using version_cases [OF assms] by (auto simp: calc_os_sinit_data_size_def Let_def)

lemma yields_verify_os_sinit_data:
  assumes rv: "fixed_registers tx rv"
  shows "yields (like s) (verify_os_sinit_data tx heap)
    (Ok (os_sinit_accepted (i_mem s) (rv (0xfed20000 + TXTCR_HEAP_SIZE)) heap)) (like s)"
proof -
  let ?m = "i_mem s" and ?l = "rv (0xfed20000 + TXTCR_HEAP_SIZE)"
  let ?sz = "get_os_sinit_data_size ?m heap" and ?a = "get_os_sinit_data_start ?m heap"
  have pr: "yields (like s) (bindE (print_os_sinit_data ?a) (\<lambda>_. returnE True)) (Ok b) (like s)"
    if "6 \<le> ld32 ?m ?a \<Longrightarrow> elt_chain ?m (?a + 92) n" "b" for b n
    unfolding print_os_sinit_data_def bindE_assoc using that
    by (intro yields_memE_then) (auto intro!: yields_bind [OF yields_print_ext_data_elts] yields_returnE)
  consider "?sz = 0 \<or> ?sz > ?l \<or> ld32 ?m ?a < 4 \<or> ld32 ?m ?a > 7" | "?sz \<noteq> 0" "?sz \<le> ?l" "4 \<le> ld32 ?m ?a" "ld32 ?m ?a \<le> 7"
    by fastforce
  then show ?thesis
  proof cases
    case 1
    then have "\<not> os_sinit_accepted ?m ?l heap" by (auto simp: os_sinit_accepted_def Let_def)
    with 1 show ?thesis unfolding verify_os_sinit_data_def Let_def
      by (intro yields_reg_then [OF rv] reading yields_tell_all_then yields_when_then) auto
  next
    case 2
    let ?chain = "6 \<le> ld32 ?m ?a \<longrightarrow> elt_chain ?m (?a + 92) (unat (ucast (?sz - 92 - 8) :: u32))"
    have mid: "yields (like s) (if 6 \<le> ld32 ?m ?a then runT (\<lambda>m. verify_ext_data_elts m (?a + 92) (ucast (?sz - 92 - 8)))
        else returnE True) (Ok ?chain) (like s)"
      by (intro yields_if yields_runT_eq yields_ret) (auto simp: verify_ext_data_elts_iff)
    have acc: "os_sinit_accepted ?m ?l heap \<longleftrightarrow>
        ?sz = (if ld32 ?m ?a = 4 then 92 else if ld32 ?m ?a = 5 then 100 else 124) \<and> ?chain"
      using 2 version_cases [OF 2(3,4)] unfolding os_sinit_accepted_def Let_def by (auto simp: word_le_nat_alt)
    show ?thesis unfolding verify_os_sinit_data_def Let_def
      apply (intro yields_reg_then [OF rv] yields_memE_then)
      unfolding calc_os_sinit_data_size_eq [OF 2(3,4)] option.case
      by (intro reading yields_tell_all_then yields_bind [OF mid] pr) (use 2 acc in auto)
  qed
qed

lemma yields_verify_txt_heap:
  assumes rv: "fixed_registers tx rv"
  shows "yields (like s) (verify_txt_heap tx heap bios_only)
    (Ok (bios_accepted (i_mem s) (rv (0xfed30000 + TXTCR_HEAP_BASE)) (rv (0xfed30000 + TXTCR_HEAP_SIZE)) heap \<and>
       (bios_only \<or> total_fits (i_mem s) (rv (0xfed20000 + TXTCR_HEAP_SIZE)) heap \<and>
         os_mle_accepted (i_mem s) (rv (0xfed20000 + TXTCR_HEAP_SIZE)) heap \<and>
         os_sinit_accepted (i_mem s) (rv (0xfed20000 + TXTCR_HEAP_SIZE)) heap \<and>
         sinit_mle_accepted (i_mem s) (rv (0xfed20000 + TXTCR_HEAP_SIZE)) heap))) (like s)"
proof -
  have sum: "\<not> (plus_overflow_u64 a b \<or> plus_overflow_u64 c d \<or> plus_overflow_u64 (a + b) (c + d)) \<and> \<not> a + b + c + d > l
      \<longleftrightarrow> unat a + unat b + unat c + unat d \<le> unat l" for a b c d l
  proof (cases "plus_overflow_u64 a b \<or> plus_overflow_u64 c d \<or> plus_overflow_u64 (a + b) (c + d)")
    case True
    then have "2 ^ 64 \<le> unat a + unat b + unat c + unat d"
      using unat_plus_u64 [of a b] unat_plus_u64 [of c d] by (cases "plus_overflow_u64 a b \<or> plus_overflow_u64 c d") (auto simp: plus_overflow_u64_iff)
    then show ?thesis using True unat_u64_less [of l] by simp
  next
    case False
    then have "unat (a + b + (c + d)) = unat a + unat b + (unat c + unat d)" by (simp add: unat_plus_u64)
    then show ?thesis using False by (simp add: word_less_nat_alt add.assoc not_less)
  qed
  show ?thesis unfolding verify_txt_heap_def Let_def
    by (intro yields_bind [OF yields_verify_bios_data [OF rv]] yields_bind [OF yields_verify_os_mle_data [OF rv]]
      yields_bind [OF yields_verify_os_sinit_data [OF rv]] yields_bind [OF yields_verify_sinit_mle_data [OF rv]]
      yields_reg_then(2) [OF rv] reading) (auto simp: total_fits_def sum [symmetric])
qed

section \<open>What the checks give\<close>

text \<open>A heap at 64 KB with the four tables one behind the other.\<close>

definition heap_mem :: mem where
  "heap_mem = st32 0x10000 44 (st32 0x10008 2 (st32 0x10020 1
     (st32 0x1002c 0x15120 (st32 0x10034 3
     (st32 0x2514c 92 (st32 0x25154 4
     (st32 0x251a8 16 (st32 0x251b0 6 (\<lambda>_. 0)))))))))"

definition heap_regs :: "u32 \<Rightarrow> u64" where
  "heap_regs a = (if a = 0xfed30300 then 0x10000 else 0x20000)"

lemma ld32_zeros [simp]: "ld32 (\<lambda>_. 0) a = 0"
  by (simp add: ld32_def bytes_at_4 of_le32_def)

lemma heap_mem_sizes:
  "get_bios_data_size heap_mem 0x10000 = 44" "get_os_mle_data_size heap_mem 0x10000 = 0x15120"
  "get_os_sinit_data_size heap_mem 0x10000 = 92" "get_sinit_mle_data_size heap_mem 0x10000 = 16"
proof -
  show 1: "get_bios_data_size heap_mem 0x10000 = 44"
    by (simp add: get_bios_data_size_def ld64_def heap_mem_def ld_st combine64b_def)
  show 2: "get_os_mle_data_size heap_mem 0x10000 = 0x15120"
    unfolding get_os_mle_data_size_def 1 by (simp add: ld64_def heap_mem_def ld_st combine64b_def)
  show 3: "get_os_sinit_data_size heap_mem 0x10000 = 92"
    unfolding get_os_sinit_data_size_def 1 2 by (simp add: ld64_def heap_mem_def ld_st combine64b_def)
  show 4: "get_sinit_mle_data_size heap_mem 0x10000 = 16"
    unfolding get_sinit_mle_data_size_def 1 2 3 by (simp add: ld64_def heap_mem_def ld_st combine64b_def)
qed

lemma heap_mem_accepted:
  "bios_accepted heap_mem 0x10000 0x20000 0x10000" "total_fits heap_mem 0x20000 0x10000"
  "os_mle_accepted heap_mem 0x20000 0x10000" "os_sinit_accepted heap_mem 0x20000 0x10000"
  "sinit_mle_accepted heap_mem 0x20000 0x10000"
  unfolding bios_accepted_def total_fits_def os_mle_accepted_def os_sinit_accepted_def sinit_mle_accepted_def Let_def
    get_os_mle_data_start_def get_os_sinit_data_start_def get_sinit_mle_data_start_def heap_mem_sizes
  by (simp_all add: heap_mem_def ld_st sizeof_os_mle_data_t_def)

lemma ucast_small: "unat (v :: u64) < 2 ^ 32 \<Longrightarrow> unat (ucast v :: u32) = unat v"
  by (simp add: unsigned_ucast_eq take_bit_nat_eq_self unsigned_take_bit_eq)

lemma u32_offset: "unat (a :: u32) + unat b < 2 ^ 32 \<Longrightarrow> unat (a + b) = unat a + unat b"
  by (simp add: unat_word_ariths)

text \<open>
  C9: when the check of the whole heap succeeds and the heap lies below 4 GB, the pointers the other
  code uses are right: the tables follow each other in the order firmware, loader to loader, loader to
  SINIT, SINIT to loader, each behind its 8-byte size, none wraps around, and the last one ends inside
  the heap. The loader's own table has exactly the size of its structure.
\<close>

theorem verify_txt_heap_layout:
  assumes "fixed_registers tx rv" "intel_ok s" "verify_txt_heap tx heap False s = (Ok True, s')"
    and "unat heap + unat (rv (0xfed20000 + TXTCR_HEAP_SIZE)) + 8 < 2 ^ 32"
  defines "m \<equiv> i_mem s"
  defines "b \<equiv> unat (get_bios_data_size m heap)" and "o' \<equiv> unat (get_os_mle_data_size m heap)"
    and "i \<equiv> unat (get_os_sinit_data_size m heap)" and "l \<equiv> unat (get_sinit_mle_data_size m heap)"
  shows "unat (get_os_mle_data_start m heap) = unat heap + b + 8 \<and>
    unat (get_os_sinit_data_start m heap) = unat heap + b + o' + 8 \<and>
    unat (get_sinit_mle_data_start m heap) = unat heap + b + o' + i + 8 \<and>
    unat heap + b + o' + i + l \<le> unat heap + unat (rv (0xfed20000 + TXTCR_HEAP_SIZE)) \<and>
    0 < b \<and> o' = 86304 \<and> 92 \<le> i \<and> 0 < l"
proof -
  have acc: "bios_accepted m (rv (0xfed30000 + TXTCR_HEAP_BASE)) (rv (0xfed30000 + TXTCR_HEAP_SIZE)) heap"
    "total_fits m (rv (0xfed20000 + TXTCR_HEAP_SIZE)) heap" "os_mle_accepted m (rv (0xfed20000 + TXTCR_HEAP_SIZE)) heap"
    "os_sinit_accepted m (rv (0xfed20000 + TXTCR_HEAP_SIZE)) heap" "sinit_mle_accepted m (rv (0xfed20000 + TXTCR_HEAP_SIZE)) heap"
    using yieldsD [OF yields_verify_txt_heap [OF assms(1), where heap = heap and bios_only = False] like_refl [OF assms(2)]]
      assms(3) by (auto simp: m_def)
  have fit: "b + o' + i + l \<le> unat (rv (0xfed20000 + TXTCR_HEAP_SIZE))"
    using acc(2) by (simp add: total_fits_def b_def o'_def i_def l_def)
  have pos: "0 < b" "0 < l" using acc(1,5)
    by (simp_all add: bios_accepted_def sinit_mle_accepted_def Let_def b_def l_def unat_gt_0)
  have o': "o' = 86304" using acc(3) by (simp add: os_mle_accepted_def o'_def sizeof_os_mle_data_t_def)
  have i: "92 \<le> i" using acc(4) by (auto simp: os_sinit_accepted_def Let_def i_def)
  have c: "unat (ucast (get_bios_data_size m heap) :: u32) = b" "unat (ucast (get_os_mle_data_size m heap) :: u32) = o'"
    "unat (ucast (get_os_sinit_data_size m heap) :: u32) = i"
    using fit assms(4) by (simp_all add: b_def o'_def i_def ucast_small)
  have 1: "unat (heap + ucast (get_bios_data_size m heap)) = unat heap + b"
    using fit assms(4) by (subst u32_offset) (simp_all add: c)
  have 2: "unat (heap + ucast (get_bios_data_size m heap) + ucast (get_os_mle_data_size m heap)) = unat heap + b + o'"
    using fit assms(4) by (subst u32_offset) (simp_all add: c 1)
  have 3: "unat (heap + ucast (get_bios_data_size m heap) + ucast (get_os_mle_data_size m heap) +
      ucast (get_os_sinit_data_size m heap)) = unat heap + b + o' + i"
    using fit assms(4) by (subst u32_offset) (simp_all add: c 2)
  have "unat (get_os_mle_data_start m heap) = unat heap + b + 8" "unat (get_os_sinit_data_start m heap) = unat heap + b + o' + 8"
    unfolding get_os_mle_data_start_def get_os_sinit_data_start_def
    using fit assms(4) o' i pos by (subst u32_offset; simp add: 1 2)+
  moreover have "unat (get_sinit_mle_data_start m heap) = unat heap + b + o' + i + 8"
    unfolding get_sinit_mle_data_start_def using fit assms(4) o' i pos by (subst u32_offset) (simp_all add: 3)
  ultimately show ?thesis using fit pos o' i by simp
qed

theorem verify_txt_heap_layout_witness:
  "unat (get_sinit_mle_data_start heap_mem 0x10000) = 0x10000 + 44 + 86304 + 92 + 8"
proof -
  obtain s' where "verify_txt_heap (sim_txt heap_regs) 0x10000 False (sim_intel heap_mem (0 :: nat)) = (Ok True, s')"
    using yieldsD [OF yields_verify_txt_heap [OF sim_txt_fixed [of heap_regs], where heap = "0x10000" and bios_only = False]
        like_refl [OF sim_intel_parts(1) [of heap_mem "0 :: nat"]]]
    by (auto simp: heap_regs_def TXTCR_HEAP_BASE_def TXTCR_HEAP_SIZE_def heap_mem_accepted)
  from verify_txt_heap_layout [OF sim_txt_fixed sim_intel_parts(1) this] show ?thesis
    by (simp add: heap_regs_def TXTCR_HEAP_SIZE_def heap_mem_sizes)
qed

text \<open>
  The size check of an ACM element multiplies the number of addresses by 8 in 32 bits. An element
  of 12 bytes that claims 2^29 addresses has the expected size, and is accepted when no address in the
  following 4 GB of memory is refused, although none of them belongs to the element.
\<close>

lemma verify_acm_elt_wraps:
  assumes "elt_size m elt = 12" "ld32 m (elt + 8) = 0x20000000"
  shows "verify_acm_elt m elt = verify_acm_addrs m elt 0x20000000 0"
  using assms by (simp add: verify_acm_elt_def saying_def)

end
