(* ===== verification/ACM.thy ===== *)
theory ACM
  imports TXT_Heap
begin

text \<open>
  The authenticated code module (\<^verbatim>\<open>src/arch-intel/sinit_acm.c\<close>, with \<open>get_parameters\<close> of
  \<^verbatim>\<open>src/arch-intel/txt.c\<close>): finding the SINIT module among the boot modules or in the region of the
  firmware, checking that it is one, that it fits the platform and that it can be launched. A module is
  a region of the physical memory; an address 0 is \<open>NULL\<close>.
\<close>

section \<open>Structures\<close>

text \<open>The addresses of the members.\<close>

record acm_hdr_t =
  acm_module_type :: u32
  acm_header_len :: u32
  acm_flags :: u32
  acm_module_vendor :: u32
  acm_date :: u32
  acm_size :: u32
  acm_gdt_limit :: u32
  acm_seg_sel :: u32
  acm_entry_point :: u32
  acm_scratch_size :: u32

definition acm_hdr_at :: "u32 \<Rightarrow> acm_hdr_t" where
  "acm_hdr_at a = \<lparr>acm_module_type = a, acm_header_len = a + 4, acm_flags = a + 14, acm_module_vendor = a + 16,
     acm_date = a + 20, acm_size = a + 24, acm_gdt_limit = a + 40, acm_seg_sel = a + 48, acm_entry_point = a + 52,
     acm_scratch_size = a + 124\<rparr>"

record acm_info_table_t =
  it_uuid :: u32
  it_chipset_acm_type :: u32
  it_version :: u32
  it_chipset_id_list :: u32
  it_os_sinit_data_ver :: u32
  it_min_mle_hdr_ver :: u32
  it_capabilities :: u32
  it_processor_id_list :: u32

definition info_table_at :: "u32 \<Rightarrow> acm_info_table_t" where
  "info_table_at a = \<lparr>it_uuid = a, it_chipset_acm_type = a + 16, it_version = a + 17, it_chipset_id_list = a + 20,
     it_os_sinit_data_ver = a + 24, it_min_mle_hdr_ver = a + 28, it_capabilities = a + 32, it_processor_id_list = a + 40\<rparr>"

abbreviation nl :: string where "nl \<equiv> [CHR 0x0A]"

abbreviation acm_words :: "mem \<Rightarrow> u32 \<Rightarrow> u32" where
  "acm_words m hdr \<equiv> ld32 m (acm_size (acm_hdr_at hdr))"

definition ACM_UUID_V3 :: bytes where
  "ACM_UUID_V3 = le32 0x7fc03aaa @ le16 0x46a7 @ le16 0x18db @ le16 0xac2e @ [0x69, 0x8f, 0x8d, 0x41, 0x7f, 0x5a]"

section \<open>Is it a module\<close>

definition get_acmod_info_table :: "mem \<Rightarrow> u32 \<Rightarrow> u32 told" where
  "get_acmod_info_table m hdr =
     (let header_len = ld32 m (acm_header_len (acm_hdr_at hdr)); scratch_size = ld32 m (acm_scratch_size (acm_hdr_at hdr));
          user_area_off = (header_len + scratch_size) * 4 in
      if plus_overflow_u32 header_len scratch_size
      then ([Text (''ACM header length plus scratch size overflows'' @ nl)], 0)
      else if multiply_overflow_u32 (header_len + scratch_size) 4
      then ([Text (''ACM header length and scratch size in bytes overflows'' @ nl)], 0)
      else if plus_overflow_u32 user_area_off 48
      then ([Text (''user_area_off plus acm_info_table_t size overflows'' @ nl)], 0)
      else if user_area_off + 48 > acm_words m hdr * 4
      then ([Num ''ACM info table size too large:'' (user_area_off + 48)], 0)
      else if plus_overflow_u32 hdr user_area_off
      then ([Text (''hdr plus user_area_off overflows'' @ nl)], 0)
      else ([], hdr + user_area_off))"

text \<open>\<open>Some\<close> the type that \<open>*type\<close> holds when the module is accepted.\<close>

definition is_acmod :: "mem \<Rightarrow> u32 \<Rightarrow> u32 \<Rightarrow> u8 option told" where
  "is_acmod m acmod_base acmod_size =
     (if acmod_size < 1216 then ([], None)
      else if multiply_overflow_u32 (acm_words m acmod_base) 4 then ([], None)
      else if acmod_size \<noteq> acm_words m acmod_base * 4 then ([], None)
      else if ld16 m (acm_module_type (acm_hdr_at acmod_base)) \<noteq> 2 \<or>
              ld32 m (acm_module_vendor (acm_hdr_at acmod_base)) \<noteq> 0x8086 then ([], None)
      else case get_acmod_info_table m acmod_base of (ts, table) \<Rightarrow>
        saying ts
          (let version = m (it_version (info_table_at table)) in
           if table = 0 then ([], None)
           else if bytes_at m (it_uuid (info_table_at table)) 16 \<noteq> ACM_UUID_V3 then ([Info ''unknown UUID: ''], None)
           else if version < 3 then ([Num ''info_table version unsupported'' (ucast version)], None)
           else (if version > 5 then [Num ''ACM info_table version mismatch'' (ucast version)] else [],
                 Some (m (it_chipset_acm_type (info_table_at table))))))"

definition is_sinit_acmod :: "mem \<Rightarrow> u32 \<Rightarrow> u32 \<Rightarrow> bool told" where
  "is_sinit_acmod m acmod_base acmod_size =
     (case is_acmod m acmod_base acmod_size of
        (ts, None) \<Rightarrow> (ts, False)
      | (ts, Some type) \<Rightarrow>
          if type \<noteq> 1 then (ts @ [Num ''ACM is not an SINIT ACM :'' (ucast type)], False) else (ts, True))"

definition get_module_mb1 :: "mem \<Rightarrow> u32 \<Rightarrow> u32 \<Rightarrow> u32 told" where
  "get_module_mb1 m mb i =
     (if mb = 0 then ([Text (''Error: mbi pointer is zero.'' @ nl)], 0)
      else if i \<ge> ld32 m (mbi_mods_count (mbi_at mb)) then ([Text (''invalid module #'' @ nl)], 0)
      else ([], ld32 m (mbi_mods_addr (mbi_at mb)) + i * 16))"

section \<open>Does it match the platform\<close>

text \<open>
  \<open>get_acmod_chipset_list\<close> and \<open>get_acmod_processor_list\<close> are the same checks for different entries:
  \<open>off\<close> is the offset of the list in the module, \<open>esz\<close> the size of an entry, the messages come in the
  order of the checks.
\<close>

definition acmod_list :: "mem \<Rightarrow> u32 \<Rightarrow> u32 \<Rightarrow> u32 \<Rightarrow> msg \<Rightarrow> msg \<Rightarrow> msg \<Rightarrow> msg \<Rightarrow> msg \<Rightarrow> (u32 \<Rightarrow> msg) \<Rightarrow> u32 told" where
  "acmod_list m hdr off esz t1 t2 t3 t4 t5 t6 =
     (let sz = acm_words m hdr * 4; list = hdr + off; count = ld32 m list in
      if plus_overflow_u32 off esz then ([t1], 0)
      else if off + esz > sz then ([t2], 0)
      else if plus_overflow_u32 hdr off then ([t3], 0)
      else if multiply_overflow_u32 count esz then ([t4], 0)
      else if plus_overflow_u32 (off + esz) (count * esz) then ([t5], 0)
      else if off + esz + count * esz > sz then ([t6 count], 0)
      else ([], list))"

definition get_acmod_chipset_list :: "mem \<Rightarrow> u32 \<Rightarrow> u32 told" where
  "get_acmod_chipset_list m hdr =
     (case get_acmod_info_table m hdr of (ts, table) \<Rightarrow>
        saying ts
          (let off = ld32 m (it_chipset_id_list (info_table_at table)) in
           if table = 0 then ([], 0)
           else acmod_list m hdr off 16
             (Info (''id_list_off plus acm_chipset_id_t size overflows'' @ nl))
             (Num ''ACM chipset id list is too big: chipset_id_list'' off)
             (Info ''hdr plus id_list_off overflows'')
             (Info ''size of acm_chipset_id_list overflows'')
             (Info ''size of all entries overflows'')
             (Num ''ACM chipset id entries are too big: chipset_id_list->count'')))"

definition get_acmod_processor_list :: "mem \<Rightarrow> u32 \<Rightarrow> u32 told" where
  "get_acmod_processor_list m hdr =
     (case get_acmod_info_table m hdr of (ts, table) \<Rightarrow>
        saying ts
          (let off = ld32 m (it_processor_id_list (info_table_at table)) in
           if table = 0 then ([], 0)
           else acmod_list m hdr off 24
             (Info ''id_list_off plus acm_processor_id_t size overflows'')
             (Num ''ACM processor id list is too big: processor_id_list'' off)
             (Info ''hdr plus id_list_off overflows'')
             (Info ''size of acm_processor_id_list overflows'')
             (Info ''size of all entries overflows'')
             (Num ''ACM processor id entries are too big: proc_id_list->count'')))"

text \<open>The registers of the platform: vendor, device and revision, fusing, family, platform.\<close>

definition chipset_matches :: "mem \<Rightarrow> u32 \<Rightarrow> u64 \<Rightarrow> bool" where
  "chipset_matches m e didvid \<longleftrightarrow>
     (let flags = ld32 m e; vendor = ld16 m (e + 4); device = ld16 m (e + 6); revision = ld16 m (e + 8);
          did_revision = ucast (drop_bit 32 didvid) in
      ucast didvid = vendor \<and> ucast (drop_bit 16 didvid) = device \<and>
      (flags AND 1 = 0 \<and> did_revision = revision \<or> flags AND 1 = 1 \<and> did_revision AND revision \<noteq> 0))"

definition processor_matches :: "mem \<Rightarrow> u32 \<Rightarrow> u32 \<Rightarrow> u64 \<Rightarrow> bool" where
  "processor_matches m e fms platform_id \<longleftrightarrow>
     ld32 m e = fms AND ld32 m (e + 4) \<and> ld64 m (e + 8) = platform_id AND ld64 m (e + 16)"

text \<open>The loops over the entries: whether the loop stops before \<open>count\<close>.\<close>

function search_list :: "(u32 \<Rightarrow> bool) \<Rightarrow> u32 \<Rightarrow> u32 \<Rightarrow> u32 \<Rightarrow> u32 \<Rightarrow> bool" where
  "search_list matches ents esz count i =
     (if i < count then if matches (ents + i * esz) then True else search_list matches ents esz count (i + 1) else False)"
  by pat_completeness auto
termination
  by (relation "measure (\<lambda>(_, _, _, count, i). unat count - unat i)") (auto simp: u32_next word_less_nat_alt)

declare search_list.simps [simp del]

definition does_acmod_match_platform :: "'d hw \<Rightarrow> 'd txt_hw \<Rightarrow> u32 \<Rightarrow> ('d intel, bool) exec" where
  "does_acmod_match_platform hw tx hdr =
     bindE (read_pub_config_reg tx TXTCR_DIDVID) (\<lambda>didvid.
     bindE (read_pub_config_reg tx TXTCR_VER_FSBIF) (\<lambda>ver.
     bindE (if ver AND 0xffffffff = 0xffffffff \<or> ver AND 0xffffffff = 0 then read_pub_config_reg tx TXTCR_VER_QPIIF
            else returnE ver) (\<lambda>ver.
     let fms = hw_cpuid_eax hw 1 in
     bindE (read_msr hw 0x17) (\<lambda>platform_id.
     bindE memE (\<lambda>m.
     if bit ver 31 \<noteq> (\<not> bit (ld16 m (acm_flags (acm_hdr_at hdr))) 15)
     then bindE (tell (Info ''production/debug mismatch between chipset and ACM'')) (\<lambda>_. returnE False)
     else bindE (runT (\<lambda>m. get_acmod_chipset_list m hdr)) (\<lambda>chipset_id_list.
     if chipset_id_list = 0 then bindE (tell (Info ''Chipset ID is NULL'')) (\<lambda>_. returnE False)
     else if \<not> search_list (\<lambda>e. chipset_matches m e didvid) (chipset_id_list + 4) 16 (ld32 m chipset_id_list) 0
     then bindE (tell (Info ''ERROR: chipset id mismatch'')) (\<lambda>_. returnE False)
     else bindE (runT (\<lambda>m. get_acmod_info_table m hdr)) (\<lambda>info_table.
     if info_table = 0 then bindE (tell (Info ''info_table is NULL'')) (\<lambda>_. returnE False)
     else if m (it_version (info_table_at info_table)) \<ge> 4
     then bindE (runT (\<lambda>m. get_acmod_processor_list m hdr)) (\<lambda>proc_id_list.
       if proc_id_list = 0 then returnE False
       else if \<not> search_list (\<lambda>e. processor_matches m e fms platform_id) (proc_id_list + 4) 24 (ld32 m proc_id_list) 0
       then bindE (tell (Info ''ERROR : processor mismatch'')) (\<lambda>_. returnE False)
       else returnE True)
     else returnE True)))))))"

section \<open>Which module is launched\<close>

definition get_bios_sinit :: "'d hw \<Rightarrow> 'd txt_hw \<Rightarrow> u32 \<Rightarrow> ('d intel, u32) exec" where
  "get_bios_sinit hw tx sinit_region_base =
     (if sinit_region_base = 0 then returnE 0
      else bindE (get_txt_heap tx) (\<lambda>txt_heap.
      bindE memE (\<lambda>m.
      let bios_sinit_size = ld32 m (bd_bios_sinit_size (bios_data_at (get_bios_data_start txt_heap))) in
      if bios_sinit_size = 0 then returnE 0
      else bindE (tell (Info ''BIOS has already loaded an SINIT module'')) (\<lambda>_.
      bindE (runT (\<lambda>m. is_sinit_acmod m sinit_region_base bios_sinit_size)) (\<lambda>b.
      if \<not> b then returnE 0
      else bindE (does_acmod_match_platform hw tx sinit_region_base) (\<lambda>b.
      if \<not> b then returnE 0 else returnE sinit_region_base))))))"

definition copy_sinit :: "'d hw \<Rightarrow> 'd txt_hw \<Rightarrow> u32 \<Rightarrow> ('d intel, u32) exec" where
  "copy_sinit hw tx sinit =
     bindE (read_pub_config_reg tx TXTCR_SINIT_BASE) (\<lambda>base.
     bindE (read_pub_config_reg tx TXTCR_SINIT_SIZE) (\<lambda>region_size.
     let sinit_region_base = ucast base; sinit_region_size = ucast region_size in
     bindE (get_bios_sinit hw tx sinit_region_base) (\<lambda>bios_sinit.
     bindE memE (\<lambda>m.
     let date = ld32 m (acm_date (acm_hdr_at bios_sinit)) in
     if bios_sinit \<noteq> 0 \<and> sinit = 0
     then bindE (tell (Info ''no SINIT provided by bootloader; using BIOS SINIT'')) (\<lambda>_. returnE bios_sinit)
     else if bios_sinit \<noteq> 0 \<and> date \<ge> ld32 m (acm_date (acm_hdr_at sinit))
     then bindE (tell (Info ''BIOS-provided SINIT is newer, so using it'')) (\<lambda>_. returnE bios_sinit)
     else bindE (if bios_sinit \<noteq> 0 then tell (Num ''BIOS-provided SINIT is older: date'' date) else returnE ()) (\<lambda>_.
       if sinit = 0 then returnE 0
       else if multiply_overflow_u32 (acm_words m sinit) 4
       then bindE (tell (Info (''sinit size in bytes overflows'' @ nl))) (\<lambda>_. returnE 0)
       else if acm_words m sinit * 4 > sinit_region_size
       then bindE (tell (Info ''BIOS-reserved SINIT size is too small for loaded SINIT module'')) (\<lambda>_. returnE 0)
       else if sinit_region_base = 0 then returnE 0
       else bindE (setmemE (memcpy_intel sinit_region_base sinit (acm_words m sinit * 4))) (\<lambda>_.
         returnE sinit_region_base))))))"

section \<open>Can it be launched\<close>

text \<open>The answers of \<open>getsec[parameters]\<close>; \<open>acm_versions\<close> holds the pairs of mask and version.\<close>

record getsec_parameters_t =
  acm_versions :: "(u32 \<times> u32) list"
  acm_max_size :: u32
  acm_mem_types :: u32
  senter_controls :: u32
  proc_based_scrtm :: bool
  preserve_mce :: bool

definition add_parameter :: "u32 \<times> u32 \<times> u32 \<Rightarrow> getsec_parameters_t \<Rightarrow> getsec_parameters_t told" where
  "add_parameter r params =
     (case r of (eax, ebx, ecx) \<Rightarrow>
      let param_type = eax AND 0x1f in
      if param_type = 0 then ([], params)
      else if param_type = 1
      then if length (acm_versions params) = 16
           then ([Info ''number of supported ACM version exceeds MAX_SUPPORTED_ACM_VERSIONS''], params)
           else ([], params\<lparr>acm_versions := acm_versions params @ [(ebx, ecx)]\<rparr>)
      else if param_type = 2 then ([], params\<lparr>acm_max_size := eax AND 0xffffffe0\<rparr>)
      else if param_type = 3 then ([], params\<lparr>acm_mem_types := eax AND 0xffffffe0\<rparr>)
      else if param_type = 4 then ([], params\<lparr>senter_controls := drop_bit 8 (eax AND 0x7fff)\<rparr>)
      else if param_type = 5
      then ([], params\<lparr>proc_based_scrtm := (eax AND 0x20 \<noteq> 0), preserve_mce := (eax AND 0x40 \<noteq> 0)\<rparr>)
      else ([Num ''unknown GETSEC[PARAMETERS] type'' param_type], params))"

text \<open>The loop ends at an answer of type 0 or of an unknown type.\<close>

partial_function (option) parameters_loop ::
    "'d txt_hw \<Rightarrow> u32 \<Rightarrow> msg list \<Rightarrow> getsec_parameters_t \<Rightarrow> 'd \<Rightarrow> (msg list \<times> getsec_parameters_t \<times> 'd) option" where
  "parameters_loop tx index ts params d =
     (case tx_getsec_parameters tx index d of (r, d) \<Rightarrow>
      case add_parameter r params of (ts', params) \<Rightarrow>
        if fst r AND 0x1f = 0 \<or> fst r AND 0x1f > 5 then Some (ts @ ts', params, d)
        else parameters_loop tx (index + 1) (ts @ ts') params d)"

definition get_parameters :: "'d txt_hw \<Rightarrow> ('d intel, getsec_parameters_t option) exec" where
  "get_parameters tx =
     bindE (read_cr4 tx) (\<lambda>cr4.
     bindE (write_cr4 tx (cr4 OR 0x4000)) (\<lambda>_.
     bindE (read_cr4 tx) (\<lambda>cr4.
     if cr4 AND 0x4000 = 0
     then bindE (tell (Info ''SMXE not enabled, can't read parameters'')) (\<lambda>_. returnE None)
     else bindE (\<lambda>s. case parameters_loop tx 0 []
                   \<lparr>acm_versions = [], acm_max_size = 0x8000, acm_mem_types = 0x0100, senter_controls = 0,
                    proc_based_scrtm = False, preserve_mce = False\<rparr> (w_dev (i_world s)) of
              None \<Rightarrow> (Stop Hang, s)
            | Some (ts, params, d) \<Rightarrow> (Ok (ts, params), s\<lparr>i_world := (i_world s)\<lparr>w_dev := d\<rparr>\<rparr>)) (\<lambda>(ts, params).
       bindE (tell_all ts) (\<lambda>_.
       returnE (Some (if acm_versions params = [] then params\<lparr>acm_versions := [(0xffffffff, 0)]\<rparr> else params)))))))"

definition verify_acmod :: "'d txt_hw \<Rightarrow> u32 \<Rightarrow> ('d intel, bool) exec" where
  "verify_acmod tx acm_hdr =
     bindE memE (\<lambda>m.
     let sz = acm_words m acm_hdr * 4; entry_point = ld32 m (acm_entry_point (acm_hdr_at acm_hdr));
         seg_sel = ld32 m (acm_seg_sel (acm_hdr_at acm_hdr)); gdt_limit = ld32 m (acm_gdt_limit (acm_hdr_at acm_hdr)) in
     if acm_hdr AND 0xfff \<noteq> 0
     then bindE (tell (Num ''AC mod base not 4K aligned'' acm_hdr)) (\<lambda>_. returnE False)
     else if sz = 0 \<or> sz mod 64 \<noteq> 0
     then bindE (tell (Num ''AC MOD size is not multiple of 64'' sz)) (\<lambda>_. returnE False)
     else bindE (get_parameters tx) (\<lambda>p. case p of
       None \<Rightarrow> bindE (tell (Info ''get_parameters() failed'')) (\<lambda>_. returnE False)
     | Some params \<Rightarrow>
       if sz > acm_max_size params
       then bindE (tell_all [Num ''AC mod size too large:'' sz, Num ''max size'' (acm_max_size params)]) (\<lambda>_. returnE False)
       else if entry_point \<ge> sz
       then bindE (tell_all [Num ''AC mod entry '' entry_point, Num '' >= AC mod size'' sz]) (\<lambda>_. returnE False)
       else if plus_overflow_u32 seg_sel 8 then bindE (tell (Info ''seg_sel plus 8 overflows'')) (\<lambda>_. returnE False)
       else if seg_sel = 0 \<or> seg_sel AND 7 \<noteq> 0 \<or> seg_sel + 8 > gdt_limit
       then bindE (tell (Num ''AC mod selectorbogus'' seg_sel)) (\<lambda>_. returnE False)
       else bindE (runT (\<lambda>m. get_acmod_info_table m acm_hdr)) (\<lambda>table.
         let min_ver = ld32 m (it_min_mle_hdr_ver (info_table_at table)); caps = ld32 m (it_capabilities (info_table_at table));
             data_ver = ld32 m (it_os_sinit_data_ver (info_table_at table)) in
         if table = 0 then bindE (tell (Info ''info table NULL'')) (\<lambda>_. returnE False)
         else if min_ver > 0x20001
         then bindE (tell (Num ''AC mod requires a newer MLE'' min_ver)) (\<lambda>_. returnE False)
         else if (0x227 AND 3) AND (caps AND 3) = 0
         then bindE (tell (Info ''SINIT and MLE not support compatible RLP wake mechanisms'')) (\<lambda>_. returnE False)
         else bindE (if caps AND 4 = 0 then tell (Info ''SINIT does not support launch with MLE pagetable in ECX'')
                     else returnE ()) (\<lambda>_.
           if data_ver < 4
           then bindE (tell (Num ''SINIT's os_sinit_data version unsupported'' data_ver)) (\<lambda>_. returnE False)
           else bindE (if data_ver > 7 then tell (Num ''WORNING: SINIT's os_sinit_data version unsupported'' data_ver)
                       else returnE ()) (\<lambda>_. returnE True)))))"

text \<open>
  The loop over the modules from the last down to number 1: it returns \<open>base2\<close> as it is at the end. A
  module number out of range gives \<open>NULL\<close>, whose members are read like any other.
\<close>

primrec sinit_search :: "'d hw \<Rightarrow> 'd txt_hw \<Rightarrow> u32 \<Rightarrow> nat \<Rightarrow> u32 \<Rightarrow> ('d intel, u32) exec" where
  "sinit_search hw tx mb 0 base2 = returnE base2"
| "sinit_search hw tx mb (Suc n) base2 =
     bindE (runT (\<lambda>m. get_module_mb1 m mb (of_nat (Suc n)))) (\<lambda>md.
     bindE memE (\<lambda>m.
     let base2 = ld32 m (mod_start (module_at md)); size2 = ld32 m (mod_end (module_at md)) - base2 in
     bindE (runT (\<lambda>m. is_sinit_acmod m base2 size2)) (\<lambda>b.
     if b then bindE (does_acmod_match_platform hw tx base2) (\<lambda>b.
            if b then returnE base2 else sinit_search hw tx mb n base2)
     else sinit_search hw tx mb n base2)))"

definition prepare_sinit_acm :: "'d hw \<Rightarrow> 'd txt_hw \<Rightarrow> u32 \<Rightarrow> ('d intel, bool) exec" where
  "prepare_sinit_acm hw tx mb =
     bindE (getE g_sinit) (\<lambda>g.
     if g \<noteq> 0
     then bindE (tell (Info ''ATTENTION : g_sinit is already intialized ..skipping SINIT operation'')) (\<lambda>_. returnE True)
     else bindE memE (\<lambda>m.
     bindE (sinit_search hw tx mb (unat (ld32 m (mbi_mods_count (mbi_at mb)) - 1)) 0) (\<lambda>base2.
     bindE (copy_sinit hw tx base2) (\<lambda>g.
     bindE (modifyE (\<lambda>s. s\<lparr>g_sinit := g\<rparr>)) (\<lambda>_.
     if g = 0 then bindE (tell (Info ''ERROR : No SINIT ACM found'')) (\<lambda>_. returnE False)
     else verify_acmod tx g)))))"

definition determine_loader_type_context :: "u32 \<Rightarrow> ('d intel, unit) exec" where
  "determine_loader_type_context addr =
     bindE (getE g_ldr_ctx) (\<lambda>ctx.
     if lc_addr ctx = 0
     then bindE (modifyE (\<lambda>s. s\<lparr>g_ldr_ctx := \<lparr>lc_addr = addr, lc_type = 1\<rparr>\<rparr>)) (\<lambda>_.
          bindE (setmemE (\<lambda>m. if ld32 m addr AND 0x10 \<noteq> 0 then st32 addr (ld32 m addr AND NOT 0x10) m else m)) (\<lambda>_.
          setmemE (\<lambda>m. if ld32 m addr AND 0x20 \<noteq> 0 then st32 addr (ld32 m addr AND NOT 0x20) m else m)))
     else returnE ())"

definition get_supported_os_sinit_data_ver :: "u32 \<Rightarrow> ('d intel, u32) exec" where
  "get_supported_os_sinit_data_ver hdr =
     bindE (runT (\<lambda>m. get_acmod_info_table m hdr)) (\<lambda>table.
     if table = 0 then returnE 0 else bindE memE (\<lambda>m. returnE (ld32 m (it_os_sinit_data_ver (info_table_at table)))))"

definition get_sinit_capabilities :: "u32 \<Rightarrow> ('d intel, u32) exec" where
  "get_sinit_capabilities hdr =
     bindE (runT (\<lambda>m. get_acmod_info_table m hdr)) (\<lambda>table.
     bindE memE (\<lambda>m.
     if table = 0 \<or> m (it_version (info_table_at table)) < 3 then returnE 0
     else returnE (ld32 m (it_capabilities (info_table_at table)))))"

end
