(* ===== verification/Loader.thy ===== *)
theory Loader
  imports ACM
begin

text \<open>
  The view of the Intel launch on what the boot loader left (\<^verbatim>\<open>src/arch-intel/loader.c\<close>, and
  \<open>copy_e820_map\<close> of \<^verbatim>\<open>src/arch-intel/e820.c\<close>): the module list, command line and memory map of a
  multiboot 1 structure or of the tags of multiboot 2, in the physical memory. A context is \<open>None\<close>
  where the code has a \<open>NULL\<close> pointer, other pointers are addresses. Walking the tags may not end.
\<close>

section \<open>Structures\<close>

abbreviation (input) MB1_ONLY :: u32 where "MB1_ONLY \<equiv> 1"
abbreviation (input) MB2_ONLY :: u32 where "MB2_ONLY \<equiv> 2"

definition LOADER_CTX_BAD :: "loader_ctx option \<Rightarrow> bool" where
  "LOADER_CTX_BAD lctx = (case lctx of None \<Rightarrow> True | Some c \<Rightarrow> lc_addr c = 0 \<or> lc_type c \<noteq> 1 \<and> lc_type c \<noteq> 2)"

text \<open>The addresses of the members of \<open>multiboot_info_t\<close>.\<close>

record multiboot_info_t =
  mb_flags :: u32
  mb_mem_lower :: u32
  mb_mem_upper :: u32
  mb_cmdline :: u32
  mb_mods_count :: u32
  mb_mods_addr :: u32
  mb_syms :: u32
  mb_mmap_length :: u32
  mb_mmap_addr :: u32
  mb_drives_length :: u32
  mb_drives_addr :: u32
  mb_boot_loader_name :: u32
  mb_apm_table :: u32
  mb_vbe_control_info :: u32
  mb_vbe_mode_info :: u32

definition mb1_at :: "u32 \<Rightarrow> multiboot_info_t" where
  "mb1_at a = \<lparr>mb_flags = a, mb_mem_lower = a + 4, mb_mem_upper = a + 8, mb_cmdline = a + 16, mb_mods_count = a + 20,
     mb_mods_addr = a + 24, mb_syms = a + 28, mb_mmap_length = a + 44, mb_mmap_addr = a + 48, mb_drives_length = a + 52,
     mb_drives_addr = a + 56, mb_boot_loader_name = a + 64, mb_apm_table = a + 68, mb_vbe_control_info = a + 72,
     mb_vbe_mode_info = a + 76\<rparr>"

text \<open>A pure computation that may not end.\<close>

definition endsE :: "'a option \<Rightarrow> ('d intel, 'a) exec" where
  "endsE x = (case x of None \<Rightarrow> stopE Hang | Some a \<Rightarrow> returnE a)"

section \<open>Modules\<close>

definition loader_get_module_mb1 :: "mem \<Rightarrow> u32 \<Rightarrow> u32 \<Rightarrow> u32 told" where
  "loader_get_module_mb1 m mb i =
     (if mb = 0 then ([Info (''Error: mbi pointer is zero.'' @ nl)], 0)
      else if i \<ge> ld32 m (mb_mods_count (mb1_at mb)) then ([Info (''invalid module #'' @ nl)], 0)
      else ([], ld32 m (mb_mods_addr (mb1_at mb)) + i * 16))"

definition next_mb2_tag :: "mem \<Rightarrow> u32 \<Rightarrow> u32" where
  "next_mb2_tag m start =
     (if start = 0 then 0 else if ld32 m start = 0 then 0 else start + ((ld32 m (start + 4) + 7) AND NOT 7))"

partial_function (option) find_mb2_tag_type :: "mem \<Rightarrow> u32 \<Rightarrow> u32 \<Rightarrow> u32 option" where
  "find_mb2_tag_type m start tag_type =
     (if start \<noteq> 0
      then if ld32 m start = tag_type then Some start else find_mb2_tag_type m (next_mb2_tag m start) tag_type
      else Some start)"

text \<open>The loop of \<open>get_module_mb2\<close> over the remaining \<open>n\<close> numbers; the inner \<open>Some 0\<close> is \<open>return NULL\<close>.\<close>

primrec module_mb2_loop :: "mem \<Rightarrow> nat \<Rightarrow> u32 \<Rightarrow> u32 option option" where
  "module_mb2_loop m 0 start = Some (Some start)"
| "module_mb2_loop m (Suc n) start =
     (if start = 0 then Some None
      else Option.bind (find_mb2_tag_type m (next_mb2_tag m start) 3) (module_mb2_loop m n))"

text \<open>\<open>&(tag_mod->mod_start)\<close> is the tag plus 8, also when \<open>tag_mod\<close> is \<open>NULL\<close>.\<close>

definition get_module_mb2 :: "mem \<Rightarrow> u32 \<Rightarrow> u32 \<Rightarrow> u32 option" where
  "get_module_mb2 m addr i =
     Option.bind (find_mb2_tag_type m (addr + 8) 3) (\<lambda>start.
     if start = 0 then Some 0
     else Option.bind (module_mb2_loop m (unat i) start) (\<lambda>r. Some (case r of None \<Rightarrow> 0 | Some tag \<Rightarrow> tag + 8)))"

partial_function (option) count_mb2 :: "mem \<Rightarrow> u32 \<Rightarrow> u32 \<Rightarrow> u32 option" where
  "count_mb2 m start count =
     (if start \<noteq> 0
      then Option.bind (find_mb2_tag_type m (next_mb2_tag m start) 3) (\<lambda>start. count_mb2 m start (count + 1))
      else Some count)"

definition get_module_count :: "loader_ctx option \<Rightarrow> ('d intel, u32) exec" where
  "get_module_count lctx =
     (if LOADER_CTX_BAD lctx then returnE 0
      else let addr = lc_addr (the lctx) in
      bindE memE (\<lambda>m.
      if lc_type (the lctx) = MB1_ONLY then returnE (ld32 m (mb_mods_count (mb1_at addr)))
      else endsE (Option.bind (find_mb2_tag_type m (addr + 8) 3) (\<lambda>start. count_mb2 m start 0))))"

definition get_module :: "loader_ctx option \<Rightarrow> u32 \<Rightarrow> ('d intel, u32) exec" where
  "get_module lctx i =
     (if LOADER_CTX_BAD lctx then returnE 0
      else if lc_type (the lctx) = MB1_ONLY then runT (\<lambda>m. loader_get_module_mb1 m (lc_addr (the lctx)) i)
      else bindE memE (\<lambda>m. endsE (get_module_mb2 m (lc_addr (the lctx)) i)))"

definition verify_loader_context :: "loader_ctx option \<Rightarrow> ('d intel, bool) exec" where
  "verify_loader_context lctx =
     (if LOADER_CTX_BAD lctx then returnE False
      else bindE (get_module_count lctx) (\<lambda>count.
        if count < 1 then bindE (tell (Num ''Error: no MB modules '' (lc_type (the lctx)))) (\<lambda>_. returnE False)
        else returnE True))"

section \<open>Removing modules\<close>

text \<open>
  The search of \<open>remove_module\<close>, with \<open>n\<close> modules left to look at: the number and the address it ends
  with. The address stays that of the last module when none is found.
\<close>

primrec remove_search :: "loader_ctx option \<Rightarrow> u32 \<Rightarrow> nat \<Rightarrow> u32 \<Rightarrow> u32 \<Rightarrow> ('d intel, u32 \<times> u32) exec" where
  "remove_search lctx start 0 i md = returnE (i, md)"
| "remove_search lctx start (Suc n) i md =
     bindE (get_module lctx i) (\<lambda>md.
     bindE memE (\<lambda>m.
     if start = 0 \<or> ld32 m (mod_start (module_at md)) = start then returnE (i, md)
     else remove_search lctx start n (i + 1) md))"

definition remove_module :: "loader_ctx option \<Rightarrow> u32 \<Rightarrow> ('d intel, u32) exec" where
  "remove_module lctx start =
     bindE (verify_loader_context lctx) (\<lambda>b.
     if \<not> b then returnE 0
     else bindE (get_module_count lctx) (\<lambda>count.
     bindE (remove_search lctx start (unat count) 0 0) (\<lambda>(i, md).
     if md = 0 then bindE (tell (Info (''could not find module to remove'' @ nl))) (\<lambda>_. returnE 0)
     else if lc_type (the lctx) = MB1_ONLY
     then let mb = mb1_at (lc_addr (the lctx)) in
       bindE (if start = 0
              then bindE (setmemE (\<lambda>m. st32 (mb_cmdline mb) (ld32 m (mod_string (module_at md))) m)) (\<lambda>_.
                   bindE (setmemE (\<lambda>m. st32 (mb_flags mb) (ld32 m (mb_flags mb) OR 4) m)) (\<lambda>_.
                   bindE memE (\<lambda>m. returnE (ld32 m (mod_start (module_at md))))))
              else returnE start) (\<lambda>start.
       bindE (setmemE (\<lambda>m. memcpy_intel md (md + 16) ((ld32 m (mb_mods_count mb) - i - 1) * 16) m)) (\<lambda>_.
       bindE (setmemE (\<lambda>m. st32 (mb_mods_count mb) (ld32 m (mb_mods_count mb) - 1) m)) (\<lambda>_.
       returnE start)))
     else returnE 0)))"

primrec remove_txt_loop :: "loader_ctx option \<Rightarrow> nat \<Rightarrow> ('d intel, bool) exec" where
  "remove_txt_loop lctx 0 = returnE False"
| "remove_txt_loop lctx (Suc n) =
     bindE (get_module lctx (of_nat (Suc n))) (\<lambda>md.
     bindE memE (\<lambda>m.
     let base = ld32 m (mod_start (module_at md)) in
     bindE (runT (\<lambda>m. is_sinit_acmod m base (ld32 m (mod_end (module_at md)) - base))) (\<lambda>b.
     if b
     then bindE (remove_module lctx base) (\<lambda>r.
          if r = 0 then bindE (tell (Info (''failed to remove SINIT module from module list'' @ nl))) (\<lambda>_. returnE True)
          else remove_txt_loop lctx n)
     else remove_txt_loop lctx n)))"

text \<open>True is a failure.\<close>

definition remove_txt_modules :: "loader_ctx option \<Rightarrow> ('d intel, bool) exec" where
  "remove_txt_modules lctx =
     bindE (get_module_count lctx) (\<lambda>count.
     if count = 0 then bindE (tell (Info (''Error: no module.'' @ nl))) (\<lambda>_. returnE True)
     else remove_txt_loop lctx (unat (count - 1)))"

definition remove_first_module :: "loader_ctx option \<Rightarrow> ('d intel, u32) exec" where
  "remove_first_module lctx = (if LOADER_CTX_BAD lctx then returnE 0 else remove_module lctx 0)"

section \<open>The end of the information\<close>

definition PAGE_UP :: "u32 \<Rightarrow> u32" where
  "PAGE_UP p = (p + 0x1000 - 1) AND NOT 0xfff"

definition string_end :: "mem \<Rightarrow> u32 \<Rightarrow> u32 option" where
  "string_end m a = map_option (\<lambda>n. a + n + 1) (strlen a m)"

text \<open>The loop over the modules; \<open>get_module_mb1\<close> does not fail below the count.\<close>

primrec module_strings_end :: "mem \<Rightarrow> u32 \<Rightarrow> nat \<Rightarrow> u32 \<Rightarrow> u32 \<Rightarrow> u32 option" where
  "module_strings_end m mb 0 i e = Some e"
| "module_strings_end m mb (Suc n) i e =
     (let p = snd (loader_get_module_mb1 m mb i) in
      if p = 0 then Some e
      else Option.bind (string_end m (ld32 m (mod_string (module_at p)))) (\<lambda>x. module_strings_end m mb n (i + 1) (max e x)))"

definition get_mbi_mem_end_mb1 :: "mem \<Rightarrow> u32 \<Rightarrow> u32 option" where
  "get_mbi_mem_end_mb1 m a =
     (let mb = mb1_at a; flags = ld32 m (mb_flags mb); count = ld32 m (mb_mods_count mb); syms = mb_syms mb in
      Option.bind (if bit flags 2 then map_option (max (a + 88)) (string_end m (ld32 m (mb_cmdline mb))) else Some (a + 88)) (\<lambda>e.
      Option.bind (if bit flags 3 then module_strings_end m a (unat count) 0 (max e (ld32 m (mb_mods_addr mb) + count * 16))
                   else Some e) (\<lambda>e.
      let e = (if bit flags 4 then max e (ld32 m (syms + 8) + ld32 m syms + 4 + ld32 m (syms + 4)) else e);
          e = (if bit flags 5 then max e (ld32 m (syms + 8) + ld32 m syms * ld32 m (syms + 4)) else e);
          e = (if bit flags 6 then max e (ld32 m (mb_mmap_addr mb) + ld32 m (mb_mmap_length mb)) else e);
          e = (if bit flags 7 then max e (ld32 m (mb_drives_addr mb) + ld32 m (mb_drives_length mb)) else e) in
      Option.bind (if bit flags 9 then map_option (max e) (string_end m (ld32 m (mb_boot_loader_name mb))) else Some e) (\<lambda>e.
      let e = (if bit flags 10 then max e (ld32 m (mb_apm_table mb) + 20) else e);
          e = (if bit flags 11 then max (max e (ld32 m (mb_vbe_control_info mb) + 512)) (ld32 m (mb_vbe_mode_info mb) + 256) else e)
      in Some (PAGE_UP e)))))"

definition get_loader_ctx_end :: "loader_ctx option \<Rightarrow> ('d intel, u32) exec" where
  "get_loader_ctx_end lctx =
     (if LOADER_CTX_BAD lctx then returnE 0
      else bindE memE (\<lambda>m.
      let addr = lc_addr (the lctx) in
      if lc_type (the lctx) = 1 then endsE (get_mbi_mem_end_mb1 m addr) else returnE (PAGE_UP (ld32 m addr + addr))))"

section \<open>Checking the modules\<close>

primrec verify_modules_loop :: "loader_ctx option \<Rightarrow> nat \<Rightarrow> u32 \<Rightarrow> ('d intel, bool) exec" where
  "verify_modules_loop lctx 0 i = returnE True"
| "verify_modules_loop lctx (Suc n) i =
     bindE (get_module lctx i) (\<lambda>md.
     bindE memE (\<lambda>m.
     bindE (getE g_e820) (\<lambda>e.
     let start = ld32 m (mod_start (module_at md)); fin = ld32 m (mod_end (module_at md)) in
     if e820_check_region (ucast start) (ucast (fin - start)) e \<noteq> E820_RAM
     then bindE (tell (Info ('': failed.'' @ nl))) (\<lambda>_. returnE False)
     else verify_modules_loop lctx n (i + 1))))"

definition verify_modules :: "loader_ctx option \<Rightarrow> ('d intel, bool) exec" where
  "verify_modules lctx =
     (if LOADER_CTX_BAD lctx then returnE False
      else bindE (get_module_count lctx) (\<lambda>module_count. verify_modules_loop lctx (unat module_count) 0))"

section \<open>Reading the information\<close>

definition get_module_cmd :: "loader_ctx option \<Rightarrow> u32 \<Rightarrow> ('d intel, u32) exec" where
  "get_module_cmd lctx md =
     (if LOADER_CTX_BAD lctx \<or> md = 0 then returnE 0
      else if lc_type (the lctx) = MB1_ONLY then bindE memE (\<lambda>m. returnE (ld32 m (mod_string (module_at md))))
      else returnE (mod_string (module_at md)))"

text \<open>The member at offset \<open>off\<close> of the first tag of a type, or 0.\<close>

definition tag_member :: "u32 \<Rightarrow> u32 \<Rightarrow> (mem \<Rightarrow> u32 \<Rightarrow> u32) \<Rightarrow> ('d intel, u32) exec" where
  "tag_member addr tag_type member =
     bindE memE (\<lambda>m.
     bindE (endsE (find_mb2_tag_type m (addr + 8) tag_type)) (\<lambda>start.
     returnE (if start \<noteq> 0 then member m start else 0)))"

definition get_cmdline :: "loader_ctx option \<Rightarrow> ('d intel, u32) exec" where
  "get_cmdline lctx =
     (if LOADER_CTX_BAD lctx then returnE 0
      else let addr = lc_addr (the lctx) in
      if lc_type (the lctx) = MB1_ONLY
      then bindE memE (\<lambda>m. returnE (if bit (ld32 m (mb_flags (mb1_at addr))) 2 then ld32 m (mb_cmdline (mb1_at addr)) else 0))
      else tag_member addr 1 (\<lambda>m start. start + 8))"

definition have_loader_memlimits :: "loader_ctx option \<Rightarrow> ('d intel, bool) exec" where
  "have_loader_memlimits lctx =
     (if LOADER_CTX_BAD lctx then returnE False
      else if lc_type (the lctx) = MB1_ONLY
      then bindE memE (\<lambda>m. returnE (bit (ld32 m (mb_flags (mb1_at (lc_addr (the lctx))))) 0))
      else bindE (tell (Info ''We dont expect to be here : have_loader_memlimits'')) (\<lambda>_. returnE False))"

definition get_loader_mem_lower :: "loader_ctx option \<Rightarrow> ('d intel, u32) exec" where
  "get_loader_mem_lower lctx =
     (if LOADER_CTX_BAD lctx then returnE 0
      else if lc_type (the lctx) = MB1_ONLY
      then bindE memE (\<lambda>m. returnE (ld32 m (mb_mem_lower (mb1_at (lc_addr (the lctx))))))
      else tag_member (lc_addr (the lctx)) 4 (\<lambda>m start. ld32 m (start + 8)))"

definition get_loader_mem_upper :: "loader_ctx option \<Rightarrow> ('d intel, u32) exec" where
  "get_loader_mem_upper lctx =
     (if LOADER_CTX_BAD lctx then returnE 0
      else if lc_type (the lctx) = MB1_ONLY
      then bindE memE (\<lambda>m. returnE (ld32 m (mb_mem_upper (mb1_at (lc_addr (the lctx))))))
      else tag_member (lc_addr (the lctx)) 4 (\<lambda>m start. ld32 m (start + 12)))"

definition have_loader_memmap :: "loader_ctx option \<Rightarrow> ('d intel, bool) exec" where
  "have_loader_memmap lctx =
     (if LOADER_CTX_BAD lctx then returnE False
      else if lc_type (the lctx) = MB1_ONLY
      then bindE memE (\<lambda>m. returnE (bit (ld32 m (mb_flags (mb1_at (lc_addr (the lctx))))) 6))
      else bindE (tell (Info ''We dont expect to be here: have_loader_memmap'')) (\<lambda>_. stopE Hang))"

definition get_loader_memmap :: "loader_ctx option \<Rightarrow> ('d intel, u32) exec" where
  "get_loader_memmap lctx =
     (if LOADER_CTX_BAD lctx then returnE 0
      else if lc_type (the lctx) = MB1_ONLY
      then bindE memE (\<lambda>m. returnE (ld32 m (mb_mmap_addr (mb1_at (lc_addr (the lctx))))))
      else bindE (tell (Info ''We dont expect to be here : get_loader_memmap'')) (\<lambda>_. stopE Hang))"

definition get_loader_memmap_length :: "loader_ctx option \<Rightarrow> ('d intel, u32) exec" where
  "get_loader_memmap_length lctx =
     (if LOADER_CTX_BAD lctx then returnE 0
      else if lc_type (the lctx) = MB1_ONLY
      then bindE memE (\<lambda>m. returnE (ld32 m (mb_mmap_length (mb1_at (lc_addr (the lctx))))))
      else bindE (tell (Info ''We dont expect to be here : get_loader_memmap_length'')) (\<lambda>_. returnE 0))"

text \<open>\<open>get_e820_copy\<close> is the constant address of the table.\<close>

definition TBOOT_E820_COPY_ADDR :: u32 where "TBOOT_E820_COPY_ADDR = 0x60000 + 0x08000"

definition replace_e820_map :: "loader_ctx option \<Rightarrow> ('d intel, unit) exec" where
  "replace_e820_map lctx =
     (if LOADER_CTX_BAD lctx then tell (Info ''PROBLEM : CONTEXT structure not valide'')
      else if lc_type (the lctx) = MB1_ONLY
      then let mb = mb1_at (lc_addr (the lctx)) in
        bindE (getE g_e820) (\<lambda>e.
        bindE (setmemE (st32 (mb_mmap_addr mb) TBOOT_E820_COPY_ADDR)) (\<lambda>_.
        bindE (setmemE (st32 (mb_mmap_length mb) (nr_map e * 24))) (\<lambda>_.
        setmemE (\<lambda>m. st32 (mb_flags mb) (ld32 m (mb_flags mb) OR 0x40) m))))
      else bindE (tell (Info ''We are not suppose to be here'')) (\<lambda>_. stopE Hang))"

text \<open>The two output parameters are returned; \<open>None\<close> is false.\<close>

definition get_loader_efi_ptr :: "loader_ctx option \<Rightarrow> ('d intel, (u32 \<times> u64) option) exec" where
  "get_loader_efi_ptr lctx =
     (if LOADER_CTX_BAD lctx then returnE None
      else if lc_type (the lctx) \<noteq> MB2_ONLY then returnE None
      else let start = lc_addr (the lctx) + 8 in
      bindE memE (\<lambda>m.
      bindE (endsE (find_mb2_tag_type m start 11)) (\<lambda>hit.
      if hit \<noteq> 0 then returnE (Some (ld32 m (hit + 8), 0))
      else bindE (endsE (find_mb2_tag_type m start 12)) (\<lambda>hit.
      if hit \<noteq> 0 then returnE (Some (0, ld64 m (hit + 8))) else returnE None))))"

text \<open>Size and version of a descriptor, size of the map, and its address.\<close>

definition find_efi_memmap :: "loader_ctx \<Rightarrow> ('d intel, (u32 \<times> u32 \<times> u32 \<times> u32) option) exec" where
  "find_efi_memmap lctx =
     bindE memE (\<lambda>m.
     bindE (endsE (find_mb2_tag_type m (lc_addr lctx + 8) 17)) (\<lambda>hit.
     if hit = 0 then returnE None
     else returnE (Some (ld32 m (hit + 8), ld32 m (hit + 12), ld32 m (hit + 4), hit + 16))))"

definition is_loader_launch_efi :: "loader_ctx option \<Rightarrow> ('d intel, bool) exec" where
  "is_loader_launch_efi lctx =
     (if LOADER_CTX_BAD lctx then returnE False
      else bindE (get_loader_efi_ptr lctx) (\<lambda>r. returnE (r \<noteq> None)))"

text \<open>
  The screen of the kernel from the frame buffer of the firmware. \<open>lfb_line_len\<close> and \<open>lfb_height\<close> are
  16-bit members, their product is an \<open>int\<close>.
\<close>

definition load_framebuffer :: "u32 \<Rightarrow> u32 \<Rightarrow> mem \<Rightarrow> mem" where
  "load_framebuffer tag scr m =
     (let m = st32 (scr + 0x18) (ucast (ld64 m (tag + 8))) m;
          m = st16 (scr + 0x12) (ucast (ld32 m (tag + 20))) m;
          m = st16 (scr + 0x14) (ucast (ld32 m (tag + 24))) m;
          m = st16 (scr + 0x16) (ucast (m (tag + 28))) m;
          m = st16 (scr + 0x24) (ucast (ld32 m (tag + 16))) m;
          m = st8 (scr + 0x26) (m (tag + 33)) m;
          m = st8 (scr + 0x27) (m (tag + 32)) m;
          m = st8 (scr + 0x2a) (m (tag + 37)) m;
          m = st8 (scr + 0x2b) (m (tag + 36)) m;
          m = st8 (scr + 0x28) (m (tag + 35)) m;
          m = st8 (scr + 0x29) (m (tag + 34)) m;
          m = st32 (scr + 0x1c) (ucast (ld16 m (scr + 0x24)) * ucast (ld16 m (scr + 0x14))) m;
          m = st32 (scr + 0x1c) ((ld32 m (scr + 0x1c) + 65535) AND 65535) m;
          m = st8 (scr + 0xf) 0x70 m
      in st8 (scr + 1) 24 m)"

definition load_framebuffer_info :: "loader_ctx option \<Rightarrow> u32 \<Rightarrow> ('d intel, unit) exec" where
  "load_framebuffer_info lctx scr =
     (if scr = 0 then returnE ()
      else if LOADER_CTX_BAD lctx then returnE ()
      else bindE memE (\<lambda>m.
      bindE (endsE (find_mb2_tag_type m (lc_addr (the lctx) + 8) 8)) (\<lambda>start.
      if start \<noteq> 0 then setmemE (load_framebuffer start scr) else returnE ())))"

section \<open>Copying the memory map\<close>

definition memory_map_at :: "mem \<Rightarrow> u32 \<Rightarrow> memory_map_t" where
  "memory_map_at m a = \<lparr>mm_size = ld32 m a, base_addr_low = ld32 m (a + 4), base_addr_high = ld32 m (a + 8),
     length_low = ld32 m (a + 12), length_high = ld32 m (a + 16), mm_type = ld32 m (a + 20)\<rparr>"

text \<open>The loop; it does not end when an entry has size \<open>-4\<close>.\<close>

partial_function (option) copy_map_loop :: "mem \<Rightarrow> u32 \<Rightarrow> u32 \<Rightarrow> u32 \<Rightarrow> u32 \<Rightarrow> e820 \<Rightarrow> (bool \<times> e820) option" where
  "copy_map_loop m memmap len type entry_offset s =
     (if entry_offset < len \<and> nr_map s < MAX_E820_ENTRIES
      then let e = memory_map_at m (memmap + entry_offset) in
        (case protect_region (e820_base_64 e) (e820_length_64 e) (mm_type e) s of
           (b, s) \<Rightarrow>
             if \<not> b then Some (False, s)
             else copy_map_loop m memmap len type
                    ((if type = 2 then \<lambda>x. x + 24 else id) (if type = 1 then entry_offset + (mm_size e + 4) else entry_offset)) s)
      else Some (True, s))"

definition copy_e820_map :: "loader_ctx option \<Rightarrow> ('d intel, bool) exec" where
  "copy_e820_map lctx =
     bindE (modifyE (\<lambda>s. s\<lparr>g_e820 := (g_e820 s)\<lparr>nr_map := 0\<rparr>\<rparr>)) (\<lambda>_.
     bindE (have_loader_memmap lctx) (\<lambda>b.
     if b
     then bindE (get_loader_memmap_length lctx) (\<lambda>len.
       bindE (get_loader_memmap lctx) (\<lambda>memmap.
       bindE (\<lambda>s. case copy_map_loop (i_mem s) memmap len (lc_type (the lctx)) 0 (g_e820 s) of
                None \<Rightarrow> (Stop Hang, s) | Some (b, e) \<Rightarrow> (Ok b, s\<lparr>g_e820 := e\<rparr>)) (\<lambda>b.
       if \<not> b then returnE False
       else bindE (getE g_e820) (\<lambda>e.
       if nr_map e = MAX_E820_ENTRIES
       then bindE (tell (Info ''Too many e820 entries'')) (\<lambda>_. returnE False)
       else returnE True))))
     else bindE (have_loader_memlimits lctx) (\<lambda>b.
       if b then bindE (tell (Info ''We dont expect to be here: copy_e820_map'')) (\<lambda>_. stopE Hang)
       else bindE (tell (Info ''ERROR: no e820 map nor memory limits provided'')) (\<lambda>_. returnE False))))"

end
