(* ===== verification/Cmdline.thy ===== *)
theory Cmdline
  imports Loader
begin

text \<open>
  The command line of the Intel launch (\<^verbatim>\<open>src/arch-intel/cmdline.c\<close>, the character classes of
  \<^verbatim>\<open>include/arch-intel/ctype.h\<close> and \<^verbatim>\<open>src/arch-intel/misc.c\<close>). A string is the list of its bytes up to the
  end of the object that holds it; a pointer into it is the rest of the list. \<open>None\<close> is an access
  outside an object.
\<close>

section \<open>Characters and strings\<close>

text \<open>The table \<open>_ctype\<close>, in runs of equal entries; the characters from \<open>0x80\<close> on have no class.\<close>

abbreviation (input) ct_XS :: u8 where "ct_XS \<equiv> 0x40"
abbreviation (input) ct_CN :: u8 where "ct_CN \<equiv> 0x20"
abbreviation (input) ct_DI :: u8 where "ct_DI \<equiv> 0x04"
abbreviation (input) ct_LO :: u8 where "ct_LO \<equiv> 0x02"
abbreviation (input) ct_PU :: u8 where "ct_PU \<equiv> 0x10"
abbreviation (input) ct_SP :: u8 where "ct_SP \<equiv> 0x08"
abbreviation (input) ct_UP :: u8 where "ct_UP \<equiv> 0x01"
abbreviation (input) ct_XD :: u8 where "ct_XD \<equiv> 0x80"

definition ctype :: "u8 list" where
  "ctype =
     replicate 9 ct_CN @ replicate 5 (ct_CN OR ct_SP) @ replicate 18 ct_CN @
     [ct_XS OR ct_SP] @ replicate 15 ct_PU @ replicate 10 (ct_XD OR ct_DI) @
     replicate 7 ct_PU @ replicate 6 (ct_XD OR ct_UP) @ replicate 20 ct_UP @ replicate 6 ct_PU @
     replicate 6 (ct_XD OR ct_LO) @ replicate 20 ct_LO @ replicate 4 ct_PU @ [ct_CN] @
     replicate 129 0"

definition in_class :: "u8 \<Rightarrow> u8 \<Rightarrow> bool" where "in_class k c \<longleftrightarrow> ctype ! unat c AND k \<noteq> 0"

definition isdigit :: "u8 \<Rightarrow> bool" where "isdigit c = in_class ct_DI c"
definition isspace :: "u8 \<Rightarrow> bool" where "isspace c = in_class ct_SP c"
definition isxdigit :: "u8 \<Rightarrow> bool" where "isxdigit c = in_class ct_XD c"
definition isupper :: "u8 \<Rightarrow> bool" where "isupper c = in_class ct_UP c"
definition islower :: "u8 \<Rightarrow> bool" where "islower c = in_class ct_LO c"
definition isprint :: "u8 \<Rightarrow> bool" where "isprint c = in_class (ct_LO OR ct_UP OR ct_DI OR ct_SP OR ct_PU) c"
definition isalpha :: "u8 \<Rightarrow> bool" where "isalpha c = in_class (ct_LO OR ct_UP) c"

text \<open>The classes are the ranges of ASCII.\<close>

lemma nth_run: "(replicate k x @ ys) ! n = (if n < k then x else ys ! (n - k))"
  by (simp add: nth_append)

lemma length_ctype: "length ctype = 257"
  by (simp add: ctype_def)

lemma in_class_nth: "in_class k c \<longleftrightarrow> map (\<lambda>v. v AND k \<noteq> 0) ctype ! unat c"
proof -
  have "unat c < 256" using unsigned_less [of c] by simp
  then show ?thesis by (simp add: in_class_def length_ctype)
qed

lemma replicate_merge:
  "replicate a x @ replicate b x = replicate (a + b) x" "replicate a x @ replicate b x @ ys = replicate (a + b) x @ ys"
  "replicate a x @ x # ys = replicate (a + 1) x @ ys"
  by (simp_all add: replicate_add replicate_app_Cons_same)

lemma class_runs:
  "map (\<lambda>v. v AND 4 \<noteq> 0) ctype = replicate 48 False @ replicate 10 True @ replicate 199 False"
  "map (\<lambda>v. v AND 8 \<noteq> 0) ctype = replicate 9 False @ replicate 5 True @ replicate 18 False @ replicate 1 True @ replicate 224 False"
  "map (\<lambda>v. v AND 1 \<noteq> 0) ctype = replicate 65 False @ replicate 26 True @ replicate 166 False"
  "map (\<lambda>v. v AND 2 \<noteq> 0) ctype = replicate 97 False @ replicate 26 True @ replicate 134 False"
  "map (\<lambda>v. v AND 3 \<noteq> 0) ctype = replicate 65 False @ replicate 26 True @ replicate 6 False @ replicate 26 True @ replicate 134 False"
  "map (\<lambda>v. v AND 31 \<noteq> 0) ctype = replicate 9 False @ replicate 5 True @ replicate 18 False @ True # replicate 94 True @ False # replicate 129 False"
  by (simp_all add: ctype_def replicate_merge)

lemma class_ranges:
  "isdigit c \<longleftrightarrow> 0x30 \<le> c \<and> c \<le> 0x39"
  "isspace c \<longleftrightarrow> 0x09 \<le> c \<and> c \<le> 0x0d \<or> c = 0x20"
  "isupper c \<longleftrightarrow> 0x41 \<le> c \<and> c \<le> 0x5a"
  "islower c \<longleftrightarrow> 0x61 \<le> c \<and> c \<le> 0x7a"
  "isalpha c \<longleftrightarrow> 0x41 \<le> c \<and> c \<le> 0x5a \<or> 0x61 \<le> c \<and> c \<le> 0x7a"
  "isprint c \<longleftrightarrow> 0x20 \<le> c \<and> c \<le> 0x7e \<or> 0x09 \<le> c \<and> c \<le> 0x0d"
proof -
  have c: "unat c < 256" using unsigned_less [of c] by simp
  note runs = in_class_nth class_runs nth_run nth_Cons' word_le_nat_alt word_unat_eq_iff [of c]
  show "isdigit c \<longleftrightarrow> 0x30 \<le> c \<and> c \<le> 0x39"
    unfolding isdigit_def using c by (simp add: runs) linarith
  show "isspace c \<longleftrightarrow> 0x09 \<le> c \<and> c \<le> 0x0d \<or> c = 0x20"
    unfolding isspace_def using c by (simp add: runs) linarith
  show "isupper c \<longleftrightarrow> 0x41 \<le> c \<and> c \<le> 0x5a"
    unfolding isupper_def using c by (simp add: runs) linarith
  show "islower c \<longleftrightarrow> 0x61 \<le> c \<and> c \<le> 0x7a"
    unfolding islower_def using c by (simp add: runs) linarith
  show "isalpha c \<longleftrightarrow> 0x41 \<le> c \<and> c \<le> 0x5a \<or> 0x61 \<le> c \<and> c \<le> 0x7a"
    unfolding isalpha_def using c by (simp add: runs) linarith
  show "isprint c \<longleftrightarrow> 0x20 \<le> c \<and> c \<le> 0x7e \<or> 0x09 \<le> c \<and> c \<le> 0x0d"
    unfolding isprint_def using c by (simp add: runs) linarith
qed

fun strcmp :: "bytes \<Rightarrow> bytes \<Rightarrow> int option" where
  "strcmp (a # s1) (b # s2) = (if a = b then if a = 0 then Some 0 else strcmp s1 s2 else Some (uint a - uint b))"
| "strcmp s1 s2 = None"

fun strncmp :: "bytes \<Rightarrow> bytes \<Rightarrow> nat \<Rightarrow> int option" where
  "strncmp s1 s2 0 = Some 0"
| "strncmp (a # s1) (b # s2) (Suc n) =
     (if a \<noteq> b then Some (uint a - uint b) else if a = 0 then Some 0 else strncmp s1 s2 n)"
| "strncmp s1 s2 (Suc n) = None"

text \<open>The value of a digit or letter.\<close>

definition digit_value :: "u8 \<Rightarrow> u8 option" where
  "digit_value c =
     (if isdigit c then Some (c - 0x30)
      else if isalpha c then Some (c - (if isupper c then 0x41 - 10 else 0x61 - 10))
      else None)"

text \<open>The loop of \<open>strtoul\<close>, with the position of the current character.\<close>

fun strtoul_loop :: "u32 \<Rightarrow> bytes \<Rightarrow> u32 \<Rightarrow> int \<Rightarrow> nat \<Rightarrow> (u32 \<times> int \<times> nat) option" where
  "strtoul_loop base [] acc any pos = None"
| "strtoul_loop base (c # s) acc any pos =
     (case digit_value c of
        None \<Rightarrow> Some (acc, any, pos)
      | Some d \<Rightarrow>
          if ucast d \<ge> base then Some (acc, any, pos)
          else if any < 0 \<or> acc > 0xffffffff div base \<or> acc = 0xffffffff div base \<and> ucast d > (0xffffffff mod base :: u32)
          then strtoul_loop base s acc (- 1) (pos + 1)
          else strtoul_loop base s (acc * base + ucast d) 1 (pos + 1))"

definition char_at :: "bytes \<Rightarrow> nat \<Rightarrow> u8 option" where
  "char_at s i = (if i < length s then Some (s ! i) else None)"

text \<open>The value and the position that \<open>endptr\<close> gets.\<close>

definition strtoul :: "bytes \<Rightarrow> u32 \<Rightarrow> (u32 \<times> nat) option" where
  "strtoul nptr base =
     (let p = length (takeWhile isspace nptr) in
      Option.bind (char_at nptr p) (\<lambda>c.
      let neg = (c = 0x2d); p = (if c = 0x2d \<or> c = 0x2b then p + 1 else p) in
      Option.bind (char_at nptr p) (\<lambda>c.
      Option.bind (if (base = 0 \<or> base = 16) \<and> c = 0x30 then char_at nptr (p + 1) else Some 0) (\<lambda>x.
      let hex = (x = 0x78 \<or> x = 0x58); p = (if hex then p + 2 else p); base = (if hex then 16 else base) in
      Option.bind (char_at nptr p) (\<lambda>c.
      let base = (if base = 0 then if c = 0x30 then 8 else 10 else base) in
      Option.bind (strtoul_loop base (drop p nptr) 0 0 p) (\<lambda>(acc, any, pos).
      Some (if any < 0 then 0xffffffff else if neg then - acc else acc, if any \<noteq> 0 then pos else 0)))))))"

text \<open>The position of a character, or \<open>None\<close> inside for \<open>NULL\<close>.\<close>

fun index :: "bytes \<Rightarrow> u8 \<Rightarrow> nat option option" where
  "index [] ch = None"
| "index (c # s) ch = (if c = ch then Some (Some 0) else if c = 0 then Some None else map_option (map_option Suc) (index s ch))"

text \<open>
  \<open>strncpy\<close> of \<^verbatim>\<open>src/util.c\<close> into an object: \<open>k\<close> characters are copied up to a zero, and \<open>num - 1 - k\<close> zeros
  follow. \<open>None\<close> stands for a run that leaves an object: when there is no zero in the first \<open>num\<close> characters the
  counter has wrapped, and the zeros run through the object and on. \<open>strncpy\<close> of the theory \<open>Util_Mem\<close> is the same
  code on the whole memory, where that run has an outcome. \<open>Cmdline_Correct\<close> shows that the two agree:
  where this one gives a value it is what the other leaves in the object (\<open>strncpy_into_strncpy\<close>), and
  where the characters are not terminated the other clears the whole memory but one byte
  (\<open>strncpy_into_clears\<close>).
\<close>

definition strncpy_into :: "bytes \<Rightarrow> bytes \<Rightarrow> nat \<Rightarrow> bytes option" where
  "strncpy_into dest src num =
     (let k = length (takeWhile (\<lambda>c. c \<noteq> 0) src) in
      if k < num \<and> k < length src \<and> num - 1 \<le> length dest
      then Some (splice dest 0 (take k src @ replicate (num - 1 - k) 0)) else None)"

section \<open>Options\<close>

type_synonym cmdline_option_t = "bytes \<times> bytes"

definition g_tboot_cmdline_options :: "cmdline_option_t list" where
  "g_tboot_cmdline_options =
     [(str ''loglvl'', str ''all''), (str ''logging'', str ''serial,vga''), (str ''serial'', str ''115200,8n1,0x3f8''),
      (str ''vga_delay'', str ''0''), (str ''ap_wake_mwait'', str ''false''), (str ''pcr_map'', str ''legacy''),
      (str ''min_ram'', str ''0''), (str ''call_racm'', str ''false''), (str ''measure_nv'', str ''false''),
      (str ''extpol'', str ''sha1''), (str ''ignore_prev_err'', str ''true'')]"

definition g_linux_cmdline_options :: "cmdline_option_t list" where
  "g_linux_cmdline_options = [(str ''vga'', str ''''), (str ''mem'', str '''')]"

fun option_lookup :: "cmdline_option_t list \<Rightarrow> bytes list \<Rightarrow> bytes \<Rightarrow> bytes option option" where
  "option_lookup ((name, def_val) # opts) (v # vals) opt_name =
     Option.bind (strcmp name opt_name) (\<lambda>r. if r = 0 then Some (Some v) else option_lookup opts vals opt_name)"
| "option_lookup [] vals opt_name = Some None"
| "option_lookup opts [] opt_name = None"

definition get_option_val :: "cmdline_option_t list \<Rightarrow> bytes list \<Rightarrow> string \<Rightarrow> ('d intel, bytes option) exec" where
  "get_option_val options vals opt_name =
     (case option_lookup options vals (str opt_name) of
        None \<Rightarrow> stopE Fault
      | Some None \<Rightarrow> bindE (tell (Info (''requested unknown option'' @ nl))) (\<lambda>_. returnE None)
      | Some (Some v) \<Rightarrow> returnE (Some v))"

text \<open>The default values: 63 characters at most, and a zero.\<close>

fun copy_defaults :: "cmdline_option_t list \<Rightarrow> bytes list \<Rightarrow> bytes list option" where
  "copy_defaults ((name, def_val) # opts) (v # vals) =
     Option.bind (strncpy_into v def_val 63) (\<lambda>v.
     Option.bind (copy_defaults opts vals) (\<lambda>vals. Some (v[63 := 0] # vals)))"
| "copy_defaults [] vals = Some vals"
| "copy_defaults opts [] = None"

text \<open>The value goes to the first option whose name begins with the given one.\<close>

fun set_option :: "cmdline_option_t list \<Rightarrow> bytes list \<Rightarrow> bytes \<Rightarrow> nat \<Rightarrow> bytes \<Rightarrow> nat \<Rightarrow> bytes list option" where
  "set_option ((name, def_val) # opts) (v # vals) opt_start name_size val_start copy_size =
     Option.bind (strncmp name opt_start name_size) (\<lambda>r.
     if r = 0 then Option.bind (strncpy_into v val_start copy_size) (\<lambda>v. Some (v[copy_size := 0] # vals))
     else map_option ((#) v) (set_option opts vals opt_start name_size val_start copy_size))"
| "set_option [] vals opt_start name_size val_start copy_size = Some vals"
| "set_option opts [] opt_start name_size val_start copy_size = None"

text \<open>One option, at the start of \<open>s\<close>; the result also has the position of its end.\<close>

definition option_end :: "bytes \<Rightarrow> nat option" where
  "option_end s = Option.bind (index s 0x20) (\<lambda>blank. case blank of Some e \<Rightarrow> Some e | None \<Rightarrow> strLen s)"

definition parse_option :: "cmdline_option_t list \<Rightarrow> bytes \<Rightarrow> bytes list \<Rightarrow> (nat \<times> bytes list) option" where
  "parse_option options s vals =
     Option.bind (option_end s) (\<lambda>opt_end.
     Option.bind (index s 0x3d) (\<lambda>eq.
     case eq of
       None \<Rightarrow> Some (opt_end, vals)
     | Some e \<Rightarrow>
         if e > opt_end then Some (opt_end, vals)
         else let val_start = e + 1; name_size = val_start - 1; copy_size = min (opt_end - val_start) 63 in
           if name_size = 0 \<or> copy_size = 0 then Some (opt_end, vals)
           else Option.bind (set_option options vals s name_size (drop val_start s) copy_size) (\<lambda>vals. Some (opt_end, vals))))"

lemma index_pos:
  assumes "index (c # s) ch = Some r" "c \<noteq> ch" "c \<noteq> 0"
  shows "\<And>e. r = Some e \<Longrightarrow> 0 < e"
  using assms by auto

lemma strLen_pos: "strLen (c # s) = Some n \<Longrightarrow> c \<noteq> 0 \<Longrightarrow> 0 < n"
  by auto

lemma parse_option_end:
  assumes "parse_option options s vals = Some (e, vals')"
  shows "option_end s = Some e"
  using assms unfolding parse_option_def Let_def bind_eq_Some_conv
  by (elim exE conjE) (auto simp: bind_eq_Some_conv split: option.split_asm if_split_asm)

lemma option_end_pos:
  assumes "option_end (c # s) = Some e" "c \<noteq> 0" "c \<noteq> 0x20"
  shows "0 < e"
proof -
  obtain blank where b: "index (c # s) 0x20 = Some blank"
    and e: "(case blank of Some e \<Rightarrow> Some e | None \<Rightarrow> strLen (c # s)) = Some e"
    using assms(1) by (auto simp: option_end_def bind_eq_Some_conv simp del: index.simps)
  show ?thesis
  proof (cases blank)
    case None
    then show ?thesis using e strLen_pos [of c s e] assms(2) by simp
  next
    case (Some x)
    then show ?thesis using e index_pos [OF b assms(3,2)] by auto
  qed
qed

lemmas parse_option_advances = option_end_pos [OF parse_option_end]

function parse_loop :: "cmdline_option_t list \<Rightarrow> bytes \<Rightarrow> bytes list \<Rightarrow> bytes list option" where
  "parse_loop options p vals =
     (case dropWhile isspace p of
        [] \<Rightarrow> None
      | c # s \<Rightarrow>
          if c = 0 then Some vals
          else case parse_option options (c # s) vals of
                 None \<Rightarrow> None
               | Some (e, vals) \<Rightarrow> parse_loop options (drop e (c # s)) vals)"
  by pat_completeness auto
termination
proof (relation "measure (\<lambda>(_, p, _). length p)", goal_cases)
  case (2 options p vals c s x e vals')
  have "dropWhile isspace p = c # s" using 2 by simp
  then have "\<not> isspace c" "length (c # s) \<le> length p"
    using hd_dropWhile [of isspace p] length_dropWhile_le [of isspace p] by auto
  moreover have "0 < e" using 2 \<open>\<not> isspace c\<close> by (intro parse_option_advances) (auto simp: class_ranges)
  ultimately show ?case by (auto simp: less_le_trans)
qed simp

declare parse_loop.simps [simp del]

definition cmdline_parse :: "bytes option \<Rightarrow> cmdline_option_t list \<Rightarrow> bytes list \<Rightarrow> bytes list option" where
  "cmdline_parse cmdline options vals =
     Option.bind (copy_defaults options vals) (\<lambda>vals.
     case cmdline of None \<Rightarrow> Some vals | Some p \<Rightarrow> parse_loop options p vals)"

definition faultE :: "'a option \<Rightarrow> ('d intel, 'a) exec" where
  "faultE x = (case x of None \<Rightarrow> stopE Fault | Some a \<Rightarrow> returnE a)"

text \<open>\<open>g_cmdline\<close> is a parameter: 512 bytes that nothing writes.\<close>

definition tboot_parse_cmdline :: "bytes \<Rightarrow> ('d intel, unit) exec" where
  "tboot_parse_cmdline g_cmdline =
     bindE (getE g_tboot_param_values) (\<lambda>vals.
     bindE (faultE (cmdline_parse (Some g_cmdline) g_tboot_cmdline_options vals)) (\<lambda>vals.
     modifyE (\<lambda>s. s\<lparr>g_tboot_param_values := vals\<rparr>)))"

text \<open>The string at an address; a string without an end is read for ever.\<close>

definition string_at :: "u32 \<Rightarrow> ('d intel, bytes option) exec" where
  "string_at a =
     (if a = 0 then returnE None
      else bindE memE (\<lambda>m. bindE (endsE (strlen a m)) (\<lambda>n. returnE (Some (bytes_at m a (unat n + 1))))))"

definition linux_parse_cmdline :: "u32 \<Rightarrow> ('d intel, unit) exec" where
  "linux_parse_cmdline cmdline =
     bindE (string_at cmdline) (\<lambda>txt.
     bindE (getE g_linux_param_values) (\<lambda>vals.
     bindE (faultE (cmdline_parse txt g_linux_cmdline_options vals)) (\<lambda>vals.
     modifyE (\<lambda>s. s\<lparr>g_linux_param_values := vals\<rparr>))))"

section \<open>The serial port\<close>

text \<open>The parsers return the rest of the string; the inner \<open>None\<close> is false.\<close>

definition parse_pci_bdf :: "bytes \<Rightarrow> bdf_t \<Rightarrow> (bool \<times> bytes \<times> bdf_t) option" where
  "parse_pci_bdf s bdf =
     Option.bind (strtoul s 16) (\<lambda>(bus, n).
     let s = drop n s; bdf = bdf\<lparr>bdf_bus := bus\<rparr> in
     Option.bind (char_at s 0) (\<lambda>c.
     if c \<noteq> 0x3a then Some (False, s, bdf)
     else let s = drop 1 s in
     Option.bind (strtoul s 16) (\<lambda>(slot, n).
     let s = drop n s; bdf = bdf\<lparr>bdf_slot := slot\<rparr> in
     Option.bind (char_at s 0) (\<lambda>c.
     if c \<noteq> 0x2e then Some (False, s, bdf)
     else let s = drop 1 s in
     Option.bind (strtoul s 16) (\<lambda>(func, n). Some (True, drop n s, bdf\<lparr>bdf_func := func\<rparr>))))))"

definition GET_LCR_VALUE :: "u8 \<Rightarrow> u8 \<Rightarrow> u8 \<Rightarrow> u8" where
  "GET_LCR_VALUE data stop parity =
     (if data = 6 then 1 else if data = 7 then 2 else if data = 8 then 3 else 0) OR (if stop > 1 then 4 else 0) OR
     (if parity = 0x6f then 0x08 else if parity = 0x65 then 0x18 else if parity = 0x6d then 0x28 else if parity = 0x73 then 0x38 else 0)"

definition parse_com_fmt :: "bytes \<Rightarrow> (u8 option \<times> bytes) option" where
  "parse_com_fmt s =
     Option.bind (strLen s) (\<lambda>n.
     if n < 3 then Some (None, s)
     else let data = s ! 0; parity = s ! 1; stop = s ! 2 in
       if \<not> (0x35 \<le> data \<and> data \<le> 0x38) then Some (None, s)
       else if parity \<notin> {0x6e, 0x6f, 0x65, 0x6d, 0x73} then Some (None, drop 1 s)
       else if stop \<notin> {0x30, 0x31} then Some (None, drop 2 s)
       else Some (Some (GET_LCR_VALUE (data - 0x30) (stop - 0x30) parity), drop 3 s))"

text \<open>The two device addresses, and which of the flags is set.\<close>

definition parse_bdfs :: "bytes \<Rightarrow> 'd intel \<Rightarrow> (bool \<times> 'd intel) option" where
  "parse_bdfs com s =
     Option.bind (char_at com 0) (\<lambda>c.
     if c \<noteq> 0x2c then Some (True, s)
     else Option.bind (parse_pci_bdf (drop 1 com) (comc_psbdf (g_com_port s))) (\<lambda>(ok, com, bdf).
       let s = s\<lparr>g_com_port := (g_com_port s)\<lparr>comc_psbdf := bdf\<rparr>, g_psbdf_enabled := ok\<rparr> in
       if \<not> ok then Some (False, s)
       else Option.bind (char_at com 0) (\<lambda>c.
       if c \<noteq> 0x2c then Some (True, s)
       else Option.bind (parse_pci_bdf (drop 1 com) (comc_pbbdf (g_com_port s))) (\<lambda>(ok, com, bdf).
         Some (ok, s\<lparr>g_com_port := (g_com_port s)\<lparr>comc_pbbdf := bdf\<rparr>, g_pbbdf_enabled := ok\<rparr>)))))"

definition parse_port_irq :: "bytes \<Rightarrow> 'd intel \<Rightarrow> (bool \<times> 'd intel) option" where
  "parse_port_irq com s =
     Option.bind (char_at com 0) (\<lambda>c.
     if c \<noteq> 0x2c then Some (True, s)
     else let com = drop 1 com in
     Option.bind (strtoul com 0) (\<lambda>(port, n).
     let com = drop n com; s = s\<lparr>g_com_port := (g_com_port s)\<lparr>comc_port := port\<rparr>\<rparr> in
     if port = 0 then Some (False, s)
     else Option.bind (char_at com 0) (\<lambda>c.
     if c \<noteq> 0x2c then Some (True, s)
     else let com = drop 1 com in
     Option.bind (strtoul com 10) (\<lambda>(irq, n).
     let com = drop n com; s = s\<lparr>g_com_port := (g_com_port s)\<lparr>comc_irq := irq\<rparr>\<rparr> in
     if irq = 0 then Some (False, s) else parse_bdfs com s))))"

definition parse_serial_param :: "bytes \<Rightarrow> 'd intel \<Rightarrow> (bool \<times> 'd intel) option" where
  "parse_serial_param com s =
     Option.bind (strtoul com 10) (\<lambda>(speed, n).
     let com = drop n com; s = s\<lparr>g_com_port := (g_com_port s)\<lparr>comc_curspeed := speed\<rparr>\<rparr> in
     if speed < 1200 \<or> speed > 115200 then Some (False, s)
     else Option.bind (char_at com 0) (\<lambda>c.
     Option.bind (if c = 0x2f
       then Option.bind (strtoul (drop 1 com) 0) (\<lambda>(hz, n).
            Some (push_bit 4 hz = 0, drop n (drop 1 com), s\<lparr>g_com_port := (g_com_port s)\<lparr>comc_clockhz := push_bit 4 hz\<rparr>\<rparr>))
       else Some (False, com, s)) (\<lambda>(bad, com, s).
     if bad then Some (False, s)
     else Option.bind (char_at com 0) (\<lambda>c.
     if c \<noteq> 0x2c then Some (True, s)
     else Option.bind (parse_com_fmt (dropWhile isspace (drop 1 com))) (\<lambda>(fmt, com).
     case fmt of
       None \<Rightarrow> Some (False, s)
     | Some f \<Rightarrow> parse_port_irq com (s\<lparr>g_com_port := (g_com_port s)\<lparr>comc_fmt := f\<rparr>\<rparr>))))))"

section \<open>Asking for an option\<close>

definition tboot_option :: "string \<Rightarrow> ('d intel, bytes option) exec" where
  "tboot_option name = bindE (getE g_tboot_param_values) (\<lambda>vals. get_option_val g_tboot_cmdline_options vals name)"

definition get_tboot_serial :: "('d intel, bool) exec" where
  "get_tboot_serial =
     bindE (tboot_option ''serial'') (\<lambda>v. case v of
       None \<Rightarrow> returnE False
     | Some serial \<Rightarrow>
         if char_at serial 0 = Some 0 then returnE False
         else (\<lambda>s. case parse_serial_param serial s of None \<Rightarrow> (Stop Fault, s) | Some (b, s) \<Rightarrow> (Ok b, s)))"

text \<open>Whether the value is there and equal to \<open>txt\<close>.\<close>

definition option_is :: "bytes option \<Rightarrow> string \<Rightarrow> ('d intel, bool) exec" where
  "option_is v txt = (case v of None \<Rightarrow> returnE False | Some x \<Rightarrow> bindE (faultE (strcmp x (str txt))) (\<lambda>r. returnE (r = 0)))"

definition get_tboot_prefer_da :: "('d intel, bool) exec" where
  "get_tboot_prefer_da = bindE (tboot_option ''pcr_map'') (\<lambda>v. option_is v ''da'')"

definition get_tboot_min_ram :: "('d intel, unit) exec" where
  "get_tboot_min_ram =
     bindE (tboot_option ''min_ram'') (\<lambda>v. case v of
       None \<Rightarrow> returnE ()
     | Some x \<Rightarrow> bindE (faultE (strtoul x 0)) (\<lambda>r. modifyE (\<lambda>s. s\<lparr>g_min_ram := fst r\<rparr>)))"

definition get_tboot_mwait :: "('d intel, bool) exec" where
  "get_tboot_mwait =
     bindE (tboot_option ''ap_wake_mwait'') (\<lambda>v.
     if v = None then returnE False else bindE (option_is v ''false'') (\<lambda>b. returnE (\<not> b)))"

definition get_tboot_call_racm :: "('d intel, bool) exec" where
  "get_tboot_call_racm = bindE (tboot_option ''call_racm'') (\<lambda>v. option_is v ''true'')"

definition get_tboot_call_racm_check :: "('d intel, bool) exec" where
  "get_tboot_call_racm_check = bindE (tboot_option ''call_racm'') (\<lambda>v. option_is v ''check'')"

definition get_tboot_measure_nv :: "('d intel, bool) exec" where
  "get_tboot_measure_nv = bindE (tboot_option ''measure_nv'') (\<lambda>v. option_is v ''true'')"

definition get_tboot_ignore_prev_err :: "('d intel, bool) exec" where
  "get_tboot_ignore_prev_err =
     bindE (tboot_option ''ignore_prev_err'') (\<lambda>v. if v = None then returnE True else option_is v ''true'')"

text \<open>The video mode; \<open>None\<close> is false.\<close>

definition get_linux_vga :: "('d intel, u32 option) exec" where
  "get_linux_vga =
     bindE (getE g_linux_param_values) (\<lambda>vals.
     bindE (get_option_val g_linux_cmdline_options vals ''vga'') (\<lambda>v. case v of
       None \<Rightarrow> returnE None
     | Some vga \<Rightarrow>
         bindE (option_is v ''normal'') (\<lambda>b. if b then returnE (Some 0xffff)
         else bindE (option_is v ''ext'') (\<lambda>b. if b then returnE (Some 0xfffe)
         else bindE (option_is v ''ask'') (\<lambda>b. if b then returnE (Some 0xfffd)
         else bindE (faultE (strtoul vga 0)) (\<lambda>r. returnE (Some (fst r))))))))"

text \<open>The result and what \<open>*max_mem\<close> holds, \<open>None\<close> when it was not written.\<close>

definition get_linux_mem :: "('d intel, bool \<times> u64 option) exec" where
  "get_linux_mem =
     bindE (getE g_linux_param_values) (\<lambda>vals.
     bindE (get_option_val g_linux_cmdline_options vals ''mem'') (\<lambda>v. case v of
       None \<Rightarrow> returnE (False, None)
     | Some mem \<Rightarrow>
         bindE (faultE (strtoul mem 0)) (\<lambda>(n, e).
         let max_mem = ucast n in
         if max_mem = 0 then returnE (False, Some max_mem)
         else bindE (faultE (char_at mem e)) (\<lambda>c.
           returnE (if c \<in> {0x47, 0x67} then (True, Some (push_bit 30 max_mem))
                    else if c \<in> {0x4d, 0x6d} then (True, Some (push_bit 20 max_mem))
                    else if c \<in> {0x4b, 0x6b} then (True, Some (push_bit 10 max_mem))
                    else (False, Some max_mem))))))"

end
