(* ===== verification/Cmdline_Correct.thy ===== *)
theory Cmdline_Correct
  imports Cmdline
begin

text \<open>
  What the parser of the command line computes: the numbers that \<open>strtoul\<close> reads, and what becomes of the
  values that a command line gives to options.
\<close>

section \<open>Numbers\<close>

text \<open>The number that the digits \<open>cs\<close> denote behind the number \<open>n\<close>.\<close>

fun horner :: "nat \<Rightarrow> nat \<Rightarrow> bytes \<Rightarrow> nat" where
  "horner b n [] = n"
| "horner b n (c # cs) = horner b (n * b + unat (the (digit_value c))) cs"

definition numeral_in :: "u32 \<Rightarrow> bytes \<Rightarrow> bool" where
  "numeral_in base cs \<longleftrightarrow> (\<forall>c \<in> set cs. \<exists>d. digit_value c = Some d \<and> ucast d < base)"

lemma horner_mono: "0 < b \<Longrightarrow> n \<le> horner b n cs"
proof (induction cs arbitrary: n)
  case (Cons c cs)
  have "n \<le> n * b + unat (the (digit_value c))" using Cons.prems by (simp add: trans_le_add1)
  also have "\<dots> \<le> horner b (n * b + unat (the (digit_value c))) cs" by (rule Cons.IH [OF Cons.prems])
  finally show ?case by simp
qed simp

text \<open>The test against \<open>cutoff\<close> and \<open>cutlim\<close> is the test for an overflow.\<close>

lemma cutoff_nat:
  assumes "(M :: nat) = q * b + r" "r < b" "d < b"
  shows "(q < a \<or> a = q \<and> r < d) \<longleftrightarrow> M < a * b + d"
proof (cases a q rule: linorder_cases)
  case less
  then have "(a + 1) * b \<le> q * b" by (intro mult_le_mono1) simp
  then have "a * b + d < M" using assms by (simp add: distrib_right)
  then show ?thesis using less by simp
next
  case equal
  then show ?thesis using assms by simp
next
  case greater
  then have "(q + 1) * b \<le> a * b" by (intro mult_le_mono1) simp
  then have "M < a * b + d" using assms by (simp add: distrib_right)
  then show ?thesis using greater by simp
qed

lemma cutoff_overflow:
  fixes acc base d :: u32
  assumes "d < base"
  shows "(acc > 0xffffffff div base \<or> acc = 0xffffffff div base \<and> d > 0xffffffff mod base) \<longleftrightarrow>
    2 ^ 32 \<le> unat acc * unat base + unat d"
proof -
  have b: "0 < unat base" "unat d < unat base" using assms by (auto simp: word_less_nat_alt)
  have q: "unat ((0xffffffff :: u32) div base) = 0xffffffff div unat base" "unat ((0xffffffff :: u32) mod base) = 0xffffffff mod unat base"
    by (simp_all add: unat_div unat_mod)
  have "(0xffffffff div unat base < unat acc \<or> unat acc = 0xffffffff div unat base \<and> 0xffffffff mod unat base < unat d) \<longleftrightarrow>
      0xffffffff < unat acc * unat base + unat d"
    by (rule cutoff_nat) (use b in simp_all)
  then show ?thesis by (simp add: word_less_nat_alt word_unat_eq_iff [of acc] q) linarith
qed

lemma unat_u8_less: "unat (v :: u8) < 256"
  using unsigned_less [of v] by simp

lemma strtoul_loop_value:
  assumes "numeral_in base cs" "digit_value t = None \<or> (\<exists>d. digit_value t = Some d \<and> base \<le> ucast d)"
  shows "\<exists>v. strtoul_loop base (cs @ t # r) acc any pos =
    Some (if any < 0 \<or> 2 ^ 32 \<le> horner (unat base) (unat acc) cs then (v, if cs = [] then any else - 1, pos + length cs)
      else (of_nat (horner (unat base) (unat acc) cs), if cs = [] then any else 1, pos + length cs))"
  using assms(1)
proof (induction cs arbitrary: acc any pos)
  case Nil
  have "unat acc < 2 ^ 32" by (rule unat_u32_less)
  then show ?case using assms(2) by (auto simp: not_le)
next
  case (Cons c cs)
  then obtain d where d: "digit_value c = Some d" "ucast d < base" by (auto simp: numeral_in_def)
  have cs: "numeral_in base cs" using Cons.prems by (simp add: numeral_in_def)
  have b: "0 < unat base" using d(2) by (auto simp: word_less_nat_alt)
  have u: "unat (ucast d :: u32) = unat d" using unat_u8_less [of d] by (simp add: unsigned_ucast_eq take_bit_nat_eq_self)
  have ov: "(acc > 0xffffffff div base \<or> acc = 0xffffffff div base \<and> ucast d > (0xffffffff mod base :: u32)) \<longleftrightarrow>
      2 ^ 32 \<le> unat acc * unat base + unat d"
    using cutoff_overflow [OF d(2), of acc] by (simp add: u)
  show ?case
  proof (cases "any < 0 \<or> 2 ^ 32 \<le> unat acc * unat base + unat d")
    case True
    then have big: "any < 0 \<or> 2 ^ 32 \<le> horner (unat base) (unat acc) (c # cs)"
      using horner_mono [OF b, of "unat acc * unat base + unat d" cs] d by auto
    have "strtoul_loop base ((c # cs) @ t # r) acc any pos = strtoul_loop base (cs @ t # r) acc (- 1) (pos + 1)"
      using True d ov by (auto simp: not_le [symmetric])
    then show ?thesis using Cons.IH [OF cs, of acc "- 1" "pos + 1"] big by auto
  next
    case False
    then have "unat (acc * base + ucast d) = unat acc * unat base + unat d" by (simp add: unat_word_ariths u)
    moreover have "strtoul_loop base ((c # cs) @ t # r) acc any pos = strtoul_loop base (cs @ t # r) (acc * base + ucast d) 1 (pos + 1)"
      using False d ov by (auto simp: not_le [symmetric])
    ultimately show ?thesis using Cons.IH [OF cs, of "acc * base + ucast d" 1 "pos + 1"] False d by auto
  qed
qed

lemma digit_not_special: "digit_value c = Some d \<Longrightarrow> \<not> isspace c \<and> c \<noteq> 0x2d \<and> c \<noteq> 0x2b"
  by (auto simp: digit_value_def class_ranges word_le_nat_alt split: if_splits)

text \<open>A character at which the digits of a number in base \<open>b\<close> stop.\<close>

definition no_digit :: "u32 \<Rightarrow> u8 \<Rightarrow> bool" where
  "no_digit b t \<longleftrightarrow> digit_value t = None \<or> (\<exists>d. digit_value t = Some d \<and> b \<le> ucast d)"

text \<open>The base of a number: the given one, or the one that the prefix or a leading zero shows.\<close>

definition base_of :: "u32 \<Rightarrow> bytes \<Rightarrow> u8 \<Rightarrow> u32" where
  "base_of base px c = (if px \<noteq> [] then 16 else if base = 0 then if c = 0x30 then 8 else 10 else base)"

text \<open>
  The parts of a text with a number: blanks, a sign, a prefix (for base 0 or 16; it is a part whenever the text
  has it), the digits, and the character that ends them.
\<close>

definition number_text :: "u32 \<Rightarrow> bytes \<Rightarrow> bytes \<Rightarrow> bytes \<Rightarrow> bytes \<Rightarrow> u8 \<Rightarrow> bool" where
  "number_text base ws sg px cs t \<longleftrightarrow>
     (\<forall>c \<in> set ws. isspace c) \<and> sg \<in> {[], [0x2d], [0x2b]} \<and>
     (px = [] \<or> (base = 0 \<or> base = 16) \<and> px \<in> {[0x30, 0x78], [0x30, 0x58]}) \<and>
     (px = [] \<and> (base = 0 \<or> base = 16) \<and> cs = [0x30] \<longrightarrow> t \<noteq> 0x78 \<and> t \<noteq> 0x58) \<and>
     numeral_in (base_of base px (hd (cs @ [t]))) cs \<and> no_digit (base_of base px (hd (cs @ [t]))) t \<and>
     (sg = [] \<and> px = [] \<and> cs = [] \<longrightarrow> \<not> isspace t \<and> t \<noteq> 0x2d \<and> t \<noteq> 0x2b)"

lemma char_at_append: "char_at (xs @ c # ys) (length xs) = Some c"
  by (simp add: char_at_def)

lemma digit_x: "digit_value 0x30 = Some 0" "digit_value 0x78 = Some 33" "digit_value 0x58 = Some 33"
  by (simp_all add: digit_value_def class_ranges)

text \<open>The first character behind the sign, and whether a prefix follows.\<close>

lemma prefix_char:
  assumes "number_text base ws sg px cs t"
  obtains c y where "px @ cs @ t # r = c # y" "char_at (xs @ px @ cs @ t # r) (length xs) = Some c"
    "sg = [] \<Longrightarrow> \<not> isspace c \<and> c \<noteq> 0x2d \<and> c \<noteq> 0x2b"
    "(if (base = 0 \<or> base = 16) \<and> c = 0x30 then char_at (xs @ px @ cs @ t # r) (length xs + 1) else Some 0) =
      Some (if (base = 0 \<or> base = 16) \<and> c = 0x30 then hd (tl (px @ cs @ t # r)) else 0)"
    "(if (base = 0 \<or> base = 16) \<and> c = 0x30 then hd (tl (px @ cs @ t # r)) else 0) \<in> {0x78, 0x58} \<longleftrightarrow> px \<noteq> []"
proof -
  obtain c y where cy: "px @ cs @ t # r = c # y" by (cases "px @ cs @ t # r") auto
  have two: "y \<noteq> []" if "(base = 0 \<or> base = 16) \<and> c = 0x30"
  proof (cases "px = [] \<and> cs = []")
    case True
    then have "c = t" using cy by simp
    then show ?thesis using assms that True by (auto simp: number_text_def no_digit_def base_of_def digit_x)
  next
    case False
    then show ?thesis using cy by (cases px; cases cs) auto
  qed
  have ch: "char_at (xs @ c # y) (length xs + 1) = Some (hd y)" if "y \<noteq> []"
    using that by (cases y) (auto simp: char_at_def nth_append)
  show thesis
  proof (rule that [OF cy])
    show "char_at (xs @ px @ cs @ t # r) (length xs) = Some c" by (simp only: cy char_at_append)
    show "(if (base = 0 \<or> base = 16) \<and> c = 0x30 then char_at (xs @ px @ cs @ t # r) (length xs + 1) else Some 0) =
        Some (if (base = 0 \<or> base = 16) \<and> c = 0x30 then hd (tl (px @ cs @ t # r)) else 0)"
      unfolding cy using two ch by auto
    show "\<not> isspace c \<and> c \<noteq> 0x2d \<and> c \<noteq> 0x2b" if sg: "sg = []"
    proof (cases px)
      case Nil
      then show ?thesis
        using assms sg cy digit_not_special [of c] by (cases cs) (auto simp: number_text_def numeral_in_def)
    next
      case (Cons a l)
      then show ?thesis using assms cy digit_not_special [OF digit_x(1)] by (auto simp: number_text_def)
    qed
    show "(if (base = 0 \<or> base = 16) \<and> c = 0x30 then hd (tl (px @ cs @ t # r)) else 0) \<in> {0x78, 0x58} \<longleftrightarrow> px \<noteq> []"
    proof (cases "px = []")
      case False
      then show ?thesis using assms cy by (auto simp: number_text_def)
    next
      case True
      have "hd y \<noteq> 0x78 \<and> hd y \<noteq> 0x58" if b: "base = 0 \<or> base = 16" "c = 0x30"
      proof (cases cs)
        case Nil
        then show ?thesis using assms cy b True by (auto simp: number_text_def no_digit_def base_of_def digit_x)
      next
        case (Cons a l)
        then show ?thesis using assms cy b True
          by (cases l) (auto simp: number_text_def numeral_in_def base_of_def digit_x)
      qed
      then show ?thesis using True cy by auto
    qed
  qed
qed

lemma strtoul_number:
  assumes "number_text base ws sg px cs t"
  shows "strtoul (ws @ sg @ px @ cs @ t # r) base =
    (let n = horner (unat (base_of base px (hd (cs @ [t])))) 0 cs in
     Some (if 2 ^ 32 \<le> n then 0xffffffff else if sg = [0x2d] then - of_nat n else of_nat n,
       if cs = [] then 0 else length ws + length sg + length px + length cs))"
proof -
  let ?b = "base_of base px (hd (cs @ [t]))" and ?xs = "ws @ sg" and ?s = "ws @ sg @ px @ cs @ t # r"
  obtain c y where p: "px @ cs @ t # r = c # y" "char_at (?xs @ px @ cs @ t # r) (length ?xs) = Some c"
    "sg = [] \<Longrightarrow> \<not> isspace c \<and> c \<noteq> 0x2d \<and> c \<noteq> 0x2b"
    "(if (base = 0 \<or> base = 16) \<and> c = 0x30 then char_at (?xs @ px @ cs @ t # r) (length ?xs + 1) else Some 0) =
      Some (if (base = 0 \<or> base = 16) \<and> c = 0x30 then hd (tl (px @ cs @ t # r)) else 0)"
    "(if (base = 0 \<or> base = 16) \<and> c = 0x30 then hd (tl (px @ cs @ t # r)) else 0) \<in> {0x78, 0x58} \<longleftrightarrow> px \<noteq> []"
    by (rule prefix_char [OF assms, of r ?xs], rule that)
  have sg: "sg \<in> {[], [0x2d], [0x2b]}" and ws: "\<forall>c \<in> set ws. isspace c" using assms by (auto simp: number_text_def)
  have px: "px \<noteq> [] \<Longrightarrow> length px = 2" using assms by (auto simp: number_text_def)
  obtain c0 y0 where c0: "sg @ px @ cs @ t # r = c0 # y0" "\<not> isspace c0"
      "c0 = 0x2d \<longleftrightarrow> sg = [0x2d]" "c0 = 0x2d \<or> c0 = 0x2b \<longleftrightarrow> sg \<noteq> []"
    using sg p(1,3) by (auto simp: class_ranges)
  have tw: "takeWhile isspace ?s = ws" unfolding c0(1) using ws c0(2) by (simp add: takeWhile_tail)
  have ch0: "char_at ?s (length ws) = Some c0" unfolding c0(1) by (rule char_at_append)
  have len: "(if c0 = 0x2d \<or> c0 = 0x2b then length ws + 1 else length ws) = length ?xs"
    unfolding c0(4) using sg by auto
  have last: "char_at ?s (length (?xs @ px)) = Some (hd (cs @ [t]))" "drop (length (?xs @ px)) ?s = cs @ t # r"
    by (cases cs; simp add: char_at_def nth_append) simp
  have b: "(if (if px \<noteq> [] then 16 else base) = 0 then if hd (cs @ [t]) = 0x30 then 8 else 10 else if px \<noteq> [] then 16 else base) = ?b"
    by (simp add: base_of_def)
  obtain v where
    v: "strtoul_loop ?b (cs @ t # r) 0 0 (length (?xs @ px)) =
      Some (if (0 :: int) < 0 \<or> 2 ^ 32 \<le> horner (unat ?b) (unat (0 :: u32)) cs then (v, if cs = [] then 0 else - 1, length (?xs @ px) + length cs)
        else (of_nat (horner (unat ?b) (unat (0 :: u32)) cs), if cs = [] then 0 else 1, length (?xs @ px) + length cs))"
    using strtoul_loop_value [of ?b cs t r 0 0 "length (?xs @ px)"] assms by (auto simp: number_text_def no_digit_def)
  have pos: "(if px \<noteq> [] then length ?xs + 2 else length ?xs) = length (?xs @ px)" using px by auto
  have hex: "\<And>x :: u8. x = 0x78 \<or> x = 0x58 \<longleftrightarrow> x \<in> {0x78, 0x58}" by auto
  have s: "?s = ?xs @ px @ cs @ t # r" by simp
  show ?thesis
    unfolding strtoul_def Let_def tw ch0 bind.bind_lunit len
    unfolding s p(2) bind.bind_lunit p(4) hex p(5) pos
    unfolding s [symmetric] last bind.bind_lunit b v by (cases "cs = []") (auto simp: c0(3))
qed

lemma not_zero: "\<not> isspace 0" "digit_value 0 = None"
  by (simp_all add: digit_value_def class_ranges)

lemma split_at:
  assumes "0 \<in> set s" "\<not> P 0"
  obtains xs c r where "s = xs @ c # r" "\<forall>x \<in> set xs. P x" "\<not> P c" "0 \<in> set (c # r)"
proof -
  have "0 \<notin> set (takeWhile P s)" using assms(2) set_takeWhileD [of 0 P s] by auto
  moreover have "set s = set (takeWhile P s) \<union> set (dropWhile P s)" by (metis set_append takeWhile_dropWhile_id)
  ultimately have z: "0 \<in> set (dropWhile P s)" using assms(1) by auto
  then obtain c r where r: "dropWhile P s = c # r" by (cases "dropWhile P s") auto
  have "\<not> P c" using r by (metis dropWhile_eq_Cons_conv)
  moreover have "s = takeWhile P s @ c # r" using r by (metis takeWhile_dropWhile_id)
  ultimately show thesis using that [of "takeWhile P s" c r] z r set_takeWhileD by fastforce
qed

lemma number_text_exists:
  assumes "0 \<in> set s"
  shows "\<exists>ws sg px cs t r. s = ws @ sg @ px @ cs @ t # r \<and> number_text base ws sg px cs t"
proof -
  obtain ws c0 r0 where ws: "s = ws @ c0 # r0" "\<forall>x \<in> set ws. isspace x" "\<not> isspace c0" "0 \<in> set (c0 # r0)"
    by (rule split_at [of s isspace, OF assms not_zero(1)]) (rule that)
  define sg where "sg = (if c0 = 0x2d \<or> c0 = 0x2b then [c0] else [])"
  define r1 where "r1 = (if c0 = 0x2d \<or> c0 = 0x2b then r0 else c0 # r0)"
  have r1: "c0 # r0 = sg @ r1" "0 \<in> set r1" "sg \<in> {[], [0x2d], [0x2b]}" "sg = [] \<Longrightarrow> hd r1 = c0 \<and> c0 \<noteq> 0x2d \<and> c0 \<noteq> 0x2b"
    using ws(4) by (auto simp: sg_def r1_def)
  define px where "px = (if (base = 0 \<or> base = 16) \<and> take 2 r1 \<in> {[0x30, 0x78], [0x30, 0x58]} then take 2 r1 else [])"
  define r2 where "r2 = drop (length px) r1"
  have px: "px \<in> {[], [0x30, 0x78], [0x30, 0x58]}" "px \<noteq> [] \<Longrightarrow> base = 0 \<or> base = 16"
    by (auto simp: px_def split: if_splits)
  have "take (length px) r1 = px" by (simp add: px_def min_def)
  then have r2: "r1 = px @ r2" by (metis r2_def append_take_drop_id)
  have z2: "0 \<in> set r2" using r1(2) px(1) unfolding r2 by auto
  define b where "b = base_of base px (hd r2)"
  obtain cs t r where cs: "r2 = cs @ t # r" "\<forall>x \<in> set cs. \<not> no_digit b x" "\<not> \<not> no_digit b t"
    by (rule split_at [of r2 "\<lambda>x. \<not> no_digit b x", OF z2]) (auto simp: no_digit_def not_zero intro: that)
  have hd: "hd r2 = hd (cs @ [t])" unfolding cs(1) by (cases cs) auto
  have num: "numeral_in b cs" using cs(2) by (auto simp: numeral_in_def no_digit_def not_le)
  have hex: "t \<noteq> 0x78 \<and> t \<noteq> 0x58" if "px = []" "base = 0 \<or> base = 16" "cs = [0x30]"
  proof -
    have "take 2 r1 = [0x30, t]" using r2 cs(1) that by simp
    then show ?thesis using that(1,2) by (auto simp: px_def)
  qed
  have first: "\<not> isspace t \<and> t \<noteq> 0x2d \<and> t \<noteq> 0x2b" if "sg = []" "px = []" "cs = []"
    using r1(4) [OF that(1)] ws(3) r2 cs(1) that by simp
  have "px = [] \<or> (base = 0 \<or> base = 16) \<and> px \<in> {[0x30, 0x78], [0x30, 0x58]}" using px by blast
  then have "number_text base ws sg px cs t"
    unfolding number_text_def hd [symmetric] b_def [symmetric] using ws(2) r1(3) cs(3) num hex first by blast
  moreover have "s = ws @ sg @ px @ cs @ t # r" using ws(1) r1(1) r2 cs(1) by simp
  ultimately show ?thesis by blast
qed

text \<open>
  C33: \<open>strtoul\<close> reads numbers as documented, for every base the program uses and every text that ends with a zero
  byte: such a text consists of blanks, an optional sign, an optional prefix \<open>0x\<close> or \<open>0X\<close> (base 0 or 16), digits
  and a character that is no digit of the base, where base 0 means 16 with the prefix, 8 with a leading
  zero and 10 otherwise. \<open>strtoul\<close> ends with the number that the digits denote, negated modulo 2^32 behind
  a minus sign, or with \<open>ULONG_MAX\<close> when the digits denote a number that does not fit into 32 bits, and with the
  position behind the digits, or the start of the text when there are none.
\<close>

theorem strtoul_value:
  "(0 \<in> set s \<longrightarrow> (\<exists>ws sg px cs t r. s = ws @ sg @ px @ cs @ t # r \<and> number_text base ws sg px cs t)) \<and>
   (number_text base ws sg px cs t \<longrightarrow> strtoul (ws @ sg @ px @ cs @ t # r) base =
     (let n = horner (unat (base_of base px (hd (cs @ [t])))) 0 cs in
      Some (if 2 ^ 32 \<le> n then 0xffffffff else if sg = [0x2d] then - of_nat n else of_nat n,
        if cs = [] then 0 else length ws + length sg + length px + length cs)))"
  using number_text_exists strtoul_number by blast

text \<open>The number of the serial port, a rate, a mode in octal with a sign, and one number too large.\<close>

theorem strtoul_value_witness:
  "strtoul (str ''0x3f8,'') 0 = Some (0x3f8, 5) \<and> strtoul (str ''115200,8n1'') 10 = Some (115200, 6) \<and>
   strtoul (str '' -017'') 0 = Some (- 15, 5) \<and> strtoul (str ''4294967296'') 0 = Some (0xffffffff, 10)"
proof -
  have s: "str ''0x3f8,'' = [] @ [] @ [0x30, 0x78] @ [0x33, 0x66, 0x38] @ 0x2c # [0]"
    "str ''115200,8n1'' = [] @ [] @ [] @ [0x31, 0x31, 0x35, 0x32, 0x30, 0x30] @ 0x2c # [0x38, 0x6e, 0x31, 0]"
    "str '' -017'' = [0x20] @ [0x2d] @ [] @ [0x30, 0x31, 0x37] @ 0 # []"
    "str ''4294967296'' = [] @ [] @ [] @ [0x34, 0x32, 0x39, 0x34, 0x39, 0x36, 0x37, 0x32, 0x39, 0x36] @ 0 # []"
    by (simp_all add: str_def)
  have n: "number_text 0 [] [] [0x30, 0x78] [0x33, 0x66, 0x38] 0x2c"
    "number_text 10 [] [] [] [0x31, 0x31, 0x35, 0x32, 0x30, 0x30] 0x2c"
    "number_text 0 [0x20] [0x2d] [] [0x30, 0x31, 0x37] 0"
    "number_text 0 [] [] [] [0x34, 0x32, 0x39, 0x34, 0x39, 0x36, 0x37, 0x32, 0x39, 0x36] 0"
    by (simp_all add: number_text_def numeral_in_def no_digit_def base_of_def digit_value_def class_ranges)
  note value_of = mp [OF conjunct2 [OF strtoul_value]]
  show ?thesis unfolding s
    using value_of [OF n(1), of "[0]"] value_of [OF n(2), of "[0x38, 0x6e, 0x31, 0]"] value_of [OF n(3), of "[]"] value_of [OF n(4), of "[]"]
    by (simp add: base_of_def digit_value_def class_ranges)
qed

section \<open>The copy of a string\<close>

lemma strncpy_copy_string:
  assumes "bytes_at m src (Suc (length cs)) = cs @ [0]" "0 \<notin> set cs" "length cs < n"
    and "footprint dest (length cs) \<inter> footprint src (Suc (length cs)) = {}"
  shows "strncpy_copy dest src n m = (dest + of_nat (length cs), of_nat (n - 1 - length cs), poke dest cs m)"
  using assms
proof (induction cs arbitrary: dest src n m)
  case Nil
  then show ?case by (cases n) (auto simp: bytes_at_def)
next
  case (Cons c cs)
  obtain n' where n: "n = Suc n'" using Cons.prems(3) by (cases n) auto
  have m: "m src = c" "bytes_at m (src + 1) (Suc (length cs)) = cs @ [0]" using Cons.prems(1) by (simp_all add: bytes_at_Suc)
  have nd: "dest \<notin> footprint (src + 1) (Suc (length cs))" using Cons.prems(4) by (auto simp: footprint_Suc)
  have b: "bytes_at (m(dest := c)) (src + 1) (Suc (length cs)) = cs @ [0]"
    using m(2) nd by (subst bytes_at_cong [of _ _ _ m]) auto
  have "strncpy_copy (dest + 1) (src + 1) n' (m(dest := c)) =
      (dest + 1 + of_nat (length cs), of_nat (n' - 1 - length cs), poke (dest + 1) cs (m(dest := c)))"
    by (rule Cons.IH [OF b]) (use Cons.prems n in \<open>auto simp: footprint_Suc\<close>)
  then show ?case using Cons.prems n m(1) by (simp add: add.assoc)
qed

lemma memset_loop_poke: "memset_loop n a v m = poke a (replicate n v) m"
  by (induction n arbitrary: a m) simp_all

text \<open>\<open>strncpy_into\<close> is what \<open>strncpy\<close> does to an object in memory.\<close>

lemma strncpy_into_strncpy:
  assumes "strncpy_into dest src num = Some r" "bytes_at m s (length src) = src" "num < 2 ^ 32"
    and "footprint d (length dest) \<inter> footprint s (length src) = {}"
  shows "\<exists>bs. snd (strncpy d s (of_nat num) m) = poke d bs m \<and> r = splice dest 0 bs"
proof -
  define cs where "cs = takeWhile (\<lambda>c. c \<noteq> 0) src"
  have k: "length cs < num" "length cs < length src" "num - 1 \<le> length dest"
    and r: "r = splice dest 0 (cs @ replicate (num - 1 - length cs) 0)"
    using assms(1) by (auto simp: strncpy_into_def Let_def cs_def takeWhile_eq_take [symmetric] split: if_splits)
  have "src ! length cs = 0" using nth_length_takeWhile [of "\<lambda>c. c \<noteq> 0" src] k(2) by (simp add: cs_def)
  then have "take (Suc (length cs)) src = cs @ [0]"
    using k(2) by (simp add: take_Suc_conv_app_nth cs_def takeWhile_eq_take [symmetric])
  moreover have "take (Suc (length cs)) (bytes_at m s (length src)) = bytes_at m s (Suc (length cs))"
    using k(2) by (simp add: bytes_at_def take_map del: upt_Suc)
  ultimately have b: "bytes_at m s (Suc (length cs)) = cs @ [0]" using assms(2) by simp
  have "length cs \<le> length dest" using k by linarith
  then have "footprint d (length cs) \<inter> footprint s (Suc (length cs)) = {}"
    using footprint_take [of "length cs" "length dest" d] footprint_take [of "Suc (length cs)" "length src" s] assms(4) k
    by (fastforce simp: disjoint_iff)
  then have "strncpy_copy d s num m = (d + of_nat (length cs), of_nat (num - 1 - length cs), poke d cs m)"
    by (intro strncpy_copy_string b k(1)) (auto simp: cs_def dest: set_takeWhileD)
  then have "snd (strncpy d s (of_nat num) m) = poke d (cs @ replicate (num - 1 - length cs) 0) m"
    using assms(3) k(1) by (simp add: strncpy_def memset_loop_poke poke_append unat_of_nat take_bit_nat_eq_self del: of_nat_diff)
  then show ?thesis using r by blast
qed

section \<open>Options are never set\<close>

lemma index_found: "index s ch = Some (Some e) \<Longrightarrow> e < length s \<and> s ! e = ch \<and> (\<forall>i < e. s ! i \<noteq> 0)"
proof (induction s ch arbitrary: e rule: index.induct)
  case (2 c s ch)
  show ?case
  proof (cases "c = ch")
    case False
    with 2 obtain e' where "index s ch = Some (Some e')" "e = Suc e'" "c \<noteq> 0" by (auto split: if_splits)
    with 2(1) [of e'] False show ?thesis by (auto simp: less_Suc_eq_0_disj)
  qed (use 2 in auto)
qed simp

lemma strLen_found: "strLen s = Some n \<Longrightarrow> n < length s \<and> s ! n = 0 \<and> (\<forall>i < n. s ! i \<noteq> 0)"
proof (induction s arbitrary: n)
  case (Cons c s)
  show ?case
  proof (cases "c = 0")
    case False
    with Cons obtain n' where "strLen s = Some n'" "n = Suc n'" by auto
    with Cons(1) [of n'] False show ?thesis by (auto simp: less_Suc_eq_0_disj)
  qed (use Cons in auto)
qed simp

lemma option_end_found: "option_end s = Some e \<Longrightarrow> e < length s \<and> (\<forall>i < e. s ! i \<noteq> 0)"
  using index_found [of s "0x20"] strLen_found [of s] by (auto simp: option_end_def bind_eq_Some_conv split: option.splits)

lemma strncpy_into_full:
  assumes "num \<le> length src" "\<And>i. i < num \<Longrightarrow> src ! i \<noteq> 0"
  shows "strncpy_into dest src num = None"
proof -
  have "num \<le> length (takeWhile (\<lambda>c. c \<noteq> 0) src)"
  proof (rule ccontr)
    assume "\<not> ?thesis"
    then have k: "length (takeWhile (\<lambda>c. c \<noteq> 0) src) < num" by simp
    then have "src ! length (takeWhile (\<lambda>c. c \<noteq> 0) src) = 0"
      using nth_length_takeWhile [of "\<lambda>c. c \<noteq> 0" src] assms(1) by simp
    then show False using assms(2) [OF k] by simp
  qed
  then show ?thesis by (simp add: strncpy_into_def Let_def)
qed

text \<open>Where it gives no value because the characters are not terminated, \<open>strncpy\<close> clears memory far outside the object.\<close>

lemma strncpy_into_clears:
  assumes "num < 2 ^ 32" "0 < num" "num \<le> length src" "\<And>i. i < num \<Longrightarrow> src ! i \<noteq> 0" "bytes_at m s (length src) = src"
    and "footprint d num \<inter> footprint s num = {}" "a \<noteq> d + of_nat num - 1"
  shows "strncpy_into dest src num = None \<and> snd (strncpy d s (of_nat num) m) a = 0"
proof (rule conjI)
  show "strncpy_into dest src num = None" by (rule strncpy_into_full [OF assms(3,4)])
  have n: "unat (of_nat num :: u32) = num" by (rule unat_of_nat_u32 [OF assms(1)])
  have c: "m (s + of_nat i) = src ! i" if "i < num" for i
  proof -
    have "bytes_at m s (length src) ! i = m (s + of_nat i)" using that assms(3) by (simp add: bytes_at_def)
    then show ?thesis by (simp add: assms(5))
  qed
  have far: "num \<le> unat (s + of_nat i - d)" if "i < num" for i
  proof (rule ccontr)
    assume "\<not> ?thesis"
    then have "d + of_nat (unat (s + of_nat i - d)) \<in> footprint d num" unfolding footprint_def by (intro imageI) simp
    moreover have "s + of_nat i \<in> footprint s num" using that by (auto simp: footprint_def)
    ultimately show False using assms(6) by auto
  qed
  show "snd (strncpy d s (of_nat num) m) a = 0"
    by (rule strncpy_clears_memory) (use assms(2,4,7) c far n in \<open>auto simp: word_less_nat_alt\<close>)
qed

lemma set_option_unchanged:
  "set_option options vals o' k v n = Some vals' \<Longrightarrow> (\<And>dest. strncpy_into dest v n = None) \<Longrightarrow> vals' = vals"
proof (induction options vals o' k v n arbitrary: vals' rule: set_option.induct)
  case (1 name d opts x vals o' k v n)
  from "1.prems"(1) obtain r where r: "strncmp name o' k = Some r" by (auto simp: bind_eq_Some_conv)
  show ?case
  proof (cases "r = 0")
    case True
    then show ?thesis using "1.prems" r by simp
  next
    case False
    then obtain vs where vs: "set_option opts vals o' k v n = Some vs" "vals' = x # vs" using "1.prems"(1) r by auto
    show ?thesis using "1.IH" [OF r False vs(1) "1.prems"(2)] vs(2) by simp
  qed
qed auto

lemma parse_option_unchanged:
  assumes "parse_option options s vals = Some (e, vals')"
  shows "vals' = vals"
proof -
  have e: "option_end s = Some e" by (rule parse_option_end [OF assms])
  obtain eq where eq: "index s 0x3d = Some eq" using assms by (auto simp: parse_option_def bind_eq_Some_conv)
  show ?thesis
  proof (cases eq)
    case None
    then show ?thesis using assms e eq by (simp add: parse_option_def)
  next
    case (Some i)
    define n where "n = min (e - (i + 1)) 63"
    have full: "strncpy_into dest (drop (i + 1) s) n = None" for dest
      by (rule strncpy_into_full) (use option_end_found [OF e] in \<open>auto simp: n_def\<close>)
    have "vals' = vals \<or> set_option options vals s i (drop (i + 1) s) n = Some vals'"
      using assms e eq Some unfolding parse_option_def n_def Let_def by (auto simp: bind_eq_Some_conv split: if_splits)
    then show ?thesis using set_option_unchanged [OF _ full] by blast
  qed
qed

text \<open>
  No value of the command line reaches the table of options. When no copy leaves an entry of the table (\<open>Some\<close>), the table holds the default
  values; a line that gives a known option a value is the other case, in which the copy runs on and clears
  memory (\<open>strncpy_into_clears\<close>).
\<close>

lemma cmdline_parse_only_defaults:
  assumes "cmdline_parse cmdline options vals = Some vals'"
  shows "copy_defaults options vals = Some vals'"
proof -
  have "parse_loop options p vs = Some vs' \<Longrightarrow> vs' = vs" for p vs vs'
  proof (induction options p vs arbitrary: vs' rule: parse_loop.induct)
    case (1 options p vs)
    from "1.prems" show ?case
      by (subst (asm) parse_loop.simps)
        (auto split: list.splits if_splits option.splits dest: "1.IH" parse_option_unchanged)
  qed
  then show ?thesis using assms by (auto simp: cmdline_parse_def bind_eq_Some_conv split: option.splits)
qed

lemma cmdline_parse_only_defaults_witness:
  "cmdline_parse (Some (str ''quiet'')) g_linux_cmdline_options [replicate 64 0, replicate 64 0] = Some [replicate 64 0, replicate 64 0] \<and>
   cmdline_parse (Some (str ''vga=ext'')) g_linux_cmdline_options [replicate 64 0, replicate 64 0] = None \<and>
   copy_defaults g_linux_cmdline_options [replicate 64 0, replicate 64 0] = Some [replicate 64 0, replicate 64 0]"
proof -
  have "cmdline_parse (Some (str ''quiet'')) g_linux_cmdline_options [replicate 64 0, replicate 64 0] = Some [replicate 64 0, replicate 64 0]"
    "cmdline_parse (Some (str ''vga=ext'')) g_linux_cmdline_options [replicate 64 0, replicate 64 0] = None"
    by code_simp+
  then show ?thesis using cmdline_parse_only_defaults by blast
qed

end
