(* ===== verification/Linux.thy ===== *)
theory Linux
  imports Cmdline
begin

text \<open>
  Starting a Linux kernel after the Intel launch (\<^verbatim>\<open>src/arch-intel/linux.c\<close>, \<open>launch_kernel\<close> of
  \<^verbatim>\<open>src/arch-intel/loader.c\<close>): where kernel, initial ramdisk, command line and boot parameters go in the
  physical memory, and what the boot parameters say.
\<close>

section \<open>Structures\<close>

text \<open>The addresses of the members of \<open>linux_kernel_header_t\<close> that the loader reads or writes.\<close>

record linux_kernel_header_t =
  setup_sects :: u32
  vid_mode :: u32
  hdr_magic :: u32
  hdr_version :: u32
  type_of_loader :: u32
  loadflags :: u32
  code32_start :: u32
  ramdisk_image :: u32
  ramdisk_size :: u32
  heap_end_ptr :: u32
  cmd_line_ptr :: u32
  initrd_addr_max :: u32
  kernel_alignment :: u32
  relocatable_kernel :: u32

definition hdr_at :: "u32 \<Rightarrow> linux_kernel_header_t" where
  "hdr_at a = \<lparr>setup_sects = a, vid_mode = a + 9, hdr_magic = a + 17, hdr_version = a + 21, type_of_loader = a + 31,
     loadflags = a + 32, code32_start = a + 35, ramdisk_image = a + 39, ramdisk_size = a + 43, heap_end_ptr = a + 51,
     cmd_line_ptr = a + 55, initrd_addr_max = a + 59, kernel_alignment = a + 63, relocatable_kernel = a + 67\<rparr>"

definition sizeof_linux_kernel_header_t :: nat where "sizeof_linux_kernel_header_t = 119"

text \<open>The offsets in \<open>boot_params_t\<close>.\<close>

abbreviation (input) bp_tboot_shared_addr :: u32 where "bp_tboot_shared_addr \<equiv> 0x58"
abbreviation (input) bp_efi_info :: u32 where "bp_efi_info \<equiv> 0x1c0"
abbreviation (input) bp_e820_entries :: u32 where "bp_e820_entries \<equiv> 0x1e8"
abbreviation (input) bp_hdr :: u32 where "bp_hdr \<equiv> 0x1f1"
abbreviation (input) bp_e820_map :: u32 where "bp_e820_map \<equiv> 0x2d0"

definition sizeof_boot_params_t :: u32 where "sizeof_boot_params_t = 0x1000"

definition LEGACY_REAL_START :: u32 where "LEGACY_REAL_START = 0x90000"
definition BZIMAGE_PROTECTED_START :: u32 where "BZIMAGE_PROTECTED_START = 0x100000"
definition KERNEL_CMDLINE_OFFSET :: u32 where "KERNEL_CMDLINE_OFFSET = 0x8d00"
definition REAL_END_OFFSET :: u32 where "REAL_END_OFFSET = 0x9100"
definition TBOOT_KERNEL_CMDLINE_ADDR :: u32 where "TBOOT_KERNEL_CMDLINE_ADDR = TBOOT_E820_COPY_ADDR + 0x1800"
definition TBOOT_KERNEL_CMDLINE_SIZE :: u32 where "TBOOT_KERNEL_CMDLINE_SIZE = 0x400"

definition PAGE_DOWN :: "u32 \<Rightarrow> u32" where "PAGE_DOWN p = p AND NOT 0xfff"

definition get_tboot_mem_end :: "symbols \<Rightarrow> u32" where "get_tboot_mem_end sy = PAGE_UP (sym_end sy)"

text \<open>\<open>return false\<close> with a message, and going on with a result.\<close>

definition refuse :: "string \<Rightarrow> ('d intel, 'a option) exec" where
  "refuse txt = bindE (tell (Info txt)) (\<lambda>_. returnE None)"

definition onE :: "('d intel, 'a option) exec \<Rightarrow> ('a \<Rightarrow> ('d intel, 'b option) exec) \<Rightarrow> ('d intel, 'b option) exec" where
  "onE m k = bindE m (\<lambda>r. case r of None \<Rightarrow> returnE None | Some a \<Rightarrow> k a)"

definition lctxE :: "('d intel, loader_ctx option) exec" where
  "lctxE = bindE (getE g_ldr_ctx) (\<lambda>c. returnE (Some c))"

section \<open>The checks of the image\<close>

definition check_image :: "u32 \<Rightarrow> u32 \<Rightarrow> ('d intel, linux_kernel_header_t option) exec" where
  "check_image linux_image linux_size =
     (if linux_image = 0 then refuse ''Error: Linux kernel image is zero.''
      else if linux_size = 0 then refuse ''Error: Linux kernel size is zero.''
      else if linux_size < of_nat sizeof_linux_kernel_header_t then refuse ''Error: Linux kernel size is too small.''
      else if linux_image + 0x1f1 = 0 then refuse ''Error: Linux kernel header is zero.''
      else returnE (Some (hdr_at (linux_image + 0x1f1))))"

definition check_header :: "linux_kernel_header_t \<Rightarrow> ('d intel, unit option) exec" where
  "check_header hdr =
     bindE (setmemE (\<lambda>m. if m (setup_sects hdr) = 0 then st8 (setup_sects hdr) 4 m else m)) (\<lambda>_.
     bindE memE (\<lambda>m.
     if m (setup_sects hdr) > 64 then refuse ''Error: Linux setup sectors exceed maximum limitation 64.''
     else bindE lctxE (\<lambda>ctx.
     bindE (get_cmdline ctx) (\<lambda>cmdline.
     bindE (linux_parse_cmdline cmdline) (\<lambda>_.
     bindE get_linux_vga (\<lambda>vga.
     bindE (case vga of None \<Rightarrow> returnE () | Some v \<Rightarrow> setmemE (st16 (vid_mode hdr) (ucast v))) (\<lambda>_.
     bindE memE (\<lambda>m.
     if ld32 m (hdr_magic hdr) \<noteq> 0x53726448 then refuse ''Error: Old kernel (< 2.6.20) is not supported by tboot.''
     else if ld16 m (hdr_version hdr) < 0x0205 then refuse ''Error: Old kernel (<2.6.20) is not supported by tboot.''
     else bindE (setmemE (st8 (type_of_loader hdr) 0x71)) (\<lambda>_.
          bindE (setmemE (\<lambda>m. st8 (loadflags hdr) (m (loadflags hdr) OR 0x80) m)) (\<lambda>_.
          bindE (setmemE (st16 (heap_end_ptr hdr) (ucast (KERNEL_CMDLINE_OFFSET - 0x200)))) (\<lambda>_.
          returnE (Some ()))))))))))))"

section \<open>The place of the initial ramdisk\<close>

text \<open>The address, from the region of memory that was found, or the message of a failure.\<close>

definition initrd_place :: "u32 \<Rightarrow> u32 \<Rightarrow> u32 \<Rightarrow> u32 \<Rightarrow> u64 \<times> u64 \<Rightarrow> string + u32" where
  "initrd_place linux_image linux_size initrd_size addr_max ram =
     (let (max_ram_base, max_ram_size) = ram in
      if max_ram_size = 0 then Inl ''not enough RAM for initrd''
      else if ucast initrd_size > max_ram_size then Inl ''initrd_size is too large''
      else if max_ram_base > 0xffffffff then Inl ''max_ram_base is too high''
      else if plus_overflow_u32 (ucast max_ram_base) (ucast (max_ram_size - ucast initrd_size)) then Inl ''max_ram overflows''
      else let initrd_base = ucast ((max_ram_base + max_ram_size - ucast initrd_size) AND NOT 0xfff) in
        if initrd_base + initrd_size > addr_max \<and> addr_max < initrd_size then Inl ''initrd_addr_max is too small''
        else let initrd_base = (if initrd_base + initrd_size > addr_max then PAGE_DOWN (addr_max - initrd_size) else initrd_base) in
          if initrd_base < linux_image + linux_size \<and> linux_image < initrd_base + initrd_size
          then let initrd_base = PAGE_DOWN (linux_image - initrd_size) in
            if ucast initrd_base < max_ram_base then Inl ''no available memory for initrd'' else Inr initrd_base
          else Inr initrd_base)"

text \<open>\<open>mem_limit\<close> has no value when \<open>get_linux_mem\<close> does not write it.\<close>

definition place_initrd :: "u32 \<Rightarrow> u32 \<Rightarrow> u32 \<Rightarrow> u32 \<Rightarrow> linux_kernel_header_t \<Rightarrow> ('d intel, u32 option) exec" where
  "place_initrd linux_image linux_size initrd_image initrd_size hdr =
     (if initrd_size > 0
      then bindE get_linux_mem (\<lambda>(_, mem). case mem of
             None \<Rightarrow> stopE Fault
           | Some mem_limit \<Rightarrow>
               let mem_limit = (if mem_limit > 0x100000000 \<or> mem_limit = 0 then 0x100000000 else mem_limit) in
               bindE (getE g_e820) (\<lambda>e.
               bindE memE (\<lambda>m.
               case initrd_place linux_image linux_size initrd_size (ld32 m (initrd_addr_max hdr))
                      (get_highest_sized_ram (ucast initrd_size) mem_limit e) of
                 Inl txt \<Rightarrow> refuse txt
               | Inr initrd_base \<Rightarrow>
                   bindE (setmemE (memcpy_intel initrd_base initrd_image initrd_size)) (\<lambda>_. returnE (Some initrd_base)))))
      else returnE (Some initrd_image))"

section \<open>The place of the kernel\<close>

definition real_mode_place :: "('d intel, u32) exec" where
  "real_mode_place =
     bindE lctxE (\<lambda>ctx.
     bindE (have_loader_memlimits ctx) (\<lambda>b.
     bindE (if b then bindE (get_loader_mem_lower ctx) (\<lambda>lower. returnE (push_bit 10 lower - REAL_END_OFFSET))
            else returnE LEGACY_REAL_START) (\<lambda>real_mode_base.
     returnE (min (max real_mode_base (TBOOT_KERNEL_CMDLINE_ADDR + TBOOT_KERNEL_CMDLINE_SIZE)) LEGACY_REAL_START))))"

definition protected_mode_place :: "symbols \<Rightarrow> u32 \<Rightarrow> linux_kernel_header_t \<Rightarrow> ('d intel, u32 option) exec" where
  "protected_mode_place sy protected_mode_size hdr =
     bindE lctxE (\<lambda>ctx.
     bindE memE (\<lambda>m.
     if m (relocatable_kernel hdr) \<noteq> 0
     then bindE (get_loader_ctx_end ctx) (\<lambda>ldr_ctx_end.
          let base = max (get_tboot_mem_end sy) ldr_ctx_end; al = ld32 m (kernel_alignment hdr) in
          if plus_overflow_u32 base (al - 1) then refuse ''protected_mode_base overflows''
          else let base = (base + al - 1) AND NOT (al - 1) in
            bindE (setmemE (st32 (code32_start hdr) base)) (\<lambda>_. returnE (Some base)))
     else if m (loadflags hdr) AND 1 \<noteq> 0
     then if plus_overflow_u32 BZIMAGE_PROTECTED_START protected_mode_size
          then refuse ''protected_mode_base plus protected_mode_size overflows''
          else bindE (have_loader_memlimits ctx) (\<lambda>b.
               if b
               then bindE (get_loader_mem_upper ctx) (\<lambda>mem_upper.
                    if BZIMAGE_PROTECTED_START + protected_mode_size > push_bit 10 mem_upper + 0x100000
                    then refuse ''Error: Linux protected mode part exceeds mem_upper.''
                    else returnE (Some BZIMAGE_PROTECTED_START))
               else returnE (Some BZIMAGE_PROTECTED_START))
     else refuse ''Error: Linux protected mode not loaded high''))"

section \<open>Loading\<close>

text \<open>
  The header is copied to the stack before its place may be overwritten: \<open>temp_hdr\<close> are its bytes. The
  boot parameters start behind the real-mode part.
\<close>

definition load_kernel :: "u32 \<Rightarrow> u32 \<Rightarrow> u32 \<Rightarrow> u32 \<Rightarrow> u32 \<Rightarrow> ('d intel, bytes) exec" where
  "load_kernel linux_image real_mode_base real_mode_size protected_mode_base protected_mode_size =
     bindE memE (\<lambda>m.
     let temp_hdr = bytes_at m (linux_image + 0x1f1) sizeof_linux_kernel_header_t;
         cmd_line = real_mode_base + KERNEL_CMDLINE_OFFSET; size = REAL_END_OFFSET - KERNEL_CMDLINE_OFFSET;
         params = real_mode_base + real_mode_size in
     bindE (setmemE (memcpy_intel protected_mode_base (linux_image + real_mode_size) protected_mode_size)) (\<lambda>_.
     bindE (setmemE (memcpy_intel real_mode_base linux_image real_mode_size)) (\<lambda>_.
     bindE lctxE (\<lambda>ctx.
     bindE (get_cmdline ctx) (\<lambda>kernel_cmdline.
     bindE memE (\<lambda>m.
     bindE (endsE (strlen kernel_cmdline m)) (\<lambda>n.
     bindE (setmemE (memset cmd_line 0 size)) (\<lambda>_.
     bindE (setmemE (memcpy_intel cmd_line kernel_cmdline (min n (size - 1)))) (\<lambda>_.
     bindE (modifyE (\<lambda>s. s\<lparr>boot_params := params\<rparr>)) (\<lambda>_.
     bindE (setmemE (memset params 0 sizeof_boot_params_t)) (\<lambda>_.
     bindE (setmemE (poke (params + bp_hdr) temp_hdr)) (\<lambda>_.
     returnE temp_hdr))))))))))))"

section \<open>The boot parameters\<close>

definition fill_efi :: "u32 \<Rightarrow> ('d intel, unit) exec" where
  "fill_efi params =
     (let efi = params + bp_efi_info in
      bindE lctxE (\<lambda>ctx.
      bindE (setmemE (poke efi [0x45, 0x4c, 0x36, 0x34])) (\<lambda>_.
      bindE (get_loader_efi_ptr ctx) (\<lambda>r.
      bindE (case r of
               None \<Rightarrow> tell (Info ''failed to get efi system table ptr'')
             | Some (address, long_address) \<Rightarrow>
                 bindE (setmemE (st32 (efi + 4) (if long_address \<noteq> 0 then ucast (long_address AND 0xffffffff) else address))) (\<lambda>_.
                 setmemE (st32 (efi + 24) (if long_address \<noteq> 0 then ucast (drop_bit 32 long_address) else 0)))) (\<lambda>_.
      bindE (find_efi_memmap (the ctx)) (\<lambda>r.
      bindE (case r of
               None \<Rightarrow>
                 bindE (tell (Info ''failed to get EFI memory map'')) (\<lambda>_.
                 bindE (setmemE (st32 (efi + 8) 1)) (\<lambda>_.
                 bindE (setmemE (st32 (efi + 20) 0)) (\<lambda>_.
                 setmemE (st32 (efi + 16) 0))))
             | Some (descr_size, descr_vers, mmap_size, efi_mmap_addr) \<Rightarrow>
                 bindE (setmemE (st32 (efi + 8) descr_size)) (\<lambda>_.
                 bindE (setmemE (st32 (efi + 12) descr_vers)) (\<lambda>_.
                 bindE (setmemE (st32 (efi + 20) mmap_size)) (\<lambda>_.
                 bindE (setmemE (st32 (efi + 16) efi_mmap_addr)) (\<lambda>_.
                 setmemE (st32 (efi + 28) 0)))))) (\<lambda>_.
      load_framebuffer_info ctx params)))))))"

text \<open>The loop over the memory map of the boot loader; the result is the number of entries.\<close>

definition copy_entry :: "u32 \<Rightarrow> u32 \<Rightarrow> u32 \<Rightarrow> mem \<Rightarrow> mem" where
  "copy_entry params p i m =
     (let a = params + bp_e820_map + 20 * i;
          m = st64 a (combine64b (ld32 m (p + 4)) (ld32 m (p + 8))) m;
          m = st64 (a + 8) (combine64b (ld32 m (p + 12)) (ld32 m (p + 16))) m
      in st32 (a + 16) (ld32 m (p + 20)) m)"

partial_function (option) copy_entries :: "u32 \<Rightarrow> u32 \<Rightarrow> u32 \<Rightarrow> u32 \<Rightarrow> mem \<Rightarrow> (u32 \<times> mem) option" where
  "copy_entries params stop p i m =
     (if p < stop then copy_entries params stop (p + 24) (i + 1) (copy_entry params p i m) else Some (i, m))"

definition fill_e820 :: "u32 \<Rightarrow> ('d intel, unit) exec" where
  "fill_e820 params =
     bindE lctxE (\<lambda>ctx.
     bindE (have_loader_memmap ctx) (\<lambda>b.
     if \<not> b then returnE ()
     else bindE (get_loader_memmap ctx) (\<lambda>p.
          bindE (get_loader_memmap_length ctx) (\<lambda>len.
          bindE memE (\<lambda>m.
          bindE (endsE (copy_entries params (p + len) p 0 m)) (\<lambda>(i, m).
          setmemE (\<lambda>_. st8 (params + bp_e820_entries) (ucast i) m)))))))"

definition fill_screen :: "u32 \<Rightarrow> mem \<Rightarrow> mem" where
  "fill_screen params m =
     st8 (params + 1) 24 (st8 (params + 0xf) 1 (st16 (params + 0x10) 16 (st8 (params + 7) 80
       (st8 (params + 0xe) 25 (st8 (params + 6) 3 m)))))"

text \<open>The member at offset \<open>k\<close> of the copied header.\<close>

definition hdr_word :: "bytes \<Rightarrow> nat \<Rightarrow> u32" where
  "hdr_word h k = ld32 (\<lambda>a. h ! unat a) (of_nat k)"

definition expand_linux_image :: "symbols \<Rightarrow> u32 \<Rightarrow> u32 \<Rightarrow> u32 \<Rightarrow> u32 \<Rightarrow> bool \<Rightarrow> ('d intel, u32 option) exec" where
  "expand_linux_image sy linux_image linux_size initrd_image initrd_size is_measured_launch =
     onE (check_image linux_image linux_size) (\<lambda>hdr.
     onE (check_header hdr) (\<lambda>_.
     onE (place_initrd linux_image linux_size initrd_image initrd_size hdr) (\<lambda>initrd_base.
     bindE (setmemE (st32 (ramdisk_image hdr) initrd_base)) (\<lambda>_.
     bindE (setmemE (st32 (ramdisk_size hdr) initrd_size)) (\<lambda>_.
     bindE real_mode_place (\<lambda>real_mode_base.
     bindE memE (\<lambda>m.
     let real_mode_size = (ucast (m (setup_sects hdr)) + 1) * 512 in
     if real_mode_size + sizeof_boot_params_t > KERNEL_CMDLINE_OFFSET then refuse ''realmode data is too large''
     else let protected_mode_size = linux_size - real_mode_size in
       onE (protected_mode_place sy protected_mode_size hdr) (\<lambda>protected_mode_base.
       bindE (setmemE (st32 (cmd_line_ptr hdr) (real_mode_base + KERNEL_CMDLINE_OFFSET))) (\<lambda>_.
       bindE (load_kernel linux_image real_mode_base real_mode_size protected_mode_base protected_mode_size) (\<lambda>temp_hdr.
       let params = real_mode_base + real_mode_size in
       bindE lctxE (\<lambda>ctx.
       bindE (is_loader_launch_efi ctx) (\<lambda>efi.
       bindE (if efi then fill_efi params else returnE ()) (\<lambda>_.
       bindE (fill_e820 params) (\<lambda>_.
       bindE (is_loader_launch_efi ctx) (\<lambda>efi.
       bindE (if efi then returnE () else setmemE (fill_screen params)) (\<lambda>_.
       bindE (if is_measured_launch
              then setmemE (st64 (params + bp_tboot_shared_addr) (ucast (sym_tboot_shared sy))) else returnE ()) (\<lambda>_.
       returnE (Some (hdr_word temp_hdr 35)))))))))))))))))))"

section \<open>Starting the kernel\<close>

definition jump_linux_image :: "'d hw \<Rightarrow> 'd txt_hw \<Rightarrow> u32 \<Rightarrow> ('d intel, bool) exec" where
  "jump_linux_image hw tx entry_point =
     bindE (tell (Info (''load gdt'' @ nl))) (\<lambda>_.
     bindE (cpuE tx Lgdt) (\<lambda>_.
     bindE (on_world (wait hw 100)) (\<lambda>_.
     bindE (tell (Info (''jump linux'' @ nl))) (\<lambda>_.
     bindE (getE boot_params) (\<lambda>params.
     stopE (Jump_linux entry_point params))))))"

definition launch_kernel :: "'d hw \<Rightarrow> 'd txt_hw \<Rightarrow> symbols \<Rightarrow> bool \<Rightarrow> ('d intel, bool) exec" where
  "launch_kernel hw tx sy is_measured_launch =
     bindE lctxE (\<lambda>ctx.
     bindE (remove_txt_modules ctx) (\<lambda>_.
     bindE (get_module ctx 0) (\<lambda>md.
     bindE memE (\<lambda>m.
     let kernel_size = ld32 m (mod_end (module_at md)) - ld32 m (mod_start (module_at md)) in
     bindE (remove_first_module ctx) (\<lambda>kernel_image.
     if kernel_image = 0 then returnE False
     else bindE (get_module_count ctx) (\<lambda>count.
     bindE (if count = 0 then returnE (0, 0)
            else bindE (get_module ctx 0) (\<lambda>md.
                 bindE memE (\<lambda>m. returnE (ld32 m (mod_start (module_at md)),
                   ld32 m (mod_end (module_at md)) - ld32 m (mod_start (module_at md)))))) (\<lambda>(initrd_image, initrd_size).
     bindE (expand_linux_image sy kernel_image kernel_size initrd_image initrd_size is_measured_launch) (\<lambda>r.
     case r of
       None \<Rightarrow> bindE (tell (Info ''expand_linux_image FAILED!'')) (\<lambda>_. stopE Hang)
     | Some kernel_entry_point \<Rightarrow>
         bindE (tell (Info ''transfering control to kernel'')) (\<lambda>_.
         jump_linux_image hw tx kernel_entry_point)))))))))"

end
