(* ===== verification/ACPI.thy ===== *)
theory ACPI
  imports Linux
begin

text \<open>
  The tables of the firmware (\<^verbatim>\<open>src/arch-intel/acpi.c\<close>): the search for the root pointer and for a table by
  its signature, the tables of interrupt controllers and of the PCI configuration space, and the
  registers for sleeping. The structures lie in the physical memory; an address 0 is \<open>NULL\<close>.
\<close>

section \<open>Structures\<close>

text \<open>The addresses of the members of \<open>struct acpi_rsdp\<close> and \<open>struct acpi_table_header\<close>.\<close>

record acpi_rsdp =
  rsdp_signature :: u32
  rsdp_revision :: u32
  rsdp_rsdt :: u32
  rsdp_xsdt :: u32

definition rsdp_at :: "u32 \<Rightarrow> acpi_rsdp" where
  "rsdp_at a = \<lparr>rsdp_signature = a, rsdp_revision = a + 15, rsdp_rsdt = a + 16, rsdp_xsdt = a + 24\<rparr>"

definition sizeof_acpi_rsdp :: u32 where "sizeof_acpi_rsdp = 36"

record acpi_table_header =
  tbl_signature :: u32
  tbl_length :: u32

definition table_at :: "u32 \<Rightarrow> acpi_table_header" where
  "table_at a = \<lparr>tbl_signature = a, tbl_length = a + 4\<rparr>"

definition sizeof_acpi_table_header :: u32 where "sizeof_acpi_table_header = 36"

text \<open>\<open>struct acpi_madt\<close>, \<open>struct acpi_madt_ioapic\<close> and \<open>struct acpi_mcfg\<close>\<close>

record acpi_madt =
  local_apic_address :: u32
  madt_entries :: u32

definition madt_at :: "u32 \<Rightarrow> acpi_madt" where
  "madt_at a = \<lparr>local_apic_address = a + 36, madt_entries = a + 44\<rparr>"

record acpi_madt_ioapic =
  apic_type :: u32
  apic_length :: u32
  apic_address :: u32

definition ioapic_at :: "u32 \<Rightarrow> acpi_madt_ioapic" where
  "ioapic_at a = \<lparr>apic_type = a, apic_length = a + 1, apic_address = a + 4\<rparr>"

definition mcfg_base_address :: "u32 \<Rightarrow> u32" where "mcfg_base_address a = a + 44"

text \<open>The characters that \<open>memcmp\<close> compares with, without the end of the string.\<close>

definition sig :: "string \<Rightarrow> bytes" where
  "sig t = map (\<lambda>c. of_nat (of_char c)) t"

definition RSDP_SIG :: bytes where "RSDP_SIG = sig ''RSD PTR ''"
definition DMAR_SIG :: string where "DMAR_SIG = ''DMAR''"
definition MADT_SIG :: string where "MADT_SIG = ''APIC''"
definition MCFG_SIG :: string where "MCFG_SIG = ''MCFG''"

section \<open>The root pointer\<close>

text \<open>The loop over the bytes with the sum so far.\<close>

primrec checksum_loop :: "mem \<Rightarrow> nat \<Rightarrow> u32 \<Rightarrow> u8 \<Rightarrow> u8" where
  "checksum_loop m 0 start acc = acc"
| "checksum_loop m (Suc len) start acc = checksum_loop m len (start + 1) (acc + m start)"

definition verify_acpi_checksum :: "mem \<Rightarrow> u32 \<Rightarrow> u8 \<Rightarrow> bool" where
  "verify_acpi_checksum m start len \<longleftrightarrow> checksum_loop m (unat len) start 0 = 0"

text \<open>The loop over the \<open>n\<close> candidates from \<open>start\<close> on; the global \<open>rsdp\<close> is the loop's pointer.\<close>

primrec rsdp_loop :: "nat \<Rightarrow> u32 \<Rightarrow> ('d intel, bool) exec" where
  "rsdp_loop 0 start = returnE False"
| "rsdp_loop (Suc n) start =
     bindE (modifyE (\<lambda>s. s\<lparr>rsdp := start\<rparr>)) (\<lambda>_.
     bindE memE (\<lambda>m.
     if bytes_at m (rsdp_signature (rsdp_at start)) 8 = RSDP_SIG
     then if verify_acpi_checksum m start 20 then returnE True
          else bindE (tell (Info ''checksum failed.'')) (\<lambda>_. returnE False)
     else rsdp_loop n (start + 16)))"

definition find_rsdp_in_range :: "u32 \<Rightarrow> u32 \<Rightarrow> ('d intel, bool) exec" where
  "find_rsdp_in_range start fin = rsdp_loop ((unat fin - unat start + 15) div 16) start"

definition find_rsdp :: "('d intel, bool) exec" where
  "find_rsdp =
     bindE (getE rsdp) (\<lambda>p.
     if p \<noteq> 0 then bindE (tell (Info ''.'')) (\<lambda>_. returnE True)
     else bindE (find_rsdp_in_range 0 0x400) (\<lambda>b.
          if b then returnE True
          else bindE (find_rsdp_in_range 0xE0000 0x100000) (\<lambda>b.
               if b then returnE True
               else bindE (tell (Info (''can'' @ [CHR 0x27] @ ''t find RSDP'' @ nl))) (\<lambda>_.
                    bindE (modifyE (\<lambda>s. s\<lparr>rsdp := 0\<rparr>)) (\<lambda>_.
                    returnE False)))))"

definition get_rsdp :: "'d hw \<Rightarrow> ('d intel, u32) exec" where
  "get_rsdp hw =
     bindE (getE rsdp) (\<lambda>p.
     if p \<noteq> 0 then returnE p
     else bindE (tell (Info ''ERROR : RSDP not found'')) (\<lambda>_.
          bindE (on_world (wait hw 4000)) (\<lambda>_. returnE 0)))"

section \<open>Tables\<close>

text \<open>
  The loop over the pointers in a root table, of 4 or 8 bytes (\<open>wide\<close>): the first table with the
  signature, \<open>Some None\<close> at the end of the list, \<open>None\<close> when the pointer runs around the address space for
  ever.
\<close>

definition list_entry :: "bool \<Rightarrow> mem \<Rightarrow> u32 \<Rightarrow> u32" where
  "list_entry wide m curr_table = (if wide then ucast (ld64 m curr_table) else ld32 m curr_table)"

partial_function (option) table_loop :: "bool \<Rightarrow> mem \<Rightarrow> bytes \<Rightarrow> u32 \<Rightarrow> u32 \<Rightarrow> u32 option option" where
  "table_loop wide m name fin curr_table =
     (if curr_table < fin
      then if bytes_at m (tbl_signature (table_at (list_entry wide m curr_table))) 4 = name
           then Some (Some (list_entry wide m curr_table))
           else table_loop wide m name fin (curr_table + (if wide then 8 else 4))
      else Some None)"

text \<open>The search in a root table at \<open>root\<close>, and what is printed when there is nothing.\<close>

definition search_table :: "bool \<Rightarrow> string \<Rightarrow> u32 \<Rightarrow> ('d intel, u32) exec" where
  "search_table wide table_name root =
     bindE memE (\<lambda>m.
     case table_loop wide m (sig table_name) (root + ld32 m (tbl_length (table_at root))) (root + sizeof_acpi_table_header) of
       None \<Rightarrow> stopE Hang
     | Some (Some table) \<Rightarrow> returnE table
     | Some None \<Rightarrow> bindE (tell_all [Info (''can'' @ [CHR 0x27] @ ''t find table :''), Text table_name]) (\<lambda>_. returnE 0))"

definition get_rsdt :: "('d intel, u32) exec" where
  "get_rsdt = bindE (getE rsdp) (\<lambda>p. bindE memE (\<lambda>m. returnE (ld32 m (rsdp_rsdt (rsdp_at p)))))"

definition get_xsdt :: "('d intel, u32) exec" where
  "get_xsdt =
     bindE (getE rsdp) (\<lambda>p.
     bindE memE (\<lambda>m.
     if ld64 m (rsdp_xsdt (rsdp_at p)) \<ge> 0x100000000
     then bindE (tell (Info (''XSDT above 4GB'' @ nl))) (\<lambda>_. returnE 0)
     else returnE (ucast (ld64 m (rsdp_xsdt (rsdp_at p))))))"

definition find_table :: "string \<Rightarrow> ('d intel, u32) exec" where
  "find_table table_name =
     bindE find_rsdp (\<lambda>b.
     if \<not> b then bindE (tell (Info ''no rsdp to use'')) (\<lambda>_. returnE 0)
     else bindE get_xsdt (\<lambda>xsdt.
          bindE (getE rsdp) (\<lambda>p.
          bindE memE (\<lambda>m.
          if m (rsdp_revision (rsdp_at p)) \<ge> 2 \<and> xsdt \<noteq> 0 then search_table True table_name xsdt
          else bindE get_rsdt (\<lambda>rsdt.
               if rsdt = 0 then bindE (tell (Info ''rsdt is invalid.'')) (\<lambda>_. returnE 0)
               else search_table False table_name rsdt)))))"

definition get_vtd_dmar_table :: "('d intel, u32) exec" where
  "get_vtd_dmar_table = find_table DMAR_SIG"

definition vtd_bios_enabled :: "('d intel, bool) exec" where
  "vtd_bios_enabled = bindE (find_table DMAR_SIG) (\<lambda>t. returnE (t \<noteq> 0))"

definition save_vtd_dmar_table :: "('d intel, unit) exec" where
  "save_vtd_dmar_table = bindE get_vtd_dmar_table (\<lambda>t. modifyE (\<lambda>s. s\<lparr>g_dmar_table := t\<rparr>))"

definition restore_vtd_dmar_table :: "('d intel, bool) exec" where
  "restore_vtd_dmar_table =
     bindE (modifyE (\<lambda>s. s\<lparr>g_hide_dmar := False\<rparr>)) (\<lambda>_.
     bindE get_vtd_dmar_table (\<lambda>hdr.
     if hdr \<noteq> 0 then returnE True
     else bindE (getE g_dmar_table) (\<lambda>saved.
          if saved = 0
          then bindE (tell (Info (''No DMAR table saved, abort restore step.'' @ nl))) (\<lambda>_. returnE False)
          else bindE (setmemE (poke (tbl_signature (table_at saved)) (sig DMAR_SIG))) (\<lambda>_.
               bindE (modifyE (\<lambda>s. s\<lparr>g_hide_dmar := True\<rparr>)) (\<lambda>_. returnE True)))))"

definition get_apic_table :: "('d intel, u32) exec" where
  "get_apic_table = find_table MADT_SIG"

definition get_madt_apic_base :: "('d intel, u32) exec" where
  "get_madt_apic_base =
     bindE get_apic_table (\<lambda>madt.
     if madt = 0 then bindE (tell (Info ''no MADT table found'')) (\<lambda>_. returnE 0)
     else bindE memE (\<lambda>m. returnE (ld32 m (local_apic_address (madt_at madt)))))"

text \<open>
  The loop over the entries of the table: the message of a failure or the entry, \<open>None\<close> when it does not
  end (an entry of length 0 before the first one for an I/O APIC).
\<close>

partial_function (option) ioapic_loop :: "mem \<Rightarrow> u32 \<Rightarrow> u32 \<Rightarrow> (string + u32) option" where
  "ioapic_loop m fin entry =
     (if entry < fin
      then if m (apic_type (ioapic_at entry)) = 1
           then if m (apic_length (ioapic_at entry)) \<noteq> 12 then Some (Inl ''APIC length error.'') else Some (Inr entry)
           else ioapic_loop m fin (entry + ucast (m (apic_length (ioapic_at entry))))
      else Some (Inl ''no IOAPIC type.''))"

definition get_acpi_ioapic_table :: "('d intel, u32) exec" where
  "get_acpi_ioapic_table =
     bindE get_apic_table (\<lambda>madt.
     if madt = 0 then bindE (tell (Info ''no MADT table found'')) (\<lambda>_. returnE 0)
     else bindE memE (\<lambda>m.
          case ioapic_loop m (madt + ld32 m (tbl_length (table_at madt))) (madt_entries (madt_at madt)) of
            None \<Rightarrow> stopE Hang
          | Some (Inl txt) \<Rightarrow> bindE (tell (Info txt)) (\<lambda>_. returnE 0)
          | Some (Inr entry) \<Rightarrow> returnE entry))"

definition get_acpi_mcfg_table :: "('d intel, u32) exec" where
  "get_acpi_mcfg_table = find_table MCFG_SIG"

section \<open>Registers\<close>

text \<open>A generic address: space, width of the register in bits, address.\<close>

record tboot_acpi_generic_address_t =
  gas_space_id :: u32
  gas_bit_width :: u32
  gas_bit_offset :: u32
  gas_access_width :: u32
  gas_address :: u32

definition gas_at :: "u32 \<Rightarrow> tboot_acpi_generic_address_t" where
  "gas_at a = \<lparr>gas_space_id = a, gas_bit_width = a + 1, gas_bit_offset = a + 2, gas_access_width = a + 3, gas_address = a + 4\<rparr>"

record tboot_acpi_sleep_info_t =
  pm1a_cnt_blk :: u32
  pm1b_cnt_blk :: u32
  pm1a_evt_blk :: u32
  pm1b_evt_blk :: u32
  pm1a_cnt_val :: u32
  pm1b_cnt_val :: u32
  wakeup_vector :: u32
  vector_width :: u32
  s3_resume_vector :: u32

definition sleep_info_at :: "u32 \<Rightarrow> tboot_acpi_sleep_info_t" where
  "sleep_info_at a = \<lparr>pm1a_cnt_blk = a, pm1b_cnt_blk = a + 12, pm1a_evt_blk = a + 24, pm1b_evt_blk = a + 36,
     pm1a_cnt_val = a + 48, pm1b_cnt_val = a + 50, wakeup_vector = a + 52, vector_width = a + 60, s3_resume_vector = a + 64\<rparr>"

definition space_ids :: "string list" where
  "space_ids = [''memory'', ''I/O'', ''PCI config space'', ''EC'', ''SMBus'']"

abbreviation (input) tab :: string where "tab \<equiv> [CHR 0x09]"

definition dump_gas :: "symbols \<Rightarrow> u32 \<Rightarrow> ('d intel, unit) exec" where
  "dump_gas sy reg =
     bindE (tell (Num ''GAS @ '' reg)) (\<lambda>_.
     if reg = 0 then returnE ()
     else bindE memE (\<lambda>m.
          let g = gas_at reg; id = m (gas_space_id g) in
          tell_all
            [if id \<ge> 5 then Num (tab @ '' space_id: unsupported '' @ nl) (ucast id)
             else Num (tab @ '' space_id: '') (sym_string sy (space_ids ! unat id)),
             Num (tab @ '' bit_width: '') (ucast (m (gas_bit_width g))),
             Num (tab @ '' bit_offset: '') (ucast (m (gas_bit_offset g))),
             Num (tab @ '' access_width: '') (ucast (m (gas_access_width g))),
             Num (tab @ '' address: '') (ld32 m (gas_address g))]))"

text \<open>
  The bound on the address is the number of the source, which is decimal. Registers in the address space
  are the devices'.
\<close>

definition write_to_reg :: "'d hw \<Rightarrow> 'd txt_hw \<Rightarrow> u32 \<Rightarrow> u32 \<Rightarrow> ('d intel, bool) exec" where
  "write_to_reg hw tx reg val =
     bindE memE (\<lambda>m.
     let g = gas_at reg; address = ld32 m (gas_address g); width = m (gas_bit_width g); id = m (gas_space_id g);
         port = ucast address in
     if ld64 m (gas_address g) \<ge> 100000000 then bindE (tell (Info ''GAS address >4GB'')) (\<lambda>_. returnE False)
     else if id = 1
     then if width = 8 then bindE (on_device (\<lambda>d. ((), hw_outb hw port (ucast val) d))) (\<lambda>_. returnE True)
          else if width = 16 then bindE (on_device (\<lambda>d. ((), hw_outw hw port (ucast val) d))) (\<lambda>_. returnE True)
          else if width = 32 then bindE (on_device (\<lambda>d. ((), hw_outl hw port val d))) (\<lambda>_. returnE True)
          else bindE (tell (Num ''unsupported GAS bit width: '' (ucast width))) (\<lambda>_. returnE False)
     else if id = 0
     then if width = 8 then bindE (on_device (\<lambda>d. ((), hw_wr8 hw address (ucast val) d))) (\<lambda>_. returnE True)
          else if width = 16 then bindE (on_device (\<lambda>d. ((), tx_wr16 tx address (ucast val) d))) (\<lambda>_. returnE True)
          else if width = 32 then bindE (on_device (\<lambda>d. ((), hw_wr32 hw address val d))) (\<lambda>_. returnE True)
          else bindE (tell (Num ''unsupported GAS bit width: '' (ucast width))) (\<lambda>_. returnE False)
     else bindE (tell (Num ''unsupported GAS addr space ID: '' (ucast id))) (\<lambda>_. returnE False))"

text \<open>\<open>Some\<close> the value of \<open>*val\<close> when the register was read.\<close>

definition wideE :: "('d \<Rightarrow> 'a :: len word \<times> 'd) \<Rightarrow> ('d intel, u32 option) exec" where
  "wideE f = bindE (on_device f) (\<lambda>v. returnE (Some (ucast v)))"

definition read_from_reg :: "'d hw \<Rightarrow> 'd txt_hw \<Rightarrow> u32 \<Rightarrow> ('d intel, u32 option) exec" where
  "read_from_reg hw tx reg =
     bindE memE (\<lambda>m.
     let g = gas_at reg; address = ld32 m (gas_address g); width = m (gas_bit_width g); id = m (gas_space_id g);
         port = ucast address in
     if ld64 m (gas_address g) \<ge> 100000000 then bindE (tell (Info ''GAS address >4GB'')) (\<lambda>_. returnE None)
     else if id = 1
     then if width = 8 then wideE (hw_inb hw port)
          else if width = 16 then wideE (hw_inw hw port)
          else if width = 32 then wideE (hw_inl hw port)
          else bindE (tell (Num ''unsupported GAS bit width: '' (ucast width))) (\<lambda>_. returnE None)
     else if id = 0
     then if width = 8 then wideE (hw_rd8 hw address)
          else if width = 16 then wideE (tx_rd16 tx address)
          else if width = 32 then wideE (hw_rd32 hw address)
          else bindE (tell (Num ''unsupported GAS bit width: '' (ucast width))) (\<lambda>_. returnE None)
     else bindE (tell (Num ''unsupported GAS addr space ID: '' (ucast id))) (\<lambda>_. returnE None))"

text \<open>One look at an event register: does it show the wake status.\<close>

definition wake_status :: "'d hw \<Rightarrow> 'd txt_hw \<Rightarrow> u32 \<Rightarrow> ('d intel, bool) exec" where
  "wake_status hw tx reg =
     bindE memE (\<lambda>m.
     if ld64 m (gas_address (gas_at reg)) \<noteq> 0
     then bindE (read_from_reg hw tx reg) (\<lambda>v. returnE (case v of None \<Rightarrow> False | Some v \<Rightarrow> v AND 0x8000 \<noteq> 0))
     else returnE False)"

text \<open>The loop of \<open>wait_to_sleep\<close>, which ends when one of the registers shows it.\<close>

definition sleep_round :: "'d hw \<Rightarrow> 'd txt_hw \<Rightarrow> u32 \<Rightarrow> ('d intel, bool) exec" where
  "sleep_round hw tx acpi_sinfo =
     bindE (wake_status hw tx (pm1a_evt_blk (sleep_info_at acpi_sinfo))) (\<lambda>b.
     if b then returnE True else wake_status hw tx (pm1b_evt_blk (sleep_info_at acpi_sinfo)))"

partial_function (option) sleep_loop :: "'d hw \<Rightarrow> 'd txt_hw \<Rightarrow> u32 \<Rightarrow> 'd intel \<Rightarrow> (bool res \<times> 'd intel) option" where
  "sleep_loop hw tx acpi_sinfo s =
     (let r = sleep_round hw tx acpi_sinfo s in
      if fst r = Ok False then sleep_loop hw tx acpi_sinfo (snd r) else Some r)"

definition wait_to_sleep :: "'d hw \<Rightarrow> 'd txt_hw \<Rightarrow> u32 \<Rightarrow> ('d intel, bool) exec" where
  "wait_to_sleep hw tx acpi_sinfo = (\<lambda>s. case sleep_loop hw tx acpi_sinfo s of None \<Rightarrow> (Stop Hang, s) | Some r \<Rightarrow> r)"

text \<open>A control register that has an address is written.\<close>

definition control_written :: "'d hw \<Rightarrow> 'd txt_hw \<Rightarrow> u32 \<Rightarrow> u32 \<Rightarrow> ('d intel, bool) exec" where
  "control_written hw tx reg val_at =
     bindE memE (\<lambda>m.
     if ld64 m (gas_address (gas_at reg)) \<noteq> 0 then write_to_reg hw tx reg (ucast (ld16 m val_at)) else returnE True)"

definition machine_sleep :: "'d hw \<Rightarrow> 'd txt_hw \<Rightarrow> symbols \<Rightarrow> u32 \<Rightarrow> ('d intel, bool) exec" where
  "machine_sleep hw tx sy acpi_sinfo =
     (let i = sleep_info_at acpi_sinfo in
      bindE (dump_gas sy (pm1a_cnt_blk i)) (\<lambda>_.
      bindE (dump_gas sy (pm1b_cnt_blk i)) (\<lambda>_.
      bindE (cpuE tx Wbinvd) (\<lambda>_.
      bindE (control_written hw tx (pm1a_cnt_blk i) (pm1a_cnt_val i)) (\<lambda>b.
      if \<not> b then returnE False
      else bindE (control_written hw tx (pm1b_cnt_blk i) (pm1b_cnt_val i)) (\<lambda>b.
           if \<not> b then returnE False
           else bindE (wait_to_sleep hw tx acpi_sinfo) (\<lambda>_. returnE True)))))))"

definition set_s3_resume_vector :: "u32 \<Rightarrow> u64 \<Rightarrow> ('d intel, unit) exec" where
  "set_s3_resume_vector acpi_sinfo resume_vector =
     bindE memE (\<lambda>m.
     let i = sleep_info_at acpi_sinfo; w = ld32 m (vector_width i); a = ld32 m (wakeup_vector i) in
     if w \<le> 32 then setmemE (st32 a (ucast resume_vector))
     else if w \<le> 64 then setmemE (st64 a resume_vector)
     else tell (Info (''vector_width error.'' @ nl)))"

end
