(* ===== verification/ACM_Correct.thy ===== *)
theory ACM_Correct
  imports ACM
begin

text \<open>
  The checks of the SINIT module decide what they should: the overflow checks on the offsets of the
  module amount to the tables being inside it, and the search of the lists finds a matching entry.
\<close>

section \<open>Tables inside the module\<close>

text \<open>
  In plain numbers: the information table, and a list of entries of \<open>esz\<close> bytes at offset \<open>off\<close>, lie
  inside the module that starts at \<open>hdr\<close>, and below 4 GB.
\<close>

definition user_area :: "mem \<Rightarrow> u32 \<Rightarrow> nat" where
  "user_area m hdr = (unat (ld32 m (hdr + 4)) + unat (ld32 m (hdr + 124))) * 4"

definition table_inside :: "mem \<Rightarrow> u32 \<Rightarrow> bool" where
  "table_inside m hdr \<longleftrightarrow> user_area m hdr + 48 \<le> unat (acm_words m hdr * 4) \<and> unat hdr + user_area m hdr < 2 ^ 32"

definition list_inside :: "mem \<Rightarrow> u32 \<Rightarrow> u32 \<Rightarrow> nat \<Rightarrow> bool" where
  "list_inside m hdr off esz \<longleftrightarrow> unat hdr + unat off < 2 ^ 32 \<and>
     unat off + esz + unat (ld32 m (hdr + off)) * esz \<le> unat (acm_words m hdr * 4)"

lemma info_table_eq:
  assumes "hdr \<noteq> 0"
  shows "snd (get_acmod_info_table m hdr) = (if table_inside m hdr then hdr + of_nat (user_area m hdr) else 0)"
    and "table_inside m hdr \<Longrightarrow> hdr + of_nat (user_area m hdr) \<noteq> 0"
proof -
  note distrib_right_numeral [simp del]
  let ?l = "ld32 m (hdr + 4)" and ?c = "ld32 m (hdr + 124)" and ?w = "acm_words m hdr * 4"
  have w: "unat ?w < 2 ^ 32" by (rule unat_u32_less)
  have nz: "hdr + of_nat (user_area m hdr) \<noteq> 0" if "table_inside m hdr"
  proof -
    have "unat (hdr + of_nat (user_area m hdr)) = unat hdr + user_area m hdr"
      using that w by (simp add: table_inside_def unat_word_ariths unat_of_nat take_bit_nat_eq_self)
    moreover have "0 < unat hdr" using assms by (simp add: unat_gt_0)
    ultimately show ?thesis by (metis add_is_0 neq0_conv unat_0)
  qed
  then show "table_inside m hdr \<Longrightarrow> hdr + of_nat (user_area m hdr) \<noteq> 0" .
  show "snd (get_acmod_info_table m hdr) = (if table_inside m hdr then hdr + of_nat (user_area m hdr) else 0)"
  proof (cases "plus_overflow_u32 ?l ?c \<or> multiply_overflow_u32 (?l + ?c) 4")
    case True
    then have "2 ^ 32 \<le> user_area m hdr"
      using unat_plus_u32 [of ?l ?c] by (cases "plus_overflow_u32 ?l ?c")
        (auto simp: user_area_def plus_overflow_u32_iff multiply_overflow_u32_iff)
    then have "\<not> table_inside m hdr" using w by (simp add: table_inside_def)
    then show ?thesis using True by (auto simp: get_acmod_info_table_def Let_def acm_hdr_at_def)
  next
    case False
    then have u: "unat ((?l + ?c) * 4) = user_area m hdr"
      by (simp add: unat_times_u32 unat_plus_u32 user_area_def)
    have o: "(?l + ?c) * 4 = of_nat (user_area m hdr)"
      by (simp add: user_area_def)
    show ?thesis
    proof (cases "plus_overflow_u32 ((?l + ?c) * 4) 48")
      case True
      then have "\<not> table_inside m hdr" using w by (simp add: table_inside_def plus_overflow_u32_iff u)
      then show ?thesis using False True by (simp add: get_acmod_info_table_def Let_def acm_hdr_at_def)
    next
      case p: False
      have "(?l + ?c) * 4 + 48 > ?w \<longleftrightarrow> \<not> user_area m hdr + 48 \<le> unat ?w"
        using unat_plus_u32 [OF p] by (simp add: word_less_nat_alt u not_le)
      moreover have "plus_overflow_u32 hdr ((?l + ?c) * 4) \<longleftrightarrow> \<not> unat hdr + user_area m hdr < 2 ^ 32"
        by (simp add: plus_overflow_u32_iff u not_less)
      ultimately show ?thesis using False p
        by (auto simp: get_acmod_info_table_def Let_def acm_hdr_at_def table_inside_def o [symmetric])
    qed
  qed
qed

lemma acmod_list_eq:
  assumes "hdr \<noteq> 0"
  shows "snd (acmod_list m hdr off esz t1 t2 t3 t4 t5 t6) = (if list_inside m hdr off (unat esz) then hdr + off else 0)"
    and "list_inside m hdr off n \<Longrightarrow> hdr + off \<noteq> 0"
proof -
  let ?n = "ld32 m (hdr + off)" and ?w = "acm_words m hdr * 4"
  have w: "unat ?w < 2 ^ 32" by (rule unat_u32_less)
  show "hdr + off \<noteq> 0" if "list_inside m hdr off n"
  proof -
    have "unat (hdr + off) = unat hdr + unat off" using that by (simp add: list_inside_def unat_word_ariths)
    moreover have "0 < unat hdr" using assms by (simp add: unat_gt_0)
    ultimately show ?thesis by (metis add_is_0 neq0_conv unat_0)
  qed
  consider "plus_overflow_u32 off esz" | "plus_overflow_u32 hdr off" | "multiply_overflow_u32 ?n esz"
    | "\<not> plus_overflow_u32 off esz" "\<not> multiply_overflow_u32 ?n esz" "plus_overflow_u32 (off + esz) (?n * esz)"
    | "\<not> plus_overflow_u32 off esz" "\<not> plus_overflow_u32 hdr off" "\<not> multiply_overflow_u32 ?n esz" "\<not> plus_overflow_u32 (off + esz) (?n * esz)"
    by blast
  then show "snd (acmod_list m hdr off esz t1 t2 t3 t4 t5 t6) = (if list_inside m hdr off (unat esz) then hdr + off else 0)"
  proof cases
    case 5
    have "unat (off + esz + ?n * esz) = unat off + unat esz + unat ?n * unat esz"
      using 5 by (simp add: unat_plus_u32 unat_times_u32)
    moreover have "unat (off + esz) = unat off + unat esz" using 5 by (simp add: unat_plus_u32)
    ultimately show ?thesis using 5
      by (auto simp: acmod_list_def Let_def list_inside_def word_less_nat_alt plus_overflow_u32_iff)
  qed (use w in \<open>auto simp: acmod_list_def Let_def list_inside_def plus_overflow_u32_iff multiply_overflow_u32_iff
      unat_plus_u32 unat_times_u32\<close>)
qed

lemma ex_ge_step: "k < n \<Longrightarrow> (\<exists>j \<ge> k. j < n \<and> P j) \<longleftrightarrow> P k \<or> (\<exists>j \<ge> Suc k. j < n \<and> P j)"
  using ex_ge_Suc [of P k n] by auto

lemma search_list_iff:
  "search_list P a esz n i \<longleftrightarrow> (\<exists>j \<ge> unat i. j < unat n \<and> P (a + of_nat j * esz))"
proof (induction P a esz n i rule: search_list.induct)
  case (1 P a esz n i)
  show ?case
  proof (cases "i < n")
    case True
    then have "search_list P a esz n i \<longleftrightarrow> P (a + of_nat (unat i) * esz) \<or> search_list P a esz n (i + 1)"
      by (subst search_list.simps) simp
    also have "\<dots> \<longleftrightarrow> P (a + of_nat (unat i) * esz) \<or> (\<exists>j \<ge> Suc (unat i). j < unat n \<and> P (a + of_nat j * esz))"
      using 1 True u32_next [OF True] by auto
    also have "\<dots> \<longleftrightarrow> (\<exists>j \<ge> unat i. j < unat n \<and> P (a + of_nat j * esz))"
      by (rule ex_ge_step [symmetric]) (use True in \<open>simp add: word_less_nat_alt\<close>)
    finally show ?thesis .
  next
    case False
    then show ?thesis by (subst search_list.simps) (auto simp: word_less_nat_alt)
  qed
qed

section \<open>The decision\<close>

definition platform_matched :: "mem \<Rightarrow> u32 \<Rightarrow> u64 \<Rightarrow> u64 \<Rightarrow> u32 \<Rightarrow> u64 \<Rightarrow> bool" where
  "platform_matched m hdr didvid ver fms platform_id \<longleftrightarrow>
     (let table = hdr + of_nat (user_area m hdr); ids = hdr + ld32 m (table + 20); procs = hdr + ld32 m (table + 40) in
      (bit ver 31 \<longleftrightarrow> \<not> bit (ld16 m (hdr + 14)) 15) \<and> table_inside m hdr \<and>
      list_inside m hdr (ld32 m (table + 20)) 16 \<and>
      (\<exists>i < unat (ld32 m ids). chipset_matches m (ids + 4 + of_nat i * 16) didvid) \<and>
      (4 \<le> m (table + 17) \<longrightarrow> list_inside m hdr (ld32 m (table + 40)) 24 \<and>
        (\<exists>i < unat (ld32 m procs). processor_matches m (procs + 4 + of_nat i * 24) fms platform_id)))"

definition fusing :: "(u32 \<Rightarrow> u64) \<Rightarrow> u64" where
  "fusing rv = (let v = rv (0xfed30000 + TXTCR_VER_FSBIF) in
     if v AND 0xffffffff = 0xffffffff \<or> v AND 0xffffffff = 0 then rv (0xfed30000 + TXTCR_VER_QPIIF) else v)"

lemma snd_saying [simp]: "snd (saying ts x) = snd x"
  by (simp add: saying_def)

lemma yields_msr_then:
  assumes "\<And>d. hw_rdmsr hw a d = (v, d)" "yields (like s) (k v) r Q"
  shows "yields (like s) (bindE (read_msr hw a) k) r Q"
proof -
  have "yields (like s) (read_msr hw a) (Ok v) (like s)"
    by (rule yieldsI) (simp add: read_msr_def on_device_def on_world_def on_dev_def assms(1))
  then show ?thesis using assms(2) by (rule yields_bind)
qed

lemma yields_does_acmod_match_platform:
  assumes "fixed_registers tx rv" "\<And>d. hw_rdmsr hw 0x17 d = (pid, d)" "hdr \<noteq> 0"
  shows "yields (like s) (does_acmod_match_platform hw tx hdr)
    (Ok (platform_matched (i_mem s) hdr (rv (0xfed30000 + TXTCR_DIDVID)) (fusing rv) (hw_cpuid_eax hw 1) pid)) (like s)"
proof -
  let ?m = "i_mem s" and ?ver = "rv (0xfed30000 + TXTCR_VER_FSBIF)"
  have q: "yields (like s) (if ?ver AND 0xffffffff = 0xffffffff \<or> ?ver AND 0xffffffff = 0
      then read_pub_config_reg tx TXTCR_VER_QPIIF else returnE ?ver) (Ok (fusing rv)) (like s)"
    using yields_reg_then(1) [OF assms(1), where k = returnE and s = s and reg = TXTCR_VER_QPIIF, OF yields_returnE]
    by (auto simp: fusing_def intro: yields_returnE)
  have lists: "snd (get_acmod_chipset_list ?m hdr) = (if table_inside ?m hdr \<and>
        list_inside ?m hdr (ld32 ?m (hdr + of_nat (user_area ?m hdr) + 20)) 16
      then hdr + ld32 ?m (hdr + of_nat (user_area ?m hdr) + 20) else 0)"
    "snd (get_acmod_processor_list ?m hdr) = (if table_inside ?m hdr \<and>
        list_inside ?m hdr (ld32 ?m (hdr + of_nat (user_area ?m hdr) + 40)) 24
      then hdr + ld32 ?m (hdr + of_nat (user_area ?m hdr) + 40) else 0)"
    unfolding get_acmod_chipset_list_def get_acmod_processor_list_def
    using info_table_eq [OF assms(3), of ?m] acmod_list_eq(1) [OF assms(3), of ?m]
    by (auto simp: Let_def split: prod.split) (auto simp: info_table_at_def)
  show ?thesis
    unfolding does_acmod_match_platform_def Let_def
    apply (intro yields_reg_then(1) [OF assms(1)] yields_bind [OF q] yields_msr_then [OF assms(2)] reading)
    using info_table_eq [OF assms(3), of ?m] acmod_list_eq(2) [OF assms(3), of ?m]
    by (auto simp: platform_matched_def Let_def lists search_list_iff acm_hdr_at_def info_table_at_def not_le
        split: if_splits)
qed

text \<open>The entries of a list inside the module are inside the module.\<close>

lemma list_entries_inside:
  assumes "list_inside m hdr off esz" "i < unat (ld32 m (hdr + off))" "4 \<le> esz"
  shows "unat off + 4 + i * esz + esz \<le> unat (acm_words m hdr * 4)"
proof -
  have "(i + 1) * esz \<le> unat (ld32 m (hdr + off)) * esz" using assms(2) by (intro mult_le_mono1) simp
  then show ?thesis using assms(1,3) by (simp add: list_inside_def)
qed

text \<open>
  C11: \<open>does_acmod_match_platform\<close> ends, changes nothing but the screen, and says yes exactly when the
  module is signed for the fusing of the chipset, its information table lies inside it, its list of
  chipsets lies inside it and names the vendor, device and revision of this chipset, and, from version
  4 of the table on, its list of processors lies inside it and names this processor. No overflow in
  the offsets and counts of the module makes it look outside the module.
\<close>

theorem does_acmod_match_platform_decides:
  assumes "fixed_registers tx rv" "\<And>d. hw_rdmsr hw 0x17 d = (pid, d)" "hdr \<noteq> 0" "intel_ok s"
  shows "\<exists>s'. does_acmod_match_platform hw tx hdr s =
    (Ok (platform_matched (i_mem s) hdr (rv (0xfed30000 + TXTCR_DIDVID)) (fusing rv) (hw_cpuid_eax hw 1) pid), s') \<and> like s s'"
  by (rule yieldsD [OF yields_does_acmod_match_platform [OF assms(1-3)] like_refl [OF assms(4)]])

text \<open>A module of 1600 bytes at 1 MB with one chipset and one processor.\<close>

definition acm_mem :: mem where
  "acm_mem = st32 0x100004 161 (st32 0x10007c 143 (st32 0x100018 400
     (st32 0x1004d0 0x401 (st32 0x1004d4 1264 (st32 0x1004e8 1300
     (st32 0x1004f0 1 (st32 0x1004f8 0xb0008086 (st32 0x1004fc 7
     (st32 0x100514 1 (st32 0x10051c 0xffffffff (\<lambda>_. 0)))))))))))"

definition acm_regs :: "u32 \<Rightarrow> u64" where
  "acm_regs a = (if a = 0xfed30110 then 0x7b0008086 else 0x80000000)"

lemma acm_mem_table: "user_area acm_mem 0x100000 = 1216" "table_inside acm_mem 0x100000"
  by (simp_all add: table_inside_def user_area_def acm_hdr_at_def acm_mem_def ld_st)

lemma zeros [simp]: "ld16 (\<lambda>_. 0) a = 0" "ld64 (\<lambda>_. 0) a = 0"
  by (simp_all add: ld16_def bytes_at_two of_le16_def ld64_def combine64b_def)

lemma acm_mem_matched: "platform_matched acm_mem 0x100000 0x7b0008086 0x80000000 0 0"
proof -
  have 1: "list_inside acm_mem 0x100000 1264 16" "list_inside acm_mem 0x100000 1300 24"
    by (simp_all add: list_inside_def acm_hdr_at_def acm_mem_def ld_st)
  have 2: "ld32 acm_mem 0x1004d4 = 1264" "ld32 acm_mem 0x1004e8 = 1300" "ld32 acm_mem 0x1004f0 = 1" "ld32 acm_mem 0x100514 = 1"
    "ld16 acm_mem 0x10000e = 0" "acm_mem 0x1004d1 = 4"
    by (simp_all add: acm_mem_def ld_st) (simp add: st32_def)
  have 3: "chipset_matches acm_mem 0x1004f4 0x7b0008086" "processor_matches acm_mem 0x100518 0 0"
    by (simp_all add: chipset_matches_def processor_matches_def Let_def acm_mem_def ld_st ld64_def combine64b_def)
  have "bit (0x80000000 :: u64) 31" by (simp add: bit_iff_odd_drop_bit)
  then show ?thesis
    using acm_mem_table 1 2 3 by (simp add: platform_matched_def Let_def)
qed

theorem does_acmod_match_platform_decides_witness:
  "\<exists>s'. does_acmod_match_platform (sim_hw echo_run 0) (sim_txt acm_regs) 0x100000 (sim_intel acm_mem 0) = (Ok True, s') \<and>
     like (sim_intel acm_mem 0) s'"
  using does_acmod_match_platform_decides [where tx = "sim_txt acm_regs" and rv = acm_regs and hw = "sim_hw echo_run 0"
      and pid = 0 and hdr = "0x100000" and s = "sim_intel acm_mem 0"] acm_mem_matched
  by (simp add: sim_hw_def acm_regs_def TXTCR_DIDVID_def fusing_def TXTCR_VER_FSBIF_def Let_def)

section \<open>No module fits\<close>

definition module_start :: "mem \<Rightarrow> u32 \<Rightarrow> u32 \<Rightarrow> u32" where
  "module_start m mb i = ld32 m (ld32 m (mb + 24) + i * 16)"

definition module_size :: "mem \<Rightarrow> u32 \<Rightarrow> u32 \<Rightarrow> u32" where
  "module_size m mb i = ld32 m (ld32 m (mb + 24) + i * 16 + 4) - module_start m mb i"

lemma get_module_mb1_eq:
  "mb \<noteq> 0 \<Longrightarrow> i < ld32 m (mb + 20) \<Longrightarrow> get_module_mb1 m mb i = ([], ld32 m (mb + 24) + i * 16)"
  by (simp add: get_module_mb1_def mbi_at_def)

lemma yields_sinit_search_unmatched:
  assumes "mb \<noteq> 0" "n < unat (ld32 (i_mem s) (mb + 20))"
    "\<And>i. 1 \<le> i \<Longrightarrow> i \<le> n \<Longrightarrow>
       \<not> snd (is_sinit_acmod (i_mem s) (module_start (i_mem s) mb (of_nat i)) (module_size (i_mem s) mb (of_nat i)))"
  shows "yields (like s) (sinit_search hw tx mb n b) (Ok (if n = 0 then b else module_start (i_mem s) mb 1)) (like s)"
  using assms
proof (induction n arbitrary: b)
  case 0
  then show ?case by (simp add: yields_returnE)
next
  case (Suc n)
  let ?m = "i_mem s" and ?i = "of_nat (Suc n) :: u32"
  have i: "?i < ld32 ?m (mb + 20)"
    using Suc.prems(2) unat_u32_less [of "ld32 ?m (mb + 20)"]
    by (simp only: word_less_nat_alt unat_of_nat) (simp add: take_bit_nat_eq_self)
  have no: "\<not> snd (is_sinit_acmod ?m (module_start ?m mb ?i) (module_size ?m mb ?i))" by (rule Suc.prems(3)) simp_all
  have rest: "yields (like s) (sinit_search hw tx mb n b') (Ok (if n = 0 then b' else module_start ?m mb 1)) (like s)" for b'
    by (rule Suc.IH) (use Suc.prems in auto)
  show ?case
    unfolding sinit_search.simps Let_def
    apply (intro yields_runT_then yields_memE_then)
    using no rest [of "module_start ?m mb ?i"] unfolding get_module_mb1_eq [OF Suc.prems(1) i]
    by (cases n) (simp_all add: module_at_def module_start_def module_size_def)
qed

text \<open>
  C12: when none of the boot modules is a SINIT module, the search of \<open>prepare_sinit_acm\<close> does not end
  with nothing: it ends with the address of boot module 1, whatever that is, which is then copied over
  the SINIT region if the firmware has no newer module there.
\<close>

theorem sinit_search_unmatched:
  assumes "mb \<noteq> 0" "1 < unat (ld32 (i_mem s) (mb + 20))" "intel_ok s"
    "\<And>i. 1 \<le> i \<Longrightarrow> i < unat (ld32 (i_mem s) (mb + 20)) \<Longrightarrow>
       \<not> snd (is_sinit_acmod (i_mem s) (module_start (i_mem s) mb (of_nat i)) (module_size (i_mem s) mb (of_nat i)))"
  shows "\<exists>s'. sinit_search hw tx mb (unat (ld32 (i_mem s) (mb + 20) - 1)) 0 s = (Ok (module_start (i_mem s) mb 1), s') \<and> like s s'"
proof -
  let ?c = "ld32 (i_mem s) (mb + 20)"
  have c: "unat (?c - 1) = unat ?c - 1" using assms(2) by (intro u32_prev [of 0]) (simp add: word_less_nat_alt)
  have "yields (like s) (sinit_search hw tx mb (unat (?c - 1)) 0)
      (Ok (if unat (?c - 1) = 0 then 0 else module_start (i_mem s) mb 1)) (like s)"
    by (rule yields_sinit_search_unmatched) (use assms c in auto)
  then have "yields (like s) (sinit_search hw tx mb (unat (?c - 1)) 0) (Ok (module_start (i_mem s) mb 1)) (like s)"
    using c assms(2) by simp
  from yieldsD [OF this like_refl [OF assms(3)]] show ?thesis .
qed

definition no_sinit_mem :: mem where
  "no_sinit_mem = st32 0x1014 2 (st32 0x1018 0x2000 (st32 0x2010 0x4000 (st32 0x2014 0x4004 (\<lambda>_. 0))))"

theorem sinit_search_unmatched_witness:
  "\<exists>s'. sinit_search (sim_hw echo_run 0) (sim_txt acm_regs) 0x1000 1 0 (sim_intel no_sinit_mem 0) = (Ok 0x4000, s')"
proof -
  have m: "ld32 no_sinit_mem 0x1014 = 2" "ld32 no_sinit_mem 0x1018 = 0x2000" "ld32 no_sinit_mem 0x2010 = 0x4000"
    "ld32 no_sinit_mem 0x2014 = 0x4004"
    by (simp_all add: no_sinit_mem_def ld_st)
  have "\<not> snd (is_sinit_acmod no_sinit_mem (module_start no_sinit_mem 0x1000 (of_nat i)) (module_size no_sinit_mem 0x1000 (of_nat i)))"
    if "1 \<le> i" "i < 2" for i
  proof -
    from that have "i = 1" by simp
    then show ?thesis by (simp add: m module_start_def module_size_def is_sinit_acmod_def is_acmod_def)
  qed
  then show ?thesis
    using sinit_search_unmatched [where mb = "0x1000" and s = "sim_intel no_sinit_mem 0" and hw = "sim_hw echo_run 0"
        and tx = "sim_txt acm_regs"] by (auto simp: m module_start_def)
qed

end
