(* ===== verification/E820_Correct.thy ===== *)
theory E820_Correct
  imports E820
begin

text \<open>
  The table as a partition of the address space: \<open>protect_region\<close> refines the operation that gives a
  range of addresses a new type and leaves all other addresses alone.
\<close>

section \<open>Regions\<close>

type_synonym region = "nat \<times> nat \<times> u32"

definition region :: "memory_map_t \<Rightarrow> region" where
  "region e = (unat (e820_base_64 e), unat (e820_length_64 e), mm_type e)"

definition regions :: "e820 \<Rightarrow> region list" where
  "regions s = map region (entries s)"

text \<open>In order of the address, apart from each other, not empty and below \<open>2 ^ 64\<close>.\<close>

definition apart :: "region \<Rightarrow> region \<Rightarrow> bool" where
  "apart r r' \<longleftrightarrow> fst r + fst (snd r) \<le> fst r'"

definition proper :: "region \<Rightarrow> bool" where
  "proper r \<longleftrightarrow> 0 < fst (snd r) \<and> fst r + fst (snd r) < 2 ^ 64"

definition ordered :: "region list \<Rightarrow> bool" where
  "ordered rs \<longleftrightarrow> (\<forall>r \<in> set rs. proper r) \<and> sorted_wrt apart rs"

definition e820_wf :: "e820 \<Rightarrow> bool" where
  "e820_wf s \<longleftrightarrow> ordered (regions s) \<and> unat (nr_map s) \<le> 256"

text \<open>The type of an address.\<close>

definition covers :: "nat \<Rightarrow> region \<Rightarrow> bool" where
  "covers x r \<longleftrightarrow> fst r \<le> x \<and> x < fst r + fst (snd r)"

definition type_at :: "region list \<Rightarrow> nat \<Rightarrow> u32 option" where
  "type_at rs x = map_option (\<lambda>r. snd (snd r)) (List.find (covers x) rs)"

text \<open>The parts of the regions below and above an address.\<close>

definition below :: "nat \<Rightarrow> region list \<Rightarrow> region list" where
  "below a rs = concat (map (\<lambda>(b, l, t). if b < a then [(b, min l (a - b), t)] else []) rs)"

definition above :: "nat \<Rightarrow> region list \<Rightarrow> region list" where
  "above e rs = concat (map (\<lambda>(b, l, t). if e < b + l then [(max b e, b + l - max b e, t)] else []) rs)"

definition protect :: "nat \<Rightarrow> nat \<Rightarrow> u32 \<Rightarrow> region list \<Rightarrow> region list" where
  "protect a l t rs = below a rs @ (a, l, t) # above (a + l) rs"

lemma below_simps [simp]:
  "below a [] = []" "below a ((b, l, t) # rs) = (if b < a then (b, min l (a - b), t) # below a rs else below a rs)"
  "below a (rs @ rs') = below a rs @ below a rs'"
  by (simp_all add: below_def)

lemma above_simps [simp]:
  "above e [] = []" "above e ((b, l, t) # rs) = (if e < b + l then (max b e, b + l - max b e, t) # above e rs else above e rs)"
  "above e (rs @ rs') = above e rs @ above e rs'"
  by (simp_all add: above_def)

lemma ordered_simps [simp]:
  "ordered []" "ordered (r # rs) \<longleftrightarrow> proper r \<and> (\<forall>r' \<in> set rs. apart r r') \<and> ordered rs"
  "ordered (rs @ rs') \<longleftrightarrow> ordered rs \<and> ordered rs' \<and> (\<forall>r \<in> set rs. \<forall>r' \<in> set rs'. apart r r')"
  by (auto simp: ordered_def sorted_wrt_append)

lemma below_all: "\<forall>(b, l, t) \<in> set rs. 0 < l \<and> b + l \<le> a \<Longrightarrow> below a rs = rs"
  by (induction rs) (auto simp: min_def)

lemma below_none: "\<forall>(b, l, t) \<in> set rs. a \<le> b \<Longrightarrow> below a rs = []"
  by (induction rs) auto

lemma above_all: "\<forall>(b, l, t) \<in> set rs. 0 < l \<and> e \<le> b \<Longrightarrow> above e rs = rs"
  by (induction rs) (auto simp: max_def)

lemma above_none: "\<forall>(b, l, t) \<in> set rs. b + l \<le> e \<Longrightarrow> above e rs = []"
  by (induction rs) auto

lemma above_dropWhile:
  assumes "ordered rs"
  shows "above e rs = (case dropWhile (\<lambda>(b, l, t). b + l \<le> e) rs of [] \<Rightarrow> []
    | (b, l, t) # rs' \<Rightarrow> (if b < e then (e, b + l - e, t) else (b, l, t)) # rs')"
  using assms
proof (induction rs)
  case (Cons r rs)
  obtain b l t where r: "r = (b, l, t)" by (cases r)
  show ?case
  proof (cases "b + l \<le> e")
    case False
    have "above e rs = rs" using Cons.prems False by (intro above_all) (auto simp: r apart_def ordered_def proper_def)
    then show ?thesis using False by (auto simp: r max_def)
  qed (use Cons r in simp)
qed simp

lemma type_at_append: "type_at (rs @ rs') x = (case type_at rs x of None \<Rightarrow> type_at rs' x | Some t \<Rightarrow> Some t)"
  by (induction rs) (simp_all add: type_at_def)

lemma type_at_simps [simp]:
  "type_at [] x = None"
  "type_at ((b, l, t) # rs) x = (if b \<le> x \<and> x < b + l then Some t else type_at rs x)"
  by (simp_all add: type_at_def covers_def)

lemma type_at_below: "type_at (below a rs) x = (if x < a then type_at rs x else None)"
  by (induction rs) auto

lemma type_at_above: "type_at (above e rs) x = (if e \<le> x then type_at rs x else None)"
  by (induction rs) auto

lemma type_at_protect:
  "type_at (protect a l t rs) x = (if a \<le> x \<and> x < a + l then Some t else type_at rs x)"
  by (auto simp: protect_def type_at_append type_at_below type_at_above split: option.split)

lemma in_below: "r \<in> set (below a rs) \<longleftrightarrow> (\<exists>b l t. (b, l, t) \<in> set rs \<and> b < a \<and> r = (b, min l (a - b), t))"
  unfolding below_def set_concat set_map by (rule iffI; clarsimp split: if_splits; force)

lemma in_above: "r \<in> set (above e rs) \<longleftrightarrow>
    (\<exists>b l t. (b, l, t) \<in> set rs \<and> e < b + l \<and> r = (max b e, b + l - max b e, t))"
  unfolding above_def set_concat set_map by (rule iffI; clarsimp split: if_splits; force)

lemma proper_below: "ordered rs \<Longrightarrow> r \<in> set (below a rs) \<Longrightarrow> proper r \<and> fst r + fst (snd r) \<le> a"
  by (auto simp: in_below ordered_def proper_def dest!: bspec)

lemma proper_above: "ordered rs \<Longrightarrow> r \<in> set (above e rs) \<Longrightarrow> proper r \<and> e \<le> fst r"
  by (auto simp: in_above ordered_def proper_def dest!: bspec)

lemma ordered_below: "ordered rs \<Longrightarrow> ordered (below a rs)"
proof (induction rs)
  case (Cons r rs)
  obtain b l t where r: "r = (b, l, t)" by (cases r)
  have "apart (b, min l (a - b), t) r'" if r': "r' \<in> set (below a rs)" for r'
  proof -
    from r' obtain b' l' t' where "(b', l', t') \<in> set rs" "r' = (b', min l' (a - b'), t')" by (auto simp: in_below)
    moreover from this(1) have "b + l \<le> b'" using Cons.prems by (auto simp: r apart_def)
    ultimately show ?thesis by (simp add: apart_def)
  qed
  then show ?case using Cons by (auto simp: r proper_def)
qed simp

lemma ordered_above: "ordered rs \<Longrightarrow> ordered (above e rs)"
proof (induction rs)
  case (Cons r rs)
  obtain b l t where r: "r = (b, l, t)" by (cases r)
  have "apart (max b e, b + l - max b e, t) r'" if r': "r' \<in> set (above e rs)" "e < b + l" for r'
  proof -
    from r' obtain b' l' t' where "(b', l', t') \<in> set rs" "r' = (max b' e, b' + l' - max b' e, t')" by (auto simp: in_above)
    moreover from this(1) have "b + l \<le> b'" using Cons.prems by (auto simp: r apart_def)
    ultimately show ?thesis using r' by (simp add: apart_def)
  qed
  then show ?case using Cons by (auto simp: r proper_def)
qed simp

lemma ordered_protect:
  assumes "ordered rs" "0 < l" "a + l < 2 ^ 64"
  shows "ordered (protect a l t rs)"
proof -
  have "apart r (a, l, t)" if "r \<in> set (below a rs)" for r using proper_below [OF assms(1) that] by (simp add: apart_def)
  moreover have "apart (a, l, t) r" if "r \<in> set (above (a + l) rs)" for r using proper_above [OF assms(1) that] by (simp add: apart_def)
  moreover have "apart r r'" if "r \<in> set (below a rs)" "r' \<in> set (above (a + l) rs)" for r r'
    using proper_below [OF assms(1) that(1)] proper_above [OF assms(1) that(2)] by (simp add: apart_def)
  ultimately show ?thesis
    using ordered_below [OF assms(1)] ordered_above [OF assms(1)] assms(2,3) by (simp add: protect_def proper_def)
qed

section \<open>The array operations on the list of regions\<close>

definition end64 :: "memory_map_t \<Rightarrow> u64" where
  "end64 e = e820_base_64 e + e820_length_64 e"

lemma u64_add: "unat (a :: u64) + unat b < 2 ^ 64 \<Longrightarrow> unat (a + b) = unat a + unat b"
  by (simp add: unat_word_ariths)

lemma end64_nat: "proper (region e) \<Longrightarrow> unat (end64 e) = unat (e820_base_64 e) + unat (e820_length_64 e)"
  by (simp add: end64_def proper_def region_def u64_add)

lemma regions_split: "entries s = P @ Q \<Longrightarrow> regions s = map region P @ map region Q"
  by (simp add: regions_def)

lemma at_split:
  assumes "entries s = P @ e # Q" "unat i = length P"
  shows "i < nr_map s" "entry_at s i = e" "unat (nr_map s) = length P + 1 + length Q"
proof -
  show n: "unat (nr_map s) = length P + 1 + length Q" using assms(1) length_entries [of s] by simp
  then show i: "i < nr_map s" using assms(2) by (simp add: word_less_nat_alt)
  show "entry_at s i = e" using entries_nth [OF i] assms by simp
qed

lemma end_split: "entries s = P \<Longrightarrow> unat i = length P \<Longrightarrow> i = nr_map s"
  by (metis length_entries word_unat_eq_iff)

lemma delete_covered_entries:
  assumes "entries s = P @ R" "unat i = length P" "R \<noteq> [] \<Longrightarrow> te = end64 (hd R)"
  shows "entries (delete_covered ne i te s) = P @ dropWhile (\<lambda>e. end64 e \<le> ne) R"
  using assms
proof (induction R arbitrary: s te)
  case Nil
  then have "i = nr_map s" by (simp add: end_split)
  then show ?case using Nil by (subst delete_covered.simps) simp
next
  case (Cons e R)
  note at = at_split [OF Cons.prems(1,2)]
  show ?case
  proof (cases "end64 e \<le> ne")
    case True
    let ?s = "remove_region i s"
    have es: "entries ?s = P @ R" using remove_entries(1) [OF at(1)] Cons.prems(1,2) by simp
    have "end64 (entry_at ?s i) = end64 (hd R)" if "R \<noteq> []"
      using that es at_split(2) [of ?s P "hd R" "tl R" i] Cons.prems(2) by simp
    then have "entries (delete_covered ne i (end64 (entry_at ?s i)) ?s) = P @ dropWhile (\<lambda>e. end64 e \<le> ne) R"
      by (intro Cons.IH [OF es Cons.prems(2)]) simp
    then show ?thesis using True at Cons.prems(3)
      by (subst delete_covered.simps) (simp add: Let_def end64_def)
  next
    case False
    then show ?thesis using Cons.prems at by (subst delete_covered.simps) simp
  qed
qed

lemma trim_entries:
  assumes "entries s = P @ e # Q" "unat i = length P"
  shows "\<exists>e'. entries (trim_to ne te i s) = P @ e' # Q \<and> region e' = (unat ne, unat (te - ne), mm_type e)"
proof -
  note at = at_split [OF assms]
  have "entries (trim_to ne te i s) = P @ set_base ne (set_length (te - ne) e) # Q"
    using at(1) assms by (simp add: trim_to_def upd_entry_entries)
  then show ?thesis by (auto simp: region_def)
qed

lemma sub64: "a \<le> b \<Longrightarrow> unat (b - a :: u64) = unat b - unat a"
  by (simp add: unat_sub_if' word_le_nat_alt)

text \<open>The place where the search ends.\<close>

definition placed :: "u64 \<Rightarrow> u64 \<Rightarrow> u32 \<Rightarrow> region list \<Rightarrow> u32 \<Rightarrow> e820 \<Rightarrow> bool" where
  "placed a l t rs i s \<longleftrightarrow> (\<exists>P R X. entries s = P @ new_entry a l t # R \<and> R \<noteq> [] \<and> unat i = length P \<and>
     map region P = below (unat a) rs \<and> rs = X @ map region R \<and> (\<forall>r \<in> set X. fst r + fst (snd r) \<le> unat a))"

lemma region_new [simp]: "region (new_entry a l t) = (unat a, unat l, t)"
  by (simp add: region_def)

lemma entries_ends:
  assumes "\<forall>e \<in> set P. proper (region e) \<and> end64 e \<le> a"
  shows "\<forall>r \<in> set (map region P). 0 < fst (snd r) \<and> fst r + fst (snd r) \<le> unat a"
proof
  fix r assume "r \<in> set (map region P)"
  then obtain e where e: "e \<in> set P" "r = region e" by auto
  then show "0 < fst (snd r) \<and> fst r + fst (snd r) \<le> unat a"
    using assms end64_nat [of e] by (auto simp: proper_def region_def word_le_nat_alt)
qed

text \<open>The new region starts at or before the region at \<open>i\<close>, which is not the first one.\<close>

lemma placed_before:
  assumes es: "entries s = P @ e # Q" "unat i = length P" "P \<noteq> []" and room: "unat (nr_map s) < 256"
    and P: "\<forall>e \<in> set P. proper (region e) \<and> end64 e \<le> a" and ord: "ordered (regions s)" and le: "a \<le> e820_base_64 e"
    and ins: "insert_after_region s (i - 1) a l t = (b, s')"
  shows "b \<and> placed a l t (regions s) i s' \<and> i < nr_map s'"
proof -
  note at = at_split [OF es(1,2)]
  have i: "0 < i" using es(2,3) by (simp add: word_gt_0_no word_less_nat_alt)
  have i1: "unat (i - 1) + 1 = length P" "i - 1 < nr_map s" using u32_prev [OF i] i es(2) at(1) by (simp_all add: word_less_nat_alt)
  note ins' = insert_middle [OF room i1(2) ins]
  have es': "entries s' = P @ new_entry a l t # e # Q" using ins'(4) es(1) i1 by simp
  note ends = entries_ends [OF P]
  have "below (unat a) (map region (e # Q)) = []"
    using ord le es(1) by (intro below_none) (fastforce simp: regions_def apart_def word_le_nat_alt region_def)
  moreover have "below (unat a) (map region P) = map region P" using ends by (intro below_all) auto
  ultimately have "placed a l t (regions s) i s'"
    using es' es ends unfolding placed_def
    by (intro exI [of _ P] exI [of _ "e # Q"] exI [of _ "map region P"]) (auto simp: regions_split [OF es(1)] simp del: list.map)
  then show ?thesis using ins' at es(2) by (simp add: word_less_nat_alt)
qed

text \<open>The new region starts inside the region at \<open>i\<close>: this one is cut, and a copy of it put behind.\<close>

lemma placed_inside:
  assumes es: "entries s = P @ e # Q" "unat i = length P" and room: "unat (nr_map s) < 255"
    and P: "\<forall>e \<in> set P. proper (region e) \<and> end64 e \<le> a" and ord: "ordered (regions s)"
    and a: "e820_base_64 e < a" "a < end64 e"
    and ins: "insert_after_region s i a l t = (b, s1)"
    and s2: "s2 = upd_entry i (set_length (a - e820_base_64 (entry_at s1 i))) s1"
    and ins2: "insert_after_region s2 (i + 1) (e820_base_64 e) (e820_length_64 e) (mm_type e) = (b', s')"
  shows "b \<and> b' \<and> placed a l t (regions s) (i + 1) s' \<and> i + 1 < nr_map s'"
proof -
  note at = at_split [OF es]
  have room': "unat (nr_map s) < 256" using room by simp
  note ins1 = insert_middle [OF room' at(1) ins]
  have es1: "entries s1 = P @ e # new_entry a l t # Q" using ins1(4) es by simp
  note at1 = at_split [OF es1 es(2)]
  let ?e = "set_length (a - e820_base_64 e) e"
  have es2: "entries s2 = P @ ?e # new_entry a l t # Q" "nr_map s2 = nr_map s1"
    using upd_entry_entries [OF at1(1)] at1(2) es1 es(2) by (simp_all add: s2)
  have i1: "unat (i + 1) = length P + 1" using u32_next [OF at(1)] es(2) by simp
  have lt: "i + 1 < nr_map s2" "unat (nr_map s2) < 256"
    using es2 at1(3) i1 ins1(3) room by (simp_all add: word_less_nat_alt)
  note ins2' = insert_middle [OF lt(2) lt(1) ins2]
  let ?c = "new_entry (e820_base_64 e) (e820_length_64 e) (mm_type e)"
  have es': "entries s' = (P @ [?e]) @ new_entry a l t # ?c # Q" using ins2'(4) es2 i1 by simp
  have pe: "proper (region e)" "unat (end64 e) = unat (e820_base_64 e) + unat (e820_length_64 e)"
    using ord es(1) end64_nat [of e] by (auto simp: regions_def)
  have e_reg: "region ?e = (unat (e820_base_64 e), unat a - unat (e820_base_64 e), mm_type e)"
    using a by (simp add: region_def sub64)
  note ends = entries_ends [OF P]
  have "below (unat a) (map region Q) = []"
    using ord a pe es(1) by (intro below_none) (fastforce simp: regions_def apart_def word_less_nat_alt region_def)
  moreover have "below (unat a) (map region P) = map region P" using ends by (intro below_all) auto
  moreover have "below (unat a) [region e] = [region ?e]"
    using a pe by (auto simp: e_reg word_less_nat_alt) (auto simp: region_def word_less_nat_alt)
  ultimately have "below (unat a) (regions s) = map region (P @ [?e])"
    using below_simps(3) [of "unat a" "[region e]" "map region Q"] by (simp add: regions_split [OF es(1)])
  moreover have "region ?c = region e" by (simp add: region_def)
  ultimately have "placed a l t (regions s) (i + 1) s'"
    using es' ends i1 unfolding placed_def
    by (intro exI [of _ "P @ [?e]"] exI [of _ "?c # Q"] exI [of _ "map region P"]) (auto simp: regions_split [OF es(1)])
  then show ?thesis using ins1(1) ins2' lt i1 at1(3) es2(2) by (simp add: word_less_nat_alt)
qed

lemma search_result:
  assumes "entries s = P @ Q" "unat i = length P" "unat (nr_map s) < 255" "ordered (regions s)"
    and "\<forall>e \<in> set P. end64 e \<le> a" "P = [] \<Longrightarrow> Q \<noteq> [] \<Longrightarrow> e820_base_64 (hd Q) < a"
  shows "\<exists>i' s'. protect_search a l t i s = Inr (i', s') \<and>
    (s' = s \<and> i' = nr_map s \<and> (\<forall>e \<in> set (entries s). end64 e \<le> a) \<or> placed a l t (regions s) i' s' \<and> i' < nr_map s')"
  using assms
proof (induction Q arbitrary: P i)
  case Nil
  then have "i = nr_map s" by (simp add: end_split)
  then show ?case using Nil by (subst protect_search.simps) simp
next
  case (Cons e Q)
  note at = at_split [OF Cons.prems(1,2)]
  have room: "unat (nr_map s) < 256" using Cons.prems(3) by simp
  have pr: "proper (region e)" "\<forall>e \<in> set P. proper (region e) \<and> end64 e \<le> a"
    using Cons.prems(4,5) Cons.prems(1) by (auto simp: regions_def ordered_def)
  obtain b s1 where ins: "insert_after_region s (i - 1) a l t = (b, s1)" by (cases "insert_after_region s (i - 1) a l t")
  have before: "b \<and> placed a l t (regions s) i s1 \<and> i < nr_map s1" if "a \<le> e820_base_64 e"
    using placed_before [OF Cons.prems(1,2) _ room pr(2) Cons.prems(4) that ins] that Cons.prems(6) by (cases P) auto
  consider "a \<le> e820_base_64 e" | "e820_base_64 e < a" "a < end64 e" | "e820_base_64 e < a" "end64 e \<le> a"
    by (meson not_less)
  then show ?case
  proof cases
    case 1
    then have "protect_search a l t i s = Inr (i, s1)"
      using at ins before by (subst protect_search.simps) (auto simp: Let_def)
    then show ?thesis using before [OF 1] by blast
  next
    case 2
    obtain c s2 where i2: "insert_after_region s i a l t = (c, s2)" by (cases "insert_after_region s i a l t")
    let ?s = "upd_entry i (set_length (a - e820_base_64 (entry_at s2 i))) s2"
    obtain d s3 where i3: "insert_after_region ?s (i + 1) (e820_base_64 e) (e820_length_64 e) (mm_type e) = (d, s3)"
      by (cases "insert_after_region ?s (i + 1) (e820_base_64 e) (e820_length_64 e) (mm_type e)")
    have in': "c \<and> d \<and> placed a l t (regions s) (i + 1) s3 \<and> i + 1 < nr_map s3"
      by (rule placed_inside [OF Cons.prems(1-3) pr(2) Cons.prems(4) 2 i2 refl i3])
    then have "protect_search a l t i s = Inr (i + 1, s3)"
      using at 2 i2 i3 by (subst protect_search.simps) (auto simp: Let_def end64_def)
    then show ?thesis using in' by blast
  next
    case 3
    have u: "unat (i + 1) = length (P @ [e])" using u32_next [OF at(1)] Cons.prems(2) by simp
    have "protect_search a l t i s = protect_search a l t (i + 1) s"
      using at 3 by (subst protect_search.simps) (auto simp: Let_def end64_def)
    then show ?thesis using Cons.IH [OF _ u Cons.prems(3,4)] Cons.prems(1,5) 3 by simp
  qed
qed

section \<open>Theorems\<close>

lemma protect_at_end:
  assumes "ordered (regions s)" "\<forall>e \<in> set (entries s). end64 e \<le> a"
  shows "protect (unat a) (unat l) t (regions s) = regions s @ [(unat a, unat l, t)]"
proof -
  have "\<forall>e \<in> set (entries s). proper (region e) \<and> end64 e \<le> a" using assms by (auto simp: regions_def ordered_def)
  from entries_ends [OF this] show ?thesis unfolding protect_def regions_def
    by (subst below_all, fastforce, subst above_none) auto
qed

text \<open>What follows the new region is cut down to what lies above it.\<close>

lemma dropWhile_regions:
  assumes "\<forall>e \<in> set R. proper (region e)"
  shows "dropWhile (\<lambda>(b, l, t). b + l \<le> unat ne) (map region R) = map region (dropWhile (\<lambda>e. end64 e \<le> ne) R)"
proof -
  have "(case region e of (b, l, t) \<Rightarrow> b + l \<le> unat ne) \<longleftrightarrow> end64 e \<le> ne" if "e \<in> set R" for e
    using end64_nat [of e] assms that by (simp add: region_def word_le_nat_alt)
  then show ?thesis by (simp add: dropWhile_map comp_def cong: dropWhile_cong)
qed

lemma trimmed:
  assumes "entries s = P @ e # D" "unat j = length P" "proper (region e)" "ne < end64 e" "e820_base_64 e < ne"
  shows "regions (trim_to ne (end64 e) j s) = map region P @ (unat ne, unat (end64 e) - unat ne, mm_type e) # map region D"
proof -
  obtain e' where "entries (trim_to ne (end64 e) j s) = P @ e' # D" "region e' = (unat ne, unat (end64 e - ne), mm_type e)"
    using trim_entries [OF assms(1,2)] by blast
  then show ?thesis using assms(4) by (simp add: regions_def sub64)
qed

lemma above_entries:
  assumes "ordered (map region R)"
  shows "above (unat ne) (map region R) = (case dropWhile (\<lambda>e. end64 e \<le> ne) R of [] \<Rightarrow> []
    | e # D \<Rightarrow> (if e820_base_64 e < ne then (unat ne, unat (end64 e) - unat ne, mm_type e) else region e) # map region D)"
proof -
  have pr: "\<forall>e \<in> set R. proper (region e)" using assms by (simp add: ordered_def)
  show ?thesis
  proof (cases "dropWhile (\<lambda>e. end64 e \<le> ne) R")
    case (Cons e D)
    then have "e \<in> set R" by (metis list.set_intros(1) set_dropWhileD)
    then have "unat (end64 e) = unat (e820_base_64 e) + unat (e820_length_64 e)" using pr end64_nat by blast
    then show ?thesis
      using Cons by (simp add: above_dropWhile [OF assms] dropWhile_regions [OF pr]) (simp add: region_def word_less_nat_alt)
  next
    case Nil
    show ?thesis unfolding above_dropWhile [OF assms] dropWhile_regions [OF pr] Nil by simp
  qed
qed

lemma finish_regions:
  assumes pl: "placed a l t rs i s" "i < nr_map s" and rs: "ordered rs" and no_wrap: "unat a + unat l < 2 ^ 64" and l: "0 < l"
    and j: "j = i + 1" and s1: "s1 = delete_covered (a + l) j (end64 (entry_at s j)) s"
  shows "regions (if j < nr_map s1 then if a + l > e820_base_64 (entry_at s1 j) then trim_to (a + l) (end64 (entry_at s1 j)) j s1 else s1 else s1) =
      protect (unat a) (unat l) t rs"
    "end64 (entry_at s j) > a + l \<Longrightarrow> a \<ge> e820_base_64 (entry_at s j) \<Longrightarrow>
     regions (trim_to (a + l) (end64 (entry_at s j)) j s) = protect (unat a) (unat l) t rs"
proof -
  obtain P R X where es: "entries s = P @ new_entry a l t # R" "R \<noteq> []" "unat i = length P"
    and P: "map region P = below (unat a) rs" and X: "rs = X @ map region R" "\<forall>r \<in> set X. fst r + fst (snd r) \<le> unat a"
    using pl(1) unfolding placed_def by blast
  let ?P = "P @ [new_entry a l t]" and ?ne = "a + l"
  have uj: "unat j = length ?P" using u32_next [OF pl(2)] es(3) j by simp
  have ne: "unat ?ne = unat a + unat l" using no_wrap by (rule u64_add)
  have oR: "ordered (map region R)" using rs X(1) by simp
  have sp: "protect (unat a) (unat l) t rs = map region ?P @ above (unat ?ne) (map region R)"
    using X above_none [of X "unat ?ne"] P by (fastforce simp: protect_def ne)
  have es': "entries s = ?P @ R" using es(1) by simp
  obtain e D where R: "R = e # D" using es(2) by (cases R) auto
  have tmp: "entry_at s j = e" using at_split(2) [OF _ uj, of s e D] es' R by simp
  have d: "entries s1 = ?P @ dropWhile (\<lambda>e. end64 e \<le> ?ne) R"
    unfolding s1 by (rule delete_covered_entries [OF es' uj]) (simp add: R tmp)
  show "regions (if j < nr_map s1 then if a + l > e820_base_64 (entry_at s1 j) then trim_to (a + l) (end64 (entry_at s1 j)) j s1 else s1 else s1) =
      protect (unat a) (unat l) t rs"
  proof (cases "dropWhile (\<lambda>e. end64 e \<le> ?ne) R")
    case Nil
    have es1: "entries s1 = ?P" using d unfolding Nil by simp
    then have "j = nr_map s1" using uj by (rule end_split)
    then show ?thesis using es1 unfolding sp above_entries [OF oR] Nil by (simp add: regions_def)
  next
    case (Cons e' D')
    have at: "j < nr_map s1" "entry_at s1 j = e'" using at_split [OF _ uj] d Cons by auto
    have e': "e' \<in> set R" using Cons by (metis list.set_intros(1) set_dropWhileD)
    have gt: "\<not> end64 e' \<le> ?ne" using Cons hd_dropWhile [of "\<lambda>e. end64 e \<le> ?ne" R] by auto
    have pe: "proper (region e')" using oR e' by (auto simp: ordered_def)
    show ?thesis
    proof (cases "e820_base_64 e' < ?ne")
      case True
      then show ?thesis using trimmed [OF _ uj pe _ True, of s1 D'] d Cons gt at
        by (simp add: sp above_entries [OF oR])
    qed (use d Cons at in \<open>simp add: sp above_entries [OF oR] regions_def\<close>)
  qed
  show "regions (trim_to ?ne (end64 (entry_at s j)) j s) = protect (unat a) (unat l) t rs"
    if lt: "end64 (entry_at s j) > ?ne" "a \<ge> e820_base_64 (entry_at s j)"
  proof -
    have "e820_base_64 e < ?ne" using lt l ne by (simp add: tmp word_less_nat_alt word_le_nat_alt)
    moreover have "proper (region e)" using oR R by simp
    moreover from calculation(1) have ab: "above (unat ?ne) (map region R) = (unat ?ne, unat (end64 e) - unat ?ne, mm_type e) # map region D"
      using above_entries [OF oR, of ?ne] lt(1) leD [of ?ne "end64 e"] unfolding R by (auto simp: tmp)
    ultimately show ?thesis
      using trimmed [OF _ uj, of s e D ?ne] lt(1) R es' unfolding sp ab tmp by simp
  qed
qed

lemma protect_region_regions:
  assumes wf: "e820_wf s" and room: "unat (nr_map s) < 255" and l: "0 < l" and no_wrap: "unat a + unat l < 2 ^ 64"
    and first: "nr_map s = 0 \<or> e820_base_64 (entry_at s 0) < a"
  shows "\<exists>s'. protect_region a l t s = (True, s') \<and> regions s' = protect (unat a) (unat l) t (regions s)"
proof -
  have ord: "ordered (regions s)" using wf by (simp add: e820_wf_def)
  have hd: "e820_base_64 (hd (entries s)) < a" if "entries s \<noteq> []"
    using that first entries_nth [of 0 s] by (cases "entries s") (auto simp: word_less_nat_alt dest: arg_cong [of _ _ length])
  obtain i s1 where sr: "protect_search a l t 0 s = Inr (i, s1)"
    and res: "s1 = s \<and> i = nr_map s \<and> (\<forall>e \<in> set (entries s). end64 e \<le> a) \<or> placed a l t (regions s) i s1 \<and> i < nr_map s1"
    using search_result [of s "[]" "entries s" 0 a l t] room ord hd by auto
  have go: "l \<noteq> 0" "\<not> a + l < a" using l u64_add [OF no_wrap] by (auto simp: word_less_nat_alt)
  from res show ?thesis
  proof
    assume end': "s1 = s \<and> i = nr_map s \<and> (\<forall>e \<in> set (entries s). end64 e \<le> a)"
    obtain b s' where ins: "insert_after_region s (nr_map s - 1) a l t = (b, s')" by (cases "insert_after_region s (nr_map s - 1) a l t")
    then have "b" "entries s' = entries s @ [new_entry a l t]" using insert_end [OF _ ins] room by simp_all
    then show ?thesis
      using go sr end' ins protect_at_end [OF ord, of a l t] by (simp add: protect_region_def regions_def)
  next
    assume pl: "placed a l t (regions s) i s1 \<and> i < nr_map s1"
    note fin = finish_regions [OF conjunct1 [OF pl] conjunct2 [OF pl] ord no_wrap l refl refl]
    show ?thesis using go sr pl fin
      by (auto simp: protect_region_def Let_def end64_def [symmetric] not_le split: if_splits)
  qed
qed

text \<open>
  C5: \<open>protect_region\<close> changes the type of one range and of nothing else, under these conditions: the table
  is in order and has two free entries, the range is not empty and does not wrap around, and it begins
  behind the base of the first entry (or the table is empty). Then every address of the range has the new
  type, every other address keeps its type (or stays in a gap), and the table is in order. The condition on
  the first entry is needed: a range that begins at or before it overwrites that entry instead of going
  in front of it, as \<open>protect_region_loses_first\<close> below shows.
\<close>

theorem protect_region_types:
  assumes "e820_wf s" "unat (nr_map s) < 255" "0 < l" "unat a + unat l < 2 ^ 64"
    and "nr_map s = 0 \<or> e820_base_64 (entry_at s 0) < a"
  shows "\<exists>s'. protect_region a l t s = (True, s') \<and> ordered (regions s') \<and>
    (\<forall>x. type_at (regions s') x = (if unat a \<le> x \<and> x < unat a + unat l then Some t else type_at (regions s) x))"
proof -
  obtain s' where "protect_region a l t s = (True, s')" "regions s' = protect (unat a) (unat l) t (regions s)"
    using protect_region_regions [OF assms] by blast
  moreover have "ordered (protect (unat a) (unat l) t (regions s))"
    using assms by (intro ordered_protect) (auto simp: e820_wf_def word_less_nat_alt)
  ultimately show ?thesis by (simp add: type_at_protect)
qed

text \<open>A table with RAM from 0 to 640 KB and from 1 MB to 2 MB.\<close>

definition pc_map :: e820 where
  "pc_map = \<lparr>e820map = (\<lambda>i. if i = 0 then new_entry 0 0xa0000 E820_RAM else new_entry 0x100000 0x100000 E820_RAM), nr_map = 2\<rparr>"

lemma pc_map_regions: "regions pc_map = [(0, 0xa0000, E820_RAM), (0x100000, 0x100000, E820_RAM)]"
  by (simp add: pc_map_def regions_def entries_def upt_conv_Cons)

lemma pc_map_wf: "e820_wf pc_map"
  by (simp add: e820_wf_def pc_map_regions) (simp add: pc_map_def proper_def apart_def)

theorem protect_region_types_witness:
  "\<exists>s'. protect_region 0x180000 0x1000 E820_RESERVED pc_map = (True, s') \<and>
    type_at (regions s') 0x180fff = Some E820_RESERVED \<and> type_at (regions s') 0x181000 = Some E820_RAM"
  using protect_region_types [OF pc_map_wf, of "0x1000" "0x180000" E820_RESERVED]
  unfolding pc_map_regions by (auto simp: pc_map_def entry_at_def)

text \<open>
  A region that starts at or before the first entry destroys it: \<open>i - 1\<close> wraps, the entries are
  not shifted and the new one is written over the first. Reserving the first page of RAM loses the
  other 636 KB: the table says gap where there was RAM.
\<close>

theorem protect_region_loses_first:
  "\<exists>s'. protect_region 0 0x1000 E820_RESERVED pc_map = (True, s') \<and> type_at (regions pc_map) 0x1000 = Some E820_RAM \<and>
    type_at (regions s') 0x1000 = None"
proof -
  have sh: "shift_up m 1 (- 1) = m" for m by (subst shift_up.simps) simp
  have ins: "insert_after_region pc_map (0 - 1) 0 0x1000 E820_RESERVED =
      (True, \<lparr>e820map = (e820map pc_map)(0 := new_entry 0 0x1000 E820_RESERVED), nr_map = 3\<rparr>)"
    by (simp add: insert_after_region_def sh MAX_E820_ENTRIES_def) (simp add: pc_map_def sh)
  let ?s = "\<lparr>e820map = (e820map pc_map)(0 := new_entry 0 0x1000 E820_RESERVED), nr_map = 3\<rparr>"
  have "protect_search 0 0x1000 E820_RESERVED 0 pc_map = Inr (0, ?s)"
    using ins by (subst protect_search.simps) (simp add: pc_map_def entry_at_def Let_def)
  moreover have "delete_covered 0x1000 1 0x200000 ?s = ?s" by (subst delete_covered.simps) simp
  ultimately have "protect_region 0 0x1000 E820_RESERVED pc_map = (True, ?s)"
    by (simp add: protect_region_def Let_def entry_at_def) (simp add: pc_map_def)
  moreover have "regions ?s = [(0, 0x1000, E820_RESERVED), (0x100000, 0x100000, E820_RAM), (0x100000, 0x100000, E820_RAM)]"
    by (simp add: regions_def entries_def upt_conv_Cons pc_map_def)
  ultimately show ?thesis by (simp add: pc_map_regions)
qed

end
