(* ===== verification/E820_Query.thy ===== *)
theory E820_Query
  imports E820_Correct
begin

text \<open>
  The answer of \<open>e820_check_region\<close>: the gaps and regions it visits tile the address space, so a range
  is RAM exactly when all its addresses are.
\<close>

section \<open>Asking for the type of a range\<close>

text \<open>The gaps and regions that tile the addresses from \<open>k\<close> up to the end of the last region, and this end.\<close>

fun tiles :: "nat \<Rightarrow> region list \<Rightarrow> region list" where
  "tiles k [] = []"
| "tiles k ((b, l, t) # rs) = (k, b - k, E820_GAP) # (b, l, t) # tiles (b + l) rs"

fun top_of :: "nat \<Rightarrow> region list \<Rightarrow> nat" where
  "top_of k [] = k"
| "top_of k ((b, l, t) # rs) = top_of (b + l) rs"

definition meets :: "nat \<Rightarrow> nat \<Rightarrow> region \<Rightarrow> bool" where
  "meets a n r \<longleftrightarrow> 0 < fst (snd r) \<and> a < fst r + fst (snd r) \<and> fst r < a + n"

definition tally :: "nat \<Rightarrow> nat \<Rightarrow> region \<Rightarrow> u32 \<Rightarrow> u32" where
  "tally a n r ret = (if meets a n r then merge_type ret (snd (snd r)) else ret)"

lemma is_overlapped_meets:
  assumes "0 < len" "unat base + unat len < 2 ^ 64" "0 < el" "unat eb + unat el < 2 ^ 64" "unat len + unat el < 2 ^ 64"
  shows "is_overlapped base (base + len) eb (eb + el) \<longleftrightarrow> meets (unat base) (unat len) (unat eb, unat el, t)"
proof -
  have e: "unat (base + len) = unat base + unat len" "unat (eb + el) = unat eb + unat el" "unat (len + el) = unat len + unat el"
    using assms by (auto intro: u64_add)
  have pos: "0 < unat len" "0 < unat el" using assms(1,3) by (simp_all add: word_less_nat_alt)
  let ?lo = "if base < eb then base else eb" and ?hi = "if base + len > eb + el then base + len else eb + el"
  have mm: "unat ?lo = min (unat base) (unat eb)" "unat ?hi = max (unat base + unat len) (unat eb + unat el)"
    by (auto simp: e word_less_nat_alt)
  have le: "?lo \<le> ?hi" unfolding word_le_nat_alt mm by simp
  have "unat (?hi - ?lo) = max (unat base + unat len) (unat eb + unat el) - min (unat base) (unat eb)"
    unfolding sub64 [OF le] mm by simp
  then have "?hi - ?lo < len + el \<longleftrightarrow> meets (unat base) (unat len) (unat eb, unat el, t)"
    unfolding word_less_nat_alt e meets_def using pos by (simp add: min_def max_def) arith
  moreover have "len \<noteq> 0" "el \<noteq> 0" using pos by auto
  ultimately show ?thesis unfolding is_overlapped_def Let_def by simp
qed

text \<open>One round of the loop on a gap or region of the table.\<close>

lemma tally_step:
  assumes "0 < len" "unat base + unat len < 2 ^ 64" "unat len < 2 ^ 63" "unat eb + unat el < 2 ^ 63"
  shows "(if el = 0 then ret else if \<not> is_overlapped base (base + len) eb (eb + el) then ret else merge_type ret t) =
    tally (unat base) (unat len) (unat eb, unat el, t) ret"
proof (cases "el = 0")
  case False
  then have "0 < el" by (simp add: word_gt_0)
  then have "is_overlapped base (base + len) eb (eb + el) \<longleftrightarrow> meets (unat base) (unat len) (unat eb, unat el, t)"
    using assms by (intro is_overlapped_meets) simp_all
  then show ?thesis using False by (simp add: tally_def)
qed (simp add: tally_def meets_def)

lemma check_loop_tally:
  assumes "0 < len" "unat base + unat len < 2 ^ 64" "unat len < 2 ^ 63"
    and "entries s = P @ Q" "unat i = length P" "ordered (map region Q)" "\<forall>e \<in> set Q. unat (eb + el) \<le> unat (e820_base_64 e) \<and> unat (end64 e) < 2 ^ 63"
  shows "\<exists>eb' el'. check_loop s base (base + len) i True eb el ret =
      (eb', el', fold (tally (unat base) (unat len)) (tiles (unat (eb + el)) (map region Q)) ret) \<and>
    unat (eb' + el') = top_of (unat (eb + el)) (map region Q)"
  using assms(4-)
proof (induction Q arbitrary: P i eb el ret)
  case Nil
  then have "i = nr_map s" by (simp add: end_split)
  then show ?case by (subst check_loop.simps) simp
next
  case (Cons e Q)
  note at = at_split [OF Cons.prems(1,2)]
  let ?k = "eb + el" and ?b = "e820_base_64 e" and ?l = "e820_length_64 e"
  have e: "unat ?k \<le> unat ?b" "unat ?b + unat ?l < 2 ^ 63" "unat (end64 e) = unat ?b + unat ?l"
    using Cons.prems(3,4) end64_nat [of e] by auto
  have gap: "unat (?b - ?k) = unat ?b - unat ?k" using e(1) by (intro sub64) (simp add: word_le_nat_alt)
  let ?T = "tally (unat base) (unat len)"
  let ?r1 = "?T (unat ?k, unat ?b - unat ?k, E820_GAP) ret"
  let ?r2 = "?T (region e) ?r1"
  have 1: "(if ?b - ?k = 0 then ret else if \<not> is_overlapped base (base + len) ?k (?k + (?b - ?k)) then ret else merge_type ret E820_GAP) = ?r1"
    using tally_step [OF assms(1-3), of ?k "?b - ?k" ret E820_GAP] e gap by simp
  have 2: "(if ?l = 0 then ?r1 else if \<not> is_overlapped base (base + len) ?b (?b + ?l) then ?r1 else merge_type ?r1 (mm_type e)) = ?r2"
    using tally_step [OF assms(1-3), of ?b ?l ?r1 "mm_type e"] e by (simp add: region_def)
  have "check_loop s base (base + len) i True eb el ret = check_loop s base (base + len) i False ?k (?b - ?k) ?r1"
    using at 1 by (subst check_loop.simps) (simp add: Let_def)
  also have "\<dots> = check_loop s base (base + len) (i + 1) True ?b ?l ?r2"
    using at 2 by (subst check_loop.simps) (simp add: Let_def)
  finally have run: "check_loop s base (base + len) i True eb el ret = check_loop s base (base + len) (i + 1) True ?b ?l ?r2" .
  have u: "unat (i + 1) = length (P @ [e])" using u32_next [OF at(1)] Cons.prems(2) by simp
  have "\<forall>e' \<in> set Q. unat (?b + ?l) \<le> unat (e820_base_64 e') \<and> unat (end64 e') < 2 ^ 63"
    using Cons.prems(3,4) e(3) by (auto simp: apart_def end64_def region_def)
  then have "\<exists>eb' el'. check_loop s base (base + len) (i + 1) True ?b ?l ?r2 = (eb', el', fold ?T (tiles (unat (?b + ?l)) (map region Q)) ?r2) \<and>
      unat (eb' + el') = top_of (unat (?b + ?l)) (map region Q)"
    using Cons.prems(1,3) u by (intro Cons.IH [of "P @ [e]"]) simp_all
  moreover have "unat (?b + ?l) = unat ?b + unat ?l" using e(3) by (simp add: end64_def)
  moreover have "region e = (unat ?b, unat ?l, mm_type e)" by (simp add: region_def)
  ultimately show ?case unfolding run by simp
qed

lemma merge_type_RAM:
  "t \<noteq> 0 \<Longrightarrow> merge_type r t = E820_RAM \<longleftrightarrow> (r = 0 \<or> r = E820_RAM) \<and> t = E820_RAM" "t \<noteq> 0 \<Longrightarrow> merge_type r t \<noteq> 0"
  by (auto simp: merge_type_def E820_GAP_def E820_MIXED_def)

lemma tally_RAM:
  assumes "\<forall>r \<in> set rs. snd (snd r) \<noteq> 0"
  shows "fold (tally a n) rs ret = E820_RAM \<longleftrightarrow>
    (\<forall>r \<in> set rs. meets a n r \<longrightarrow> snd (snd r) = E820_RAM) \<and> (ret = E820_RAM \<or> ret = 0 \<and> (\<exists>r \<in> set rs. meets a n r))"
  using assms by (induction rs arbitrary: ret) (auto simp: tally_def merge_type_RAM)

lemma tiles_types: "\<forall>r \<in> set rs. snd (snd r) \<noteq> 0 \<Longrightarrow> \<forall>r \<in> set (tiles k rs). snd (snd r) \<noteq> 0"
  by (induction k rs rule: tiles.induct) (auto simp: E820_GAP_def)

text \<open>An address has the type of its tile.\<close>

lemma type_at_above_all: "\<forall>r \<in> set rs. x < fst r \<Longrightarrow> type_at rs x = None"
  by (induction rs) auto

lemma tiles_type_at:
  assumes "ordered rs" "\<forall>r \<in> set rs. k \<le> fst r" "(b, l, t) \<in> set (tiles k rs)" "b \<le> x" "x < b + l" "\<forall>r \<in> set rs. snd (snd r) \<noteq> E820_GAP"
  shows "k \<le> x \<and> type_at rs x = (if t = E820_GAP then None else Some t)"
  using assms
proof (induction k rs rule: tiles.induct)
  case (2 k b' l' t' rs)
  have ord: "ordered rs" "\<forall>r \<in> set rs. b' + l' \<le> fst r" "k \<le> b'" using 2(2,3) by (auto simp: apart_def)
  from 2(4) consider "(b, l, t) = (k, b' - k, E820_GAP)" | "(b, l, t) = (b', l', t')" | "(b, l, t) \<in> set (tiles (b' + l') rs)" by auto
  then show ?case
  proof cases
    case 1
    then have "type_at rs x = None" using ord 2(5,6) by (intro type_at_above_all) fastforce
    then show ?thesis using 1 2(5,6) by auto
  next
    case 2
    then show ?thesis using ord "2.prems" by auto
  next
    case 3
    then show ?thesis using 2(1) [OF ord(1,2) 3 2(5,6)] 2(7) ord(3) by auto
  qed
qed simp

lemma tiles_cover:
  assumes "ordered rs" "\<forall>r \<in> set rs. k \<le> fst r" "k \<le> x" "x < top_of k rs"
  shows "\<exists>(b, l, t) \<in> set (tiles k rs). b \<le> x \<and> x < b + l"
  using assms
proof (induction k rs rule: tiles.induct)
  case (2 k b' l' t' rs)
  have ord: "ordered rs" "\<forall>r \<in> set rs. b' + l' \<le> fst r" "k \<le> b'" using 2(2,3) by (auto simp: apart_def)
  consider "x < b'" | "b' \<le> x" "x < b' + l'" | "b' + l' \<le> x" by linarith
  then show ?case
  proof cases
    case 3
    then show ?thesis using 2(1) [OF ord(1,2) 3] 2(5) by auto
  qed (use 2(4) ord(3) in auto)
qed simp

lemma top_of_le: "ordered rs \<Longrightarrow> \<forall>r \<in> set rs. k \<le> fst r \<Longrightarrow> k \<le> top_of k rs \<and> (\<forall>r \<in> set rs. fst r + fst (snd r) \<le> top_of k rs)"
  by (induction k rs rule: top_of.induct) (fastforce simp: apart_def)+

lemma type_at_top: "ordered rs \<Longrightarrow> top_of 0 rs \<le> x \<Longrightarrow> type_at rs x = None"
  using top_of_le [of rs 0] by (force simp: type_at_def find_None_iff covers_def)

lemma top_of_less: "\<forall>r \<in> set rs. fst r + fst (snd r) < m \<Longrightarrow> k < m \<Longrightarrow> top_of k rs < m"
  by (induction k rs rule: top_of.induct) auto

lemma e820_check_region_RAM_iff:
  assumes "e820_wf s" "\<forall>r \<in> set (regions s). fst r + fst (snd r) < 2 ^ 63 \<and> snd (snd r) \<noteq> 0 \<and> snd (snd r) \<noteq> E820_GAP"
    and "0 < len" "unat base + unat len < 2 ^ 64" "unat len \<le> top_of 0 (regions s)"
  shows "e820_check_region base len s = E820_RAM \<longleftrightarrow>
    (\<forall>x. unat base \<le> x \<and> x < unat base + unat len \<longrightarrow> type_at (regions s) x = Some E820_RAM)"
proof -
  let ?rs = "regions s" and ?a = "unat base" and ?n = "unat len"
  have ord: "ordered ?rs" using assms(1) by (simp add: e820_wf_def)
  have K: "top_of 0 ?rs < 2 ^ 63" using assms(2) by (intro top_of_less) auto
  have ends: "\<forall>e \<in> set (entries s). unat (end64 e) < 2 ^ 63"
    using ord assms(2) end64_nat by (auto simp: regions_def ordered_def) (simp add: region_def)
  obtain eb el where lp: "check_loop s base (base + len) 0 True 0 0 0 = (eb, el, fold (tally ?a ?n) (tiles 0 ?rs) 0)"
    "unat (eb + el) = top_of 0 ?rs"
    using check_loop_tally [of len base s "[]" "entries s" 0 0 0 0] assms(3-5) K ord ends by (auto simp: regions_def)
  let ?K = "eb + el"
  have n: "0 < ?n" using assms(3) by (simp add: word_less_nat_alt)
  have m1: "unat (- 1 - ?K) = 2 ^ 64 - 1 - top_of 0 ?rs" using lp(2) by (subst sub64) (simp_all add: unsigned_minus_1_eq_mask mask_eq_exp_minus_1)
  have "is_overlapped base (base + len) ?K (?K + (- 1 - ?K)) \<longleftrightarrow> meets ?a ?n (unat ?K, unat (- 1 - ?K), 0)"
    using assms(3-5) K lp(2) m1 by (intro is_overlapped_meets) (simp_all add: word_less_nat_alt)
  then have last: "is_overlapped base (base + len) ?K (- 1) \<longleftrightarrow> top_of 0 ?rs < ?a + ?n"
    using m1 lp(2) K n assms(4) by (auto simp: meets_def)
  have t0: "\<forall>r \<in> set (tiles 0 ?rs). snd (snd r) \<noteq> 0" using assms(2) by (intro tiles_types) auto
  have "e820_check_region base len s = E820_RAM \<longleftrightarrow> \<not> top_of 0 ?rs < ?a + ?n \<and>
      (\<forall>r \<in> set (tiles 0 ?rs). meets ?a ?n r \<longrightarrow> snd (snd r) = E820_RAM) \<and> (\<exists>r \<in> set (tiles 0 ?rs). meets ?a ?n r)"
    using tally_RAM [OF t0, of ?a ?n 0] by (simp add: e820_check_region_def lp last) (simp add: E820_GAP_def)
  also have "\<dots> \<longleftrightarrow> (\<forall>x. ?a \<le> x \<and> x < ?a + ?n \<longrightarrow> type_at ?rs x = Some E820_RAM)" (is "?L = ?R")
  proof
    assume L: ?L
    show ?R
    proof (intro allI impI)
      fix x assume x: "?a \<le> x \<and> x < ?a + ?n"
      then obtain b l t where tile: "(b, l, t) \<in> set (tiles 0 ?rs)" "b \<le> x" "x < b + l" using tiles_cover [OF ord, of 0 x] L by auto
      then have "t = E820_RAM" using L x by (auto simp: meets_def dest!: bspec [of _ _ "(b, l, t)"])
      then show "type_at ?rs x = Some E820_RAM"
        using tiles_type_at [OF ord _ tile, of] assms(2) by (simp add: E820_GAP_def)
    qed
  next
    assume R: ?R
    have top: "\<not> top_of 0 ?rs < ?a + ?n"
    proof
      assume "top_of 0 ?rs < ?a + ?n"
      then have "type_at ?rs (?a + ?n - 1) = None" by (intro type_at_top [OF ord]) simp
      then show False using R n by auto
    qed
    have "snd (snd r) = E820_RAM" if r: "r \<in> set (tiles 0 ?rs)" "meets ?a ?n r" for r
    proof -
      obtain b l t where rr: "r = (b, l, t)" by (cases r)
      let ?x = "max ?a b"
      have "b \<le> ?x" "?x < b + l" "?a \<le> ?x" "?x < ?a + ?n" using r(2) n by (auto simp: rr meets_def)
      then show ?thesis using tiles_type_at [OF ord _ r(1) [unfolded rr], of ?x] R assms(2) by (auto simp: rr split: if_splits)
    qed
    moreover have "\<exists>r \<in> set (tiles 0 ?rs). meets ?a ?n r"
    proof -
      have "?a < top_of 0 ?rs" using top n by simp
      then obtain b l t where "(b, l, t) \<in> set (tiles 0 ?rs)" "b \<le> ?a" "?a < b + l" using tiles_cover [OF ord, of 0 ?a] by auto
      then show ?thesis using n by (intro bexI [of _ "(b, l, t)"]) (auto simp: meets_def)
    qed
    ultimately show ?L using top by blast
  qed
  finally show ?thesis .
qed

text \<open>
  C6: \<open>e820_check_region\<close> answers \<open>E820_RAM\<close> exactly when every address of the range is RAM, under these
  conditions: the table is in order, its entries end below 2^63 and none has the type 0 or the type that
  stands for a gap; the range is not empty, does not wrap around and is not longer than the end of the last
  entry. The last condition is needed: for a longer range the code can answer RAM for memory that is
  in no entry, as \<open>e820_check_region_wraps\<close> below shows.
\<close>

theorem e820_check_region_RAM:
  assumes "e820_wf s" "\<forall>r \<in> set (regions s). fst r + fst (snd r) < 2 ^ 63 \<and> snd (snd r) \<noteq> 0 \<and> snd (snd r) \<noteq> E820_GAP"
    and "0 < len" "unat base + unat len < 2 ^ 64" "unat len \<le> top_of 0 (regions s)"
  shows "e820_check_region base len s = E820_RAM \<longleftrightarrow>
    (\<forall>x. unat base \<le> x \<and> x < unat base + unat len \<longrightarrow> type_at (regions s) x = Some E820_RAM)"
  using assms by (rule e820_check_region_RAM_iff)

theorem e820_check_region_RAM_witness:
  "e820_check_region 0x140000 0x1000 pc_map = E820_RAM \<and> e820_check_region 0x9f000 0x2000 pc_map \<noteq> E820_RAM"
proof -
  have h: "\<forall>r \<in> set (regions pc_map). fst r + fst (snd r) < 2 ^ 63 \<and> snd (snd r) \<noteq> 0 \<and> snd (snd r) \<noteq> E820_GAP"
    by (simp add: pc_map_regions E820_GAP_def)
  have "e820_check_region 0x140000 0x1000 pc_map = E820_RAM"
    using e820_check_region_RAM [OF pc_map_wf h, of "0x1000" "0x140000"] by (simp add: pc_map_regions)
  moreover have "\<not> (\<forall>x. 0x9f000 \<le> x \<and> x < 0x9f000 + 0x2000 \<longrightarrow> type_at (regions pc_map) x = Some E820_RAM)"
    by (rule notI, drule spec [of _ "0xa0000"]) (simp add: pc_map_regions)
  then have "e820_check_region 0x9f000 0x2000 pc_map \<noteq> E820_RAM"
    using e820_check_region_RAM [OF pc_map_wf h, of "0x2000" "0x9f000"] by (simp add: pc_map_regions)
  ultimately show ?thesis by simp
qed

text \<open>
  For a longer range the sum of the lengths in \<open>is_overlapped\<close> wraps and the last gap is missed: a range
  of 2 MB and one byte from 0 is called RAM in a table that ends at 2 MB.
\<close>

theorem e820_check_region_wraps:
  "e820_check_region 0 0x200001 \<lparr>e820map = (\<lambda>_. new_entry 0 0x200000 E820_RAM), nr_map = 1\<rparr> = E820_RAM \<and>
   type_at (regions \<lparr>e820map = (\<lambda>_. new_entry 0 0x200000 E820_RAM), nr_map = 1\<rparr>) 0x200000 = None"
proof -
  let ?s = "\<lparr>e820map = (\<lambda>_. new_entry 0 0x200000 E820_RAM), nr_map = 1\<rparr>"
  have "check_loop ?s 0 0x200001 0 True 0 0 0 = check_loop ?s 0 0x200001 0 False 0 0 0"
    by (subst check_loop.simps) (simp add: entry_at_def)
  also have "\<dots> = check_loop ?s 0 0x200001 1 True 0 0x200000 E820_RAM"
    by (subst check_loop.simps) (simp add: entry_at_def is_overlapped_def Let_def merge_type_def)
  also have "\<dots> = (0, 0x200000, E820_RAM)"
    by (subst check_loop.simps) simp
  finally have "e820_check_region 0 0x200001 ?s = E820_RAM"
    by (simp add: e820_check_region_def is_overlapped_def Let_def)
  then show ?thesis by (simp add: regions_def entries_def)
qed

end
