(* ===== verification/Loader_Correct.thy ===== *)
theory Loader_Correct
  imports Loader ACM_Correct E820_Query
begin

text \<open>
  What the loader's checks and edits do to a multiboot 1 information: the check of the modules against
  the memory map, and the removal of a module from the list.
\<close>

section \<open>Multiboot 1\<close>

abbreviation modules_of :: "mem \<Rightarrow> loader_ctx \<Rightarrow> nat" where
  "modules_of m c \<equiv> unat (ld32 m (lc_addr c + 20))"

abbreviation module_addr :: "mem \<Rightarrow> loader_ctx \<Rightarrow> u32 \<Rightarrow> u32" where
  "module_addr m c i \<equiv> ld32 m (lc_addr c + 24) + i * 16"

lemma not_bad [simp]: "lc_addr c \<noteq> 0 \<Longrightarrow> lc_type c = 1 \<Longrightarrow> \<not> LOADER_CTX_BAD (Some c)"
  by (simp add: LOADER_CTX_BAD_def)

lemma yields_get_module_count:
  assumes "lc_addr c \<noteq> 0" "lc_type c = 1"
  shows "yields (like s) (get_module_count (Some c)) (Ok (ld32 (i_mem s) (lc_addr c + 20))) (like s)"
  unfolding get_module_count_def using assms
  by (simp add: Let_def mb1_at_def) (intro yields_memE_then yields_returnE)

lemma yields_get_module:
  assumes "lc_addr c \<noteq> 0" "lc_type c = 1" "i < ld32 (i_mem s) (lc_addr c + 20)"
  shows "yields (like s) (get_module (Some c) i) (Ok (module_addr (i_mem s) c i)) (like s)"
proof -
  have "snd (loader_get_module_mb1 (i_mem s) (lc_addr c) i) = module_addr (i_mem s) c i"
    using assms by (simp add: loader_get_module_mb1_def mb1_at_def not_le [symmetric])
  then show ?thesis unfolding get_module_def using assms by (simp add: yields_runT_eq)
qed

lemma u32_succ: "i < (n :: u32) \<Longrightarrow> i + 1 \<le> n"
  using u32_next [of i n] by (simp add: word_less_nat_alt word_le_nat_alt)

lemma yields_verify_modules_loop:
  assumes "lc_addr c \<noteq> 0" "lc_type c = 1"
  shows "unat i + n = modules_of (i_mem s) c \<Longrightarrow>
    yields (like s) (verify_modules_loop (Some c) n i)
      (Ok (\<forall>j. unat i \<le> j \<and> j < modules_of (i_mem s) c \<longrightarrow>
         e820_check_region (ucast (module_start (i_mem s) (lc_addr c) (of_nat j)))
           (ucast (module_size (i_mem s) (lc_addr c) (of_nat j))) (g_e820 s) = E820_RAM)) (like s)"
proof (induction n arbitrary: i)
  case 0
  then show ?case by (auto intro: yields_ret)
next
  case (Suc n)
  let ?m = "i_mem s" and ?c = "modules_of (i_mem s) c"
  let ?ok = "\<lambda>j. e820_check_region (ucast (module_start ?m (lc_addr c) (of_nat j)))
      (ucast (module_size ?m (lc_addr c) (of_nat j))) (g_e820 s) = E820_RAM"
  have i: "i < ld32 ?m (lc_addr c + 20)" using Suc.prems by (simp add: word_less_nat_alt)
  have n: "unat (i + 1) = unat i + 1" by (rule u32_next [OF i])
  have all: "(\<forall>j. unat i \<le> j \<and> j < ?c \<longrightarrow> ?ok j) \<longleftrightarrow> ?ok (unat i) \<and> (\<forall>j. unat (i + 1) \<le> j \<and> j < ?c \<longrightarrow> ?ok j)"
    using ex_ge_step [of "unat i" ?c "\<lambda>j. \<not> ?ok j"] i n by (auto simp: word_less_nat_alt)
  have rest: "yields (like s) (verify_modules_loop (Some c) n (i + 1)) (Ok (\<forall>j. unat (i + 1) \<le> j \<and> j < ?c \<longrightarrow> ?ok j)) (like s)"
    by (rule Suc.IH) (use Suc.prems n in simp)
  show ?case unfolding verify_modules_loop.simps all Let_def
    by (intro yields_bind [OF yields_get_module [OF assms i]] yields_memE_then yields_getE [where a = "g_e820 s"] yields_if
        yields_tell_then yields_ret)
      (use rest in \<open>auto simp: like_parts module_at_def module_start_def module_size_def\<close>)
qed

lemma yields_verify_modules:
  assumes "lc_addr c \<noteq> 0" "lc_type c = 1"
  shows "yields (like s) (verify_modules (Some c))
      (Ok (\<forall>j < modules_of (i_mem s) c.
         e820_check_region (ucast (module_start (i_mem s) (lc_addr c) (of_nat j)))
           (ucast (module_size (i_mem s) (lc_addr c) (of_nat j))) (g_e820 s) = E820_RAM)) (like s)"
  unfolding verify_modules_def using assms
  by (auto intro!: yields_bind [OF yields_get_module_count [OF assms]] simp: yields_verify_modules_loop [OF assms, where i = 0, simplified])

text \<open>
  C13: \<open>verify_modules\<close> ends and says yes exactly when every byte of every module lies in memory that the
  map calls RAM, under these conditions: the information is of multiboot 1; the map is in order, its entries
  end below 2^63 and none has the type 0 or the type that stands for a gap; no module is empty and none is
  longer than the end of the last entry of the map. For a longer module \<open>e820_check_region\<close> can answer RAM for
  memory that is in no entry (\<open>e820_check_region_wraps\<close>), so that the equivalence fails there.
\<close>

theorem verify_modules_in_RAM:
  fixes s :: "'d intel"
  assumes "lc_addr c \<noteq> 0" "lc_type c = 1" "intel_ok s" "e820_wf (g_e820 s)"
    and "\<forall>r \<in> set (regions (g_e820 s)). fst r + fst (snd r) < 2 ^ 63 \<and> snd (snd r) \<noteq> 0 \<and> snd (snd r) \<noteq> E820_GAP"
    and "\<And>j. j < modules_of (i_mem s) c \<Longrightarrow> 0 < module_size (i_mem s) (lc_addr c) (of_nat j) \<and>
      unat (module_size (i_mem s) (lc_addr c) (of_nat j)) \<le> top_of 0 (regions (g_e820 s))"
  shows "\<exists>s'. verify_modules (Some c) s =
    (Ok (\<forall>j < modules_of (i_mem s) c. \<forall>x. unat (module_start (i_mem s) (lc_addr c) (of_nat j)) \<le> x \<and>
        x < unat (module_start (i_mem s) (lc_addr c) (of_nat j)) + unat (module_size (i_mem s) (lc_addr c) (of_nat j)) \<longrightarrow>
        type_at (regions (g_e820 s)) x = Some E820_RAM), s') \<and> like s s'"
proof -
  have u: "unat (ucast (v :: u32) :: u64) = unat v" for v using unat_u32_less [of v] by (simp add: unsigned_ucast_eq take_bit_nat_eq_self)
  have "e820_check_region (ucast (module_start (i_mem s) (lc_addr c) (of_nat j)))
        (ucast (module_size (i_mem s) (lc_addr c) (of_nat j))) (g_e820 s) = E820_RAM \<longleftrightarrow>
      (\<forall>x. unat (module_start (i_mem s) (lc_addr c) (of_nat j)) \<le> x \<and>
        x < unat (module_start (i_mem s) (lc_addr c) (of_nat j)) + unat (module_size (i_mem s) (lc_addr c) (of_nat j)) \<longrightarrow>
        type_at (regions (g_e820 s)) x = Some E820_RAM)" if "j < modules_of (i_mem s) c" for j
    using e820_check_region_RAM_iff [OF assms(4,5), of "ucast (module_size (i_mem s) (lc_addr c) (of_nat j))"
        "ucast (module_start (i_mem s) (lc_addr c) (of_nat j))"] assms(6) [OF that]
      unat_u32_less [of "module_start (i_mem s) (lc_addr c) (of_nat j)"]
      unat_u32_less [of "module_size (i_mem s) (lc_addr c) (of_nat j)"]
    by (simp add: u word_less_nat_alt)
  then show ?thesis
    using yieldsD [OF yields_verify_modules [OF assms(1,2), of s] like_refl [OF assms(3)]] by auto
qed

definition module_mem :: mem where
  "module_mem = st32 0x1014 1 (st32 0x1018 0x2000 (st32 0x2000 0x140000 (st32 0x2004 0x141000 (\<lambda>_. 0))))"

definition module_state :: "nat sim intel" where
  "module_state = (sim_intel module_mem 0)\<lparr>g_e820 := pc_map\<rparr>"

theorem verify_modules_in_RAM_witness:
  "\<exists>s'. verify_modules (Some \<lparr>lc_addr = 0x1000, lc_type = 1\<rparr>) module_state = (Ok True, s')"
proof -
  have m: "ld32 module_mem 0x1014 = 1" "ld32 module_mem 0x1018 = 0x2000" "ld32 module_mem 0x2000 = 0x140000"
    "ld32 module_mem 0x2004 = 0x141000" by (simp_all add: module_mem_def ld_st)
  have st: "intel_ok module_state" "i_mem module_state = module_mem" "g_e820 module_state = pc_map"
    using sim_intel_parts [of module_mem "0 :: nat"] by (simp_all add: module_state_def intel_ok_def)
  have h: "\<forall>r \<in> set (regions pc_map). fst r + fst (snd r) < 2 ^ 63 \<and> snd (snd r) \<noteq> 0 \<and> snd (snd r) \<noteq> E820_GAP"
    by (simp add: pc_map_regions E820_GAP_def)
  show ?thesis
    using verify_modules_in_RAM [where c = "\<lparr>lc_addr = 0x1000, lc_type = 1\<rparr>" and s = module_state] h pc_map_wf
    by (auto simp: st m module_start_def module_size_def pc_map_regions)
qed

section \<open>Removing a module\<close>

text \<open>The descriptors of the modules as byte strings.\<close>

definition descriptors :: "mem \<Rightarrow> loader_ctx \<Rightarrow> bytes list" where
  "descriptors m c = map (\<lambda>i. bytes_at m (module_addr m c (of_nat i)) 16) [0..<modules_of m c]"

text \<open>The search ends at the first module that starts at \<open>start\<close>.\<close>

lemma yields_remove_search:
  assumes "lc_addr c \<noteq> 0" "lc_type c = 1" "start \<noteq> 0" "j < modules_of (i_mem s) c"
    "module_start (i_mem s) (lc_addr c) (of_nat j) = start"
    "\<And>k. k < j \<Longrightarrow> module_start (i_mem s) (lc_addr c) (of_nat k) \<noteq> start"
  shows "unat i \<le> j \<Longrightarrow> unat i + n = modules_of (i_mem s) c \<Longrightarrow>
    yields (like s) (remove_search (Some c) start n i md) (Ok (of_nat j, module_addr (i_mem s) c (of_nat j))) (like s)"
proof (induction n arbitrary: i md)
  case 0
  then show ?case using assms(4) by simp
next
  case (Suc n)
  let ?m = "i_mem s"
  have i: "i < ld32 ?m (lc_addr c + 20)" using Suc.prems(2) by (simp add: word_less_nat_alt)
  have n: "unat (i + 1) = unat i + 1" by (rule u32_next [OF i])
  have hit: "ld32 ?m (module_addr ?m c i) = start \<longleftrightarrow> unat i = j"
    using assms(5) assms(6) [of "unat i"] Suc.prems(1) by (cases "unat i = j") (auto simp: module_start_def)
  show ?case unfolding remove_search.simps
  proof (intro yields_bind [OF yields_get_module [OF assms(1,2) i]] yields_memE_then yields_if)
    assume "start = 0 \<or> ld32 ?m (mod_start (module_at (module_addr ?m c i))) = start"
    then have "of_nat j = i" using hit assms(3) by (auto simp: module_at_def)
    then show "yields (like s) (returnE (i, module_addr ?m c i)) (Ok (of_nat j, module_addr ?m c (of_nat j))) (like s)"
      by (simp add: yields_returnE)
  next
    assume "\<not> (start = 0 \<or> ld32 ?m (mod_start (module_at (module_addr ?m c i))) = start)"
    then have "unat i \<noteq> j" using hit by (simp add: module_at_def)
    then show "yields (like s) (remove_search (Some c) start n (i + 1) (module_addr ?m c i))
        (Ok (of_nat j, module_addr ?m c (of_nat j))) (like s)"
      by (intro Suc.IH) (use Suc.prems n in auto)
  qed
qed

definition with_mem :: "'d intel \<Rightarrow> mem \<Rightarrow> 'd intel" where
  "with_mem s m = s\<lparr>i_world := (i_world s)\<lparr>w_mem := m\<rparr>\<rparr>"

lemma yields_setmemE: "yields (like s) (setmemE f) (Ok ()) (like (with_mem s (f (i_mem s))))"
proof (rule yieldsI)
  fix s' assume "like s s'"
  then obtain scr where scr: "screen_ok scr" "s' = s\<lparr>i_world := i_world s\<lparr>w_screen := scr\<rparr>\<rparr>" by (auto simp: like_def)
  have "like (with_mem s (f (i_mem s))) (s'\<lparr>i_world := (i_world s')\<lparr>w_mem := f (i_mem s')\<rparr>\<rparr>)"
    unfolding like_def by (intro conjI exI [of _ scr]) (simp_all add: scr with_mem_def)
  then show "\<exists>t. setmemE f s' = (Ok (), t) \<and> like (with_mem s (f (i_mem s))) t"
    by (simp add: setmemE_def on_world_def modifyE_def)
qed

lemma with_mem_mem [simp]: "i_mem (with_mem s m) = m" "with_mem (with_mem s m) m' = with_mem s m'"
  by (simp_all add: with_mem_def)

lemma yields_remove_module:
  assumes c: "lc_addr c \<noteq> 0" "lc_type c = 1" and "start \<noteq> 0" and j: "j < modules_of (i_mem s) c"
    "module_start (i_mem s) (lc_addr c) (of_nat j) = start"
    "\<And>k. k < j \<Longrightarrow> module_start (i_mem s) (lc_addr c) (of_nat k) \<noteq> start"
    and nz: "module_addr (i_mem s) c (of_nat j) \<noteq> 0"
  defines "md \<equiv> module_addr (i_mem s) c (of_nat j)"
    and "m1 \<equiv> memcpy_intel (module_addr (i_mem s) c (of_nat j)) (module_addr (i_mem s) c (of_nat j) + 16)
        ((ld32 (i_mem s) (lc_addr c + 20) - of_nat j - 1) * 16) (i_mem s)"
  shows "yields (like s) (remove_module (Some c) start) (Ok start)
    (like (with_mem s (st32 (lc_addr c + 20) (ld32 m1 (lc_addr c + 20) - 1) m1)))"
proof -
  have v: "yields (like s) (verify_loader_context (Some c)) (Ok True) (like s)"
    unfolding verify_loader_context_def using c j(1)
    by (auto intro!: yields_bind [OF yields_get_module_count [OF c]] yields_returnE simp: word_less_nat_alt)
  have r: "yields (like s) (remove_search (Some c) start (modules_of (i_mem s) c) 0 0) (Ok (of_nat j, md)) (like s)"
    unfolding md_def by (rule yields_remove_search) (use assms(3) c j in auto)
  have w: "yields (like (with_mem s m1)) (setmemE (\<lambda>m. st32 (lc_addr c + 20) (ld32 m (lc_addr c + 20) - 1) m)) (Ok ())
      (like (with_mem s (st32 (lc_addr c + 20) (ld32 m1 (lc_addr c + 20) - 1) m1)))"
    using yields_setmemE [of "with_mem s m1"] by simp
  have w1: "yields (like s) (setmemE (\<lambda>m. memcpy_intel md (md + 16) ((ld32 m (lc_addr c + 20) - of_nat j - 1) * 16) m)) (Ok ())
      (like (with_mem s m1))"
    using yields_setmemE [of s] by (simp add: m1_def md_def)
  show ?thesis unfolding remove_module_def
    apply (rule yields_bind [OF v])
    apply (simp only: not_True_eq_False if_False)
    apply (rule yields_bind [OF yields_get_module_count [OF c]], rule yields_bind [OF r])
    using nz c assms(3)
    by (auto simp: md_def [symmetric] mb1_at_def Let_def simp del: left_diff_distrib_numeral intro!: yields_bind [OF w1] yields_bind [OF w] yields_returnE)
qed

text \<open>The copy moves the later descriptors down by one place.\<close>

lemma memcpy_down:
  fixes A :: u32
  assumes "unat A + 16 * n \<le> 2 ^ 32" "j < n"
  defines "md \<equiv> A + of_nat j * 16"
  shows "memcpy_intel md (md + 16) ((of_nat n - of_nat j - 1) * 16) m =
      (\<lambda>a. if unat (a - md) < (n - 1 - j) * 16 then m (a + 16) else m a)"
    and "unat md = unat A + 16 * j"
proof -
  have n: "16 * n \<le> 2 ^ 32" using assms(1) by simp
  define L :: u32 where "L = of_nat ((n - 1 - j) * 16)"
  have len: "(of_nat n - of_nat j - 1) * 16 = L"
    using assms(2) by (simp add: L_def of_nat_diff algebra_simps)
  have ulen: "unat L = (n - 1 - j) * 16"
    unfolding L_def using n assms(2) by (simp only: unat_of_nat) (simp add: take_bit_nat_eq_self)
  have md: "md = A + of_nat (16 * j)" by (simp add: md_def mult.commute)
  show umd: "unat md = unat A + 16 * j"
  proof -
    have "unat (of_nat (16 * j) :: u32) = 16 * j" using n assms(2) by (simp only: unat_of_nat) (simp add: take_bit_nat_eq_self)
    then show ?thesis unfolding md using assms(1,2) by (subst u32_offset) simp_all
  qed
  have sh: "md + 16 + (a - md) = a + 16" for a by (simp add: algebra_simps)
  have "unat (md + 16) + (n - 1 - j) * 16 \<le> 2 ^ 32"
    using umd assms(1,2) by (simp add: unat_word_ariths)
  then show "memcpy_intel md (md + 16) ((of_nat n - of_nat j - 1) * 16) m =
      (\<lambda>a. if unat (a - md) < (n - 1 - j) * 16 then m (a + 16) else m a)"
    unfolding len using umd assms(1,2) by (subst memcpy_intel_eq) (simp_all add: ulen sh cong: if_cong)
qed

lemma moved_down:
  fixes A :: u32
  assumes "unat A + 16 * n \<le> 2 ^ 32" "j < n" "x < 16 * n"
  shows "memcpy_intel (A + of_nat j * 16) (A + of_nat j * 16 + 16) ((of_nat n - of_nat j - 1) * 16) m (A + of_nat x) =
    (if 16 * j \<le> x \<and> x < 16 * (n - 1) then m (A + of_nat (x + 16)) else m (A + of_nat x))"
proof -
  have n: "16 * n \<le> 2 ^ 32" using assms(1) by simp
  have d: "A + of_nat x - (A + of_nat j * 16) = of_nat x - of_nat (16 * j)" by simp
  have x: "unat (of_nat x :: u32) = x" using n assms(3) by (simp only: unat_of_nat) (simp add: take_bit_nat_eq_self)
  have ud: "unat (A + of_nat x - (A + of_nat j * 16)) = (if 16 * j \<le> x then x - 16 * j else 2 ^ 32 + x - 16 * j)"
    unfolding d using n assms(2) by (subst unat_sub_nat) (simp_all add: x)
  have "unat (A + of_nat x - (A + of_nat j * 16)) < (n - 1 - j) * 16 \<longleftrightarrow> 16 * j \<le> x \<and> x < 16 * (n - 1)"
    unfolding ud using n assms(2,3) by auto
  then show ?thesis unfolding memcpy_down(1) [OF assms(1,2)] by (simp add: algebra_simps)
qed

lemma moved_outside:
  fixes A :: u32
  assumes "unat A + 16 * n \<le> 2 ^ 32" "j < n" "\<And>x. x < 16 * n \<Longrightarrow> A + of_nat x \<noteq> a"
  shows "memcpy_intel (A + of_nat j * 16) (A + of_nat j * 16 + 16) ((of_nat n - of_nat j - 1) * 16) m a = m a"
proof -
  have "\<not> unat (a - (A + of_nat j * 16)) < (n - 1 - j) * 16"
  proof
    assume l: "unat (a - (A + of_nat j * 16)) < (n - 1 - j) * 16"
    have "A + of_nat (16 * j + unat (a - (A + of_nat j * 16))) = a" by simp
    moreover have "16 * j + unat (a - (A + of_nat j * 16)) < 16 * n" using l assms(2) by (auto dest!: less_imp_Suc_add)
    ultimately show False using assms(3) by blast
  qed
  then show ?thesis unfolding memcpy_down(1) [OF assms(1,2)] by simp
qed

text \<open>
  C14: \<open>remove_module\<close> of a module of a multiboot 1 list takes exactly the first descriptor with that
  start address out of the list: the descriptors before it stay, those behind it move up, the count goes
  down by one. The array of descriptors must not wrap around, not be at 0 and not overlap the count and
  the address of the array.
\<close>

theorem remove_module_removes:
  fixes s :: "'d intel"
  assumes "lc_addr c \<noteq> 0" "lc_type c = 1" "intel_ok s" "start \<noteq> 0" "j < modules_of (i_mem s) c"
    "module_start (i_mem s) (lc_addr c) (of_nat j) = start"
    "\<And>k. k < j \<Longrightarrow> module_start (i_mem s) (lc_addr c) (of_nat k) \<noteq> start"
    and room: "0 < unat (ld32 (i_mem s) (lc_addr c + 24))"
      "unat (ld32 (i_mem s) (lc_addr c + 24)) + 16 * modules_of (i_mem s) c \<le> 2 ^ 32"
    and apart: "\<And>x k. x < 16 * modules_of (i_mem s) c \<Longrightarrow> k < 8 \<Longrightarrow>
      ld32 (i_mem s) (lc_addr c + 24) + of_nat x \<noteq> lc_addr c + 20 + of_nat k"
  shows "\<exists>s'. remove_module (Some c) start s = (Ok start, s') \<and> modules_of (i_mem s') c = modules_of (i_mem s) c - 1 \<and>
    descriptors (i_mem s') c = take j (descriptors (i_mem s) c) @ drop (Suc j) (descriptors (i_mem s) c)"
proof -
  let ?m = "i_mem s" and ?n = "modules_of (i_mem s) c" and ?A = "ld32 (i_mem s) (lc_addr c + 24)"
  define md where "md = ?A + of_nat j * 16"
  define m1 where "m1 = memcpy_intel md (md + 16) ((ld32 ?m (lc_addr c + 20) - of_nat j - 1) * 16) ?m"
  define m2 where "m2 = st32 (lc_addr c + 20) (ld32 m1 (lc_addr c + 20) - 1) m1"
  have m1: "m1 (?A + of_nat x) = (if 16 * j \<le> x \<and> x < 16 * (?n - 1) then ?m (?A + of_nat (x + 16)) else ?m (?A + of_nat x))"
    if "x < 16 * ?n" for x
    using moved_down [OF room(2) assms(5) that, of ?m] by (simp add: m1_def md_def)
  have "unat md = unat ?A + 16 * j" unfolding md_def by (rule memcpy_down(2) [OF room(2) assms(5)])
  then have nz: "md \<noteq> 0" using room(1) by auto
  have out: "m1 (lc_addr c + 20 + of_nat k) = ?m (lc_addr c + 20 + of_nat k)" if "k < 8" for k
    using moved_outside [OF room(2) assms(5) apart [OF _ that], of ?m] by (simp add: m1_def md_def)
  have m2: "m2 (?A + of_nat x) = m1 (?A + of_nat x)" if "x < 16 * ?n" for x
    using apart [OF that, of 0] apart [OF that, of 1] apart [OF that, of 2] apart [OF that, of 3]
    by (simp add: m2_def st32_def)
  have words: "ld32 m1 (lc_addr c + 20) = ld32 ?m (lc_addr c + 20)" "ld32 m1 (lc_addr c + 24) = ?A"
    using out [of 0] out [of 1] out [of 2] out [of 3] out [of 4] out [of 5] out [of 6] out [of 7]
    by (simp_all add: ld32_def bytes_at_4 ac_simps)
  have cnt: "modules_of m2 c = ?n - 1" "ld32 m2 (lc_addr c + 24) = ?A"
    using words u32_prev [of 0 "ld32 ?m (lc_addr c + 20)"] assms(5) by (simp_all add: m2_def ld_st word_less_nat_alt)
  have desc: "descriptors m2 c = take j (descriptors ?m c) @ drop (Suc j) (descriptors ?m c)"
  proof (rule nth_equalityI)
    fix i assume "i < length (descriptors m2 c)"
    then have i: "i < ?n - 1" by (simp add: descriptors_def cnt)
    have "m2 (?A + of_nat i * 16 + of_nat k) = ?m (?A + of_nat (if i < j then i else Suc i) * 16 + of_nat k)" if "k < 16" for k
      using m2 [of "16 * i + k"] m1 [of "16 * i + k"] i that by (auto simp: algebra_simps split: if_splits)
    then have "bytes_at m2 (?A + of_nat i * 16) 16 = bytes_at ?m (?A + of_nat (if i < j then i else Suc i) * 16) 16"
      by (simp add: bytes_at_def)
    then show "descriptors m2 c ! i = (take j (descriptors ?m c) @ drop (Suc j) (descriptors ?m c)) ! i"
      using i assms(5) by (auto simp: descriptors_def cnt nth_append min_def)
  qed (use assms(5) in \<open>simp add: descriptors_def cnt\<close>)
  have "yields (like s) (remove_module (Some c) start) (Ok start) (like (with_mem s m2))"
    using yields_remove_module [OF assms(1,2,4-7)] nz by (simp add: m2_def m1_def md_def)
  from yieldsD [OF this like_refl [OF assms(3)]] obtain s' where "remove_module (Some c) start s = (Ok start, s')"
    "like (with_mem s m2) s'" by blast
  then show ?thesis using cnt desc like_parts(1) [of "with_mem s m2" s'] by auto
qed

definition two_mem :: mem where
  "two_mem = st32 0x1014 2 (st32 0x1018 0x2000 (st32 0x2000 0x4000 (st32 0x2010 0x5000 (\<lambda>_. 0))))"

theorem remove_module_removes_witness:
  "\<exists>s'. remove_module (Some \<lparr>lc_addr = 0x1000, lc_type = 1\<rparr>) 0x4000 (sim_intel two_mem (0 :: nat)) = (Ok 0x4000, s') \<and>
     descriptors (i_mem s') \<lparr>lc_addr = 0x1000, lc_type = 1\<rparr> = drop 1 (descriptors two_mem \<lparr>lc_addr = 0x1000, lc_type = 1\<rparr>)"
proof -
  let ?c = "\<lparr>lc_addr = 0x1000, lc_type = 1\<rparr>"
  have m: "ld32 two_mem 0x1014 = 2" "ld32 two_mem 0x1018 = 0x2000" "ld32 two_mem 0x2000 = 0x4000"
    by (simp_all add: two_mem_def ld_st)
  have apart: "(0x2000 :: u32) + of_nat x \<noteq> 0x1014 + of_nat k" if "x < 32" "k < 8" for x k
  proof
    assume "(0x2000 :: u32) + of_nat x = 0x1014 + of_nat k"
    then have "unat ((0x2000 :: u32) + of_nat x) = unat ((0x1014 :: u32) + of_nat k)" by (rule arg_cong)
    then show False using that by (simp add: unat_word_ariths unat_of_nat take_bit_nat_eq_self)
  qed
  show ?thesis
    using remove_module_removes [where c = ?c and s = "sim_intel two_mem (0 :: nat)" and start = "0x4000" and j = 0] apart
    by (auto simp: m module_start_def)
qed

end
