(* ===== verification/Linux_Correct.thy ===== *)
theory Linux_Correct
  imports Linux Loader_Correct
begin

text \<open>
  What the kernel loader leaves in memory: the place of the initial ramdisk in the memory map, the boot
  parameters and the command line.
\<close>

section \<open>Pages\<close>

lemma clear_low_bits: "p AND NOT (mask n) = p - take_bit n p" for p :: "'a::len word"
proof -
  have "take_bit n p AND (p AND NOT (mask n)) = 0" by (rule bit_word_eqI) (auto simp: bit_simps)
  then have "take_bit n p + (p AND NOT (mask n)) = take_bit n p OR p AND NOT (mask n)" by (rule disjunctive_add_eq_or)
  also have "\<dots> = p" by (rule bit_word_eqI) (auto simp: bit_simps)
  finally show ?thesis by (simp add: algebra_simps)
qed

lemma take_bit_le: "take_bit n p \<le> (p :: 'a::len word)"
  by (simp add: word_le_nat_alt unsigned_take_bit_eq)

lemma unat_clear_low: "unat (p AND NOT (mask n)) = unat p - unat p mod 2 ^ n" for p :: "'a::len word"
  unfolding clear_low_bits unat_sub [OF take_bit_le] unsigned_take_bit_eq by (simp add: take_bit_eq_mod)

lemma page_mask: "0xfff = (mask 12 :: 'a::len word)"
  by (simp add: mask_eq_exp_minus_1)

lemma PAGE_DOWN_nat: "unat (PAGE_DOWN p) = unat p - unat p mod 4096"
  unfolding PAGE_DOWN_def page_mask unat_clear_low by simp

lemma page64: "unat ((p :: u64) AND NOT 0xfff) = unat p - unat p mod 4096"
  unfolding page_mask unat_clear_low by simp

text \<open>The region that is found is an entry of the map, large enough and below the limit.\<close>

lemma highest_loop_sound:
  "highest_loop s sz limit i fit = r \<Longrightarrow>
   r = fit \<or> (\<exists>e \<in> set (entries s). mm_type e = E820_RAM \<and> r = (e820_base_64 e, e820_length_64 e) \<and>
     sz \<le> e820_length_64 e \<and> \<not> limit < e820_base_64 e + e820_length_64 e)"
proof (induction s sz limit i fit rule: highest_loop.induct)
  case (1 s sz limit i fit)
  show ?case
  proof (cases "i < nr_map s")
    case True
    let ?e = "entry_at s i"
    have e: "?e \<in> set (entries s)" using True entries_nth [OF True] by (metis length_entries nth_mem word_less_nat_alt)
    show ?thesis using "1.prems" "1.IH" True e
      by (subst (asm) highest_loop.simps) (auto simp: Let_def split: if_splits)
  next
    case False
    then show ?thesis using "1.prems" by (subst (asm) highest_loop.simps) simp
  qed
qed

section \<open>The initial ramdisk\<close>

lemma page_floor: "4096 dvd a \<Longrightarrow> a \<le> n \<Longrightarrow> a \<le> n - n mod (4096 :: nat)"
  by (metis dvd_mult_div_cancel div_le_mono minus_mod_eq_mult_div mult_le_mono2)

lemma ram_region:
  assumes "e820_wf s" "get_highest_sized_ram sz limit s = (b, l)" "l \<noteq> 0"
  shows "(unat b, unat l, E820_RAM) \<in> set (regions s)" "sz \<le> l" "unat b + unat l \<le> unat limit" "unat b + unat l < 2 ^ 64"
proof -
  obtain e where e: "e \<in> set (entries s)" "mm_type e = E820_RAM" "b = e820_base_64 e" "l = e820_length_64 e" "sz \<le> l"
    "\<not> limit < b + l"
    using highest_loop_sound [of s sz limit 0 "(0, 0)" "(b, l)"] assms(2,3) by (auto simp: get_highest_sized_ram_def)
  have "region e \<in> set (regions s)" using e(1) by (simp add: regions_def)
  moreover have "region e = (unat b, unat l, E820_RAM)" using e by (simp add: region_def)
  ultimately show r: "(unat b, unat l, E820_RAM) \<in> set (regions s)" by simp
  then show p: "unat b + unat l < 2 ^ 64" using assms(1) by (fastforce simp: e820_wf_def ordered_def proper_def)
  show "sz \<le> l" by (rule e(5))
  show "unat b + unat l \<le> unat limit" using e(6) p by (simp add: word_less_nat_alt u64_add not_less)
qed

lemma type_at_region:
  assumes "ordered rs" "(b, l, t) \<in> set rs" "b \<le> x" "x < b + l"
  shows "type_at rs x = Some t"
  using assms
proof (induction rs)
  case (Cons r rs)
  show ?case
  proof (cases "r = (b, l, t)")
    case True
    then show ?thesis using Cons.prems by (simp add: type_at_def covers_def)
  next
    case False
    then have "apart r (b, l, t)" "(b, l, t) \<in> set rs" "ordered rs" using Cons.prems(1,2) by (auto simp: ordered_def)
    then show ?thesis using Cons by (simp add: type_at_def covers_def apart_def)
  qed
qed simp

lemma initrd_base_nat:
  fixes b l :: u64
  assumes "unat b + unat l < 2 ^ 32" "unat (i :: u32) \<le> unat l"
  shows "unat (ucast ((b + l - ucast i) AND NOT 0xfff) :: u32) = (unat b + unat l - unat i) - (unat b + unat l - unat i) mod 4096"
proof -
  have i: "unat (ucast i :: u64) = unat i" using unat_u32_less [of i] by (simp add: unsigned_ucast_eq take_bit_nat_eq_self)
  have s: "unat (b + l) = unat b + unat l" using assms(1) by (intro u64_add) simp
  have "unat (b + l - ucast i) = unat b + unat l - unat i"
    using assms(2) s i by (subst sub64) (simp_all add: word_le_nat_alt)
  then have "unat ((b + l - ucast i) AND NOT 0xfff) = (unat b + unat l - unat i) - (unat b + unat l - unat i) mod 4096"
    by (simp only: page64)
  then show ?thesis using assms(1) by (simp add: unsigned_ucast_eq take_bit_nat_eq_self)
qed

text \<open>
  Where \<open>initrd_place\<close> puts the ramdisk: at the end of the region, or below the limit, or below the image. Only a
  region that begins too near to the limit, or above it, is left.
\<close>

lemma initrd_place_cases:
  assumes "initrd_place img lsize isize addr_max (b, l) = Inr a"
    and "unat b + unat l < 2 ^ 32" "4096 dvd unat b" "unat img + unat lsize < 2 ^ 32" "isize \<le> img"
  shows "4096 dvd unat a" "unat a + unat isize \<le> unat addr_max" "unat a + unat isize \<le> unat b + unat l"
    "unat b \<le> unat a \<or> a = PAGE_DOWN (addr_max - isize) \<and> unat addr_max < unat b + unat isize"
    "unat a + unat isize \<le> unat img \<or> unat img + unat lsize \<le> unat a"
proof -
  have i: "unat (ucast isize :: u64) = unat isize" using unat_u32_less [of isize] by (simp add: unsigned_ucast_eq take_bit_nat_eq_self)
  define a0 :: u32 where "a0 = ucast ((b + l - ucast isize) AND NOT 0xfff)"
  define a1 where "a1 = (if a0 + isize > addr_max then PAGE_DOWN (addr_max - isize) else a0)"
  define a2 where "a2 = PAGE_DOWN (img - isize)"
  have il: "unat isize \<le> unat l"
    using assms(1) i by (auto simp: initrd_place_def word_less_nat_alt not_less split: if_splits)
  have run: "\<not> (a0 + isize > addr_max \<and> addr_max < isize)"
    "a1 < img + lsize \<and> img < a1 + isize \<and> \<not> ucast a2 < b \<and> a = a2 \<or> \<not> (a1 < img + lsize \<and> img < a1 + isize) \<and> a = a1"
    using assms(1) unfolding initrd_place_def a0_def [symmetric] Let_def split a1_def [symmetric] a2_def [symmetric]
    by (auto split: if_splits)
  have a0: "unat a0 = (unat b + unat l - unat isize) - (unat b + unat l - unat isize) mod 4096"
    unfolding a0_def by (rule initrd_base_nat [OF assms(2) il])
  have b0: "unat b \<le> unat a0" unfolding a0 using il by (intro page_floor assms(3)) simp
  have e0: "unat a0 + unat isize \<le> unat b + unat l" "4096 dvd unat a0" using a0 il by (simp_all add: minus_mod_eq_mult_div)
  have s0: "unat (a0 + isize) = unat a0 + unat isize" using e0 assms(2) by (simp add: unat_word_ariths)
  have a1: "4096 dvd unat a1 \<and> unat a1 + unat isize \<le> unat addr_max \<and> unat a1 + unat isize \<le> unat b + unat l \<and>
      (unat b \<le> unat a1 \<or> a1 = PAGE_DOWN (addr_max - isize) \<and> unat addr_max < unat b + unat isize)"
  proof (cases "a0 + isize > addr_max")
    case True
    then have le: "unat isize \<le> unat addr_max" "unat addr_max < unat a0 + unat isize"
      using run(1) s0 by (simp_all add: word_less_nat_alt not_less)
    have n: "unat (PAGE_DOWN (addr_max - isize)) = (unat addr_max - unat isize) - (unat addr_max - unat isize) mod 4096"
      using le(1) by (simp add: PAGE_DOWN_nat unat_sub word_le_nat_alt)
    have "unat b \<le> unat (PAGE_DOWN (addr_max - isize)) \<or> unat addr_max < unat b + unat isize"
      using page_floor [OF assms(3), of "unat addr_max - unat isize"] le(1) by (force simp: n)
    moreover have "4096 dvd unat (PAGE_DOWN (addr_max - isize))" unfolding n by (simp add: minus_mod_eq_mult_div)
    ultimately show ?thesis using True le e0(1) n by (auto simp: a1_def)
  next
    case False
    then show ?thesis using e0 b0 s0 by (simp add: a1_def word_less_nat_alt)
  qed
  have s1: "unat (a1 + isize) = unat a1 + unat isize" using a1 unat_u32_less [of addr_max] by (simp add: unat_word_ariths)
  have ls: "unat (img + lsize) = unat img + unat lsize" using assms(4) by (simp add: unat_word_ariths)
  have im: "unat isize \<le> unat img" using assms(5) by (simp add: word_le_nat_alt)
  have a2: "unat a2 \<le> unat img - unat isize" "4096 dvd unat a2"
    using assms(5) by (simp_all add: a2_def PAGE_DOWN_nat unat_sub minus_mod_eq_mult_div)
  have u: "unat (ucast a2 :: u64) = unat a2" using unat_u32_less [of a2] by (simp add: unsigned_ucast_eq take_bit_nat_eq_self)
  from run(2) show "4096 dvd unat a" "unat a + unat isize \<le> unat addr_max" "unat a + unat isize \<le> unat b + unat l"
    "unat b \<le> unat a \<or> a = PAGE_DOWN (addr_max - isize) \<and> unat addr_max < unat b + unat isize"
    "unat a + unat isize \<le> unat img \<or> unat img + unat lsize \<le> unat a"
    using a1 a2 s1 ls im u by (auto simp: word_less_nat_alt not_less)
qed

lemma linux_mem_option:
  assumes "get_linux_mem s = (Ok r, s')"
  shows "s' = s"
proof -
  have "strcmp (str ''vga'') (str ''mem'') = Some 9" "strcmp (str ''mem'') (str ''mem'') = Some 0" by (simp_all add: str_def)
  then have l: "(\<exists>v. option_lookup g_linux_cmdline_options vals (str ''mem'') = Some (Some v)) \<or>
      option_lookup g_linux_cmdline_options vals (str ''mem'') = None" for vals
    by (cases vals rule: list.exhaust [case_names Nil Cons]; cases "tl vals") (auto simp: g_linux_cmdline_options_def)
  show ?thesis
    using assms l [of "g_linux_param_values s"] by (auto simp: get_linux_mem_def get_option_val_def faultE_def bindE_def getE_def returnE_def stopE_def Let_def
      split: option.splits if_splits prod.splits res.splits)
qed

text \<open>
  C30: where \<open>place_initrd\<close> puts the initial ramdisk. When it succeeds, the place is page-aligned, ends at or below the
  highest address the kernel allows, does not overlap the kernel image, and holds the ramdisk. All of it
  is RAM of the map, except when the place is \<open>PAGE_DOWN (initrd_addr_max - initrd_size)\<close> because there is a RAM entry
  below 4 GB that begins so high that the ramdisk does not fit between its base and that limit: the code
  then goes below the limit without another look at the map (\<^verbatim>\<open>linux.c\<close>, lines 172 to 180). The conditions: the map
  is in order; its RAM entries in the first 4 GB are page-aligned and end strictly below 4 GB (else the 32-bit sums
  wrap); neither the image nor the source of the ramdisk wraps around, and the image begins no lower than the
  ramdisk is long (else \<open>linux_image - initrd_size\<close> wraps).
\<close>

theorem place_initrd_in_RAM:
  assumes "place_initrd img lsize iimg isize hdr s = (Ok (Some a), s')" "0 < isize" "e820_wf (g_e820 s)"
    and "\<forall>r \<in> set (regions (g_e820 s)). snd (snd r) = E820_RAM \<and> fst r + fst (snd r) \<le> 2 ^ 32 \<longrightarrow>
      4096 dvd fst r \<and> fst r + fst (snd r) < 2 ^ 32"
    and "unat img + unat lsize < 2 ^ 32" "isize \<le> img" "unat iimg + unat isize \<le> 2 ^ 32"
    and "am = ld32 (i_mem s) (initrd_addr_max hdr)"
  shows "4096 dvd unat a \<and> unat a + unat isize \<le> unat am \<and>
    (unat a + unat isize \<le> unat img \<or> unat img + unat lsize \<le> unat a) \<and>
    bytes_at (i_mem s') a (unat isize) = bytes_at (i_mem s) iimg (unat isize) \<and>
    ((\<forall>x. unat a \<le> x \<and> x < unat a + unat isize \<longrightarrow> type_at (regions (g_e820 s)) x = Some E820_RAM) \<or>
     a = PAGE_DOWN (am - isize) \<and>
     (\<exists>r \<in> set (regions (g_e820 s)). snd (snd r) = E820_RAM \<and> fst r + fst (snd r) < 2 ^ 32 \<and> unat am < fst r + unat isize))"
proof -
  define e where "e = g_e820 s"
  obtain limit where lim: "\<not> 0x100000000 < limit"
    and pl: "initrd_place img lsize isize am (get_highest_sized_ram (ucast isize) limit e) = Inr a"
    and s': "s' = s\<lparr>i_world := (i_world s)\<lparr>w_mem := memcpy_intel a iimg isize (i_mem s)\<rparr>\<rparr>"
    using assms(1,2,8) linux_mem_option [of s]
    by (auto simp: place_initrd_def bindE_def getE_def memE_def setmemE_def on_world_def modifyE_def returnE_def stopE_def refuse_def
      Let_def e_def split: res.splits prod.splits option.splits sum.splits if_splits)
  obtain b l where bl: "get_highest_sized_ram (ucast isize) limit e = (b, l)" by force
  have l: "l \<noteq> 0" using pl by (auto simp: bl initrd_place_def)
  note reg = ram_region [OF assms(3) [folded e_def] bl l]
  have ends: "4096 dvd unat b" "unat b + unat l < 2 ^ 32"
    using assms(4) [folded e_def, rule_format, OF reg(1)] reg(3) lim by (auto simp: word_less_nat_alt)
  note pos = initrd_place_cases [OF pl [unfolded bl] ends(2,1) assms(5,6)]
  have ram: "type_at (regions e) x = Some E820_RAM" if "unat b \<le> unat a" "unat a \<le> x" "x < unat a + unat isize" for x
    using type_at_region [OF _ reg(1), of x] that pos(3) assms(3) by (simp add: e_def e820_wf_def)
  have "bytes_at (i_mem s') a (unat isize) = bytes_at (i_mem s) iimg (unat isize)"
    using memcpy_intel_eq [of a isize iimg "i_mem s"] pos(2) unat_u32_less [of am] assms(7) unat_u32_less [of isize]
    by (auto simp: s' bytes_at_def unat_of_nat take_bit_nat_eq_self)
  moreover have "(\<forall>x. unat a \<le> x \<and> x < unat a + unat isize \<longrightarrow> type_at (regions e) x = Some E820_RAM) \<or>
      a = PAGE_DOWN (am - isize) \<and> (\<exists>r \<in> set (regions e). snd (snd r) = E820_RAM \<and> fst r + fst (snd r) < 2 ^ 32 \<and> unat am < fst r + unat isize)"
    using pos(4) ram reg(1) ends(2) by force
  ultimately show ?thesis using pos(1,2,5) unfolding e_def by blast
qed

text \<open>The second case is there: a region above the limit gives a place below the region, whatever is there.\<close>

lemma initrd_below_region:
  "initrd_place 0x1000000 0x100000 0x2000 0x37ffffff (0x40000000, 0x40000000) = Inr 0x37ffd000"
  by code_simp

lemma ld32_ff: "ld32 (\<lambda>_. 0xff) x = 0xffffffff"
  unfolding ld32_def bytes_at_4 by code_simp

definition initrd_state :: "nat sim intel" where
  "initrd_state = (sim_intel (\<lambda>_. 0xff) (0 :: nat))\<lparr>g_e820 := pc_map, g_linux_param_values := [replicate 64 0, replicate 64 0]\<rparr>"

lemma initrd_state_run:
  "place_initrd 0x1ff000 0x1000 0x300000 0x2000 (hdr_at 0x1ff1f1) initrd_state =
    (Ok (Some 0x1fd000), initrd_state\<lparr>i_world := (i_world initrd_state)\<lparr>w_mem := memcpy_intel 0x1fd000 0x300000 0x2000 (\<lambda>_. 0xff)\<rparr>\<rparr>)"
proof -
  have "strcmp (str ''vga'') (str ''mem'') = Some 9" "strcmp (str ''mem'') (str ''mem'') = Some 0" by (simp_all add: str_def)
  then have l: "option_lookup g_linux_cmdline_options [replicate 64 0, replicate 64 0] (str ''mem'') = Some (Some (replicate 64 0))"
    by (simp add: g_linux_cmdline_options_def)
  have n: "strtoul (replicate 64 0) 0 = Some (0, 0)" by code_simp
  have m: "get_linux_mem initrd_state = (Ok (False, Some 0), initrd_state)"
    by (simp add: get_linux_mem_def get_option_val_def getE_def bindE_def returnE_def initrd_state_def l n faultE_def)
  have h: "get_highest_sized_ram 0x2000 0x100000000 pc_map = (0x100000, 0x100000)" by code_simp
  have p: "initrd_place 0x1ff000 0x1000 0x2000 0xffffffff (0x100000, 0x100000) = Inr 0x1fd000" by code_simp
  show ?thesis
    using m h by (simp add: place_initrd_def bindE_def getE_def memE_def setmemE_def on_world_def modifyE_def returnE_def)
      (simp add: initrd_state_def h p ld32_ff bindE_def setmemE_def on_world_def modifyE_def returnE_def)
qed

theorem place_initrd_in_RAM_witness:
  "type_at (regions (g_e820 initrd_state)) 0x1fd800 = Some E820_RAM \<and>
   (\<exists>s'. place_initrd 0x1ff000 0x1000 0x300000 0x2000 (hdr_at 0x1ff1f1) initrd_state = (Ok (Some 0x1fd000), s') \<and>
     bytes_at (i_mem s') 0x1fd000 0x2000 = bytes_at (\<lambda>_. 0xff) 0x300000 0x2000)"
proof -
  have w: "e820_wf (g_e820 initrd_state)" and m: "i_mem initrd_state = (\<lambda>_. 0xff)"
    by (simp_all add: initrd_state_def pc_map_wf)
  have r: "\<forall>r \<in> set (regions (g_e820 initrd_state)). snd (snd r) = E820_RAM \<and> fst r + fst (snd r) \<le> 2 ^ 32 \<longrightarrow>
      4096 dvd fst r \<and> fst r + fst (snd r) < 2 ^ 32"
    by (simp add: initrd_state_def pc_map_regions)
  have "\<not> (\<exists>r \<in> set (regions (g_e820 initrd_state)). snd (snd r) = E820_RAM \<and> fst r + fst (snd r) < 2 ^ 32 \<and> unat (0xffffffff :: u32) < fst r + unat (0x2000 :: u32))"
    by (simp add: initrd_state_def pc_map_regions)
  then show ?thesis
    using place_initrd_in_RAM [OF initrd_state_run _ w r _ _ _ refl] initrd_state_run m by (simp add: ld32_ff) force
qed

section \<open>Boot parameters and command line\<close>

text \<open>The memory after both parts of the kernel are in place.\<close>

definition kernel_mem :: "u32 \<Rightarrow> u32 \<Rightarrow> u32 \<Rightarrow> u32 \<Rightarrow> u32 \<Rightarrow> mem \<Rightarrow> mem" where
  "kernel_mem img rb rs pb ps m = memcpy_intel rb img rs (memcpy_intel pb (img + rs) ps m)"

lemma load_kernel_run:
  fixes s :: "'d intel"
  assumes "m2 = kernel_mem img rb rs pb ps (i_mem s)" "ctx = g_ldr_ctx s"
    and "lc_addr ctx \<noteq> 0" "lc_type ctx = 1" "bit (ld32 m2 (mb_flags (mb1_at (lc_addr ctx)))) 2"
    and "ld32 m2 (mb_cmdline (mb1_at (lc_addr ctx))) = kc" "strlen kc m2 = Some n"
  shows "load_kernel img rb rs pb ps s = (Ok (bytes_at (i_mem s) (img + 0x1f1) sizeof_linux_kernel_header_t),
    s\<lparr>i_world := (i_world s)\<lparr>w_mem := poke (rb + rs + 0x1f1) (bytes_at (i_mem s) (img + 0x1f1) sizeof_linux_kernel_header_t)
        (memset (rb + rs) 0 sizeof_boot_params_t
          (memcpy_intel (rb + KERNEL_CMDLINE_OFFSET) kc (min n (REAL_END_OFFSET - KERNEL_CMDLINE_OFFSET - 1))
            (memset (rb + KERNEL_CMDLINE_OFFSET) 0 (REAL_END_OFFSET - KERNEL_CMDLINE_OFFSET) m2)))\<rparr>, boot_params := rb + rs\<rparr>)"
  using assms unfolding kernel_mem_def
  by (simp add: load_kernel_def Let_def bindE_def memE_def getE_def setmemE_def on_world_def modifyE_def returnE_def lctxE_def
      get_cmdline_def LOADER_CTX_BAD_def endsE_def)

lemma in_footprint: "n \<le> 2 ^ 32 \<Longrightarrow> x \<in> footprint a n \<longleftrightarrow> unat (x - a) < n"
proof
  assume "n \<le> 2 ^ 32" "x \<in> footprint a n"
  then show "unat (x - a) < n" by (auto simp: footprint_def unat_of_nat_u32)
next
  assume "unat (x - a) < n"
  moreover have "x = a + of_nat (unat (x - a))" by simp
  ultimately show "x \<in> footprint a n" unfolding footprint_def by blast
qed

lemma memset_eq: "memset p c len m = (\<lambda>a. if unat (a - p) < unat len then c else m a)"
  unfolding memset_def by (rule memset_loop_eq) (rule unat_u32_less)

lemma memset_footprint: "x \<notin> footprint p (unat len) \<Longrightarrow> memset p c len m x = m x"
proof -
  assume "x \<notin> footprint p (unat len)"
  moreover have "x = p + of_nat (unat (x - p))" by simp
  ultimately have "\<not> unat (x - p) < unat len" unfolding footprint_def by (metis imageI lessThan_iff)
  then show ?thesis by (simp add: memset_eq)
qed

text \<open>
  C38: what \<open>load_kernel\<close> leaves for the kernel. The boot parameters behind the real-mode part have the
  header of the image, and the area of the command line has the command line of the boot loader, cut to
  \<open>0x3ff\<close> characters, with zeros behind it; \<open>m2\<close> is the memory after both parts of the kernel were copied.
\<close>

theorem load_kernel_places:
  fixes s :: "'d intel"
  assumes "m2 = kernel_mem img rb rs pb ps (i_mem s)" "ctx = g_ldr_ctx s"
    and "lc_addr ctx \<noteq> 0" "lc_type ctx = 1" "bit (ld32 m2 (mb_flags (mb1_at (lc_addr ctx)))) 2"
    and "ld32 m2 (mb_cmdline (mb1_at (lc_addr ctx))) = kc" "strlen kc m2 = Some n"
    and "rb \<le> LEGACY_REAL_START" "rs \<le> 0x7d00" "unat kc + unat n < 2 ^ 32"
    and "footprint kc (unat n) \<inter> footprint (rb + KERNEL_CMDLINE_OFFSET) 0x400 = {}"
  shows "\<exists>s' h. load_kernel img rb rs pb ps s = (Ok h, s') \<and> h = bytes_at (i_mem s) (img + 0x1f1) 119 \<and> boot_params s' = rb + rs \<and>
    bytes_at (i_mem s') (rb + rs + 0x1f1) 119 = h \<and>
    bytes_at (i_mem s') (rb + KERNEL_CMDLINE_OFFSET) 0x400 =
      bytes_at m2 kc (min (unat n) 0x3ff) @ replicate (0x400 - min (unat n) 0x3ff) 0"
proof -
  let ?c = "rb + KERNEL_CMDLINE_OFFSET" and ?h = "bytes_at (i_mem s) (img + 0x1f1) 119"
  define k where "k = min (unat n) 0x3ff"
  define l where "l = min n (REAL_END_OFFSET - KERNEL_CMDLINE_OFFSET - 1)"
  have l: "unat l = k" by (simp add: l_def k_def min_def word_le_nat_alt REAL_END_OFFSET_def KERNEL_CMDLINE_OFFSET_def)
  define m3 where "m3 = memset ?c 0 (REAL_END_OFFSET - KERNEL_CMDLINE_OFFSET) m2"
  define m4 where "m4 = memcpy_intel ?c kc l m3"
  define m' where "m' = poke (rb + rs + 0x1f1) ?h (memset (rb + rs) 0 sizeof_boot_params_t m4)"
  have sz: "unat (REAL_END_OFFSET - KERNEL_CMDLINE_OFFSET) = 0x400" by (simp add: REAL_END_OFFSET_def KERNEL_CMDLINE_OFFSET_def)
  have rb: "unat rb \<le> 0x90000" using assms(8) by (simp add: LEGACY_REAL_START_def word_le_nat_alt)
  have c: "unat ?c = unat rb + 0x8d00" using rb by (simp add: KERNEL_CMDLINE_OFFSET_def unat_word_ariths)
  have m4: "m4 = (\<lambda>a. if unat (a - ?c) < k then m3 (kc + (a - ?c)) else m3 a)"
    unfolding m4_def using c rb l assms(10) by (subst memcpy_intel_eq) (simp_all add: k_def)
  have out: "m' (?c + of_nat i) = m4 (?c + of_nat i)" if i: "i < 0x400" for i
  proof -
    have d: "?c + of_nat i - (rb + rs) = of_nat (0x8d00 + i - unat rs)" "?c + of_nat i - (rb + rs + 0x1f1) = of_nat (0x8d00 + i - unat rs - 0x1f1)"
      using assms(9) by (simp_all add: KERNEL_CMDLINE_OFFSET_def word_le_nat_alt of_nat_diff)
    have "?c + of_nat i \<notin> footprint (rb + rs + 0x1f1) (length ?h)"
      using i assms(9) unfolding in_footprint [of 119, simplified] by (subst in_footprint) (simp_all add: bytes_at_def d unat_of_nat_u32 word_le_nat_alt del: of_nat_diff)
    moreover have "\<not> unat (?c + of_nat i - (rb + rs)) < 0x1000"
      unfolding d using i assms(9) by (simp add: unat_of_nat_u32 word_le_nat_alt del: of_nat_diff)
    ultimately show ?thesis by (simp add: m'_def poke_outside memset_eq sizeof_boot_params_t_def)
  qed
  have cmd: "m4 (?c + of_nat i) = (if i < k then m2 (kc + of_nat i) else 0)" if i: "i < 0x400" for i
  proof -
    have u: "unat (of_nat i :: u32) = i" using i by (simp add: unat_of_nat_u32)
    have "kc + of_nat i \<notin> footprint ?c 0x400" if "i < k"
      using assms(11) that by (auto simp: footprint_def k_def)
    then have "i < k \<Longrightarrow> m3 (kc + of_nat i) = m2 (kc + of_nat i)"
      by (simp add: m3_def memset_eq sz in_footprint)
    moreover have "m3 (?c + of_nat i) = 0" using i u by (simp add: m3_def memset_eq sz)
    ultimately show ?thesis using u by (simp add: m4)
  qed
  have "bytes_at m' ?c 0x400 = bytes_at m2 kc k @ replicate (0x400 - k) 0"
    by (rule nth_equalityI) (auto simp: bytes_at_def k_def nth_append out cmd [unfolded k_def])
  moreover have "bytes_at m' (rb + rs + 0x1f1) 119 = ?h"
    unfolding m'_def using bytes_at_poke [of ?h "rb + rs + 0x1f1"] by (simp add: bytes_at_def)
  ultimately show ?thesis
    using load_kernel_run [OF assms(1-7), folded l_def]
    by (simp add: m'_def m4_def m3_def k_def sizeof_linux_kernel_header_t_def)
qed

definition linux_mem :: mem where
  "linux_mem a = (if a = 0x1000 then 4 else if a = 0x1011 then 0x30 else if a = 0x3000 then 0x71 else 0)"

definition linux_state :: "nat sim intel" where
  "linux_state = (sim_intel linux_mem (0 :: nat))\<lparr>g_ldr_ctx := \<lparr>lc_addr = 0x1000, lc_type = 1\<rparr>\<rparr>"

lemma linux_mem_kept:
  assumes "a < 0x10000"
  shows "kernel_mem 0x200000 0x90000 0x1000 0x100000 0x2000 linux_mem a = linux_mem a"
proof -
  have "\<not> unat (a - 0x90000) < 0x1000" "\<not> unat (a - 0x100000) < 0x2000"
    using assms by (simp_all add: unat_sub_if_size word_size word_less_nat_alt word_le_nat_alt)
  then show ?thesis by (simp add: kernel_mem_def memcpy_intel_eq)
qed

theorem load_kernel_places_witness:
  "\<exists>s' h. load_kernel 0x200000 0x90000 0x1000 0x100000 0x2000 linux_state = (Ok h, s') \<and> boot_params s' = 0x91000 \<and>
    take 2 (bytes_at (i_mem s') 0x98d00 0x400) = [0x71, 0]"
proof -
  define m2 where "m2 = kernel_mem 0x200000 0x90000 0x1000 0x100000 0x2000 (i_mem linux_state)"
  have m2: "m2 a = linux_mem a" if "a < 0x10000" for a using linux_mem_kept [OF that] by (simp add: m2_def linux_state_def)
  have l: "ld32 m2 0x1000 = 4" "ld32 m2 0x1010 = 0x3000"
    unfolding ld32_def bytes_at_4 by (simp_all add: m2) (simp_all add: linux_mem_def of_le32_def)
  have n: "strlen 0x3000 m2 = Some 1"
    by (simp add: strlen_def strlen_loop.simps m2 linux_mem_def)
  have f: "footprint 0x3000 (unat (1 :: u32)) \<inter> footprint (0x90000 + KERNEL_CMDLINE_OFFSET) 0x400 = {}"
    by (simp add: footprint_Suc in_footprint KERNEL_CMDLINE_OFFSET_def)
  have c: "g_ldr_ctx linux_state = \<lparr>lc_addr = 0x1000, lc_type = 1\<rparr>" by (simp add: linux_state_def)
  have x: "lc_addr (g_ldr_ctx linux_state) \<noteq> 0" "lc_type (g_ldr_ctx linux_state) = 1"
    "bit (ld32 m2 (mb_flags (mb1_at (lc_addr (g_ldr_ctx linux_state))))) 2"
    "ld32 m2 (mb_cmdline (mb1_at (lc_addr (g_ldr_ctx linux_state)))) = 0x3000"
    using l by (simp_all add: c mb1_at_def)
  have y: "0x90000 \<le> LEGACY_REAL_START" "(0x1000 :: u32) \<le> 0x7d00" "unat (0x3000 :: u32) + unat (1 :: u32) < 2 ^ 32"
    by (simp_all add: LEGACY_REAL_START_def)
  obtain s' h where r: "load_kernel 0x200000 0x90000 0x1000 0x100000 0x2000 linux_state = (Ok h, s')" "boot_params s' = 0x90000 + 0x1000"
    and b: "bytes_at (i_mem s') (0x90000 + KERNEL_CMDLINE_OFFSET) 0x400 =
      bytes_at m2 0x3000 (min (unat (1 :: u32)) 0x3ff) @ replicate (0x400 - min (unat (1 :: u32)) 0x3ff) 0"
    using load_kernel_places [OF m2_def refl x n y f] by blast
  have "bytes_at m2 0x3000 1 = [0x71]" by (simp add: bytes_at_def m2 linux_mem_def)
  then have "take 2 (bytes_at (i_mem s') 0x98d00 0x400) = [0x71, 0]"
    using b by (simp add: KERNEL_CMDLINE_OFFSET_def)
  then show ?thesis using r by auto
qed

end
