(* ===== verification/ACPI_Correct.thy ===== *)
theory ACPI_Correct
  imports ACPI Linux_Correct
begin

text \<open>
  The search for a table in the root table of the firmware: it ends and finds the first table with the
  signature. An entry of length 0 in the table of the interrupt controllers makes the search for the I/O
  APIC run for ever.
\<close>

section \<open>The list of tables\<close>

definition list_step :: "bool \<Rightarrow> nat" where "list_step wide = (if wide then 8 else 4)"

definition table_list :: "bool \<Rightarrow> mem \<Rightarrow> u32 \<Rightarrow> u32 list" where
  "table_list wide m root =
     map (\<lambda>i. list_entry wide m (root + 36 + of_nat (list_step wide * i)))
       [0..<(unat (ld32 m (root + 4)) - 36 + list_step wide - 1) div list_step wide]"

definition first_table :: "mem \<Rightarrow> bytes \<Rightarrow> u32 list \<Rightarrow> u32 option" where
  "first_table m name ts = find (\<lambda>t. bytes_at m t 4 = name) ts"

lemma table_loop_run:
  assumes "unat c + list_step wide * n < unat fin + list_step wide" "unat fin \<le> unat c + list_step wide * n"
    "unat fin + 8 \<le> 2 ^ 32"
  shows "table_loop wide m name fin c =
    Some (first_table m name (map (\<lambda>i. list_entry wide m (c + of_nat (list_step wide * i))) [0..<n]))"
  using assms
proof (induction n arbitrary: c)
  case 0
  then show ?case by (subst table_loop.simps) (simp add: first_table_def word_less_nat_alt)
next
  case (Suc n)
  have lt: "c < fin" using Suc.prems(1) by (simp add: word_less_nat_alt)
  let ?k = "if wide then 8 else 4 :: u32"
  have k: "?k = of_nat (list_step wide)" "0 < list_step wide" "list_step wide \<le> 8" by (simp_all add: list_step_def)
  have u: "unat (c + ?k) = unat c + list_step wide"
    using lt Suc.prems(3) k by (subst unat_word_ariths) (auto simp: word_less_nat_alt list_step_def)
  have IH: "table_loop wide m name fin (c + ?k) =
      Some (first_table m name (map (\<lambda>i. list_entry wide m (c + ?k + of_nat (list_step wide * i))) [0..<n]))"
    by (rule Suc.IH) (use Suc.prems in \<open>simp_all add: u\<close>)
  have "map (\<lambda>i. list_entry wide m (c + of_nat (list_step wide * i))) [0..<Suc n] =
      list_entry wide m c # map (\<lambda>i. list_entry wide m (c + ?k + of_nat (list_step wide * i))) [0..<n]"
    unfolding k(1) by (simp add: upt_conv_Cons map_Suc_upt [symmetric] algebra_simps del: upt_Suc)
  then show ?case using lt IH
    by (subst table_loop.simps) (simp add: first_table_def table_at_def)
qed

lemma search_table_run:
  assumes "unat root + unat (ld32 (i_mem s) (root + 4)) + 8 \<le> 2 ^ 32" "unat root + 44 \<le> 2 ^ 32"
  shows "yields (like s) (search_table wide name root)
    (Ok (case first_table (i_mem s) (sig name) (table_list wide (i_mem s) root) of Some t \<Rightarrow> t | None \<Rightarrow> 0)) (like s)"
proof -
  let ?m = "i_mem s" and ?len = "ld32 (i_mem s) (root + 4)"
  have a: "unat (root + 36) = unat root + 36" "unat (root + ?len) = unat root + unat ?len"
    using assms by (simp_all add: unat_word_ariths)
  have k: "0 < list_step wide" by (simp add: list_step_def)
  let ?n = "(unat ?len - 36 + list_step wide - 1) div list_step wide"
  have run: "table_loop wide ?m (sig name) (root + ?len) (root + 36) = Some (first_table ?m (sig name) (table_list wide ?m root))"
  proof (cases "36 \<le> unat ?len")
    case True
    define N where "N = list_step wide * ?n"
    have "N \<le> unat ?len - 36 + list_step wide - 1" "unat ?len - 36 \<le> N" by (auto simp: N_def list_step_def)
    then have "unat root + 36 + N < unat root + unat ?len + list_step wide" "unat root + unat ?len \<le> unat root + 36 + N"
      using True k by arith+
    then show ?thesis unfolding table_list_def
      by (intro table_loop_run) (use a assms in \<open>simp_all only: N_def\<close>)
  next
    case False
    then have "table_list wide ?m root = []" by (simp add: table_list_def list_step_def)
    moreover have "\<not> root + 36 < root + ?len" using False a by (simp add: word_less_nat_alt)
    ultimately show ?thesis by (subst table_loop.simps) (simp add: first_table_def)
  qed
  show ?thesis unfolding search_table_def
    apply (rule yields_memE_then)
    apply (simp add: table_at_def sizeof_acpi_table_header_def run split: option.split del: tell.simps tell_all.simps)
    apply (intro conjI allI impI yields_returnE yields_bind [OF yields_tell_all yields_returnE])
    done
qed

text \<open>The root table that the root pointer at \<open>p\<close> leads to, and the width of its entries.\<close>

definition root_wide :: "mem \<Rightarrow> u32 \<Rightarrow> bool" where
  "root_wide m p \<longleftrightarrow> m (p + 15) \<ge> 2 \<and> 0 < ld64 m (p + 24) \<and> ld64 m (p + 24) < 0x100000000"

definition root_table :: "mem \<Rightarrow> u32 \<Rightarrow> u32" where
  "root_table m p = (if root_wide m p then ucast (ld64 m (p + 24)) else ld32 m (p + 16))"

text \<open>
  C34: Once the root pointer is known, \<open>find_table\<close> returns for every signature: the address of the first
  table in the list of the root table (the one with 8-byte entries from ACPI 2.0 on, if it lies below 4 GB)
  that has the signature, and 0 when there is none. Nothing but the screen changes.
\<close>

theorem find_table_first:
  assumes ok: "intel_ok s" and p: "rsdp s = p" "p \<noteq> 0" and root: "root = root_table (i_mem s) p" "root \<noteq> 0"
    and fit: "unat root + unat (ld32 (i_mem s) (root + 4)) + 8 \<le> 2 ^ 32" "unat root + 44 \<le> 2 ^ 32"
  shows "\<exists>s'. find_table name s =
      (Ok (case first_table (i_mem s) (sig name) (table_list (root_wide (i_mem s) p) (i_mem s) root) of Some t \<Rightarrow> t | None \<Rightarrow> 0), s') \<and>
    like s s'"
proof -
  let ?m = "i_mem s"
  have get: "yields (like s) (k p) r Q \<Longrightarrow> yields (like s) (bindE (getE rsdp) k) r Q" for k :: "u32 \<Rightarrow> ('a intel, 'b) exec" and r Q
    by (rule yields_getE [where a = p]) (auto simp: like_def p)
  let ?x = "ld64 ?m (p + 24)"
  define xsdt :: u32 where "xsdt = (if ?x \<ge> 0x100000000 then 0 else ucast ?x)"
  have nz: "xsdt \<noteq> 0 \<longleftrightarrow> 0 < ?x \<and> ?x < 0x100000000"
  proof -
    have "unat (ucast ?x :: u32) = unat ?x" if "?x < 0x100000000"
      using that by (intro ucast_small) (simp add: word_less_nat_alt)
    then show ?thesis by (auto simp: xsdt_def not_le unat_gt_0 word_gt_0) (metis unat_0 unat_eq_zero)+
  qed
  have x: "yields (like s) get_xsdt (Ok xsdt) (like s)"
    unfolding get_xsdt_def xsdt_def rsdp_at_def
    by (rule get, rule yields_memE_then) (auto simp del: tell.simps intro: yields_tell_then yields_ret)
  have r: "yields (like s) get_rsdt (Ok (ld32 ?m (p + 16))) (like s)"
    unfolding get_rsdt_def rsdp_at_def by (rule get, rule yields_memE_then) (simp add: yields_returnE)
  have f: "yields (like s) find_rsdp (Ok True) (like s)"
    unfolding find_rsdp_def by (rule get) (auto simp: p(2) simp del: tell.simps intro: yields_tell_then yields_ret)
  have wide: "?m (p + 15) \<ge> 2 \<and> xsdt \<noteq> 0 \<longleftrightarrow> root_wide ?m p" using nz by (auto simp: root_wide_def)
  have rt: "root = (if root_wide ?m p then xsdt else ld32 ?m (p + 16))"
    unfolding root(1) root_table_def xsdt_def by (auto simp: root_wide_def)
  have "yields (like s) (find_table name)
      (Ok (case first_table ?m (sig name) (table_list (root_wide ?m p) ?m root) of Some t \<Rightarrow> t | None \<Rightarrow> 0)) (like s)"
    unfolding find_table_def
    apply (rule yields_bind [OF f], simp only: not_True_eq_False if_False)
    apply (rule yields_bind [OF x], rule get, rule yields_memE_then)
    apply (simp only: rsdp_at_def acpi_rsdp.simps wide)
    using search_table_run [OF fit, of "root_wide ?m p" name] root(2)
    by (cases "root_wide ?m p") (auto simp: rt intro: yields_bind [OF r])
  from yieldsD [OF this like_refl [OF ok]] show ?thesis by blast
qed

definition acpi_mem :: mem where
  "acpi_mem = st32 0xE0010 0x2000 (st32 0x2004 44 (st32 0x2024 0x3000 (st32 0x2028 0x4000 (st32 0x4000 0x52414D44 (\<lambda>_. 0)))))"

theorem find_table_first_witness:
  "\<exists>s'. find_table DMAR_SIG ((sim_intel acpi_mem 0)\<lparr>rsdp := 0xE0000\<rparr>) = (Ok 0x4000, s')"
proof -
  let ?s = "(sim_intel acpi_mem 0)\<lparr>rsdp := 0xE0000\<rparr>"
  have ok: "intel_ok ?s" using sim_intel_parts(1) [of acpi_mem 0] by (simp add: intel_ok_def)
  have m: "i_mem ?s = acpi_mem" by simp
  have w: "\<not> root_wide acpi_mem 0xE0000" by (simp add: root_wide_def acpi_mem_def st32_def)
  have r: "root_table acpi_mem 0xE0000 = 0x2000" using w by (simp add: root_table_def acpi_mem_def ld_st)
  have l: "ld32 acpi_mem 0x2004 = 44" "ld32 acpi_mem 0x2024 = 0x3000" "ld32 acpi_mem 0x2028 = 0x4000"
    by (simp_all add: acpi_mem_def ld_st)
  have t: "table_list False acpi_mem 0x2000 = [0x3000, 0x4000]"
    by (simp add: table_list_def list_step_def list_entry_def l upt_rec)
  have "first_table acpi_mem (sig DMAR_SIG) [0x3000, 0x4000] = Some 0x4000"
    by (simp add: first_table_def bytes_at_def sig_def DMAR_SIG_def upt_rec acpi_mem_def st32_def drop_bit_eq_div)
  with find_table_first [OF ok, of "0xE0000" "0x2000" DMAR_SIG] show ?thesis
    unfolding m r using w by (auto simp: l t)
qed

section \<open>An entry without length\<close>

lemma ioapic_loop_hangs:
  assumes "entry < fin" "m entry \<noteq> 1" "m (entry + 1) = 0"
  shows "ioapic_loop m fin entry = None"
proof -
  have "\<not> (e < fin' \<and> m' e \<noteq> 1 \<and> m' (e + 1) = 0)" if "ioapic_loop m' fin' e = Some r" for m' fin' e r
    by (rule ioapic_loop.raw_induct [OF _ that]) (fastforce simp: ioapic_at_def split: if_splits)
  then show ?thesis using assms by (metis not_Some_eq)
qed

lemma get_acpi_ioapic_table_hangs:
  assumes "get_apic_table s = (Ok madt, s')" "madt \<noteq> 0"
    and "madt + 44 < madt + ld32 (i_mem s') (madt + 4)" "i_mem s' (madt + 44) \<noteq> 1" "i_mem s' (madt + 45) = 0"
  shows "get_acpi_ioapic_table s = (Stop Hang, s')"
proof -
  have "ioapic_loop (i_mem s') (madt + ld32 (i_mem s') (madt + 4)) (madt + 44) = None"
    by (rule ioapic_loop_hangs) (use assms in \<open>simp_all add: add.assoc\<close>)
  then show ?thesis using assms(1,2)
    by (simp add: get_acpi_ioapic_table_def bindE_cases memE_def getE_def bindE_def table_at_def madt_at_def stopE_def)
qed

end
