(* ===== verification/MTRR.thy ===== *)
theory MTRR
  imports ACPI
begin

text \<open>
  The memory type range registers (\<^verbatim>\<open>src/arch-intel/mtrrs.c\<close>): saving and restoring them, checking the saved
  ones, and setting them so that the SINIT module, and nothing else, is cached. The saved state lies in
  the physical memory.
\<close>

section \<open>Registers\<close>

definition MSR_MTRRcap :: u32 where "MSR_MTRRcap = 0xfe"
definition MSR_MTRRdefType :: u32 where "MSR_MTRRdefType = 0x2ff"

definition MTRR_PHYS_BASE :: "u32 \<Rightarrow> u32" where "MTRR_PHYS_BASE ndx = 0x200 + ndx * 2"
definition MTRR_PHYS_MASK :: "u32 \<Rightarrow> u32" where "MTRR_PHYS_MASK ndx = 0x201 + ndx * 2"

definition MAX_VARIABLE_MTRRS :: u32 where "MAX_VARIABLE_MTRRS = 16"
definition MTRR_TYPE_UNCACHABLE :: u8 where "MTRR_TYPE_UNCACHABLE = 0"
definition MTRR_TYPE_WRTHROUGH :: u8 where "MTRR_TYPE_WRTHROUGH = 4"
definition MTRR_TYPE_WRBACK :: u8 where "MTRR_TYPE_WRBACK = 6"

text \<open>The bit fields of \<open>mtrr_cap_t\<close>, \<open>mtrr_def_type_t\<close>, \<open>mtrr_physbase_t\<close> and \<open>mtrr_physmask_t\<close>.\<close>

definition cap_vcnt :: "u64 \<Rightarrow> u32" where "cap_vcnt raw = ucast (raw AND 0xff)"

definition def_type :: "u64 \<Rightarrow> u8" where "def_type raw = ucast raw"
definition def_e :: "u64 \<Rightarrow> bool" where "def_e raw = bit raw 11"
definition set_def_type :: "u8 \<Rightarrow> u64 \<Rightarrow> u64" where "set_def_type t raw = (raw AND NOT 0xff) OR ucast t"
definition set_def_e :: "bool \<Rightarrow> u64 \<Rightarrow> u64" where "set_def_e b raw = (if b then raw OR 0x800 else raw AND NOT 0x800)"
definition clear_def_fe :: "u64 \<Rightarrow> u64" where "clear_def_fe raw = raw AND NOT 0x400"

definition base_type :: "u64 \<Rightarrow> u8" where "base_type raw = ucast raw"
definition base_base :: "u64 \<Rightarrow> u64" where "base_base raw = drop_bit 12 raw"
definition set_base :: "u64 \<Rightarrow> u8 \<Rightarrow> u64 \<Rightarrow> u64" where
  "set_base b t raw = push_bit 12 b OR (raw AND 0xf00) OR ucast t"

definition mask_v :: "u64 \<Rightarrow> bool" where "mask_v raw = bit raw 11"
definition mask_mask :: "u64 \<Rightarrow> u64" where "mask_mask raw = drop_bit 12 raw"
definition clear_v :: "u64 \<Rightarrow> u64" where "clear_v raw = raw AND NOT 0x800"
definition set_mask :: "u64 \<Rightarrow> u64 \<Rightarrow> u64" where "set_mask k raw = push_bit 12 k OR (raw AND 0x7ff) OR 0x800"

text \<open>The addresses of the members of \<open>mtrr_state_t\<close>.\<close>

record mtrr_state_t =
  mtrr_def_type :: u32
  num_var_mtrrs :: u32
  mtrr_physbases :: "u32 \<Rightarrow> u32"
  mtrr_physmasks :: "u32 \<Rightarrow> u32"

definition mtrr_state_at :: "u32 \<Rightarrow> mtrr_state_t" where
  "mtrr_state_at a = \<lparr>mtrr_def_type = a, num_var_mtrrs = a + 8, mtrr_physbases = (\<lambda>i. a + 12 + 8 * i),
     mtrr_physmasks = (\<lambda>i. a + 140 + 8 * i)\<rparr>"

abbreviation saved_def :: "mem \<Rightarrow> u32 \<Rightarrow> u64" where "saved_def m st \<equiv> ld64 m (mtrr_def_type (mtrr_state_at st))"
abbreviation saved_num :: "mem \<Rightarrow> u32 \<Rightarrow> u32" where "saved_num m st \<equiv> ld32 m (num_var_mtrrs (mtrr_state_at st))"
abbreviation saved_base :: "mem \<Rightarrow> u32 \<Rightarrow> u32 \<Rightarrow> u64" where "saved_base m st i \<equiv> ld64 m (mtrr_physbases (mtrr_state_at st) i)"
abbreviation saved_mask :: "mem \<Rightarrow> u32 \<Rightarrow> u32 \<Rightarrow> u64" where "saved_mask m st i \<equiv> ld64 m (mtrr_physmasks (mtrr_state_at st) i)"

text \<open>
  The widest page number, from the number of physical address bits that the processor reports (C leaves
  the shift open for 64 bits or more, which no processor has).
\<close>

definition get_maxphyaddr_mask :: "'d hw \<Rightarrow> u64" where
  "get_maxphyaddr_mask hw =
     (if hw_cpuid_eax hw 0x80000000 < 0x80000008 then 0xffffff
      else drop_bit 12 (push_bit (unat (hw_cpuid_eax hw 0x80000008 AND 0xff)) 1 - 1))"

definition set_all_mtrrs :: "'d hw \<Rightarrow> bool \<Rightarrow> ('d intel, unit) exec" where
  "set_all_mtrrs hw enable =
     bindE (read_msr hw MSR_MTRRdefType) (\<lambda>raw. write_msr hw MSR_MTRRdefType (set_def_e enable raw))"

section \<open>Saving and restoring\<close>

text \<open>The next \<open>n\<close> pairs of registers from \<open>ndx\<close> on.\<close>

primrec save_loop :: "'d hw \<Rightarrow> u32 \<Rightarrow> nat \<Rightarrow> u32 \<Rightarrow> ('d intel, unit) exec" where
  "save_loop hw st 0 ndx = returnE ()"
| "save_loop hw st (Suc n) ndx =
     bindE (read_msr hw (MTRR_PHYS_MASK ndx)) (\<lambda>v.
     bindE (setmemE (st64 (mtrr_physmasks (mtrr_state_at st) ndx) v)) (\<lambda>_.
     bindE (read_msr hw (MTRR_PHYS_BASE ndx)) (\<lambda>v.
     bindE (setmemE (st64 (mtrr_physbases (mtrr_state_at st) ndx) v)) (\<lambda>_.
     save_loop hw st n (ndx + 1)))))"

definition save_mtrrs :: "'d hw \<Rightarrow> u32 \<Rightarrow> ('d intel, unit) exec" where
  "save_mtrrs hw saved_state =
     bindE (read_msr hw MSR_MTRRdefType) (\<lambda>v.
     bindE (setmemE (st64 (mtrr_def_type (mtrr_state_at saved_state)) v)) (\<lambda>_.
     bindE (read_msr hw MSR_MTRRcap) (\<lambda>cap.
     let n = (if cap_vcnt cap > MAX_VARIABLE_MTRRS then MAX_VARIABLE_MTRRS else cap_vcnt cap) in
     bindE (setmemE (st32 (num_var_mtrrs (mtrr_state_at saved_state)) n)) (\<lambda>_.
     bindE (save_loop hw saved_state (unat n) 0) (\<lambda>_.
     modifyE (\<lambda>s. s\<lparr>g_saved_mtrrs := saved_state\<rparr>))))))"

primrec restore_loop :: "'d hw \<Rightarrow> u32 \<Rightarrow> nat \<Rightarrow> u32 \<Rightarrow> ('d intel, unit) exec" where
  "restore_loop hw st 0 ndx = returnE ()"
| "restore_loop hw st (Suc n) ndx =
     bindE memE (\<lambda>m.
     bindE (write_msr hw (MTRR_PHYS_MASK ndx) (saved_mask m st ndx)) (\<lambda>_.
     bindE (write_msr hw (MTRR_PHYS_BASE ndx) (saved_base m st ndx)) (\<lambda>_.
     restore_loop hw st n (ndx + 1))))"

definition restore_mtrrs :: "'d hw \<Rightarrow> u32 \<Rightarrow> ('d intel, unit) exec" where
  "restore_mtrrs hw saved_state =
     bindE (if saved_state = 0 then getE g_saved_mtrrs else returnE saved_state) (\<lambda>st.
     if st = 0 then tell (Info ''ERROR ......... No saved state found'')
     else bindE (set_all_mtrrs hw False) (\<lambda>_.
          bindE memE (\<lambda>m.
          bindE (restore_loop hw st (unat (saved_num m st)) 0) (\<lambda>_.
          bindE memE (\<lambda>m.
          write_msr hw MSR_MTRRdefType (saved_def m st))))))"

section \<open>The type of a page\<close>

text \<open>
  The loop over the \<open>n\<close> saved pairs from \<open>i\<close> on, with the type of the last match and whether a match was
  write-through.
\<close>

primrec page_type_loop :: "mem \<Rightarrow> u32 \<Rightarrow> u64 \<Rightarrow> u64 \<Rightarrow> nat \<Rightarrow> u32 \<Rightarrow> u8 option \<Rightarrow> bool \<Rightarrow> u8" where
  "page_type_loop m st maxphyaddr_mask base 0 i type wt =
     (if wt then MTRR_TYPE_WRTHROUGH else case type of Some t \<Rightarrow> t | None \<Rightarrow> def_type (saved_def m st))"
| "page_type_loop m st maxphyaddr_mask base (Suc n) i type wt =
     (let base_i = saved_base m st i; mask_i = saved_mask m st i; t = base_type base_i in
      if \<not> mask_v mask_i then page_type_loop m st maxphyaddr_mask base n (i + 1) type wt
      else if base AND mask_mask mask_i AND maxphyaddr_mask \<noteq> base_base base_i AND mask_mask mask_i AND maxphyaddr_mask
      then page_type_loop m st maxphyaddr_mask base n (i + 1) type wt
      else if t = MTRR_TYPE_UNCACHABLE then MTRR_TYPE_UNCACHABLE
      else page_type_loop m st maxphyaddr_mask base n (i + 1) (Some t) (wt \<or> t = MTRR_TYPE_WRTHROUGH))"

definition get_page_type :: "'d hw \<Rightarrow> mem \<Rightarrow> u32 \<Rightarrow> u32 \<Rightarrow> u8" where
  "get_page_type hw m saved_state base =
     page_type_loop m saved_state (get_maxphyaddr_mask hw) (ucast (drop_bit 12 base)) (unat (saved_num m saved_state)) 0 None False"

primrec region_type_loop :: "'d hw \<Rightarrow> mem \<Rightarrow> u32 \<Rightarrow> u8 \<Rightarrow> nat \<Rightarrow> u32 \<Rightarrow> u8 option" where
  "region_type_loop hw m st type 0 base = Some type"
| "region_type_loop hw m st type (Suc n) base =
     (if type \<noteq> get_page_type hw m st base then None else region_type_loop hw m st type n (base + 0x1000))"

text \<open>\<open>None\<close> is \<open>MTRR_TYPE_MIXED\<close>. The loop runs over the pages after the first one, up to \<open>fin\<close>.\<close>

definition get_region_type :: "'d hw \<Rightarrow> mem \<Rightarrow> u32 \<Rightarrow> u32 \<Rightarrow> u32 \<Rightarrow> u8 option" where
  "get_region_type hw m saved_state base pages =
     (if pages = 0 then None
      else if NOT 0 - base < push_bit 12 pages then None
      else if \<not> def_e (saved_def m saved_state) then Some MTRR_TYPE_UNCACHABLE
      else let base = PAGE_DOWN base; fin = base + push_bit 12 pages in
        region_type_loop hw m saved_state (get_page_type hw m saved_state base)
          ((unat fin - unat (base + 0x1000)) div 0x1000) (base + 0x1000))"

section \<open>The checks of the saved state\<close>

definition is_uc :: "'d hw \<Rightarrow> u32 \<Rightarrow> u32 \<Rightarrow> u32 \<Rightarrow> msg \<Rightarrow> ('d intel, bool) exec \<Rightarrow> ('d intel, bool) exec" where
  "is_uc hw saved_state base pages t k =
     bindE memE (\<lambda>m.
     if get_region_type hw m saved_state base pages \<noteq> Some MTRR_TYPE_UNCACHABLE
     then bindE (tell t) (\<lambda>_. returnE False) else k)"

definition validate_mmio_regions :: "'d hw \<Rightarrow> u32 \<Rightarrow> ('d intel, bool) exec" where
  "validate_mmio_regions hw saved_state =
     is_uc hw saved_state 0xfed20000 16 (Info ''MMIO space for TXT private config space should be UC'')
     (is_uc hw saved_state 0xfed30000 16 (Info ''MMIO space for TXT public config space should be UC'')
     (is_uc hw saved_state 0xfed40000 5 (Info (''MMIO space for TPM should be UC'' @ nl))
     (is_uc hw saved_state 0xfee00000 1 (Info (''MMIO space for APIC should be UC'' @ nl))
     (bindE get_acpi_ioapic_table (\<lambda>acpi_table_ioapic.
      if acpi_table_ioapic = 0 then bindE (tell (Info ''acpi_table_ioapic == NULL'')) (\<lambda>_. returnE False)
      else bindE memE (\<lambda>m.
      let address = ld32 m (apic_address (ioapic_at acpi_table_ioapic)) in
      is_uc hw saved_state address 1 (Num ''MMIO space(%x) for IOAPIC should be UC'' address)
      (bindE get_acpi_mcfg_table (\<lambda>acpi_table_mcfg.
       if acpi_table_mcfg = 0 then bindE (tell (Info (''acpi_table_mcfg == NULL'' @ nl))) (\<lambda>_. returnE True)
       else bindE memE (\<lambda>m.
       let address = ld32 m (mcfg_base_address acpi_table_mcfg) in
       is_uc hw saved_state address 1 (Num ''MMIO space(%x) for PCI config space should be UC'' address)
       (returnE True))))))))))"

text \<open>
  The two loops over the bits of a mask: \<open>tb\<close> moves up while the bits are \<open>b\<close>, for at most \<open>n\<close> steps. The
  number of pages is a power of two below \<open>2 ^ 64\<close>, so that 64 steps reach it.
\<close>

primrec bits_loop :: "u64 \<Rightarrow> u64 \<Rightarrow> bool \<Rightarrow> nat \<Rightarrow> u64 \<Rightarrow> u64" where
  "bits_loop k max_pages b 0 tb = tb"
| "bits_loop k max_pages b (Suc n) tb =
     (if tb \<noteq> max_pages \<and> (tb AND k \<noteq> 0) = b then bits_loop k max_pages b n (push_bit 1 tb) else tb)"

definition contiguous :: "u64 \<Rightarrow> u64 \<Rightarrow> bool" where
  "contiguous k max_pages \<longleftrightarrow>
     bits_loop k max_pages True 64 (bits_loop k max_pages False 64 1) = max_pages"

definition contiguous_all :: "'d hw \<Rightarrow> mem \<Rightarrow> u32 \<Rightarrow> bool" where
  "contiguous_all hw m st \<longleftrightarrow>
     list_all (\<lambda>n. mask_v (saved_mask m st (of_nat n)) \<longrightarrow>
       contiguous (mask_mask (saved_mask m st (of_nat n)) AND get_maxphyaddr_mask hw) (get_maxphyaddr_mask hw + 1))
       [0..<unat (saved_num m st)]"

text \<open>Two ranges, each a base and a mask: do they overlap, and is the second one contained in the first.\<close>

definition overlap :: "u64 \<Rightarrow> u64 \<times> u64 \<Rightarrow> u64 \<times> u64 \<Rightarrow> bool" where
  "overlap mx a b \<longleftrightarrow>
     base_base (fst a) AND mask_mask (snd a) AND mask_mask (snd b) AND mx = base_base (fst b) AND mask_mask (snd b) AND mx \<or>
     base_base (fst b) AND mask_mask (snd b) AND mask_mask (snd a) AND mx = base_base (fst a) AND mask_mask (snd a) AND mx"

definition contains_range :: "u64 \<Rightarrow> u64 \<times> u64 \<Rightarrow> u64 \<times> u64 \<Rightarrow> bool" where
  "contains_range mx j a \<longleftrightarrow>
     base_base (fst a) AND mask_mask (snd a) AND mask_mask (snd j) AND mx = base_base (fst j) AND mask_mask (snd j) AND mx \<and>
     mask_mask (snd j) AND NOT (mask_mask (snd a)) AND mx = 0"

definition types_agree :: "u8 \<Rightarrow> u8 \<Rightarrow> bool" where
  "types_agree t u \<longleftrightarrow> t = u \<or> t = MTRR_TYPE_UNCACHABLE \<or> u = MTRR_TYPE_UNCACHABLE \<or>
     t = MTRR_TYPE_WRTHROUGH \<and> u = MTRR_TYPE_WRBACK \<or> t = MTRR_TYPE_WRBACK \<and> u = MTRR_TYPE_WRTHROUGH"

definition saved_pair :: "mem \<Rightarrow> u32 \<Rightarrow> nat \<Rightarrow> u64 \<times> u64" where
  "saved_pair m st n = (saved_base m st (of_nat n), saved_mask m st (of_nat n))"

text \<open>The three nested loops: of the pairs \<open>ndx < i\<close>, and of the third range \<open>j\<close> that may make one valid.\<close>

definition combination_ok :: "u64 \<Rightarrow> (u64 \<times> u64) list \<Rightarrow> u64 \<times> u64 \<Rightarrow> u64 \<times> u64 \<Rightarrow> bool" where
  "combination_ok mx rs a b \<longleftrightarrow>
     \<not> mask_v (snd b) \<or> \<not> overlap mx a b \<or> types_agree (base_type (fst a)) (base_type (fst b)) \<or>
     list_ex (\<lambda>j. mask_v (snd j) \<and> base_type (fst j) = MTRR_TYPE_UNCACHABLE \<and> (contains_range mx j a \<or> contains_range mx j b)) rs"

primrec combinations_ok :: "u64 \<Rightarrow> (u64 \<times> u64) list \<Rightarrow> (u64 \<times> u64) list \<Rightarrow> bool" where
  "combinations_ok mx rs [] = True"
| "combinations_ok mx rs (a # as) \<longleftrightarrow>
     (mask_v (snd a) \<longrightarrow> list_all (combination_ok mx rs a) as) \<and> combinations_ok mx rs as"

definition validate_mtrrs :: "'d hw \<Rightarrow> u32 \<Rightarrow> ('d intel, bool) exec" where
  "validate_mtrrs hw saved_state =
     bindE memE (\<lambda>m.
     if \<not> def_e (saved_def m saved_state) then returnE True
     else bindE (read_msr hw MSR_MTRRcap) (\<lambda>cap.
     let rs = map (saved_pair m saved_state) [0..<unat (saved_num m saved_state)] in
     if cap_vcnt cap < saved_num m saved_state
     then bindE (tell_all [Info ''actual # var MTRRs < saved #'', Num ''mtrr_cap.vcnt'' (cap_vcnt cap),
            Num ''saved_state->num_var_mtrrs'' (saved_num m saved_state)]) (\<lambda>_. returnE False)
     else if \<not> contiguous_all hw m saved_state then returnE False
     else if \<not> combinations_ok (get_maxphyaddr_mask hw) rs rs then returnE False
     else bindE (validate_mmio_regions hw saved_state) (\<lambda>b.
          if \<not> b then bindE (tell (Info ''Some mmio region should be UC type'')) (\<lambda>_. returnE False)
          else returnE True)))"

section \<open>Caching the SINIT module\<close>

fun fls_nat :: "nat \<Rightarrow> nat" where
  "fls_nat n = (if n = 0 then 0 else Suc (fls_nat (n div 2)))"

declare fls_nat.simps [simp del]

definition fls :: "u32 \<Rightarrow> nat" where "fls v = fls_nat (unat v)"

text \<open>The number of zeros at the end of the base; for 0 the loop does not end.\<close>

partial_function (option) low_zeros :: "u32 \<Rightarrow> nat \<Rightarrow> nat option" where
  "low_zeros base_v i = (if base_v AND 1 = 0 then low_zeros (drop_bit 1 base_v) (i + 1) else Some i)"

text \<open>All pairs of registers are made invalid.\<close>

primrec disable_loop :: "'d hw \<Rightarrow> nat \<Rightarrow> u32 \<Rightarrow> ('d intel, unit) exec" where
  "disable_loop hw 0 ndx = returnE ()"
| "disable_loop hw (Suc n) ndx =
     bindE (read_msr hw (MTRR_PHYS_MASK ndx)) (\<lambda>raw.
     bindE (write_msr hw (MTRR_PHYS_MASK ndx) (clear_v raw)) (\<lambda>_.
     disable_loop hw n (ndx + 1)))"

text \<open>One pair is set to \<open>pages\<close> pages from \<open>base\<close> on.\<close>

definition SINIT_MTRR_MASK :: u32 where "SINIT_MTRR_MASK = 0xFFFFFF"

definition set_pair :: "'d hw \<Rightarrow> u32 \<Rightarrow> u32 \<Rightarrow> u32 \<Rightarrow> u32 \<Rightarrow> ('d intel, unit) exec" where
  "set_pair hw ndx base pages mem_type =
     bindE (read_msr hw (MTRR_PHYS_BASE ndx)) (\<lambda>raw.
     bindE (write_msr hw (MTRR_PHYS_BASE ndx) (set_base (ucast (drop_bit 12 base AND SINIT_MTRR_MASK)) (ucast mem_type) raw)) (\<lambda>_.
     bindE (read_msr hw (MTRR_PHYS_MASK ndx)) (\<lambda>raw.
     write_msr hw (MTRR_PHYS_MASK ndx) (set_mask (ucast (NOT (pages - 1) AND SINIT_MTRR_MASK)) raw))))"

text \<open>
  The two loops that set the pairs, the first with ranges of \<open>mtrr_s\<close> pages, the second with the largest
  power of two that is left. Every round takes at least one page, so that \<open>num_pages\<close> rounds are enough.
  \<open>Some\<close> is the base, the number of pages and the number of the pair after the loop, \<open>None\<close> that the
  function has returned 0.
\<close>

primrec whole_loop :: "'d hw \<Rightarrow> u32 \<Rightarrow> u32 \<Rightarrow> u32 \<Rightarrow> nat \<Rightarrow> u32 \<times> u32 \<times> u32 \<Rightarrow> ('d intel, (u32 \<times> u32 \<times> u32) option) exec" where
  "whole_loop hw vcnt mem_type mtrr_s 0 x = returnE (Some x)"
| "whole_loop hw vcnt mem_type mtrr_s (Suc n) x =
     (case x of (base, num_pages, ndx) \<Rightarrow>
      if num_pages \<ge> mtrr_s
      then bindE (set_pair hw ndx base mtrr_s mem_type) (\<lambda>_.
           if ndx + 1 = vcnt
           then refuse (''ERROR : exceeded number of var MTRRs when mapping range'' @ nl)
           else whole_loop hw vcnt mem_type mtrr_s n (base + mtrr_s * 0x1000, num_pages - mtrr_s, ndx + 1))
      else returnE (Some x))"

primrec rest_loop :: "'d hw \<Rightarrow> u32 \<Rightarrow> u32 \<Rightarrow> nat \<Rightarrow> u32 \<times> u32 \<times> u32 \<Rightarrow> ('d intel, (u32 \<times> u32 \<times> u32) option) exec" where
  "rest_loop hw vcnt mem_type 0 x = returnE (Some x)"
| "rest_loop hw vcnt mem_type (Suc n) x =
     (case x of (base, num_pages, ndx) \<Rightarrow>
      if num_pages > 0
      then let pages_in_range = push_bit (fls num_pages - 1) 1 in
           bindE (set_pair hw ndx base pages_in_range mem_type) (\<lambda>_.
           if ndx + 1 = vcnt
           then refuse (''exceeded number of var MTRRs when mapping range'' @ nl)
           else rest_loop hw vcnt mem_type n (base + pages_in_range * 0x1000, num_pages - pages_in_range, ndx + 1))
      else returnE (Some x))"

definition set_mem_type :: "'d hw \<Rightarrow> u32 \<Rightarrow> u32 \<Rightarrow> u32 \<Rightarrow> ('d intel, bool) exec" where
  "set_mem_type hw base sz mem_type =
     bindE (read_msr hw MSR_MTRRdefType) (\<lambda>raw.
     bindE (write_msr hw MSR_MTRRdefType (set_def_type MTRR_TYPE_UNCACHABLE (clear_def_fe raw))) (\<lambda>_.
     bindE (read_msr hw MSR_MTRRcap) (\<lambda>cap.
     let vcnt = cap_vcnt cap; num_pages = drop_bit 12 (PAGE_UP sz) in
     bindE (disable_loop hw (unat vcnt) 0) (\<lambda>_.
     case low_zeros base 0 of
       None \<Rightarrow> stopE Hang
     | Some i \<Rightarrow>
         let mtrr_s = ((\<lambda>x. x * 2) ^^ (i - 12)) 1 in
         bindE (whole_loop hw vcnt mem_type mtrr_s (unat num_pages) (base, num_pages, 0)) (\<lambda>r. case r of
           None \<Rightarrow> returnE False
         | Some (base, num_pages, ndx) \<Rightarrow>
             bindE (rest_loop hw vcnt mem_type (unat num_pages) (base, num_pages, ndx)) (\<lambda>r. returnE (r \<noteq> None)))))))"

definition set_mtrrs_for_acmod :: "'d hw \<Rightarrow> 'd txt_hw \<Rightarrow> u32 \<Rightarrow> ('d intel, bool) exec" where
  "set_mtrrs_for_acmod hw tx hdr =
     bindE (read_eflags tx) (\<lambda>eflags.
     bindE (cpuE tx Disable_intr) (\<lambda>_.
     bindE (read_cr0 tx) (\<lambda>cr0.
     bindE (write_cr0 tx ((cr0 AND NOT 0x20000000) OR 0x40000000)) (\<lambda>_.
     bindE (cpuE tx Wbinvd) (\<lambda>_.
     bindE (read_cr4 tx) (\<lambda>cr4.
     bindE (write_cr4 tx (cr4 AND NOT 0x80)) (\<lambda>_.
     bindE (set_all_mtrrs hw False) (\<lambda>_.
     bindE memE (\<lambda>m.
     bindE (set_mem_type hw hdr (acm_words m hdr * 4) (ucast MTRR_TYPE_WRBACK)) (\<lambda>b.
     if \<not> b then returnE False
     else bindE (cpuE tx Wbinvd) (\<lambda>_.
          bindE (set_all_mtrrs hw True) (\<lambda>_.
          bindE (write_cr0 tx cr0) (\<lambda>_.
          bindE (write_cr4 tx cr4) (\<lambda>_.
          bindE (write_eflags tx eflags) (\<lambda>_.
          returnE True)))))))))))))))"

end
