(* ===== verification/MDR.thy ===== *)
theory MDR
  imports Linux
begin

text \<open>
  The memory descriptor records of the SINIT module against the memory map (\<^verbatim>\<open>src/arch-intel/verify.c\<close>):
  \<open>verify_e820_map\<close> sorts the table of records in the TXT heap and reserves all RAM that no good record
  covers.
\<close>

section \<open>Records\<close>

definition sizeof_sinit_mdr_t :: nat where "sizeof_sinit_mdr_t = 24"

definition mdr_addr :: "u32 \<Rightarrow> u32 \<Rightarrow> u32" where "mdr_addr mdrs_base i = mdrs_base + 24 * i"

definition mdr_base :: "mem \<Rightarrow> u32 \<Rightarrow> u64" where "mdr_base m a = ld64 m a"
definition mdr_length :: "mem \<Rightarrow> u32 \<Rightarrow> u64" where "mdr_length m a = ld64 m (a + 8)"
definition mdr_type :: "mem \<Rightarrow> u32 \<Rightarrow> u8" where "mdr_type m a = m (a + 16)"

text \<open>A local copy of a record, read through an address of its own.\<close>

definition local_mem :: "bytes \<Rightarrow> mem" where "local_mem bs = (\<lambda>a. bs ! unat a)"

section \<open>Sorting\<close>

text \<open>The smallest of the next \<open>k\<close> records: its bytes and its number.\<close>

primrec select_loop :: "mem \<Rightarrow> u32 \<Rightarrow> nat \<Rightarrow> u32 \<Rightarrow> bytes \<Rightarrow> u32 \<Rightarrow> bytes \<times> u32" where
  "select_loop m mdrs_base 0 j tmp_entry pos = (tmp_entry, pos)"
| "select_loop m mdrs_base (Suc k) j tmp_entry pos =
     (let a = mdr_addr mdrs_base j; t = local_mem tmp_entry in
      if mdr_base t 0 > mdr_base m a \<or> mdr_base t 0 = mdr_base m a \<and> mdr_length t 0 > mdr_length m a
      then select_loop m mdrs_base k (j + 1) (bytes_at m a sizeof_sinit_mdr_t) j
      else select_loop m mdrs_base k (j + 1) tmp_entry pos)"

primrec sort_loop :: "u32 \<Rightarrow> nat \<Rightarrow> u32 \<Rightarrow> mem \<Rightarrow> mem" where
  "sort_loop mdrs_base 0 i m = m"
| "sort_loop mdrs_base (Suc k) i m =
     (case select_loop m mdrs_base k (i + 1) (bytes_at m (mdr_addr mdrs_base i) sizeof_sinit_mdr_t) i of
        (tmp_entry, pos) \<Rightarrow>
          sort_loop mdrs_base k (i + 1)
            (if pos > i
             then poke (mdr_addr mdrs_base i) tmp_entry
                    (memcpy_intel (mdr_addr mdrs_base pos) (mdr_addr mdrs_base i) (of_nat sizeof_sinit_mdr_t) m)
             else m))"

section \<open>Gaps\<close>

text \<open>The loop over the records from \<open>i\<close> on; \<open>None\<close> is a failure, \<open>Some\<close> the end of the last good record.\<close>

primrec gaps_loop :: "u32 \<Rightarrow> nat \<Rightarrow> u32 \<Rightarrow> u64 \<Rightarrow> ('d intel, u64 option) exec" where
  "gaps_loop mdrs_base 0 i base = returnE (Some base)"
| "gaps_loop mdrs_base (Suc k) i base =
     bindE memE (\<lambda>m.
     let a = mdr_addr mdrs_base i; len = mdr_base m a - base in
     if mdr_type m a > 0 then gaps_loop mdrs_base k (i + 1) base
     else bindE (if len > 0 then e820_reserve_ram base len else returnE True) (\<lambda>b.
          if \<not> b then returnE None
          else gaps_loop mdrs_base k (i + 1) (mdr_base m a + mdr_length m a)))"

definition verify_e820_map :: "u32 \<Rightarrow> u32 \<Rightarrow> ('d intel, bool) exec" where
  "verify_e820_map mdrs_base num_mdrs =
     (if mdrs_base = 0 \<or> num_mdrs = 0 then returnE False
      else bindE (setmemE (sort_loop mdrs_base (unat num_mdrs) 0)) (\<lambda>_.
           bindE (gaps_loop mdrs_base (unat num_mdrs) 0 0) (\<lambda>r. case r of
             None \<Rightarrow> returnE False
           | Some base \<Rightarrow> e820_reserve_ram base (- 1 - base))))"

text \<open>
  The features that \<open>use_mwait\<close> looks at are in a static of \<^verbatim>\<open>verify.c\<close> that nothing sets; the processor
  checks have another one.
\<close>

definition use_mwait :: "('d intel, bool) exec" where
  "use_mwait = bindE get_tboot_mwait (\<lambda>b. returnE (b \<and> (0 :: u32) AND 1 \<noteq> 0))"

end
