(* ===== verification/TXT_Launch.thy ===== *)
theory TXT_Launch
  imports MTRR MDR
begin

text \<open>
  The launch of the measured environment on Intel processors (\<^verbatim>\<open>src/arch-intel/txt.c\<close>): the page table of the
  environment, the tables in the TXT heap for the SINIT module, the state of the processor, the launch
  itself, and after it the checks, the other processors, and the end of the environment.
\<close>

section \<open>Structures\<close>

definition TBOOT_BASE_ADDR :: u32 where "TBOOT_BASE_ADDR = 0x0800000"
definition NR_CPUS :: u32 where "NR_CPUS = 512"

definition TXTCR_STS :: u32 where "TXTCR_STS = 0"
definition TXTCR_ESTS :: u32 where "TXTCR_ESTS = 8"
definition TXTCR_ERRORCODE :: u32 where "TXTCR_ERRORCODE = 0x30"
definition TXTCR_CMD_RESET :: u32 where "TXTCR_CMD_RESET = 0x38"
definition TXTCR_CMD_CLOSE_PRIVATE :: u32 where "TXTCR_CMD_CLOSE_PRIVATE = 0x48"
definition TXTCR_CMD_UNLOCK_MEM_CONFIG :: u32 where "TXTCR_CMD_UNLOCK_MEM_CONFIG = 0x218"
definition TXTCR_MLE_JOIN :: u32 where "TXTCR_MLE_JOIN = 0x290"
definition TXTCR_CMD_OPEN_LOCALITY1 :: u32 where "TXTCR_CMD_OPEN_LOCALITY1 = 0x380"
definition TXTCR_CMD_SECRETS :: u32 where "TXTCR_CMD_SECRETS = 0x8e0"
definition TXTCR_CMD_NO_SECRETS :: u32 where "TXTCR_CMD_NO_SECRETS = 0x8e8"
definition TXTCR_E2STS :: u32 where "TXTCR_E2STS = 0x8f0"

definition MSR_IA32_MISC_ENABLE :: u32 where "MSR_IA32_MISC_ENABLE = 0x1a0"
definition MSR_APICBASE :: u32 where "MSR_APICBASE = 0x1b"
definition MSR_MCG_CAP :: u32 where "MSR_MCG_CAP = 0x179"
definition MSR_MCG_STATUS :: u32 where "MSR_MCG_STATUS = 0x17a"
definition MSR_MC0_STATUS :: u32 where "MSR_MC0_STATUS = 0x401"

text \<open>The members of the constant \<open>g_mle_hdr\<close> that the code reads.\<close>

definition g_mle_start_off :: "symbols \<Rightarrow> u32" where "g_mle_start_off sy = sym_mle_start sy - TBOOT_BASE_ADDR"
definition g_mle_end_off :: "symbols \<Rightarrow> u32" where "g_mle_end_off sy = sym_mle_end sy - TBOOT_BASE_ADDR"
definition MLE_HDR_CAPS :: u32 where "MLE_HDR_CAPS = 0x227"

text \<open>The addresses of the members of \<open>os_mle_data_t\<close>, \<open>os_sinit_data_t\<close> and \<open>sinit_mle_data_t\<close>.\<close>

record os_mle_data_t =
  om_version :: u32
  saved_mtrr_state :: u32
  lctx_addr :: u32
  saved_misc_enable_msr :: u32
  event_log_buffer :: u32

definition os_mle_at :: "u32 \<Rightarrow> os_mle_data_t" where
  "os_mle_at a = \<lparr>om_version = a, saved_mtrr_state = a + 4, lctx_addr = a + 272, saved_misc_enable_msr = a + 276,
     event_log_buffer = a + 65816\<rparr>"

record os_sinit_data_t =
  os_version :: u32
  mle_ptab :: u32
  mle_size :: u32
  mle_hdr_base :: u32
  vtd_pmr_lo_base :: u32
  vtd_pmr_lo_size :: u32
  vtd_pmr_hi_base :: u32
  vtd_pmr_hi_size :: u32
  os_capabilities :: u32
  efi_rsdt_ptr :: u32
  os_ext_data_elts :: u32

definition os_sinit_at :: "u32 \<Rightarrow> os_sinit_data_t" where
  "os_sinit_at a = \<lparr>os_version = a, mle_ptab = a + 8, mle_size = a + 16, mle_hdr_base = a + 24, vtd_pmr_lo_base = a + 32,
     vtd_pmr_lo_size = a + 40, vtd_pmr_hi_base = a + 48, vtd_pmr_hi_size = a + 56, os_capabilities = a + 80,
     efi_rsdt_ptr = a + 84, os_ext_data_elts = a + 92\<rparr>"

record sinit_mle_data_t =
  rlp_wakeup_addr :: u32
  num_mdrs :: u32
  mdrs_off :: u32

definition sinit_mle_at :: "u32 \<Rightarrow> sinit_mle_data_t" where
  "sinit_mle_at a = \<lparr>rlp_wakeup_addr = a + 120, num_mdrs = a + 128, mdrs_off = a + 132\<rparr>"

section \<open>The page table\<close>

definition MAKE_PDTE :: "u32 \<Rightarrow> u64" where
  "MAKE_PDTE addr = (ucast addr AND NOT 0xfff) OR 1"

text \<open>
  The loop over the pages, at most 512 of them: the size was checked. It has at least one round, also for
  an empty environment.
\<close>

primrec pte_loop :: "u32 \<Rightarrow> u32 \<Rightarrow> nat \<Rightarrow> u32 \<Rightarrow> u32 \<Rightarrow> mem \<Rightarrow> mem" where
  "pte_loop mle_start sz 0 pte mle_off m = m"
| "pte_loop mle_start sz (Suc n) pte mle_off m =
     (let m = st64 pte (MAKE_PDTE (mle_start + mle_off)) m; mle_off = mle_off + 0x1000 in
      if mle_off < sz then pte_loop mle_start sz n (pte + 8) mle_off m else m)"

definition build_mle_pagetable :: "symbols \<Rightarrow> u32 \<Rightarrow> u32 \<Rightarrow> ('d intel, u32) exec" where
  "build_mle_pagetable sy mle_start sz =
     (let ptab_base = sym_g_mle_pt sy; pg_dir = ptab_base + 0x1000; pg_tab = pg_dir + 0x1000 in
      if sz > 512 * 0x1000 then bindE (tell (Info ''MLE size too big for single page table'')) (\<lambda>_. returnE 0)
      else if mle_start AND 0xfff \<noteq> 0 then bindE (tell (Info ''MLE start is not page-aligned'')) (\<lambda>_. returnE 0)
      else bindE (setmemE (memset ptab_base 0 (3 * 0x1000))) (\<lambda>_.
           bindE (setmemE (st64 ptab_base (MAKE_PDTE pg_dir))) (\<lambda>_.
           bindE (setmemE (st64 pg_dir (MAKE_PDTE pg_tab))) (\<lambda>_.
           bindE (setmemE (pte_loop mle_start sz 512 pg_tab 0)) (\<lambda>_.
           returnE ptab_base)))))"

section \<open>The TXT heap\<close>

definition init_event_log :: "'d txt_hw \<Rightarrow> ('d intel, u32) exec" where
  "init_event_log tx =
     bindE (get_txt_heap tx) (\<lambda>heap.
     bindE memE (\<lambda>m.
     let elog = event_log_buffer (os_mle_at (get_os_mle_data_start m heap)) in
     bindE (modifyE (\<lambda>s. s\<lparr>g_elog := elog\<rparr>)) (\<lambda>_.
     bindE (setmemE (poke elog EVTLOG_SIGNATURE)) (\<lambda>_.
     bindE (setmemE (poke (elog + 32) [1, 0, 1, 0])) (\<lambda>_.
     bindE (setmemE (st32 (elog + 36) (5 * 4 * 1024))) (\<lambda>_.
     bindE (setmemE (st32 (elog + 40) 48)) (\<lambda>_.
     bindE (setmemE (st32 (elog + 44) 48)) (\<lambda>_.
     returnE elog))))))))"

definition init_os_sinit_ext_data :: "'d txt_hw \<Rightarrow> u32 \<Rightarrow> ('d intel, unit) exec" where
  "init_os_sinit_ext_data tx elts =
     bindE (init_event_log tx) (\<lambda>elog.
     bindE (setmemE (st64 (elts + 8) (ucast elog))) (\<lambda>_.
     bindE (setmemE (st32 elts 5)) (\<lambda>_.
     bindE (setmemE (st32 (elts + 4) 16)) (\<lambda>_.
     bindE memE (\<lambda>m.
     let elt = elts + elt_size m elts in
     bindE (setmemE (st32 elt 0)) (\<lambda>_.
     setmemE (st32 (elt + 4) 8)))))))"

text \<open>The protected regions: the bases and sizes are multiples of 2 MB.\<close>

definition pmr_base :: "u64 \<Rightarrow> u64" where "pmr_base lo = lo AND NOT 0x1fffff"
definition pmr_size :: "u64 \<Rightarrow> u64 \<Rightarrow> u64" where "pmr_size lo hi = (hi - pmr_base lo) AND NOT 0x1fffff"

definition set_vtd_pmrs :: "u32 \<Rightarrow> ram_ranges \<Rightarrow> mem \<Rightarrow> mem" where
  "set_vtd_pmrs os_sinit_data r m =
     (let o' = os_sinit_at os_sinit_data;
          m = st64 (vtd_pmr_lo_base o') (pmr_base (min_lo_ram r)) m;
          m = st64 (vtd_pmr_lo_size o') (pmr_size (min_lo_ram r) (max_lo_ram r)) m;
          m = st64 (vtd_pmr_hi_base o') (pmr_base (min_hi_ram r)) m
      in st64 (vtd_pmr_hi_size o') (pmr_size (min_hi_ram r) (max_hi_ram r)) m)"

text \<open>The bits of \<open>txt_caps_t\<close>: wake-up by \<open>getsec\<close> and by a monitor, page table in \<open>ecx\<close>, the two mappings of the PCRs.\<close>

abbreviation (input) rlp_wake_getsec :: u32 where "rlp_wake_getsec \<equiv> 1"
abbreviation (input) rlp_wake_monitor :: u32 where "rlp_wake_monitor \<equiv> 2"
abbreviation (input) ecx_pgtbl :: u32 where "ecx_pgtbl \<equiv> 4"
abbreviation (input) pcr_map_no_legacy :: u32 where "pcr_map_no_legacy \<equiv> 0x10"
abbreviation (input) pcr_map_da :: u32 where "pcr_map_da \<equiv> 0x20"
abbreviation (input) tcg_event_log_format :: u32 where "tcg_event_log_format \<equiv> 0x200"

text \<open>The change of the capabilities in the table.\<close>

definition capsE :: "u32 \<Rightarrow> (u32 \<Rightarrow> u32) \<Rightarrow> ('d intel, unit) exec" where
  "capsE os f = setmemE (\<lambda>m. st32 (os_capabilities (os_sinit_at os)) (f (ld32 m (os_capabilities (os_sinit_at os)))) m)"

text \<open>
  The parts of \<open>init_txt_heap\<close> in their order; each gives \<open>None\<close> for \<open>return NULL\<close>.
\<close>

definition init_os_mle :: "'d hw \<Rightarrow> u32 \<Rightarrow> ('d intel, unit) exec" where
  "init_os_mle hw txt_heap =
     bindE memE (\<lambda>m.
     let a = get_os_mle_data_start m txt_heap in
     bindE (setmemE (st64 (a - 8) (sizeof_os_mle_data_t + 8))) (\<lambda>_.
     bindE (setmemE (memset a 0 (ucast sizeof_os_mle_data_t))) (\<lambda>_.
     bindE (setmemE (st32 (om_version (os_mle_at a)) 3)) (\<lambda>_.
     bindE (setmemE (st32 (lctx_addr (os_mle_at a)) 0)) (\<lambda>_.
     bindE (read_msr hw MSR_IA32_MISC_ENABLE) (\<lambda>v.
     setmemE (st32 (saved_misc_enable_msr (os_mle_at a)) (ucast v))))))))"

definition init_os_sinit :: "symbols \<Rightarrow> u32 \<Rightarrow> u32 \<Rightarrow> u32 \<Rightarrow> ('d intel, u32 option) exec" where
  "init_os_sinit sy ptab_base txt_heap version =
     bindE memE (\<lambda>m.
     let a = get_os_sinit_data_start m txt_heap; o' = os_sinit_at a in
     case calc_os_sinit_data_size version of
       None \<Rightarrow> stopE Fault
     | Some n \<Rightarrow>
         bindE (setmemE (st64 (a - 8) n)) (\<lambda>_.
         bindE (setmemE (memset a 0 (ucast n))) (\<lambda>_.
         bindE (setmemE (st32 (os_version o') version)) (\<lambda>_.
         bindE (setmemE (st64 (mle_ptab o') (ucast ptab_base))) (\<lambda>_.
         bindE (setmemE (st64 (mle_size o') (ucast (g_mle_end_off sy - g_mle_start_off sy)))) (\<lambda>_.
         bindE (setmemE (st64 (mle_hdr_base o') (ucast (sym_g_mle_hdr sy) - ucast (sym_mle_start sy)))) (\<lambda>_.
         bindE get_ram_ranges (\<lambda>(ok, r).
         if \<not> ok then returnE None
         else bindE (setmemE (set_vtd_pmrs a r)) (\<lambda>_. returnE (Some a))))))))))"

definition init_wake :: "u32 \<Rightarrow> u32 \<Rightarrow> ('d intel, unit option) exec" where
  "init_wake a sinit_caps =
     bindE (capsE a (\<lambda>_. MLE_HDR_CAPS AND NOT (rlp_wake_getsec OR rlp_wake_monitor OR pcr_map_da))) (\<lambda>_.
     if sinit_caps AND rlp_wake_monitor \<noteq> 0 then bindE (capsE a (\<lambda>c. c OR rlp_wake_monitor)) (\<lambda>_. returnE (Some ()))
     else if sinit_caps AND rlp_wake_getsec \<noteq> 0 then bindE (capsE a (\<lambda>c. c OR rlp_wake_getsec)) (\<lambda>_. returnE (Some ()))
     else bindE (tell (Num ''SINIT capabilities are incompatible'' sinit_caps)) (\<lambda>_. returnE None))"

definition init_rsdp :: "'d hw \<Rightarrow> symbols \<Rightarrow> u32 \<Rightarrow> u32 \<Rightarrow> ('d intel, unit) exec" where
  "init_rsdp hw sy a version =
     bindE (get_rsdp hw) (\<lambda>p.
     if p \<noteq> 0
     then if version < 6
          then setmemE (\<lambda>m. st64 (efi_rsdt_ptr (os_sinit_at a)) (ucast (ld32 m (rsdp_rsdt (rsdp_at p)))) m)
          else bindE (setmemE (memcpy_intel (sym_g_rsdp sy) p sizeof_acpi_rsdp)) (\<lambda>_.
               setmemE (st64 (efi_rsdt_ptr (os_sinit_at a)) (ucast (sym_g_rsdp sy))))
     else bindE (tell (Info (''ERROR: Failed to find RSDP for EFI launch'' @ nl))) (\<lambda>_. stopE Hang))"

definition init_mapping :: "u32 \<Rightarrow> u32 \<Rightarrow> ('d intel, unit option) exec" where
  "init_mapping a sinit_caps =
     bindE (capsE a (\<lambda>c. c OR pcr_map_no_legacy)) (\<lambda>_.
     if sinit_caps AND pcr_map_no_legacy = 0 then bindE (capsE a (\<lambda>c. c AND NOT pcr_map_no_legacy)) (\<lambda>_. returnE (Some ()))
     else if sinit_caps AND pcr_map_da \<noteq> 0
     then bindE (tell (Info ''DA is the only supported PCR mapping by SINIT, use it'')) (\<lambda>_.
          bindE (capsE a (\<lambda>c. c OR pcr_map_da)) (\<lambda>_. returnE (Some ())))
     else bindE (tell (Num ''SINIT capabilities are incompatible '' sinit_caps)) (\<lambda>_. returnE None))"

definition init_txt_heap :: "'d hw \<Rightarrow> 'd txt_hw \<Rightarrow> symbols \<Rightarrow> u32 \<Rightarrow> u32 \<Rightarrow> ('d intel, u32) exec" where
  "init_txt_heap hw tx sy ptab_base sinit =
     bindE (get_txt_heap tx) (\<lambda>txt_heap.
     bindE (verify_txt_heap tx txt_heap True) (\<lambda>b.
     if \<not> b then returnE 0
     else bindE (init_os_mle hw txt_heap) (\<lambda>_.
          bindE (get_supported_os_sinit_data_ver sinit) (\<lambda>version.
          if version < 4
          then bindE (tell (Num ''ERROR: unsupported OS to SINIT data version in sinit'' version)) (\<lambda>_. returnE 0)
          else let version = (if version > 7 then 7 else version) in
               bindE (onE (init_os_sinit sy ptab_base txt_heap version) (\<lambda>a.
                      bindE (get_sinit_capabilities sinit) (\<lambda>sinit_caps.
                      onE (init_wake a sinit_caps) (\<lambda>_.
                      bindE (if sinit_caps AND tcg_event_log_format \<noteq> 0
                             then bindE (tell (Num ''SINIT ACM supports TCG compliant TPM 2.0 event log format, tcg_event_log_format'' 1)) (\<lambda>_.
                                  capsE a (\<lambda>c. c OR tcg_event_log_format))
                             else returnE ()) (\<lambda>_.
                      bindE (capsE a (\<lambda>c. c AND NOT ecx_pgtbl)) (\<lambda>_.
                      bindE (init_rsdp hw sy a version) (\<lambda>_.
                      onE (init_mapping a sinit_caps) (\<lambda>_.
                      bindE memE (\<lambda>m.
                      bindE (modifyE (\<lambda>s. s\<lparr>g_using_da := (if ld32 m (os_capabilities (os_sinit_at a)) AND pcr_map_da \<noteq> 0 then 1 else 0)\<rparr>)) (\<lambda>_.
                      bindE (if ld32 m (os_version (os_sinit_at a)) \<ge> 6 then init_os_sinit_ext_data tx (os_ext_data_elts (os_sinit_at a))
                             else returnE ()) (\<lambda>_.
                      bindE (print_os_sinit_data a) (\<lambda>_.
                      returnE (Some txt_heap))))))))))))) (\<lambda>r.
               returnE (case r of None \<Rightarrow> 0 | Some h \<Rightarrow> h))))))"

section \<open>The launch\<close>

definition txt_is_launched :: "'d txt_hw \<Rightarrow> ('d intel, bool) exec" where
  "txt_is_launched tx = bindE (read_pub_config_reg tx TXTCR_STS) (\<lambda>v. returnE (bit v 0))"

definition txt_launch_environment :: "'d hw \<Rightarrow> 'd txt_hw \<Rightarrow> symbols \<Rightarrow> ('d intel, bool) exec" where
  "txt_launch_environment hw tx sy =
     bindE (build_mle_pagetable sy (g_mle_start_off sy + TBOOT_BASE_ADDR) (g_mle_end_off sy - g_mle_start_off sy)) (\<lambda>mle_ptab_base.
     if mle_ptab_base = 0 then bindE (tell (Info ''Failed to create pages'')) (\<lambda>_. returnE False)
     else bindE (getE g_sinit) (\<lambda>sinit.
          bindE (init_txt_heap hw tx sy mle_ptab_base sinit) (\<lambda>txt_heap.
          if txt_heap = 0 then bindE (tell (Info ''Failed to initialize heap'')) (\<lambda>_. returnE False)
          else bindE memE (\<lambda>m.
               bindE (save_mtrrs hw (saved_mtrr_state (os_mle_at (get_os_mle_data_start m txt_heap)))) (\<lambda>_.
               bindE (set_mtrrs_for_acmod hw tx sinit) (\<lambda>b.
               if \<not> b then bindE (tell (Info ''seting MTRRs for SINIT ACM failed'')) (\<lambda>_. stopE Hang)
               else bindE memE (\<lambda>m. stopE (Senter sinit (acm_words m sinit * 4)))))))))"

text \<open>The bits of \<open>cr0\<close>, then of \<open>eflags\<close>, and the registers of the machine checks.\<close>

definition prepare_cr0 :: "u32 \<Rightarrow> u32 told" where
  "prepare_cr0 cr0 =
     (let ts1 = (if cr0 AND 0x40000000 \<noteq> 0 then [Info (''CR0.CD set'' @ nl)] else []);
          cr0 = cr0 AND NOT 0x40000000;
          ts2 = (if cr0 AND 0x20000000 \<noteq> 0 then [Info (''CR0.NW set'' @ nl)] else []);
          cr0 = cr0 AND NOT 0x20000000;
          ts3 = (if cr0 AND 0x20 = 0 then [Info (''CR0.NE not set'' @ nl)] else [])
      in (ts1 @ ts2 @ ts3, cr0 OR 0x20))"

primrec mcg_loop :: "'d hw \<Rightarrow> bool \<Rightarrow> nat \<Rightarrow> u32 \<Rightarrow> ('d intel, bool) exec" where
  "mcg_loop hw preserve 0 i = returnE True"
| "mcg_loop hw preserve (Suc n) i =
     bindE (read_msr hw (MSR_MC0_STATUS + 4 * i)) (\<lambda>mcg_stat.
     if bit mcg_stat 63
     then bindE (tell_all [Num ''MCG[index] ='' i, Num ''ERROR ='' (ucast mcg_stat)]) (\<lambda>_.
          if \<not> preserve then returnE False else mcg_loop hw preserve n (i + 1))
     else mcg_loop hw preserve n (i + 1))"

definition txt_prepare_cpu :: "'d hw \<Rightarrow> 'd txt_hw \<Rightarrow> ('d intel, bool) exec" where
  "txt_prepare_cpu hw tx =
     bindE (read_cr0 tx) (\<lambda>cr0.
     if cr0 AND 1 = 0 then bindE (tell (Info (''ERR: not in protected mode'' @ nl))) (\<lambda>_. returnE False)
     else bindE (runT (\<lambda>_. prepare_cr0 cr0)) (\<lambda>cr0.
          bindE (write_cr0 tx cr0) (\<lambda>_.
          bindE (read_eflags tx) (\<lambda>eflags.
          bindE (if eflags AND 0x20000 \<noteq> 0
                 then bindE (tell (Info ''EFLAGS.VM set'')) (\<lambda>_. write_eflags tx (eflags OR NOT 0x20000))
                 else returnE ()) (\<lambda>_.
          bindE (read_msr hw MSR_MCG_STATUS) (\<lambda>mcg_stat.
          if mcg_stat AND 4 \<noteq> 0 then bindE (tell (Info ''machine check in progress'')) (\<lambda>_. returnE False)
          else bindE (get_parameters tx) (\<lambda>params. case params of
                 None \<Rightarrow> bindE (tell (Info (''get_parameters() failed'' @ nl))) (\<lambda>_. returnE False)
               | Some params \<Rightarrow>
                   bindE (read_msr hw MSR_MCG_CAP) (\<lambda>mcg_cap.
                   mcg_loop hw (preserve_mce params) (unat (mcg_cap AND 0xff)) 0))))))))"

section \<open>The other processors\<close>

text \<open>
  \<open>atomic_set\<close> is \<open>atomic_set_int\<close>, which sets the given bits: with 0 it changes nothing.
\<close>

definition atomic_set :: "u32 \<Rightarrow> u32 \<Rightarrow> u32" where
  "atomic_set p v = p OR v"

text \<open>The loop that waits for them, with the value of \<open>timeout\<close>.\<close>

definition ap_countE :: "'d txt_hw \<Rightarrow> ('d intel, u32) exec" where
  "ap_countE tx =
     bindE (modifyE (\<lambda>s. s\<lparr>ap_wfs_count := tx_others tx (w_dev (i_world s)) (ap_wfs_count s)\<rparr>)) (\<lambda>_. getE ap_wfs_count)"

primrec wfs_loop :: "'d txt_hw \<Rightarrow> u32 \<Rightarrow> nat \<Rightarrow> ('d intel, unit) exec" where
  "wfs_loop tx ap_wakeup_count 0 = returnE ()"
| "wfs_loop tx ap_wakeup_count (Suc timeout) =
     bindE (if Suc timeout mod 0x8000 = 0 then returnE () else cpuE tx Cpu_relax) (\<lambda>_.
     bindE (ap_countE tx) (\<lambda>count.
     if count < ap_wakeup_count then wfs_loop tx ap_wakeup_count timeout else returnE ()))"

definition AP_WFS_TIMEOUT :: nat where "AP_WFS_TIMEOUT = 0x10000000"

definition txt_wakeup_cpus :: "'d txt_hw \<Rightarrow> symbols \<Rightarrow> ('d intel, unit) exec" where
  "txt_wakeup_cpus tx sy =
     bindE (cpuE tx Getsec_smctrl) (\<lambda>_.
     bindE (modifyE (\<lambda>s. s\<lparr>ap_wfs_count := atomic_set (ap_wfs_count s) 0\<rparr>)) (\<lambda>_.
     let mle_join = sym_mle_join sy in
     bindE (setmemE (st32 (mle_join + 12) (sym_txt_wakeup sy))) (\<lambda>_.
     bindE (setmemE (st32 (mle_join + 8) (ucast (tx_cs tx)))) (\<lambda>_.
     bindE (setmemE (st32 (mle_join + 4) (sym_gdt sy))) (\<lambda>_.
     bindE (setmemE (st32 mle_join (sym_end_gdt sy - sym_gdt sy - 1))) (\<lambda>_.
     bindE (write_priv_config_reg tx TXTCR_MLE_JOIN (ucast mle_join)) (\<lambda>_.
     bindE (setmemE (st32 (sym_ap_lock sy) 0)) (\<lambda>_.
     bindE (get_txt_heap tx) (\<lambda>txt_heap.
     bindE memE (\<lambda>m.
     let sinit_mle_data = sinit_mle_at (get_sinit_mle_data_start m txt_heap);
         os_sinit_data = os_sinit_at (get_os_sinit_data_start m txt_heap) in
     bindE (if ld32 m (os_capabilities os_sinit_data) AND rlp_wake_monitor \<noteq> 0
            then setmemE (st32 (ld32 m (rlp_wakeup_addr sinit_mle_data)) 1)
            else cpuE tx Getsec_wakeup) (\<lambda>_.
     bindE memE (\<lambda>m.
     let ap_wakeup_count = ld32 m (get_bios_data_start txt_heap + 24) - 1 in
     bindE (if ap_wakeup_count \<ge> NR_CPUS
            then bindE (tell (Num ''there are too many CPUs '' ap_wakeup_count)) (\<lambda>_. returnE (NR_CPUS - 1))
            else returnE ap_wakeup_count) (\<lambda>ap_wakeup_count.
     wfs_loop tx ap_wakeup_count AP_WFS_TIMEOUT)))))))))))))"

section \<open>After the launch\<close>

definition verify_saved_mtrrs :: "'d hw \<Rightarrow> u32 \<Rightarrow> ('d intel, bool) exec" where
  "verify_saved_mtrrs hw txt_heap =
     bindE memE (\<lambda>m. validate_mtrrs hw (saved_mtrr_state (os_mle_at (get_os_mle_data_start m txt_heap))))"

text \<open>One of the two regions: RAM behind the protected part is reserved.\<close>

definition reserve_delta :: "u64 \<Rightarrow> u64 \<Rightarrow> ('d intel, bool) exec" where
  "reserve_delta max_ram fin = (if max_ram \<noteq> fin then e820_reserve_ram fin (max_ram - fin) else returnE True)"

definition reserve_vtd_delta_mem :: "'d txt_hw \<Rightarrow> ram_ranges \<Rightarrow> ('d intel, bool) exec" where
  "reserve_vtd_delta_mem tx r =
     bindE (get_txt_heap tx) (\<lambda>txt_heap.
     bindE memE (\<lambda>m.
     let o' = os_sinit_at (get_os_sinit_data_start m txt_heap) in
     bindE (reserve_delta (max_lo_ram r) (ld64 m (vtd_pmr_lo_base o') + ld64 m (vtd_pmr_lo_size o'))) (\<lambda>b.
     if \<not> b then returnE False
     else reserve_delta (max_hi_ram r) (ld64 m (vtd_pmr_hi_base o') + ld64 m (vtd_pmr_hi_size o')))))"

text \<open>
  The local table that the settings are compared with has no room for elements: printing it, from version
  6 on, reads behind it.
\<close>

definition verify_vtd_pmrs :: "'d txt_hw \<Rightarrow> u32 \<Rightarrow> ('d intel, bool) exec" where
  "verify_vtd_pmrs tx txt_heap =
     bindE memE (\<lambda>m.
     let a = get_os_sinit_data_start m txt_heap; o' = os_sinit_at a in
     bindE get_ram_ranges (\<lambda>(ok, r).
     if \<not> ok then returnE False
     else bindE (reserve_vtd_delta_mem tx r) (\<lambda>b.
          if \<not> b then bindE (tell (Info ''failed to reserve VT-d PMR delta memory'')) (\<lambda>_. returnE False)
          else bindE memE (\<lambda>m.
               if pmr_base (min_lo_ram r) \<noteq> ld64 m (vtd_pmr_lo_base o') \<or>
                  pmr_size (min_lo_ram r) (max_lo_ram r) \<noteq> ld64 m (vtd_pmr_lo_size o') \<or>
                  pmr_base (min_hi_ram r) \<noteq> ld64 m (vtd_pmr_hi_base o') \<or>
                  pmr_size (min_hi_ram r) (max_hi_ram r) \<noteq> ld64 m (vtd_pmr_hi_size o')
               then bindE (tell (Info ''OS to SINIT data VT-d PMR settings do not match'')) (\<lambda>_.
                    if ld32 m (os_version o') \<ge> 6 then stopE Fault
                    else bindE (print_os_sinit_data a) (\<lambda>_. returnE False))
               else returnE True))))"

definition txt_post_launch_verify_platform :: "'d hw \<Rightarrow> 'd txt_hw \<Rightarrow> ('d intel, bool) exec" where
  "txt_post_launch_verify_platform hw tx =
     bindE (get_txt_heap tx) (\<lambda>txt_heap.
     bindE (verify_txt_heap tx txt_heap False) (\<lambda>b.
     if \<not> b then returnE False
     else bindE (verify_saved_mtrrs hw txt_heap) (\<lambda>b.
          if \<not> b then returnE False else verify_vtd_pmrs tx txt_heap)))"

definition fenceE :: "'d txt_hw \<Rightarrow> ('d intel, unit) exec" where
  "fenceE tx = bindE (read_priv_config_reg tx TXTCR_E2STS) (\<lambda>_. returnE ())"

definition pub_fenceE :: "'d txt_hw \<Rightarrow> ('d intel, unit) exec" where
  "pub_fenceE tx = bindE (read_pub_config_reg tx TXTCR_E2STS) (\<lambda>_. returnE ())"

definition txt_post_launch :: "'d hw \<Rightarrow> 'd txt_hw \<Rightarrow> symbols \<Rightarrow> ('d intel, unit) exec" where
  "txt_post_launch hw tx sy =
     bindE (txt_post_launch_verify_platform hw tx) (\<lambda>b.
     if \<not> b then bindE (tell (Info ''failed to verify platform'')) (\<lambda>_. stopE Hang)
     else bindE (tell (Info ''Platform verification done'')) (\<lambda>_.
          bindE (get_txt_heap tx) (\<lambda>txt_heap.
          bindE memE (\<lambda>m.
          let os_mle_data = os_mle_at (get_os_mle_data_start m txt_heap) in
          bindE (write_priv_config_reg tx TXTCR_ERRORCODE 0) (\<lambda>_.
          bindE (write_priv_config_reg tx TXTCR_ESTS 0xffffffff) (\<lambda>_.
          bindE (txt_wakeup_cpus tx sy) (\<lambda>_.
          bindE memE (\<lambda>m.
          bindE (write_msr hw MSR_IA32_MISC_ENABLE (ucast (ld32 m (saved_misc_enable_msr os_mle_data)))) (\<lambda>_.
          bindE (restore_mtrrs hw (saved_mtrr_state os_mle_data)) (\<lambda>_.
          bindE (write_priv_config_reg tx TXTCR_CMD_SECRETS 1) (\<lambda>_.
          bindE (fenceE tx) (\<lambda>_.
          bindE (write_priv_config_reg tx TXTCR_CMD_OPEN_LOCALITY1 1) (\<lambda>_.
          fenceE tx)))))))))))))"

text \<open>0, or the error number of the source.\<close>

definition txt_protect_mem_regions :: "'d txt_hw \<Rightarrow> ('d intel, int) exec" where
  "txt_protect_mem_regions tx =
     bindE (read_pub_config_reg tx TXTCR_HEAP_BASE) (\<lambda>base.
     bindE (read_pub_config_reg tx TXTCR_HEAP_SIZE) (\<lambda>sz.
     bindE (e820_protect_region base sz E820_RESERVED) (\<lambda>b.
     if \<not> b then returnE (- 1)
     else bindE (read_pub_config_reg tx TXTCR_SINIT_BASE) (\<lambda>base.
          bindE (read_pub_config_reg tx TXTCR_SINIT_SIZE) (\<lambda>sz.
          bindE (e820_protect_region base sz E820_RESERVED) (\<lambda>b.
          if \<not> b then returnE (- 1)
          else bindE (e820_protect_region 0xfed20000 0x10000 E820_RESERVED) (\<lambda>b.
               if \<not> b then returnE (- 1)
               else bindE (get_txt_heap tx) (\<lambda>txt_heap.
                    bindE memE (\<lambda>m.
                    let a = get_sinit_mle_data_start m txt_heap; d = sinit_mle_at a in
                    bindE (verify_e820_map (a - 8 + ld32 m (mdrs_off d)) (ld32 m (num_mdrs d))) (\<lambda>b.
                    if \<not> b then bindE (tell (Info (''verification failed.'' @ nl))) (\<lambda>_. returnE (- 2))
                    else returnE 0))))))))))"

section \<open>The end of the environment\<close>

definition txt_shutdown :: "'d hw \<Rightarrow> 'd txt_hw \<Rightarrow> ('d intel, unit) exec" where
  "txt_shutdown hw tx =
     bindE (read_msr hw MSR_APICBASE) (\<lambda>apicbase.
     if apicbase AND 0x100 = 0 then bindE (tell (Info (''calling txt_shutdown on AP'' @ nl))) (\<lambda>_. stopE Hang)
     else bindE (write_priv_config_reg tx TXTCR_CMD_NO_SECRETS 1) (\<lambda>_.
          bindE (fenceE tx) (\<lambda>_.
          bindE (tell (Info (''secrets flag cleared'' @ nl))) (\<lambda>_.
          bindE (write_priv_config_reg tx TXTCR_CMD_UNLOCK_MEM_CONFIG 1) (\<lambda>_.
          bindE (pub_fenceE tx) (\<lambda>_.
          bindE (tell (Info (''memory configuration unlocked'' @ nl))) (\<lambda>_.
          bindE use_mwait (\<lambda>mw.
          bindE (ap_countE tx) (\<lambda>count.
          bindE (if \<not> mw \<and> count > 0
                 then bindE (tell (Info ''exiting with some APs still in wait-for-sipi state'')) (\<lambda>_.
                      write_priv_config_reg tx TXTCR_CMD_RESET 1)
                 else returnE ()) (\<lambda>_.
          bindE (fenceE tx) (\<lambda>_.
          bindE (write_priv_config_reg tx TXTCR_CMD_CLOSE_PRIVATE 1) (\<lambda>_.
          bindE (pub_fenceE tx) (\<lambda>_.
          bindE (tell (Info (''private config space closed'' @ nl))) (\<lambda>_.
          bindE (read_cr4 tx) (\<lambda>cr4.
          bindE (write_cr4 tx (cr4 OR 0x4000)) (\<lambda>_.
          bindE (tell (Info (''executing GETSEC[SEXIT]...'' @ nl))) (\<lambda>_.
          bindE (cpuE tx Getsec_sexit) (\<lambda>_.
          tell (Info (''measured environment torn down'' @ nl))))))))))))))))))))"

definition txt_is_powercycle_required :: "'d txt_hw \<Rightarrow> ('d intel, bool) exec" where
  "txt_is_powercycle_required tx = bindE (read_pub_config_reg tx TXTCR_ESTS) (\<lambda>v. returnE (bit v 0))"

end
