(* ===== verification/Platform.thy ===== *)
theory Platform
  imports TXT_Launch
begin

text \<open>
  The checks before the launch (\<^verbatim>\<open>src/arch-intel/platform_checks.c\<close>), the report of the errors of an earlier
  launch (\<^verbatim>\<open>src/arch-intel/errors.c\<close>), and what the first processor does after the launch
  (\<open>intel_post_launch\<close> of \<^verbatim>\<open>src/arch-intel/post_launch.c\<close>). The processor is accepted exactly when its
  features, its feature control register and the chipset have the bits the code looks at.
\<close>

section \<open>The processor\<close>

definition MSR_IA32_FEATURE_CONTROL :: u32 where "MSR_IA32_FEATURE_CONTROL = 0x3a"

abbreviation (input) CPUID_X86_FEATURE_VMX :: u32 where "CPUID_X86_FEATURE_VMX \<equiv> 0x20"
abbreviation (input) CPUID_X86_FEATURE_SMX :: u32 where "CPUID_X86_FEATURE_SMX \<equiv> 0x40"
abbreviation (input) FEATURE_CONTROL_MSR_LOCK :: u32 where "FEATURE_CONTROL_MSR_LOCK \<equiv> 1"
abbreviation (input) FEATURE_CONTROL_MSR_ENABLE_VMX_IN_SMX :: u32 where "FEATURE_CONTROL_MSR_ENABLE_VMX_IN_SMX \<equiv> 2"
abbreviation (input) FEATURE_CONTROL_MSR_SENTER_PARAM_CTL :: u32 where "FEATURE_CONTROL_MSR_SENTER_PARAM_CTL \<equiv> 0x7f00"
abbreviation (input) FEATURE_CONTROL_MSR_ENABLE_SENTER :: u32 where "FEATURE_CONTROL_MSR_ENABLE_SENTER \<equiv> 0x8000"
abbreviation (input) CR4_SMXE :: u32 where "CR4_SMXE \<equiv> 0x4000"

definition features :: "u32 \<Rightarrow> ('d intel, unit) exec" where
  "features v = modifyE (\<lambda>s. s\<lparr>g_cpuid_ext_feat_info := v\<rparr>)"

text \<open>\<open>g_feat_ctrl_msr\<close> is an \<open>unsigned long\<close> of 32 bits.\<close>

definition read_processor_info :: "'d hw \<Rightarrow> 'd txt_hw \<Rightarrow> ('d intel, bool) exec" where
  "read_processor_info hw tx =
     (if \<not> tx_has_cpuid tx
      then bindE (features 0) (\<lambda>_. bindE (tell (Info ''CPUID instruction is not supported'')) (\<lambda>_. returnE False))
      else if tx_cpuid_ebx tx 0 0 \<noteq> 0x756e6547 \<or> hw_cpuid_ecx hw 0 \<noteq> 0x6c65746e \<or> hw_cpuid_edx hw 0 \<noteq> 0x49656e69
      then bindE (features 0) (\<lambda>_. bindE (tell (Info ''Non-Intel CPU detected'')) (\<lambda>_. returnE False))
      else let f = hw_cpuid_ecx hw 1 in
           bindE (features f) (\<lambda>_.
           bindE (if f AND CPUID_X86_FEATURE_VMX \<noteq> 0 \<or> f AND CPUID_X86_FEATURE_SMX \<noteq> 0
                  then bindE (read_msr hw MSR_IA32_FEATURE_CONTROL) (\<lambda>v. modifyE (\<lambda>s. s\<lparr>g_feat_ctrl_msr := ucast v\<rparr>))
                  else returnE ()) (\<lambda>_.
           returnE True)))"

definition supports_smx :: "('d intel, bool) exec" where
  "supports_smx =
     bindE (getE g_cpuid_ext_feat_info) (\<lambda>f.
     bindE (getE g_feat_ctrl_msr) (\<lambda>v.
     if f AND CPUID_X86_FEATURE_SMX = 0 then bindE (tell (Info ''CPU does not support SMX'')) (\<lambda>_. returnE False)
     else if v AND FEATURE_CONTROL_MSR_LOCK = 0
     then bindE (tell (Info (''ERR: IA32_FEATURE_CONTROL_MSR_LOCK is not locked'' @ nl))) (\<lambda>_. returnE False)
     else if v AND (FEATURE_CONTROL_MSR_ENABLE_SENTER OR FEATURE_CONTROL_MSR_SENTER_PARAM_CTL) = 0
     then bindE (tell (Num ''ERR: SENTER disabled by feature control MSR'' v)) (\<lambda>_. returnE False)
     else returnE True))"

definition supports_vmx :: "('d intel, bool) exec" where
  "supports_vmx =
     bindE (getE g_cpuid_ext_feat_info) (\<lambda>f.
     bindE (getE g_feat_ctrl_msr) (\<lambda>v.
     if f AND CPUID_X86_FEATURE_VMX = 0 then bindE (tell (Info ''ERR: CPU does not support VMX'')) (\<lambda>_. returnE False)
     else if v AND FEATURE_CONTROL_MSR_ENABLE_VMX_IN_SMX = 0
     then bindE (tell (Num ''ERR: VMXON disabled by feature control MSR'' v)) (\<lambda>_. returnE False)
     else returnE True))"

text \<open>
  The bits of \<open>capabilities_t\<close>: the chipset (0), \<open>senter\<close>, \<open>sexit\<close>, \<open>parameters\<close>, \<open>smctrl\<close> and \<open>wakeup\<close> (4 to 8).
\<close>

definition supports_txt :: "'d hw \<Rightarrow> 'd txt_hw \<Rightarrow> ('d intel, bool) exec" where
  "supports_txt hw tx =
     bindE (read_processor_info hw tx) (\<lambda>b.
     if \<not> b then bindE (tell (Info ''non Intel or non supported CPU'')) (\<lambda>_. returnE False)
     else bindE supports_smx (\<lambda>b.
     if \<not> b then bindE (tell (Info ''SMX not supported'')) (\<lambda>_. returnE False)
     else bindE supports_vmx (\<lambda>b.
     if \<not> b then bindE (tell (Info ''VMX not supported'')) (\<lambda>_. returnE False)
     else bindE (read_cr4 tx) (\<lambda>cr4.
          bindE (write_cr4 tx (cr4 OR CR4_SMXE)) (\<lambda>_.
          bindE (on_device (tx_capabilities tx 0)) (\<lambda>cap.
          if bit cap 0 \<and> bit cap 4 \<and> bit cap 5 \<and> bit cap 6 \<and> bit cap 7 \<and> bit cap 8 then returnE True
          else bindE (if bit cap 0 then tell (Num ''ERR: insufficient SMX capabilities'' cap)
                      else tell (Info ''ERR: TXT-capable chipset not present'')) (\<lambda>_.
               bindE (read_cr4 tx) (\<lambda>cr4.
               bindE (write_cr4 tx (cr4 AND NOT CR4_SMXE)) (\<lambda>_.
               returnE False)))))))))"

definition verify_IA32_se_svn_status :: "'d txt_hw \<Rightarrow> ('d intel, unit) exec" where
  "verify_IA32_se_svn_status tx =
     (if tx_cpuid_ebx tx 7 0 AND 4 = 0 then returnE ()
      else tell (Info ''SGX is enabled : We dont support that right now''))"

section \<open>Errors of an earlier launch\<close>

definition txt_has_error :: "'d txt_hw \<Rightarrow> ('d intel, bool) exec" where
  "txt_has_error tx =
     bindE (read_pub_config_reg tx TXTCR_ERRORCODE) (\<lambda>err.
     returnE (\<not> (err = 0 \<or> err = 0xc0000001 \<or> err = 0xc0000009)))"

text \<open>
  The fields of the error code: \<open>type\<close> (30 bits), \<open>external\<close>, \<open>valid\<close>; of the error of a program: \<open>err1\<close> (15 bits),
  \<open>src\<close>, \<open>err2\<close> (14); of the error of a module: \<open>acm_type\<close> (4), \<open>progress\<close> (6), \<open>error\<close> (5), \<open>src\<close>, then
  \<open>tpm_err\<close> (9) or \<open>lcp_minor\<close> (6) and \<open>lcp_index\<close> (3).
\<close>

definition field :: "nat \<Rightarrow> nat \<Rightarrow> u32 \<Rightarrow> u32" where
  "field lo n w = take_bit n (drop_bit lo w)"

definition err_type :: "u64 \<Rightarrow> u32" where "err_type err = ucast (take_bit 30 err)"

definition acmod_error_msgs :: "u32 \<Rightarrow> msg list" where
  "acmod_error_msgs e =
     (if e = 0 \<or> e = 1 \<or> e = 9 then [] else [Info ''ERROR DETECTED'']) @
     [Info ''AC module error info:'', Num ''acm_type:'' (field 0 4 e), Num ''progress'' (field 4 6 e), Num ''error'' (field 10 5 e)] @
     (if field 10 5 e = 0x0a \<and> field 4 6 e = 0x0d then [Num (''TPM error code = 0x%x'' @ nl) (field 16 9 e)]
      else if field 4 6 e = 0x10 \<and> field 16 6 e \<noteq> 0
      then [Info ''LCP2 error:'', Num ''minor error'' (field 16 6 e), Num ''index'' (field 22 3 e)]
      else [])"

definition errorcode_msgs :: "u64 \<Rightarrow> msg list" where
  "errorcode_msgs err =
     (if \<not> bit err 31 then []
      else if \<not> bit err 30 then [Num ''processor error'' (err_type err)]
      else let sw_err = err_type err in
           if bit sw_err 15
           then [Info ''unknown SW error'', Num ''sw_err.err1'' (field 0 15 sw_err), Num ''sw_err.err2'' (field 16 14 sw_err)]
           else acmod_error_msgs sw_err)"

definition txt_display_errors :: "'d txt_hw \<Rightarrow> ('d intel, unit) exec" where
  "txt_display_errors tx =
     bindE (read_pub_config_reg tx TXTCR_ERRORCODE) (\<lambda>err.
     bindE (txt_has_error tx) (\<lambda>b.
     bindE (if b then tell (Info ''ERROR : Need attention'') else returnE ()) (\<lambda>_.
     bindE (tell_all (errorcode_msgs err)) (\<lambda>_.
     bindE (read_pub_config_reg tx TXTCR_ESTS) (\<lambda>ests.
     bindE (if ests = 0 then returnE () else tell (Info ''ERROR : need attention'')) (\<lambda>_.
     bindE (read_pub_config_reg tx TXTCR_E2STS) (\<lambda>e2sts.
     if e2sts = 0 \<or> e2sts = 0x200000000 then returnE () else tell (Info ''ERROR : need attention''))))))))"

section \<open>The platform\<close>

definition txt_verify_platform :: "'d txt_hw \<Rightarrow> ('d intel, bool) exec" where
  "txt_verify_platform tx =
     bindE vtd_bios_enabled (\<lambda>b.
     if \<not> b then bindE (tell (Info ''txt_verify_platform : vtd_bios_enabled error'')) (\<lambda>_. returnE False)
     else bindE (read_pub_config_reg tx TXTCR_ESTS) (\<lambda>ests.
     if bit ests 0 then bindE (tell (Num64 ''TXT_RESET.STS is set and SENTER is disabled'' ests)) (\<lambda>_. returnE False)
     else bindE (get_txt_heap tx) (\<lambda>txt_heap.
          bindE (verify_bios_data tx txt_heap) (\<lambda>b.
          if \<not> b then bindE (tell (Num64 ''BIOS data verification failed'' ests)) (\<lambda>_. returnE False)
          else returnE True))))"

definition platform_pre_checks :: "'d hw \<Rightarrow> 'd txt_hw \<Rightarrow> ('d intel, bool) exec" where
  "platform_pre_checks hw tx =
     bindE (supports_txt hw tx) (\<lambda>b.
     if \<not> b then bindE (tell (Info ''ERROR: This platform does not support TXT'')) (\<lambda>_. returnE False)
     else bindE (verify_IA32_se_svn_status tx) (\<lambda>_.
          bindE (txt_display_errors tx) (\<lambda>_.
          bindE (txt_verify_platform tx) (\<lambda>b.
          if \<not> b then bindE (tell (Info ''Platform is NOT ready for measured launch'')) (\<lambda>_. returnE False)
          else bindE (txt_prepare_cpu hw tx) (\<lambda>b.
               if \<not> b then bindE (tell (Info ''ERROR : CPU is not ready for launch'')) (\<lambda>_. returnE False)
               else returnE True)))))"

section \<open>After the launch\<close>

text \<open>The addresses of the members of \<open>_tboot_shared\<close>.\<close>

record tboot_shared_t =
  tb_version :: u32
  tb_shutdown_entry :: u32
  tb_shutdown_type :: u32
  acpi_sinfo :: u32
  tboot_base :: u32
  tboot_size :: u32
  s3_key :: u32
  num_in_wfs :: u32
  ap_wake_addr :: u32
  ap_wake_trigger :: u32

definition shared_at :: "u32 \<Rightarrow> tboot_shared_t" where
  "shared_at a = \<lparr>tb_version = a + 16, tb_shutdown_entry = a + 24, tb_shutdown_type = a + 28, acpi_sinfo = a + 32, tboot_base = a + 104,
     tboot_size = a + 108, s3_key = a + 497, num_in_wfs = a + 564, ap_wake_addr = a + 572, ap_wake_trigger = a + 580\<rparr>"

abbreviation (input) tboot_shared :: "symbols \<Rightarrow> tboot_shared_t" where
  "tboot_shared sy \<equiv> shared_at (sym_tboot_shared sy)"

definition TBOOT_SHARED_UUID :: bytes where
  "TBOOT_SHARED_UUID = le32 0x663c8dff @ le16 0xe8b3 @ le16 0x4b82 @ le16 0xaabf @ [0x19, 0xea, 0x4d, 0x5, 0x7a, 0x8]"

text \<open>The page that the loader shares with the kernel.\<close>

definition init_shared :: "symbols \<Rightarrow> mem \<Rightarrow> mem" where
  "init_shared sy m =
     (let sh = tboot_shared sy; a = sym_tboot_shared sy;
          m = memset a 0 0x1000 m;
          m = poke a TBOOT_SHARED_UUID m;
          m = st32 (tb_version sh) 6 m;
          m = st32 (tb_shutdown_entry sh) (sym_shutdown_entry sy) m;
          m = st32 (tboot_base sh) (sym_start sy) m
      in st32 (tboot_size sh) (sym_end sy - sym_start sy) m)"

text \<open>
  A failed check is reported and the boot goes on. The places of the loader are reserved also when they are not
  in RAM.
\<close>

definition reportE :: "string \<Rightarrow> bool \<Rightarrow> ('d intel, unit) exec" where
  "reportE txt b = (if b then returnE () else tell (Info txt))"

definition intel_post_launch :: "'d hw \<Rightarrow> 'd txt_hw \<Rightarrow> symbols \<Rightarrow> ('d intel, unit) exec" where
  "intel_post_launch hw tx sy =
     bindE (tell (Info ''Measured launch succeeded'')) (\<lambda>_.
     bindE (setmemE (st32 (num_in_wfs (tboot_shared sy)) 0)) (\<lambda>_.
     bindE (txt_post_launch hw tx sy) (\<lambda>_.
     bindE save_vtd_dmar_table (\<lambda>_.
     bindE lctxE (\<lambda>ctx.
     bindE (remove_txt_modules ctx) (\<lambda>_.
     bindE (txt_protect_mem_regions tx) (\<lambda>err.
     bindE (reportE (''Error: txt_protect_mem_regions failed!'' @ nl) (err = 0)) (\<lambda>_.
     bindE (verify_modules ctx) (\<lambda>b.
     bindE (reportE (''Error: verify_modules failed!'' @ nl) b) (\<lambda>_.
     bindE (getE g_e820) (\<lambda>e.
     bindE (reportE ('': failed.'' @ nl) (e820_check_region (ucast TBOOT_BASE_ADDR) (ucast (sym_end sy) - ucast TBOOT_BASE_ADDR) e = E820_RAM)) (\<lambda>_.
     bindE (e820_protect_region (ucast TBOOT_BASE_ADDR) (ucast (get_tboot_mem_end sy) - ucast TBOOT_BASE_ADDR) E820_RESERVED) (\<lambda>b.
     bindE (reportE (''Error: e820_protect_region failed!'' @ nl) b) (\<lambda>_.
     bindE (replace_e820_map ctx) (\<lambda>_.
     bindE (setmemE (init_shared sy)) (\<lambda>_.
     bindE (ap_countE tx) (\<lambda>count.
     setmemE (st32 (num_in_wfs (tboot_shared sy)) count))))))))))))))))))"

end
