(* ===== verification/VMX.thy ===== *)
theory VMX
  imports Platform
begin

text \<open>
  The other processors (\<^verbatim>\<open>src/arch-intel/vmcs.c\<close>, \<open>ap_wait\<close> and \<open>txt_cpu_wakeup\<close> of \<^verbatim>\<open>src/arch-intel/txt.c\<close>) and the
  end of the environment (\<open>shutdown\<close> of \<^verbatim>\<open>src/arch-intel/post_launch.c\<close>). A processor that joins the environment
  counts itself, enables virtualisation and waits in a small guest until an interrupt or the end of
  the environment makes it leave; the processor that ends the environment waits for all of them. The
  definitions are those of one processor; what the others do to shared words while it runs is a
  parameter.
\<close>

section \<open>Virtualisation\<close>

datatype sreg = Seg_ss | Seg_ds | Seg_es | Seg_fs | Seg_gs | Seg_cs

datatype vmx_op = Vmptrst | Vmxoff | Write_cr3 u32 | Load_tr u16 | Monitor u32 | Mb | Mwait

datatype vm_entry = Vmlaunch | Vmresume

text \<open>
  The instructions: \<open>vmxon\<close>, \<open>vmptrld\<close>, \<open>vmclear\<close>, \<open>vmread\<close> and \<open>vmwrite\<close> can fail, which for all but the first is a
  crash; entering a guest gives whether the guest runs. The variable \<open>tr\<close> is only half written by \<open>str\<close>,
  so that \<open>vx_tr\<close> is what is in all of it. The last one is what the other processors have made of a word
  in memory.
\<close>

record 'd vmx_hw =
  vx_vmxon :: "u64 \<Rightarrow> 'd \<Rightarrow> bool \<times> 'd"
  vx_vmptrld :: "u64 \<Rightarrow> 'd \<Rightarrow> bool \<times> 'd"
  vx_vmclear :: "u64 \<Rightarrow> 'd \<Rightarrow> bool \<times> 'd"
  vx_vmread :: "u32 \<Rightarrow> 'd \<Rightarrow> u32 option \<times> 'd"
  vx_vmwrite :: "u32 \<Rightarrow> u32 \<Rightarrow> 'd \<Rightarrow> bool \<times> 'd"
  vx_enter :: "vm_entry \<Rightarrow> 'd \<Rightarrow> bool \<times> 'd"
  vx_op :: "vmx_op \<Rightarrow> 'd \<Rightarrow> 'd"
  vx_sreg :: "sreg \<Rightarrow> 'd \<Rightarrow> u16"
  vx_cr3 :: "'d \<Rightarrow> u32"
  vx_esp :: "'d \<Rightarrow> u32"
  vx_tr :: "'d \<Rightarrow> u32"
  vx_gdtr :: "'d \<Rightarrow> u16 \<times> u32"
  vx_idtr :: "'d \<Rightarrow> u16 \<times> u32"
  vx_shared :: "u32 \<Rightarrow> 'd \<Rightarrow> u32 \<Rightarrow> u32"

text \<open>The fields of a control structure that the code writes or reads.\<close>

datatype (plugins only: ) vmcs_field =
    GUEST_ES_SELECTOR | GUEST_CS_SELECTOR | GUEST_SS_SELECTOR | GUEST_DS_SELECTOR | GUEST_FS_SELECTOR
  | GUEST_GS_SELECTOR | GUEST_LDTR_SELECTOR | GUEST_TR_SELECTOR | HOST_ES_SELECTOR | HOST_CS_SELECTOR
  | HOST_SS_SELECTOR | HOST_DS_SELECTOR | HOST_FS_SELECTOR | HOST_GS_SELECTOR | HOST_TR_SELECTOR
  | VM_EXIT_MSR_STORE_ADDR | VM_EXIT_MSR_LOAD_ADDR | VMCS_LINK_POINTER | VMCS_LINK_POINTER_HIGH
  | PIN_BASED_VM_EXEC_CONTROL | CPU_BASED_VM_EXEC_CONTROL | EXCEPTION_BITMAP | PAGE_FAULT_ERROR_CODE_MASK
  | PAGE_FAULT_ERROR_CODE_MATCH | CR3_TARGET_COUNT | VM_EXIT_CONTROLS | VM_EXIT_MSR_STORE_COUNT
  | VM_EXIT_MSR_LOAD_COUNT | VM_ENTRY_CONTROLS | VM_ENTRY_MSR_LOAD_COUNT | VM_ENTRY_INTR_INFO_FIELD
  | VM_INSTRUCTION_ERROR | VM_EXIT_REASON | GUEST_ES_LIMIT | GUEST_CS_LIMIT | GUEST_SS_LIMIT | GUEST_DS_LIMIT
  | GUEST_FS_LIMIT | GUEST_GS_LIMIT | GUEST_LDTR_LIMIT | GUEST_TR_LIMIT | GUEST_GDTR_LIMIT | GUEST_IDTR_LIMIT
  | GUEST_ES_AR_BYTES | GUEST_CS_AR_BYTES | GUEST_SS_AR_BYTES | GUEST_DS_AR_BYTES | GUEST_FS_AR_BYTES
  | GUEST_GS_AR_BYTES | GUEST_LDTR_AR_BYTES | GUEST_TR_AR_BYTES | GUEST_INTERRUPTIBILITY_INFO
  | GUEST_ACTIVITY_STATE | CR0_GUEST_HOST_MASK | CR4_GUEST_HOST_MASK | CR0_READ_SHADOW | CR4_READ_SHADOW
  | EXIT_QUALIFICATION | GUEST_CR0 | GUEST_CR3 | GUEST_CR4 | GUEST_ES_BASE | GUEST_CS_BASE | GUEST_SS_BASE
  | GUEST_DS_BASE | GUEST_FS_BASE | GUEST_GS_BASE | GUEST_LDTR_BASE | GUEST_TR_BASE | GUEST_GDTR_BASE
  | GUEST_IDTR_BASE | GUEST_DR7 | GUEST_RSP | GUEST_RIP | GUEST_RFLAGS | HOST_CR0 | HOST_CR3 | HOST_CR4
  | HOST_FS_BASE | HOST_GS_BASE | HOST_TR_BASE | HOST_GDTR_BASE | HOST_IDTR_BASE | HOST_RSP | HOST_RIP

primrec encoding :: "vmcs_field \<Rightarrow> u32" where
  "encoding GUEST_ES_SELECTOR = 0x800"
| "encoding GUEST_CS_SELECTOR = 0x802"
| "encoding GUEST_SS_SELECTOR = 0x804"
| "encoding GUEST_DS_SELECTOR = 0x806"
| "encoding GUEST_FS_SELECTOR = 0x808"
| "encoding GUEST_GS_SELECTOR = 0x80a"
| "encoding GUEST_LDTR_SELECTOR = 0x80c"
| "encoding GUEST_TR_SELECTOR = 0x80e"
| "encoding HOST_ES_SELECTOR = 0xc00"
| "encoding HOST_CS_SELECTOR = 0xc02"
| "encoding HOST_SS_SELECTOR = 0xc04"
| "encoding HOST_DS_SELECTOR = 0xc06"
| "encoding HOST_FS_SELECTOR = 0xc08"
| "encoding HOST_GS_SELECTOR = 0xc0a"
| "encoding HOST_TR_SELECTOR = 0xc0c"
| "encoding VM_EXIT_MSR_STORE_ADDR = 0x2006"
| "encoding VM_EXIT_MSR_LOAD_ADDR = 0x2008"
| "encoding VMCS_LINK_POINTER = 0x2800"
| "encoding VMCS_LINK_POINTER_HIGH = 0x2801"
| "encoding PIN_BASED_VM_EXEC_CONTROL = 0x4000"
| "encoding CPU_BASED_VM_EXEC_CONTROL = 0x4002"
| "encoding EXCEPTION_BITMAP = 0x4004"
| "encoding PAGE_FAULT_ERROR_CODE_MASK = 0x4006"
| "encoding PAGE_FAULT_ERROR_CODE_MATCH = 0x4008"
| "encoding CR3_TARGET_COUNT = 0x400a"
| "encoding VM_EXIT_CONTROLS = 0x400c"
| "encoding VM_EXIT_MSR_STORE_COUNT = 0x400e"
| "encoding VM_EXIT_MSR_LOAD_COUNT = 0x4010"
| "encoding VM_ENTRY_CONTROLS = 0x4012"
| "encoding VM_ENTRY_MSR_LOAD_COUNT = 0x4014"
| "encoding VM_ENTRY_INTR_INFO_FIELD = 0x4016"
| "encoding VM_INSTRUCTION_ERROR = 0x4400"
| "encoding VM_EXIT_REASON = 0x4402"
| "encoding GUEST_ES_LIMIT = 0x4800"
| "encoding GUEST_CS_LIMIT = 0x4802"
| "encoding GUEST_SS_LIMIT = 0x4804"
| "encoding GUEST_DS_LIMIT = 0x4806"
| "encoding GUEST_FS_LIMIT = 0x4808"
| "encoding GUEST_GS_LIMIT = 0x480a"
| "encoding GUEST_LDTR_LIMIT = 0x480c"
| "encoding GUEST_TR_LIMIT = 0x480e"
| "encoding GUEST_GDTR_LIMIT = 0x4810"
| "encoding GUEST_IDTR_LIMIT = 0x4812"
| "encoding GUEST_ES_AR_BYTES = 0x4814"
| "encoding GUEST_CS_AR_BYTES = 0x4816"
| "encoding GUEST_SS_AR_BYTES = 0x4818"
| "encoding GUEST_DS_AR_BYTES = 0x481a"
| "encoding GUEST_FS_AR_BYTES = 0x481c"
| "encoding GUEST_GS_AR_BYTES = 0x481e"
| "encoding GUEST_LDTR_AR_BYTES = 0x4820"
| "encoding GUEST_TR_AR_BYTES = 0x4822"
| "encoding GUEST_INTERRUPTIBILITY_INFO = 0x4824"
| "encoding GUEST_ACTIVITY_STATE = 0x4826"
| "encoding CR0_GUEST_HOST_MASK = 0x6000"
| "encoding CR4_GUEST_HOST_MASK = 0x6002"
| "encoding CR0_READ_SHADOW = 0x6004"
| "encoding CR4_READ_SHADOW = 0x6006"
| "encoding EXIT_QUALIFICATION = 0x6400"
| "encoding GUEST_CR0 = 0x6800"
| "encoding GUEST_CR3 = 0x6802"
| "encoding GUEST_CR4 = 0x6804"
| "encoding GUEST_ES_BASE = 0x6806"
| "encoding GUEST_CS_BASE = 0x6808"
| "encoding GUEST_SS_BASE = 0x680a"
| "encoding GUEST_DS_BASE = 0x680c"
| "encoding GUEST_FS_BASE = 0x680e"
| "encoding GUEST_GS_BASE = 0x6810"
| "encoding GUEST_LDTR_BASE = 0x6812"
| "encoding GUEST_TR_BASE = 0x6814"
| "encoding GUEST_GDTR_BASE = 0x6816"
| "encoding GUEST_IDTR_BASE = 0x6818"
| "encoding GUEST_DR7 = 0x681a"
| "encoding GUEST_RSP = 0x681c"
| "encoding GUEST_RIP = 0x681e"
| "encoding GUEST_RFLAGS = 0x6820"
| "encoding HOST_CR0 = 0x6c00"
| "encoding HOST_CR3 = 0x6c02"
| "encoding HOST_CR4 = 0x6c04"
| "encoding HOST_FS_BASE = 0x6c06"
| "encoding HOST_GS_BASE = 0x6c08"
| "encoding HOST_TR_BASE = 0x6c0a"
| "encoding HOST_GDTR_BASE = 0x6c0c"
| "encoding HOST_IDTR_BASE = 0x6c0e"
| "encoding HOST_RSP = 0x6c14"
| "encoding HOST_RIP = 0x6c16"

definition devE :: "('d \<Rightarrow> 'a) \<Rightarrow> ('d intel, 'a) exec" where
  "devE f = on_device (\<lambda>d. (f d, d))"

definition opE :: "'d vmx_hw \<Rightarrow> vmx_op \<Rightarrow> ('d intel, unit) exec" where
  "opE vx i = on_device (\<lambda>d. ((), vx_op vx i d))"

definition orCrash :: "('d \<Rightarrow> bool \<times> 'd) \<Rightarrow> ('d intel, unit) exec" where
  "orCrash f = bindE (on_device f) (\<lambda>failed. if failed then stopE Fault else returnE ())"

definition vmxon :: "'d vmx_hw \<Rightarrow> u64 \<Rightarrow> ('d intel, bool) exec" where
  "vmxon vx addr = on_device (vx_vmxon vx addr)"

definition vmptrld :: "'d vmx_hw \<Rightarrow> u64 \<Rightarrow> ('d intel, unit) exec" where
  "vmptrld vx addr = orCrash (vx_vmptrld vx addr)"

text \<open>\<open>__vmptrst\<close> stores the pointer in its own parameter: the caller's is not changed.\<close>

definition vmptrst :: "'d vmx_hw \<Rightarrow> ('d intel, unit) exec" where
  "vmptrst vx = opE vx Vmptrst"

definition vmpclear :: "'d vmx_hw \<Rightarrow> u64 \<Rightarrow> ('d intel, unit) exec" where
  "vmpclear vx addr = orCrash (vx_vmclear vx addr)"

definition vmread :: "'d vmx_hw \<Rightarrow> vmcs_field \<Rightarrow> ('d intel, u32) exec" where
  "vmread vx fld = bindE (on_device (vx_vmread vx (encoding fld))) (\<lambda>r. case r of None \<Rightarrow> stopE Fault | Some v \<Rightarrow> returnE v)"

definition vmwrite :: "'d vmx_hw \<Rightarrow> vmcs_field \<Rightarrow> u32 \<Rightarrow> ('d intel, unit) exec" where
  "vmwrite vx fld v = orCrash (vx_vmwrite vx (encoding fld) v)"

primrec vmwrites :: "'d vmx_hw \<Rightarrow> (vmcs_field \<times> u32) list \<Rightarrow> ('d intel, unit) exec" where
  "vmwrites vx [] = returnE ()"
| "vmwrites vx (w # ws) = bindE (vmwrite vx (fst w) (snd w)) (\<lambda>_. vmwrites vx ws)"

definition enterE :: "'d vmx_hw \<Rightarrow> vm_entry \<Rightarrow> ('d intel, unit) exec" where
  "enterE vx i = bindE (on_device (vx_enter vx i)) (\<lambda>b. if b then stopE Guest else returnE ())"

definition vmlaunch :: "'d vmx_hw \<Rightarrow> ('d intel, unit) exec" where
  "vmlaunch vx = enterE vx Vmlaunch"

definition vmresume :: "'d vmx_hw \<Rightarrow> ('d intel, unit) exec" where
  "vmresume vx = enterE vx Vmresume"

definition vmxoff :: "'d vmx_hw \<Rightarrow> ('d intel, unit) exec" where
  "vmxoff vx = opE vx Vmxoff"

section \<open>Starting and stopping\<close>

definition MONITOR_PIN_BASED_EXEC_CONTROLS :: u32 where "MONITOR_PIN_BASED_EXEC_CONTROLS = 8"
definition MONITOR_CPU_BASED_EXEC_CONTROLS :: u32 where "MONITOR_CPU_BASED_EXEC_CONTROLS = 0x200 OR 0x400"
definition MONITOR_VM_EXIT_CONTROLS :: u32 where "MONITOR_VM_EXIT_CONTROLS = 0x8000"
definition MONITOR_VM_ENTRY_CONTROLS :: u32 where "MONITOR_VM_ENTRY_CONTROLS = 0"

definition init_vmx_ctrl :: "'d hw \<Rightarrow> u32 \<Rightarrow> u32 \<Rightarrow> ('d intel, u32) exec" where
  "init_vmx_ctrl hw msr ctrl_val =
     bindE (read_msr hw msr) (\<lambda>val.
     let lo = ucast val; hi = ucast (drop_bit 32 val); ctrl = (ctrl_val AND hi) OR lo in
     bindE (if ctrl AND ctrl_val \<noteq> ctrl_val then tell (Info (''Conditions are not allowed'' @ nl)) else returnE ()) (\<lambda>_.
     returnE ctrl))"

definition init_vmcs_config :: "'d hw \<Rightarrow> ('d intel, unit) exec" where
  "init_vmcs_config hw =
     bindE (read_msr hw 0x480) (\<lambda>val.
     bindE (modifyE (\<lambda>s. s\<lparr>vmcs_rev_id := ucast val\<rparr>)) (\<lambda>_.
     bindE (init_vmx_ctrl hw 0x481 MONITOR_PIN_BASED_EXEC_CONTROLS) (\<lambda>v.
     bindE (modifyE (\<lambda>s. s\<lparr>pin_based_vm_exec_ctrls := v\<rparr>)) (\<lambda>_.
     bindE (init_vmx_ctrl hw 0x482 MONITOR_CPU_BASED_EXEC_CONTROLS) (\<lambda>v.
     bindE (modifyE (\<lambda>s. s\<lparr>proc_based_vm_exec_ctrls := v\<rparr>)) (\<lambda>_.
     bindE (init_vmx_ctrl hw 0x483 MONITOR_VM_EXIT_CONTROLS) (\<lambda>v.
     bindE (modifyE (\<lambda>s. s\<lparr>vm_exit_ctrls := v\<rparr>)) (\<lambda>_.
     bindE (init_vmx_ctrl hw 0x484 MONITOR_VM_ENTRY_CONTROLS) (\<lambda>v.
     modifyE (\<lambda>s. s\<lparr>vm_entry_ctrls := v\<rparr>))))))))))"

text \<open>The loop of \<open>build_ap_pagetable\<close>: for an end near 4 GB the entry wraps and it does not end.\<close>

definition PTE_FLAGS :: u32 where "PTE_FLAGS = 0xe3"

partial_function (option) ap_pte_loop :: "u32 \<Rightarrow> u32 \<Rightarrow> u32 \<Rightarrow> mem \<Rightarrow> mem option" where
  "ap_pte_loop limit pt_entry pte m =
     (if pt_entry \<le> limit then ap_pte_loop limit (pt_entry + 0x400000) (pte + 4) (st32 pte pt_entry m) else Some m)"

definition build_ap_pagetable :: "symbols \<Rightarrow> ('d intel, unit) exec" where
  "build_ap_pagetable sy =
     bindE memE (\<lambda>m.
     bindE (endsE (ap_pte_loop (sym_end sy + PTE_FLAGS) PTE_FLAGS (sym_idle_pg_table sy) m)) (\<lambda>m. setmemE (\<lambda>_. m)))"

abbreviation (input) CR4_VMXE :: u32 where "CR4_VMXE \<equiv> 0x2000"
abbreviation (input) CR4_PSE :: u32 where "CR4_PSE \<equiv> 0x10"
abbreviation (input) CR0_PG :: u32 where "CR0_PG \<equiv> 0x80000000"

definition change_cr4 :: "'d txt_hw \<Rightarrow> (u32 \<Rightarrow> u32) \<Rightarrow> ('d intel, unit) exec" where
  "change_cr4 tx f = bindE (read_cr4 tx) (\<lambda>v. write_cr4 tx (f v))"

definition change_cr0 :: "'d txt_hw \<Rightarrow> (u32 \<Rightarrow> u32) \<Rightarrow> ('d intel, unit) exec" where
  "change_cr0 tx f = bindE (read_cr0 tx) (\<lambda>v. write_cr0 tx (f v))"

definition start_vmx :: "'d hw \<Rightarrow> 'd txt_hw \<Rightarrow> 'd vmx_hw \<Rightarrow> symbols \<Rightarrow> ('d intel, bool) exec" where
  "start_vmx hw tx vx sy =
     bindE (change_cr4 tx (\<lambda>v. v OR CR4_VMXE)) (\<lambda>_.
     bindE (getE init_done) (\<lambda>done.
     bindE (if done then returnE ()
            else bindE (setmemE (memset (sym_host_vmcs sy) 0 0x1000)) (\<lambda>_.
                 bindE (init_vmcs_config hw) (\<lambda>_.
                 bindE (getE vmcs_rev_id) (\<lambda>r.
                 bindE (setmemE (st32 (sym_host_vmcs sy) r)) (\<lambda>_.
                 bindE (build_ap_pagetable sy) (\<lambda>_.
                 modifyE (\<lambda>s. s\<lparr>init_done := True\<rparr>))))))) (\<lambda>_.
     bindE (opE vx (Write_cr3 (sym_idle_pg_table sy))) (\<lambda>_.
     bindE (change_cr4 tx (\<lambda>v. v OR CR4_PSE)) (\<lambda>_.
     bindE (read_cr0 tx) (\<lambda>_.
     bindE (change_cr0 tx (\<lambda>v. v OR CR0_PG)) (\<lambda>_.
     bindE (vmxon vx (ucast (sym_host_vmcs sy))) (\<lambda>failed.
     if failed
     then bindE (change_cr4 tx (\<lambda>v. v AND NOT CR4_VMXE)) (\<lambda>_.
          bindE (change_cr4 tx (\<lambda>v. v AND NOT CR4_PSE)) (\<lambda>_.
          bindE (change_cr0 tx (\<lambda>v. v AND NOT CR0_PG)) (\<lambda>_.
          returnE False)))
     else returnE True))))))))"

definition stop_vmx :: "'d txt_hw \<Rightarrow> 'd vmx_hw \<Rightarrow> u32 \<Rightarrow> ('d intel, unit) exec" where
  "stop_vmx tx vx cpuid =
     bindE (read_cr4 tx) (\<lambda>cr4.
     if cr4 AND CR4_VMXE = 0 then tell (Info (''stop_vmx() called when VMX not enabled'' @ nl))
     else bindE (vmptrst vx) (\<lambda>_.
          bindE (vmpclear vx 0) (\<lambda>_.
          bindE (vmxoff vx) (\<lambda>_.
          bindE (change_cr4 tx (\<lambda>v. v AND NOT CR4_VMXE)) (\<lambda>_.
          bindE (change_cr0 tx (\<lambda>v. v AND NOT CR0_PG)) (\<lambda>_.
          bindE (change_cr4 tx (\<lambda>v. v AND NOT CR4_PSE)) (\<lambda>_.
          tell (Num ''VMXOFF done for cpu '' cpuid))))))))"

section \<open>The guest\<close>

text \<open>The bits of a segment: type, code or data, present, 32-bit, granularity.\<close>

definition arbytes :: "u32 \<Rightarrow> u32 \<Rightarrow> u32 \<Rightarrow> u32 \<Rightarrow> u32 \<Rightarrow> u32" where
  "arbytes seg_type sg p default_ops_size g =
     seg_type OR push_bit 4 sg OR push_bit 7 p OR push_bit 14 default_ops_size OR push_bit 15 g"

definition sregE :: "'d vmx_hw \<Rightarrow> sreg \<Rightarrow> ('d intel, u32) exec" where
  "sregE vx r = bindE (devE (vx_sreg vx r)) (\<lambda>v. returnE (ucast v))"

definition write_selectors :: "'d vmx_hw \<Rightarrow> symbols \<Rightarrow> ('d intel, unit) exec" where
  "write_selectors vx sy =
     bindE (sregE vx Seg_ss) (\<lambda>seg. bindE (vmwrites vx [(HOST_SS_SELECTOR, seg), (GUEST_SS_SELECTOR, seg)]) (\<lambda>_.
     bindE (sregE vx Seg_ds) (\<lambda>seg. bindE (vmwrites vx [(HOST_DS_SELECTOR, seg), (GUEST_DS_SELECTOR, seg)]) (\<lambda>_.
     bindE (sregE vx Seg_es) (\<lambda>seg. bindE (vmwrites vx [(HOST_ES_SELECTOR, seg), (GUEST_ES_SELECTOR, seg)]) (\<lambda>_.
     bindE (sregE vx Seg_fs) (\<lambda>seg. bindE (vmwrites vx [(HOST_FS_SELECTOR, seg), (GUEST_FS_SELECTOR, seg)]) (\<lambda>_.
     bindE (sregE vx Seg_gs) (\<lambda>seg. bindE (vmwrites vx [(HOST_GS_SELECTOR, seg), (GUEST_GS_SELECTOR, seg)]) (\<lambda>_.
     bindE (sregE vx Seg_cs) (\<lambda>seg.
     vmwrites vx [(GUEST_CS_SELECTOR, seg), (GUEST_RIP, sym_mini_guest sy),
       (HOST_CS_SELECTOR, seg), (HOST_RIP, sym_vmx_asm_vmexit_handler sy)])))))))))))"

definition segment_fields :: "(vmcs_field \<times> u32) list" where
  "segment_fields =
     (let limit = 0xffffffff; data = arbytes 3 1 1 1 1; code = arbytes 0xb 1 1 1 1 in
      [(GUEST_ES_LIMIT, limit), (GUEST_SS_LIMIT, limit), (GUEST_DS_LIMIT, limit), (GUEST_FS_LIMIT, limit),
       (GUEST_GS_LIMIT, limit), (GUEST_CS_LIMIT, limit),
       (GUEST_ES_AR_BYTES, data), (GUEST_SS_AR_BYTES, data), (GUEST_DS_AR_BYTES, data), (GUEST_FS_AR_BYTES, data),
       (GUEST_GS_AR_BYTES, data), (GUEST_CS_AR_BYTES, code),
       (GUEST_ES_BASE, 0), (GUEST_SS_BASE, 0), (GUEST_DS_BASE, 0), (GUEST_FS_BASE, 0), (GUEST_GS_BASE, 0), (GUEST_CS_BASE, 0),
       (HOST_FS_BASE, 0), (HOST_GS_BASE, 0),
       (GUEST_LDTR_SELECTOR, 0), (GUEST_LDTR_BASE, 0), (GUEST_LDTR_LIMIT, 0xffff)])"

definition control_fields :: "(vmcs_field \<times> u32) list" where
  "control_fields =
     [(VM_EXIT_MSR_LOAD_ADDR, 0), (VM_EXIT_MSR_STORE_ADDR, 0), (VM_EXIT_MSR_STORE_COUNT, 0), (VM_EXIT_MSR_LOAD_COUNT, 0),
      (VM_ENTRY_MSR_LOAD_COUNT, 0), (VM_ENTRY_INTR_INFO_FIELD, 0), (CR0_GUEST_HOST_MASK, NOT 0), (CR4_GUEST_HOST_MASK, NOT 0),
      (PAGE_FAULT_ERROR_CODE_MASK, 0), (PAGE_FAULT_ERROR_CODE_MATCH, 0), (CR3_TARGET_COUNT, 0), (GUEST_ACTIVITY_STATE, 0),
      (GUEST_INTERRUPTIBILITY_INFO, 0), (VMCS_LINK_POINTER, NOT 0), (VMCS_LINK_POINTER_HIGH, NOT 0),
      (EXCEPTION_BITMAP, push_bit 14 1 OR push_bit 3 1)]"

definition construct_vmcs :: "'d txt_hw \<Rightarrow> 'd vmx_hw \<Rightarrow> symbols \<Rightarrow> ('d intel, unit) exec" where
  "construct_vmcs tx vx sy =
     bindE (getE id) (\<lambda>s.
     bindE (vmwrites vx [(PIN_BASED_VM_EXEC_CONTROL, pin_based_vm_exec_ctrls s), (VM_EXIT_CONTROLS, vm_exit_ctrls s),
       (VM_ENTRY_CONTROLS, vm_entry_ctrls s), (CPU_BASED_VM_EXEC_CONTROL, proc_based_vm_exec_ctrls s)]) (\<lambda>_.
     bindE (write_selectors vx sy) (\<lambda>_.
     bindE (vmwrites vx segment_fields) (\<lambda>_.
     bindE (devE (vx_tr vx)) (\<lambda>tr.
     bindE (if tr = 0 then tell (Info (''tr is 0 on ap, may vmlaunch fail.'' @ nl)) else returnE ()) (\<lambda>_.
     bindE (vmwrites vx [(GUEST_TR_SELECTOR, tr), (GUEST_TR_BASE, 0), (GUEST_TR_LIMIT, 0xffff), (HOST_TR_SELECTOR, tr), (HOST_TR_BASE, 0),
       (GUEST_LDTR_AR_BYTES, arbytes 2 0 1 0 1), (GUEST_TR_AR_BYTES, arbytes 0xb 0 1 0 1)]) (\<lambda>_.
     bindE (devE (vx_gdtr vx)) (\<lambda>(limit, base).
     bindE (vmwrites vx [(GUEST_GDTR_BASE, base), (GUEST_GDTR_LIMIT, ucast limit), (HOST_GDTR_BASE, base)]) (\<lambda>_.
     bindE (devE (vx_idtr vx)) (\<lambda>(limit, base).
     bindE (vmwrites vx [(GUEST_IDTR_BASE, base), (GUEST_IDTR_LIMIT, ucast limit), (HOST_IDTR_BASE, base)]) (\<lambda>_.
     bindE (read_cr0 tx) (\<lambda>cr0.
     bindE (devE (vx_cr3 vx)) (\<lambda>cr3.
     bindE (read_cr4 tx) (\<lambda>cr4.
     bindE (vmwrites vx [(HOST_CR0, cr0), (HOST_CR4, cr4), (HOST_CR3, cr3), (GUEST_CR0, cr0), (CR0_READ_SHADOW, cr0),
       (GUEST_CR4, cr4), (CR4_READ_SHADOW, cr4), (GUEST_CR3, cr3), (GUEST_DR7, 0)]) (\<lambda>_.
     bindE (read_eflags tx) (\<lambda>eflags.
     bindE (vmwrites vx [(GUEST_RFLAGS, eflags)]) (\<lambda>_.
     bindE (devE (vx_esp vx)) (\<lambda>rsp.
     bindE (vmwrites vx [(GUEST_RSP, rsp), (HOST_RSP, rsp)]) (\<lambda>_.
     vmwrites vx control_fields)))))))))))))))))))"

definition vmx_create_vmcs :: "'d txt_hw \<Rightarrow> 'd vmx_hw \<Rightarrow> symbols \<Rightarrow> u32 \<Rightarrow> ('d intel, bool) exec" where
  "vmx_create_vmcs tx vx sy cpuid =
     (let vmcs = sym_ap_vmcs sy + cpuid * 0x1000 in
      bindE (setmemE (memset vmcs 0 0x1000)) (\<lambda>_.
      bindE (getE vmcs_rev_id) (\<lambda>r.
      bindE (setmemE (st32 vmcs r)) (\<lambda>_.
      bindE (vmpclear vx (ucast vmcs)) (\<lambda>_.
      bindE (vmptrld vx (ucast vmcs)) (\<lambda>_.
      bindE (construct_vmcs tx vx sy) (\<lambda>_.
      returnE True)))))))"

text \<open>The two counters: \<open>num_in_wfs\<close> is in the shared page.\<close>

definition count_wfs :: "u32 \<Rightarrow> ('d intel, unit) exec" where
  "count_wfs v = modifyE (\<lambda>s. s\<lparr>ap_wfs_count := ap_wfs_count s + v\<rparr>)"

definition count_in_wfs :: "symbols \<Rightarrow> u32 \<Rightarrow> ('d intel, unit) exec" where
  "count_in_wfs sy v = setmemE (\<lambda>m. st32 (num_in_wfs (tboot_shared sy)) (ld32 m (num_in_wfs (tboot_shared sy)) + v) m)"

definition launch_mini_guest :: "'d vmx_hw \<Rightarrow> symbols \<Rightarrow> u32 \<Rightarrow> ('d intel, unit) exec" where
  "launch_mini_guest vx sy cpuid =
     bindE (count_in_wfs sy 1) (\<lambda>_.
     bindE (vmlaunch vx) (\<lambda>_.
     bindE (count_wfs (- 1)) (\<lambda>_.
     bindE (count_in_wfs sy (- 1)) (\<lambda>_.
     bindE (vmread vx VM_INSTRUCTION_ERROR) (\<lambda>error.
     tell_all [Num ''vmlaunch failed for cpu '' cpuid, Num ''error '' error])))))"

definition print_failed_vmentry_reason :: "'d vmx_hw \<Rightarrow> u32 \<Rightarrow> ('d intel, unit) exec" where
  "print_failed_vmentry_reason vx exit_reason =
     bindE (vmread vx EXIT_QUALIFICATION) (\<lambda>q.
     bindE (tell (Info (''Failed vm entry'' @ nl))) (\<lambda>_.
     let r = (ucast exit_reason :: u16) in
     tell (if r = 33 then Num ''caused by invalid guest state '' q
           else if r = 34 then Num ''caused by MSR entry loading '' q
           else if r = 41 then Info (''caused by machine check.'' @ nl)
           else Info (''reason not known yet!'' @ nl))))"

text \<open>\<open>_prot_to_real\<close> does not come back.\<close>

definition cpu_wakeup :: "u32 \<Rightarrow> u32 \<Rightarrow> ('d intel, unit) exec" where
  "cpu_wakeup cpuid sipi_vec =
     bindE (tell (Num (''cpu waking up '' @ nl) cpuid)) (\<lambda>_. stopE (Real_mode sipi_vec))"

definition get_apicid :: "'d hw \<Rightarrow> u32" where "get_apicid hw = hw_cpuid_edx hw 0xb"

text \<open>
  \<open>vmx_vmexit_handler\<close> up to the counters: \<open>exit_guest\<close> goes back to the guest, or it gives the reason for which the
  processor leaves its guest for good, with virtualisation off. In all three cases the same two counters
  follow, and then \<open>left_guest\<close>.
\<close>

datatype guest_exit = Exit_failed | Exit_sipi u32 | Exit_vmcall

definition exit_guest :: "'d hw \<Rightarrow> 'd txt_hw \<Rightarrow> 'd vmx_hw \<Rightarrow> ('d intel, guest_exit option) exec" where
  "exit_guest hw tx vx =
     (let apicid = get_apicid hw in
      bindE (vmread vx VM_EXIT_REASON) (\<lambda>exit_reason.
      if exit_reason AND 0x80000000 \<noteq> 0
      then bindE (print_failed_vmentry_reason vx exit_reason) (\<lambda>_.
           bindE (stop_vmx tx vx apicid) (\<lambda>_. returnE (Some Exit_failed)))
      else if exit_reason = 3
      then bindE (vmwrite vx GUEST_ACTIVITY_STATE 3) (\<lambda>_. bindE (vmresume vx) (\<lambda>_. returnE None))
      else if exit_reason = 4
      then bindE (vmread vx EXIT_QUALIFICATION) (\<lambda>exit_qual.
           bindE (stop_vmx tx vx apicid) (\<lambda>_. returnE (Some (Exit_sipi (push_bit 12 (exit_qual AND 0xff))))))
      else if exit_reason = 18
      then bindE (stop_vmx tx vx apicid) (\<lambda>_. returnE (Some Exit_vmcall))
      else bindE (tell (Num (''can'' @ [CHR 0x27] @ ''t handle vmexit due to '') exit_reason)) (\<lambda>_.
           bindE (vmresume vx) (\<lambda>_. returnE None))))"

definition left_guest :: "u32 \<Rightarrow> guest_exit \<Rightarrow> ('d intel, unit) exec" where
  "left_guest apicid e = (case e of
       Exit_failed \<Rightarrow> returnE ()
     | Exit_sipi sipi_vec \<Rightarrow> bindE (cpu_wakeup apicid sipi_vec) (\<lambda>_. tell (Info (''cpu_wakeup() failed'' @ nl)))
     | Exit_vmcall \<Rightarrow> stopE Hang)"

definition vmx_vmexit_handler :: "'d hw \<Rightarrow> 'd txt_hw \<Rightarrow> 'd vmx_hw \<Rightarrow> symbols \<Rightarrow> ('d intel, unit) exec" where
  "vmx_vmexit_handler hw tx vx sy =
     bindE (exit_guest hw tx vx) (\<lambda>r. case r of
       None \<Rightarrow> returnE ()
     | Some e \<Rightarrow>
         bindE (count_wfs (- 1)) (\<lambda>_.
         bindE (count_in_wfs sy (- 1)) (\<lambda>_.
         left_guest (get_apicid hw) e)))"

definition mtx_leave :: "u32 \<Rightarrow> ('d intel, unit) exec" where "mtx_leave l = setmemE (st32 l 0)"

text \<open>
  \<open>handle_init_sipi_sipi\<close> up to the call of \<open>launch_mini_guest\<close>: \<open>None\<close> is a return, \<open>Some b\<close> goes on, with the launch
  when \<open>b\<close>.
\<close>

definition prepare_guest :: "'d hw \<Rightarrow> 'd txt_hw \<Rightarrow> 'd vmx_hw \<Rightarrow> symbols \<Rightarrow> u32 \<Rightarrow> ('d intel, bool option) exec" where
  "prepare_guest hw tx vx sy cpuid =
     (if cpuid \<ge> NR_CPUS
      then bindE (tell (Num ''cpuid exceeds # supported CPUs '' cpuid)) (\<lambda>_.
           bindE (mtx_leave (sym_ap_lock sy)) (\<lambda>_. returnE None))
      else bindE (opE vx (Load_tr (push_bit 3 3))) (\<lambda>_.
           bindE (setmemE (st8 (sym_gdt sy + (push_bit 3 3 + 5)) 0x89)) (\<lambda>_.
           bindE (start_vmx hw tx vx sy) (\<lambda>b.
           if \<not> b then bindE (mtx_leave (sym_ap_lock sy)) (\<lambda>_. returnE None)
           else bindE (vmx_create_vmcs tx vx sy cpuid) (\<lambda>b.
                bindE (if b then mtx_leave (sym_ap_lock sy) else returnE ()) (\<lambda>_. returnE (Some b)))))))"

definition handle_init_sipi_sipi :: "'d hw \<Rightarrow> 'd txt_hw \<Rightarrow> 'd vmx_hw \<Rightarrow> symbols \<Rightarrow> u32 \<Rightarrow> ('d intel, unit) exec" where
  "handle_init_sipi_sipi hw tx vx sy cpuid =
     bindE (prepare_guest hw tx vx sy cpuid) (\<lambda>r. case r of
       None \<Rightarrow> returnE ()
     | Some b \<Rightarrow>
         bindE (if b then launch_mini_guest vx sy cpuid else returnE ()) (\<lambda>_.
         tell (Info (''control should not return here from launch_mini_guest'' @ nl))))"

definition force_aps_exit :: "('d intel, unit) exec" where
  "force_aps_exit = modifyE (\<lambda>s. s\<lparr>aps_exit_guest := 1\<rparr>)"

section \<open>Joining the environment\<close>

definition sharedE :: "'d vmx_hw \<Rightarrow> u32 \<Rightarrow> ('d intel, u32) exec" where
  "sharedE vx a =
     bindE (devE (vx_shared vx a)) (\<lambda>f. bindE (setmemE (\<lambda>m. st32 a (f (ld32 m a)) m)) (\<lambda>_. bindE memE (\<lambda>m. returnE (ld32 m a))))"

text \<open>One round of the loop of \<open>ap_wait\<close>: whether it ends.\<close>

definition wake_round :: "'d vmx_hw \<Rightarrow> symbols \<Rightarrow> u32 \<Rightarrow> ('d intel, bool) exec" where
  "wake_round vx sy cpuid =
     (let a = ap_wake_trigger (tboot_shared sy) in
      bindE (sharedE vx a) (\<lambda>v.
      if v = cpuid then returnE True
      else bindE (opE vx (Monitor a)) (\<lambda>_.
           bindE (opE vx Mb) (\<lambda>_.
           bindE (sharedE vx a) (\<lambda>v.
           if v = cpuid then returnE True else bindE (opE vx Mwait) (\<lambda>_. returnE False))))))"

partial_function (option) wake_loop :: "'d vmx_hw \<Rightarrow> symbols \<Rightarrow> u32 \<Rightarrow> 'd intel \<Rightarrow> (bool res \<times> 'd intel) option" where
  "wake_loop vx sy cpuid s =
     (let r = wake_round vx sy cpuid s in
      if fst r = Ok False then wake_loop vx sy cpuid (snd r) else Some r)"

definition ap_wait :: "'d hw \<Rightarrow> 'd vmx_hw \<Rightarrow> symbols \<Rightarrow> u32 \<Rightarrow> ('d intel, unit) exec" where
  "ap_wait hw vx sy cpuid =
     (if cpuid \<ge> NR_CPUS
      then bindE (tell (Num ''cpuid exceeds # supported CPUs'' cpuid)) (\<lambda>_. mtx_leave (sym_ap_lock sy))
      else bindE (read_msr hw MSR_IA32_MISC_ENABLE) (\<lambda>misc.
           bindE (write_msr hw MSR_IA32_MISC_ENABLE (misc OR 0x40000)) (\<lambda>_.
           bindE (count_in_wfs sy 1) (\<lambda>_.
           bindE (mtx_leave (sym_ap_lock sy)) (\<lambda>_.
           bindE (\<lambda>s. case wake_loop vx sy cpuid s of None \<Rightarrow> (Stop Hang, s) | Some r \<Rightarrow> r) (\<lambda>_.
           bindE memE (\<lambda>m.
           let sipi_vec = ld32 m (ap_wake_addr (tboot_shared sy)) in
           bindE (count_wfs (- 1)) (\<lambda>_.
           bindE (count_in_wfs sy (- 1)) (\<lambda>_.
           cpu_wakeup cpuid sipi_vec)))))))))"

definition wait_for_sipi :: "'d hw \<Rightarrow> 'd txt_hw \<Rightarrow> 'd vmx_hw \<Rightarrow> symbols \<Rightarrow> u32 \<Rightarrow> ('d intel, unit) exec" where
  "wait_for_sipi hw tx vx sy cpuid =
     bindE use_mwait (\<lambda>mw. if mw then ap_wait hw vx sy cpuid else handle_init_sipi_sipi hw tx vx sy cpuid)"

text \<open>
  A processor joins: the part of \<open>txt_cpu_wakeup\<close> up to the counter, and whether it got there. The loop that only
  passes time is left out.
\<close>

definition join_environment :: "'d hw \<Rightarrow> 'd txt_hw \<Rightarrow> ('d intel, bool) exec" where
  "join_environment hw tx =
     (let cpuid = get_apicid hw in
      if cpuid \<ge> NR_CPUS then bindE (tell (Num ''cpuid exceeds # supported CPUs. id'' cpuid)) (\<lambda>_. returnE False)
      else bindE get_madt_apic_base (\<lambda>madt_apicbase.
           if madt_apicbase = 0 then bindE (tell (Info (''not able to get apci base from MADT'' @ nl))) (\<lambda>_. returnE False)
           else bindE (read_msr hw MSR_APICBASE) (\<lambda>msr_apicbase.
                bindE (if ucast madt_apicbase \<noteq> msr_apicbase AND NOT 0xfff
                       then bindE (tell_all [Num ''cpu restore apic base to of '' cpuid, Num64 ''to base'' (ucast madt_apicbase)]) (\<lambda>_.
                            write_msr hw MSR_APICBASE ((msr_apicbase AND 0xfff) OR ucast madt_apicbase))
                       else returnE ()) (\<lambda>_.
                bindE (get_txt_heap tx) (\<lambda>txt_heap.
                bindE memE (\<lambda>m.
                let os_mle_data = os_mle_at (get_os_mle_data_start m txt_heap) in
                bindE (restore_mtrrs hw (saved_mtrr_state os_mle_data)) (\<lambda>_.
                bindE memE (\<lambda>m.
                bindE (write_msr hw MSR_IA32_MISC_ENABLE (ucast (ld32 m (saved_misc_enable_msr os_mle_data)))) (\<lambda>_.
                bindE (cpuE tx Getsec_smctrl) (\<lambda>_.
                bindE (count_wfs 1) (\<lambda>_.
                returnE True)))))))))))"

definition txt_cpu_wakeup :: "'d hw \<Rightarrow> 'd txt_hw \<Rightarrow> 'd vmx_hw \<Rightarrow> symbols \<Rightarrow> ('d intel, unit) exec" where
  "txt_cpu_wakeup hw tx vx sy =
     bindE (join_environment hw tx) (\<lambda>b. if b then wait_for_sipi hw tx vx sy (get_apicid hw) else returnE ())"

section \<open>The end\<close>

definition is_launched :: "'d txt_hw \<Rightarrow> ('d intel, bool) exec" where
  "is_launched tx = txt_is_launched tx"

definition TBOOT_S3_WAKEUP_ADDR :: u32 where "TBOOT_S3_WAKEUP_ADDR = 0x8a000"

definition copy_s3_wakeup_entry :: "symbols \<Rightarrow> ('d intel, unit) exec" where
  "copy_s3_wakeup_entry sy =
     (let n = sym_s3_wakeup_end sy - sym_s3_wakeup_16 sy in
      if sint n > 0x1000 then tell (Info (''S3 entry is too large to be copied into one page!'' @ nl))
      else bindE (setmemE (memcpy_intel (sym_g_saved_s3_wakeup_page sy) TBOOT_S3_WAKEUP_ADDR n)) (\<lambda>_.
           setmemE (memcpy_intel TBOOT_S3_WAKEUP_ADDR (sym_s3_wakeup_16 sy) n)))"

definition outE :: "'d hw \<Rightarrow> u16 \<Rightarrow> u8 \<Rightarrow> ('d intel, unit) exec" where
  "outE hw port v = on_device (\<lambda>d. ((), hw_outb hw port v d))"

abbreviation (input) TB_SHUTDOWN_REBOOT :: u32 where "TB_SHUTDOWN_REBOOT \<equiv> 0"
abbreviation (input) TB_SHUTDOWN_S5 :: u32 where "TB_SHUTDOWN_S5 \<equiv> 1"
abbreviation (input) TB_SHUTDOWN_S4 :: u32 where "TB_SHUTDOWN_S4 \<equiv> 2"
abbreviation (input) TB_SHUTDOWN_S3 :: u32 where "TB_SHUTDOWN_S3 \<equiv> 3"
abbreviation (input) TB_SHUTDOWN_WFS :: u32 where "TB_SHUTDOWN_WFS \<equiv> 5"

definition shutdown_system :: "'d hw \<Rightarrow> 'd txt_hw \<Rightarrow> symbols \<Rightarrow> u32 \<Rightarrow> ('d intel, unit) exec" where
  "shutdown_system hw tx sy shutdown_type =
     bindE (if shutdown_type = TB_SHUTDOWN_S3
            then bindE (copy_s3_wakeup_entry sy) (\<lambda>_. set_s3_resume_vector (acpi_sinfo (tboot_shared sy)) (ucast TBOOT_S3_WAKEUP_ADDR))
            else returnE ()) (\<lambda>_.
     bindE (if shutdown_type \<in> {TB_SHUTDOWN_S3, TB_SHUTDOWN_S4, TB_SHUTDOWN_S5}
            then bindE (machine_sleep hw tx sy (acpi_sinfo (tboot_shared sy))) (\<lambda>_. returnE ())
            else returnE ()) (\<lambda>_.
     bindE (if shutdown_type \<in> {TB_SHUTDOWN_S3, TB_SHUTDOWN_S4, TB_SHUTDOWN_S5, TB_SHUTDOWN_REBOOT}
            then bindE (txt_is_powercycle_required tx) (\<lambda>b.
                 if b then bindE (outE hw 0xcf9 0x0a) (\<lambda>_. outE hw 0xcf9 0x0e)
                 else bindE (outE hw 0x64 0xfe) (\<lambda>_. outE hw 0xcf9 0x06))
            else returnE ()) (\<lambda>_.
     stopE Hang)))"

text \<open>The loop that waits until all processors that joined are in their guests; the two counters are read in this order.\<close>

definition ready_round :: "'d txt_hw \<Rightarrow> 'd vmx_hw \<Rightarrow> symbols \<Rightarrow> ('d intel, bool) exec" where
  "ready_round tx vx sy =
     bindE (sharedE vx (num_in_wfs (tboot_shared sy))) (\<lambda>n.
     bindE (ap_countE tx) (\<lambda>count.
     if n < count then bindE (cpuE tx Cpu_relax) (\<lambda>_. returnE False) else returnE True))"

partial_function (option) ready_loop :: "'d txt_hw \<Rightarrow> 'd vmx_hw \<Rightarrow> symbols \<Rightarrow> 'd intel \<Rightarrow> (bool res \<times> 'd intel) option" where
  "ready_loop tx vx sy s =
     (let r = ready_round tx vx sy s in
      if fst r = Ok False then ready_loop tx vx sy (snd r) else Some r)"

definition AP_GUEST_EXIT_TIMEOUT :: nat where "AP_GUEST_EXIT_TIMEOUT = 0x1000000"

primrec exit_loop :: "'d txt_hw \<Rightarrow> nat \<Rightarrow> ('d intel, nat) exec" where
  "exit_loop tx 0 = returnE 0"
| "exit_loop tx (Suc timeout) =
     bindE (if Suc timeout mod 0x8000 = 0 then tell (Info ''.'') else cpuE tx Cpu_relax) (\<lambda>_.
     bindE (if Suc timeout mod 0x200000 = 0 then tell (Info nl) else returnE ()) (\<lambda>_.
     bindE (ap_countE tx) (\<lambda>count.
     if count > 0 \<and> timeout > 0 then exit_loop tx timeout else returnE timeout)))"

definition leave_guests :: "'d txt_hw \<Rightarrow> ('d intel, unit) exec" where
  "leave_guests tx =
     bindE (tell (Info (''waiting for APs to exit guests...'' @ nl))) (\<lambda>_.
     bindE force_aps_exit (\<lambda>_.
     bindE (exit_loop tx AP_GUEST_EXIT_TIMEOUT) (\<lambda>timeout.
     bindE (tell (Info nl)) (\<lambda>_.
     tell (Info (if timeout = 0 then ''AP guest exit loop timed-out'' @ nl else ''all APs exited guests'' @ nl))))))"

text \<open>A processor that the kernel sends back joins again.\<close>

definition rejoin :: "symbols \<Rightarrow> ('d intel, unit) exec" where
  "rejoin sy =
     bindE (count_wfs 1) (\<lambda>_.
     bindE (setmemE (st32 (ap_wake_trigger (tboot_shared sy)) 0)) (\<lambda>_.
     tell (Info (''shutdown(): TB_SHUTDOWN_WFS'' @ nl))))"

definition shutdown :: "'d hw \<Rightarrow> 'd txt_hw \<Rightarrow> 'd vmx_hw \<Rightarrow> symbols \<Rightarrow> ('d intel, unit) exec" where
  "shutdown hw tx vx sy =
     (let typeE = bindE memE (\<lambda>m. returnE (ld32 m (tb_shutdown_type (tboot_shared sy)))) in
      bindE typeE (\<lambda>t.
      bindE (if t = TB_SHUTDOWN_WFS
             then bindE (rejoin sy) (\<lambda>_. wait_for_sipi hw tx vx sy (get_apicid hw))
             else returnE ()) (\<lambda>_.
      bindE (tell (Info (''wait until all APs ready for txt shutdown'' @ nl))) (\<lambda>_.
      bindE (\<lambda>s. case ready_loop tx vx sy s of None \<Rightarrow> (Stop Hang, s) | Some r \<Rightarrow> r) (\<lambda>_.
      bindE typeE (\<lambda>t.
      bindE (if t = TB_SHUTDOWN_S3
             then bindE restore_vtd_dmar_table (\<lambda>_.
                  bindE memE (\<lambda>m.
                  let v = ld64 m (s3_resume_vector (sleep_info_at (acpi_sinfo (tboot_shared sy)))) in
                  bindE (modifyE (\<lambda>s. s\<lparr>kernel_s3_resume_vector := v\<rparr>)) (\<lambda>_.
                  setmemE (memset (s3_key (tboot_shared sy)) 0 64))))
             else returnE ()) (\<lambda>_.
      bindE (is_launched tx) (\<lambda>b.
      bindE (if b
             then bindE use_mwait (\<lambda>mw.
                  bindE (if mw then modifyE (\<lambda>s. s\<lparr>ap_wfs_count := atomic_set (ap_wfs_count s) 0\<rparr>) else leave_guests tx) (\<lambda>_.
                  txt_shutdown hw tx))
             else returnE ()) (\<lambda>_.
      bindE typeE (\<lambda>t. shutdown_system hw tx sy t))))))))))"

definition handle_exception :: "'d hw \<Rightarrow> 'd txt_hw \<Rightarrow> 'd vmx_hw \<Rightarrow> symbols \<Rightarrow> ('d intel, unit) exec" where
  "handle_exception hw tx vx sy =
     bindE (tell (Info (''received exception; shutting down...'' @ nl))) (\<lambda>_.
     bindE (setmemE (st32 (tb_shutdown_type (tboot_shared sy)) TB_SHUTDOWN_REBOOT)) (\<lambda>_.
     shutdown hw tx vx sy))"

end
