(* ===== verification/E820_Reserve.thy ===== *)
theory E820_Reserve
  imports E820_Query
begin

text \<open>
  Reserving a range of RAM in the memory map: \<open>e820_reserve_ram\<close> of \<^verbatim>\<open>src/arch-intel/e820.c\<close> against the
  operation \<open>reserve\<close> on the list of regions, which cuts the RAM regions at the ends of the range.
\<close>

section \<open>Reserving, on regions\<close>

fun carve :: "nat \<Rightarrow> nat \<Rightarrow> region \<Rightarrow> region list" where
  "carve a e (b, l, t) =
     (if t \<noteq> E820_RAM \<or> e \<le> b \<or> b + l \<le> a then [(b, l, t)]
      else (if b < a then [(b, a - b, t)] else []) @ (max a b, min e (b + l) - max a b, E820_RESERVED) #
        (if e < b + l then [(e, b + l - e, t)] else []))"

definition reserve :: "nat \<Rightarrow> nat \<Rightarrow> region list \<Rightarrow> region list" where
  "reserve a e rs = concat (map (carve a e) rs)"

lemma reserve_simps [simp]: "reserve a e [] = []" "reserve a e (r # rs) = carve a e r @ reserve a e rs"
  "reserve a e (rs @ rs') = reserve a e rs @ reserve a e rs'"
  by (simp_all add: reserve_def)

lemma reserve_above: "\<forall>r \<in> set rs. e \<le> fst r \<Longrightarrow> reserve a e rs = rs"
  by (induction rs) (auto split: prod.splits)

lemma reserve_below: "\<forall>r \<in> set rs. fst r + fst (snd r) \<le> a \<Longrightarrow> reserve a e rs = rs"
  by (induction rs) (auto split: prod.splits)

lemma reserve_not_RAM: "\<forall>r \<in> set rs. snd (snd r) \<noteq> E820_RAM \<Longrightarrow> reserve a e rs = rs"
  by (induction rs) (auto split: prod.splits)

lemma type_at_carve:
  assumes "a < e" "covers x (b, l, t)"
  shows "type_at (carve a e (b, l, t) @ rs) x = Some (if a \<le> x \<and> x < e \<and> t = E820_RAM then E820_RESERVED else t)"
  using assms by (auto simp: type_at_def covers_def)

lemma type_at_carve_other:
  assumes "a < e" "\<not> covers x r"
  shows "type_at (carve a e r @ rs) x = type_at rs x"
  using assms by (cases r) (auto simp: type_at_def covers_def)

lemma type_at_reserve:
  assumes "a < e"
  shows "type_at (reserve a e rs) x = (if a \<le> x \<and> x < e \<and> type_at rs x = Some E820_RAM then Some E820_RESERVED else type_at rs x)"
proof (induction rs)
  case (Cons r rs)
  obtain b l t where r: "r = (b, l, t)" by (cases r)
  show ?case
  proof (cases "covers x r")
    case True
    then show ?thesis using type_at_carve [OF assms, of x b l t "reserve a e rs"] unfolding r reserve_simps
      by (simp add: covers_def del: carve.simps)
  next
    case False
    then show ?thesis using Cons type_at_carve_other [OF assms False, of "reserve a e rs"] by (auto simp: r covers_def simp del: carve.simps)
  qed
qed (simp add: type_at_def)

lemma carve_proper: "proper r \<Longrightarrow> a < e \<Longrightarrow> r' \<in> set (carve a e r) \<Longrightarrow>
    proper r' \<and> fst r \<le> fst r' \<and> fst r' + fst (snd r') \<le> fst r + fst (snd r)"
  by (cases r) (auto simp: proper_def split: if_splits)

lemma ordered_carve: "proper r \<Longrightarrow> a < e \<Longrightarrow> ordered (carve a e r)"
  by (cases r) (auto simp: proper_def apart_def split: if_splits)

lemma in_reserve: "r' \<in> set (reserve a e rs) \<longleftrightarrow> (\<exists>r \<in> set rs. r' \<in> set (carve a e r))"
  by (simp add: reserve_def)

lemma ordered_reserve: "ordered rs \<Longrightarrow> a < e \<Longrightarrow> ordered (reserve a e rs)"
proof (induction rs)
  case (Cons r rs)
  have p: "proper r" "ordered rs" "\<forall>r' \<in> set rs. apart r r'" "\<forall>r \<in> set rs. proper r" using Cons.prems(1) by (auto simp: ordered_def)
  have "apart r1 r2" if r1: "r1 \<in> set (carve a e r)" and r2: "r2 \<in> set (reserve a e rs)" for r1 r2
  proof -
    obtain r' where r': "r' \<in> set rs" "r2 \<in> set (carve a e r')" using r2 by (auto simp: in_reserve)
    show ?thesis
      using carve_proper [OF p(1) Cons.prems(2) r1] carve_proper [OF _ Cons.prems(2) r'(2)] p(3,4) r'(1)
      by (fastforce simp: apart_def)
  qed
  then show ?case using Cons p ordered_carve [OF p(1) Cons.prems(2)] by simp
qed (simp add: ordered_def)

section \<open>The loop\<close>

text \<open>The ranges of 64-bit numbers, as natural numbers.\<close>

definition spans :: "u64 \<Rightarrow> u64 \<Rightarrow> nat \<Rightarrow> nat \<Rightarrow> bool" where
  "spans base len a e \<longleftrightarrow> a = unat base \<and> e = unat base + unat len \<and> e < 2 ^ 64 \<and> 0 < len"

lemma spansD:
  assumes "spans base len a e"
  shows "unat base = a" "unat (base + len) = e" "a < e" "unat len = e - a"
  using assms by (auto simp: spans_def u64_add word_less_nat_alt)

text \<open>The first entry is not cut at its beginning.\<close>

definition first_kept :: "nat \<Rightarrow> nat \<Rightarrow> region list \<Rightarrow> bool" where
  "first_kept a e rs = (case rs of [] \<Rightarrow> True
     | (b, l, t) # _ \<Rightarrow> t \<noteq> E820_RAM \<or> b < a \<or> e \<le> b \<or> b + l \<le> e)"

lemma region_nat:
  assumes "ordered (regions s)" "entries s = P @ e # Q"
  shows "unat (end64 e) = unat (e820_base_64 e) + unat (e820_length_64 e)"
    "\<forall>r \<in> set (map region Q). unat (end64 e) \<le> fst r"
    "region e = (unat (e820_base_64 e), unat (e820_length_64 e), mm_type e)" "0 < unat (e820_length_64 e)"
proof -
  have o: "proper (region e)" "\<forall>r \<in> set (map region Q). apart (region e) r" using assms by (simp_all add: regions_def)
  show n: "unat (end64 e) = unat (e820_base_64 e) + unat (e820_length_64 e)" by (rule end64_nat [OF o(1)])
  show "\<forall>r \<in> set (map region Q). unat (end64 e) \<le> fst r" using o(2) n by (simp add: apart_def region_def)
  show "region e = (unat (e820_base_64 e), unat (e820_length_64 e), mm_type e)" by (simp add: region_def)
  show "0 < unat (e820_length_64 e)" using o(1) by (simp add: proper_def region_def)
qed

text \<open>The entries from \<open>i\<close> on start in the range or behind it.\<close>

lemma reserve_loop_rest:
  assumes "entries s = P @ Q" "unat i = length P" "unat (nr_map s) < 256" "ordered (regions s)" "spans base len a e"
    and "\<forall>r \<in> set (map region Q). a \<le> fst r" "P = [] \<Longrightarrow> first_kept a e (map region Q)"
  shows "\<exists>s'. reserve_loop base len i s = Inr (True, s') \<and> regions s' = map region P @ reserve a e (map region Q)"
  using assms
proof (induction Q arbitrary: P i s)
  case Nil
  then have "i = nr_map s" by (simp add: end_split)
  then show ?case using Nil by (subst reserve_loop.simps) (simp add: regions_def)
next
  case (Cons x Q)
  note at = at_split [OF Cons.prems(1,2)] and rn = region_nat [OF Cons.prems(4,1)] and sp = spansD [OF Cons.prems(5)]
  have i1: "unat (i + 1) = length (P @ [y])" for y using u32_next [OF at(1)] Cons.prems(2) by simp
  have ge: "a \<le> unat (e820_base_64 x)" using Cons.prems(6) rn(3) by simp
  have geQ: "\<forall>r \<in> set (map region Q). a \<le> fst r" using Cons.prems(6) by simp
  have nxt: "\<exists>s'. reserve_loop base len (i + 1) t = Inr (True, s') \<and> regions s' = map region (P @ [y]) @ reserve a e (map region Q)"
    if "entries t = (P @ [y]) @ Q" "nr_map t = nr_map s" "ordered (regions t)" for t y
    by (rule Cons.IH [OF that(1) i1 _ that(3) Cons.prems(5) geQ]) (use Cons.prems(3) that(2) in simp_all)
  show ?case
  proof (cases "mm_type x \<noteq> E820_RAM \<or> e \<le> unat (e820_base_64 x)")
    case True
    then have "reserve_loop base len i s = reserve_loop base len (i + 1) s"
      using at sp by (subst reserve_loop.simps) (auto simp: Let_def word_le_nat_alt)
    moreover have "carve a e (region x) = [region x]" using True rn(3) by auto
    ultimately show ?thesis using nxt [of s x] Cons.prems(1,4) by simp
  next
    case False
    show ?thesis
    proof (cases "unat (end64 x) \<le> e")
      case True
      let ?x = "x\<lparr>mm_type := E820_RESERVED\<rparr>" and ?t = "upd_entry i (mm_type_update (\<lambda>_. E820_RESERVED)) s"
      have es: "entries ?t = (P @ [?x]) @ Q" "nr_map ?t = nr_map s"
        using upd_entry_entries [OF at(1)] Cons.prems(1,2) by simp_all
      have rx: "region ?x = (unat (e820_base_64 x), unat (e820_length_64 x), E820_RESERVED)"
        by (simp add: region_def e820_base_64_def e820_length_64_def)
      have "ordered (regions ?t)"
        using Cons.prems(4) rn(3) unfolding regions_split [OF es(1)] regions_split [OF Cons.prems(1)]
        by (simp add: rx) (simp add: proper_def apart_def)
      moreover have "reserve_loop base len i s = reserve_loop base len (i + 1) ?t"
        using at sp ge False True rn(1,4) by (subst reserve_loop.simps) (auto simp: Let_def word_le_nat_alt end64_def)
      moreover have "carve a e (region x) = [region ?x]"
        using False True ge rn by (simp add: rx max_def)
      ultimately show ?thesis using nxt [OF es] by simp
    next
      case False': False
      then have P: "P \<noteq> []" using Cons.prems(7) False ge rn by (auto simp: first_kept_def)
      have i: "0 < i" using P Cons.prems(2) by (simp add: word_gt_0_no word_less_nat_alt)
      have im: "unat (i - 1) + 1 = length P" "i - 1 < nr_map s" using u32_prev [OF i] i Cons.prems(2) at(1) by (simp_all add: word_less_nat_alt)
      obtain b t where ins: "insert_after_region s (i - 1) (e820_base_64 x) (base + len - e820_base_64 x) E820_RESERVED = (b, t)" by force
      let ?n = "new_entry (e820_base_64 x) (base + len - e820_base_64 x) E820_RESERVED"
      note ins' = insert_middle [OF Cons.prems(3) im(2) ins]
      have et: "entries t = (P @ [?n]) @ x # Q" using ins'(4) Cons.prems(1) im by simp
      note at' = at_split [OF et i1]
      let ?x = "set_length (end64 x - (base + len)) (set_base (base + len) x)"
      let ?t = "upd_entry (i + 1) (set_length (end64 x - (base + len))) (upd_entry (i + 1) (set_base (base + len)) t)"
      have es: "entries ?t = P @ ?n # ?x # Q"
        using upd_entry_entries [OF at'(1)] et i1 [of ?n] at'(1) by (simp add: upd_entry_entries list_update_append nth_append)
      have "reserve_loop base len i s = Inr (True, ?t)"
        using at sp ge False False' rn(1) ins ins'(1)
        by (subst reserve_loop.simps) (auto simp: Let_def word_le_nat_alt word_less_nat_alt end64_def)
      moreover have "carve a e (region x) = [region ?n, region ?x]"
        using False False' ge rn sp by (simp add: region_def sub64 word_le_nat_alt max_def)
      moreover have "reserve a e (map region Q) = map region Q" using rn(2) False' by (intro reserve_above) auto
      ultimately show ?thesis using es by (simp add: regions_def)
    qed
  qed
qed

lemma reserve_loop_regions:
  assumes "entries s = P @ Q" "unat i = length P" "unat (nr_map s) < 255" "ordered (regions s)" "spans base len a e"
    and "P = [] \<Longrightarrow> first_kept a e (map region Q)"
  shows "\<exists>s'. reserve_loop base len i s = Inr (True, s') \<and> regions s' = map region P @ reserve a e (map region Q)"
  using assms
proof (induction Q arbitrary: P i s)
  case Nil
  then have "i = nr_map s" by (simp add: end_split)
  then show ?case using Nil by (subst reserve_loop.simps) (simp add: regions_def)
next
  case (Cons x Q)
  note at = at_split [OF Cons.prems(1,2)] and rn = region_nat [OF Cons.prems(4,1)] and sp = spansD [OF Cons.prems(5)]
  have room: "unat (nr_map s) < 256" using Cons.prems(3) by simp
  have i1: "unat (i + 1) = length (P @ [y])" for y using u32_next [OF at(1)] Cons.prems(2) by simp
  consider "a \<le> unat (e820_base_64 x)" | "unat (e820_base_64 x) < a" "mm_type x \<noteq> E820_RAM \<or> unat (end64 x) \<le> a"
    | "unat (e820_base_64 x) < a" "mm_type x = E820_RAM" "a < unat (end64 x)" by linarith
  then show ?case
  proof cases
    case 1
    then have "\<forall>r \<in> set (map region (x # Q)). a \<le> fst r" using rn by auto
    then show ?thesis using Cons.prems room by (intro reserve_loop_rest) auto
  next
    case 2
    then have "reserve_loop base len i s = reserve_loop base len (i + 1) s"
      using at sp by (subst reserve_loop.simps) (auto simp: Let_def word_le_nat_alt end64_def)
    moreover have "carve a e (region x) = [region x]" using 2 rn by auto
    moreover have "\<exists>s'. reserve_loop base len (i + 1) s = Inr (True, s') \<and> regions s' = map region (P @ [x]) @ reserve a e (map region Q)"
      by (rule Cons.IH [OF _ i1 Cons.prems(3-5)]) (use Cons.prems(1) in simp_all)
    ultimately show ?thesis by simp
  next
    case 3
    let ?x = "set_length (base - e820_base_64 x) x" and ?s = "upd_entry i (set_length (base - e820_base_64 x)) s"
    have es: "entries ?s = P @ ?x # Q" "nr_map ?s = nr_map s"
      using upd_entry_entries [OF at(1)] Cons.prems(1,2) by simp_all
    have rx: "region ?x = (unat (e820_base_64 x), a - unat (e820_base_64 x), E820_RAM)"
      using 3 sp by (simp add: region_def sub64 word_le_nat_alt)
    have lt: "i < nr_map ?s" "unat (nr_map ?s) < 256" using at(1) room es(2) by simp_all
    show ?thesis
    proof (cases "unat (end64 x) \<le> e")
      case True
      let ?n = "new_entry base (end64 x - base) E820_RESERVED"
      obtain b t where ins: "insert_after_region ?s i base (end64 x - base) E820_RESERVED = (b, t)" by force
      note ins' = insert_middle [OF lt(2,1) ins]
      have et: "entries t = (P @ [?x, ?n]) @ Q" using ins'(4) es Cons.prems(2) by simp
      have n': "unat (end64 x - base) = unat (end64 x) - a" using 3 sp by (simp add: sub64 word_le_nat_alt)
      have "ordered (regions t)"
        using Cons.prems(4) 3 rn unfolding regions_split [OF et] regions_split [OF Cons.prems(1)]
        by (auto simp: rx n' sp(1) proper_def apart_def)
      moreover have "unat (i + 1 + 1) = length (P @ [?x, ?n])"
        using u32_next [of "i + 1" "nr_map t"] i1 ins'(3) es(2) at(1,3) by (simp add: word_less_nat_alt)
      moreover have "\<forall>r \<in> set (map region Q). a \<le> fst r" using rn(2) 3 by fastforce
      ultimately obtain s' where s': "reserve_loop base len (i + 1 + 1) t = Inr (True, s')"
        "regions s' = map region (P @ [?x, ?n]) @ reserve a e (map region Q)"
        using reserve_loop_rest [OF et, of "i + 1 + 1" base len a e] Cons.prems(3,5) ins'(3) es(2) by auto
      have "reserve_loop base len i s = reserve_loop base len (i + 1 + 1) t"
        using at sp 3 True rn(1) ins ins'(1)
        by (subst reserve_loop.simps) (auto simp: Let_def word_le_nat_alt word_less_nat_alt end64_def)
      moreover have "carve a e (region x) = [region ?x, region ?n]"
        using 3 True rn sp by (simp add: rx n' max_def min_def)
      ultimately show ?thesis using s' by simp
    next
      case False
      let ?n = "new_entry base len E820_RESERVED" and ?r = "new_entry (base + len) (end64 x - (base + len)) E820_RAM"
      obtain b t where ins: "insert_after_region ?s i base len E820_RESERVED = (b, t)" by force
      note ins' = insert_middle [OF lt(2,1) ins]
      have et: "entries t = P @ ?x # ?n # Q" using ins'(4) es Cons.prems(2) by simp
      note at' = at_split [OF et Cons.prems(2)]
      have lt': "i + 1 < nr_map t" "unat (nr_map t) < 256" using at'(3) i1 ins'(3) es(2) Cons.prems(3) by (simp_all add: word_less_nat_alt)
      obtain b' t' where ins2: "insert_after_region t (i + 1) (base + len) (end64 x - (base + len)) E820_RAM = (b', t')" by force
      note ins2' = insert_middle [OF lt'(2,1) ins2]
      have et': "entries t' = P @ ?x # ?n # ?r # Q" using ins2'(4) et i1 by simp
      have "reserve_loop base len i s = Inr (True, t')"
        using at sp 3 False rn(1) ins ins'(1) ins2 ins2'(1) at'(2)
        by (subst reserve_loop.simps) (auto simp: Let_def word_le_nat_alt word_less_nat_alt end64_def)
      moreover have "carve a e (region x) = [region ?x, region ?n, region ?r]"
        using 3 False rn sp by (simp add: rx sub64 word_le_nat_alt max_def min_def)
      moreover have "reserve a e (map region Q) = map region Q" using rn(2) False by (intro reserve_above) auto
      ultimately show ?thesis using et' by (simp add: regions_def)
    qed
  qed
qed

section \<open>The result\<close>

lemma length_carve: "length (carve a e r) \<le> 1 + (if fst r < a \<and> a < fst r + fst (snd r) then 1 else 0) +
    (if fst r < e \<and> e < fst r + fst (snd r) then 1 else 0)"
  by (cases r) auto

lemma one_inside: "ordered rs \<Longrightarrow> length (filter (\<lambda>r. fst r < x \<and> x < fst r + fst (snd r)) rs) \<le> 1"
proof (induction rs)
  case (Cons r rs)
  show ?case
  proof (cases "fst r < x \<and> x < fst r + fst (snd r)")
    case True
    then have "filter (\<lambda>r. fst r < x \<and> x < fst r + fst (snd r)) rs = []"
      using Cons.prems by (auto simp: apart_def filter_empty_conv)
    then show ?thesis by simp
  qed (use Cons in auto)
qed simp

lemma length_reserve: "ordered rs \<Longrightarrow> length (reserve a e rs) \<le> length rs + 2"
proof -
  have "length (reserve a e rs) \<le> length rs + length (filter (\<lambda>r. fst r < a \<and> a < fst r + fst (snd r)) rs) +
      length (filter (\<lambda>r. fst r < e \<and> e < fst r + fst (snd r)) rs)"
  proof (induction rs)
    case (Cons r rs)
    then show ?case using length_carve [of a e r] by (auto split: if_splits)
  qed simp
  moreover assume "ordered rs"
  ultimately show ?thesis using one_inside [of rs a] one_inside [of rs e] by simp
qed

lemma length_regions [simp]: "length (regions s) = unat (nr_map s)"
  by (simp add: regions_def)

lemma e820_reserve_ram_regions:
  assumes "e820_wf (g_e820 s)" "unat (nr_map (g_e820 s)) < 255" "spans base len a e" "first_kept a e (regions (g_e820 s))"
  shows "\<exists>m. e820_reserve_ram base len s = (Ok True, s\<lparr>g_e820 := m\<rparr>) \<and> regions m = reserve a e (regions (g_e820 s)) \<and>
    ordered (regions m) \<and> unat (nr_map m) \<le> unat (nr_map (g_e820 s)) + 2"
proof -
  have o: "ordered (regions (g_e820 s))" using assms(1) by (simp add: e820_wf_def)
  obtain m where m: "reserve_loop base len 0 (g_e820 s) = Inr (True, m)" "regions m = reserve a e (regions (g_e820 s))"
    using reserve_loop_regions [of "g_e820 s" "[]" "entries (g_e820 s)" 0 base len a e] assms(2-4) o
    by (auto simp: regions_def)
  have "len \<noteq> 0" using assms(3) by (auto simp: spans_def)
  then have "e820_reserve_ram base len s = (Ok True, s\<lparr>g_e820 := m\<rparr>)"
    by (simp add: e820_reserve_ram_def on_e820_def bindE_def m(1) returnE_def)
  moreover have "ordered (regions m)" unfolding m(2) using o spansD [OF assms(3)] by (intro ordered_reserve)
  moreover have "unat (nr_map m) \<le> unat (nr_map (g_e820 s)) + 2" using length_reserve [OF o, of a e] m(2) length_regions [of m] by simp
  ultimately show ?thesis using m(2) by blast
qed
end
