(* ===== verification/MDR_Correct.thy ===== *)
theory MDR_Correct
  imports MDR E820_Reserve Linux_Correct "HOL-Library.Multiset"
begin

text \<open>
  The check of the memory map against the memory descriptor records: the table is sorted in place, and
  afterwards no address outside of the good records is RAM.
\<close>

section \<open>The table as a list\<close>

definition table :: "mem \<Rightarrow> u32 \<Rightarrow> nat \<Rightarrow> bytes list" where
  "table m b n = map (\<lambda>i. bytes_at m (mdr_addr b (of_nat i)) 24) [0..<n]"

definition rec_base :: "bytes \<Rightarrow> nat" where "rec_base r = unat (mdr_base (local_mem r) 0)"
definition rec_length :: "bytes \<Rightarrow> nat" where "rec_length r = unat (mdr_length (local_mem r) 0)"

definition rec_le :: "bytes \<Rightarrow> bytes \<Rightarrow> bool" where
  "rec_le r r' \<longleftrightarrow> rec_base r < rec_base r' \<or> rec_base r = rec_base r' \<and> rec_length r \<le> rec_length r'"

lemma rec_le_trans: "rec_le x y \<Longrightarrow> rec_le y z \<Longrightarrow> rec_le x z"
  by (auto simp: rec_le_def)

lemma rec_le_total: "rec_le x y \<or> rec_le y x" and rec_le_refl [simp]: "rec_le x x"
  by (auto simp: rec_le_def)

lemma ld64_local:
  assumes "k + 8 \<le> 24"
  shows "ld64 (local_mem (bytes_at m a 24)) (of_nat k) = ld64 m (a + of_nat k)"
proof -
  have b: "bytes_at (local_mem (bytes_at m a 24)) (of_nat q) 4 = bytes_at m (a + of_nat q) 4" if "q + 4 \<le> 24" for q
    using that by (simp add: bytes_at_def local_mem_def unat_of_nat_u32 flip: of_nat_add) (simp add: add.assoc)
  show ?thesis using b [of k] b [of "k + 4"] assms by (simp add: ld64_def ld32_def add.assoc)
qed

lemma rec_fields:
  "mdr_base (local_mem (bytes_at m a 24)) 0 = mdr_base m a" "mdr_length (local_mem (bytes_at m a 24)) 0 = mdr_length m a"
  using ld64_local [of 0 m a] ld64_local [of 8 m a] by (simp_all add: mdr_base_def mdr_length_def)

lemma table_nth: "i < n \<Longrightarrow> table m b n ! i = bytes_at m (mdr_addr b (of_nat i)) 24"
  by (simp add: table_def)

lemma length_table [simp]: "length (table m b n) = n" "i < n \<Longrightarrow> length (table m b n ! i) = 24"
  by (simp_all add: table_def bytes_at_def)

lemma mdr_addr_nat:
  assumes "i < n" "unat b + 24 * n \<le> 2 ^ 32"
  shows "unat (mdr_addr b (of_nat i)) = unat b + 24 * i"
proof -
  have "mdr_addr b (of_nat i) = of_nat (unat b + 24 * i)" by (simp add: mdr_addr_def)
  then show ?thesis using assms by (simp only: unat_of_nat_u32)
qed

lemma table_poke:
  assumes "length r = 24" "i < n" "unat b + 24 * n \<le> 2 ^ 32"
  shows "table (poke (mdr_addr b (of_nat i)) r m) b n = (table m b n)[i := r]"
proof (rule nth_equalityI)
  fix j assume "j < length (table (poke (mdr_addr b (of_nat i)) r m) b n)"
  then have j: "j < n" by simp
  show "table (poke (mdr_addr b (of_nat i)) r m) b n ! j = (table m b n)[i := r] ! j"
  proof (cases "j = i")
    case True
    then show ?thesis using j assms bytes_at_poke [of r "mdr_addr b (of_nat i)" m] by (simp add: table_nth)
  next
    case False
    note nat = mdr_addr_nat [OF assms(2,3)] mdr_addr_nat [OF j assms(3)]
    have "footprint (mdr_addr b (of_nat j)) 24 \<inter> footprint (mdr_addr b (of_nat i)) 24 = {}"
    proof (cases "i < j")
      case True
      then show ?thesis using footprint_disjoint [of "mdr_addr b (of_nat i)" 24 "mdr_addr b (of_nat j)" 24] j assms(3)
        by (auto simp: nat)
    next
      case False
      then show ?thesis using footprint_disjoint [of "mdr_addr b (of_nat j)" 24 "mdr_addr b (of_nat i)" 24] \<open>j \<noteq> i\<close> assms(2,3)
        by (auto simp: nat)
    qed
    then have "bytes_at (poke (mdr_addr b (of_nat i)) r m) (mdr_addr b (of_nat j)) 24 = bytes_at m (mdr_addr b (of_nat j)) 24"
      using assms(1) by (intro bytes_at_cong poke_outside) auto
    then show ?thesis using False j by (simp add: table_nth)
  qed
qed simp

lemma memcpy_intel_poke:
  assumes "unat dst + n \<le> 2 ^ 32" "unat src + n \<le> 2 ^ 32" "n < 2 ^ 32"
  shows "memcpy_intel dst src (of_nat n) m = poke dst (bytes_at m src n) m"
proof
  fix x
  have l: "length (bytes_at m src n) = n" by (simp add: bytes_at_def)
  have e: "memcpy_intel dst src (of_nat n) m x = (if unat (x - dst) < n then m (src + (x - dst)) else m x)"
    using memcpy_intel_eq [of dst "of_nat n" src m] assms by (simp add: unat_of_nat_u32)
  show "memcpy_intel dst src (of_nat n) m x = poke dst (bytes_at m src n) m x"
  proof (cases "unat (x - dst) < n")
    case True
    have "bytes_at (poke dst (bytes_at m src n) m) dst n ! unat (x - dst) = bytes_at m src n ! unat (x - dst)"
      using bytes_at_poke [of "bytes_at m src n" dst m] assms(3) by (simp add: l)
    then show ?thesis using True e by (simp add: bytes_at_def)
  next
    case False
    then show ?thesis using e poke_outside [of x dst "bytes_at m src n" m] assms(3) by (simp add: l in_footprint)
  qed
qed

section \<open>Sorting\<close>

lemma select_loop_min:
  assumes "j + k \<le> n" "unat b + 24 * n \<le> 2 ^ 32" "tmp = table m b n ! p" "p < n"
  shows "\<exists>q. select_loop m b k (of_nat j) tmp (of_nat p) = (table m b n ! q, of_nat q) \<and> (q = p \<or> j \<le> q \<and> q < j + k) \<and>
    rec_le (table m b n ! q) tmp \<and> (\<forall>x. j \<le> x \<and> x < j + k \<longrightarrow> rec_le (table m b n ! q) (table m b n ! x))"
  using assms
proof (induction k arbitrary: j tmp p)
  case 0
  then show ?case by (intro exI [of _ p]) auto
next
  case (Suc k)
  have j: "j < n" using Suc.prems(1) by simp
  let ?T = "table m b n"
  have f: "rec_base (?T ! x) = unat (mdr_base m (mdr_addr b (of_nat x)))" "rec_length (?T ! x) = unat (mdr_length m (mdr_addr b (of_nat x)))"
    if "x < n" for x using that by (simp_all add: table_nth rec_fields rec_base_def rec_length_def)
  define p' where "p' = (if rec_le tmp (?T ! j) then p else j)"
  have p': "p' < n" "rec_le (?T ! p') tmp" "rec_le (?T ! p') (?T ! j)" using rec_le_total [of tmp "?T ! j"] j Suc.prems by (auto simp: p'_def)
  have "select_loop m b (Suc k) (of_nat j) tmp (of_nat p) = select_loop m b k (of_nat (Suc j)) (?T ! p') (of_nat p')"
    using Suc.prems(3) f [OF j] by (auto simp: p'_def rec_le_def Let_def table_nth [OF j] sizeof_sinit_mdr_t_def add.commute
      rec_base_def rec_length_def word_less_nat_alt word_unat_eq_iff)
  then obtain q where q: "select_loop m b (Suc k) (of_nat j) tmp (of_nat p) = (?T ! q, of_nat q)" "q = p' \<or> Suc j \<le> q \<and> q < Suc j + k"
    "rec_le (?T ! q) (?T ! p')" "\<forall>x. Suc j \<le> x \<and> x < Suc j + k \<longrightarrow> rec_le (?T ! q) (?T ! x)"
    using Suc.IH [of "Suc j" "?T ! p'" p'] Suc.prems(1,2) p'(1) by auto
  have "rec_le (?T ! q) (?T ! x)" if "j \<le> x \<and> x < j + Suc k" for x
    using that q(3,4) p'(3) rec_le_trans by (cases "x = j") auto
  moreover have "q = p \<or> j \<le> q \<and> q < j + Suc k" using q(2) by (auto simp: p'_def split: if_splits)
  moreover have "rec_le (?T ! q) tmp" using q(3) p'(2) rec_le_trans by blast
  ultimately show ?case using q(1) by blast
qed

lemma sort_step:
  assumes "i < n" "unat b + 24 * n \<le> 2 ^ 32" "n < 2 ^ 32"
  shows "\<exists>q m'. sort_loop b (n - i) (of_nat i) m = sort_loop b (n - Suc i) (of_nat (Suc i)) m' \<and> i \<le> q \<and> q < n \<and>
    table m' b n = (table m b n)[q := table m b n ! i, i := table m b n ! q] \<and>
    (\<forall>x. i \<le> x \<and> x < n \<longrightarrow> rec_le (table m b n ! q) (table m b n ! x))"
proof -
  let ?T = "table m b n"
  have k: "n - i = Suc (n - Suc i)" using assms(1) by simp
  obtain q where q: "select_loop m b (n - Suc i) (of_nat (Suc i)) (?T ! i) (of_nat i) = (?T ! q, of_nat q)"
    "q = i \<or> Suc i \<le> q \<and> q < n" "rec_le (?T ! q) (?T ! i)" "\<forall>x. Suc i \<le> x \<and> x < n \<longrightarrow> rec_le (?T ! q) (?T ! x)"
    using select_loop_min [of "Suc i" "n - Suc i" n b "?T ! i" m i] assms by auto
  have qn: "q < n" using q(2) assms(1) by auto
  define m' where "m' = (if q > i then poke (mdr_addr b (of_nat i)) (?T ! q)
      (poke (mdr_addr b (of_nat q)) (?T ! i) m) else m)"
  have t: "table m' b n = ?T[q := ?T ! i, i := ?T ! q]"
    using q(2) qn assms by (auto simp: m'_def table_poke)
  have "(of_nat i :: u32) < of_nat q \<longleftrightarrow> i < q" using assms qn by (simp add: word_less_nat_alt unat_of_nat_u32)
  moreover have "memcpy_intel (mdr_addr b (of_nat q)) (mdr_addr b (of_nat i)) (of_nat 24) m = poke (mdr_addr b (of_nat q)) (?T ! i) m"
    using mdr_addr_nat [OF assms(1,2)] mdr_addr_nat [OF qn assms(2)] assms(1,2) qn
    by (subst memcpy_intel_poke) (auto simp: table_nth)
  ultimately have "sort_loop b (n - i) (of_nat i) m = sort_loop b (n - Suc i) (of_nat (Suc i)) m'"
    using q(1) unfolding k sort_loop.simps
    by (simp add: sizeof_sinit_mdr_t_def table_nth [OF assms(1), symmetric] m'_def add.commute)
  moreover have "\<forall>x. i \<le> x \<and> x < n \<longrightarrow> rec_le (?T ! q) (?T ! x)" using q(3,4) by (metis Suc_leI le_neq_implies_less)
  moreover have "i \<le> q" using q(2) by auto
  ultimately show ?thesis using t qn by blast
qed

lemma sort_loop_sorted:
  assumes "i \<le> n" "unat b + 24 * n \<le> 2 ^ 32" "n < 2 ^ 32" "sorted_wrt rec_le (take i (table m b n))"
    and "\<forall>x y. x < i \<and> i \<le> y \<and> y < n \<longrightarrow> rec_le (table m b n ! x) (table m b n ! y)"
  shows "sorted_wrt rec_le (table (sort_loop b (n - i) (of_nat i) m) b n) \<and>
    mset (table (sort_loop b (n - i) (of_nat i) m) b n) = mset (table m b n)"
  using assms
proof (induction "n - i" arbitrary: i m)
  case 0
  then show ?case by simp
next
  case (Suc k)
  let ?T = "table m b n"
  have i: "i < n" using Suc.hyps(2) by simp
  obtain q m' where q: "sort_loop b (n - i) (of_nat i) m = sort_loop b (n - Suc i) (of_nat (Suc i)) m'" "i \<le> q" "q < n"
    "table m' b n = ?T[q := ?T ! i, i := ?T ! q]" "\<forall>x. i \<le> x \<and> x < n \<longrightarrow> rec_le (?T ! q) (?T ! x)"
    using sort_step [OF i Suc.prems(2,3)] by blast
  let ?T' = "table m' b n"
  have ti: "take (Suc i) ?T' = take i ?T @ [?T ! q]"
    using i q(2,3) by (simp add: q(4) take_Suc_conv_app_nth take_update_cancel)
  have "sorted_wrt rec_le (take (Suc i) ?T')"
    using Suc.prems(4,5) q(2,3) i unfolding ti by (auto simp: sorted_wrt_append in_set_conv_nth)
  moreover have "rec_le (?T' ! x) (?T' ! y)" if xy: "x < Suc i \<and> Suc i \<le> y \<and> y < n" for x y
  proof -
    obtain y' where y': "?T' ! y = ?T ! y'" "i \<le> y'" "y' < n"
      using xy q(2,3) i by (cases "y = q") (auto simp: q(4) nth_list_update)
    show ?thesis
    proof (cases "x = i")
      case True
      then show ?thesis using q(3,5) y' i by (simp add: q(4))
    next
      case False
      then have "?T' ! x = ?T ! x" "x < i" using xy q(2) by (simp_all add: q(4))
      then show ?thesis using Suc.prems(5) y' by simp
    qed
  qed
  ultimately have "sorted_wrt rec_le (table (sort_loop b (n - Suc i) (of_nat (Suc i)) m') b n) \<and>
      mset (table (sort_loop b (n - Suc i) (of_nat (Suc i)) m') b n) = mset ?T'"
    using Suc.hyps(2) i Suc.prems(2,3) by (intro Suc.hyps(1)) auto
  moreover have "mset ?T' = mset ?T" using mset_swap [of i ?T q] i q(3) by (simp add: q(4))
  ultimately show ?case by (simp add: q(1))
qed

lemma sort_loop_table:
  fixes n :: u32
  assumes "unat b + 24 * unat n \<le> 2 ^ 32"
  shows "sorted_wrt rec_le (table (sort_loop b (unat n) 0 m) b (unat n))"
    "mset (table (sort_loop b (unat n) 0 m) b (unat n)) = mset (table m b (unat n))"
  using sort_loop_sorted [of 0 "unat n" b m] assms unat_u32_less [of n] by simp_all

section \<open>Gaps\<close>

definition good :: "bytes \<Rightarrow> bool" where "good r \<longleftrightarrow> local_mem r 16 = 0"

definition within :: "nat \<Rightarrow> bytes \<Rightarrow> bool" where
  "within x r \<longleftrightarrow> good r \<and> rec_base r \<le> x \<and> x < rec_base r + rec_length r"

text \<open>The first region is no RAM, or begins in a good record.\<close>

definition head_ok :: "bytes set \<Rightarrow> region list \<Rightarrow> bool" where
  "head_ok W rs \<longleftrightarrow> rs = [] \<or> snd (snd (hd rs)) \<noteq> E820_RAM \<or> (\<exists>r \<in> W. within (fst (hd rs)) r)"

lemma head_first_kept:
  assumes "head_ok W rs" "\<forall>x r. a \<le> x \<and> x < e \<longrightarrow> r \<in> W \<longrightarrow> \<not> within x r"
  shows "first_kept a e rs"
  using assms by (auto simp: head_ok_def first_kept_def split: list.splits) (meson linorder_not_less)+

lemma head_reserve:
  assumes "head_ok W rs" "\<forall>x r. a \<le> x \<and> x < e \<longrightarrow> r \<in> W \<longrightarrow> \<not> within x r"
  shows "head_ok W (reserve a e rs)"
proof (cases rs)
  case (Cons r rs')
  obtain b l t where r: "r = (b, l, t)" by (cases r)
  show ?thesis
  proof (cases "t = E820_RAM")
    case True
    then obtain w where w: "w \<in> W" "within b w" using assms(1) by (auto simp: head_ok_def Cons r)
    then have "b < a \<or> e \<le> b" using assms(2) by (meson linorder_not_less)
    then have "fst (hd (carve a e r)) = b" "carve a e r \<noteq> []" by (auto simp: r)
    then show ?thesis using w by (auto simp: head_ok_def Cons)
  qed (simp add: head_ok_def Cons r)
qed (simp add: head_ok_def)

lemma table_Cons:
  assumes "i < n"
  shows "drop i (table m b n) = bytes_at m (mdr_addr b (of_nat i)) 24 # drop (Suc i) (table m b n)"
  using assms by (simp add: Cons_nth_drop_Suc [symmetric] table_nth)

definition before :: "bytes \<Rightarrow> bytes \<Rightarrow> bool" where "before r r' \<longleftrightarrow> rec_base r + rec_length r \<le> rec_base r'"

text \<open>The RAM from \<open>a\<close> to \<open>e\<close> that is in no good record is reserved, and nothing else.\<close>

definition reserves :: "bytes set \<Rightarrow> nat \<Rightarrow> nat \<Rightarrow> region list \<Rightarrow> region list \<Rightarrow> bool" where
  "reserves W a e rs rs' \<longleftrightarrow> (\<forall>x. type_at rs' x =
     (if a \<le> x \<and> x < e \<and> (\<forall>r \<in> W. \<not> within x r) \<and> type_at rs x = Some E820_RAM then Some E820_RESERVED else type_at rs x))"

lemma reserves_trans: "reserves W a e rs rs' \<Longrightarrow> reserves W e f rs' rs'' \<Longrightarrow> a \<le> e \<Longrightarrow> e \<le> f \<Longrightarrow> reserves W a f rs rs''"
  unfolding reserves_def by (auto split: if_splits)

lemma reserves_inside: "r \<in> W \<Longrightarrow> good r \<Longrightarrow> reserves W (rec_base r) (rec_base r + rec_length r) rs rs"
  unfolding reserves_def within_def by auto

lemma reserves_empty: "reserves W a a rs rs"
  unfolding reserves_def by auto

lemma reserves_gap: "a < e \<Longrightarrow> \<forall>x r. a \<le> x \<and> x < e \<longrightarrow> r \<in> W \<longrightarrow> \<not> within x r \<Longrightarrow> reserves W a e rs (reserve a e rs)"
  unfolding reserves_def by (auto simp: type_at_reserve)

lemma rec_type: "local_mem (bytes_at m a 24) 16 = mdr_type m a"
  by (simp add: local_mem_def bytes_at_def mdr_type_def)

text \<open>What a step over the gaps leaves.\<close>

definition gap_post :: "bytes list \<Rightarrow> nat \<Rightarrow> nat \<Rightarrow> nat \<Rightarrow> e820 \<Rightarrow> e820 \<Rightarrow> bool" where
  "gap_post T k a e m0 m \<longleftrightarrow> reserves (set T) a e (regions m0) (regions m) \<and> ordered (regions m) \<and>
     unat (nr_map m) \<le> unat (nr_map m0) + 2 * k \<and> head_ok (set T) (regions m)"

lemma reserve_gap:
  fixes base len :: u64
  assumes "\<forall>x r. unat base \<le> x \<and> x < unat base + unat len \<longrightarrow> r \<in> set T \<longrightarrow> \<not> within x r" "unat base + unat len < 2 ^ 64"
    and "e820_wf (g_e820 s)" "unat (nr_map (g_e820 s)) < 255" "head_ok (set T) (regions (g_e820 s))"
  shows "\<exists>m. (if len > 0 then e820_reserve_ram base len else returnE True) s = (Ok True, s\<lparr>g_e820 := m\<rparr>) \<and>
    gap_post T 1 (unat base) (unat base + unat len) (g_e820 s) m"
proof (cases "len > 0")
  case True
  then have sp: "spans base len (unat base) (unat base + unat len)" using assms(2) by (simp add: spans_def)
  note kept = head_first_kept [OF assms(5,1)]
  obtain m where "e820_reserve_ram base len s = (Ok True, s\<lparr>g_e820 := m\<rparr>)" "ordered (regions m)"
    and m: "regions m = reserve (unat base) (unat base + unat len) (regions (g_e820 s))" "unat (nr_map m) \<le> unat (nr_map (g_e820 s)) + 2"
    using e820_reserve_ram_regions [OF assms(3,4) sp kept] by blast
  then show ?thesis
    using True reserves_gap [OF spansD(3) [OF sp] assms(1), of "regions (g_e820 s)"] head_reserve [OF assms(5,1)] by (auto simp: gap_post_def)
next
  case False
  then have "len = 0" by (simp add: word_gt_0)
  then show ?thesis using assms(3,5) by (intro exI [of _ "g_e820 s"]) (auto simp: gap_post_def reserves_empty returnE_def e820_wf_def)
qed

lemma gap_post_trans:
  assumes "gap_post T k a e m0 m" "gap_post T k' e f m m'" "a \<le> e" "e \<le> f"
  shows "gap_post T (k + k') a f m0 m'"
  using assms reserves_trans [of "set T" a e "regions m0" "regions m" f "regions m'"] by (auto simp: gap_post_def)

lemma gap_post_mono: "gap_post T k a e m0 m \<Longrightarrow> k \<le> k' \<Longrightarrow> gap_post T k' a e m0 m"
  by (auto simp: gap_post_def)

lemma gap_post_inside:
  "r \<in> set T \<Longrightarrow> good r \<Longrightarrow> gap_post T k a (rec_base r) m0 m \<Longrightarrow> a \<le> rec_base r \<Longrightarrow> gap_post T k a (rec_base r + rec_length r) m0 m"
  using reserves_trans [OF _ reserves_inside [of r "set T" "regions m"]] by (auto simp: gap_post_def)

lemma gaps_loop_regions:
  fixes base :: u64
  assumes "table (i_mem s) b n = T" "i \<le> n" "sorted_wrt before (filter good (drop i T))"
    and "\<forall>r \<in> set T. good r \<longrightarrow> rec_base r + rec_length r < 2 ^ 64"
    and "\<forall>r \<in> set (drop i T). good r \<longrightarrow> unat base \<le> rec_base r"
    and "\<forall>r \<in> set (take i T). good r \<longrightarrow> rec_base r + rec_length r \<le> unat base"
    and "e820_wf (g_e820 s)" "unat (nr_map (g_e820 s)) + 2 * (n - i) < 255" "head_ok (set T) (regions (g_e820 s))"
  shows "\<exists>m base'. gaps_loop b (n - i) (of_nat i) base s = (Ok (Some base'), s\<lparr>g_e820 := m\<rparr>) \<and> unat base \<le> unat base' \<and>
    (\<forall>r \<in> set T. good r \<longrightarrow> rec_base r + rec_length r \<le> unat base') \<and> gap_post T (n - i) (unat base) (unat base') (g_e820 s) m"
  using assms
proof (induction "n - i" arbitrary: i base s)
  case 0
  then show ?case
    by (intro exI [of _ "g_e820 s"] exI [of _ base]) (auto simp: returnE_def e820_wf_def gap_post_def reserves_empty)
next
  case (Suc k)
  have i: "i < n" and k: "n - i = Suc (n - Suc i)" and kk: "k = n - Suc i" using Suc.hyps(2) by simp_all
  define r where "r = T ! i"
  let ?a = "mdr_addr b (of_nat i)" and ?m = "i_mem s"
  have lT: "length T = n" using Suc.prems(1) by auto
  have r: "r = bytes_at ?m ?a 24" "r \<in> set T" "drop i T = r # drop (Suc i) T" "take (Suc i) T = take i T @ [r]"
    using i lT Suc.prems(1) table_nth [OF i, of ?m b] nth_mem [of i T] Cons_nth_drop_Suc [of i T, symmetric]
    by (simp_all add: r_def take_Suc_conv_app_nth del: nth_mem)
  have rf: "unat (mdr_base ?m ?a) = rec_base r" "unat (mdr_length ?m ?a) = rec_length r" "mdr_type ?m ?a > 0 \<longleftrightarrow> \<not> good r"
    by (auto simp: r(1) rec_base_def rec_length_def rec_fields good_def rec_type word_gt_0)
  have j: "of_nat i + 1 = (of_nat (Suc i) :: u32)" by simp
  show ?case
  proof (cases "good r")
    case False
    have "gaps_loop b (n - i) (of_nat i) base s = gaps_loop b (n - Suc i) (of_nat (Suc i)) base s"
      using False rf(3) unfolding k gaps_loop.simps j by (simp add: bindE_def memE_def getE_def Let_def)
    moreover have "\<exists>m base'. gaps_loop b (n - Suc i) (of_nat (Suc i)) base s = (Ok (Some base'), s\<lparr>g_e820 := m\<rparr>) \<and> unat base \<le> unat base' \<and>
        (\<forall>r \<in> set T. good r \<longrightarrow> rec_base r + rec_length r \<le> unat base') \<and> gap_post T (n - Suc i) (unat base) (unat base') (g_e820 s) m"
      by (rule Suc.hyps(1)) (use Suc.hyps(2) Suc.prems r(3,4) False i in auto)
    ultimately show ?thesis using gap_post_mono [of T "n - Suc i" _ _ _ _ "n - i"] by (metis Suc_n_not_le_n diff_le_mono2 nat_le_linear)
  next
    case True
    have le: "unat base \<le> rec_base r" using Suc.prems(5) True r(3) by simp
    define len where "len = mdr_base ?m ?a - base"
    have len: "unat base + unat len = rec_base r" using le rf(1) by (simp add: len_def sub64 word_le_nat_alt)
    have bef: "\<forall>r' \<in> set (drop (Suc i) T). good r' \<longrightarrow> before r r'" using Suc.prems(3) True r(3) by simp
    have gap: "\<forall>x r'. unat base \<le> x \<and> x < unat base + unat len \<longrightarrow> r' \<in> set T \<longrightarrow> \<not> within x r'"
    proof (intro allI impI notI)
      fix x r' assume x: "unat base \<le> x \<and> x < unat base + unat len" "r' \<in> set T" "within x r'"
      have "T = take i T @ r # drop (Suc i) T" using r(3) append_take_drop_id [of i T] by simp
      then have "r' \<in> set (take i T) \<or> r' = r \<or> r' \<in> set (drop (Suc i) T)" using x(2) by (metis Un_iff set_ConsD set_append)
      then show False using x(1,3) Suc.prems(6) bef len by (auto simp: within_def before_def)
    qed
    have fit: "rec_base r + rec_length r < 2 ^ 64" using Suc.prems(4) True r(2) by blast
    have room: "unat (nr_map (g_e820 s)) < 255" "unat base + unat len < 2 ^ 64" using Suc.prems(8) fit len by simp_all
    obtain m1 where m1: "(if len > 0 then e820_reserve_ram base len else returnE True) s = (Ok True, s\<lparr>g_e820 := m1\<rparr>)"
      "gap_post T 1 (unat base) (unat base + unat len) (g_e820 s) m1"
      using reserve_gap [OF gap room(2) Suc.prems(7) room(1) Suc.prems(9)] by blast
    define base1 where "base1 = mdr_base ?m ?a + mdr_length ?m ?a"
    have b1: "unat base1 = rec_base r + rec_length r" using fit rf by (simp add: base1_def u64_add)
    let ?s = "s\<lparr>g_e820 := m1\<rparr>"
    have post: "gap_post T 1 (unat base) (unat base1) (g_e820 s) m1"
      using gap_post_inside [OF r(2) True _ le] m1(2) len b1 by simp
    have "e820_wf m1" "unat (nr_map m1) + 2 * (n - Suc i) < 255" "head_ok (set T) (regions m1)"
      using post Suc.prems(8) i by (auto simp: gap_post_def e820_wf_def)
    moreover have "\<forall>r' \<in> set (take (Suc i) T). good r' \<longrightarrow> rec_base r' + rec_length r' \<le> unat base1"
      using Suc.prems(6) le by (auto simp: r(4) b1)
    ultimately obtain m base' where IH: "gaps_loop b (n - Suc i) (of_nat (Suc i)) base1 ?s = (Ok (Some base'), ?s\<lparr>g_e820 := m\<rparr>)"
      "unat base1 \<le> unat base'" "\<forall>r \<in> set T. good r \<longrightarrow> rec_base r + rec_length r \<le> unat base'"
      "gap_post T (n - Suc i) (unat base1) (unat base') m1 m"
      using Suc.hyps(1) [of "Suc i" ?s base1] kk Suc.prems(1,3,4) i r(3) True bef b1 by (auto simp: before_def)
    have "gaps_loop b (n - i) (of_nat i) base s = gaps_loop b (n - Suc i) (of_nat (Suc i)) base1 ?s"
      using True rf(3) m1(1) unfolding k gaps_loop.simps j
      by (auto simp: bindE_def memE_def getE_def Let_def len_def [symmetric] base1_def split: if_splits)
    moreover have "gap_post T (n - i) (unat base) (unat base') (g_e820 s) m"
      using gap_post_trans [OF post IH(4)] IH(2) le b1 k by simp
    ultimately show ?thesis using IH le b1 by (intro exI [of _ m] exI [of _ base']) auto
  qed
qed

section \<open>The map after the check\<close>

definition disjoint_recs :: "bytes \<Rightarrow> bytes \<Rightarrow> bool" where
  "disjoint_recs r r' \<longleftrightarrow> before r r' \<or> before r' r"

lemma sorted_wrt_perm:
  assumes "\<And>x y. R x y \<Longrightarrow> R y x" "sorted_wrt R xs" "mset xs = mset ys"
  shows "sorted_wrt R ys"
  using assms(2,3)
proof (induction xs arbitrary: ys)
  case (Cons x xs)
  then have "x \<in> set ys" by (metis list.set_intros(1) mset_eq_setD)
  then obtain us vs where ys: "ys = us @ x # vs" by (auto dest: split_list)
  then have m: "mset xs = mset (us @ vs)" using Cons.prems(2) by simp
  have "sorted_wrt R (us @ vs)" using Cons.IH [OF _ m] Cons.prems(1) by simp
  moreover have "set xs = set (us @ vs)" by (rule mset_eq_setD [OF m])
  ultimately show ?case using Cons.prems(1) assms(1) by (auto simp: ys sorted_wrt_append)
qed simp

lemma sorted_records:
  assumes "sorted_wrt rec_le T" "sorted_wrt disjoint_recs T" "\<forall>r \<in> set T. 0 < rec_length r"
  shows "sorted_wrt before T"
  using assms by (induction T) (auto simp: rec_le_def disjoint_recs_def before_def, force+)

lemma verify_e820_map_run:
  fixes s :: "'d intel"
  assumes "T = table (i_mem s) mdrs (unat n)" "mdrs \<noteq> 0" "n \<noteq> 0" "unat mdrs + 24 * unat n \<le> 2 ^ 32"
    and "\<forall>r \<in> set T. good r \<longrightarrow> 0 < rec_length r \<and> rec_base r + rec_length r < 2 ^ 64" "sorted_wrt disjoint_recs (filter good T)"
    and "e820_wf (g_e820 s)" "unat (nr_map (g_e820 s)) + 2 * unat n < 255" "head_ok (set T) (regions (g_e820 s))"
  shows "\<exists>s'. verify_e820_map mdrs n s = (Ok True, s') \<and> ordered (regions (g_e820 s')) \<and>
    (\<forall>x < 2 ^ 64 - 1. type_at (regions (g_e820 s')) x =
      (if type_at (regions (g_e820 s)) x = Some E820_RAM \<and> (\<forall>r \<in> set T. \<not> within x r) then Some E820_RESERVED
       else type_at (regions (g_e820 s)) x)) \<and>
    sorted_wrt rec_le (table (i_mem s') mdrs (unat n)) \<and> mset (table (i_mem s') mdrs (unat n)) = mset T"
proof -
  define m1 where "m1 = sort_loop mdrs (unat n) 0 (i_mem s)"
  define s1 where "s1 = s\<lparr>i_world := (i_world s)\<lparr>w_mem := m1\<rparr>\<rparr>"
  define T1 where "T1 = table m1 mdrs (unat n)"
  have T1: "sorted_wrt rec_le T1" "mset T1 = mset T"
    using sort_loop_table [OF assms(4), of "i_mem s"] by (simp_all add: T1_def m1_def assms(1))
  then have set: "set T1 = set T" by (metis set_mset_mset)
  have "sorted_wrt disjoint_recs (filter good T1)"
    by (rule sorted_wrt_perm [OF _ assms(6)]) (auto simp: disjoint_recs_def T1(2) mset_filter)
  then have bef: "sorted_wrt before (filter good T1)"
    using T1(1) assms(5) set by (intro sorted_records) (auto simp: sorted_wrt_filter)
  have "\<exists>m base'. gaps_loop mdrs (unat n - 0) (of_nat 0) 0 s1 = (Ok (Some base'), s1\<lparr>g_e820 := m\<rparr>) \<and> unat (0 :: u64) \<le> unat base' \<and>
      (\<forall>r \<in> set T1. good r \<longrightarrow> rec_base r + rec_length r \<le> unat base') \<and> gap_post T1 (unat n - 0) (unat (0 :: u64)) (unat base') (g_e820 s1) m"
    by (rule gaps_loop_regions) (use bef assms(5,7-9) set in \<open>auto simp: s1_def T1_def\<close>)
  then obtain m base' where lp: "gaps_loop mdrs (unat n) 0 0 s1 = (Ok (Some base'), s1\<lparr>g_e820 := m\<rparr>)"
    and ends: "\<forall>r \<in> set T. good r \<longrightarrow> rec_base r + rec_length r \<le> unat base'"
    and post: "gap_post T1 (unat n) 0 (unat base') (g_e820 s) m"
    by (auto simp: set s1_def)
  define len where "len = - 1 - base'"
  have len: "unat base' + unat len = 2 ^ 64 - 1"
    by (simp add: len_def sub64 unsigned_minus_1_eq_mask mask_eq_exp_minus_1) (use unat_u64_less [of base'] in simp)
  let ?s = "s1\<lparr>g_e820 := m\<rparr>"
  have "\<exists>m'. (if len > 0 then e820_reserve_ram base' len else returnE True) ?s = (Ok True, ?s\<lparr>g_e820 := m'\<rparr>) \<and>
      gap_post T1 1 (unat base') (unat base' + unat len) (g_e820 ?s) m'"
    by (rule reserve_gap) (use ends set post assms(8) len in \<open>auto simp: within_def gap_post_def e820_wf_def\<close>)
  then obtain m' where fin: "e820_reserve_ram base' len ?s = (Ok True, ?s\<lparr>g_e820 := m'\<rparr>)" "gap_post T1 1 (unat base') (2 ^ 64 - 1) m m'"
    by (auto simp: len e820_reserve_ram_def word_gt_0 split: if_splits)
  have run: "verify_e820_map mdrs n s = (Ok True, ?s\<lparr>g_e820 := m'\<rparr>)"
    using assms(2,3) lp fin(1) by (simp add: verify_e820_map_def bindE_def setmemE_def on_world_def modifyE_def
      s1_def [symmetric] m1_def [symmetric] len_def)
  have "gap_post T1 (unat n + 1) 0 (2 ^ 64 - 1) (g_e820 s) m'"
    by (rule gap_post_trans [OF post fin(2)]) (use unat_u64_less [of base'] in simp_all)
  then show ?thesis
    using run T1 set by (intro exI [of _ "?s\<lparr>g_e820 := m'\<rparr>"]) (auto simp: gap_post_def reserves_def s1_def T1_def)
qed

text \<open>
  C7: \<open>verify_e820_map\<close> leaves only RAM that a good record of the SINIT module covers. For a table of
  disjoint good records and a map with room whose first entry is no RAM or begins in a good record, it
  succeeds; every address below \<open>2 ^ 64 - 1\<close> that was RAM and is in no good record is reserved, every other
  address keeps its type, the map stays in order, and the table is sorted and has the same records.
\<close>

theorem verify_e820_map_reserves:
  fixes s :: "'d intel"
  assumes "T = table (i_mem s) mdrs (unat n)" "mdrs \<noteq> 0" "n \<noteq> 0" "unat mdrs + 24 * unat n \<le> 2 ^ 32"
    and "\<forall>r \<in> set T. good r \<longrightarrow> 0 < rec_length r \<and> rec_base r + rec_length r < 2 ^ 64" "sorted_wrt disjoint_recs (filter good T)"
    and "e820_wf (g_e820 s)" "unat (nr_map (g_e820 s)) + 2 * unat n < 255" "head_ok (set T) (regions (g_e820 s))"
  shows "\<exists>s'. verify_e820_map mdrs n s = (Ok True, s') \<and> ordered (regions (g_e820 s')) \<and>
    (\<forall>x < 2 ^ 64 - 1. type_at (regions (g_e820 s')) x =
      (if type_at (regions (g_e820 s)) x = Some E820_RAM \<and> (\<forall>r \<in> set T. \<not> within x r) then Some E820_RESERVED
       else type_at (regions (g_e820 s)) x)) \<and>
    sorted_wrt rec_le (table (i_mem s') mdrs (unat n)) \<and> mset (table (i_mem s') mdrs (unat n)) = mset T"
  by (rule verify_e820_map_run [OF assms])

definition mdr_mem :: mem where "mdr_mem a = (if a = 0x500a then 0x18 else 0)"

definition mdr_state :: "nat sim intel" where
  "mdr_state = (sim_intel mdr_mem (0 :: nat))\<lparr>g_e820 := pc_map\<rparr>"

lemma mdr_table:
  "table mdr_mem 0x5000 1 = [bytes_at mdr_mem 0x5000 24]" "good (bytes_at mdr_mem 0x5000 24)"
  "rec_base (bytes_at mdr_mem 0x5000 24) = 0" "rec_length (bytes_at mdr_mem 0x5000 24) = 0x180000"
proof -
  have l: "ld32 mdr_mem 0x5000 = 0" "ld32 mdr_mem 0x5004 = 0" "ld32 mdr_mem 0x5008 = 0x180000" "ld32 mdr_mem 0x500c = 0"
    unfolding ld32_def bytes_at_4 by (simp_all add: mdr_mem_def of_le32_def)
  show "table mdr_mem 0x5000 1 = [bytes_at mdr_mem 0x5000 24]" by (simp add: table_def mdr_addr_def)
  show "good (bytes_at mdr_mem 0x5000 24)" by (simp add: good_def rec_type mdr_type_def mdr_mem_def)
  show "rec_base (bytes_at mdr_mem 0x5000 24) = 0" "rec_length (bytes_at mdr_mem 0x5000 24) = 0x180000"
    unfolding rec_base_def rec_length_def rec_fields by (simp_all add: mdr_base_def mdr_length_def ld64_def l combine64b_def)
qed

theorem verify_e820_map_reserves_witness:
  "\<exists>s'. verify_e820_map 0x5000 1 mdr_state = (Ok True, s') \<and>
    type_at (regions (g_e820 s')) 0x17ffff = Some E820_RAM \<and> type_at (regions (g_e820 s')) 0x180000 = Some E820_RESERVED"
proof -
  have st: "g_e820 mdr_state = pc_map" "i_mem mdr_state = mdr_mem" by (simp_all add: mdr_state_def)
  have T: "[bytes_at mdr_mem 0x5000 24] = table (i_mem mdr_state) 0x5000 (unat (1 :: u32))" using mdr_table(1) by (simp add: st)
  have g: "\<forall>r \<in> set [bytes_at mdr_mem 0x5000 24]. good r \<longrightarrow> 0 < rec_length r \<and> rec_base r + rec_length r < 2 ^ 64"
    "sorted_wrt disjoint_recs (filter good [bytes_at mdr_mem 0x5000 24])" using mdr_table(2-) by simp_all
  have h: "e820_wf (g_e820 mdr_state)" "unat (nr_map (g_e820 mdr_state)) + 2 * unat (1 :: u32) < 255"
    "head_ok (set [bytes_at mdr_mem 0x5000 24]) (regions (g_e820 mdr_state))"
    using mdr_table(2-) by (auto simp: st pc_map_wf pc_map_regions head_ok_def within_def) (simp add: pc_map_def)
  obtain s' where "verify_e820_map 0x5000 1 mdr_state = (Ok True, s')"
    and t: "\<forall>x < 2 ^ 64 - 1. type_at (regions (g_e820 s')) x =
      (if type_at (regions (g_e820 mdr_state)) x = Some E820_RAM \<and> (\<forall>r \<in> set [bytes_at mdr_mem 0x5000 24]. \<not> within x r)
       then Some E820_RESERVED else type_at (regions (g_e820 mdr_state)) x)"
    using verify_e820_map_reserves [OF T _ _ _ g h] by fastforce
  then show ?thesis using mdr_table(2-) by (auto simp: st pc_map_regions within_def)
qed
end
