(* ===== verification/TXT_Correct.thy ===== *)
theory TXT_Correct
  imports TXT_Launch MDR_Correct
begin

text \<open>
  Proofs on the launch of the measured environment (\<^verbatim>\<open>src/arch-intel/txt.c\<close>): what the memory map says after
  \<open>txt_protect_mem_regions\<close>.
\<close>

section \<open>Protected regions\<close>

lemma length_protect:
  assumes "ordered rs"
  shows "length (protect a l t rs) \<le> length rs + 2"
proof -
  have "length (below a rs) + length (above (a + l) rs) \<le> length rs + length (filter (\<lambda>r. fst r < a \<and> a < fst r + fst (snd r)) rs)"
    by (induction rs) auto
  then show ?thesis using one_inside [OF assms, of a] by (simp add: protect_def)
qed

lemma hd_protect:
  assumes "rs \<noteq> []" "fst (hd rs) < a"
  shows "protect a l t rs \<noteq> [] \<and> fst (hd (protect a l t rs)) = fst (hd rs) \<and> snd (snd (hd (protect a l t rs))) = snd (snd (hd rs))"
  using assms by (cases rs) (auto simp: protect_def)

lemma protect_run:
  assumes "e820_wf (g_e820 s)" "unat (nr_map (g_e820 s)) < 250" "regions (g_e820 s) \<noteq> []" "fst (hd (regions (g_e820 s))) < unat a"
    and "0 < l" "unat a + unat l < 2 ^ 64"
  shows "\<exists>m. e820_protect_region a l E820_RESERVED s = (Ok True, s\<lparr>g_e820 := m\<rparr>) \<and>
    regions m = protect (unat a) (unat l) E820_RESERVED (regions (g_e820 s)) \<and> e820_wf m \<and> unat (nr_map m) \<le> unat (nr_map (g_e820 s)) + 2"
proof -
  let ?e = "g_e820 s"
  have hd: "e820_base_64 (entry_at ?e 0) < a"
  proof -
    have "0 < nr_map ?e" using assms(3) length_regions [of ?e] by (simp add: word_less_nat_alt flip: length_greater_0_conv)
    then have "region (entry_at ?e 0) = hd (regions ?e)"
      using assms(3) entries_nth [of 0 ?e] by (cases "entries ?e") (auto simp: regions_def)
    then have "unat (e820_base_64 (entry_at ?e 0)) = fst (hd (regions ?e))" by (metis fst_conv region_def)
    then show ?thesis using assms(4) by (simp add: word_less_nat_alt)
  qed
  obtain m where m: "protect_region a l E820_RESERVED ?e = (True, m)" "regions m = protect (unat a) (unat l) E820_RESERVED (regions ?e)"
    using protect_region_regions [OF assms(1) _ assms(5,6)] hd assms(2) by force
  have ord: "ordered (regions ?e)" using assms(1) by (simp add: e820_wf_def)
  have "ordered (regions m)" unfolding m(2) using assms ord by (intro ordered_protect) (auto simp: word_less_nat_alt)
  moreover have len: "unat (nr_map m) \<le> unat (nr_map ?e) + 2"
    using length_protect [OF ord, of "unat a" "unat l" E820_RESERVED] m(2) by (metis length_regions)
  ultimately have "e820_wf m" using assms(2) by (simp add: e820_wf_def)
  then show ?thesis using m len by (auto simp: e820_protect_region_def on_e820_def)
qed

lemma read_fixed:
  assumes "fixed_registers tx rv"
  shows "read_pub_config_reg tx reg s = (Ok (rv (0xfed30000 + reg)), s)"
  using assms by (simp add: read_pub_config_reg_def read_config_reg_def on_device_def on_world_def on_dev_def fixed_registers_def)

lemma get_txt_heap_fixed: "fixed_registers tx rv \<Longrightarrow> get_txt_heap tx s = (Ok (ucast (rv (0xfed30000 + TXTCR_HEAP_BASE))), s)"
  by (simp add: get_txt_heap_def bindE_def read_fixed returnE_def)

text \<open>What the three calls of \<open>e820_protect_region\<close> give, one after the other.\<close>

primrec protects :: "(u64 \<times> u64) list \<Rightarrow> region list \<Rightarrow> region list" where
  "protects [] rs = rs"
| "protects (r # ps) rs = protects ps (protect (unat (fst r)) (unat (snd r)) E820_RESERVED rs)"

definition in_range :: "nat \<Rightarrow> u64 \<times> u64 \<Rightarrow> bool" where
  "in_range x r \<longleftrightarrow> unat (fst r) \<le> x \<and> x < unat (fst r) + unat (snd r)"

lemma type_at_protects:
  "type_at (protects ps rs) x = (if \<exists>p \<in> set ps. in_range x p then Some E820_RESERVED else type_at rs x)"
  by (induction ps arbitrary: rs) (auto simp: type_at_protect in_range_def)

text \<open>
  C8: The memory map after the launch: \<open>txt_protect_mem_regions\<close> succeeds, and from then on an address below
  2^64 - 1 is RAM exactly when it was RAM before, is in none of the three protected ranges (the TXT heap, the SINIT
  module, the private registers), and a good record of the SINIT module covers it. The conditions: the
  configuration registers keep their values; the map is in order, not empty and has six free entries and
  two more for each record; the protected ranges are not empty, do not wrap around and begin behind the base
  of the first entry of the map; the table of records is there, does not wrap around, and its good records
  are not empty, do not wrap around and are disjoint; and (\<open>head_ok\<close>) the first entry of the map is no RAM
  or its first address lies in a good record. The last condition leaves out the case in which the code
  fails: to reserve the start of a first entry that is RAM it inserts in front of it, at position -1,
  which overwrites the entry (\<^verbatim>\<open>e820.c\<close>, line 479).
\<close>

theorem txt_protect_mem_regions_RAM:
  fixes s :: "'d intel"
  assumes rv: "fixed_registers tx rv" and wf: "e820_wf (g_e820 s)" "regions (g_e820 s) \<noteq> []"
    and ps: "ps = [(rv (0xfed30000 + TXTCR_HEAP_BASE), rv (0xfed30000 + TXTCR_HEAP_SIZE)),
      (rv (0xfed30000 + TXTCR_SINIT_BASE), rv (0xfed30000 + TXTCR_SINIT_SIZE)), (0xfed20000, 0x10000)]"
    and fit: "\<forall>(a, l) \<in> set ps. fst (hd (regions (g_e820 s))) < unat a \<and> 0 < l \<and> unat a + unat l < 2 ^ 64"
    and d: "d = get_sinit_mle_data_start (i_mem s) (ucast (rv (0xfed30000 + TXTCR_HEAP_BASE)))"
    and mdrs: "mdrs = d - 8 + ld32 (i_mem s) (mdrs_off (sinit_mle_at d))" "n = ld32 (i_mem s) (num_mdrs (sinit_mle_at d))"
    and T: "T = table (i_mem s) mdrs (unat n)" "mdrs \<noteq> 0" "n \<noteq> 0" "unat mdrs + 24 * unat n \<le> 2 ^ 32"
      "\<forall>r \<in> set T. good r \<longrightarrow> 0 < rec_length r \<and> rec_base r + rec_length r < 2 ^ 64" "sorted_wrt disjoint_recs (filter good T)"
    and room: "unat (nr_map (g_e820 s)) + 6 + 2 * unat n < 250" and head: "head_ok (set T) (regions (g_e820 s))"
  shows "\<exists>s'. txt_protect_mem_regions tx s = (Ok 0, s') \<and>
    (\<forall>x < 2 ^ 64 - 1. type_at (regions (g_e820 s')) x = Some E820_RAM \<longleftrightarrow>
      type_at (regions (g_e820 s)) x = Some E820_RAM \<and> (\<forall>p \<in> set ps. \<not> in_range x p) \<and> (\<exists>r \<in> set T. within x r))"
proof -
  let ?a = "\<lambda>i. fst (ps ! i)" and ?l = "\<lambda>i. snd (ps ! i)"
  have fit': "fst (hd (regions (g_e820 s))) < unat (?a i)" "0 < ?l i" "unat (?a i) + unat (?l i) < 2 ^ 64" if "i < 3" for i
    using fit nth_mem [of i ps] that by (auto simp: ps case_prod_unfold simp del: nth_mem)
  obtain m1 where m1: "e820_protect_region (?a 0) (?l 0) E820_RESERVED s = (Ok True, s\<lparr>g_e820 := m1\<rparr>)"
      "regions m1 = protect (unat (?a 0)) (unat (?l 0)) E820_RESERVED (regions (g_e820 s))" "e820_wf m1" "unat (nr_map m1) \<le> unat (nr_map (g_e820 s)) + 2"
    using protect_run [OF wf(1) _ wf(2) fit'(1) fit'(2,3)] room by force
  note h1 = hd_protect [OF wf(2) fit'(1) [of 0], of "unat (?l 0)" E820_RESERVED, folded m1(2)]
  obtain m2 where m2: "e820_protect_region (?a 1) (?l 1) E820_RESERVED (s\<lparr>g_e820 := m1\<rparr>) = (Ok True, s\<lparr>g_e820 := m2\<rparr>)"
      "regions m2 = protect (unat (?a 1)) (unat (?l 1)) E820_RESERVED (regions m1)" "e820_wf m2" "unat (nr_map m2) \<le> unat (nr_map m1) + 2"
    using protect_run [of "s\<lparr>g_e820 := m1\<rparr>" "?a 1" "?l 1"] m1 room h1 fit' [of 1] by force
  have h2: "regions m2 \<noteq> [] \<and> fst (hd (regions m2)) = fst (hd (regions m1)) \<and> snd (snd (hd (regions m2))) = snd (snd (hd (regions m1)))"
    unfolding m2(2) by (rule hd_protect) (use h1 fit' [of 1] in auto)
  obtain m3 where m3: "e820_protect_region (?a 2) (?l 2) E820_RESERVED (s\<lparr>g_e820 := m2\<rparr>) = (Ok True, s\<lparr>g_e820 := m3\<rparr>)"
      "regions m3 = protect (unat (?a 2)) (unat (?l 2)) E820_RESERVED (regions m2)" "e820_wf m3" "unat (nr_map m3) \<le> unat (nr_map m2) + 2"
    using protect_run [of "s\<lparr>g_e820 := m2\<rparr>" "?a 2" "?l 2"] m1 m2 room h1 h2 fit' [of 2] by force
  have h3: "regions m3 \<noteq> [] \<and> fst (hd (regions m3)) = fst (hd (regions m2)) \<and> snd (snd (hd (regions m3))) = snd (snd (hd (regions m2)))"
    unfolding m3(2) by (rule hd_protect) (use h1 h2 fit' [of 2] in auto)
  let ?s = "s\<lparr>g_e820 := m3\<rparr>"
  have "regions m3 = protects ps (regions (g_e820 s))" unfolding m3(2) m2(2) m1(2) by (simp add: ps)
  then have ty: "type_at (regions m3) x = (if \<exists>p \<in> set ps. in_range x p then Some E820_RESERVED else type_at (regions (g_e820 s)) x)" for x
    by (simp only: type_at_protects)
  have "head_ok (set T) (regions m3)" using head wf(2) h1 h2 h3 by (auto simp: head_ok_def)
  moreover have "unat (nr_map m3) + 2 * unat n < 255" using room m1(4) m2(4) m3(4) by linarith
  ultimately obtain s' where s': "verify_e820_map mdrs n ?s = (Ok True, s')"
      "\<forall>x < 2 ^ 64 - 1. type_at (regions (g_e820 s')) x =
        (if type_at (regions m3) x = Some E820_RAM \<and> (\<forall>r \<in> set T. \<not> within x r) then Some E820_RESERVED else type_at (regions m3) x)"
    using verify_e820_map_run [of T ?s mdrs n] T m3(3) by auto
  have "txt_protect_mem_regions tx s = (Ok 0, s')"
    using m1(1) m2(1) m3(1) s'(1) mdrs d
    by (simp add: txt_protect_mem_regions_def bindE_cases read_fixed [OF rv] get_txt_heap_fixed [OF rv] ps Let_def memE_def getE_def bindE_def returnE_def)
  then show ?thesis using s'(2) ty by auto
qed

text \<open>A heap at \<open>0x6000\<close> with one good record up to \<open>0x180000\<close>, and a SINIT module at \<open>0x120000\<close>.\<close>

definition launch_mem :: mem where
  "launch_mem = st32 0x6000 8 (st32 0x6008 8 (st32 0x6010 8 (st32 0x60a0 1 (st32 0x60a4 0xfe8 (st32 0x7008 0x180000 (\<lambda>_. 0))))))"

definition launch_regs :: "u32 \<Rightarrow> u64" where
  "launch_regs = (\<lambda>_. 0)(0xfed30300 := 0x6000, 0xfed30308 := 0x2000, 0xfed30270 := 0x120000, 0xfed30278 := 0x10000)"

lemma launch_table:
  "get_sinit_mle_data_start launch_mem 0x6000 = 0x6020" "ld32 launch_mem 0x60a0 = 1" "ld32 launch_mem 0x60a4 = 0xfe8"
  "table launch_mem 0x7000 1 = [bytes_at launch_mem 0x7000 24]" "good (bytes_at launch_mem 0x7000 24)"
  "rec_base (bytes_at launch_mem 0x7000 24) = 0" "rec_length (bytes_at launch_mem 0x7000 24) = 0x180000"
proof -
  have l: "ld64 launch_mem 0x6000 = 8" "ld64 launch_mem 0x6008 = 8" "ld64 launch_mem 0x6010 = 8"
    by (simp_all add: ld64_def launch_mem_def ld_st combine64b_def ld32_def [of "\<lambda>_. 0"] bytes_at_4 of_le32_def)
  show "ld32 launch_mem 0x60a0 = 1" "ld32 launch_mem 0x60a4 = 0xfe8" by (simp_all add: launch_mem_def ld_st)
  show "get_sinit_mle_data_start launch_mem 0x6000 = 0x6020"
    by (simp add: get_sinit_mle_data_start_def get_bios_data_size_def get_os_mle_data_size_def get_os_sinit_data_size_def l)
  show "table launch_mem 0x7000 1 = [bytes_at launch_mem 0x7000 24]" by (simp add: table_def mdr_addr_def)
  show "good (bytes_at launch_mem 0x7000 24)" by (simp add: good_def rec_type mdr_type_def launch_mem_def st32_def)
  show "rec_base (bytes_at launch_mem 0x7000 24) = 0" "rec_length (bytes_at launch_mem 0x7000 24) = 0x180000"
    unfolding rec_base_def rec_length_def rec_fields
    by (simp_all add: mdr_base_def mdr_length_def ld64_def launch_mem_def ld_st combine64b_def ld32_def [of "\<lambda>_. 0"] bytes_at_4 of_le32_def)
qed

theorem txt_protect_mem_regions_RAM_witness:
  "\<exists>s'. txt_protect_mem_regions (sim_txt launch_regs) ((sim_intel launch_mem (0 :: nat))\<lparr>g_e820 := pc_map\<rparr>) = (Ok 0, s') \<and>
     type_at (regions (g_e820 s')) 0x6000 \<noteq> Some E820_RAM \<and> type_at (regions (g_e820 s')) 0x110000 = Some E820_RAM \<and>
     type_at (regions (g_e820 s')) 0x120000 \<noteq> Some E820_RAM \<and> type_at (regions (g_e820 s')) 0x180000 \<noteq> Some E820_RAM"
proof -
  let ?s = "(sim_intel launch_mem (0 :: nat))\<lparr>g_e820 := pc_map\<rparr>"
  let ?ps = "[(0x6000, 0x2000), (0x120000, 0x10000), (0xfed20000, 0x10000)] :: (u64 \<times> u64) list"
  let ?T = "[bytes_at launch_mem 0x7000 24]"
  have regs: "launch_regs (0xfed30000 + TXTCR_HEAP_BASE) = 0x6000" "launch_regs (0xfed30000 + TXTCR_HEAP_SIZE) = 0x2000"
    "launch_regs (0xfed30000 + TXTCR_SINIT_BASE) = 0x120000" "launch_regs (0xfed30000 + TXTCR_SINIT_SIZE) = 0x10000"
    by (simp_all add: launch_regs_def TXTCR_HEAP_BASE_def TXTCR_HEAP_SIZE_def TXTCR_SINIT_BASE_def TXTCR_SINIT_SIZE_def)
  have "\<exists>s'. txt_protect_mem_regions (sim_txt launch_regs) ?s = (Ok 0, s') \<and>
    (\<forall>x < 2 ^ 64 - 1. type_at (regions (g_e820 s')) x = Some E820_RAM \<longleftrightarrow>
      type_at (regions (g_e820 ?s)) x = Some E820_RAM \<and> (\<forall>p \<in> set ?ps. \<not> in_range x p) \<and> (\<exists>r \<in> set ?T. within x r))"
  proof (rule txt_protect_mem_regions_RAM [of "sim_txt launch_regs" launch_regs ?s ?ps "0x6020" "0x7000" 1 ?T])
    show "fixed_registers (sim_txt launch_regs) launch_regs" by (rule sim_txt_fixed)
    show "e820_wf (g_e820 ?s)" "regions (g_e820 ?s) \<noteq> []" by (simp_all add: pc_map_wf pc_map_regions)
    show "\<forall>(a, l) \<in> set ?ps. fst (hd (regions (g_e820 ?s))) < unat a \<and> 0 < l \<and> unat a + unat l < 2 ^ 64"
      by (simp add: pc_map_regions)
    show "unat (nr_map (g_e820 ?s)) + 6 + 2 * unat (1 :: u32) < 250" by (simp add: pc_map_def)
    show "head_ok (set ?T) (regions (g_e820 ?s))" by (simp add: head_ok_def pc_map_regions within_def launch_table)
  qed (simp_all add: regs launch_table [simplified] sinit_mle_at_def)
  then show ?thesis using launch_table(5-7) by (auto simp: pc_map_regions in_range_def within_def)
qed

end
