(* ===== verification/MTRR_Correct.thy ===== *)
theory MTRR_Correct
  imports MTRR Linux_Correct
begin

text \<open>
  Saving and restoring the memory type range registers, and what \<open>set_mem_type\<close> makes of them. The
  registers are a parameter; the proofs rely on their keeping what is written.
\<close>

section \<open>Eight bytes in memory\<close>

lemma combine64b_split: "combine64b (ucast (v :: u64)) (ucast (drop_bit 32 v)) = v"
  by (rule bit_eqI) (auto simp: combine64b_def bit_simps)

lemma addrs_apart:
  assumes "x + p \<le> y \<or> y + q \<le> x" "x < 2 ^ 31" "y < 2 ^ 31" "i < p" "j < q" "p \<le> 8" "q \<le> 8"
  shows "(a :: u32) + of_nat (x + i) \<noteq> a + of_nat (y + j)"
proof
  assume "a + of_nat (x + i) = a + of_nat (y + j)"
  then have "(of_nat (x + i) :: u32) = of_nat (y + j)" by (simp only: add_left_cancel)
  then have "unat (of_nat (x + i) :: u32) = unat (of_nat (y + j) :: u32)" by (simp only:)
  then have "x + i = y + j" using assms by (simp only: unat_of_nat) simp
  then show False using assms by auto
qed

lemma ld64_st64_same: "ld64 (st64 a v m) a = v"
  by (simp add: ld64_def st64_def ld_st combine64b_split)

lemma ld64_bytes: "(\<And>i. i < 8 \<Longrightarrow> m' (a + of_nat i) = m (a + of_nat i)) \<Longrightarrow> ld64 m' a = ld64 m a"
proof -
  assume eq: "\<And>i. i < 8 \<Longrightarrow> m' (a + of_nat i) = m (a + of_nat i)"
  have "bytes_at m' a 4 = bytes_at m a 4" by (simp add: bytes_at_def eq)
  moreover have "bytes_at m' (a + 4) 4 = bytes_at m (a + 4) 4"
    using eq [of "4 + i" for i] by (simp add: bytes_at_def add.assoc)
  ultimately show ?thesis by (simp add: ld64_def ld32_def)
qed

lemma st64_outside: "(\<And>i. i < 8 \<Longrightarrow> x \<noteq> a + of_nat i) \<Longrightarrow> st64 a v m x = m x"
proof -
  assume "\<And>i. i < 8 \<Longrightarrow> x \<noteq> a + of_nat i"
  from this [of 0] this [of 1] this [of 2] this [of 3] this [of 4] this [of 5] this [of 6] this [of 7]
  show ?thesis by (simp add: st64_def st32_def add.assoc)
qed

lemma ld64_st64_other:
  assumes "x + 8 \<le> y \<or> y + 8 \<le> x" "x < 2 ^ 31" "y < 2 ^ 31"
  shows "ld64 (st64 (a + of_nat x) v m) (a + of_nat y) = ld64 m (a + of_nat y)"
proof (rule ld64_bytes)
  fix j :: nat assume "j < 8"
  have "a + of_nat y + of_nat j \<noteq> a + of_nat x + of_nat i" if "i < 8" for i
    using addrs_apart [OF assms that \<open>j < 8\<close>, of a] by (simp add: add.assoc)
  then show "st64 (a + of_nat x) v m (a + of_nat y + of_nat j) = m (a + of_nat y + of_nat j)" by (rule st64_outside)
qed

lemma ld32_st64_other:
  assumes "x + 8 \<le> y \<or> y + 4 \<le> x" "x < 2 ^ 31" "y < 2 ^ 31"
  shows "ld32 (st64 (a + of_nat x) v m) (a + of_nat y) = ld32 m (a + of_nat y)"
proof -
  have "a + of_nat y + of_nat j \<noteq> a + of_nat x + of_nat i" if "i < 8" "j < 4" for i j
    using addrs_apart [OF assms that, of a] by (simp add: add.assoc)
  then have "st64 (a + of_nat x) v m (a + of_nat y + of_nat j) = m (a + of_nat y + of_nat j)" if "j < 4" for j
    using that by (intro st64_outside)
  then have "bytes_at (st64 (a + of_nat x) v m) (a + of_nat y) 4 = bytes_at m (a + of_nat y) 4"
    unfolding bytes_at_def by (intro map_cong) auto
  then show ?thesis by (simp add: ld32_def)
qed

section \<open>The registers\<close>

definition mtrr_regs :: "u32 set" where
  "mtrr_regs = {a. 0x200 \<le> a \<and> a < 0x220 \<or> a = 0x2ff}"

definition mtrr_file :: "'d hw \<Rightarrow> ('d \<Rightarrow> u32 \<Rightarrow> u64) \<Rightarrow> bool" where
  "mtrr_file hw rm \<longleftrightarrow>
     (\<forall>a \<in> insert 0xfe mtrr_regs. \<forall>d. hw_rdmsr hw a d = (rm d a, d)) \<and>
     (\<forall>a \<in> mtrr_regs. \<forall>v d. rm (hw_wrmsr hw a v d) = (rm d)(a := v))"

lemma mtrr_reg [simp]:
  "n < 16 \<Longrightarrow> MTRR_PHYS_BASE (of_nat n) \<in> mtrr_regs" "n < 16 \<Longrightarrow> MTRR_PHYS_MASK (of_nat n) \<in> mtrr_regs"
  "MSR_MTRRdefType \<in> mtrr_regs"
proof -
  assume "n < 16"
  then have 1: "unat (0x200 + of_nat n * 2 :: u32) = 0x200 + n * 2" "unat (0x201 + of_nat n * 2 :: u32) = 0x201 + n * 2"
    by (simp_all add: unat_word_ariths unat_of_nat)
  have "0x200 \<le> w \<and> w < 0x220" if "unat w = k" "0x200 \<le> k" "k < 0x220" for w :: u32 and k
    using that by (simp add: word_le_nat_alt word_less_nat_alt)
  from this [OF 1(1)] this [OF 1(2)] \<open>n < 16\<close> show "MTRR_PHYS_BASE (of_nat n) \<in> mtrr_regs" "MTRR_PHYS_MASK (of_nat n) \<in> mtrr_regs"
    by (simp_all add: mtrr_regs_def MTRR_PHYS_BASE_def MTRR_PHYS_MASK_def)
qed (simp add: mtrr_regs_def MSR_MTRRdefType_def)

text \<open>The state \<open>s\<close> up to screen, devices and memory: the registers are \<open>g\<close>, the memory is \<open>m\<close>.\<close>

definition msrs :: "('d \<Rightarrow> u32 \<Rightarrow> u64) \<Rightarrow> 'd intel \<Rightarrow> (u32 \<Rightarrow> u64) \<Rightarrow> mem \<Rightarrow> 'd intel \<Rightarrow> bool" where
  "msrs rm s g m s' \<longleftrightarrow> (\<exists>scr d. screen_ok scr \<and> rm d = g \<and>
     s' = s\<lparr>i_world := i_world s\<lparr>w_screen := scr, w_dev := d, w_mem := m\<rparr>\<rparr>)"

lemma msrsI: "screen_ok scr \<Longrightarrow> rm d = g \<Longrightarrow>
    s' = s\<lparr>i_world := i_world s\<lparr>w_screen := scr, w_dev := d, w_mem := m\<rparr>\<rparr> \<Longrightarrow> msrs rm s g m s'"
  unfolding msrs_def by blast

lemma msrsE:
  assumes "msrs rm s g m s'"
  obtains scr d where "screen_ok scr" "rm d = g" "s' = s\<lparr>i_world := i_world s\<lparr>w_screen := scr, w_dev := d, w_mem := m\<rparr>\<rparr>"
  using assms unfolding msrs_def by blast

lemma msrs_start: "intel_ok s \<Longrightarrow> msrs rm s (rm (w_dev (i_world s))) (i_mem s) s"
  by (rule msrsI [of "w_screen (i_world s)" rm "w_dev (i_world s)"]) (simp_all add: intel_ok_def)

lemma msrs_parts:
  assumes "msrs rm s g m s'"
  shows "i_mem s' = m" "rm (w_dev (i_world s')) = g" "intel_ok s'" "g_saved_mtrrs s' = g_saved_mtrrs s"
  using assms by (auto simp: msrs_def intel_ok_def)

lemmas device_defs = on_device_def on_world_def on_dev_def

lemma yields_read_msr:
  assumes "mtrr_file hw rm" "a \<in> insert 0xfe mtrr_regs"
  shows "yields (msrs rm s g m) (read_msr hw a) (Ok (g a)) (msrs rm s g m)"
proof (rule yieldsI)
  fix s' assume s': "msrs rm s g m s'"
  then have "hw_rdmsr hw a (w_dev (i_world s')) = (g a, w_dev (i_world s'))"
    using assms msrs_parts(2) [OF s'] by (auto simp: mtrr_file_def)
  then have "read_msr hw a s' = (Ok (g a), s')" by (simp add: read_msr_def device_defs)
  then show "\<exists>s''. read_msr hw a s' = (Ok (g a), s'') \<and> msrs rm s g m s''" using s' by blast
qed

lemma yields_write_msr:
  assumes "mtrr_file hw rm" "a \<in> mtrr_regs"
  shows "yields (msrs rm s g m) (write_msr hw a v) (Ok ()) (msrs rm s (g(a := v)) m)"
proof (rule yieldsI)
  fix s' assume "msrs rm s g m s'"
  then show "\<exists>s''. write_msr hw a v s' = (Ok (), s'') \<and> msrs rm s (g(a := v)) m s''"
  proof (cases rule: msrsE)
    case (1 scr d)
    have "rm (hw_wrmsr hw a v d) = g(a := v)" using assms 1(2) by (auto simp: mtrr_file_def)
    then show ?thesis using 1 by (auto simp: write_msr_def device_defs intro!: msrsI [of scr])
  qed
qed

lemma yields_msrs_memE: "yields (msrs rm s g m) (k m) r Q \<Longrightarrow> yields (msrs rm s g m) (bindE memE k) r Q"
  unfolding memE_def by (rule yields_getE [where a = m]) (auto simp: msrs_parts)

lemma yields_msrs_setmemE: "yields (msrs rm s g m) (setmemE f) (Ok ()) (msrs rm s g (f m))"
  by (rule yieldsI, erule msrsE) (auto simp: setmemE_def on_world_def modifyE_def intro!: msrsI)

lemma yields_msrs_tell: "yields (msrs rm s g m) (tell t) (Ok ()) (msrs rm s g m)"
proof (rule yieldsI)
  fix s' assume s': "msrs rm s g m s'"
  obtain s'' where s'': "tell t s' = (Ok (), s'')" "like s' s''"
    using yieldsD [OF yields_tell like_refl [OF msrs_parts(3) [OF s']]] by blast
  then obtain scr where "screen_ok scr" "s'' = s'\<lparr>i_world := (i_world s')\<lparr>w_screen := scr\<rparr>\<rparr>" by (auto simp: like_def)
  then have "msrs rm s g m s''" using s' by (auto elim!: msrsE intro: msrsI [of scr])
  then show "\<exists>s''. tell t s' = (Ok (), s'') \<and> msrs rm s g m s''" using s''(1) by blast
qed

section \<open>Saving and restoring\<close>

lemma state_offsets:
  "mtrr_physbases (mtrr_state_at a) (of_nat i) = a + of_nat (12 + 8 * i)"
  "mtrr_physmasks (mtrr_state_at a) (of_nat i) = a + of_nat (140 + 8 * i)"
  "mtrr_def_type (mtrr_state_at a) = a + of_nat 0" "num_var_mtrrs (mtrr_state_at a) = a + of_nat 8"
  by (simp_all add: mtrr_state_at_def)

text \<open>What the memory holds after \<open>n\<close> pairs were saved, and what it keeps.\<close>

definition saved :: "mem \<Rightarrow> u32 \<Rightarrow> (u32 \<Rightarrow> u64) \<Rightarrow> nat \<Rightarrow> bool" where
  "saved m st g n \<longleftrightarrow> (\<forall>i < n. saved_mask m st (of_nat i) = g (MTRR_PHYS_MASK (of_nat i)) \<and>
     saved_base m st (of_nat i) = g (MTRR_PHYS_BASE (of_nat i)))"

lemma yields_save_loop:
  assumes "mtrr_file hw rm" "k + n \<le> 16" "saved m st g k"
  shows "\<exists>m'. yields (msrs rm s g m) (save_loop hw st n (of_nat k)) (Ok ()) (msrs rm s g m') \<and> saved m' st g (k + n) \<and>
    saved_def m' st = saved_def m st \<and> saved_num m' st = saved_num m st"
  using assms(2,3)
proof (induction n arbitrary: k m)
  case 0
  then show ?case by (auto intro!: exI [of _ m] yields_returnE)
next
  case (Suc n)
  define m1 where "m1 = st64 (st + of_nat (140 + 8 * k)) (g (MTRR_PHYS_MASK (of_nat k))) m"
  define m2 where "m2 = st64 (st + of_nat (12 + 8 * k)) (g (MTRR_PHYS_BASE (of_nat k))) m1"
  have old: "saved_mask m2 st (of_nat i) = saved_mask m st (of_nat i)" "saved_base m2 st (of_nat i) = saved_base m st (of_nat i)"
    if "i < k" for i
    unfolding state_offsets m2_def m1_def by (rule trans [OF ld64_st64_other ld64_st64_other]; use that Suc.prems(1) in simp)+
  have new: "saved_mask m2 st (of_nat k) = g (MTRR_PHYS_MASK (of_nat k))" "saved_base m2 st (of_nat k) = g (MTRR_PHYS_BASE (of_nat k))"
    unfolding state_offsets m2_def m1_def
    by (rule trans [OF ld64_st64_other ld64_st64_same]; use Suc.prems(1) in simp) (rule ld64_st64_same)
  have other: "saved_def m2 st = saved_def m st" "saved_num m2 st = saved_num m st"
    unfolding state_offsets m2_def m1_def
    by (rule trans [OF ld64_st64_other ld64_st64_other] trans [OF ld32_st64_other ld32_st64_other]; use Suc.prems(1) in simp)+
  have "saved m2 st g (Suc k)" using Suc.prems(2) old new by (auto simp: saved_def less_Suc_eq)
  then obtain m' where m': "yields (msrs rm s g m2) (save_loop hw st n (of_nat (Suc k))) (Ok ()) (msrs rm s g m')"
      "saved m' st g (Suc k + n)" "saved_def m' st = saved_def m2 st" "saved_num m' st = saved_num m2 st"
    using Suc.IH [of "Suc k" m2] Suc.prems(1) by auto
  have "yields (msrs rm s g m) (save_loop hw st (Suc n) (of_nat k)) (Ok ()) (msrs rm s g m')"
    unfolding save_loop.simps state_offsets
    by (rule yields_bind [OF yields_read_msr [OF assms(1)]], use Suc.prems(1) in simp,
        rule yields_bind [OF yields_msrs_setmemE], fold m1_def,
        rule yields_bind [OF yields_read_msr [OF assms(1)]], use Suc.prems(1) in simp,
        rule yields_bind [OF yields_msrs_setmemE], fold m2_def,
        use m'(1) in \<open>simp add: add.commute\<close>)
  then show ?case using m' other by auto
qed

lemma reg_numbers:
  "n < 16 \<Longrightarrow> unat (MTRR_PHYS_BASE (of_nat n)) = 0x200 + 2 * n" "n < 16 \<Longrightarrow> unat (MTRR_PHYS_MASK (of_nat n)) = 0x201 + 2 * n"
  "unat MSR_MTRRdefType = 0x2ff"
  by (simp_all add: MTRR_PHYS_BASE_def MTRR_PHYS_MASK_def MSR_MTRRdefType_def unat_word_ariths unat_of_nat)

lemma reg_distinct:
  assumes "i < 16" "j < 16"
  shows "MTRR_PHYS_BASE (of_nat i) = MTRR_PHYS_BASE (of_nat j) \<longleftrightarrow> i = j" "MTRR_PHYS_MASK (of_nat i) = MTRR_PHYS_MASK (of_nat j) \<longleftrightarrow> i = j"
    "MTRR_PHYS_BASE (of_nat i) \<noteq> MTRR_PHYS_MASK (of_nat j)" "MTRR_PHYS_MASK (of_nat j) \<noteq> MTRR_PHYS_BASE (of_nat i)"
    "MTRR_PHYS_BASE (of_nat i) \<noteq> MSR_MTRRdefType" "MTRR_PHYS_MASK (of_nat i) \<noteq> MSR_MTRRdefType"
    "MSR_MTRRdefType \<noteq> MTRR_PHYS_BASE (of_nat i)" "MSR_MTRRdefType \<noteq> MTRR_PHYS_MASK (of_nat i)"
proof -
  show "MTRR_PHYS_BASE (of_nat i) = MTRR_PHYS_BASE (of_nat j) \<longleftrightarrow> i = j" "MTRR_PHYS_MASK (of_nat i) = MTRR_PHYS_MASK (of_nat j) \<longleftrightarrow> i = j"
    by (simp_all only: word_unat_eq_iff reg_numbers assms) simp_all
  have "unat (MTRR_PHYS_BASE (of_nat i)) \<noteq> unat (MTRR_PHYS_MASK (of_nat j))"
    "unat (MTRR_PHYS_BASE (of_nat i)) \<noteq> unat MSR_MTRRdefType" "unat (MTRR_PHYS_MASK (of_nat i)) \<noteq> unat MSR_MTRRdefType"
    by (simp_all only: reg_numbers assms) (use assms in presburger)+
  then show "MTRR_PHYS_BASE (of_nat i) \<noteq> MTRR_PHYS_MASK (of_nat j)" "MTRR_PHYS_MASK (of_nat j) \<noteq> MTRR_PHYS_BASE (of_nat i)"
    "MTRR_PHYS_BASE (of_nat i) \<noteq> MSR_MTRRdefType" "MTRR_PHYS_MASK (of_nat i) \<noteq> MSR_MTRRdefType"
    "MSR_MTRRdefType \<noteq> MTRR_PHYS_BASE (of_nat i)" "MSR_MTRRdefType \<noteq> MTRR_PHYS_MASK (of_nat i)" by metis+
qed

text \<open>The number of pairs that are saved, and the registers.\<close>

definition saved_count :: "u64 \<Rightarrow> nat" where "saved_count cap = min 16 (unat (cap_vcnt cap))"

definition saved_regs :: "u64 \<Rightarrow> u32 set" where
  "saved_regs cap = {MSR_MTRRdefType} \<union> (\<lambda>n. MTRR_PHYS_BASE (of_nat n)) ` {..<saved_count cap} \<union>
     (\<lambda>n. MTRR_PHYS_MASK (of_nat n)) ` {..<saved_count cap}"

lemma save_mtrrs_run:
  assumes hw: "mtrr_file hw rm" and ok: "intel_ok s" and g: "g = rm (w_dev (i_world s))"
  shows "\<exists>s' m'. save_mtrrs hw p s = (Ok (), s') \<and> i_mem s' = m' \<and> g_saved_mtrrs s' = p \<and> saved m' p g (saved_count (g 0xfe)) \<and>
    unat (saved_num m' p) = saved_count (g 0xfe) \<and> saved_def m' p = g MSR_MTRRdefType"
proof -
  let ?n = "if cap_vcnt (g 0xfe) > MAX_VARIABLE_MTRRS then MAX_VARIABLE_MTRRS else cap_vcnt (g 0xfe)"
  define m1 where "m1 = st64 (p + of_nat 0) (g MSR_MTRRdefType) (i_mem s)"
  define m2 where "m2 = st32 (p + of_nat 8) ?n m1"
  have n: "unat ?n = saved_count (g 0xfe)" "saved_count (g 0xfe) \<le> 16"
    by (auto simp: saved_count_def MAX_VARIABLE_MTRRS_def word_less_nat_alt)
  have num: "saved_num m2 p = ?n" unfolding state_offsets m2_def by (simp add: ld_st)
  have dt: "saved_def m2 p = g MSR_MTRRdefType"
    unfolding state_offsets m2_def m1_def by (simp add: ld64_def st64_def ld_st combine64b_split)
  obtain m' where m': "yields (msrs rm s g m2) (save_loop hw p (saved_count (g 0xfe)) (of_nat 0)) (Ok ()) (msrs rm s g m')"
      "saved m' p g (0 + saved_count (g 0xfe))" "saved_def m' p = saved_def m2 p" "saved_num m' p = saved_num m2 p"
    using yields_save_loop [OF hw, of 0 "saved_count (g 0xfe)" m2 p g s] n(2) by (auto simp: saved_def)
  have run: "yields (msrs rm s g m2) (save_loop hw p (saved_count (g 0xfe)) 0) (Ok ()) (msrs rm s g m')" using m'(1) by simp
  have "yields (msrs rm s g (i_mem s)) (save_mtrrs hw p) (Ok ()) (\<lambda>s'. i_mem s' = m' \<and> g_saved_mtrrs s' = p)"
    unfolding save_mtrrs_def Let_def
    apply (rule yields_bind [OF yields_read_msr [OF hw]], simp)
    apply (rule yields_bind [OF yields_msrs_setmemE], unfold state_offsets, fold m1_def)
    apply (rule yields_bind [OF yields_read_msr [OF hw]], simp add: MSR_MTRRcap_def)
    apply (rule yields_bind [OF yields_msrs_setmemE])
    apply (unfold MSR_MTRRcap_def, fold m2_def, unfold n(1))
    apply (rule yields_bind [OF run])
    apply (rule yieldsI, auto simp: modifyE_def msrs_parts)
    done
  from yieldsD [OF this] msrs_start [OF ok, of rm] obtain s' where
    "save_mtrrs hw p s = (Ok (), s')" "i_mem s' = m'" "g_saved_mtrrs s' = p" unfolding g by blast
  then show ?thesis using m' num dt n by (intro exI [of _ s'] exI [of _ m']) simp
qed

lemma yields_set_all_mtrrs:
  assumes "mtrr_file hw rm"
  shows "yields (msrs rm s g m) (set_all_mtrrs hw b) (Ok ()) (msrs rm s (g(MSR_MTRRdefType := set_def_e b (g MSR_MTRRdefType))) m)"
  unfolding set_all_mtrrs_def
  by (rule yields_bind [OF yields_read_msr [OF assms]], simp, rule yields_write_msr [OF assms], simp)

lemma yields_restore_loop:
  assumes hw: "mtrr_file hw rm" and "k + n \<le> 16"
  shows "\<exists>g'. yields (msrs rm s g m) (restore_loop hw st n (of_nat k)) (Ok ()) (msrs rm s g' m) \<and>
    (\<forall>i < k + n. k \<le> i \<longrightarrow> g' (MTRR_PHYS_MASK (of_nat i)) = saved_mask m st (of_nat i) \<and>
       g' (MTRR_PHYS_BASE (of_nat i)) = saved_base m st (of_nat i)) \<and>
    (\<forall>i < k. g' (MTRR_PHYS_MASK (of_nat i)) = g (MTRR_PHYS_MASK (of_nat i)) \<and> g' (MTRR_PHYS_BASE (of_nat i)) = g (MTRR_PHYS_BASE (of_nat i)))"
  using assms(2)
proof (induction n arbitrary: k g)
  case 0
  then show ?case by (auto intro!: exI [of _ g] yields_returnE)
next
  case (Suc n)
  define g1 where "g1 = g(MTRR_PHYS_MASK (of_nat k) := saved_mask m st (of_nat k), MTRR_PHYS_BASE (of_nat k) := saved_base m st (of_nat k))"
  obtain g' where g': "yields (msrs rm s g1 m) (restore_loop hw st n (of_nat (Suc k))) (Ok ()) (msrs rm s g' m)"
      "\<forall>i < Suc k + n. Suc k \<le> i \<longrightarrow> g' (MTRR_PHYS_MASK (of_nat i)) = saved_mask m st (of_nat i) \<and>
       g' (MTRR_PHYS_BASE (of_nat i)) = saved_base m st (of_nat i)"
      "\<forall>i < Suc k. g' (MTRR_PHYS_MASK (of_nat i)) = g1 (MTRR_PHYS_MASK (of_nat i)) \<and> g' (MTRR_PHYS_BASE (of_nat i)) = g1 (MTRR_PHYS_BASE (of_nat i))"
    using Suc.IH [of "Suc k" g1] Suc.prems by auto
  have "yields (msrs rm s g m) (restore_loop hw st (Suc n) (of_nat k)) (Ok ()) (msrs rm s g' m)"
    unfolding restore_loop.simps
    apply (rule yields_msrs_memE)
    apply (rule yields_bind [OF yields_write_msr [OF hw]], use Suc.prems in simp)
    apply (rule yields_bind [OF yields_write_msr [OF hw]], use Suc.prems in simp)
    using g'(1) by (simp add: g1_def add.commute)
  moreover have "g1 (MTRR_PHYS_MASK (of_nat i)) = (if i = k then saved_mask m st (of_nat k) else g (MTRR_PHYS_MASK (of_nat i)))"
    "g1 (MTRR_PHYS_BASE (of_nat i)) = (if i = k then saved_base m st (of_nat k) else g (MTRR_PHYS_BASE (of_nat i)))" if "i \<le> k" for i
    using that Suc.prems by (auto simp: g1_def reg_distinct)
  ultimately show ?case using g'(2,3) by (intro exI [of _ g']) (auto simp: le_Suc_eq less_Suc_eq_le Suc_le_eq le_less)
qed

lemma bytes_at_same: "bytes_at m a n = bytes_at m' a n \<Longrightarrow> i < n \<Longrightarrow> m (a + of_nat i) = m' (a + of_nat i)"
  by (auto simp: bytes_at_def)

lemma ld64_same: "bytes_at m a n = bytes_at m' a n \<Longrightarrow> k + 8 \<le> n \<Longrightarrow> ld64 m (a + of_nat k) = ld64 m' (a + of_nat k)"
  using bytes_at_same [of m a n m' "k + i" for i] by (intro ld64_bytes) (simp add: add.assoc)

lemma ld32_same:
  assumes "bytes_at m a n = bytes_at m' a n" "k + 4 \<le> n"
  shows "ld32 m (a + of_nat k) = ld32 m' (a + of_nat k)"
proof -
  have "m (a + of_nat k + of_nat i) = m' (a + of_nat k + of_nat i)" if "i < 4" for i
    using bytes_at_same [OF assms(1), of "k + i"] assms(2) that by (simp add: add.assoc)
  then have "bytes_at m (a + of_nat k) 4 = bytes_at m' (a + of_nat k) 4" unfolding bytes_at_def by (intro map_cong) auto
  then show ?thesis by (simp add: ld32_def)
qed

lemma restore_mtrrs_run:
  assumes hw: "mtrr_file hw rm" and ok: "intel_ok s" and q: "q = p \<or> q = 0 \<and> g_saved_mtrrs s = p" "p \<noteq> 0"
    and sv: "saved (i_mem s) p g n" "unat (saved_num (i_mem s) p) = n" "saved_def (i_mem s) p = g MSR_MTRRdefType" "n \<le> 16"
  shows "\<exists>s'. restore_mtrrs hw q s = (Ok (), s') \<and> rm (w_dev (i_world s')) MSR_MTRRdefType = g MSR_MTRRdefType \<and>
    (\<forall>i < n. rm (w_dev (i_world s')) (MTRR_PHYS_MASK (of_nat i)) = g (MTRR_PHYS_MASK (of_nat i)) \<and>
       rm (w_dev (i_world s')) (MTRR_PHYS_BASE (of_nat i)) = g (MTRR_PHYS_BASE (of_nat i)))"
proof -
  let ?d = "rm (w_dev (i_world s))" and ?m = "i_mem s"
  let ?g1 = "?d(MSR_MTRRdefType := set_def_e False (?d MSR_MTRRdefType))"
  obtain g' where g': "yields (msrs rm s ?g1 ?m) (restore_loop hw p n (of_nat 0)) (Ok ()) (msrs rm s g' ?m)"
      "\<forall>i < 0 + n. 0 \<le> i \<longrightarrow> g' (MTRR_PHYS_MASK (of_nat i)) = saved_mask ?m p (of_nat i) \<and>
       g' (MTRR_PHYS_BASE (of_nat i)) = saved_base ?m p (of_nat i)"
    using yields_restore_loop [OF hw, of 0 n s ?g1 ?m p] sv(4) by auto
  have run: "yields (msrs rm s ?g1 ?m) (restore_loop hw p n 0) (Ok ()) (msrs rm s g' ?m)" using g'(1) by simp
  have "yields (msrs rm s ?d ?m) (restore_mtrrs hw q) (Ok ()) (msrs rm s (g'(MSR_MTRRdefType := saved_def ?m p)) ?m)"
    unfolding restore_mtrrs_def
  proof (rule yields_bind)
    show "yields (msrs rm s ?d ?m) (if q = 0 then getE g_saved_mtrrs else returnE q) (Ok p) (msrs rm s ?d ?m)"
      using q by (auto simp: yields_def getE_def returnE_def msrs_parts)
    show "yields (msrs rm s ?d ?m) (if p = 0 then tell (Info ''ERROR ......... No saved state found'')
       else bindE (set_all_mtrrs hw False) (\<lambda>_. bindE memE (\<lambda>m. bindE (restore_loop hw p (unat (saved_num m p)) 0) (\<lambda>_.
            bindE memE (\<lambda>m. write_msr hw MSR_MTRRdefType (saved_def m p))))))
       (Ok ()) (msrs rm s (g'(MSR_MTRRdefType := saved_def ?m p)) ?m)"
      unfolding if_not_P [OF q(2)]
      apply (rule yields_bind [OF yields_set_all_mtrrs [OF hw]], rule yields_msrs_memE, unfold sv(2))
      apply (rule yields_bind [OF run], rule yields_msrs_memE, rule yields_write_msr [OF hw], simp)
      done
  qed
  from yieldsD [OF this msrs_start [OF ok]] obtain s' where s': "restore_mtrrs hw q s = (Ok (), s')"
    "msrs rm s (g'(MSR_MTRRdefType := saved_def ?m p)) ?m s'" by blast
  have "i < n \<Longrightarrow> i < 16" for i using sv(4) by simp
  then show ?thesis using s' g'(2) sv(1,3,4) msrs_parts(2) [OF s'(2)] by (auto simp: saved_def reg_distinct)
qed

text \<open>
  C25: Whatever happens to the registers after \<open>save_mtrrs\<close>: as long as the saved state is still in memory,
  \<open>restore_mtrrs\<close>, called with its address or with \<open>NULL\<close>, gives back to the default type and to every pair of
  registers that was saved (the first 16 of those that exist) the value it had. This is what
  \<open>txt_launch_environment\<close> and \<open>txt_post_launch\<close> rely on across the launch.
\<close>

theorem restore_after_save:
  assumes hw: "mtrr_file hw rm" and ok: "intel_ok s" and p: "p \<noteq> 0"
  shows "\<exists>s1. save_mtrrs hw p s = (Ok (), s1) \<and>
    (\<forall>s2 q. intel_ok s2 \<longrightarrow> bytes_at (i_mem s2) p 268 = bytes_at (i_mem s1) p 268 \<longrightarrow>
       q = p \<or> q = 0 \<and> g_saved_mtrrs s2 = g_saved_mtrrs s1 \<longrightarrow>
       (\<exists>s3. restore_mtrrs hw q s2 = (Ok (), s3) \<and>
         (\<forall>a \<in> saved_regs (rm (w_dev (i_world s)) 0xfe). rm (w_dev (i_world s3)) a = rm (w_dev (i_world s)) a)))"
proof -
  let ?g = "rm (w_dev (i_world s))"
  let ?n = "saved_count (?g 0xfe)"
  obtain s1 where s1: "save_mtrrs hw p s = (Ok (), s1)" "g_saved_mtrrs s1 = p" "saved (i_mem s1) p ?g ?n"
      "unat (saved_num (i_mem s1) p) = ?n" "saved_def (i_mem s1) p = ?g MSR_MTRRdefType"
    using save_mtrrs_run [OF hw ok refl, of p] by blast
  have n: "?n \<le> 16" by (simp add: saved_count_def)
  have "\<exists>s3. restore_mtrrs hw q s2 = (Ok (), s3) \<and> (\<forall>a \<in> saved_regs (?g 0xfe). rm (w_dev (i_world s3)) a = ?g a)"
    if ok2: "intel_ok s2" and bs: "bytes_at (i_mem s2) p 268 = bytes_at (i_mem s1) p 268"
      and q: "q = p \<or> q = 0 \<and> g_saved_mtrrs s2 = g_saved_mtrrs s1" for s2 q
  proof -
    have f: "saved_mask (i_mem s2) p (of_nat i) = saved_mask (i_mem s1) p (of_nat i)"
      "saved_base (i_mem s2) p (of_nat i) = saved_base (i_mem s1) p (of_nat i)" if "i < ?n" for i
      unfolding state_offsets by (rule ld64_same [OF bs]; use that n in simp)+
    have "saved_def (i_mem s2) p = saved_def (i_mem s1) p" "saved_num (i_mem s2) p = saved_num (i_mem s1) p"
      unfolding state_offsets by (rule ld64_same [OF bs] ld32_same [OF bs]; simp)+
    then have "\<exists>s3. restore_mtrrs hw q s2 = (Ok (), s3) \<and> rm (w_dev (i_world s3)) MSR_MTRRdefType = ?g MSR_MTRRdefType \<and>
      (\<forall>i < ?n. rm (w_dev (i_world s3)) (MTRR_PHYS_MASK (of_nat i)) = ?g (MTRR_PHYS_MASK (of_nat i)) \<and>
         rm (w_dev (i_world s3)) (MTRR_PHYS_BASE (of_nat i)) = ?g (MTRR_PHYS_BASE (of_nat i)))"
      using s1 q f n by (intro restore_mtrrs_run [OF hw ok2 _ p]) (auto simp: saved_def)
    then show ?thesis by (auto simp: saved_regs_def)
  qed
  then show ?thesis using s1(1) by blast
qed

text \<open>A machine whose model-specific registers are a function from numbers to values.\<close>

definition msr_hw :: "(u32 \<Rightarrow> u64) sim hw" where
  "msr_hw = (sim_hw (\<lambda>c bs. (0, [], c)) 0)\<lparr>hw_rdmsr := \<lambda>a d. (s_core d a, d), hw_wrmsr := \<lambda>a v d. d\<lparr>s_core := (s_core d)(a := v)\<rparr>\<rparr>"

lemma msr_hw_file [simp]: "mtrr_file msr_hw s_core"
  by (simp add: mtrr_file_def msr_hw_def)

lemma sim_core [simp]: "s_core (w_dev (i_world (sim_intel m c))) = c"
  by (simp add: sim_intel_def sim_world_def)

theorem restore_after_save_witness:
  "\<exists>s1 s3. save_mtrrs msr_hw 0x10000 (sim_intel (\<lambda>_. 0) ((\<lambda>_. 0)(0xfe := 8, 0x2ff := 0xc06))) = (Ok (), s1) \<and>
     restore_mtrrs msr_hw 0x10000 (sim_intel (i_mem s1) (\<lambda>_. 0)) = (Ok (), s3) \<and> s_core (w_dev (i_world s3)) 0x2ff = 0xc06"
proof -
  let ?s = "sim_intel (\<lambda>_. 0) ((\<lambda>_. 0)(0xfe := 8, 0x2ff := 0xc06)) :: (u32 \<Rightarrow> u64) sim intel"
  obtain s1 where s1: "save_mtrrs msr_hw 0x10000 ?s = (Ok (), s1)"
    and *: "\<forall>s2 q. intel_ok s2 \<longrightarrow> bytes_at (i_mem s2) 0x10000 268 = bytes_at (i_mem s1) 0x10000 268 \<longrightarrow>
       q = 0x10000 \<or> q = 0 \<and> g_saved_mtrrs s2 = g_saved_mtrrs s1 \<longrightarrow>
       (\<exists>s3. restore_mtrrs msr_hw q s2 = (Ok (), s3) \<and>
         (\<forall>a \<in> saved_regs (s_core (w_dev (i_world ?s)) 0xfe). s_core (w_dev (i_world s3)) a = s_core (w_dev (i_world ?s)) a))"
    using restore_after_save [OF msr_hw_file, of ?s "0x10000"] by auto
  from * [rule_format, of "sim_intel (i_mem s1) (\<lambda>_. 0)" "0x10000"]
  obtain s3 where "restore_mtrrs msr_hw 0x10000 (sim_intel (i_mem s1) (\<lambda>_. 0)) = (Ok (), s3)"
    "\<forall>a \<in> saved_regs (s_core (w_dev (i_world ?s)) 0xfe). s_core (w_dev (i_world s3)) a = s_core (w_dev (i_world ?s)) a" by auto
  then show ?thesis using s1 by (auto simp: saved_regs_def MSR_MTRRdefType_def)
qed

section \<open>Setting the type of a range\<close>

text \<open>
  The ranges that \<open>set_mem_type\<close> uses: as long as \<open>lim\<close> pages are left, a range of \<open>lim\<close> pages, then the
  largest power of two that is left.
\<close>

function pieces :: "nat \<Rightarrow> nat \<Rightarrow> nat \<Rightarrow> (nat \<times> nat) list" where
  "pieces lim pg n =
     (if n = 0 \<or> lim = 0 then []
      else let k = (if lim \<le> n then lim else 2 ^ (fls_nat n - 1)) in (pg, k) # pieces lim (pg + k) (n - k))"
  by auto
termination by (relation "measure (\<lambda>(lim, pg, n). n)") auto

declare pieces.simps [simp del]

lemma fls_bounds: "0 < n \<Longrightarrow> 2 ^ (fls_nat n - 1) \<le> n \<and> n < 2 ^ fls_nat n"
proof (induction n rule: fls_nat.induct)
  case (1 n)
  show ?case
  proof (cases "n = 1")
    case True
    then show ?thesis by (simp add: fls_nat.simps)
  next
    case False
    then have "0 < n div 2" using 1(2) by simp
    then have *: "2 ^ (fls_nat (n div 2) - 1) \<le> n div 2" "n div 2 < 2 ^ fls_nat (n div 2)" and f: "0 < fls_nat (n div 2)"
      using 1 by (auto simp: fls_nat.simps [of "n div 2"])
    define p :: nat where "p = 2 ^ (fls_nat (n div 2) - 1)"
    have p: "2 ^ fls_nat (n div 2) = 2 * p" using f by (simp add: power_eq_if p_def)
    then have "2 * p \<le> n \<and> n < 2 * (2 * p)" using * unfolding p_def [symmetric] p by arith
    then show ?thesis using 1(2) p by (subst (1 2) fls_nat.simps) simp
  qed
qed

lemma piece_size:
  assumes "0 < n" "0 < lim" "k = (if lim \<le> n then lim else 2 ^ (fls_nat n - 1))"
  shows "0 < k \<and> k \<le> n"
  using assms fls_bounds [of n] by auto

lemma pieces_step:
  "0 < n \<Longrightarrow> 0 < lim \<Longrightarrow> k = (if lim \<le> n then lim else 2 ^ (fls_nat n - 1)) \<Longrightarrow>
     pieces lim pg n = (pg, k) # pieces lim (pg + k) (n - k)"
  by (subst pieces.simps) (simp add: Let_def)

lemma pieces_tile: "0 < lim \<Longrightarrow> (\<Union>(a, k) \<in> set (pieces lim pg n). {a..<a + k}) = {pg..<pg + n}"
proof (induction lim pg n rule: pieces.induct)
  case (1 lim pg n)
  show ?case
  proof (cases "n = 0")
    case False
    define k where "k = (if lim \<le> n then lim else 2 ^ (fls_nat n - 1))"
    have k: "0 < k" "k \<le> n" using piece_size [of n lim k] False 1(2) by (auto simp: k_def)
    have "(\<Union>(a, k) \<in> set (pieces lim (pg + k) (n - k)). {a..<a + k}) = {pg + k..<pg + k + (n - k)}"
      using 1(1) [OF _ k_def] False 1(2) by simp
    then show ?thesis using k False 1(2) by (auto simp: pieces_step [OF _ _ k_def])
  qed (simp add: pieces.simps)
qed

lemma pieces_aligned:
  assumes "lim = 2 ^ j" "\<And>i. 2 ^ i \<le> n \<Longrightarrow> i \<le> j \<Longrightarrow> 2 ^ i dvd pg"
  shows "(a, k) \<in> set (pieces lim pg n) \<Longrightarrow> k dvd a \<and> (\<exists>i \<le> j. k = 2 ^ i)"
  using assms
proof (induction lim pg n rule: pieces.induct)
  case (1 lim pg n)
  define l where "l = (if lim \<le> n then j else fls_nat n - 1)"
  have n: "0 < n" using 1(2) by (cases "n = 0") (simp_all add: pieces.simps)
  have lim: "0 < lim" by (simp add: 1(3))
  define k' where "k' = (if lim \<le> n then lim else 2 ^ (fls_nat n - 1))"
  have l: "k' = 2 ^ l" "k' \<le> n" "l \<le> j" "n - k' < k' \<or> l = j"
  proof -
    show "k' = 2 ^ l" by (simp add: k'_def l_def 1(3))
    show "k' \<le> n" using piece_size [OF n _ k'_def] by (simp add: 1(3))
    have "(2 :: nat) ^ (fls_nat n - 1) < 2 ^ j" if "\<not> lim \<le> n"
      by (rule le_less_trans [OF conjunct1 [OF fls_bounds [OF n]]]) (use that 1(3) in simp)
    then show "l \<le> j" by (auto simp: l_def)
    have "fls_nat n = Suc (fls_nat n - 1)" using n by (simp add: fls_nat.simps [of n])
    then have "(2 :: nat) ^ fls_nat n = 2 * 2 ^ (fls_nat n - 1)" by (metis power_Suc)
    then show "n - k' < k' \<or> l = j" using fls_bounds [OF n] by (auto simp: l_def k'_def)
  qed
  have d: "k' dvd pg" using 1(4) [of l] l by simp
  have "(a, k) = (pg, k') \<or> (a, k) \<in> set (pieces lim (pg + k') (n - k'))"
    using 1(2) by (simp add: pieces_step [OF n lim k'_def])
  moreover have "k dvd a \<and> (\<exists>i \<le> j. k = 2 ^ i)" if "(a, k) \<in> set (pieces lim (pg + k') (n - k'))"
  proof (rule 1(1) [OF _ k'_def that 1(3)])
    show "\<not> (n = 0 \<or> lim = 0)" using n 1(3) by simp
    fix i assume i: "(2 :: nat) ^ i \<le> n - k'" "i \<le> j"
    then have "2 ^ i dvd pg" by (intro 1(4)) auto
    moreover have "i \<le> l"
    proof (rule ccontr)
      assume "\<not> i \<le> l"
      then have "l \<noteq> j" "(2 :: nat) ^ l < 2 ^ i" using i(2) by auto
      then show False using i(1) l(1,4) by linarith
    qed
    then have "2 ^ i dvd k'" unfolding l(1) by (rule le_imp_power_dvd)
    ultimately show "2 ^ i dvd pg + k'" by simp
  qed
  ultimately show ?case using d l by auto
qed

text \<open>What a pair of registers says of a page: the test of the processor and of \<open>get_page_type\<close>.\<close>

definition matches :: "(u32 \<Rightarrow> u64) \<Rightarrow> u64 \<Rightarrow> nat \<Rightarrow> u64 \<Rightarrow> bool" where
  "matches g mx n page \<longleftrightarrow> mask_v (g (MTRR_PHYS_MASK (of_nat n))) \<and>
     page AND mask_mask (g (MTRR_PHYS_MASK (of_nat n))) AND mx =
     base_base (g (MTRR_PHYS_BASE (of_nat n))) AND mask_mask (g (MTRR_PHYS_MASK (of_nat n))) AND mx"

lemma fields [simp]:
  "mask_v (set_mask k raw)" "\<not> mask_v (clear_v raw)"
  "mask_mask (set_mask (ucast (x :: u32)) raw) = ucast x" "base_base (set_base (ucast (y :: u32)) t raw) = ucast y"
  "base_type (set_base (ucast y) t raw) = t" "def_type (set_def_type t raw) = t"
proof -
  have ff: "(0xff :: u64) = mask 8" by (simp add: mask_eq_exp_minus_1)
  show "def_type (set_def_type t raw) = t"
    unfolding set_def_type_def ff by (rule bit_eqI) (auto simp: def_type_def bit_simps)
  show "mask_v (set_mask k raw)" "\<not> mask_v (clear_v raw)"
    by (simp_all add: mask_v_def set_mask_def clear_v_def bit_simps)
  show "mask_mask (set_mask (ucast x) raw) = ucast x"
    by (rule bit_eqI) (auto simp: mask_mask_def set_mask_def bit_simps dest: bit_imp_le_length)
  show "base_base (set_base (ucast y) t raw) = ucast y"
    by (rule bit_eqI) (auto simp: base_base_def set_base_def bit_simps dest: bit_imp_le_length)
  have "(0xf00 :: u64) = push_bit 8 15" by simp
  then have "\<not> bit (0xf00 :: u64) n" if "n < 8" for n using that by (simp only: bit_push_bit_iff) simp
  then show "base_type (set_base (ucast y) t raw) = t"
    by (intro bit_eqI) (auto simp: base_type_def set_base_def bit_simps)
qed

text \<open>A mask of \<open>2 ^ i\<close> pages, in the 24 bits that SINIT wants.\<close>

definition range_mask :: "nat \<Rightarrow> u32" where "range_mask k = NOT (of_nat k - 1) AND SINIT_MTRR_MASK"

lemma bit_range_mask: "bit (range_mask (2 ^ i)) n \<longleftrightarrow> i \<le> n \<and> n < 24"
proof -
  have 1: "(of_nat (2 ^ i) - 1 :: u32) = mask i" by (simp add: mask_eq_exp_minus_1)
  have 2: "SINIT_MTRR_MASK = mask 24" by (simp add: SINIT_MTRR_MASK_def mask_eq_exp_minus_1)
  show ?thesis unfolding range_mask_def 1 2 by (auto simp: bit_simps)
qed

lemma bit_below: "(q :: nat) < 2 ^ n \<Longrightarrow> bit q j \<Longrightarrow> j < n"
  by (metis bit_take_bit_iff take_bit_nat_eq_self)

lemma matches_piece:
  assumes g: "g (MTRR_PHYS_BASE (of_nat n)) = set_base (ucast (of_nat a :: u32)) t r"
      "g (MTRR_PHYS_MASK (of_nat n)) = set_mask (ucast (range_mask k)) r'"
    and k: "k = 2 ^ i" "k dvd a" and a: "a < 2 ^ 20" and q: "q < 2 ^ 24" and mx: "mx AND 0xffffff = 0xffffff"
  shows "matches g mx n (of_nat q) \<longleftrightarrow> q \<in> {a..<a + k}"
proof -
  let ?K = "ucast (range_mask k) :: u64"
  have bq: "bit (of_nat q :: u64) j \<longleftrightarrow> bit q j" for j
    using bit_below [OF q, of j] by (auto simp: bit_simps)
  have ba: "bit (ucast (of_nat a :: u32) :: u64) j \<longleftrightarrow> bit a j" for j
    using bit_below [OF a, of j] by (auto simp: bit_simps)
  have bK: "bit ?K j \<longleftrightarrow> i \<le> j \<and> j < 24" for j
    using bit_range_mask [of i j] by (auto simp: bit_simps k(1) dest: bit_imp_le_length)
  have "(0xffffff :: u64) = mask 24" by (simp add: mask_eq_exp_minus_1)
  then have bx: "bit mx j" if "j < 24" for j
    using arg_cong [OF mx, of "\<lambda>w. bit w j"] that by (simp only: bit_and_iff bit_mask_iff) simp
  have "?K AND mx = ?K" by (rule bit_eqI) (use bx in \<open>auto simp: bK bit_and_iff\<close>)
  then have "matches g mx n (of_nat q) \<longleftrightarrow> of_nat q AND ?K = ucast (of_nat a :: u32) AND ?K"
    by (simp add: matches_def g and.assoc)
  also have "\<dots> \<longleftrightarrow> (\<forall>j. i \<le> j \<and> j < 24 \<longrightarrow> bit q j = bit a j)"
    by (auto simp: bit_eq_iff bit_and_iff bq ba bK) (drule_tac x = j in spec, simp)+
  also have "\<dots> \<longleftrightarrow> drop_bit i q = drop_bit i a"
  proof -
    have hi: "bit q j = bit a j" if "24 \<le> j" for j using that bit_below [OF q, of j] bit_below [OF a, of j] by auto
    show ?thesis
    proof
      assume eq: "\<forall>j. i \<le> j \<and> j < 24 \<longrightarrow> bit q j = bit a j"
      have "bit q (i + j) = bit a (i + j)" for j using eq hi [of "i + j"] by (cases "i + j < 24") auto
      then show "drop_bit i q = drop_bit i a" by (intro bit_eqI) (simp add: bit_drop_bit_eq)
    next
      assume "drop_bit i q = drop_bit i a"
      then have "bit q (i + (j - i)) = bit a (i + (j - i))" for j by (metis bit_drop_bit_eq comp_apply)
      then show "\<forall>j. i \<le> j \<and> j < 24 \<longrightarrow> bit q j = bit a j" by (metis le_add_diff_inverse)
    qed
  qed
  also have "\<dots> \<longleftrightarrow> q div k = a div k" by (simp add: drop_bit_eq_div k(1))
  also have "\<dots> \<longleftrightarrow> q \<in> {a..<a + k}"
  proof -
    obtain b where b: "a = k * b" using k(2) by blast
    have "0 < k" by (simp add: k(1))
    have "q div k = b \<longleftrightarrow> k * b \<le> q \<and> q < k * b + k"
      using \<open>0 < k\<close> by (metis div_nat_eqI dividend_less_times_div mult_Suc_right add.commute times_div_less_eq_dividend)
    then show ?thesis using \<open>0 < k\<close> by (simp add: b)
  qed
  finally show ?thesis .
qed

lemma low_zeros_some: "v \<noteq> 0 \<Longrightarrow> \<exists>z. low_zeros v i = Some (i + z) \<and> 2 ^ z dvd unat v"
proof (induction "unat v" arbitrary: v i rule: less_induct)
  case less
  have "v AND 1 = 0 \<longleftrightarrow> even v" by (simp add: and_one_eq mod_2_eq_odd)
  also have "\<dots> \<longleftrightarrow> even (unat v)" by (metis bit_0 bit_unsigned_iff len_gt_0 possible_bit_nat)
  finally have odd: "v AND 1 = 0 \<longleftrightarrow> even (unat v)" .
  have half: "unat (drop_bit 1 v) = unat v div 2" by (simp add: drop_bit_eq_div unat_div)
  show ?case
  proof (cases "even (unat v)")
    case True
    have v: "0 < unat v" using less.prems by (simp add: unat_gt_0)
    then have "unat (drop_bit 1 v) < unat v" "drop_bit 1 v \<noteq> 0" using half True by auto
    then obtain z where z: "low_zeros (drop_bit 1 v) (Suc i) = Some (Suc i + z)" "2 ^ z dvd unat (drop_bit 1 v)"
      using less.hyps by blast
    have "2 ^ Suc z dvd unat v" using z(2) True unfolding half by (auto elim!: evenE)
    then show ?thesis using z(1) True odd by (intro exI [of _ "Suc z"]) (subst low_zeros.simps, simp)
  next
    case False
    then show ?thesis using odd by (intro exI [of _ 0]) (subst low_zeros.simps, simp)
  qed
qed

lemma doubled: "((\<lambda>x :: u32. x * 2) ^^ n) 1 = of_nat (2 ^ n)"
  by (induction n) (simp_all add: mult.commute)

text \<open>The registers after the pairs from \<open>c\<close> on were set to the ranges.\<close>

primrec set_pieces :: "u8 \<Rightarrow> (nat \<times> nat) list \<Rightarrow> nat \<Rightarrow> (u32 \<Rightarrow> u64) \<Rightarrow> u32 \<Rightarrow> u64" where
  "set_pieces t [] c g = g"
| "set_pieces t (x # xs) c g = set_pieces t xs (Suc c)
     (g(MTRR_PHYS_BASE (of_nat c) := set_base (ucast (of_nat (fst x) :: u32)) t (g (MTRR_PHYS_BASE (of_nat c))),
        MTRR_PHYS_MASK (of_nat c) := set_mask (ucast (range_mask (snd x))) (g (MTRR_PHYS_MASK (of_nat c)))))"

lemma set_pieces_append: "set_pieces t (xs @ ys) c g = set_pieces t ys (c + length xs) (set_pieces t xs c g)"
  by (induction xs arbitrary: c g) simp_all

lemma yields_set_pair:
  assumes hw: "mtrr_file hw rm" and c: "c < 16" and pg: "pg = unat base div 4096"
  shows "yields (msrs rm s g m) (set_pair hw (of_nat c) base (of_nat k) t) (Ok ()) (msrs rm s (set_pieces (ucast t) [(pg, k)] c g) m)"
proof -
  have "unat base div 4096 < 2 ^ 20" using unat_u32_less [of base] by (simp add: less_mult_imp_div_less)
  then have "drop_bit 12 base AND SINIT_MTRR_MASK = of_nat pg"
  proof -
    have 1: "SINIT_MTRR_MASK = mask 24" by (simp add: SINIT_MTRR_MASK_def mask_eq_exp_minus_1)
    have "unat (drop_bit 12 base) = pg" by (simp add: pg drop_bit_eq_div unat_div)
    then have 2: "drop_bit 12 base = of_nat pg" by (metis of_nat_unat ucast_id)
    have "take_bit 24 (of_nat pg :: u32) = of_nat pg"
      by (rule bit_eqI) (use \<open>unat base div 4096 < 2 ^ 20\<close> bit_below [of pg 20] in \<open>fastforce simp: bit_simps pg\<close>)
    then show ?thesis unfolding 1 2 by (simp add: take_bit_eq_mask)
  qed
  then show ?thesis unfolding set_pair_def
    apply simp
    apply (rule yields_bind [OF yields_read_msr [OF hw]], use c in simp)
    apply (rule yields_bind [OF yields_write_msr [OF hw]], use c in simp)
    apply (rule yields_bind [OF yields_read_msr [OF hw]], use c in simp)
    using yields_write_msr [OF hw, of "MTRR_PHYS_MASK (of_nat c)" s] c
    apply (simp add: reg_distinct range_mask_def)
    done
qed

text \<open>One round: the base moves on by the pages of the range.\<close>

lemma next_base:
  fixes base num :: u32
  assumes "unat base + 4096 * n < 2 ^ 32" "k \<le> n" "unat num = n"
  shows "unat (base + of_nat k * 0x1000) = unat base + 4096 * k" "unat (num - of_nat k) = n - k"
    "unat (base + of_nat k * 0x1000) div 4096 = unat base div 4096 + k"
    "unat (base + of_nat k * 0x1000) + 4096 * (n - k) < 2 ^ 32"
proof -
  have "4096 * k \<le> 4096 * n" using assms(2) by simp
  then have b: "unat base + 4096 * k < 2 ^ 32" using assms(1) by linarith
  then have "k < 2 ^ 32" by linarith
  then have k: "unat (of_nat k :: u32) = k" by (simp add: unat_of_nat)
  have "unat (of_nat k * 0x1000 :: u32) = k * 4096" using b by (simp add: unat_word_ariths k)
  then show u: "unat (base + of_nat k * 0x1000) = unat base + 4096 * k" using b by (simp add: unat_word_ariths mult.commute)
  have "(of_nat k :: u32) \<le> num" using assms(2,3) k by (simp add: word_le_nat_alt)
  then show "unat (num - of_nat k) = n - k" by (simp add: unat_sub assms(3) k)
  show "unat (base + of_nat k * 0x1000) div 4096 = unat base div 4096 + k" unfolding u by simp
  have "4096 * k + 4096 * (n - k) = 4096 * n" using assms(2) by (simp flip: distrib_left)
  then show "unat (base + of_nat k * 0x1000) + 4096 * (n - k) < 2 ^ 32" using assms(1) unfolding u by linarith
qed

lemma last_pair:
  assumes "unat (vcnt :: u32) = V" "V \<le> 16" "c < V"
  shows "of_nat c + 1 = vcnt \<longleftrightarrow> Suc c = V"
proof -
  have "unat (of_nat c + 1 :: u32) = Suc c" using assms by (simp add: unat_word_ariths unat_of_nat)
  then show ?thesis using assms(1) by (metis word_unat_eq_iff)
qed

lemma yields_refuse: "yields (msrs rm s g m) (refuse txt) (Ok None) (msrs rm s g m)"
  unfolding refuse_def by (rule yields_bind [OF yields_msrs_tell yields_returnE])

text \<open>What a loop has done when it ends: the ranges \<open>xs\<close> of \<open>ps\<close> are set, those from the new base on are left.\<close>

definition loop_done :: "nat \<Rightarrow> u8 \<Rightarrow> nat \<Rightarrow> nat \<Rightarrow> (nat \<times> nat) list \<Rightarrow> (u32 \<Rightarrow> u64) \<Rightarrow> (u32 \<times> u32 \<times> u32) option \<Rightarrow> (u32 \<Rightarrow> u64) \<Rightarrow> bool" where
  "loop_done lim t V c ps g r g' \<longleftrightarrow> (case r of None \<Rightarrow> V \<le> c + length ps
     | Some (b', n', c') \<Rightarrow> \<exists>xs. c' = of_nat (c + length xs) \<and> c + length xs < V \<and> unat b' + 4096 * unat n' < 2 ^ 32 \<and>
         ps = xs @ pieces lim (unat b' div 4096) (unat n') \<and> g' = set_pieces t xs c g)"

lemma loop_done_Cons:
  "loop_done lim t V (Suc c) ps (set_pieces t [x] c g) r g' \<Longrightarrow> loop_done lim t V c (x # ps) g r g'"
  unfolding loop_done_def
  by (auto split: option.splits prod.splits)

lemma yields_whole_loop:
  assumes hw: "mtrr_file hw rm" and V: "unat vcnt = V" "V \<le> 16" and lim: "0 < lim" "lim < 2 ^ 32"
    and "n \<le> N" "c < V" "unat base + 4096 * n < 2 ^ 32" "unat num = n"
  shows "\<exists>r g'. yields (msrs rm s g m) (whole_loop hw vcnt t (of_nat lim) N (base, num, of_nat c)) (Ok r) (msrs rm s g' m) \<and>
    loop_done lim (ucast t) V c (pieces lim (unat base div 4096) n) g r g' \<and>
    (\<forall>b' n' c'. r = Some (b', n', c') \<longrightarrow> unat n' < lim)"
  using assms(6-)
proof (induction N arbitrary: n c base num g)
  case 0
  then show ?case using lim
    by (intro exI [of _ "Some (base, num, of_nat c)"] exI [of _ g]) (auto simp: loop_done_def pieces.simps yields_returnE intro!: exI [of _ "[]"])
next
  case (Suc N)
  have le: "of_nat lim \<le> num \<longleftrightarrow> lim \<le> n" using lim(2) Suc.prems(4) by (simp add: word_le_nat_alt unat_of_nat)
  let ?pg = "unat base div 4096"
  show ?case
  proof (cases "lim \<le> n")
    case False
    then show ?thesis using Suc.prems le
      by (intro exI [of _ "Some (base, num, of_nat c)"] exI [of _ g]) (auto simp: loop_done_def yields_returnE intro!: exI [of _ "[]"])
  next
    case True
    define g1 where "g1 = set_pieces (ucast t) [(?pg, lim)] c g"
    have ps: "pieces lim ?pg n = (?pg, lim) # pieces lim (?pg + lim) (n - lim)" using True lim by (intro pieces_step) auto
    note nb = next_base [OF Suc.prems(3) True Suc.prems(4)]
    have set: "yields (msrs rm s g m) (set_pair hw (of_nat c) base (of_nat lim) t) (Ok ()) (msrs rm s g1 m)"
      unfolding g1_def using Suc.prems V by (intro yields_set_pair [OF hw]) auto
    note cv = last_pair [OF V Suc.prems(2)]
    show ?thesis
    proof (cases "Suc c = V")
      case full: True
      have "yields (msrs rm s g m) (whole_loop hw vcnt t (of_nat lim) (Suc N) (base, num, of_nat c)) (Ok None) (msrs rm s g1 m)"
        using le True cv full by (auto intro: yields_bind [OF set] yields_refuse)
      then show ?thesis using full ps by (intro exI [of _ None] exI [of _ g1]) (auto simp: loop_done_def)
    next
      case False
      have side: "n - lim \<le> N" "Suc c < V" using Suc.prems(1,2) lim(1) False by arith+
      obtain r g' where r: "yields (msrs rm s g1 m) (whole_loop hw vcnt t (of_nat lim) N (base + of_nat lim * 0x1000, num - of_nat lim, of_nat (Suc c))) (Ok r) (msrs rm s g' m)"
          "loop_done lim (ucast t) V (Suc c) (pieces lim (?pg + lim) (n - lim)) g1 r g'"
          "\<forall>b' n' c'. r = Some (b', n', c') \<longrightarrow> unat n' < lim"
        using Suc.IH [OF side nb(4,2), of g1] unfolding nb(3) by auto
      have "yields (msrs rm s g m) (whole_loop hw vcnt t (of_nat lim) (Suc N) (base, num, of_nat c)) (Ok r) (msrs rm s g' m)"
        using le True cv False r(1) by (auto intro!: yields_bind [OF set] simp: add.commute)
      then show ?thesis using loop_done_Cons [OF r(2) [unfolded g1_def]] r(3) unfolding ps by blast
    qed
  qed
qed

lemma yields_rest_loop:
  assumes hw: "mtrr_file hw rm" and V: "unat vcnt = V" "V \<le> 16" and lim: "n < lim"
    and "n \<le> N" "c < V" "unat base + 4096 * n < 2 ^ 32" "unat num = n"
  shows "\<exists>r g'. yields (msrs rm s g m) (rest_loop hw vcnt t N (base, num, of_nat c)) (Ok r) (msrs rm s g' m) \<and>
    loop_done lim (ucast t) V c (pieces lim (unat base div 4096) n) g r g' \<and>
    (\<forall>b' n' c'. r = Some (b', n', c') \<longrightarrow> unat n' = 0)"
  using assms(4-)
proof (induction N arbitrary: n c base num g)
  case 0
  then show ?case
    by (intro exI [of _ "Some (base, num, of_nat c)"] exI [of _ g]) (auto simp: loop_done_def pieces.simps yields_returnE intro!: exI [of _ "[]"])
next
  case (Suc N)
  let ?pg = "unat base div 4096"
  show ?case
  proof (cases "n = 0")
    case True
    then show ?thesis using Suc.prems
      by (intro exI [of _ "Some (base, num, of_nat c)"] exI [of _ g])
        (auto simp: loop_done_def yields_returnE word_less_nat_alt intro!: exI [of _ "[]"])
  next
    case False
    define k where "k = (if lim \<le> n then lim else 2 ^ (fls_nat n - 1))"
    have k: "0 < k" "k \<le> n" using piece_size [of n lim k] False Suc.prems(1) by (auto simp: k_def)
    have pin: "push_bit (fls num - 1) 1 = (of_nat k :: u32)"
      using Suc.prems(1,5) by (simp add: fls_def k_def push_bit_eq_mult)
    have pos: "num > 0" using False Suc.prems(5) by (simp add: word_less_nat_alt)
    define g1 where "g1 = set_pieces (ucast t) [(?pg, k)] c g"
    have ps: "pieces lim ?pg n = (?pg, k) # pieces lim (?pg + k) (n - k)"
      by (rule pieces_step [OF _ _ k_def]) (use False Suc.prems(1) in auto)
    note nb = next_base [OF Suc.prems(4) k(2) Suc.prems(5)]
    have set: "yields (msrs rm s g m) (set_pair hw (of_nat c) base (of_nat k) t) (Ok ()) (msrs rm s g1 m)"
      unfolding g1_def using Suc.prems V by (intro yields_set_pair [OF hw]) auto
    note cv = last_pair [OF V Suc.prems(3)]
    show ?thesis
    proof (cases "Suc c = V")
      case full: True
      have "yields (msrs rm s g m) (rest_loop hw vcnt t (Suc N) (base, num, of_nat c)) (Ok None) (msrs rm s g1 m)"
        using pos pin cv full by (auto intro: yields_bind [OF set] yields_refuse simp: Let_def)
      then show ?thesis using full ps by (intro exI [of _ None] exI [of _ g1]) (auto simp: loop_done_def)
    next
      case False
      have side: "n - k < lim" "n - k \<le> N" "Suc c < V" using Suc.prems(1-3) k False by arith+
      obtain r g' where r: "yields (msrs rm s g1 m) (rest_loop hw vcnt t N (base + of_nat k * 0x1000, num - of_nat k, of_nat (Suc c))) (Ok r) (msrs rm s g' m)"
          "loop_done lim (ucast t) V (Suc c) (pieces lim (?pg + k) (n - k)) g1 r g'"
          "\<forall>b' n' c'. r = Some (b', n', c') \<longrightarrow> unat n' = 0"
        using Suc.IH [OF side nb(4,2), of g1] unfolding nb(3) by auto
      have "yields (msrs rm s g m) (rest_loop hw vcnt t (Suc N) (base, num, of_nat c)) (Ok r) (msrs rm s g' m)"
        using pos pin cv False r(1) by (auto intro!: yields_bind [OF set] simp: add.commute Let_def)
      then show ?thesis using loop_done_Cons [OF r(2) [unfolded g1_def]] r(3) unfolding ps by blast
    qed
  qed
qed

lemma yields_disable_loop:
  assumes hw: "mtrr_file hw rm" and "k + n \<le> 16"
  shows "\<exists>g'. yields (msrs rm s g m) (disable_loop hw n (of_nat k)) (Ok ()) (msrs rm s g' m) \<and>
    (\<forall>i < k + n. k \<le> i \<longrightarrow> \<not> mask_v (g' (MTRR_PHYS_MASK (of_nat i)))) \<and>
    (\<forall>i < k. g' (MTRR_PHYS_MASK (of_nat i)) = g (MTRR_PHYS_MASK (of_nat i))) \<and> g' MSR_MTRRdefType = g MSR_MTRRdefType"
  using assms(2)
proof (induction n arbitrary: k g)
  case 0
  then show ?case by (auto intro!: exI [of _ g] yields_returnE)
next
  case (Suc n)
  define g1 where "g1 = g(MTRR_PHYS_MASK (of_nat k) := clear_v (g (MTRR_PHYS_MASK (of_nat k))))"
  obtain g' where g': "yields (msrs rm s g1 m) (disable_loop hw n (of_nat (Suc k))) (Ok ()) (msrs rm s g' m)"
      "\<forall>i < Suc k + n. Suc k \<le> i \<longrightarrow> \<not> mask_v (g' (MTRR_PHYS_MASK (of_nat i)))"
      "\<forall>i < Suc k. g' (MTRR_PHYS_MASK (of_nat i)) = g1 (MTRR_PHYS_MASK (of_nat i))" "g' MSR_MTRRdefType = g1 MSR_MTRRdefType"
    using Suc.IH [of "Suc k" g1] Suc.prems by auto
  have "yields (msrs rm s g m) (disable_loop hw (Suc n) (of_nat k)) (Ok ()) (msrs rm s g' m)"
    unfolding disable_loop.simps
    apply (rule yields_bind [OF yields_read_msr [OF hw]], use Suc.prems in simp)
    apply (rule yields_bind [OF yields_write_msr [OF hw]], use Suc.prems in simp)
    using g'(1) by (simp add: g1_def add.commute)
  moreover have "g1 (MTRR_PHYS_MASK (of_nat i)) = (if i = k then clear_v (g (MTRR_PHYS_MASK (of_nat k))) else g (MTRR_PHYS_MASK (of_nat i)))"
    "g1 MSR_MTRRdefType = g MSR_MTRRdefType" if "i \<le> k" for i
    using that Suc.prems reg_distinct(8) [of k 0] by (auto simp: g1_def reg_distinct)
  ultimately show ?case using g'(2-4) by (intro exI [of _ g']) (auto simp: le_Suc_eq less_Suc_eq_le Suc_le_eq le_less)
qed

lemma set_pieces_other:
  assumes "c + length ps \<le> 16" "j < 16" "j < c \<or> c + length ps \<le> j"
  shows "set_pieces t ps c g (MTRR_PHYS_MASK (of_nat j)) = g (MTRR_PHYS_MASK (of_nat j)) \<and>
    set_pieces t ps c g (MTRR_PHYS_BASE (of_nat j)) = g (MTRR_PHYS_BASE (of_nat j))"
  using assms by (induction ps arbitrary: c g) (auto simp: reg_distinct)

lemma set_pieces_def_type:
  "c + length ps \<le> 16 \<Longrightarrow> set_pieces t ps c g MSR_MTRRdefType = g MSR_MTRRdefType"
  by (induction ps arbitrary: c g) (auto simp: reg_distinct [where j = 0])

lemma set_pieces_nth:
  assumes "c + length ps \<le> 16" "i < length ps"
  shows "(\<exists>r. set_pieces t ps c g (MTRR_PHYS_BASE (of_nat (c + i))) = set_base (ucast (of_nat (fst (ps ! i)) :: u32)) t r) \<and>
    (\<exists>r. set_pieces t ps c g (MTRR_PHYS_MASK (of_nat (c + i))) = set_mask (ucast (range_mask (snd (ps ! i)))) r)"
  using assms
proof (induction ps arbitrary: c g i)
  case (Cons x xs)
  show ?case
  proof (cases i)
    case 0
    have "c < 16" using Cons.prems(1) by simp
    have "set_pieces t xs (Suc c) g' (MTRR_PHYS_MASK (of_nat c)) = g' (MTRR_PHYS_MASK (of_nat c)) \<and>
        set_pieces t xs (Suc c) g' (MTRR_PHYS_BASE (of_nat c)) = g' (MTRR_PHYS_BASE (of_nat c))" for g'
      using Cons.prems(1) by (intro set_pieces_other) auto
    then show ?thesis using 0 \<open>c < 16\<close> by (auto simp: reg_distinct)
  next
    case (Suc j)
    then show ?thesis using Cons.IH [of "Suc c" j] Cons.prems by (simp del: of_nat_Suc of_nat_add)
  qed
qed simp

lemma page_count:
  assumes "unat (sz :: u32) + 4095 < 2 ^ 32"
  shows "unat (drop_bit 12 (PAGE_UP sz)) = (unat sz + 4095) div 4096"
proof -
  have "sz + 0x1000 - 1 = sz + 4095" by simp
  then have "unat (sz + 0x1000 - 1) = unat sz + 4095" using assms by (simp only: unat_word_ariths) simp
  then have "unat (PAGE_UP sz) = unat sz + 4095 - (unat sz + 4095) mod 4096"
    unfolding PAGE_UP_def page_mask unat_clear_low by simp
  then show ?thesis by (simp add: drop_bit_eq_div unat_div minus_mod_eq_mult_div)
qed

text \<open>The largest range that the alignment of \<open>base\<close> allows, in pages.\<close>

lemma alignment:
  assumes "base \<noteq> (0 :: u32)"
  obtains i where "low_zeros base 0 = Some i" "2 ^ (i - 12) < (2 :: nat) ^ 32" "2 ^ (i - 12) dvd unat base div 4096"
proof -
  obtain i where i: "low_zeros base 0 = Some i" "2 ^ i dvd unat base" using low_zeros_some [OF assms, of 0] by auto
  have "2 ^ i \<le> unat base" using i(2) assms by (intro dvd_imp_le) (simp_all add: unat_gt_0)
  then have "(2 :: nat) ^ i < 2 ^ 32" using unat_u32_less [of base] by linarith
  then have "i < 32" by (rule power_less_imp_less_exp [rotated]) simp
  have "2 ^ (i - 12) dvd unat base div 4096"
  proof (cases "12 \<le> i")
    case True
    then have "(2 :: nat) ^ i = 4096 * 2 ^ (i - 12)" using power_add [of "2 :: nat" 12 "i - 12"] by simp
    moreover obtain c where "unat base = 2 ^ i * c" using i(2) by blast
    ultimately have "unat base div 4096 = 2 ^ (i - 12) * c" by (simp add: mult.assoc)
    then show ?thesis by (rule dvdI)
  qed simp
  moreover have "2 ^ (i - 12) < (2 :: nat) ^ 32" by (rule power_strict_increasing) (use \<open>i < 32\<close> in auto)
  ultimately show thesis using i(1) by (intro that)
qed

definition sinit_pieces :: "u32 \<Rightarrow> u32 \<Rightarrow> (nat \<times> nat) list" where
  "sinit_pieces base sz =
     pieces (2 ^ (the (low_zeros base 0) - 12)) (unat base div 4096) ((unat sz + 4095) div 4096)"

lemma set_mem_type_run:
  assumes hw: "mtrr_file hw rm" and base: "base \<noteq> 0" "unat base + 4096 * ((unat sz + 4095) div 4096) < 2 ^ 32"
    and V: "V = unat (cap_vcnt (g 0xfe))" "0 < V" "V \<le> 16"
  shows "\<exists>b g'. yields (msrs rm s g m) (set_mem_type hw base sz t) (Ok b) (msrs rm s g' m) \<and>
    (b \<longleftrightarrow> length (sinit_pieces base sz) < V) \<and>
    (b \<longrightarrow> (\<exists>g1. g' = set_pieces (ucast t) (sinit_pieces base sz) 0 g1 \<and> (\<forall>i < V. \<not> mask_v (g1 (MTRR_PHYS_MASK (of_nat i)))) \<and>
       g1 MSR_MTRRdefType = set_def_type MTRR_TYPE_UNCACHABLE (clear_def_fe (g MSR_MTRRdefType))))"
proof -
  let ?np = "(unat sz + 4095) div 4096" and ?g0 = "g(MSR_MTRRdefType := set_def_type MTRR_TYPE_UNCACHABLE (clear_def_fe (g MSR_MTRRdefType)))"
  obtain i where i: "low_zeros base 0 = Some i" "2 ^ (i - 12) < (2 :: nat) ^ 32" using alignment [OF base(1)] by metis
  define lim :: nat where "lim = 2 ^ (i - 12)"
  have lim: "0 < lim" "lim < 2 ^ 32" using i(2) by (simp_all add: lim_def)
  have ps: "sinit_pieces base sz = pieces lim (unat base div 4096) ?np" by (simp add: sinit_pieces_def i lim_def)
  have "?np < 2 ^ 20" using base(2) by simp
  then have np: "unat (drop_bit 12 (PAGE_UP sz)) = ?np" by (intro page_count) (simp add: div_less_iff_less_mult)
  have "g 0xfe = ?g0 0xfe" by (simp add: MSR_MTRRdefType_def)
  obtain g1 where g1: "yields (msrs rm s ?g0 m) (disable_loop hw V (of_nat 0)) (Ok ()) (msrs rm s g1 m)"
      "\<forall>i < 0 + V. 0 \<le> i \<longrightarrow> \<not> mask_v (g1 (MTRR_PHYS_MASK (of_nat i)))" "g1 MSR_MTRRdefType = ?g0 MSR_MTRRdefType"
    using yields_disable_loop [OF hw, of 0 V s ?g0 m] V(3) by auto
  obtain r g2 where w: "yields (msrs rm s g1 m) (whole_loop hw (cap_vcnt (g 0xfe)) t (of_nat lim) ?np (base, drop_bit 12 (PAGE_UP sz), of_nat 0)) (Ok r) (msrs rm s g2 m)"
      "loop_done lim (ucast t) V 0 (pieces lim (unat base div 4096) ?np) g1 r g2"
      "\<forall>b' n' c'. r = Some (b', n', c') \<longrightarrow> unat n' < lim"
    using yields_whole_loop [OF hw V(1) [symmetric] V(3) lim order_refl V(2) base(2) np, of s g1 m t] by blast
  have d0: "yields (msrs rm s ?g0 m) (disable_loop hw V 0) (Ok ()) (msrs rm s g1 m)" using g1(1) by simp
  have w0: "yields (msrs rm s g1 m) (whole_loop hw (cap_vcnt (g 0xfe)) t (of_nat lim) ?np (base, drop_bit 12 (PAGE_UP sz), 0)) (Ok r) (msrs rm s g2 m)"
    using w(1) by simp
  have pre: "yields (msrs rm s g m) (set_mem_type hw base sz t) q Q"
    if "yields (msrs rm s g2 m) (case r of None \<Rightarrow> returnE False
         | Some (base, num_pages, ndx) \<Rightarrow>
             bindE (rest_loop hw (cap_vcnt (g 0xfe)) t (unat num_pages) (base, num_pages, ndx)) (\<lambda>r. returnE (r \<noteq> None))) q Q" for q Q
    unfolding set_mem_type_def Let_def
    apply (rule yields_bind [OF yields_read_msr [OF hw]], simp)
    apply (rule yields_bind [OF yields_write_msr [OF hw]], simp)
    apply (rule yields_bind [OF yields_read_msr [OF hw]], simp add: MSR_MTRRcap_def)
    apply (unfold MSR_MTRRcap_def \<open>g 0xfe = ?g0 0xfe\<close> [symmetric] V(1) [symmetric])
    apply (rule yields_bind [OF d0])
    apply (simp only: i(1) option.case doubled np flip: lim_def)
    apply (rule yields_bind [OF w0])
    apply (rule that)
    done
  show ?thesis
  proof (cases r)
    case None
    then have "yields (msrs rm s g m) (set_mem_type hw base sz t) (Ok False) (msrs rm s g2 m)"
      by (intro pre) (simp add: yields_returnE)
    moreover have "\<not> length (sinit_pieces base sz) < V" using w(2) None ps by (simp add: loop_done_def)
    ultimately show ?thesis by blast
  next
    case (Some x)
    obtain b' n' c' where x: "x = (b', n', c')" by (cases x)
    obtain xs where xs: "c' = of_nat (0 + length xs)" "0 + length xs < V" "unat b' + 4096 * unat n' < 2 ^ 32"
        "pieces lim (unat base div 4096) ?np = xs @ pieces lim (unat b' div 4096) (unat n')" "g2 = set_pieces (ucast t) xs 0 g1"
      using w(2) Some x by (auto simp: loop_done_def)
    obtain r' g3 where r': "yields (msrs rm s g2 m) (rest_loop hw (cap_vcnt (g 0xfe)) t (unat n') (b', n', c')) (Ok r') (msrs rm s g3 m)"
        "loop_done lim (ucast t) V (0 + length xs) (pieces lim (unat b' div 4096) (unat n')) g2 r' g3"
        "\<forall>b' n' c'. r' = Some (b', n', c') \<longrightarrow> unat n' = 0"
      using yields_rest_loop [OF hw V(1) [symmetric] V(3) _ order_refl xs(2,3) refl, of lim s g2 m t] w(3) Some x xs(1) by auto
    have "yields (msrs rm s g m) (set_mem_type hw base sz t) (Ok (r' \<noteq> None)) (msrs rm s g3 m)"
      by (rule pre) (simp add: Some x, rule yields_bind [OF r'(1) yields_returnE])
    moreover have "r' \<noteq> None \<longleftrightarrow> length (sinit_pieces base sz) < V"
      using r'(2,3) by (auto simp: ps xs(4) loop_done_def pieces.simps [of _ _ 0] split: option.splits)
    moreover have "g3 = set_pieces (ucast t) (sinit_pieces base sz) 0 g1" if "r' \<noteq> None"
      using r'(2,3) that by (auto simp: ps xs(4,5) loop_done_def pieces.simps [of _ _ 0] set_pieces_append)
    ultimately show ?thesis using g1(2,3) by (intro exI [of _ "r' \<noteq> None"] exI [of _ g3]) auto
  qed
qed

lemma sinit_pieces_aligned:
  assumes "base \<noteq> 0" "(a, k) \<in> set (sinit_pieces base sz)"
  shows "k dvd a \<and> (\<exists>i. k = 2 ^ i)"
proof -
  obtain i where i: "low_zeros base 0 = Some i" "2 ^ (i - 12) dvd unat base div 4096" using alignment [OF assms(1)] by metis
  have "2 ^ j dvd unat base div 4096" if "j \<le> i - 12" for j
    using le_imp_power_dvd [OF that] i(2) by (rule dvd_trans)
  then show ?thesis using pieces_aligned [OF refl _ assms(2) [unfolded sinit_pieces_def i(1) option.sel]] by blast
qed

lemma pages_bound: "(b :: nat) + 4096 * n < 2 ^ 32 \<Longrightarrow> b div 4096 + n < 2 ^ 20"
  by simp

lemma sinit_pieces_tile:
  "base \<noteq> 0 \<Longrightarrow> (\<Union>(a, k) \<in> set (sinit_pieces base sz). {a..<a + k}) = {unat base div 4096..<unat base div 4096 + (unat sz + 4095) div 4096}"
  unfolding sinit_pieces_def by (rule pieces_tile) simp

text \<open>What the registers say when the pieces of a module are set and all others are disabled.\<close>

lemma set_pieces_covers:
  assumes mx: "mx AND 0xffffff = 0xffffff" and base: "base \<noteq> 0" "unat base + 4096 * ((unat sz + 4095) div 4096) < 2 ^ 32"
    and V: "length (sinit_pieces base sz) < V" "V \<le> 16"
    and g1: "g = set_pieces t (sinit_pieces base sz) 0 g1" "\<And>i. i < V \<Longrightarrow> \<not> mask_v (g1 (MTRR_PHYS_MASK (of_nat i)))"
      "def_type (g1 MSR_MTRRdefType) = MTRR_TYPE_UNCACHABLE"
  shows "def_type (g MSR_MTRRdefType) = MTRR_TYPE_UNCACHABLE \<and>
       (\<forall>q < 2 ^ 24. (\<exists>n < V. matches g mx n (of_nat q)) \<longleftrightarrow>
          unat base div 4096 \<le> q \<and> q < unat base div 4096 + (unat sz + 4095) div 4096) \<and>
       (\<forall>n < V. mask_v (g (MTRR_PHYS_MASK (of_nat n))) \<longrightarrow> base_type (g (MTRR_PHYS_BASE (of_nat n))) = t)"
proof (intro conjI allI impI)
  let ?ps = "sinit_pieces base sz"
  have l: "0 + length ?ps \<le> 16" "length ?ps < V" using V by auto
  have inside: "(\<exists>r. g (MTRR_PHYS_BASE (of_nat n)) = set_base (ucast (of_nat (fst (?ps ! n)) :: u32)) t r) \<and>
      (\<exists>r. g (MTRR_PHYS_MASK (of_nat n)) = set_mask (ucast (range_mask (snd (?ps ! n)))) r)" if "n < length ?ps" for n
    using set_pieces_nth [OF l(1) that] by (simp add: g1(1))
  have outside: "\<not> mask_v (g (MTRR_PHYS_MASK (of_nat n)))" if "length ?ps \<le> n" "n < V" for n
    using set_pieces_other [OF l(1), of n] g1(2) [OF that(2)] that V(2) by (simp add: g1(1))
  show "def_type (g MSR_MTRRdefType) = MTRR_TYPE_UNCACHABLE"
    by (simp add: g1 set_pieces_def_type [OF l(1)])
  show "base_type (g (MTRR_PHYS_BASE (of_nat n))) = t" if "n < V" "mask_v (g (MTRR_PHYS_MASK (of_nat n)))" for n
    using inside [of n] outside [of n] that by (cases "n < length ?ps") auto
  fix q :: nat assume q: "q < 2 ^ 24"
  have m: "matches g mx n (of_nat q) \<longleftrightarrow> q \<in> {fst (?ps ! n)..<fst (?ps ! n) + snd (?ps ! n)}" if n: "n < length ?ps" for n
  proof -
    obtain a k where ak: "?ps ! n = (a, k)" by (cases "?ps ! n")
    then have in_: "(a, k) \<in> set ?ps" using n by (metis nth_mem)
    obtain i where "k dvd a" "k = 2 ^ i" using sinit_pieces_aligned [OF base(1) in_] by blast
    moreover have "a \<in> (\<Union>(a, k) \<in> set ?ps. {a..<a + k})" by (rule UN_I [OF in_]) (simp add: \<open>k = 2 ^ i\<close>)
    then have "a < unat base div 4096 + (unat sz + 4095) div 4096" by (simp add: sinit_pieces_tile [OF base(1)])
    then have "a < 2 ^ 20" using pages_bound [OF base(2)] by (rule less_trans)
    moreover obtain r r' where "g (MTRR_PHYS_BASE (of_nat n)) = set_base (ucast (of_nat a :: u32)) t r"
        "g (MTRR_PHYS_MASK (of_nat n)) = set_mask (ucast (range_mask k)) r'" using inside [OF n] ak by auto
    ultimately show ?thesis using matches_piece [OF _ _ _ _ _ q mx] ak by simp
  qed
  have "(\<exists>n < V. matches g mx n (of_nat q)) \<longleftrightarrow> (\<exists>n < length ?ps. matches g mx n (of_nat q))"
  proof
    assume "\<exists>n < V. matches g mx n (of_nat q)"
    then obtain n where "n < V" "matches g mx n (of_nat q)" by blast
    then show "\<exists>n < length ?ps. matches g mx n (of_nat q)" using outside [of n]
      by (intro exI [of _ n]) (auto simp: matches_def not_less [symmetric])
  qed (use l(2) in \<open>auto intro: less_trans\<close>)
  also have "\<dots> \<longleftrightarrow> (\<exists>n < length ?ps. q \<in> {fst (?ps ! n)..<fst (?ps ! n) + snd (?ps ! n)})"
    using m by (simp cong: conj_cong)
  also have "\<dots> \<longleftrightarrow> (\<exists>x \<in> set ?ps. q \<in> {fst x..<fst x + snd x})" by (simp only: set_conv_nth) blast
  also have "\<dots> \<longleftrightarrow> q \<in> (\<Union>(a, k) \<in> set ?ps. {a..<a + k})" by (simp add: case_prod_unfold)
  finally show "(\<exists>n < V. matches g mx n (of_nat q)) \<longleftrightarrow>
      unat base div 4096 \<le> q \<and> q < unat base div 4096 + (unat sz + 4095) div 4096"
    by (simp add: sinit_pieces_tile [OF base(1)])
qed

text \<open>
  C24: \<open>set_mem_type\<close> always returns for a module that does not start at address 0. It reports success
  exactly when the ranges it needs (as large as the alignment of the base allows, then the powers of two
  that are left) are fewer than the pairs of registers. Then the default type is uncacheable and, for every
  page below 64 GB, a pair of registers matches the page if and only if the page belongs to the
  module; every pair that matches has the wanted type. \<open>mx\<close> is the widest page number of the processor, of 24
  bits or more.
\<close>

theorem set_mem_type_covers:
  assumes hw: "mtrr_file hw rm" and ok: "intel_ok s" and mx: "mx AND 0xffffff = 0xffffff"
    and base: "base \<noteq> 0" "unat base + 4096 * ((unat sz + 4095) div 4096) < 2 ^ 32"
    and V: "V = unat (cap_vcnt (rm (w_dev (i_world s)) 0xfe))" "0 < V" "V \<le> 16"
  shows "\<exists>b s'. set_mem_type hw base sz t s = (Ok b, s') \<and> (b \<longleftrightarrow> length (sinit_pieces base sz) < V) \<and>
    (let g = rm (w_dev (i_world s')) in
     b \<longrightarrow> def_type (g MSR_MTRRdefType) = MTRR_TYPE_UNCACHABLE \<and>
       (\<forall>q < 2 ^ 24. (\<exists>n < V. matches g mx n (of_nat q)) \<longleftrightarrow>
          unat base div 4096 \<le> q \<and> q < unat base div 4096 + (unat sz + 4095) div 4096) \<and>
       (\<forall>n < V. mask_v (g (MTRR_PHYS_MASK (of_nat n))) \<longrightarrow> base_type (g (MTRR_PHYS_BASE (of_nat n))) = ucast t))"
proof -
  let ?ps = "sinit_pieces base sz"
  obtain b g where run: "yields (msrs rm s (rm (w_dev (i_world s))) (i_mem s)) (set_mem_type hw base sz t) (Ok b) (msrs rm s g (i_mem s))"
    and b: "b \<longleftrightarrow> length ?ps < V"
    and g: "b \<longrightarrow> (\<exists>g1. g = set_pieces (ucast t) ?ps 0 g1 \<and> (\<forall>i < V. \<not> mask_v (g1 (MTRR_PHYS_MASK (of_nat i)))) \<and>
       g1 MSR_MTRRdefType = set_def_type MTRR_TYPE_UNCACHABLE (clear_def_fe (rm (w_dev (i_world s)) MSR_MTRRdefType)))"
    using set_mem_type_run [where g = "rm (w_dev (i_world s))", OF hw base V, of s "i_mem s" t] by blast
  have props: "def_type (g MSR_MTRRdefType) = MTRR_TYPE_UNCACHABLE \<and>
       (\<forall>q < 2 ^ 24. (\<exists>n < V. matches g mx n (of_nat q)) \<longleftrightarrow>
          unat base div 4096 \<le> q \<and> q < unat base div 4096 + (unat sz + 4095) div 4096) \<and>
       (\<forall>n < V. mask_v (g (MTRR_PHYS_MASK (of_nat n))) \<longrightarrow> base_type (g (MTRR_PHYS_BASE (of_nat n))) = ucast t)" if succ: b
  proof -
    obtain g1 where g1: "g = set_pieces (ucast t) ?ps 0 g1" "\<And>i. i < V \<Longrightarrow> \<not> mask_v (g1 (MTRR_PHYS_MASK (of_nat i)))"
        "g1 MSR_MTRRdefType = set_def_type MTRR_TYPE_UNCACHABLE (clear_def_fe (rm (w_dev (i_world s)) MSR_MTRRdefType))"
      using g succ by blast
    show ?thesis using b succ V(3) by (intro set_pieces_covers [OF mx base _ _ g1(1,2)]) (simp_all add: g1(3))
  qed
  obtain s' where s': "set_mem_type hw base sz t s = (Ok b, s')" "msrs rm s g (i_mem s) s'"
    using yieldsD [OF run msrs_start [OF ok]] by blast
  show ?thesis unfolding Let_def
    by (intro exI [of _ b] exI [of _ s'] conjI s'(1) b) (use props msrs_parts(2) [OF s'(2)] in blast)
qed


lemma sinit_pieces_example: "sinit_pieces 0x140000 0x5000 = [(0x140, 4), (0x144, 1)]"
proof -
  have "low_zeros 0x140000 0 = Some 18"
    by (subst low_zeros.simps, simp)+
  then show ?thesis by (simp add: sinit_pieces_def pieces.simps fls_nat.simps)
qed

theorem set_mem_type_covers_witness:
  "\<exists>s'. set_mem_type msr_hw 0x140000 0x5000 6 (sim_intel (\<lambda>_. 0) ((\<lambda>_. 0)(0xfe := 8))) = (Ok True, s') \<and>
     (\<exists>n < 8. matches (s_core (w_dev (i_world s'))) 0xffffff n (of_nat 0x143)) \<and>
     \<not> (\<exists>n < 8. matches (s_core (w_dev (i_world s'))) 0xffffff n (of_nat 0x145))"
proof -
  let ?s = "sim_intel (\<lambda>_. 0) ((\<lambda>_. 0)(0xfe := 8)) :: (u32 \<Rightarrow> u64) sim intel"
  have V: "8 = unat (cap_vcnt (s_core (w_dev (i_world ?s)) 0xfe))" by (simp add: cap_vcnt_def)
  obtain b s' where run: "set_mem_type msr_hw 0x140000 0x5000 6 ?s = (Ok b, s')" and b: "b \<longleftrightarrow> length (sinit_pieces 0x140000 0x5000) < 8"
    and m: "b \<longrightarrow> (\<forall>q < 2 ^ 24. (\<exists>n < 8. matches (s_core (w_dev (i_world s'))) 0xffffff n (of_nat q)) \<longleftrightarrow>
          unat (0x140000 :: u32) div 4096 \<le> q \<and> q < unat (0x140000 :: u32) div 4096 + (unat (0x5000 :: u32) + 4095) div 4096)"
    using set_mem_type_covers [OF msr_hw_file, of ?s "0xffffff" "0x140000" "0x5000", OF _ _ _ _ V, where t = 6]
    unfolding Let_def by auto
  have "b" using b by (simp add: sinit_pieces_example)
  then show ?thesis using run m [rule_format, of "0x143"] m [rule_format, of "0x145"] by simp
qed

end
