(* ===== verification/Launch_Correct.thy ===== *)
theory Launch_Correct
  imports TXT_Correct Linux_Correct MTRR_Correct
begin

text \<open>
  More proofs on the launch of the measured environment (\<^verbatim>\<open>src/arch-intel/txt.c\<close>): after the launch no RAM of the
  memory map lies outside the regions that are protected from devices, and the page table for the SINIT
  module maps exactly the pages of the environment.
\<close>

declare tell.simps [simp del] tell_all.simps [simp del]

section \<open>An image\<close>

text \<open>Places for the parts of a loader that ends at \<open>0x900000\<close>.\<close>

definition demo_symbols :: symbols where
  "demo_symbols = \<lparr>sym_start = 0x804000, sym_end = 0x900000, sym_mle_start = 0x804000, sym_mle_end = 0x880000, sym_skinit = 0x804100,
     sym_txt_wakeup = 0x804200, sym_g_mle_hdr = 0x804300, sym_g_mle_pt = 0x801000, sym_g_rsdp = 0x880000, sym_tboot_shared = 0x881000,
     sym_g_cmdline = 0x882000, sym_gdt = 0x883000, sym_end_gdt = 0x883020, sym_shutdown_entry = 0x804400, sym_mle_join = 0x884000,
     sym_ap_lock = 0x884100, sym_s3_wakeup_16 = 0x805000, sym_s3_wakeup_end = 0x805100, sym_g_saved_s3_wakeup_page = 0x885000,
     sym_idle_pg_table = 0x900000, sym_host_vmcs = 0x886000, sym_ap_vmcs = 0x901000, sym_mini_guest = 0x804500,
     sym_vmx_asm_vmexit_handler = 0x804600, sym_string = (\<lambda>_. 0)\<rparr>"

section \<open>The ranges of RAM\<close>

text \<open>A region of RAM lies in the low range or in the high one.\<close>

definition within_ranges :: "ram_ranges \<Rightarrow> region \<Rightarrow> bool" where
  "within_ranges r x \<longleftrightarrow>
     fst x + fst (snd x) \<le> 2 ^ 32 \<and> unat (min_lo_ram r) \<le> fst x \<and> fst x + fst (snd x) \<le> unat (max_lo_ram r) \<or>
     2 ^ 32 \<le> fst x \<and> unat (min_hi_ram r) \<le> fst x \<and> fst x + fst (snd x) \<le> unat (max_hi_ram r)"

definition ranges_ok :: "ram_ranges \<Rightarrow> bool" where
  "ranges_ok r \<longleftrightarrow> unat (max_lo_ram r) \<le> 2 ^ 32 \<and> 2 ^ 32 \<le> unat (min_hi_ram r)"

lemma ranges_ok_add: "ranges_ok r \<Longrightarrow> ranges_ok (add_low b l r)" "ranges_ok r \<Longrightarrow> ranges_ok (add_high b l r)"
  by (auto simp: ranges_ok_def add_low_def add_high_def word_le_nat_alt)

lemma within_mono:
  "within_ranges r x \<Longrightarrow> within_ranges (add_low b l r) x" "within_ranges r x \<Longrightarrow> within_ranges (add_high b l r) x"
  by (auto simp: within_ranges_def add_low_def add_high_def word_less_nat_alt)

lemma within_new:
  assumes "unat limit = unat base + l" "0 < l" "\<not> (base < 0x100000000 \<and> limit > 0x100000000)"
  shows "within_ranges (add_high base limit (add_low base limit r)) (unat base, l, t)"
    "2 ^ 32 \<le> unat base \<Longrightarrow> within_ranges (add_high base limit r) (unat base, l, t)"
  using assms by (auto simp: within_ranges_def add_low_def add_high_def word_less_nat_alt not_less word_le_nat_alt)

lemma reserve_one:
  assumes "ordered (P @ (b, l, E820_RAM) # Q)"
  shows "reserve b (b + l) (P @ (b, l, E820_RAM) # Q) = P @ (b, l, E820_RESERVED) # Q"
proof -
  have l: "0 < l" and P: "\<forall>r \<in> set P. fst r + fst (snd r) \<le> b" and Q: "\<forall>r \<in> set Q. b + l \<le> fst r"
    using assms by (auto simp: ordered_def proper_def sorted_wrt_append apart_def)
  then show ?thesis using reserve_below [OF P, of "b + l"] reserve_above [OF Q, of b] by simp
qed

lemma ranges_loop_sound:
  fixes s :: "'d intel"
  assumes "ranges_loop i found r s = Some (Ok (Inr r'), s')" "e820_wf (g_e820 s)" "unat (nr_map (g_e820 s)) < 255"
    and "regions (g_e820 s) = P @ Q" "unat i = length P" "\<forall>x \<in> set P. snd (snd x) = E820_RAM \<longrightarrow> within_ranges r x" "found \<Longrightarrow> P \<noteq> []"
    and "ranges_ok r"
  shows "e820_wf (g_e820 s') \<and> nr_map (g_e820 s') = nr_map (g_e820 s) \<and> i_mem s' = i_mem s \<and>
    (\<forall>x \<in> set (regions (g_e820 s')). snd (snd x) = E820_RAM \<longrightarrow> within_ranges r' x) \<and> ranges_ok r'"
  using assms
proof (induction Q arbitrary: i found r s P)
  case Nil
  have "\<not> i < nr_map (g_e820 s)" using Nil.prems(4,5) length_regions [of "g_e820 s"] by (simp add: word_less_nat_alt)
  then have "r' = r" "s' = s" using Nil.prems(1) by (subst (asm) ranges_loop.simps, simp)+
  then show ?case using Nil.prems by simp
next
  case (Cons x Q)
  let ?e = "entry_at (g_e820 s) i"
  define base where "base = e820_base_64 ?e"
  define limit where "limit = base + e820_length_64 ?e"
  have lt: "i < nr_map (g_e820 s)" using Cons.prems(4,5) length_regions [of "g_e820 s"] by (simp add: word_less_nat_alt)
  have x: "x = (unat base, unat (e820_length_64 ?e), mm_type ?e)"
  proof -
    have "regions (g_e820 s) ! unat i = region (entries (g_e820 s) ! unat i)"
      using lt by (simp add: regions_def word_less_nat_alt)
    then show ?thesis using Cons.prems(4,5) entries_nth [OF lt] by (simp add: region_def base_def)
  qed
  have ord: "ordered (P @ x # Q)" using Cons.prems(2,4) by (simp add: e820_wf_def)
  then have l: "unat limit = unat base + unat (e820_length_64 ?e)" "0 < unat (e820_length_64 ?e)"
    by (auto simp: x limit_def ordered_def proper_def u64_add)
  have i1: "unat (i + 1) = length (P @ [y])" for y using u32_next [OF lt] Cons.prems(5) by simp
  note step = Cons.prems(1) [unfolded ranges_loop.simps [of i] Let_def, folded base_def, folded limit_def]
  have again: ?case if "ranges_loop (i + 1) found' r1 s = Some (Ok (Inr r'), s')"
      "mm_type ?e = E820_RAM \<Longrightarrow> within_ranges r1 x" "\<And>y. within_ranges r y \<Longrightarrow> within_ranges r1 y" "ranges_ok r1" for found' r1
    by (rule Cons.IH [OF that(1) Cons.prems(2,3), of "P @ [x]"]) (use Cons.prems(4,6) i1 that(2-4) x in auto)
  consider "mm_type ?e \<noteq> E820_RAM" | "mm_type ?e = E820_RAM" "base < 0x100000000" "limit > 0x100000000"
    | "mm_type ?e = E820_RAM" "\<not> (base < 0x100000000 \<and> limit > 0x100000000)" "\<not> found \<or> base \<le> 0"
    | "mm_type ?e = E820_RAM" "\<not> (base < 0x100000000 \<and> limit > 0x100000000)" "\<not> (\<not> found \<or> base \<le> 0)" "\<not> base < 0x100000000"
    | "mm_type ?e = E820_RAM" "\<not> (base < 0x100000000 \<and> limit > 0x100000000)" "\<not> (\<not> found \<or> base \<le> 0)" "base < 0x100000000"
    by blast
  then show ?case
  proof cases
    case 1
    then show ?thesis using step lt Cons.prems(8) by (intro again [of _ r]) auto
  next
    case 2
    then show ?thesis using step lt by (auto simp: bindE_def returnE_def split: prod.splits res.splits)
  next
    case 3
    then have "ranges_loop (i + 1) found (add_high base limit (add_low base limit r)) s = Some (Ok (Inr r'), s')"
      using step [unfolded if_P [OF lt] if_P [OF 3(1)] if_not_P [OF 3(2)] if_P [OF 3(3)]] by simp
    then show ?thesis by (rule again) (use within_new(1) [OF l 3(2)] x Cons.prems(8) in \<open>auto intro: within_mono ranges_ok_add\<close>)
  next
    case 4
    then have "ranges_loop (i + 1) found (add_high base limit r) s = Some (Ok (Inr r'), s')"
      using step [unfolded if_P [OF lt] if_P [OF 4(1)] if_not_P [OF 4(2)] if_not_P [OF 4(3)] if_not_P [OF 4(4)]] by simp
    then show ?thesis
      by (rule again) (use within_new(2) [OF l 4(2)] 4(4) x Cons.prems(8) in \<open>auto intro: within_mono ranges_ok_add simp: word_less_nat_alt\<close>)
  next
    case 5
    let ?b = "unat base" and ?l = "unat (e820_length_64 ?e)"
    have sp: "spans base (limit - base) ?b (?b + ?l)"
      using l unat_u64_less [of limit] by (simp add: spans_def limit_def word_less_nat_alt)
    have P: "P \<noteq> []" using 5(3) Cons.prems(7) by simp
    have "first_kept ?b (?b + ?l) (regions (g_e820 s))"
      using P ord Cons.prems(4) unfolding first_kept_def
      by (cases P) (auto simp: x ordered_def proper_def apart_def split: prod.splits)
    then obtain m where m: "e820_reserve_ram base (limit - base) s = (Ok True, s\<lparr>g_e820 := m\<rparr>)"
        "regions m = reserve ?b (?b + ?l) (regions (g_e820 s))" "ordered (regions m)"
      using e820_reserve_ram_regions [OF Cons.prems(2,3) sp] by blast
    have rm: "regions m = P @ (?b, ?l, E820_RESERVED) # Q"
      unfolding m(2) Cons.prems(4) using reserve_one [of P ?b ?l Q] ord x 5(1) by simp
    have nr: "nr_map m = nr_map (g_e820 s)"
      using length_regions [of m] length_regions [of "g_e820 s"] rm Cons.prems(4) by (simp add: word_unat_eq_iff)
    have "ranges_loop (i + 1) found (add_high base limit r) (s\<lparr>g_e820 := m\<rparr>) = Some (Ok (Inr r'), s')"
      using step [unfolded if_P [OF lt] if_P [OF 5(1)] if_not_P [OF 5(2)] if_not_P [OF 5(3)] if_P [OF 5(4)] m(1)] by simp
    from Cons.IH [OF this, of "P @ [(?b, ?l, E820_RESERVED)]"] show ?thesis
      using Cons.prems(2,3,6,8) m(3) nr rm i1 by (auto simp: e820_wf_def intro: within_mono ranges_ok_add)
  qed
qed

lemma get_ram_ranges_sound:
  fixes s :: "'d intel"
  assumes "get_ram_ranges s = (Ok (True, r), s')" "e820_wf (g_e820 s)" "unat (nr_map (g_e820 s)) < 255"
  shows "e820_wf (g_e820 s') \<and> nr_map (g_e820 s') = nr_map (g_e820 s) \<and> i_mem s' = i_mem s \<and>
    (\<forall>x \<in> set (regions (g_e820 s')). snd (snd x) = E820_RAM \<longrightarrow> within_ranges r x) \<and>
    unat (min_lo_ram r) < unat (max_lo_ram r) \<and> unat (max_lo_ram r) \<le> 2 ^ 32 \<and>
    (min_hi_ram r = 0 \<and> max_hi_ram r = 0 \<or> 2 ^ 32 \<le> unat (min_hi_ram r) \<and> unat (min_hi_ram r) \<le> unat (max_hi_ram r))"
proof -
  let ?r0 = "\<lparr>min_lo_ram = - 1, max_lo_ram = 0, min_hi_ram = - 1, max_hi_ram = 0\<rparr> :: ram_ranges"
  obtain r1 where r1: "ranges_loop 0 False ?r0 s = Some (Ok (Inr r1), s')" "\<not> min_lo_ram r1 \<ge> max_lo_ram r1"
      "r = (if min_hi_ram r1 \<ge> max_hi_ram r1 then r1\<lparr>min_hi_ram := 0, max_hi_ram := 0\<rparr> else r1)"
    using assms(1) by (auto simp: get_ram_ranges_def bindE_def getE_def returnE_def stopE_def Let_def
        split: if_splits prod.splits res.splits option.splits sum.splits)
  have "ranges_ok ?r0" by (simp add: ranges_ok_def unsigned_minus_1_eq_mask mask_eq_exp_minus_1)
  then have snd': "e820_wf (g_e820 s') \<and> nr_map (g_e820 s') = nr_map (g_e820 s) \<and> i_mem s' = i_mem s \<and>
      (\<forall>x \<in> set (regions (g_e820 s')). snd (snd x) = E820_RAM \<longrightarrow> within_ranges r1 x) \<and> ranges_ok r1"
    by (intro ranges_loop_sound [OF r1(1) assms(2,3), of "[]" "regions (g_e820 s)"]) simp_all
  have "within_ranges r x" if "within_ranges r1 x" "0 < fst (snd x)" for x
    using that r1(3) by (auto simp: within_ranges_def word_le_nat_alt)
  moreover have "\<forall>x \<in> set (regions (g_e820 s')). 0 < fst (snd x)" using snd' by (auto simp: e820_wf_def ordered_def proper_def)
  ultimately show ?thesis using snd' r1(2,3) by (auto simp: word_le_nat_alt ranges_ok_def)
qed


section \<open>The regions protected from devices\<close>

lemma pmr_mask: "unat ((v :: u64) AND NOT 0x1fffff) = unat v - unat v mod 0x200000"
proof -
  have m: "(0x1fffff :: u64) = mask 21" by (simp add: mask_eq_exp_minus_1)
  show ?thesis unfolding m unat_clear_low by simp
qed

lemma pmr_bounds:
  assumes "unat lo \<le> unat hi"
  shows "unat (pmr_base lo) \<le> unat lo" "unat lo < unat (pmr_base lo) + 0x200000" "0x200000 dvd unat (pmr_base lo)"
    "0x200000 dvd unat (pmr_size lo hi)" "unat (pmr_base lo + pmr_size lo hi) = unat (pmr_base lo) + unat (pmr_size lo hi)"
    "unat (pmr_base lo) + unat (pmr_size lo hi) \<le> unat hi" "unat hi < unat (pmr_base lo) + unat (pmr_size lo hi) + 0x200000"
proof -
  have n: "unat (pmr_base lo) = unat lo - unat lo mod 0x200000" unfolding pmr_base_def by (rule pmr_mask)
  show b: "unat (pmr_base lo) \<le> unat lo" by (simp add: n)
  show "0x200000 dvd unat (pmr_base lo)" by (simp add: n minus_mod_eq_mult_div)
  show "unat lo < unat (pmr_base lo) + 0x200000"
    using mod_less_divisor [of "0x200000" "unat lo"] mod_less_eq_dividend [of "unat lo" "0x200000"] n by linarith
  have d: "unat (hi - pmr_base lo) = unat hi - unat (pmr_base lo)" using b assms by (intro unat_sub) (simp add: word_le_nat_alt)
  have z: "unat (pmr_size lo hi) = (unat hi - unat (pmr_base lo)) - (unat hi - unat (pmr_base lo)) mod 0x200000"
    unfolding pmr_size_def pmr_mask d ..
  then show "0x200000 dvd unat (pmr_size lo hi)" by (simp add: minus_mod_eq_mult_div)
  show e: "unat (pmr_base lo) + unat (pmr_size lo hi) \<le> unat hi" using z b assms by simp
  show "unat hi < unat (pmr_base lo) + unat (pmr_size lo hi) + 0x200000"
    using z mod_less_divisor [of "0x200000" "unat hi - unat (pmr_base lo)"] mod_less_eq_dividend [of "unat hi - unat (pmr_base lo)" "0x200000"] b assms
    by linarith
  show "unat (pmr_base lo + pmr_size lo hi) = unat (pmr_base lo) + unat (pmr_size lo hi)"
    using e unat_u64_less [of hi] by (intro u64_add) simp
qed

text \<open>The memory behind a protected region is reserved in the map.\<close>

definition rams_within :: "ram_ranges \<Rightarrow> region list \<Rightarrow> bool" where
  "rams_within r rs \<longleftrightarrow> (\<forall>x \<in> set rs. snd (snd x) = E820_RAM \<longrightarrow> within_ranges r x)"

lemma rams_within_reserve:
  assumes "rams_within r rs" "ordered rs" "a < e"
  shows "rams_within r (reserve a e rs)"
proof -
  have "within_ranges r x" if x: "x \<in> set (carve a e y)" "y \<in> set rs" "snd (snd x) = E820_RAM" for x y
  proof -
    have y: "proper y" "snd (snd y) = E820_RAM"
      using assms(2) x by (auto simp: ordered_def split: if_splits) (cases y; auto split: if_splits)
    then have "within_ranges r y" using assms(1) x(2) by (auto simp: rams_within_def)
    then show ?thesis using carve_proper [OF y(1) assms(3) x(1)] by (auto simp: within_ranges_def)
  qed
  then show ?thesis by (auto simp: rams_within_def in_reserve)
qed

lemma reserve_delta_run:
  fixes s :: "'d intel"
  assumes "e820_wf (g_e820 s)" "unat (nr_map (g_e820 s)) < 254" "unat fin \<le> unat lim" "rams_within r (regions (g_e820 s))"
    and "fin \<noteq> lim \<Longrightarrow> first_kept (unat fin) (unat lim) (regions (g_e820 s))"
  shows "\<exists>m. reserve_delta lim fin s = (Ok True, s\<lparr>g_e820 := m\<rparr>) \<and> e820_wf m \<and> unat (nr_map m) \<le> unat (nr_map (g_e820 s)) + 2 \<and>
    rams_within r (regions m) \<and>
    (\<forall>x. type_at (regions m) x = Some E820_RAM \<longleftrightarrow> type_at (regions (g_e820 s)) x = Some E820_RAM \<and> \<not> (unat fin \<le> x \<and> x < unat lim))"
proof (cases "fin = lim")
  case True
  then show ?thesis using assms(1,4) by (intro exI [of _ "g_e820 s"]) (auto simp: reserve_delta_def returnE_def not_less)
next
  case False
  then have lt: "unat fin < unat lim" using assms(3) by (simp add: le_less word_unat_eq_iff)
  have sp: "spans fin (lim - fin) (unat fin) (unat lim)"
    using lt unat_u64_less [of lim] unat_sub [of fin lim] by (simp add: spans_def word_less_nat_alt word_le_nat_alt)
  obtain m where m: "e820_reserve_ram fin (lim - fin) s = (Ok True, s\<lparr>g_e820 := m\<rparr>)" "regions m = reserve (unat fin) (unat lim) (regions (g_e820 s))"
      "ordered (regions m)" "unat (nr_map m) \<le> unat (nr_map (g_e820 s)) + 2"
    using e820_reserve_ram_regions [OF assms(1) _ sp assms(5) [OF False]] assms(2) by auto
  moreover have "rams_within r (regions m)"
    unfolding m(2) using assms(1,4) lt by (intro rams_within_reserve) (auto simp: e820_wf_def)
  ultimately show ?thesis using False assms(2) type_at_reserve [OF lt, of "regions (g_e820 s)"]
    by (intro exI [of _ m]) (auto simp: reserve_delta_def e820_wf_def split: if_splits)
qed

lemma first_kept_within:
  assumes "rams_within r rs" "ordered rs" "e = unat (max_lo_ram r) \<and> e \<le> 2 ^ 32 \<or> e = unat (max_hi_ram r) \<and> 2 ^ 32 \<le> a"
  shows "first_kept a e rs"
  using assms unfolding first_kept_def rams_within_def within_ranges_def
  by (auto simp: ordered_def proper_def split: list.splits)

lemma type_at_covered: "type_at rs x = Some t \<Longrightarrow> \<exists>y \<in> set rs. covers x y \<and> snd (snd y) = t"
  by (auto simp: type_at_def find_Some_iff) (metis nth_mem snd_conv)

lemma reserve_delta_mem: "reserve_delta lim fin s = (Ok True, s') \<Longrightarrow> i_mem s' = i_mem s"
  by (auto simp: reserve_delta_def e820_reserve_ram_def on_e820_def bindE_def returnE_def
      split: if_splits prod.splits sum.splits option.splits res.splits)

lemma verify_vtd_pmrs_run:
  fixes s :: "'d intel"
  assumes "fixed_registers tx rv" "heap = ucast (rv (0xfed30000 + TXTCR_HEAP_BASE))"
    and "e820_wf (g_e820 s)" "unat (nr_map (g_e820 s)) < 250" "get_ram_ranges s = (Ok (True, r), s1)"
    and "o' = os_sinit_at (get_os_sinit_data_start (i_mem s) heap)"
    and "lo = ld64 (i_mem s) (vtd_pmr_lo_base o')" "lz = ld64 (i_mem s) (vtd_pmr_lo_size o')"
    and "hi = ld64 (i_mem s) (vtd_pmr_hi_base o')" "hz = ld64 (i_mem s) (vtd_pmr_hi_size o')"
    and "lo = pmr_base (min_lo_ram r)" "lz = pmr_size (min_lo_ram r) (max_lo_ram r)"
      "hi = pmr_base (min_hi_ram r)" "hz = pmr_size (min_hi_ram r) (max_hi_ram r)"
  shows "\<exists>s'. verify_vtd_pmrs tx heap s = (Ok True, s') \<and>
    (\<forall>x. type_at (regions (g_e820 s')) x = Some E820_RAM \<longleftrightarrow> type_at (regions (g_e820 s1)) x = Some E820_RAM \<and>
      (unat lo \<le> x \<and> x < unat lo + unat lz \<or> unat hi \<le> x \<and> x < unat hi + unat hz))"
proof -
  have g: "e820_wf (g_e820 s1)" "nr_map (g_e820 s1) = nr_map (g_e820 s)" "i_mem s1 = i_mem s" "rams_within r (regions (g_e820 s1))"
    "unat (min_lo_ram r) < unat (max_lo_ram r)" "unat (max_lo_ram r) \<le> 2 ^ 32"
    "min_hi_ram r = 0 \<and> max_hi_ram r = 0 \<or> 2 ^ 32 \<le> unat (min_hi_ram r) \<and> unat (min_hi_ram r) \<le> unat (max_hi_ram r)"
    using get_ram_ranges_sound [OF assms(5,3)] assms(4) by (auto simp: rams_within_def)
  have hi_le: "unat (min_hi_ram r) \<le> unat (max_hi_ram r)" using g(7) by auto
  note L = pmr_bounds [OF less_imp_le [OF g(5)], folded assms(11,12)] and H = pmr_bounds [OF hi_le, folded assms(13,14)]
  have high: "hi + hz = 0 \<and> unat hi + unat hz = 0 \<and> max_hi_ram r = 0 \<or> 2 ^ 32 \<le> unat hi"
    using g(7)
  proof
    assume "min_hi_ram r = 0 \<and> max_hi_ram r = 0"
    then show ?thesis using H(5,6) by (simp add: word_unat_eq_iff)
  next
    assume "2 ^ 32 \<le> unat (min_hi_ram r) \<and> unat (min_hi_ram r) \<le> unat (max_hi_ram r)"
    then have "2 ^ 32 < unat hi + 0x200000" using H(2) by linarith
    moreover obtain k where "unat hi = 0x200000 * k" using H(3) by (elim dvdE)
    ultimately show ?thesis by simp
  qed
  obtain m1 where m1: "reserve_delta (max_lo_ram r) (lo + lz) s1 = (Ok True, s1\<lparr>g_e820 := m1\<rparr>)" "e820_wf m1"
      "unat (nr_map m1) \<le> unat (nr_map (g_e820 s)) + 2" "rams_within r (regions m1)"
      "\<And>x. type_at (regions m1) x = Some E820_RAM \<longleftrightarrow> type_at (regions (g_e820 s1)) x = Some E820_RAM \<and> \<not> (unat (lo + lz) \<le> x \<and> x < unat (max_lo_ram r))"
    using reserve_delta_run [of s1 "lo + lz" "max_lo_ram r" r] g assms(4) L(5,6) first_kept_within [OF g(4)]
    by (auto simp: e820_wf_def)
  have first: "first_kept (unat (hi + hz)) (unat (max_hi_ram r)) (regions m1)" if "hi + hz \<noteq> max_hi_ram r"
  proof (rule first_kept_within [OF m1(4)])
    show "ordered (regions m1)" using m1(2) by (simp add: e820_wf_def)
    show "unat (max_hi_ram r) = unat (max_lo_ram r) \<and> unat (max_hi_ram r) \<le> 2 ^ 32 \<or> unat (max_hi_ram r) = unat (max_hi_ram r) \<and> 2 ^ 32 \<le> unat (hi + hz)"
      using that high H(5) by auto
  qed
  obtain m2 where m2: "reserve_delta (max_hi_ram r) (hi + hz) (s1\<lparr>g_e820 := m1\<rparr>) = (Ok True, s1\<lparr>g_e820 := m2\<rparr>)"
      "\<And>x. type_at (regions m2) x = Some E820_RAM \<longleftrightarrow> type_at (regions m1) x = Some E820_RAM \<and> \<not> (unat (hi + hz) \<le> x \<and> x < unat (max_hi_ram r))"
    using reserve_delta_run [of "s1\<lparr>g_e820 := m1\<rparr>" "hi + hz" "max_hi_ram r" r] m1 assms(4) H(5,6) first by auto
  have "verify_vtd_pmrs tx heap s = (Ok True, s1\<lparr>g_e820 := m2\<rparr>)"
    using m1(1) m2(1) assms(1,2,5-14) g(3)
    by (simp add: verify_vtd_pmrs_def reserve_vtd_delta_mem_def bindE_def memE_def getE_def get_txt_heap_fixed returnE_def Let_def)
  moreover have "type_at (regions m2) x = Some E820_RAM \<longleftrightarrow> type_at (regions (g_e820 s1)) x = Some E820_RAM \<and>
      (unat lo \<le> x \<and> x < unat lo + unat lz \<or> unat hi \<le> x \<and> x < unat hi + unat hz)" for x
  proof -
    have "unat (min_lo_ram r) \<le> x \<and> x < unat (max_lo_ram r) \<or> unat (min_hi_ram r) \<le> x \<and> x < unat (max_hi_ram r)"
      if "type_at (regions (g_e820 s1)) x = Some E820_RAM"
      using type_at_covered [OF that] g(4) by (auto simp: rams_within_def within_ranges_def covers_def)
    then show ?thesis unfolding m2(2) m1(5) L(5) H(5) using L(1,6) H(1,6) high g(6) by auto
  qed
  ultimately show ?thesis by auto
qed

text \<open>
  C10: no RAM is left to the devices. When \<open>get_ram_ranges\<close> has found the ranges of RAM, \<open>verify_vtd_pmrs\<close> says yes exactly
  when the bases and sizes of the two protected regions in the table for the SINIT module are those that
  \<open>set_vtd_pmrs\<close> computes from the ranges, and then an address is RAM in the map from now on exactly when it was RAM after the
  search and lies in one of the two protected regions. The conditions: the configuration registers keep
  their values, and the map is in order and has six free entries.
\<close>

theorem verify_vtd_pmrs_protects:
  fixes s :: "'d intel"
  assumes "fixed_registers tx rv" "heap = ucast (rv (0xfed30000 + TXTCR_HEAP_BASE))"
    and "e820_wf (g_e820 s)" "unat (nr_map (g_e820 s)) < 250" "get_ram_ranges s = (Ok (True, r), s1)"
    and "o' = os_sinit_at (get_os_sinit_data_start (i_mem s) heap)"
    and "lo = ld64 (i_mem s) (vtd_pmr_lo_base o')" "lz = ld64 (i_mem s) (vtd_pmr_lo_size o')"
    and "hi = ld64 (i_mem s) (vtd_pmr_hi_base o')" "hz = ld64 (i_mem s) (vtd_pmr_hi_size o')"
  shows "(fst (verify_vtd_pmrs tx heap s) = Ok True \<longleftrightarrow>
      lo = pmr_base (min_lo_ram r) \<and> lz = pmr_size (min_lo_ram r) (max_lo_ram r) \<and>
      hi = pmr_base (min_hi_ram r) \<and> hz = pmr_size (min_hi_ram r) (max_hi_ram r)) \<and>
    (\<forall>s'. verify_vtd_pmrs tx heap s = (Ok True, s') \<longrightarrow>
      (\<forall>x. type_at (regions (g_e820 s')) x = Some E820_RAM \<longleftrightarrow> type_at (regions (g_e820 s1)) x = Some E820_RAM \<and>
        (unat lo \<le> x \<and> x < unat lo + unat lz \<or> unat hi \<le> x \<and> x < unat hi + unat hz)))"
    (is "(?yes \<longleftrightarrow> ?same) \<and> ?safe")
proof -
  have g: "i_mem s1 = i_mem s" using get_ram_ranges_sound [OF assms(5,3)] assms(4) by simp
  have same: ?same if y: ?yes
  proof -
    obtain s2 s3 where d: "reserve_delta (max_lo_ram r) (lo + lz) s1 = (Ok True, s2)" "reserve_delta (max_hi_ram r) (hi + hz) s2 = (Ok True, s3)"
      and c: "\<not> (pmr_base (min_lo_ram r) \<noteq> ld64 (i_mem s3) (vtd_pmr_lo_base o') \<or>
         pmr_size (min_lo_ram r) (max_lo_ram r) \<noteq> ld64 (i_mem s3) (vtd_pmr_lo_size o') \<or>
         pmr_base (min_hi_ram r) \<noteq> ld64 (i_mem s3) (vtd_pmr_hi_base o') \<or>
         pmr_size (min_hi_ram r) (max_hi_ram r) \<noteq> ld64 (i_mem s3) (vtd_pmr_hi_size o'))"
      using y assms(1,2,5-10) g
      by (auto simp: verify_vtd_pmrs_def reserve_vtd_delta_mem_def bindE_def memE_def getE_def get_txt_heap_fixed returnE_def stopE_def Let_def
          split: if_splits prod.splits res.splits bool.splits)
    then show ?thesis using reserve_delta_mem [OF d(1)] reserve_delta_mem [OF d(2)] g assms(7-10) by simp
  qed
  have run: "\<exists>s'. verify_vtd_pmrs tx heap s = (Ok True, s') \<and>
      (\<forall>x. type_at (regions (g_e820 s')) x = Some E820_RAM \<longleftrightarrow> type_at (regions (g_e820 s1)) x = Some E820_RAM \<and>
        (unat lo \<le> x \<and> x < unat lo + unat lz \<or> unat hi \<le> x \<and> x < unat hi + unat hz))" if ?same
    using verify_vtd_pmrs_run [OF assms] that by blast
  show ?thesis using same run by (metis fst_conv prod.inject)
qed

text \<open>RAM up to 640 KB and from 1 MB to 3008 KB; the protected region is the first 2 MB.\<close>

definition dma_map :: e820 where
  "dma_map = \<lparr>e820map = (\<lambda>i. if i = 0 then new_entry 0 0xa0000 E820_RAM else new_entry 0x100000 0x1f0000 E820_RAM), nr_map = 2\<rparr>"

definition dma_mem :: mem where
  "dma_mem = st32 0x6000 8 (st32 0x6008 8 (st32 0x6040 0x200000 (\<lambda>_. 0)))"

definition dma_state :: "nat sim intel" where
  "dma_state = (sim_intel dma_mem (0 :: nat))\<lparr>g_e820 := dma_map, g_min_ram := 0\<rparr>"

lemma dma_map_regions: "regions dma_map = [(0, 0xa0000, E820_RAM), (0x100000, 0x1f0000, E820_RAM)]"
  by (simp add: dma_map_def regions_def entries_def upt_conv_Cons)

lemma dma_ranges:
  "get_ram_ranges dma_state = (Ok (True, \<lparr>min_lo_ram = 0, max_lo_ram = 0x2f0000, min_hi_ram = 0, max_hi_ram = 0\<rparr>), dma_state)"
proof -
  let ?r0 = "\<lparr>min_lo_ram = - 1, max_lo_ram = 0, min_hi_ram = - 1, max_hi_ram = 0\<rparr> :: ram_ranges"
  have e: "g_e820 dma_state = dma_map" "g_min_ram dma_state = 0" by (simp_all add: dma_state_def)
  have "ranges_loop 0 False ?r0 dma_state = ranges_loop 1 False (?r0\<lparr>min_lo_ram := 0, max_lo_ram := 0xa0000\<rparr>) dma_state"
    by (subst ranges_loop.simps) (simp add: e dma_map_def entry_at_def Let_def add_low_def add_high_def word_less_nat_alt unsigned_minus_1_eq_mask)
  also have "\<dots> = ranges_loop 2 False (?r0\<lparr>min_lo_ram := 0, max_lo_ram := 0x2f0000\<rparr>) dma_state"
    by (subst ranges_loop.simps) (simp add: e dma_map_def entry_at_def Let_def add_low_def add_high_def)
  also have "\<dots> = Some (Ok (Inr (?r0\<lparr>min_lo_ram := 0, max_lo_ram := 0x2f0000\<rparr>)), dma_state)"
    by (subst ranges_loop.simps) (simp add: e dma_map_def)
  finally show ?thesis by (simp add: get_ram_ranges_def bindE_def getE_def returnE_def e)
qed

theorem verify_vtd_pmrs_protects_witness:
  "\<exists>s'. verify_vtd_pmrs (sim_txt launch_regs) 0x6000 dma_state = (Ok True, s') \<and>
    type_at (regions (g_e820 s')) 0x1fffff = Some E820_RAM \<and> type_at (regions (g_e820 s')) 0x200000 \<noteq> Some E820_RAM"
proof -
  have heap: "(0x6000 :: u32) = ucast (launch_regs (0xfed30000 + TXTCR_HEAP_BASE))"
    by (simp add: launch_regs_def TXTCR_HEAP_BASE_def)
  have m: "i_mem dma_state = dma_mem" "g_e820 dma_state = dma_map" by (simp_all add: dma_state_def sim_intel_def)
  have z: "ld32 (\<lambda>_. 0) a = 0" for a by (simp add: ld32_def bytes_at_4 of_le32_def)
  have l: "ld64 dma_mem 0x6000 = 8" "ld64 dma_mem 0x6008 = 8" "ld64 dma_mem 0x6038 = 0" "ld64 dma_mem 0x6040 = 0x200000"
    "ld64 dma_mem 0x6048 = 0" "ld64 dma_mem 0x6050 = 0"
    by (simp_all add: ld64_def dma_mem_def ld_st combine64b_def z)
  have o: "get_os_sinit_data_start dma_mem 0x6000 = 0x6018"
    by (simp add: get_os_sinit_data_start_def get_bios_data_size_def get_os_mle_data_size_def l)
  have wf: "e820_wf (g_e820 dma_state)" "unat (nr_map (g_e820 dma_state)) < 250"
    by (simp_all add: m e820_wf_def dma_map_regions ordered_def proper_def apart_def) (simp_all add: dma_map_def)
  note pr = verify_vtd_pmrs_protects [OF sim_txt_fixed [of launch_regs] heap wf dma_ranges refl refl refl refl refl, unfolded m, unfolded o, simplified os_sinit_at_def, simplified l]
  have "pmr_base 0 = 0" "pmr_size 0 0x2f0000 = 0x200000" "pmr_size 0 0 = 0" by (simp_all add: pmr_base_def pmr_size_def)
  then obtain s' where "verify_vtd_pmrs (sim_txt launch_regs) 0x6000 dma_state = (Ok True, s')"
    using conjunct1 [OF pr] by (cases "verify_vtd_pmrs (sim_txt launch_regs) 0x6000 dma_state") (auto simp: l)
  then show ?thesis using conjunct2 [OF pr] by (auto simp: dma_map_regions type_at_def covers_def l)
qed

section \<open>The page table of the measured environment\<close>

text \<open>
  The translation of an address by three levels of tables, as the SINIT module does it: the entries must be
  present, and the one of the directory must point to a table.
\<close>

definition pae_walk :: "mem \<Rightarrow> u32 \<Rightarrow> u32 \<Rightarrow> u64 option" where
  "pae_walk m ptab x =
     (let p = ld64 m (ptab + 8 * drop_bit 30 x);
          d = ld64 m (ucast (p AND NOT 0xfff) + 8 * (drop_bit 21 x AND 0x1ff));
          t = ld64 m (ucast (d AND NOT 0xfff) + 8 * (drop_bit 12 x AND 0x1ff)) in
      if bit p 0 \<and> bit d 0 \<and> \<not> bit d 7 \<and> bit t 0 then Some ((t AND NOT 0xfff) OR ucast (x AND 0xfff)) else None)"

lemma MAKE_PDTE_bits:
  assumes "v AND 0xfff = 0"
  shows "bit (MAKE_PDTE v) 0" "\<not> bit (MAKE_PDTE v) 7" "MAKE_PDTE v AND NOT 0xfff = ucast v"
    "(MAKE_PDTE v AND NOT 0xfff) OR ucast (x AND 0xfff) = (ucast (v OR (x AND 0xfff)) :: u64)" "ucast (MAKE_PDTE v AND NOT 0xfff) = v"
proof -
  have m: "(0xfff :: u64) = mask 12" "(0xfff :: u32) = mask 12" by (simp_all add: mask_eq_exp_minus_1)
  have v: "\<not> bit v i" if "i < 12" for i
    using assms that unfolding m bit_eq_iff by (auto simp: bit_simps dest: spec [of _ i])
  show "bit (MAKE_PDTE v) 0" "\<not> bit (MAKE_PDTE v) 7" by (simp_all add: MAKE_PDTE_def m bit_simps v)
  show c: "MAKE_PDTE v AND NOT 0xfff = ucast v" unfolding MAKE_PDTE_def m
    by (rule bit_word_eqI) (auto simp: bit_simps dest: v)
  show "(MAKE_PDTE v AND NOT 0xfff) OR ucast (x AND 0xfff) = (ucast (v OR (x AND 0xfff)) :: u64)"
    unfolding c by (rule bit_word_eqI) (auto simp: bit_simps)
  show "ucast (MAKE_PDTE v AND NOT 0xfff) = v" unfolding c by (rule bit_word_eqI) (auto simp: bit_simps)
qed

lemma pte_loop_entry:
  assumes "i < 0x600" "k < n" "n = (unat sz + 0xfff) div 0x1000" "n \<le> 512" "n \<le> k + f"
  shows "ld64 (pte_loop start sz f (a + of_nat (0x2000 + 8 * k)) (of_nat (0x1000 * k)) m) (a + of_nat (8 * i)) =
    (if 0x400 + k \<le> i \<and> i < 0x400 + n then MAKE_PDTE (start + of_nat (0x1000 * (i - 0x400))) else ld64 m (a + of_nat (8 * i)))"
  using assms(2,5)
proof (induction f arbitrary: k m)
  case (Suc f)
  let ?m = "st64 (a + of_nat (0x2000 + 8 * k)) (MAKE_PDTE (start + of_nat (0x1000 * k))) m"
  have k: "unat (of_nat (0x1000 * Suc k) :: u32) = 0x1000 * Suc k" using Suc.prems assms(4) by (intro unat_of_nat_u32) simp
  have nx: "of_nat (0x1000 * k) + 0x1000 = (of_nat (0x1000 * Suc k) :: u32)" "a + of_nat (0x2000 + 8 * k) + 8 = a + of_nat (0x2000 + 8 * Suc k)"
    by (simp_all add: algebra_simps)
  have lt: "(of_nat (0x1000 * Suc k) :: u32) < sz \<longleftrightarrow> Suc k < n"
    unfolding word_less_nat_alt k assms(3) Suc_le_eq [symmetric, of "Suc k"] by (simp add: less_eq_div_iff_mult_less_eq) linarith
  have here: "ld64 ?m (a + of_nat (8 * i)) = (if i = 0x400 + k then MAKE_PDTE (start + of_nat (0x1000 * k)) else ld64 m (a + of_nat (8 * i)))"
  proof (cases "i = 0x400 + k")
    case True
    then have "8 * i = 0x2000 + 8 * k" by simp
    then show ?thesis using True by (simp only: ld64_st64_same if_True simp_thms)
  next
    case False
    then show ?thesis using assms(1,4) Suc.prems(1) by (simp only: if_False) (rule ld64_st64_other, linarith, simp_all)
  qed
  show ?case
  proof (cases "Suc k < n")
    case True
    then show ?thesis using Suc.IH [of "Suc k" ?m] Suc.prems here lt by (auto simp: Let_def nx simp del: of_nat_add of_nat_mult of_nat_Suc)
  next
    case False
    then have "n = Suc k" using Suc.prems(1) by simp
    then show ?thesis using here lt by (auto simp: Let_def nx simp del: of_nat_add of_nat_mult of_nat_Suc)
  qed
qed simp


lemma pte_loop_outside:
  assumes "k + f \<le> 512" "x \<notin> footprint (a + of_nat 0x2000) 0x1000"
  shows "pte_loop start sz f (a + of_nat (0x2000 + 8 * k)) off m x = m x"
  using assms(1)
proof (induction f arbitrary: k off m)
  case (Suc f)
  have "x \<noteq> a + of_nat (0x2000 + 8 * k) + of_nat i" if "i < 8" for i
  proof
    assume "x = a + of_nat (0x2000 + 8 * k) + of_nat i"
    then have "x = a + of_nat 0x2000 + of_nat (8 * k + i)" by (simp add: algebra_simps)
    moreover have "8 * k + i < 0x1000" using Suc.prems that by simp
    ultimately show False using assms(2) unfolding footprint_def by blast
  qed
  then have st: "st64 (a + of_nat (0x2000 + 8 * k)) v m x = m x" for v by (rule st64_outside)
  have nx: "a + of_nat (0x2000 + 8 * k) + 8 = a + of_nat (0x2000 + 8 * Suc k)" by (simp add: algebra_simps)
  show ?case using Suc.IH [of "Suc k"] Suc.prems st by (simp add: Let_def nx del: of_nat_add of_nat_mult of_nat_Suc)
qed simp

lemma memset_zero_entry:
  assumes "i < 0x600"
  shows "ld64 (memset a 0 0x3000 m) (a + of_nat (8 * i)) = 0"
proof -
  have "ld64 (memset a 0 0x3000 m) (a + of_nat (8 * i)) = ld64 (\<lambda>_. 0) (a + of_nat (8 * i))"
  proof (rule ld64_bytes)
    fix j :: nat assume "j < 8"
    then have "unat (of_nat (8 * i + j) :: u32) < 0x3000" using assms by (subst unat_of_nat_u32) simp_all
    then show "memset a 0 0x3000 m (a + of_nat (8 * i) + of_nat j) = 0" by (simp add: memset_eq)
  qed
  then show ?thesis by (simp add: ld64_def ld32_def bytes_at_4 of_le32_def combine64b_def)
qed

lemma mle_table_entry:
  assumes "i < 0x600" "0 < sz" "sz \<le> 0x200000" "n = (unat sz + 0xfff) div 0x1000"
    and "m' = pte_loop start sz 512 (a + 0x1000 + 0x1000) 0 (st64 (a + 0x1000) d (st64 a p (memset a 0 0x3000 m)))"
  shows "ld64 m' (a + of_nat (8 * i)) = (if i = 0 then p else if i = 0x200 then d
    else if 0x400 \<le> i \<and> i < 0x400 + n then MAKE_PDTE (start + of_nat (0x1000 * (i - 0x400))) else 0)"
proof -
  let ?m = "st64 (a + of_nat 0x1000) d (st64 (a + of_nat 0) p (memset a 0 0x3000 m))"
  have n: "0 < n" "n \<le> 512" using assms(2-4) by (auto simp: word_less_nat_alt word_le_nat_alt)
  have "m' = pte_loop start sz 512 (a + of_nat (0x2000 + 8 * 0)) (of_nat (0x1000 * 0)) ?m" by (simp add: assms(5) add.assoc)
  then have "ld64 m' (a + of_nat (8 * i)) = (if 0x400 \<le> i \<and> i < 0x400 + n then MAKE_PDTE (start + of_nat (0x1000 * (i - 0x400))) else ld64 ?m (a + of_nat (8 * i)))"
    using pte_loop_entry [OF assms(1) n(1) assms(4) n(2), of 512 start a ?m] n(2) by (simp only: add_0_right add_0)
  moreover have "ld64 ?m (a + of_nat (8 * i)) = (if i = 0 then p else if i = 0x200 then d else 0)"
  proof -
    have z: "ld64 (st64 (a + of_nat 0) p (memset a 0 0x3000 m)) (a + of_nat (8 * i)) = (if i = 0 then p else 0)"
    proof (cases "i = 0")
      case False
      then have "ld64 (st64 (a + of_nat 0) p (memset a 0 0x3000 m)) (a + of_nat (8 * i)) = ld64 (memset a 0 0x3000 m) (a + of_nat (8 * i))"
        using assms(1) by (intro ld64_st64_other) simp_all
      then show ?thesis using False memset_zero_entry [OF assms(1)] by simp
    qed (simp add: ld64_st64_same)
    show ?thesis
    proof (cases "i = 0x200")
      case True
      then have "8 * i = 0x1000" by simp
      then show ?thesis using True by (simp only: ld64_st64_same) simp
    next
      case False
      then have "ld64 ?m (a + of_nat (8 * i)) = ld64 (st64 (a + of_nat 0) p (memset a 0 0x3000 m)) (a + of_nat (8 * i))"
        using assms(1) by (intro ld64_st64_other) (linarith, simp_all)
      then show ?thesis using z False by simp
    qed
  qed
  ultimately show ?thesis using n by auto
qed

lemma table_index:
  fixes x :: u32
  shows "8 * drop_bit 30 x = of_nat (8 * (unat x div 2 ^ 30))" "8 * (drop_bit 21 x AND 0x1ff) = of_nat (8 * (unat x div 2 ^ 21 mod 512))"
    "8 * (drop_bit 12 x AND 0x1ff) = of_nat (8 * (unat x div 2 ^ 12 mod 512))"
proof -
  have "drop_bit n x = of_nat (unat x div 2 ^ n)" for n
  proof -
    have u: "unat (drop_bit n x) = unat x div 2 ^ n" by (rule trans [OF unat_drop_bit_eq drop_bit_eq_div])
    have "drop_bit n x = of_nat (unat (drop_bit n x))" by simp
    then show ?thesis by (simp only: u)
  qed
  moreover have "(of_nat k AND 0x1ff :: u32) = of_nat (k mod 512)" for k
  proof -
    have m: "(0x1ff :: u32) = mask 9" by (simp add: mask_eq_exp_minus_1)
    show ?thesis unfolding m by (simp flip: take_bit_eq_mask add: take_bit_of_nat take_bit_eq_mod [of 9 k])
  qed
  ultimately show "8 * drop_bit 30 x = of_nat (8 * (unat x div 2 ^ 30))" "8 * (drop_bit 21 x AND 0x1ff) = of_nat (8 * (unat x div 2 ^ 21 mod 512))"
    "8 * (drop_bit 12 x AND 0x1ff) = of_nat (8 * (unat x div 2 ^ 12 mod 512))" by simp_all
qed

lemma walk_mle_table:
  assumes "a AND 0xfff = 0" "start AND 0xfff = 0" "0 < sz" "sz \<le> 0x200000"
    and "m' = pte_loop start sz 512 (a + 0x1000 + 0x1000) 0
      (st64 (a + 0x1000) (MAKE_PDTE (a + 0x1000 + 0x1000)) (st64 a (MAKE_PDTE (a + 0x1000)) (memset a 0 0x3000 m)))"
  shows "pae_walk m' a x = (if x AND NOT 0xfff < sz then Some (ucast (start + x)) else None)"
proof -
  define n where "n = (unat sz + 0xfff) div 0x1000"
  define A where "A = unat x div 2 ^ 30"
  define B where "B = unat x div 2 ^ 21 mod 512"
  define C where "C = unat x div 2 ^ 12 mod 512"
  have A: "A < 4" "B < 512" "C < 512" using unat_u32_less [of x] by (simp_all add: A_def B_def C_def less_mult_imp_div_less)
  have m: "(0xfff :: u32) = mask 12" by (simp add: mask_eq_exp_minus_1)
  have al: "v AND 0xfff = 0 \<Longrightarrow> w AND 0xfff = 0 \<Longrightarrow> (v + w) AND 0xfff = 0" for v w :: u32
  proof -
    have u: "y AND 0xfff = 0 \<longleftrightarrow> unat y mod 4096 = 0" for y :: u32
      unfolding m word_unat_eq_iff take_bit_eq_mask [symmetric] unsigned_take_bit_eq by (simp add: take_bit_eq_mod)
    have "unat (v + w) mod 4096 = (unat v + unat w) mod 4096" by (simp add: unat_word_ariths mod_mod_cancel)
    then show "v AND 0xfff = 0 \<Longrightarrow> w AND 0xfff = 0 \<Longrightarrow> (v + w) AND 0xfff = 0" unfolding u by (simp add: mod_add_eq [symmetric, of "unat v"])
  qed
  note entry = mle_table_entry [OF _ assms(3,4) n_def assms(5)]
  have page: "x AND NOT 0xfff < sz \<longleftrightarrow> unat x div 2 ^ 12 < n"
  proof -
    have "unat (x AND NOT 0xfff) = 0x1000 * (unat x div 0x1000)" unfolding m unat_clear_low by (simp add: minus_mod_eq_mult_div)
    then have "x AND NOT 0xfff < sz \<longleftrightarrow> 0x1000 * (unat x div 0x1000) < unat sz" by (simp only: word_less_nat_alt)
    also have "\<dots> \<longleftrightarrow> Suc (unat x div 0x1000) \<le> n" unfolding n_def by (simp add: less_eq_div_iff_mult_less_eq) linarith
    finally show ?thesis by (simp add: Suc_le_eq)
  qed
  have n: "n \<le> 512" using assms(4) by (simp add: n_def word_le_nat_alt)
  have p: "ld64 m' (a + 8 * drop_bit 30 x) = (if A = 0 then MAKE_PDTE (a + 0x1000) else 0)"
    unfolding table_index A_def [symmetric] using entry [of A] A by auto
  have d: "ld64 m' (a + 0x1000 + 8 * (drop_bit 21 x AND 0x1ff)) = (if B = 0 then MAKE_PDTE (a + 0x1000 + 0x1000) else 0)"
  proof -
    have eq: "a + 0x1000 + of_nat (8 * B) = a + of_nat (8 * (0x200 + B))" by simp
    have "ld64 m' (a + of_nat (8 * (0x200 + B))) = (if B = 0 then MAKE_PDTE (a + 0x1000 + 0x1000) else 0)" using entry [of "0x200 + B"] A by auto
    then show ?thesis unfolding table_index B_def [symmetric] eq .
  qed
  have t: "ld64 m' (a + 0x1000 + 0x1000 + 8 * (drop_bit 12 x AND 0x1ff)) = (if C < n then MAKE_PDTE (start + of_nat (0x1000 * C)) else 0)"
  proof -
    have eq: "a + 0x1000 + 0x1000 + of_nat (8 * C) = a + of_nat (8 * (0x400 + C))" by simp
    have "ld64 m' (a + of_nat (8 * (0x400 + C))) = (if C < n then MAKE_PDTE (start + of_nat (0x1000 * C)) else 0)"
      using entry [of "0x400 + C"] A by auto
    then show ?thesis unfolding table_index C_def [symmetric] eq .
  qed
  have a1: "(a + 0x1000) AND 0xfff = 0" "(a + 0x1000 + 0x1000) AND 0xfff = 0" using assms(1) by (auto intro!: al)
  note P = MAKE_PDTE_bits [OF a1(1)] and D = MAKE_PDTE_bits [OF a1(2)]
  show ?thesis
  proof (cases "A = 0 \<and> B = 0")
    case True
    then have lt: "unat x < 2 ^ 30" "unat x div 2 ^ 21 mod 512 = 0" by (auto simp: A_def B_def div_eq_0_iff)
    then have "unat x div 2 ^ 21 = 0" by (simp add: less_mult_imp_div_less)
    then have lt: "unat x < 2 ^ 21" by (simp add: div_eq_0_iff)
    then have C: "C = unat x div 2 ^ 12" by (simp add: C_def less_mult_imp_div_less)
    let ?v = "start + of_nat (0x1000 * C)"
    have x: "of_nat (0x1000 * C) = x AND NOT 0xfff"
    proof -
      have "unat (of_nat (0x1000 * C) :: u32) = 0x1000 * C" using lt by (intro unat_of_nat_u32) (simp add: C)
      moreover have "unat (x AND NOT 0xfff) = 0x1000 * C" unfolding m unat_clear_low by (simp add: C minus_mod_eq_mult_div)
      ultimately show ?thesis by (simp only: word_unat_eq_iff)
    qed
    have v: "?v AND 0xfff = 0" unfolding x by (rule al [OF assms(2)]) (simp add: m bit_eq_iff bit_simps)
    have "?v AND (x AND 0xfff) = (?v AND 0xfff) AND x" by (simp only: ac_simps)
    then have "?v OR (x AND 0xfff) = ?v + (x AND 0xfff)" using disjunctive_add_eq_or [of ?v "x AND 0xfff"] v by simp
    also have "\<dots> = start + ((x AND NOT 0xfff) + (x AND 0xfff))" unfolding x by (simp only: add.assoc)
    also have "(x AND NOT 0xfff) + (x AND 0xfff) = x"
      unfolding m clear_low_bits take_bit_eq_mask [symmetric] by simp
    finally have "?v OR (x AND 0xfff) = start + x" .
    note V = this MAKE_PDTE_bits(1-3) [OF v] MAKE_PDTE_bits(4) [OF v, of x]
    have p': "ld64 m' (a + 8 * drop_bit 30 x) = MAKE_PDTE (a + 0x1000)" using p True by simp
    have d': "ld64 m' (a + 0x1000 + 8 * (drop_bit 21 x AND 0x1ff)) = MAKE_PDTE (a + 0x1000 + 0x1000)" using d True by simp
    show ?thesis
    proof (cases "C < n")
      case True
      have "pae_walk m' a x = Some (ucast (start + x))"
        unfolding pae_walk_def Let_def p' P(5) d' D(5) t if_P [OF True] V(5) V(1) using P(1) D(1,2) V(2) by simp
      then show ?thesis using page C True by simp
    next
      case False
      have "pae_walk m' a x = None" unfolding pae_walk_def Let_def p' P(5) d' D(5) t if_not_P [OF False] by simp
      then show ?thesis using page C False by simp
    qed
  next
    case False
    have "2 ^ 21 \<le> unat x" using False by (rule contrapos_np) (simp add: A_def B_def div_eq_0_iff)
    then have "\<not> unat x div 2 ^ 12 < 512" by (simp add: div_less_iff_less_mult not_less)
    moreover have "pae_walk m' a x = None"
    proof (cases "A = 0")
      case True
      then have p': "ld64 m' (a + 8 * drop_bit 30 x) = MAKE_PDTE (a + 0x1000)" "ld64 m' (a + 0x1000 + 8 * (drop_bit 21 x AND 0x1ff)) = 0"
        using p d False by simp_all
      show ?thesis unfolding pae_walk_def Let_def p'(1) P(5) p'(2) by simp
    qed (simp add: pae_walk_def Let_def p)
    ultimately show ?thesis using page n by simp
  qed
qed

text \<open>
  C40: the page table that the SINIT module measures the environment with. \<open>build_mle_pagetable\<close> refuses an environment of more
  than 2 MB and one that does not begin at a page, and then changes no memory. Otherwise it ends with the
  address of the table, the walk through its three levels takes the address \<open>x\<close> to \<open>mle_start + x\<close> for every \<open>x\<close> whose page
  begins inside the environment and finds nothing for any other, and no memory outside the three pages of the
  table has changed. The table is at a page, and the environment is not empty.
\<close>

theorem build_mle_pagetable_maps:
  fixes s :: "'d intel"
  assumes "intel_ok s" "sym_g_mle_pt sy AND 0xfff = 0" "0 < sz"
  shows "\<exists>s'. if sz > 0x200000 \<or> start AND 0xfff \<noteq> 0
    then build_mle_pagetable sy start sz s = (Ok 0, s') \<and> like s s'
    else build_mle_pagetable sy start sz s = (Ok (sym_g_mle_pt sy), s') \<and>
      (\<forall>x. pae_walk (i_mem s') (sym_g_mle_pt sy) x = (if x AND NOT 0xfff < sz then Some (ucast (start + x)) else None)) \<and>
      (\<forall>x. x \<notin> footprint (sym_g_mle_pt sy) 0x3000 \<longrightarrow> i_mem s' x = i_mem s x)"
proof (cases "sz > 0x200000 \<or> start AND 0xfff \<noteq> 0")
  case True
  have say: "\<exists>s'. bindE (tell t) (\<lambda>_. returnE (0 :: u32)) s = (Ok 0, s') \<and> like s s'" for t
    using yieldsD [OF yields_tell like_refl [OF assms(1)], of t] by (auto simp: bindE_def returnE_def)
  show ?thesis
  proof (cases "sz > 0x200000")
    case True
    then show ?thesis using say [of "Info ''MLE size too big for single page table''"] by (simp add: build_mle_pagetable_def Let_def)
  next
    case False
    then show ?thesis using \<open>sz > 0x200000 \<or> start AND 0xfff \<noteq> 0\<close> say [of "Info ''MLE start is not page-aligned''"]
      by (simp add: build_mle_pagetable_def Let_def)
  qed
next
  case False
  let ?a = "sym_g_mle_pt sy"
  let ?m = "pte_loop start sz 512 (?a + 0x1000 + 0x1000) 0
      (st64 (?a + 0x1000) (MAKE_PDTE (?a + 0x1000 + 0x1000)) (st64 ?a (MAKE_PDTE (?a + 0x1000)) (memset ?a 0 0x3000 (i_mem s))))"
  have "build_mle_pagetable sy start sz s = (Ok ?a, s\<lparr>i_world := i_world s\<lparr>w_mem := ?m\<rparr>\<rparr>)"
    using False by (simp add: build_mle_pagetable_def Let_def bindE_def returnE_def setmemE_def on_world_def modifyE_def)
  moreover have "?m x = i_mem s x" if "x \<notin> footprint ?a 0x3000" for x
  proof -
    have sub: "x \<notin> footprint (?a + of_nat k) 8" "x \<notin> footprint (?a + of_nat 0x2000) 0x1000" if "k + 8 \<le> 0x3000" for k
      using footprint_mono [OF that, of ?a] footprint_mono [of "0x2000" "0x1000" "0x3000" ?a] \<open>x \<notin> footprint ?a 0x3000\<close> by auto
    have "x \<noteq> ?a + of_nat k + of_nat i" if "i < 8" "k + 8 \<le> 0x3000" for i k
      using sub(1) [OF that(2)] that(1) unfolding footprint_def by blast
    then have st: "st64 (?a + of_nat k) v m x = m x" if "k + 8 \<le> 0x3000" for k v m using that by (intro st64_outside) blast
    show ?thesis
      using pte_loop_outside [of 0 512 x ?a start sz 0] sub(2) [of 0] st [of "0x1000"] st [of 0] memset_footprint [of x ?a "0x3000" 0 "i_mem s"] that
      by (simp add: add.assoc)
  qed
  ultimately show ?thesis using False walk_mle_table [OF assms(2) _ assms(3) _ refl, of start "i_mem s"]
    by (auto simp: not_less)
qed

theorem build_mle_pagetable_maps_witness:
  "\<exists>s'. build_mle_pagetable demo_symbols 0x804000 0x7c000 (sim_intel (\<lambda>_. 0) (0 :: nat)) = (Ok 0x801000, s') \<and>
    pae_walk (i_mem s') 0x801000 0x7bfff = Some 0x87ffff \<and> pae_walk (i_mem s') 0x801000 0x7c000 = None"
proof -
  have pt: "sym_g_mle_pt demo_symbols = 0x801000" by (simp add: demo_symbols_def)
  obtain s' where "build_mle_pagetable demo_symbols 0x804000 0x7c000 (sim_intel (\<lambda>_. 0) (0 :: nat)) = (Ok 0x801000, s')"
    "\<And>x. pae_walk (i_mem s') 0x801000 x = (if x AND NOT 0xfff < 0x7c000 then Some (ucast (0x804000 + x :: u32)) else None)"
    using build_mle_pagetable_maps [OF sim_intel_parts(1) [of "\<lambda>_. 0" "0 :: nat"], of demo_symbols "0x7c000" "0x804000"] by (auto simp: pt)
  then show ?thesis by (intro exI [of _ s']) simp
qed

end
