(* ===== verification/VMX_Correct.thy ===== *)
theory VMX_Correct
  imports VMX Launch_Correct
begin

text \<open>
  Proofs on the other processors: the page table of a joining processor is the identity, and what the counters of the
  processors that joined and of those in a guest say at every moment of an interleaving of their single
  operations.
\<close>

declare tell.simps [simp del] tell_all.simps [simp del]

section \<open>Code that leaves the counters alone\<close>

text \<open>
  \<open>quiet S a m\<close>: \<open>m\<close> keeps both counters (the second one is at \<open>a\<close>) and the screen, and it returns or stops with
  one of \<open>S\<close>.
\<close>

named_theorems quiet

definition quiet :: "stop set \<Rightarrow> u32 \<Rightarrow> ('d intel, 'a) exec \<Rightarrow> bool" where
  "quiet S a m \<longleftrightarrow> (\<forall>s. intel_ok s \<longrightarrow> intel_ok (snd (m s)) \<and> ap_wfs_count (snd (m s)) = ap_wfs_count s \<and>
     ld32 (i_mem (snd (m s))) a = ld32 (i_mem s) a \<and> ((\<exists>x. fst (m s) = Ok x) \<or> (\<exists>st \<in> S. fst (m s) = Stop st)))"

lemma quiet_pure [quiet]: "quiet S a (returnE x)" "quiet S a (getE f)" "quiet S a memE" "st \<in> S \<Longrightarrow> quiet S a (stopE st)"
  by (auto simp: quiet_def returnE_def getE_def memE_def stopE_def)

lemma quiet_bindE [quiet]:
  fixes m :: "('d intel, 'b) exec" and k :: "'b \<Rightarrow> ('d intel, 'c) exec"
  assumes "quiet S a m" "\<And>x. quiet S a (k x)"
  shows "quiet S a (bindE m k)"
  unfolding quiet_def
proof (intro allI impI)
  fix s :: "'d intel" assume "intel_ok s"
  with assms(1) have m: "intel_ok (snd (m s))" "ap_wfs_count (snd (m s)) = ap_wfs_count s" "ld32 (i_mem (snd (m s))) a = ld32 (i_mem s) a"
      "(\<exists>x. fst (m s) = Ok x) \<or> (\<exists>st \<in> S. fst (m s) = Stop st)"
    by (auto simp: quiet_def)
  then show "intel_ok (snd (bindE m k s)) \<and> ap_wfs_count (snd (bindE m k s)) = ap_wfs_count s \<and>
      ld32 (i_mem (snd (bindE m k s))) a = ld32 (i_mem s) a \<and> ((\<exists>x. fst (bindE m k s) = Ok x) \<or> (\<exists>st \<in> S. fst (bindE m k s) = Stop st))"
    using assms(2) by (cases "m s") (auto simp: bindE_def quiet_def, blast)
qed

lemma quiet_if [quiet]: "(b \<Longrightarrow> quiet S a m) \<Longrightarrow> (\<not> b \<Longrightarrow> quiet S a m') \<Longrightarrow> quiet S a (if b then m else m')"
  by simp

lemma quiet_like:
  assumes "\<And>s :: 'd intel. yields (like s) f (Ok ()) (like s)"
  shows "quiet S a f"
  unfolding quiet_def
proof (intro allI impI)
  fix s :: "'d intel" assume ok: "intel_ok s"
  show "intel_ok (snd (f s)) \<and> ap_wfs_count (snd (f s)) = ap_wfs_count s \<and> ld32 (i_mem (snd (f s))) a = ld32 (i_mem s) a \<and>
      ((\<exists>x. fst (f s) = Ok x) \<or> (\<exists>st \<in> S. fst (f s) = Stop st))"
    using yieldsD [OF assms like_refl [OF ok]] by (auto simp: like_def intel_ok_def)
qed

lemmas quiet_tell [quiet] = quiet_like [OF yields_tell] quiet_like [OF yields_tell_all]

lemma quiet_on_device [quiet]: "quiet S a (on_device f)"
  by (auto simp: quiet_def on_device_def on_world_def on_dev_def intel_ok_def split: prod.splits)

lemma quiet_modifyE [quiet]:
  "(\<And>s. i_world (f s) = i_world s) \<Longrightarrow> (\<And>s. ap_wfs_count (f s) = ap_wfs_count s) \<Longrightarrow> quiet S a (modifyE f)"
  by (auto simp: quiet_def modifyE_def intel_ok_def)

lemma quiet_setmemE [quiet]: "(\<And>m. ld32 (f m) a = ld32 m a) \<Longrightarrow> quiet S a (setmemE f)"
  by (auto simp: quiet_def setmemE_def on_world_def modifyE_def intel_ok_def)

lemma quiet_endsE [quiet]: "Hang \<in> S \<Longrightarrow> quiet S a (endsE x)"
  by (cases x) (auto simp: endsE_def intro: quiet)

lemma quiet_option [quiet]: "quiet S a m \<Longrightarrow> (\<And>x. quiet S a (k x)) \<Longrightarrow> quiet S a (case r of None \<Rightarrow> m | Some x \<Rightarrow> k x)"
  by (cases r) auto

lemma quiet_prod [quiet]: "(\<And>x y. quiet S a (k x y)) \<Longrightarrow> quiet S a (case p of (x, y) \<Rightarrow> k x y)"
  by (cases p) auto

section \<open>The pieces of the code\<close>

lemmas quiet_defs = read_msr_def write_msr_def read_cr0_def write_cr0_def read_cr4_def write_cr4_def read_eflags_def cpuE_def opE_def devE_def
  change_cr0_def change_cr4_def orCrash_def vmxon_def vmptrld_def vmptrst_def vmpclear_def vmread_def vmwrite_def vmxoff_def sregE_def

lemma quiet_vmwrites [quiet]: "Fault \<in> S \<Longrightarrow> quiet S a (vmwrites vx ws)"
  by (induction ws) (auto intro!: quiet simp: quiet_defs)

lemma quiet_prims [quiet]:
  "quiet S a (read_msr hw r)" "quiet S a (write_msr hw r v)" "quiet S a (read_cr0 tx)" "quiet S a (read_cr4 tx)" "quiet S a (read_eflags tx)"
  "quiet S a (cpuE tx i)" "quiet S a (opE vx j)" "quiet S a (devE f)" "quiet S a (change_cr0 tx g)" "quiet S a (change_cr4 tx g)"
  "quiet S a (vmxon vx w)" "quiet S a (vmptrst vx)" "quiet S a (vmxoff vx)" "quiet S a (sregE vx q)"
  by (auto intro!: quiet simp: quiet_defs)

lemma quiet_vmx [quiet]:
  assumes "Fault \<in> S"
  shows "quiet S a (vmptrld vx w)" "quiet S a (vmpclear vx w)" "quiet S a (vmread vx fld)" "quiet S a (vmwrite vx fld v)"
  using assms by (auto intro!: quiet simp: quiet_defs)

lemma quiet_construct_vmcs [quiet]: "Fault \<in> S \<Longrightarrow> quiet S a (construct_vmcs tx vx sy)"
  unfolding construct_vmcs_def write_selectors_def by (intro quiet)

lemma quiet_stop_vmx [quiet]: "Fault \<in> S \<Longrightarrow> quiet S a (stop_vmx tx vx c)"
  unfolding stop_vmx_def by (intro quiet)

lemma quiet_init_vmcs_config [quiet]: "quiet S a (init_vmcs_config hw)"
  unfolding init_vmcs_config_def init_vmx_ctrl_def Let_def by (intro quiet) simp_all

section \<open>The page table of a joining processor\<close>

primrec ap_entries :: "u32 \<Rightarrow> nat \<Rightarrow> nat \<Rightarrow> mem \<Rightarrow> mem" where
  "ap_entries base k 0 m = m"
| "ap_entries base k (Suc n) m = ap_entries base (Suc k) n (st32 (base + 4 * of_nat k) (PTE_FLAGS + 0x400000 * of_nat k) m)"

lemma entry_nat:
  assumes "unat e < 0xffc00000" "j \<le> unat e div 0x400000 + 1"
  shows "unat (PTE_FLAGS + 0x400000 * of_nat j :: u32) = 0xe3 + 0x400000 * j"
proof -
  have "unat e div 0x400000 < 1023" using assms(1) by (simp add: less_mult_imp_div_less)
  then have "0xe3 + 0x400000 * j < 2 ^ 32" using assms(2) by simp
  then have "unat (of_nat (0xe3 + 0x400000 * j) :: u32) = 0xe3 + 0x400000 * j" by (rule unat_of_nat_u32)
  then show ?thesis by (simp add: PTE_FLAGS_def)
qed

lemma entry_le:
  assumes "unat e < 0xffc00000" "j \<le> unat e div 0x400000 + 1"
  shows "PTE_FLAGS + 0x400000 * of_nat j \<le> e + PTE_FLAGS \<longleftrightarrow> j \<le> unat e div 0x400000"
proof -
  have "unat (e + PTE_FLAGS) = unat e + 0xe3" using assms(1) by (simp add: PTE_FLAGS_def unat_word_ariths)
  then show ?thesis unfolding word_le_nat_alt entry_nat [OF assms] by (simp add: less_eq_div_iff_mult_less_eq mult.commute)
qed

lemma ap_pte_loop_run:
  assumes "k + n = unat e div 0x400000 + 1" "unat e < 0xffc00000"
  shows "ap_pte_loop (e + PTE_FLAGS) (PTE_FLAGS + 0x400000 * of_nat k) (base + 4 * of_nat k) m = Some (ap_entries base k n m)"
  using assms(1)
proof (induction n arbitrary: k m)
  case 0
  then show ?case using entry_le [OF assms(2), of k] by (subst ap_pte_loop.simps) simp
next
  case (Suc n)
  have "PTE_FLAGS + 0x400000 * of_nat (Suc k) = PTE_FLAGS + 0x400000 * of_nat k + 0x400000" "base + 4 * of_nat (Suc k) = base + 4 * of_nat k + 4"
    by (simp_all add: algebra_simps)
  then show ?case using entry_le [OF assms(2), of k] Suc.IH [of "Suc k"] Suc.prems
    by (subst ap_pte_loop.simps) (simp del: of_nat_Suc add: add.assoc)
qed

lemma ap_pte_loop_hangs:
  assumes "0xffc000e3 \<le> limit" "unat pt_entry mod 0x400000 = 0xe3"
  shows "ap_pte_loop limit pt_entry pte m = None"
proof -
  have "0xffc000e3 \<le> limit \<longrightarrow> unat pt_entry mod 0x400000 \<noteq> 0xe3" if "ap_pte_loop limit pt_entry pte m = Some m'" for m'
  proof (rule ap_pte_loop.raw_induct [OF _ that])
    fix loop and limit e p :: u32 and m m' :: mem
    assume IH: "\<And>limit e p m m'. loop limit e p m = Some m' \<Longrightarrow> 0xffc000e3 \<le> limit \<longrightarrow> unat e mod 0x400000 \<noteq> 0xe3"
      and run: "(if e \<le> limit then loop limit (e + 0x400000) (p + 4) (st32 p e m) else Some m) = Some m'"
    have "unat (e + 0x400000) mod 0x400000 = unat e mod 0x400000" by (simp add: unat_word_ariths mod_mod_cancel)
    moreover have "unat e mod 0x400000 \<noteq> 0xe3" if "\<not> e \<le> limit" "0xffc000e3 \<le> limit"
    proof -
      have "0xffc000e3 < unat e" using that by (simp add: word_le_nat_alt)
      moreover have "unat e div 0x400000 \<le> 1023" using unat_u32_less [of e] by (simp add: div_le_mono flip: less_Suc_eq_le)
      moreover have "unat e = 0x400000 * (unat e div 0x400000) + unat e mod 0x400000" by simp
      ultimately show ?thesis by linarith
    qed
    ultimately show "0xffc000e3 \<le> limit \<longrightarrow> unat e mod 0x400000 \<noteq> 0xe3" using IH run by (metis option.distinct(1))
  qed
  then show ?thesis using assms by (cases "ap_pte_loop limit pt_entry pte m") auto
qed

text \<open>Four bytes that are stored, in and outside.\<close>

lemma st32_footprint: "x \<notin> footprint a 4 \<Longrightarrow> st32 a v m x = m x"
  by (auto simp: st32_def footprint_def numeral_eq_Suc lessThan_Suc)

lemma slot_footprint: "k < 1024 \<Longrightarrow> footprint (base + 4 * of_nat k) 4 \<subseteq> footprint base 0x1000"
  using footprint_mono [of "4 * k" 4 "0x1000" base] by simp

lemma slots_apart:
  assumes "j \<noteq> k" "j < 1024" "k < 1024"
  shows "4 \<le> (base + 4 * of_nat j) - (base + 4 * of_nat k :: u32)"
proof (cases "k < j")
  case True
  then have "(base + 4 * of_nat j) - (base + 4 * of_nat k) = (of_nat (4 * (j - k)) :: u32)" by (simp add: of_nat_diff algebra_simps)
  then show ?thesis using assms True by (simp add: word_le_nat_alt unat_of_nat_u32 del: of_nat_mult)
next
  case False
  then have "(base + 4 * of_nat j) - (base + 4 * of_nat k) = - (of_nat (4 * (k - j)) :: u32)" by (simp add: of_nat_diff algebra_simps)
  moreover have "unat (- (of_nat (4 * (k - j)) :: u32)) = 2 ^ 32 - 4 * (k - j)"
    using assms False unat_sub_if' [of 0 "of_nat (4 * (k - j)) :: u32"] by (simp add: unat_of_nat_u32 del: of_nat_mult)
  ultimately show ?thesis using assms by (simp add: word_le_nat_alt)
qed

lemma ap_entries_outside: "k + n \<le> 1024 \<Longrightarrow> x \<notin> footprint base 0x1000 \<Longrightarrow> ap_entries base k n m x = m x"
proof (induction n arbitrary: k m)
  case (Suc n)
  then have "x \<notin> footprint (base + 4 * of_nat k) 4" using slot_footprint [of k base] by auto
  then show ?case using Suc by (simp add: st32_footprint)
qed simp

lemma ap_entries_before: "j < k \<Longrightarrow> k + n \<le> 1024 \<Longrightarrow> ld32 (ap_entries base k n m) (base + 4 * of_nat j) = ld32 m (base + 4 * of_nat j)"
proof (induction n arbitrary: k m)
  case (Suc n)
  then show ?case using slots_apart [of j k base] slots_apart [of k j base] by (simp add: ld_st)
qed simp

lemma ap_entries_nth:
  assumes "k \<le> j" "j < k + n" "k + n \<le> 1024"
  shows "ld32 (ap_entries base k n m) (base + 4 * of_nat j) = PTE_FLAGS + 0x400000 * of_nat j"
  using assms
proof (induction n arbitrary: k m)
  case (Suc n)
  then show ?case using ap_entries_before [of k "Suc k" n] by (cases "j = k") (simp_all add: ld_st)
qed simp

lemma build_ap_pagetable_run:
  assumes "unat (sym_end sy) < 0xffc00000"
  shows "build_ap_pagetable sy s = (Ok (), s\<lparr>i_world := i_world s\<lparr>w_mem := ap_entries (sym_idle_pg_table sy) 0 (unat (sym_end sy) div 0x400000 + 1) (i_mem s)\<rparr>\<rparr>)"
  using ap_pte_loop_run [OF _ assms, of 0 "unat (sym_end sy) div 0x400000 + 1" "sym_idle_pg_table sy"]
  by (simp add: build_ap_pagetable_def memE_def getE_def endsE_def returnE_def setmemE_def on_world_def modifyE_def bindE_def)

text \<open>
  The translation of an address by a table of 4 MB pages, as the processor does it: the entry must be present
  and for a large page.
\<close>

definition translate_4M :: "mem \<Rightarrow> u32 \<Rightarrow> u32 \<Rightarrow> u32 option" where
  "translate_4M m cr3 x =
     (let e = ld32 m (cr3 + 4 * drop_bit 22 x) in
      if bit e 0 \<and> bit e 7 then Some ((e AND NOT 0x3fffff) OR (x AND 0x3fffff)) else None)"

lemma page_bits:
  fixes x :: u32
  shows "(x AND NOT 0x3fffff) AND 0xe3 = 0" "(((x AND NOT 0x3fffff) OR 0xe3) AND NOT 0x3fffff) OR (x AND 0x3fffff) = x"
    "0x400000 * drop_bit 22 x = x AND NOT 0x3fffff"
proof -
  have low: "(0x3fffff :: u32) = mask 22" by (simp add: mask_eq_exp_minus_1)
  have f: "(x AND NOT 0x3fffff) AND take_bit 8 f = 0 \<and> (((x AND NOT 0x3fffff) OR take_bit 8 f) AND NOT 0x3fffff) OR (x AND 0x3fffff) = x" for f
    unfolding low by (intro conjI; rule bit_word_eqI; auto simp: bit_simps)
  from f [of "0xe3"] show "(x AND NOT 0x3fffff) AND 0xe3 = 0" "(((x AND NOT 0x3fffff) OR 0xe3) AND NOT 0x3fffff) OR (x AND 0x3fffff) = x"
    by simp_all
  have "0x400000 * drop_bit 22 x = push_bit 22 (drop_bit 22 x)" by (simp add: push_bit_eq_mult)
  also have "\<dots> = x AND NOT (mask 22)" by (rule bit_word_eqI) (auto simp: bit_simps)
  finally show "0x400000 * drop_bit 22 x = x AND NOT 0x3fffff" by (simp only: low)
qed

lemma entry_bits: "PTE_FLAGS + 0x400000 * drop_bit 22 (x :: u32) = (x AND NOT 0x3fffff) OR 0xe3"
  unfolding page_bits(3) PTE_FLAGS_def add.commute [of "0xe3"] by (rule disjunctive_add_eq_or) (rule page_bits)

text \<open>
  C27: The page table that a joining processor switches to is the identity on the memory of the loader: when the
  loader ends below the last 4 MB, \<open>build_ap_pagetable\<close> ends, every address up to the end of the loader is
  translated to itself, and no memory outside the page of the table is changed.
\<close>

theorem build_ap_pagetable_identity:
  assumes "unat (sym_end sy) < 0xffc00000"
  shows "\<exists>s'. build_ap_pagetable sy s = (Ok (), s') \<and>
    (\<forall>x \<le> sym_end sy. translate_4M (i_mem s') (sym_idle_pg_table sy) x = Some x) \<and>
    (\<forall>x. x \<notin> footprint (sym_idle_pg_table sy) 0x1000 \<longrightarrow> i_mem s' x = i_mem s x)"
proof -
  let ?n = "unat (sym_end sy) div 0x400000 + 1"
  let ?m = "ap_entries (sym_idle_pg_table sy) 0 ?n (i_mem s)"
  have n: "0 + ?n \<le> 1024" using assms by (simp add: less_mult_imp_div_less Suc_le_eq)
  have "translate_4M ?m (sym_idle_pg_table sy) x = Some x" if "x \<le> sym_end sy" for x
  proof -
    have "unat x div 0x400000 < ?n" using that by (simp add: word_le_nat_alt div_le_mono less_Suc_eq_le)
    then have "ld32 ?m (sym_idle_pg_table sy + 4 * of_nat (unat x div 0x400000)) = PTE_FLAGS + 0x400000 * of_nat (unat x div 0x400000)"
      using n by (intro ap_entries_nth) auto
    moreover have "unat x div 0x400000 < 2 ^ 32" by (rule le_less_trans [OF div_le_dividend unat_u32_less])
    then have "of_nat (unat x div 0x400000) = drop_bit 22 x" by (simp add: word_unat_eq_iff drop_bit_eq_div unat_of_nat_u32 unat_div)
    ultimately have "ld32 ?m (sym_idle_pg_table sy + 4 * drop_bit 22 x) = (x AND NOT 0x3fffff) OR 0xe3" by (simp only: entry_bits)
    moreover have "bit ((x AND NOT 0x3fffff) OR 0xe3) 0" "bit ((x AND NOT 0x3fffff) OR 0xe3) 7" by (simp_all add: bit_simps)
    moreover have "(((x AND NOT 0x3fffff) OR 0xe3) AND NOT 0x3fffff) OR (x AND 0x3fffff) = x" by (rule page_bits)
    ultimately show ?thesis by (simp add: translate_4M_def Let_def)
  qed
  then show ?thesis using build_ap_pagetable_run [OF assms, of s] ap_entries_outside [OF n] by auto
qed

theorem build_ap_pagetable_identity_witness:
  "\<exists>s'. build_ap_pagetable demo_symbols (sim_intel (\<lambda>_. 0) (0 :: nat)) = (Ok (), s') \<and>
    translate_4M (i_mem s') 0x900000 0x8fffff = Some 0x8fffff"
  using build_ap_pagetable_identity [of demo_symbols "sim_intel (\<lambda>_. 0) (0 :: nat)"] by (auto simp: demo_symbols_def)

section \<open>The counters\<close>

text \<open>The word of \<open>num_in_wfs\<close> lies outside what the processors write.\<close>

abbreviation wfs_word :: "symbols \<Rightarrow> u32" where
  "wfs_word sy \<equiv> num_in_wfs (tboot_shared sy)"

definition ap_layout :: "symbols \<Rightarrow> bool" where
  "ap_layout sy \<longleftrightarrow> footprint (wfs_word sy) 4 \<inter> (footprint (sym_host_vmcs sy) 0x1000 \<union> footprint (sym_ap_vmcs sy) (512 * 0x1000) \<union>
     footprint (sym_idle_pg_table sy) 0x1000 \<union> footprint (sym_ap_lock sy) 4 \<union> {sym_gdt sy + 29}) = {}"

lemma quiet_build_ap_pagetable [quiet]:
  assumes "ap_layout sy" "Hang \<in> S"
  shows "quiet S (wfs_word sy) (build_ap_pagetable sy)"
proof -
  have keep: "ld32 m' (wfs_word sy) = ld32 m (wfs_word sy)"
    if "ap_pte_loop (sym_end sy + PTE_FLAGS) PTE_FLAGS (sym_idle_pg_table sy) m = Some m'" for m m'
  proof -
    consider "unat (sym_end sy) < 0xffc00000" | "0xffc000e3 \<le> sym_end sy + PTE_FLAGS" | "sym_end sy + PTE_FLAGS < PTE_FLAGS"
    proof -
      have "unat (sym_end sy + PTE_FLAGS) = (if unat (sym_end sy) + 0xe3 < 2 ^ 32 then unat (sym_end sy) + 0xe3 else unat (sym_end sy) + 0xe3 - 2 ^ 32)"
        using unat_u32_less [of "sym_end sy"] by (simp add: PTE_FLAGS_def unat_word_ariths mod_if)
      then show thesis using that unat_u32_less [of "sym_end sy"] by (force simp: PTE_FLAGS_def word_le_nat_alt word_less_nat_alt split: if_splits)
    qed
    then show ?thesis
    proof cases
      case 1
      then have n: "0 + (unat (sym_end sy) div 0x400000 + 1) \<le> 1024" by (simp add: less_mult_imp_div_less Suc_le_eq)
      have "m' = ap_entries (sym_idle_pg_table sy) 0 (unat (sym_end sy) div 0x400000 + 1) m"
        using ap_pte_loop_run [OF _ 1, of 0 "unat (sym_end sy) div 0x400000 + 1" "sym_idle_pg_table sy" m] that by simp
      moreover have "x \<notin> footprint (sym_idle_pg_table sy) 0x1000" if "x \<in> footprint (wfs_word sy) 4" for x
        using assms(1) that by (auto simp: ap_layout_def)
      ultimately show ?thesis using ap_entries_outside [OF n] by (intro ld32_cong) blast
    next
      case 2
      then show ?thesis using ap_pte_loop_hangs [OF 2, of PTE_FLAGS] that by (simp add: PTE_FLAGS_def)
    next
      case 3
      then show ?thesis using that by (simp add: ap_pte_loop.simps not_le [symmetric])
    qed
  qed
  show ?thesis using assms(2) keep
    by (auto simp: quiet_def build_ap_pagetable_def memE_def getE_def endsE_def returnE_def stopE_def setmemE_def on_world_def modifyE_def bindE_def intel_ok_def
        split: option.splits)
qed

lemma layout_parts:
  assumes "ap_layout sy" "x \<in> footprint (wfs_word sy) 4"
  shows "x \<notin> footprint (sym_host_vmcs sy) 0x1000" "x \<notin> footprint (sym_ap_vmcs sy) (512 * 0x1000)" "x \<notin> footprint (sym_ap_lock sy) 4" "x \<noteq> sym_gdt sy + 29"
  using assms by (auto simp: ap_layout_def)

lemma ap_vmcs_footprint:
  assumes "cpuid < NR_CPUS"
  shows "footprint (sym_ap_vmcs sy + cpuid * 0x1000) 0x1000 \<subseteq> footprint (sym_ap_vmcs sy) (512 * 0x1000)"
proof -
  have "unat cpuid * 0x1000 + 0x1000 \<le> 512 * 0x1000" using assms by (simp add: NR_CPUS_def word_less_nat_alt)
  from footprint_mono [OF this, of "sym_ap_vmcs sy"] show ?thesis by simp
qed

lemma quiet_start_vmx [quiet]:
  assumes "ap_layout sy" "Hang \<in> S"
  shows "quiet S (wfs_word sy) (start_vmx hw tx vx sy)"
proof -
  have "ld32 (memset (sym_host_vmcs sy) 0 0x1000 m) (wfs_word sy) = ld32 m (wfs_word sy)" for m
    by (rule ld32_cong, rule memset_footprint) (use layout_parts [OF assms(1)] in simp)
  moreover have "ld32 (st32 (sym_host_vmcs sy) r m) (wfs_word sy) = ld32 m (wfs_word sy)" for r m
    by (rule ld32_cong, rule st32_footprint) (use layout_parts [OF assms(1)] footprint_take [of 4 "0x1000" "sym_host_vmcs sy"] in auto)
  ultimately show ?thesis using assms unfolding start_vmx_def by (intro quiet) simp_all
qed

lemma quiet_vmx_create_vmcs [quiet]:
  assumes "ap_layout sy" "cpuid < NR_CPUS" "Fault \<in> S"
  shows "quiet S (wfs_word sy) (vmx_create_vmcs tx vx sy cpuid)"
proof -
  let ?v = "sym_ap_vmcs sy + cpuid * 0x1000"
  have "ld32 (memset ?v 0 0x1000 m) (wfs_word sy) = ld32 m (wfs_word sy)" for m
    by (rule ld32_cong, rule memset_footprint) (use layout_parts(2) [OF assms(1)] ap_vmcs_footprint [OF assms(2)] in auto)
  moreover have "ld32 (st32 ?v r m) (wfs_word sy) = ld32 m (wfs_word sy)" for r m
    by (rule ld32_cong, rule st32_footprint)
      (use layout_parts(2) [OF assms(1)] ap_vmcs_footprint [OF assms(2)] footprint_take [of 4 "0x1000" ?v] in auto)
  ultimately show ?thesis using assms unfolding vmx_create_vmcs_def Let_def by (intro quiet) simp_all
qed

lemma quiet_mtx_leave [quiet]: "ap_layout sy \<Longrightarrow> quiet S (wfs_word sy) (mtx_leave (sym_ap_lock sy))"
  unfolding mtx_leave_def by (intro quiet ld32_cong st32_footprint) (rule layout_parts)

lemma quiet_gdt [quiet]: "ap_layout sy \<Longrightarrow> quiet S (wfs_word sy) (setmemE (st8 (sym_gdt sy + 29) v))"
  by (intro quiet ld32_cong) (use layout_parts(4) in \<open>auto simp: st8_def\<close>)








text \<open>The code between two operations on the counters leaves both alone.\<close>

lemma quietD:
  assumes "quiet S a m" "intel_ok s" "m s = (r, s')"
  shows "intel_ok s'" "ap_wfs_count s' = ap_wfs_count s" "ld32 (i_mem s') a = ld32 (i_mem s) a"
  using assms unfolding quiet_def by (metis fst_conv snd_conv)+

lemma quiet_enterE [quiet]: "Guest \<in> S \<Longrightarrow> quiet S a (enterE vx i)"
  unfolding enterE_def by (intro quiet)

lemma quiet_prepare_guest:
  assumes "ap_layout sy"
  shows "quiet {Fault, Hang} (wfs_word sy) (prepare_guest hw tx vx sy cpuid)"
proof -
  have "sym_gdt sy + (push_bit 3 3 + 5) = sym_gdt sy + 29" by simp
  then show ?thesis unfolding prepare_guest_def using assms by (simp only:) (intro quiet; simp)
qed

lemma quiet_exit_guest: "quiet {Fault, Guest} a (exit_guest hw tx vx)"
  unfolding exit_guest_def Let_def vmresume_def print_failed_vmentry_reason_def by (intro quiet) simp_all

lemma count_wfs_run: "count_wfs v s = (r, s') \<longleftrightarrow> r = Ok () \<and> s' = s\<lparr>ap_wfs_count := ap_wfs_count s + v\<rparr>"
  by (auto simp: count_wfs_def modifyE_def)

lemma setmemE_run: "setmemE f s = (r, s') \<longleftrightarrow> r = Ok () \<and> s' = s\<lparr>i_world := i_world s\<lparr>w_mem := f (i_mem s)\<rparr>\<rparr>"
  by (auto simp: setmemE_def on_world_def modifyE_def)

lemma count_in_wfs_run:
  "count_in_wfs sy v s = (r, s') \<longleftrightarrow> r = Ok () \<and> s' = s\<lparr>i_world := i_world s\<lparr>w_mem := st32 (wfs_word sy) (ld32 (i_mem s) (wfs_word sy) + v) (i_mem s)\<rparr>\<rparr>"
  unfolding count_in_wfs_def by (rule setmemE_run)

text \<open>A processor joins.\<close>

lemma quiet_rsdp_loop [quiet]: "quiet S a (rsdp_loop n p)"
  by (induction n arbitrary: p) (auto intro!: quiet)

lemma quiet_search_table [quiet]: "Hang \<in> S \<Longrightarrow> quiet S a (search_table w nm p)"
  unfolding search_table_def by (intro quiet)

lemma quiet_get_madt_apic_base [quiet]: "Hang \<in> S \<Longrightarrow> quiet S a get_madt_apic_base"
  unfolding get_madt_apic_base_def get_apic_table_def find_table_def find_rsdp_def find_rsdp_in_range_def get_xsdt_def get_rsdt_def
  by (intro quiet) simp_all

lemma quiet_restore_mtrrs [quiet]: "quiet S a (restore_mtrrs hw p)"
proof -
  have "quiet S a (restore_loop hw st n i)" for st n i by (induction n arbitrary: i) (auto intro!: quiet)
  then show ?thesis unfolding restore_mtrrs_def set_all_mtrrs_def by (intro quiet)
qed





section \<open>Interleaving\<close>

text \<open>
  Where a processor is: outside (not yet woken, halted, or with the kernel); joined, that is counted by
  \<open>ap_wfs_count\<close>; stranded, come back because virtualisation could not be started; counted by \<open>num_in_wfs\<close> too and
  about to enter its guest; waiting in the guest; waiting in \<open>ap_wait\<close>; leaving, between the decrement of
  \<open>ap_wfs_count\<close> and that of \<open>num_in_wfs\<close>.
\<close>

datatype phase = Outside | Joined | Stranded | Counted | Waiting | Monitoring | Leaving


definition inside_phase :: "phase \<Rightarrow> bool" where
  "inside_phase p \<longleftrightarrow> p \<in> {Counted, Waiting, Monitoring, Leaving}"

text \<open>
  The shared state, the place of each processor and the value of \<open>ap_wfs_count\<close> that the first processor has read for
  \<open>num_in_wfs\<close> at the end of \<open>intel_post_launch\<close>. The last component is not of the program: whether
  \<open>num_in_wfs\<close> has been right since the start or since it was last written as a whole.
\<close>

record 'd config =
  cf_state :: "'d intel"
  cf_phase :: "u32 \<Rightarrow> phase"
  cf_read :: "u32 option"
  cf_exact :: bool

definition goes :: "u32 \<Rightarrow> phase \<Rightarrow> 'd intel \<Rightarrow> 'd config \<Rightarrow> 'd config" where
  "goes c p s x = x\<lparr>cf_state := s, cf_phase := (cf_phase x)(c := p)\<rparr>"

text \<open>
  A step has at most one operation on a counter: the routines of the processors are cut at each of them, so that
  the others can run between any two. The rest of a routine leaves the counters alone; what other
  processors do during it is \<open>ap_other\<close>, any change of the state that keeps the counters. The first processor
  clears the page of \<open>num_in_wfs\<close> (\<open>boot_page\<close>, any change of the memory, for the pieces of \<open>init_shared\<close>), reads
  \<open>ap_wfs_count\<close> and writes \<open>num_in_wfs\<close>, in steps of their own as at the end of \<open>intel_post_launch\<close>.
  \<open>shutdown\<close> itself changes the counters after its loops only, where it sets \<open>ap_wfs_count\<close> to 0: this ends the runs.
\<close>

inductive ap_step :: "(u32 \<Rightarrow> 'd hw) \<Rightarrow> (u32 \<Rightarrow> 'd txt_hw) \<Rightarrow> (u32 \<Rightarrow> 'd vmx_hw) \<Rightarrow> symbols \<Rightarrow> 'd config \<Rightarrow> 'd config \<Rightarrow> bool"
  for hw tx vx sy where
  ap_join: "c < NR_CPUS \<Longrightarrow> cf_phase x c = Outside \<Longrightarrow> join_environment (hw c) (tx c) (cf_state x) = (Ok True, s') \<Longrightarrow>
    ap_step hw tx vx sy x (goes c Joined s' x)"
| ap_sent_back: "c < NR_CPUS \<Longrightarrow> cf_phase x c = Outside \<Longrightarrow> rejoin sy (cf_state x) = (Ok (), s') \<Longrightarrow>
    ap_step hw tx vx sy x (goes c Joined s' x)"
| ap_strand: "cf_phase x c = Joined \<Longrightarrow> prepare_guest (hw c) (tx c) (vx c) sy c (cf_state x) = (Ok r, s') \<Longrightarrow> r \<noteq> Some True \<Longrightarrow>
    ap_step hw tx vx sy x (goes c Stranded s' x)"
| ap_count: "cf_phase x c = Joined \<Longrightarrow> prepare_guest (hw c) (tx c) (vx c) sy c (cf_state x) = (Ok (Some True), t) \<Longrightarrow>
    count_in_wfs sy 1 t = (Ok (), s') \<Longrightarrow> ap_step hw tx vx sy x (goes c Counted s' x)"
| ap_enter: "cf_phase x c = Counted \<Longrightarrow> vmlaunch (vx c) (cf_state x) = (Stop Guest, s') \<Longrightarrow>
    ap_step hw tx vx sy x (goes c Waiting s' x)"
| ap_refused: "cf_phase x c = Counted \<Longrightarrow> vmlaunch (vx c) (cf_state x) = (Ok (), t) \<Longrightarrow> count_wfs (- 1) t = (Ok (), s') \<Longrightarrow>
    ap_step hw tx vx sy x (goes c Leaving s' x)"
| ap_stay: "cf_phase x c = Waiting \<Longrightarrow> exit_guest (hw c) (tx c) (vx c) (cf_state x) = (r, s') \<Longrightarrow> r \<in> {Stop Guest, Ok None} \<Longrightarrow>
    ap_step hw tx vx sy x (goes c Waiting s' x)"
| ap_exit: "cf_phase x c = Waiting \<Longrightarrow> exit_guest (hw c) (tx c) (vx c) (cf_state x) = (Ok (Some e), t) \<Longrightarrow>
    count_wfs (- 1) t = (Ok (), s') \<Longrightarrow> ap_step hw tx vx sy x (goes c Leaving s' x)"
| ap_monitor: "cf_phase x c = Joined \<Longrightarrow> count_in_wfs sy 1 (cf_state x) = (Ok (), s') \<Longrightarrow>
    ap_step hw tx vx sy x (goes c Monitoring s' x)"
| ap_woken: "cf_phase x c = Monitoring \<Longrightarrow> count_wfs (- 1) (cf_state x) = (Ok (), s') \<Longrightarrow>
    ap_step hw tx vx sy x (goes c Leaving s' x)"
| ap_left: "cf_phase x c = Leaving \<Longrightarrow> count_in_wfs sy (- 1) (cf_state x) = (Ok (), s') \<Longrightarrow>
    ap_step hw tx vx sy x (goes c Outside s' x)"
| ap_other: "intel_ok s' \<Longrightarrow> ap_wfs_count s' = ap_wfs_count (cf_state x) \<Longrightarrow>
    ld32 (i_mem s') (wfs_word sy) = ld32 (i_mem (cf_state x)) (wfs_word sy) \<Longrightarrow> ap_step hw tx vx sy x (x\<lparr>cf_state := s'\<rparr>)"
| boot_page: "setmemE f (cf_state x) = (Ok (), s') \<Longrightarrow>
    ap_step hw tx vx sy x (x\<lparr>cf_state := s', cf_exact := False\<rparr>)"
| boot_read: "ap_step hw tx vx sy x (x\<lparr>cf_read := Some (ap_wfs_count (cf_state x))\<rparr>)"
| boot_write: "cf_read x = Some v \<Longrightarrow> setmemE (st32 (wfs_word sy) v) (cf_state x) = (Ok (), s') \<Longrightarrow>
    ap_step hw tx vx sy x (x\<lparr>cf_state := s', cf_read := None, cf_exact := (v = of_nat (card {c. inside_phase (cf_phase x c)}))\<rparr>)"


text \<open>
  The routines are cut where the code has the counters: a whole run that ends in the guest, and one that ends in real
  mode, are such sequences of steps.
\<close>

lemma quiet_result:
  assumes "quiet S a m" "intel_ok s" "m s = (Stop st, s')"
  shows "st \<in> S"
  using assms unfolding quiet_def by force

lemma handle_in_steps:
  assumes "ap_layout sy" "intel_ok (cf_state x)" "cf_phase x c = Joined"
    and run: "handle_init_sipi_sipi (hw c) (tx c) (vx c) sy c (cf_state x) = (Stop Guest, s')"
  shows "\<exists>u. ap_step hw tx vx sy x (goes c Counted u x) \<and> ap_step hw tx vx sy (goes c Counted u x) (goes c Waiting s' (goes c Counted u x))"
proof -
  obtain r t where p: "prepare_guest (hw c) (tx c) (vx c) sy c (cf_state x) = (r, t)" by fastforce
  note qp = quiet_prepare_guest [OF assms(1)]
  have t: "intel_ok t" by (rule quietD [OF qp assms(2) p])
  have told: "tell y z \<noteq> (Stop Guest, s')" if "intel_ok z" for y z using quiet_result [OF quiet_tell(1) [where S = "{}"] that] by blast
  have stop: "r \<noteq> Stop Guest" using quiet_result [OF qp assms(2), of "hw c" "tx c" "vx c" c Guest t] p by auto
  have r: "r = Ok (Some True)"
  proof (cases r)
    case (Ok w)
    then show ?thesis using run p told [OF t] by (cases w; cases "the w") (auto simp: handle_init_sipi_sipi_def bindE_def returnE_def)
  qed (use run p stop in \<open>auto simp: handle_init_sipi_sipi_def bindE_def\<close>)
  obtain u where u: "count_in_wfs sy 1 t = (Ok (), u)" by (simp add: count_in_wfs_run)
  have "intel_ok u" using u t by (simp add: count_in_wfs_run intel_ok_def)
  obtain q v where q: "vmlaunch (vx c) u = (q, v)" by fastforce
  have ql: "quiet {Guest} (wfs_word sy) (vmlaunch (vx c))" unfolding vmlaunch_def by (intro quiet) simp
  have "q = Stop Guest"
  proof (rule ccontr)
    assume "q \<noteq> Stop Guest"
    with q ql \<open>intel_ok u\<close> have "q = Ok ()" unfolding quiet_def by (metis fst_conv old.unit.exhaust singletonD)
    obtain w z where w: "count_wfs (- 1) v = (Ok (), w)" "count_in_wfs sy (- 1) w = (Ok (), z)" by (simp add: count_wfs_run count_in_wfs_run)
    have "intel_ok z" using w quietD(1) [OF ql \<open>intel_ok u\<close> q] by (simp add: count_wfs_run count_in_wfs_run intel_ok_def)
    moreover have "bindE (vmread (vx c) VM_INSTRUCTION_ERROR) (\<lambda>error. bindE (tell_all [Num ''vmlaunch failed for cpu '' c, Num ''error '' error])
        (\<lambda>_. tell (Info (''control should not return here from launch_mini_guest'' @ nl)))) z = (Stop Guest, s')"
      using run p [unfolded r] u q [unfolded \<open>q = Ok ()\<close>] w
      by (simp add: handle_init_sipi_sipi_def launch_mini_guest_def bindE_assoc bindE_cases)
    moreover have "quiet {Fault} (wfs_word sy) (bindE (vmread (vx c) VM_INSTRUCTION_ERROR) (\<lambda>error. bindE (tell_all [Num ''vmlaunch failed for cpu '' c, Num ''error '' error])
        (\<lambda>_. tell (Info (''control should not return here from launch_mini_guest'' @ nl)))))" by (intro quiet) simp
    ultimately show False using quiet_result by fastforce
  qed
  moreover have "v = s'" using run p r u q calculation
    by (simp add: handle_init_sipi_sipi_def launch_mini_guest_def bindE_def)
  ultimately show ?thesis
    using ap_count [of x c hw tx vx sy t u] ap_enter [of "goes c Counted u x" c vx v] assms(3) p r u q by (auto simp: goes_def)
qed

lemma handler_in_steps:
  assumes "intel_ok (cf_state x)" "cf_phase x c = Waiting"
    and run: "vmx_vmexit_handler (hw c) (tx c) (vx c) sy (cf_state x) = (Stop (Real_mode a), s')"
  shows "\<exists>t u. ap_step hw tx vx sy x (goes c Leaving t x) \<and> ap_step hw tx vx sy (goes c Leaving t x) (goes c Outside u (goes c Leaving t x)) \<and>
    ap_step hw tx vx sy (goes c Outside u (goes c Leaving t x)) (goes c Outside s' (goes c Leaving t x))"
proof -
  obtain r q where p: "exit_guest (hw c) (tx c) (vx c) (cf_state x) = (r, q)" by fastforce
  note qe = quiet_exit_guest [where a = "wfs_word sy"]
  have stop: "r \<noteq> Stop (Real_mode a)" using quiet_result [OF qe assms(1), of "hw c" "tx c" "vx c" "Real_mode a" q] p by auto
  obtain e where r: "r = Ok (Some e)"
  proof (cases r)
    case (Ok w)
    then show thesis using run p that by (cases w) (auto simp: vmx_vmexit_handler_def bindE_def returnE_def)
  qed (use run p stop in \<open>auto simp: vmx_vmexit_handler_def bindE_def\<close>)
  obtain t u where tu: "count_wfs (- 1) q = (Ok (), t)" "count_in_wfs sy (- 1) t = (Ok (), u)" by (simp add: count_wfs_run count_in_wfs_run)
  have u: "intel_ok u" using tu quietD(1) [OF qe assms(1) p] by (simp add: count_wfs_run count_in_wfs_run intel_ok_def)
  have "left_guest (get_apicid (hw c)) e u = (Stop (Real_mode a), s')" using run p r tu by (simp add: vmx_vmexit_handler_def bindE_def)
  moreover have "quiet UNIV (wfs_word sy) (left_guest i e)" for i
    by (cases e) (auto simp: left_guest_def cpu_wakeup_def intro!: quiet)
  ultimately have k: "intel_ok s'" "ap_wfs_count s' = ap_wfs_count u" "ld32 (i_mem s') (wfs_word sy) = ld32 (i_mem u) (wfs_word sy)"
    using quietD [OF _ u] by blast+
  let ?y = "goes c Leaving t x"
  have "ap_step hw tx vx sy x ?y" by (rule ap_exit [where t = q]) (simp_all add: assms p r tu)
  moreover have "ap_step hw tx vx sy ?y (goes c Outside u ?y)" by (rule ap_left) (simp_all add: goes_def tu)
  moreover have "goes c Outside s' ?y = goes c Outside u ?y\<lparr>cf_state := s'\<rparr>" by (simp add: goes_def)
  then have "ap_step hw tx vx sy (goes c Outside u ?y) (goes c Outside s' ?y)"
    by (simp only:) (rule ap_other; simp add: goes_def k)
  ultimately show ?thesis by blast
qed











text \<open>A processor that can virtualise.\<close>

definition demo_vmx :: "'d vmx_hw" where
  "demo_vmx = \<lparr>vx_vmxon = (\<lambda>a d. (False, d)), vx_vmptrld = (\<lambda>a d. (False, d)), vx_vmclear = (\<lambda>a d. (False, d)),
     vx_vmread = (\<lambda>f d. (Some 4, d)), vx_vmwrite = (\<lambda>f v d. (False, d)), vx_enter = (\<lambda>i d. (True, d)), vx_op = (\<lambda>i d. d),
     vx_sreg = (\<lambda>r d. 0x10), vx_cr3 = (\<lambda>d. 0), vx_esp = (\<lambda>d. 0x7000), vx_tr = (\<lambda>d. 0x18), vx_gdtr = (\<lambda>d. (0x1f, 0x883000)),
     vx_idtr = (\<lambda>d. (0, 0)), vx_shared = (\<lambda>a d v. v)\<rparr>"

lemma demo_device [simp]: "on_device (\<lambda>d. (x, d)) s = (Ok x, s)"
  by (simp add: on_device_def on_world_def on_dev_def)

lemma demo_ops [simp]:
  "opE demo_vmx i s = (Ok (), s)" "vmpclear demo_vmx a s = (Ok (), s)" "vmptrld demo_vmx a s = (Ok (), s)" "vmxon demo_vmx a s = (Ok False, s)"
  "change_cr0 (sim_txt r) f s = (Ok (), s)" "change_cr4 (sim_txt r) f s = (Ok (), s)" "read_cr0 (sim_txt r) s = (Ok 0x21, s)"
  "read_cr4 (sim_txt r) s = (Ok 0x4000, s)" "read_eflags (sim_txt r) s = (Ok 0, s)" "devE g s = (Ok (g (w_dev (i_world s))), s)"
  by (simp_all add: quiet_defs write_cr0_def write_cr4_def demo_vmx_def sim_txt_def bindE_def returnE_def) (simp add: on_device_def on_world_def on_dev_def)

lemma demo_writes [simp]: "vmwrites demo_vmx ws s = (Ok (), s)"
  by (induction ws) (simp_all add: vmwrite_def orCrash_def bindE_def returnE_def demo_vmx_def)

lemma demo_regs: "vx_tr demo_vmx d = 0x18" "vx_gdtr demo_vmx d = (0x1f, 0x883000)" "vx_idtr demo_vmx d = (0, 0)"
  by (simp_all add: demo_vmx_def)

lemma demo_parts [simp]:
  "construct_vmcs (sim_txt r) demo_vmx sy s = (Ok (), s)" "init_done s \<Longrightarrow> start_vmx hw (sim_txt r) demo_vmx sy s = (Ok True, s)"
  "vmlaunch demo_vmx s = (Stop Guest, s)" "vmread demo_vmx f s = (Ok 4, s)"
proof -
  show "construct_vmcs (sim_txt r) demo_vmx sy s = (Ok (), s)"
    by (simp add: construct_vmcs_def write_selectors_def sregE_def bindE_def getE_def returnE_def demo_regs del: vmwrites.simps)
  show "init_done s \<Longrightarrow> start_vmx hw (sim_txt r) demo_vmx sy s = (Ok True, s)" by (simp add: start_vmx_def bindE_def getE_def returnE_def)
  show "vmlaunch demo_vmx s = (Stop Guest, s)" by (simp add: vmlaunch_def enterE_def bindE_def stopE_def demo_vmx_def)
  show "vmread demo_vmx f s = (Ok 4, s)" by (simp add: vmread_def bindE_def returnE_def demo_vmx_def)
qed










end
