(* ===== verification/Spec2Isabelle.thy ===== *)
theory Spec2Isabelle
  imports Sable_Correct Cmdline_Correct ACPI_Correct VMX_Correct
begin

text \<open>
  \<^bold>\<open>SABLE, a trusted boot loader: model and proofs.\<close>

  SABLE is started by a multiboot loader, launches itself again in a measured environment (AMD SVM
  or Intel TXT), measures the modules of the next system into a register of the TPM, seals or unseals
  a passphrase that shows the user an untampered machine, and jumps into the next system. This
  development models the C program as state transformers with exceptions and proves what its parts
  compute. The model is that of the release build (\<open>NDEBUG\<close>): the boot flow of \<^verbatim>\<open>src/sable.c\<close> as the AMD
  build has it, and the launch on Intel processors (\<^verbatim>\<open>src/arch-intel\<close>, derived from tboot) from the checks of
  the platform to the start of a Linux kernel and the end of the environment; where a routine differs between
  the two architectures and both versions are modelled, the theory says so.

  \<^bold>\<open>How the program is represented.\<close> A C function that can throw is a function of type
  \<open>'s \<Rightarrow> 'a res \<times> 's\<close> (\<open>Exceptions\<close>): \<open>Ok\<close> a value, \<open>Throw\<close> one of the error codes of
  \<^verbatim>\<open>include/exception.h\<close>, or \<open>Stop\<close>, an end of the run (reboot, the jump to the next system, the
  launch instruction, waiting for ever, or \<open>Fault\<close>, an access the C program has no right to). Machine
  integers are words of their width. The state of the whole loader is the record \<open>world\<close> (\<open>World\<close>): the
  devices, the screen, memory, the keyboard statics, the heap, the TPM buffers, the sessions and the
  static contexts; the Intel build adds the memory map and its own statics (\<open>intel\<close> in \<open>Intel_State\<close>). Devices
  are the parameters \<open>hw\<close>, \<open>txt_hw\<close> (chipset, control registers, \<open>getsec\<close>) and \<open>vmx_hw\<close> (virtualisation), functions
  on an arbitrary device state; what a proof needs of them is a named hypothesis (\<open>tis_device\<close> and
  \<open>wait_returns\<close>), which the simulated machine of \<open>TPM_Sim\<close> satisfies. \<open>tis_device\<close> is an
  idealised TIS device: delays and the burst count are simplified. The heap of \<^verbatim>\<open>src/alloc.c\<close> and the buffers of the program are kept apart from the
  flat memory in which the multiboot structures and modules lie.

  \<^bold>\<open>Theories and the parts they model.\<close>

  \<^item> \<open>Sable_Prelude\<close>, \<open>Exceptions\<close>: bytes, words, endianness; the exception macros and their laws.
  \<^item> \<open>SHA1\<close>, \<open>SHA1_Spec\<close>, \<open>SHA1_Correct\<close>: \<^verbatim>\<open>src/sha.c\<close>, the standard FIPS 180-4, and that the first
    computes the second for any splitting of the message into chunks, up to the size limit of 512 MB.
  \<^item> \<open>Hash_Interface\<close>, \<open>HMAC\<close>: the interface of an incremental hash as a locale, interpreted on
    \<^verbatim>\<open>src/sha.c\<close>; \<^verbatim>\<open>src/hmac.c\<close> computes HMAC-SHA1. \<open>MGF1\<close>: \<^verbatim>\<open>src/mgf1.c\<close> computes the PKCS mask.
  \<^item> \<open>Alloc\<close>: \<^verbatim>\<open>src/alloc.c\<close> as linked nodes in a 32-bit address space; it refines first fit on a list
    of segments, and what it hands out is disjoint.
  \<^item> \<open>Util_Mem\<close>, \<open>Util_Text\<close>: \<^verbatim>\<open>src/util.c\<close>: memory and string routines, the text screen, the command line.
  \<^item> \<open>TPM_Struct\<close>: \<^verbatim>\<open>src/tpm_struct.c\<close>: marshalling with overflow checks and hashing; round trips; the
    secrets of OSAP sessions.
  \<^item> \<open>TIS\<close>, \<open>TPM_Sim\<close>, \<open>TIS_Correct\<close>: \<^verbatim>\<open>src/tis.c\<close>, the TPM interface as a parameter, a simulated TPM, and
    that an exchange delivers the request once and the response unchanged.
  \<^item> \<open>TPM\<close>, \<open>TPM_Correct\<close>, \<open>TPM_Auth\<close>: \<^verbatim>\<open>src/tpm.c\<close>: what each command sends, and exactly which responses
    it accepts, with the authorisation HMACs.
  \<^item> \<open>Keyboard\<close>: \<^verbatim>\<open>src/keyboard.c\<close>: scan codes, modifiers and the line editor.
  \<^item> \<open>ELF\<close>, \<open>ELF_Correct\<close>: \<^verbatim>\<open>src/elf.c\<close>: the code generator of the trampoline, run on a model of the x86
    instructions it emits.
  \<^item> \<open>AMD\<close>: \<^verbatim>\<open>src/arch-amd\<close>: SVM, inter-processor interrupts, PCI and DEV.
  \<^item> \<open>Sable\<close>, \<open>Sable_Correct\<close>: \<^verbatim>\<open>src/sable.c\<close>: the boot flow before and after the launch; what is measured
    into PCR 19.
  \<^item> \<open>Intel_State\<close>, \<open>Intel\<close>: the state of the Intel build, the chipset as a parameter, and rules for code that reads
    memory, prints and decides.
  \<^item> \<open>E820\<close>, \<open>E820_Correct\<close>, \<open>E820_Query\<close>, \<open>E820_Reserve\<close>: \<^verbatim>\<open>src/arch-intel/e820.c\<close>: the memory map as a table that is
    edited in place. Changing the type of a range changes exactly that range, except when it begins at or
    before the first entry; the questions are answered from the map, except that a range longer than the map is
    high wraps; reserving takes exactly the range out of the RAM, except at the start of a first entry that is RAM.
  \<^item> \<open>MDR\<close>, \<open>MDR_Correct\<close>: \<^verbatim>\<open>src/arch-intel/verify.c\<close>: the memory descriptor records of the SINIT module are sorted
    in place, and afterwards only memory in good records is RAM.
  \<^item> \<open>TXT_Heap\<close>: \<^verbatim>\<open>src/arch-intel/heap.c\<close>: the checks of the TXT heap end, and the four tables of an accepted heap lie
    one behind the other inside it.
  \<^item> \<open>ACM\<close>, \<open>ACM_Correct\<close>: \<^verbatim>\<open>src/arch-intel/sinit_acm.c\<close>: finding and checking the SINIT module.
  \<^item> \<open>Loader\<close>, \<open>Loader_Correct\<close>: \<^verbatim>\<open>src/arch-intel/loader.c\<close>: the boot information, the check of the modules against
    the memory map, and the removal of modules.
  \<^item> \<open>Cmdline\<close>, \<open>Cmdline_Correct\<close>: \<^verbatim>\<open>src/arch-intel/cmdline.c\<close>: the numbers \<open>strtoul\<close> reads, and that copying an option
    value with \<open>strncpy\<close> of \<^verbatim>\<open>src/util.c\<close> runs over all of the memory.
  \<^item> \<open>Linux\<close>, \<open>Linux_Correct\<close>: \<^verbatim>\<open>src/arch-intel/linux.c\<close>: where the ramdisk, the boot parameters and the command line
    of a kernel are put.
  \<^item> \<open>ACPI\<close>, \<open>ACPI_Correct\<close>: \<^verbatim>\<open>src/arch-intel/acpi.c\<close>: the search for a table of the firmware.
  \<^item> \<open>MTRR\<close>, \<open>MTRR_Correct\<close>: \<^verbatim>\<open>src/arch-intel/mtrrs.c\<close>: what is saved is restored, and the SINIT module and nothing
    else is cached.
  \<^item> \<open>TXT_Launch\<close>, \<open>TXT_Correct\<close>, \<open>Launch_Correct\<close>: \<^verbatim>\<open>src/arch-intel/txt.c\<close>: the launch; what is RAM after it, that all
    RAM is in the regions protected from devices, and the page table of the environment.
  \<^item> \<open>Platform\<close>: \<^verbatim>\<open>src/arch-intel/platform_checks.c\<close>, \<^verbatim>\<open>src/arch-intel/errors.c\<close> and \<open>intel_post_launch\<close> of
    \<^verbatim>\<open>src/arch-intel/post_launch.c\<close>.
  \<^item> \<open>VMX\<close>, \<open>VMX_Correct\<close>: \<^verbatim>\<open>src/arch-intel/vmcs.c\<close>, the waiting processors of \<^verbatim>\<open>src/arch-intel/txt.c\<close> and \<open>shutdown\<close> of
    \<^verbatim>\<open>src/arch-intel/post_launch.c\<close>: the page table of a joining processor, and the counters by which the
    first processor waits for the others. The processors run as a step relation \<open>ap_step\<close> on the shared
    state in which every operation on a counter is a step of its own.

  \<^bold>\<open>Loops.\<close> Loops over data are structural recursions. Loops that wait for a device are
  \<open>partial_function (option)\<close> and not ending is \<open>Stop Hang\<close>; that they end is proved from the hypotheses
  on the device (a TPM that answers within 4000 polls of 1 ms, the bound of \<open>wait_state\<close>). The search
  for the multiboot header is bounded by the 8192 words of the source, a PCI device by its 8 functions.
  Loops of the Intel launch whose end depends on a table or on wrapping arithmetic are
  \<open>partial_function (option)\<close> too. Busy loops that only pass time are left out.

  \<^bold>\<open>Not modelled.\<close> The branches of the Intel build in \<^verbatim>\<open>src/sable.c\<close>. The assembly files and linker scripts; an
  inline instruction is a call of a parameter. \<^verbatim>\<open>src/arch-intel/dev.c\<close> and \<^verbatim>\<open>src/arch-intel/amd.c\<close>, a part of the code of
  \<^verbatim>\<open>src/arch-amd\<close> once more, and \<^verbatim>\<open>src/arch-intel/mbi_print.c\<close>, which prints the boot information. The strings of
  \<^verbatim>\<open>src/tpm_error.c\<close> and all output of the debug build. The cleanup module. The tool \<^verbatim>\<open>tools/makeheaders\<close>, which is
  not part of the loader.
\<close>

end
